(* ===== verification/Go_Base.thy ===== *)
theory Go_Base
  imports
    Main
    "HOL-Library.Multiset"
    "HOL-Library.AList"
    "HOL-Library.Sublist"
    "HOL-Library.List_Lexorder"
    "HOL-Library.Product_Lexorder"
    "HOL-Library.Char_ord"
begin

section \<open>Prelude: the Go values, strings, maps and sorts the components share\<close>

text \<open>
  The part of the Go language and of its standard library that the sources use:
  errors (\<^verbatim>\<open>errors.New\<close>, \<^verbatim>\<open>fmt.Errorf\<close> with \<^verbatim>\<open>%w\<close>), byte strings
  (package \<^verbatim>\<open>strings\<close>), decimal formatting and parsing (\<^verbatim>\<open>%d\<close>,
  \<^verbatim>\<open>strconv.Atoi\<close>), maps, and \<^verbatim>\<open>sort.Slice\<close> / \<^verbatim>\<open>sort.Strings\<close>.
  Strings are lists of bytes, as Go's are; case mapping and white space are those of ASCII
  (bytes above 127 are left as they are). A Go map is an association list with distinct keys:
  the list order is the iteration order of one execution, which Go leaves unspecified, so a
  statement that holds for every permutation of the list holds for every iteration order.
\<close>

named_theorems go_defs "definitions of the Go runtime model that are safe to unfold"
named_theorems go_map_simps "lookup after update and delete on Go maps"

subsection \<open>Errors\<close>

datatype go_error =
    Err string              \<comment> \<open>\<^verbatim>\<open>errors.New(s)\<close>, or \<^verbatim>\<open>fmt.Errorf\<close> without \<^verbatim>\<open>%w\<close>\<close>
  | Wrapf string go_error   \<comment> \<open>\<^verbatim>\<open>fmt.Errorf("s: %w", e)\<close>\<close>

primrec err_msg :: "go_error \<Rightarrow> string" where
  "err_msg (Err s) = s"
| "err_msg (Wrapf s e) = s @ '': '' @ err_msg e"

primrec errors_Is :: "go_error \<Rightarrow> go_error \<Rightarrow> bool" where
  "errors_Is (Err s) t = (Err s = t)"
| "errors_Is (Wrapf s e) t = (Wrapf s e = t \<or> errors_Is e t)"

type_synonym 'a go_result = "go_error + 'a"

lemma errors_Is_refl [simp]: "errors_Is e e"
  by (cases e) auto

lemma errors_Is_Wrapf [intro]: "errors_Is e t \<Longrightarrow> errors_Is (Wrapf s e) t"
  by simp

subsection \<open>Strings\<close>

definition to_lower_char :: "char \<Rightarrow> char" where
  "to_lower_char c =
     (let n = (of_char c :: nat) in if 65 \<le> n \<and> n \<le> 90 then char_of (n + 32) else c)"

definition to_upper_char :: "char \<Rightarrow> char" where
  "to_upper_char c =
     (let n = (of_char c :: nat) in if 97 \<le> n \<and> n \<le> 122 then char_of (n - 32) else c)"

definition ToLower :: "string \<Rightarrow> string" where
  "ToLower s = map to_lower_char s"

definition ToUpper :: "string \<Rightarrow> string" where
  "ToUpper s = map to_upper_char s"

definition is_space :: "char \<Rightarrow> bool" where
  "is_space c = (let n = (of_char c :: nat) in n = 32 \<or> (9 \<le> n \<and> n \<le> 13))"

definition trim_by :: "('a \<Rightarrow> bool) \<Rightarrow> 'a list \<Rightarrow> 'a list" where
  "trim_by P s = rev (dropWhile P (rev (dropWhile P s)))"

definition TrimSpace :: "string \<Rightarrow> string" where
  "TrimSpace s = trim_by is_space s"

definition Trim :: "string \<Rightarrow> string \<Rightarrow> string" where
  "Trim s cutset = trim_by (\<lambda>c. c \<in> set cutset) s"

definition TrimRight :: "string \<Rightarrow> string \<Rightarrow> string" where
  "TrimRight s cutset = rev (dropWhile (\<lambda>c. c \<in> set cutset) (rev s))"

definition HasPrefix :: "string \<Rightarrow> string \<Rightarrow> bool" where
  "HasPrefix s p = (take (length p) s = p)"

definition HasSuffix :: "string \<Rightarrow> string \<Rightarrow> bool" where
  "HasSuffix s p = HasPrefix (rev s) (rev p)"

definition TrimPrefix :: "string \<Rightarrow> string \<Rightarrow> string" where
  "TrimPrefix s p = (if HasPrefix s p then drop (length p) s else s)"

definition TrimSuffix :: "string \<Rightarrow> string \<Rightarrow> string" where
  "TrimSuffix s p = (if HasSuffix s p then take (length s - length p) s else s)"

text \<open>\<^verbatim>\<open>strings.EqualFold\<close>, up to the case mapping of the model.\<close>

definition EqualFold :: "string \<Rightarrow> string \<Rightarrow> bool" where
  "EqualFold a b = (ToLower a = ToLower b)"

definition ContainsAny :: "string \<Rightarrow> string \<Rightarrow> bool" where
  "ContainsAny s chars = list_ex (\<lambda>c. c \<in> set chars) s"

fun Contains :: "string \<Rightarrow> string \<Rightarrow> bool" where
  "Contains [] p = (p = [])"
| "Contains (c # s) p = (HasPrefix (c # s) p \<or> Contains s p)"

text \<open>
  \<^verbatim>\<open>strings.LastIndex(s, sep)\<close> for a one-byte separator: \<open>None\<close> is the source's \<open>-1\<close>.
\<close>

fun LastIndexByte :: "string \<Rightarrow> char \<Rightarrow> nat option" where
  "LastIndexByte [] c = None"
| "LastIndexByte (x # s) c =
     (case LastIndexByte s c of
        Some i \<Rightarrow> Some (Suc i)
      | None \<Rightarrow> if x = c then Some 0 else None)"

text \<open>\<^verbatim>\<open>strings.ReplaceAll\<close>; the sources only call it with a non-empty pattern.\<close>

fun ReplaceAll :: "string \<Rightarrow> string \<Rightarrow> string \<Rightarrow> string" where
  "ReplaceAll [] old new = []"
| "ReplaceAll (c # s) old new =
     (if old \<noteq> [] \<and> HasPrefix (c # s) old
      then new @ ReplaceAll (drop (length old) (c # s)) old new
      else c # ReplaceAll s old new)"

fun Join :: "string list \<Rightarrow> string \<Rightarrow> string" where
  "Join [] sep = []"
| "Join [x] sep = x"
| "Join (x # y # ys) sep = x @ sep @ Join (y # ys) sep"

text \<open>\<^verbatim>\<open>'%s'\<close>\<close>

definition squote :: "string \<Rightarrow> string" where
  "squote s = CHR 0x27 # s @ [CHR 0x27]"

lemma HasPrefix_iff: "HasPrefix s p \<longleftrightarrow> prefix p s"
  unfolding HasPrefix_def by (metis append_eq_conv_conj prefix_def)

lemma TrimPrefix_append [simp]: "TrimPrefix (p @ s) p = s"
  by (simp add: TrimPrefix_def HasPrefix_def)

lemma Contains_iff: "Contains s p \<longleftrightarrow> sublist p s"
  by (induction s) (auto simp: HasPrefix_iff sublist_Cons_right)

lemma to_lower_char_idem [simp]: "to_lower_char (to_lower_char c) = to_lower_char c"
  by (auto simp: to_lower_char_def Let_def)

lemma ToLower_idem [simp]: "ToLower (ToLower s) = ToLower s"
  by (simp add: ToLower_def)

lemma dropWhile_rev_dropWhile:
  "dropWhile P (rev (dropWhile P (rev (dropWhile P s)))) = rev (dropWhile P (rev (dropWhile P s)))"
proof (cases "dropWhile P s")
  case (Cons a xs)
  then have a: "\<not> P a" using hd_dropWhile [of P s] by simp
  then have "dropWhile P (rev xs @ [a]) = dropWhile P (rev xs) @ [a]"
    by (auto simp: dropWhile_append)
  with Cons a show ?thesis by simp
next
  case Nil
  show ?thesis by (simp only: Nil rev.simps dropWhile.simps)
qed

lemma trim_by_idem [simp]: "trim_by P (trim_by P s) = trim_by P s"
proof -
  have "dropWhile P (rev (trim_by P s)) = rev (trim_by P s)"
    by (simp add: trim_by_def)
  then show ?thesis by (simp add: trim_by_def dropWhile_rev_dropWhile)
qed

lemma set_trim_by: "set (trim_by P s) \<subseteq> set s"
  unfolding trim_by_def by (fastforce dest: set_dropWhileD)

lemma Trim_ToLower_idem [simp]: "Trim (ToLower (Trim (ToLower s) cs)) cs = Trim (ToLower s) cs"
proof -
  have "ToLower t = t" if "set t \<subseteq> set (ToLower s)" for t
    using that by (auto simp: ToLower_def intro!: map_idI)
  then have "ToLower (Trim (ToLower s) cs) = Trim (ToLower s) cs"
    by (simp add: Trim_def set_trim_by)
  then show ?thesis by (simp add: Trim_def)
qed

subsection \<open>Decimal formatting and parsing\<close>

definition digit_char :: "nat \<Rightarrow> char" where
  "digit_char d = char_of (48 + d)"

fun digits10 :: "nat \<Rightarrow> string" where
  "digits10 n = (if n < 10 then [digit_char n] else digits10 (n div 10) @ [digit_char (n mod 10)])"

declare digits10.simps [simp del]

text \<open>The verb \<^verbatim>\<open>%d\<close> on an \<^verbatim>\<open>int\<close>.\<close>

definition fmt_d :: "int \<Rightarrow> string" where
  "fmt_d i = (if i < 0 then ''-'' @ digits10 (nat (- i)) else digits10 (nat i))"

definition is_digit :: "char \<Rightarrow> bool" where
  "is_digit c = (let n = (of_char c :: nat) in 48 \<le> n \<and> n \<le> 57)"

definition undigits :: "string \<Rightarrow> nat" where
  "undigits s = foldl (\<lambda>a c. 10 * a + (of_char c - 48)) 0 s"

text \<open>
  \<^verbatim>\<open>strconv.Atoi\<close>: an optional sign, one or more decimal digits, and a value in the range of
  a 64-bit \<^verbatim>\<open>int\<close>; \<open>None\<close> is a non-nil error. \<^verbatim>\<open>strconv.ParseInt(s, 10, 64)\<close> accepts the same.
\<close>

definition Atoi :: "string \<Rightarrow> int option" where
  "Atoi s =
     (let neg = (s \<noteq> [] \<and> hd s = CHR ''-'');
          body = (if s \<noteq> [] \<and> (hd s = CHR ''-'' \<or> hd s = CHR ''+'') then tl s else s);
          v = (if neg then - int (undigits body) else int (undigits body))
      in if body = [] \<or> \<not> list_all is_digit body then None
         else if - (2 ^ 63) \<le> v \<and> v < 2 ^ 63 then Some v else None)"

lemma of_char_digit_char [simp]: "d < 10 \<Longrightarrow> of_char (digit_char d) = (48 + d :: nat)"
  by (simp add: digit_char_def)

lemma is_digit_digit_char: "d < 10 \<Longrightarrow> is_digit (digit_char d)"
  by (simp add: is_digit_def Let_def)

lemma digits10_digits: "list_all is_digit (digits10 n)"
proof (induction n rule: digits10.induct)
  case (1 n)
  then show ?case by (cases "n < 10") (simp_all add: digits10.simps [of n] is_digit_digit_char)
qed

lemma digits10_not_Nil [simp]: "digits10 n \<noteq> []"
  by (subst digits10.simps) simp

lemma undigits_digits10 [simp]: "undigits (digits10 n) = n"
proof (induction n rule: digits10.induct)
  case (1 n)
  then show ?case by (cases "n < 10") (simp_all add: digits10.simps [of n] undigits_def)
qed

lemma digits10_hd: "hd (digits10 n) \<noteq> CHR ''-''" "hd (digits10 n) \<noteq> CHR ''+''"
proof -
  have "is_digit (hd (digits10 n))"
    using digits10_digits [of n] by (cases "digits10 n") auto
  then show "hd (digits10 n) \<noteq> CHR ''-''" "hd (digits10 n) \<noteq> CHR ''+''"
    by (auto simp: is_digit_def)
qed

lemma Atoi_fmt_d: "- (2 ^ 63) \<le> i \<Longrightarrow> i < 2 ^ 63 \<Longrightarrow> Atoi (fmt_d i) = Some i"
  by (auto simp: Atoi_def fmt_d_def digits10_hd digits10_digits)

lemma fmt_d_inject [simp]: "fmt_d i = fmt_d j \<longleftrightarrow> i = j"
proof
  assume eq: "fmt_d i = fmt_d j"
  have neg: "fmt_d k = CHR ''-'' # digits10 (nat (- k))" if "k < 0" for k using that by (simp add: fmt_d_def)
  have pos: "fmt_d k = digits10 (nat k)" if "0 \<le> k" for k using that by (simp add: fmt_d_def)
  have "(i < 0) = (j < 0)"
    using eq digits10_hd(1) [of "nat i"] digits10_hd(1) [of "nat j"]
    by (cases "i < 0"; cases "j < 0") (auto simp: neg pos dest: arg_cong [of _ _ hd])
  with eq show "i = j"
    by (cases "i < 0")
       (auto simp: neg pos dest: arg_cong [of "digits10 _" "digits10 _" undigits])
qed simp

lemma fmt_d_chars: "c \<in> set (fmt_d i) \<Longrightarrow> is_digit c \<or> c = CHR ''-''"
  using digits10_digits by (auto simp: fmt_d_def list_all_iff split: if_splits)

lemma colon_notin_fmt_d [simp]: "CHR '':'' \<notin> set (fmt_d i)"
  using fmt_d_chars [of "CHR '':''" i] by (auto simp: is_digit_def)

lemma append_sep_inject:
  "c \<notin> set a \<Longrightarrow> c \<notin> set a' \<Longrightarrow> a @ c # b = a' @ c # b' \<longleftrightarrow> a = a' \<and> b = b'"
proof (induction a arbitrary: a')
  case Nil
  then show ?case by (cases a') auto
next
  case (Cons x a)
  then show ?case by (cases a') auto
qed

text \<open>\<^verbatim>\<open>url.PathUnescape\<close>: \<open>None\<close> is the error for a malformed escape.\<close>

definition hex_value :: "char \<Rightarrow> nat option" where
  "hex_value c = (let n = (of_char c :: nat) in
     if 48 \<le> n \<and> n \<le> 57 then Some (n - 48)
     else if 97 \<le> n \<and> n \<le> 102 then Some (n - 87)
     else if 65 \<le> n \<and> n \<le> 70 then Some (n - 55) else None)"

fun PathUnescape :: "string \<Rightarrow> string option" where
  "PathUnescape [] = Some []"
| "PathUnescape (c # s) =
     (if c = CHR ''%''
      then (case s of
              a # b # rest \<Rightarrow>
                (case (hex_value a, hex_value b) of
                   (Some x, Some y) \<Rightarrow> map_option ((#) (char_of (16 * x + y))) (PathUnescape rest)
                 | _ \<Rightarrow> None)
            | _ \<Rightarrow> None)
      else map_option ((#) c) (PathUnescape s))"

subsection \<open>64-bit integers\<close>

text \<open>
  Go's \<^verbatim>\<open>int\<close> and \<^verbatim>\<open>int64\<close> have 64 bits on the supported platforms; arithmetic wraps around.
  Where a value can leave the range the model wraps it explicitly.
\<close>

definition int64 :: "int \<Rightarrow> int" where
  "int64 x = (x + 2 ^ 63) mod 2 ^ 64 - 2 ^ 63"

definition in_int64 :: "int \<Rightarrow> bool" where
  "in_int64 x = (- (2 ^ 63) \<le> x \<and> x < 2 ^ 63)"

lemma int64_id [simp]: "in_int64 x \<Longrightarrow> int64 x = x"
  by (simp add: int64_def in_int64_def)

lemma in_int64_int64 [simp]: "in_int64 (int64 x)"
  using pos_mod_bound [of "2 ^ 64" "x + 2 ^ 63"] by (simp add: int64_def in_int64_def)

lemma fmt_d_first: "\<exists>c cs. fmt_d i = c # cs \<and> (is_digit c \<or> c = CHR ''-'')"
proof (cases "fmt_d i")
  case Nil
  then show ?thesis by (simp add: fmt_d_def split: if_splits)
next
  case (Cons c cs)
  then show ?thesis using fmt_d_chars [of c i] by auto
qed

lemma TrimPrefix_fmt_d [simp]: "\<not> is_digit c \<Longrightarrow> c \<noteq> CHR ''-'' \<Longrightarrow> TrimPrefix (fmt_d i) (c # p) = fmt_d i"
  using fmt_d_first [of i] by (auto simp: TrimPrefix_def HasPrefix_def)

subsection \<open>Maps\<close>

type_synonym ('k, 'v) go_map = "('k \<times> 'v) list"

abbreviation go_get :: "('k, 'v) go_map \<Rightarrow> 'k \<Rightarrow> 'v option" where
  "go_get m k \<equiv> map_of m k"

definition go_put :: "'k \<Rightarrow> 'v \<Rightarrow> ('k, 'v) go_map \<Rightarrow> ('k, 'v) go_map" where
  "go_put k v m = AList.update k v m"

definition go_delete :: "'k \<Rightarrow> ('k, 'v) go_map \<Rightarrow> ('k, 'v) go_map" where
  "go_delete k m = filter (\<lambda>kv. fst kv \<noteq> k) m"

definition go_map_ok :: "('k, 'v) go_map \<Rightarrow> bool" where
  "go_map_ok m = distinct (map fst m)"

text \<open>Building a map by a loop of assignments: a later entry replaces an earlier one.\<close>

definition go_map_of_list :: "('a \<Rightarrow> 'k) \<Rightarrow> ('a \<Rightarrow> 'v) \<Rightarrow> 'a list \<Rightarrow> ('k, 'v) go_map" where
  "go_map_of_list kf vf xs = foldl (\<lambda>m x. go_put (kf x) (vf x) m) [] xs"

lemma go_get_put [simp, go_map_simps]: "go_get (go_put k v m) k' = (if k' = k then Some v else go_get m k')"
  by (simp add: go_put_def update_conv)

lemma go_map_ok_put [simp]: "go_map_ok m \<Longrightarrow> go_map_ok (go_put k v m)"
  by (simp add: go_map_ok_def go_put_def distinct_update)

lemma go_get_delete [simp, go_map_simps]: "go_get (go_delete k m) k' = (if k' = k then None else go_get m k')"
  by (induction m) (auto simp: go_delete_def)

lemma go_map_ok_delete [simp]: "go_map_ok m \<Longrightarrow> go_map_ok (go_delete k m)"
  unfolding go_map_ok_def go_delete_def by (rule distinct_map_filter)

lemma go_map_ok_Nil [simp]: "go_map_ok []"
  by (simp add: go_map_ok_def)

lemma set_go_put: "go_map_ok m \<Longrightarrow> set (go_put k v m) = insert (k, v) {x \<in> set m. fst x \<noteq> k}"
  by (induction m) (auto simp: go_put_def go_map_ok_def rev_image_eqI)

lemma go_map_ok_foldl_put:
  "go_map_ok m \<Longrightarrow> go_map_ok (foldl (\<lambda>m x. go_put (kf x) (vf x) m) m xs)"
  by (induction xs arbitrary: m) simp_all

lemma go_get_foldl_put:
  "go_get (foldl (\<lambda>m x. go_put (kf x) (vf x) m) m xs) k =
     (case find (\<lambda>x. kf x = k) (rev xs) of Some x \<Rightarrow> Some (vf x) | None \<Rightarrow> go_get m k)"
proof (induction xs rule: rev_induct)
  case (snoc x xs)
  then show ?case by (auto split: option.splits)
qed simp

lemma go_get_map_of_list:
  "go_get (go_map_of_list kf vf xs) k = map_option vf (find (\<lambda>x. kf x = k) (rev xs))"
  by (simp add: go_map_of_list_def go_get_foldl_put split: option.splits)

lemma find_unique:
  assumes "x \<in> set xs" and "P x" and "\<And>y. y \<in> set xs \<Longrightarrow> P y \<Longrightarrow> y = x"
  shows "find P xs = Some x"
proof (cases "find P xs")
  case None
  with assms(1,2) show ?thesis by (auto simp: find_None_iff)
next
  case (Some y)
  then have "y \<in> set xs" and "P y" by (auto simp: find_Some_iff)
  with Some assms(3) show ?thesis by simp
qed

lemma find_SomeD: "find P xs = Some x \<Longrightarrow> x \<in> set xs \<and> P x"
  by (auto simp: find_Some_iff)

text \<open>With distinct keys the map is order-independent: every entry is found under its key.\<close>

lemma go_get_map_of_list_distinct:
  assumes "distinct (map kf xs)" and "x \<in> set xs"
  shows "go_get (go_map_of_list kf vf xs) (kf x) = Some (vf x)"
proof -
  have "find (\<lambda>y. kf y = kf x) (rev xs) = Some x"
    using assms by (intro find_unique) (auto simp: distinct_map inj_on_def)
  then show ?thesis by (simp add: go_get_map_of_list)
qed

lemma go_get_map_of_list_None:
  "go_get (go_map_of_list kf vf xs) k = None \<longleftrightarrow> k \<notin> kf ` set xs"
  by (auto simp: go_get_map_of_list find_None_iff)

lemma go_get_map_of_list_SomeD:
  "go_get (go_map_of_list kf vf xs) k = Some v \<Longrightarrow> \<exists>x \<in> set xs. kf x = k \<and> v = vf x"
  by (auto simp: go_get_map_of_list dest!: find_SomeD)

subsection \<open>Sorting\<close>

text \<open>
  \<^verbatim>\<open>sort.Slice\<close> with a comparison of keys. The library's stable sort is one of the results
  Go may return; when the keys of the elements are distinct it is the only one, whatever the
  order of the input, which is what the deterministic listings rest on.
\<close>

definition sort_slice :: "('a \<Rightarrow> 'k::linorder) \<Rightarrow> 'a list \<Rightarrow> 'a list" where
  "sort_slice key xs = sort_key key xs"

lemma set_sort_slice [simp]: "set (sort_slice key xs) = set xs"
  by (simp add: sort_slice_def)

lemma mset_sort_slice [simp]: "mset (sort_slice key xs) = mset xs"
  by (simp add: sort_slice_def)

lemma length_sort_slice [simp]: "length (sort_slice key xs) = length xs"
  by (simp add: sort_slice_def)

lemma sorted_sort_slice: "sorted (map key (sort_slice key xs))"
  by (simp add: sort_slice_def)

lemma sort_slice_unique:
  assumes "mset ys = mset xs" and "inj_on key (set xs)" and "sorted (map key ys)"
  shows "sort_slice key xs = ys"
  unfolding sort_slice_def
proof (rule properties_for_sort_key)
  fix k assume k: "k \<in> set ys"
  have set: "set ys = set xs" using assms(1) by (rule mset_eq_setD)
  have "filter (\<lambda>x. key k = key x) zs = replicate (count (mset zs) k) k" if "mset zs = mset xs" for zs
  proof -
    have "set zs = set xs" using that by (rule mset_eq_setD)
    then have "filter (\<lambda>x. key k = key x) zs = filter (\<lambda>x. k = x) zs"
      using assms(2) k set by (intro filter_cong) (auto simp: inj_on_def)
    also have "\<dots> = replicate (length (filter (\<lambda>x. k = x) zs)) k"
      by (rule replicate_length_filter [symmetric])
    also have "length (filter (\<lambda>x. k = x) zs) = count (mset zs) k"
      by (induction zs) auto
    finally show ?thesis .
  qed
  then show "filter (\<lambda>x. key k = key x) ys = filter (\<lambda>x. key k = key x) xs"
    using assms(1) by metis
qed (use assms in auto)

lemma sort_slice_cong_mset:
  assumes "mset xs = mset ys" and "inj_on key (set xs)"
  shows "sort_slice key xs = sort_slice key ys"
  by (rule sort_slice_unique [OF _ assms(2)]) (simp_all add: assms(1) sorted_sort_slice)

end
