(* ===== verification/Diff_Model.thy ===== *)
theory Diff_Model
  imports Go_Base
begin

section \<open>Actions, diffs and operation results\<close>

text \<open>
  The vocabulary of the reconcilers: \<^verbatim>\<open>internal/governance/operation.go\<close> (action, status and
  resource types, plan and apply results with their constructors) and
  \<^verbatim>\<open>internal/governance/diff.go\<close> (field diffs, resource diffs, the diff builder and the
  comparison helpers). Clock readings (\<^verbatim>\<open>ExecutedAt\<close>, \<^verbatim>\<open>Duration\<close>) are not modelled.
\<close>

subsection \<open>Action, resource and status types (operation.go)\<close>

text \<open>The Go types are string types: \<open>ActionUnset\<close> is the zero value \<^verbatim>\<open>""\<close>.\<close>

datatype action_type =
    ActionUnset | ActionCreate | ActionUpdate | ActionDelete | ActionNoop | ActionAudit | ActionSkipped

datatype resource_type = ResourceTypeProject | ResourceTypeGroup

datatype status_type = StatusSuccess | StatusFailed | StatusSkipped | StatusNoop

fun action_string :: "action_type \<Rightarrow> string" where
  "action_string ActionUnset = ''''"
| "action_string ActionCreate = ''CREATE''"
| "action_string ActionUpdate = ''UPDATE''"
| "action_string ActionDelete = ''DELETE''"
| "action_string ActionNoop = ''NOOP''"
| "action_string ActionAudit = ''AUDIT''"
| "action_string ActionSkipped = ''SKIPPED''"

subsection \<open>Field diffs (diff.go)\<close>

text \<open>The values a field of type \<^verbatim>\<open>any\<close> holds in the sources, and the verb \<^verbatim>\<open>%v\<close> on them.\<close>

datatype go_any = VNil | VStr string | VBool bool | VInt int | VStrs "string list"

fun fmt_v :: "go_any \<Rightarrow> string" where
  "fmt_v VNil = ''<nil>''"
| "fmt_v (VStr s) = s"
| "fmt_v (VBool b) = (if b then ''true'' else ''false'')"
| "fmt_v (VInt i) = fmt_d i"
| "fmt_v (VStrs xs) = ''['' @ Join xs '' '' @ '']''"

record field_diff =
  fd_Field :: string
  fd_OldValue :: go_any
  fd_NewValue :: go_any
  fd_Action :: action_type

definition FieldDiff_String :: "field_diff \<Rightarrow> string" where
  "FieldDiff_String fd =
     (let f = fd_Field fd; old = fmt_v (fd_OldValue fd); new = fmt_v (fd_NewValue fd) in
      case fd_Action fd of
        ActionCreate \<Rightarrow> ''+ '' @ f @ '': '' @ new
      | ActionDelete \<Rightarrow> ''- '' @ f @ '': '' @ old
      | ActionUpdate \<Rightarrow> ''~ '' @ f @ '': '' @ old @ '' -> '' @ new
      | ActionAudit \<Rightarrow>
          (if fd_OldValue fd \<noteq> VNil \<and> fd_NewValue fd \<noteq> VNil
           then ''! '' @ f @ '': '' @ old @ '' -> '' @ new
           else ''! '' @ f @ '': '' @ old)
      | ActionNoop \<Rightarrow> ''  '' @ f @ '': '' @ old
      | _ \<Rightarrow> ''? '' @ f @ '': '' @ old @ '' -> '' @ new)"

definition ansi :: "string \<Rightarrow> string" where
  "ansi code = CHR 0x1B # ''['' @ code @ ''m''"

definition FieldDiff_ColoredString :: "field_diff \<Rightarrow> string" where
  "FieldDiff_ColoredString fd =
     (let f = fd_Field fd; old = fmt_v (fd_OldValue fd); new = fmt_v (fd_NewValue fd);
          reset = ansi ''0'' in
      case fd_Action fd of
        ActionCreate \<Rightarrow> ansi ''32'' @ ''+ '' @ f @ '': '' @ new @ reset
      | ActionDelete \<Rightarrow> ansi ''31'' @ ''- '' @ f @ '': '' @ old @ reset
      | ActionUpdate \<Rightarrow> ansi ''33'' @ ''~ '' @ f @ '': '' @ old @ '' -> '' @ new @ reset
      | ActionAudit \<Rightarrow> ansi ''35'' @ ''! '' @ f @ '': '' @ old @ '' -> '' @ new @ reset
      | _ \<Rightarrow> ''  '' @ f @ '': '' @ old)"

subsection \<open>Resource diffs (diff.go)\<close>

record diff =
  d_Resource :: string
  d_Action :: action_type
  d_Fields :: "field_diff list"
  d_Details :: string

definition Diff_HasChanges :: "diff \<Rightarrow> bool" where
  "Diff_HasChanges d =
     (d_Action d \<noteq> ActionNoop \<and> d_Action d \<noteq> ActionSkipped \<and> (d_Fields d \<noteq> [] \<or> d_Details d \<noteq> []))"

definition Diff_String :: "diff \<Rightarrow> string" where
  "Diff_String d =
     (let a = action_string (d_Action d) in
      if d_Fields d = [] then
        (if d_Details d \<noteq> [] then ''['' @ a @ ''] '' @ d_Resource d @ '': '' @ d_Details d
         else ''['' @ a @ ''] '' @ d_Resource d @ '' (no field changes)'')
      else
        TrimRight
          (''['' @ a @ ''] '' @ d_Resource d
           @ (if d_Details d \<noteq> [] then '' ('' @ d_Details d @ '')'' else '''')
           @ '':\<newline>''
           @ concat (map (\<lambda>f. ''    '' @ FieldDiff_String f @ ''\<newline>'') (d_Fields d)))
          ''\<newline>'')"

definition Diff_ColoredString :: "diff \<Rightarrow> string" where
  "Diff_ColoredString d =
     (let a = action_string (d_Action d) in
      if d_Fields d = [] then
        (if d_Details d \<noteq> []
         then ansi ''1'' @ ''['' @ a @ ''] '' @ d_Resource d @ '':'' @ ansi ''0'' @ '' '' @ d_Details d
         else ''['' @ a @ ''] '' @ d_Resource d)
      else
        TrimRight
          (ansi ''1'' @ ''['' @ a @ ''] '' @ d_Resource d @ '':'' @ ansi ''0'' @ ''\<newline>''
           @ concat (map (\<lambda>f. ''    '' @ FieldDiff_ColoredString f @ ''\<newline>'') (d_Fields d)))
          ''\<newline>'')"

subsection \<open>The diff builder (diff.go)\<close>

record diff_builder =
  b_fields :: "field_diff list"
  b_details :: string

definition NewDiffBuilder :: diff_builder where
  "NewDiffBuilder = \<lparr>b_fields = [], b_details = []\<rparr>"

definition Add :: "field_diff option \<Rightarrow> diff_builder \<Rightarrow> diff_builder" where
  "Add fd b = (case fd of None \<Rightarrow> b | Some f \<Rightarrow> b\<lparr>b_fields := b_fields b @ [f]\<rparr>)"

definition AddField :: "string \<Rightarrow> go_any \<Rightarrow> go_any \<Rightarrow> action_type \<Rightarrow> diff_builder \<Rightarrow> diff_builder" where
  "AddField field oldVal newVal action b =
     b\<lparr>b_fields := b_fields b @
        [\<lparr>fd_Field = field, fd_OldValue = oldVal, fd_NewValue = newVal, fd_Action = action\<rparr>]\<rparr>"

definition SetDetails :: "string \<Rightarrow> diff_builder \<Rightarrow> diff_builder" where
  "SetDetails details b = b\<lparr>b_details := details\<rparr>"

definition Builder_HasChanges :: "diff_builder \<Rightarrow> bool" where
  "Builder_HasChanges b = (b_fields b \<noteq> [] \<or> b_details b \<noteq> [])"

definition Build :: "string \<Rightarrow> action_type \<Rightarrow> diff_builder \<Rightarrow> diff" where
  "Build resource defaultAction b =
     \<lparr>d_Resource = resource,
      d_Action = (if b_fields b = [] \<and> b_details b = [] then ActionNoop else defaultAction),
      d_Fields = b_fields b, d_Details = b_details b\<rparr>"

lemmas builder_defs = NewDiffBuilder_def Add_def AddField_def SetDetails_def Build_def

subsection \<open>Comparison helpers (diff.go)\<close>

definition update_diff :: "string \<Rightarrow> go_any \<Rightarrow> go_any \<Rightarrow> field_diff" where
  "update_diff field old new =
     \<lparr>fd_Field = field, fd_OldValue = old, fd_NewValue = new, fd_Action = ActionUpdate\<rparr>"

definition CompareString :: "string \<Rightarrow> string \<Rightarrow> string \<Rightarrow> field_diff option" where
  "CompareString field live desired =
     (if desired = [] \<or> live = desired then None
      else Some (update_diff field (VStr live) (VStr desired)))"

definition CompareStringPtr :: "string \<Rightarrow> string \<Rightarrow> string option \<Rightarrow> field_diff option" where
  "CompareStringPtr field live desired =
     (case desired of None \<Rightarrow> None
      | Some d \<Rightarrow> if live = d then None else Some (update_diff field (VStr live) (VStr d)))"

definition CompareBoolPtr :: "string \<Rightarrow> bool \<Rightarrow> bool option \<Rightarrow> field_diff option" where
  "CompareBoolPtr field live desired =
     (case desired of None \<Rightarrow> None
      | Some d \<Rightarrow> if live = d then None else Some (update_diff field (VBool live) (VBool d)))"

definition CompareIntPtr :: "string \<Rightarrow> int \<Rightarrow> int option \<Rightarrow> field_diff option" where
  "CompareIntPtr field live desired =
     (case desired of None \<Rightarrow> None
      | Some d \<Rightarrow> if live = d then None else Some (update_diff field (VInt live) (VInt d)))"

text \<open>A nil \<^verbatim>\<open>desired\<close> slice is \<open>None\<close>; both slices are copied, sorted and compared.\<close>

definition CompareStringSlice :: "string \<Rightarrow> string list \<Rightarrow> string list option \<Rightarrow> field_diff option" where
  "CompareStringSlice field live desired =
     (case desired of None \<Rightarrow> None
      | Some d \<Rightarrow> if sort live = sort d then None else Some (update_diff field (VStrs live) (VStrs d)))"

subsection \<open>Plan and apply results (operation.go)\<close>

record plan_result =
  pr_OperationName :: string
  pr_ResourceType :: resource_type
  pr_ResourceID :: int
  pr_ResourcePath :: string
  pr_Action :: action_type
  pr_Diffs :: "diff list"
  pr_HasChanges :: bool
  pr_Details :: string
  pr_Error :: "go_error option"

record apply_result =
  ar_OperationName :: string
  ar_ResourceType :: resource_type
  ar_ResourceID :: int
  ar_ResourcePath :: string
  ar_Action :: action_type
  ar_Diffs :: "diff list"
  ar_Status :: status_type
  ar_Success :: bool
  ar_Details :: string
  ar_Error :: "go_error option"

definition NewPlanResult ::
  "string \<Rightarrow> resource_type \<Rightarrow> int \<Rightarrow> string \<Rightarrow> action_type \<Rightarrow> diff list \<Rightarrow> plan_result" where
  "NewPlanResult op rType i path action diffs =
     \<lparr>pr_OperationName = op, pr_ResourceType = rType, pr_ResourceID = i, pr_ResourcePath = path,
      pr_Action = action, pr_Diffs = diffs,
      pr_HasChanges = (action \<noteq> ActionNoop \<and> action \<noteq> ActionSkipped \<and> diffs \<noteq> []),
      pr_Details = [], pr_Error = None\<rparr>"

definition NewNoopPlanResult :: "string \<Rightarrow> resource_type \<Rightarrow> int \<Rightarrow> string \<Rightarrow> plan_result" where
  "NewNoopPlanResult op rType i path =
     \<lparr>pr_OperationName = op, pr_ResourceType = rType, pr_ResourceID = i, pr_ResourcePath = path,
      pr_Action = ActionNoop, pr_Diffs = [], pr_HasChanges = False, pr_Details = [], pr_Error = None\<rparr>"

definition NewSkippedPlanResult :: "string \<Rightarrow> resource_type \<Rightarrow> int \<Rightarrow> string \<Rightarrow> string \<Rightarrow> plan_result" where
  "NewSkippedPlanResult op rType i path reason =
     \<lparr>pr_OperationName = op, pr_ResourceType = rType, pr_ResourceID = i, pr_ResourcePath = path,
      pr_Action = ActionSkipped, pr_Diffs = [], pr_HasChanges = False, pr_Details = reason,
      pr_Error = None\<rparr>"

definition NewApplyResult ::
  "string \<Rightarrow> resource_type \<Rightarrow> int \<Rightarrow> string \<Rightarrow> action_type \<Rightarrow> status_type \<Rightarrow> diff list
   \<Rightarrow> go_error option \<Rightarrow> apply_result" where
  "NewApplyResult op rType i path action status diffs err =
     \<lparr>ar_OperationName = op, ar_ResourceType = rType, ar_ResourceID = i, ar_ResourcePath = path,
      ar_Action = action, ar_Diffs = diffs, ar_Status = status,
      ar_Success = (status = StatusSuccess \<or> status = StatusNoop \<or> status = StatusSkipped),
      ar_Details = [], ar_Error = err\<rparr>"

definition NewNoopApplyResult :: "string \<Rightarrow> resource_type \<Rightarrow> int \<Rightarrow> string \<Rightarrow> apply_result" where
  "NewNoopApplyResult op rType i path =
     \<lparr>ar_OperationName = op, ar_ResourceType = rType, ar_ResourceID = i, ar_ResourcePath = path,
      ar_Action = ActionNoop, ar_Diffs = [], ar_Status = StatusNoop, ar_Success = True,
      ar_Details = [], ar_Error = None\<rparr>"

definition NewSkippedApplyResult :: "string \<Rightarrow> resource_type \<Rightarrow> int \<Rightarrow> string \<Rightarrow> string \<Rightarrow> apply_result" where
  "NewSkippedApplyResult op rType i path reason =
     \<lparr>ar_OperationName = op, ar_ResourceType = rType, ar_ResourceID = i, ar_ResourcePath = path,
      ar_Action = ActionSkipped, ar_Diffs = [], ar_Status = StatusSkipped, ar_Success = True,
      ar_Details = reason, ar_Error = None\<rparr>"

lemmas result_defs = NewPlanResult_def NewNoopPlanResult_def NewSkippedPlanResult_def
  NewApplyResult_def NewNoopApplyResult_def NewSkippedApplyResult_def

subsection \<open>Lemmas\<close>

lemma CompareBoolPtr_None: "CompareBoolPtr f live d = None \<longleftrightarrow> (d = None \<or> d = Some live)"
  by (auto simp: CompareBoolPtr_def split: option.splits)

lemma CompareStringPtr_None: "CompareStringPtr f live d = None \<longleftrightarrow> (d = None \<or> d = Some live)"
  by (auto simp: CompareStringPtr_def split: option.splits)

lemma CompareIntPtr_None: "CompareIntPtr f live d = None \<longleftrightarrow> (d = None \<or> d = Some live)"
  by (auto simp: CompareIntPtr_def split: option.splits)

lemma sort_eq_iff_mset: "sort xs = sort ys \<longleftrightarrow> mset xs = mset (ys :: 'a::linorder list)"
  by (metis mset_sort properties_for_sort sorted_sort)

text \<open>What a builder accumulates: the fields in the order they were added.\<close>

lemma b_fields_Add [simp]: "b_fields (Add fd b) = b_fields b @ (case fd of None \<Rightarrow> [] | Some f \<Rightarrow> [f])"
  by (simp add: Add_def split: option.splits)

lemma b_details_Add [simp]: "b_details (Add fd b) = b_details b"
  by (simp add: Add_def split: option.splits)

lemma b_fields_AddField [simp]:
  "b_fields (AddField f old new a b) =
     b_fields b @ [\<lparr>fd_Field = f, fd_OldValue = old, fd_NewValue = new, fd_Action = a\<rparr>]"
  by (simp add: AddField_def)

lemma b_details_AddField [simp]: "b_details (AddField f old new a b) = b_details b"
  by (simp add: AddField_def)

lemma b_fields_SetDetails [simp]: "b_fields (SetDetails d b) = b_fields b"
  by (simp add: SetDetails_def)

lemma b_details_SetDetails [simp]: "b_details (SetDetails d b) = d"
  by (simp add: SetDetails_def)

lemma b_NewDiffBuilder [simp]: "b_fields NewDiffBuilder = []" "b_details NewDiffBuilder = []"
  by (simp_all add: NewDiffBuilder_def)

lemma Build_HasChanges:
  "a \<noteq> ActionNoop \<Longrightarrow> a \<noteq> ActionSkipped \<Longrightarrow> Diff_HasChanges (Build r a b) \<longleftrightarrow> Builder_HasChanges b"
  by (auto simp: Diff_HasChanges_def Build_def Builder_HasChanges_def)

lemma d_Fields_Build [simp]: "d_Fields (Build r a b) = b_fields b"
  by (simp add: Build_def)

text \<open>
  \<^verbatim>\<open>CompareStringSlice\<close> reports drift exactly when a desired list is declared and
  it is not a permutation of the live one: the comparison is independent of the order of both
  slices and sensitive to multiplicities.
\<close>

theorem CompareStringSlice_permutation:
  "CompareStringSlice field live desired = None \<longleftrightarrow>
     (desired = None \<or> (\<exists>d. desired = Some d \<and> mset live = mset d))"
  by (auto simp: CompareStringSlice_def sort_eq_iff_mset split: option.splits)

end
