(* ===== verification/Config_Model.thy ===== *)
theory Config_Model
  imports Go_Base Complex_Main
begin

section \<open>The policy configuration\<close>

text \<open>
  The structs of \<^verbatim>\<open>internal/config/model.go\<close>, one record per struct with the fields in the
  order of the source (a pointer or a slice that may be nil and is tested for it is an
  \<open>option\<close>; \<^verbatim>\<open>float64\<close> is a rational), and the methods \<^verbatim>\<open>SetDefaults\<close>, \<^verbatim>\<open>Seconds\<close> and
  \<^verbatim>\<open>CompositeKey\<close>. At the end, the fields of the SDK's project and group types that the
  sources read (\<^verbatim>\<open>gitlab.Project\<close>, \<^verbatim>\<open>gitlab.Group\<close>).
\<close>

subsection \<open>Structs of model.go\<close>

record gitlab_settings_config =
  gls_BaseURL :: string
  gls_Token :: string
  gls_TokenType :: string
  gls_TimeoutSeconds :: int
  gls_RateLimitRPS :: rat
  gls_RateLimitBurst :: int
  gls_MaxRetries :: int
  gls_RetryBaseDelayMs :: int
  gls_RetryMaxDelayMs :: int

record license_settings_config =
  lic_Key :: string
  lic_File :: string
  lic_CRL :: string
  lic_CRLFile :: string
  lic_CRLURL :: string

record settings_config =
  set_DryRun :: "bool option"
  set_Concurrency :: int
  set_LogLevel :: string
  set_LogFormat :: string
  set_ReportFormat :: string
  set_OutputFilePath :: string
  set_ServiceAccounts :: "string list"
  set_BotPatterns :: "string list"
  set_GitLab :: gitlab_settings_config
  set_License :: license_settings_config

record group_selector =
  gsel_GroupIDsInclude :: "int list"
  gsel_GroupIDsExclude :: "int list"
  gsel_GroupPathsInclude :: "string list"
  gsel_GroupPathsExclude :: "string list"
  gsel_Recursive :: "bool option"

record id_range =
  idr_Min :: int
  idr_Max :: int

record project_selector =
  psel_NamespacesInclude :: "string list"
  psel_NamespacesExclude :: "string list"
  psel_ProjectNameRegexInclude :: string
  psel_ProjectNameRegexExclude :: string
  psel_TopicsInclude :: "string list"
  psel_TopicsExclude :: "string list"
  psel_Visibility :: string
  psel_Archived :: "bool option"
  psel_ExcludeMarkedForDeletion :: "bool option"
  psel_IDRange :: "id_range option"

record target_selectors =
  ts_GroupSelector :: "group_selector option"
  ts_ProjectSelector :: "project_selector option"

record push_rules_config =
  pu_AuthorEmailRegex :: string
  pu_BranchNameRegex :: string
  pu_CommitMessageRegex :: string
  pu_CommitMessageNegativeRegex :: string
  pu_FileNameRegex :: string
  pu_MaxFileSize :: "int option"
  pu_CommitCommitterCheck :: "bool option"
  pu_MemberCheck :: "bool option"
  pu_PreventSecrets :: "bool option"
  pu_DenyDeleteTag :: "bool option"
  pu_RejectUnsignedCommits :: "bool option"
  pu_RejectNonDCOCommits :: "bool option"

record branch_access_description =
  bad_AccessLevel :: int
  bad_UserID :: int
  bad_GroupID :: int
  bad_Username :: string
  bad_GroupPath :: string
  bad_DeployKeyID :: int

record protected_branch_rule_config =
  pb_Name :: string
  pb_AllowedToPush :: "branch_access_description list"
  pb_AllowedToMerge :: "branch_access_description list"
  pb_AllowedToUnprotect :: "branch_access_description list"
  pb_AllowForcePush :: "bool option"
  pb_CodeOwnerApprovalRequired :: "bool option"

record tag_access_description =
  tad_AccessLevel :: int
  tad_UserID :: int
  tad_GroupID :: int
  tad_Username :: string
  tad_GroupPath :: string

record protected_tag_rule_config =
  pt_Name :: string
  pt_AllowedToCreate :: "tag_access_description list"

record protected_tags_config =
  pts_Prune :: "bool option"
  pts_Rules :: "protected_tag_rule_config list"

record environment_access_description =
  ead_AccessLevel :: int
  ead_UserID :: int
  ead_GroupID :: int
  ead_Username :: string
  ead_GroupPath :: string

record environment_approval_rule_config =
  ear_AccessLevel :: int
  ear_UserID :: int
  ear_GroupID :: int
  ear_Username :: string
  ear_GroupPath :: string
  ear_RequiredApprovalCount :: "int option"

record environment_approval_group_config =
  eag_GroupID :: int
  eag_GroupPath :: string

record environment_approval_user_config =
  eau_UserID :: int
  eau_Username :: string

record protected_environment_rule_config =
  pe_Name :: string
  pe_DeployAccessLevels :: "environment_access_description list"
  pe_RequiredApprovalCount :: "int option"
  pe_ApprovalRules :: "environment_approval_rule_config list"
  pe_ApprovalGroups :: "environment_approval_group_config list"
  pe_ApprovalUsers :: "environment_approval_user_config list"

record protected_environments_config =
  pes_Prune :: "bool option"
  pes_Rules :: "protected_environment_rule_config list"

record approval_settings_config =
  aps_ApprovalsBeforeMerge :: "int option"
  aps_ResetApprovalsOnPush :: "bool option"
  aps_AllowAuthorApproval :: "bool option"
  aps_AllowCommitterApproval :: "bool option"
  aps_AllowOverridesToApproverListPerMergeRequest :: "bool option"
  aps_RetainApprovalsOnPush :: "bool option"
  aps_SelectiveCodeOwnerRemovals :: "bool option"
  aps_RequirePasswordToApprove :: "bool option"

record approval_rule_config =
  arl_Name :: string
  arl_ApprovalsRequired :: int
  arl_UserUsernames :: "string list"
  arl_UserIDs :: "int list"
  arl_GroupPaths :: "string list"
  arl_GroupIDs :: "int list"
  arl_ProtectedBranchNames :: "string list"
  arl_ProtectedBranchIDs :: "int list"
  arl_RuleType :: string

record approval_rules_config =
  ars_ApprovalsBeforeMerge :: "int option"
  ars_ResetApprovalsOnPush :: "bool option"
  ars_Settings :: "approval_settings_config option"
  ars_Rules :: "approval_rule_config list"
  ars_Prune :: "bool option"

record container_expiration_policy_config =
  cep_Cadence :: string
  cep_Enabled :: "bool option"
  cep_KeepN :: "int option"
  cep_OlderThan :: string
  cep_NameRegex :: string
  cep_NameRegexDelete :: string
  cep_NameRegexKeep :: string

record project_settings_config =
  pjs_DefaultBranch :: string
  pjs_SquashOption :: string
  pjs_MergeMethod :: string
  pjs_OnlyAllowMergeIfPipelineSucceeds :: "bool option"
  pjs_AllowMergeOnSkippedPipeline :: "bool option"
  pjs_OnlyAllowMergeIfAllDiscussionsAreResolved :: "bool option"
  pjs_RemoveSourceBranchAfterMerge :: "bool option"
  pjs_KeepLatestArtifact :: "bool option"
  pjs_PrintingMergeRequestLinkEnabled :: "bool option"
  pjs_AutoCancelPendingPipelines :: string
  pjs_AutoDevopsEnabled :: "bool option"
  pjs_ContainerExpirationPolicy :: "container_expiration_policy_config option"

record pipeline_retention_config =
  prc_RetentionDays :: int

record variable_config =
  vc_Key :: string
  vc_Value :: string
  vc_VariableType :: string
  vc_Protected :: "bool option"
  vc_Masked :: "bool option"
  vc_Raw :: "bool option"
  vc_EnvironmentScope :: string
  vc_Description :: string

record runner_config =
  rn_ID :: int
  rn_Description :: string
  rn_Paused :: "bool option"
  rn_Locked :: "bool option"
  rn_TagList :: "string list"
  rn_RunUntagged :: "bool option"
  rn_AccessLevel :: string
  rn_MaximumTimeout :: "int option"

record runners_config =
  rns_SharedRunnersEnabled :: "bool option"
  rns_GroupRunnersEnabled :: "bool option"
  rns_Runners :: "runner_config list"

record compliance_config =
  cc_FrameworkName :: string
  cc_FrameworkID :: "int option"
  cc_Prune :: "bool option"

record webhook_config =
  wh_URL :: string
  wh_PushEvents :: "bool option"
  wh_MergeRequestsEvents :: "bool option"
  wh_TagPushEvents :: "bool option"
  wh_IssuesEvents :: "bool option"
  wh_PipelineEvents :: "bool option"
  wh_JobEvents :: "bool option"
  wh_ReleasesEvents :: "bool option"
  wh_EnableSSLVerification :: "bool option"
  wh_SecretToken :: string
  wh_PushEventsBranchFilter :: string

record member_rule_config =
  mr_Username :: string
  mr_AccessLevel :: int
  mr_ExpiresAt :: string

record members_config =
  mc_MinAccessLevel :: "int option"
  mc_MaxAccessLevel :: "int option"
  mc_EnforceExpiresAt :: "bool option"
  mc_MaxExpirationDays :: "int option"
  mc_RemoveInheritedMaintainers :: "bool option"
  mc_AllowedMembers :: "member_rule_config list"
  mc_DeniedMembers :: "string list"

record target_branch_rule_config =
  tbr_Name :: string
  tbr_TargetBranch :: string

record target_branch_rules_config =
  tbs_Prune :: "bool option"
  tbs_Rules :: "target_branch_rule_config list"

record repository_file_config =
  rf_Path :: string
  rf_Content :: string
  rf_ContentFile :: string
  rf_EnsureContains :: "string list"
  rf_TargetBranch :: string
  rf_Enforcement :: string
  rf_MRTitle :: string
  rf_MRLabels :: "string list"
  rf_AutoMerge :: "bool option"

record branch_merge_rule_config =
  bm_SourceBranch :: string
  bm_TargetBranch :: string
  bm_Title :: string
  bm_Description :: string
  bm_Labels :: "string list"
  bm_AutoMerge :: "bool option"
  bm_RemoveSourceBranch :: "bool option"
  bm_Squash :: "bool option"
  bm_MergeWhenPipelineSucceeds :: "bool option"

record policies_config =
  pol_PushRules :: "push_rules_config option"
  pol_ProtectedBranches :: "protected_branch_rule_config list"
  pol_ProtectedTags :: "protected_tags_config option"
  pol_ProtectedEnvironments :: "protected_environments_config option"
  pol_ApprovalRules :: "approval_rules_config option"
  pol_ProjectSettings :: "project_settings_config option"
  pol_PipelineRetention :: "pipeline_retention_config option"
  pol_Variables :: "variable_config list"
  pol_Runners :: "runners_config option"
  pol_Compliance :: "compliance_config option"
  pol_Webhooks :: "webhook_config list"
  pol_Members :: "members_config option"
  pol_TargetBranchRules :: "target_branch_rules_config option"
  pol_RepositoryFiles :: "repository_file_config list"
  pol_BranchMerges :: "branch_merge_rule_config list"

record policy_config =
  cfg_Version :: string
  cfg_Settings :: settings_config
  cfg_Targets :: target_selectors
  cfg_Policies :: policies_config

text \<open>The zero value of the configuration, as an empty policy file leaves it.\<close>

definition zero_settings :: settings_config where
  "zero_settings =
     \<lparr>set_DryRun = None, set_Concurrency = 0, set_LogLevel = [], set_LogFormat = [], set_ReportFormat = [],
      set_OutputFilePath = [], set_ServiceAccounts = [], set_BotPatterns = [],
      set_GitLab = \<lparr>gls_BaseURL = [], gls_Token = [], gls_TokenType = [], gls_TimeoutSeconds = 0, gls_RateLimitRPS = 0,
                    gls_RateLimitBurst = 0, gls_MaxRetries = 0, gls_RetryBaseDelayMs = 0, gls_RetryMaxDelayMs = 0\<rparr>,
      set_License = \<lparr>lic_Key = [], lic_File = [], lic_CRL = [], lic_CRLFile = [], lic_CRLURL = []\<rparr>\<rparr>"

definition zero_policies :: policies_config where
  "zero_policies =
     \<lparr>pol_PushRules = None, pol_ProtectedBranches = [], pol_ProtectedTags = None, pol_ProtectedEnvironments = None,
      pol_ApprovalRules = None, pol_ProjectSettings = None, pol_PipelineRetention = None, pol_Variables = [],
      pol_Runners = None, pol_Compliance = None, pol_Webhooks = [], pol_Members = None, pol_TargetBranchRules = None,
      pol_RepositoryFiles = [], pol_BranchMerges = []\<rparr>"

definition zero_policy_config :: policy_config where
  "zero_policy_config =
     \<lparr>cfg_Version = [], cfg_Settings = zero_settings,
      cfg_Targets = \<lparr>ts_GroupSelector = None, ts_ProjectSelector = None\<rparr>, cfg_Policies = zero_policies\<rparr>"

subsection \<open>Defaults\<close>

definition GitLabSettings_SetDefaults :: "gitlab_settings_config \<Rightarrow> gitlab_settings_config" where
  "GitLabSettings_SetDefaults g =
     g\<lparr>gls_BaseURL := (if gls_BaseURL g = [] then ''https://gitlab.com/api/v4'' else gls_BaseURL g),
       gls_TokenType := (if gls_TokenType g = [] then ''private_token'' else gls_TokenType g),
       gls_TimeoutSeconds := (if gls_TimeoutSeconds g \<le> 0 then 30 else gls_TimeoutSeconds g),
       gls_RateLimitRPS := (if gls_RateLimitRPS g \<le> 0 then 30 else gls_RateLimitRPS g),
       gls_RateLimitBurst := (if gls_RateLimitBurst g \<le> 0 then 50 else gls_RateLimitBurst g),
       gls_MaxRetries := (if gls_MaxRetries g \<le> 0 then 3 else gls_MaxRetries g),
       gls_RetryBaseDelayMs := (if gls_RetryBaseDelayMs g \<le> 0 then 500 else gls_RetryBaseDelayMs g),
       gls_RetryMaxDelayMs := (if gls_RetryMaxDelayMs g \<le> 0 then 30000 else gls_RetryMaxDelayMs g)\<rparr>"

definition Settings_SetDefaults :: "settings_config \<Rightarrow> settings_config" where
  "Settings_SetDefaults s =
     s\<lparr>set_DryRun := (case set_DryRun s of None \<Rightarrow> Some True | Some b \<Rightarrow> Some b),
       set_Concurrency := (if set_Concurrency s \<le> 0 then 10 else set_Concurrency s),
       set_LogLevel := (if set_LogLevel s = [] then ''info'' else set_LogLevel s),
       set_LogFormat := (if set_LogFormat s = [] then ''text'' else set_LogFormat s),
       set_ReportFormat := (if set_ReportFormat s = [] then ''table'' else set_ReportFormat s),
       set_GitLab := GitLabSettings_SetDefaults (set_GitLab s)\<rparr>"

definition PolicyConfig_SetDefaults :: "policy_config \<Rightarrow> policy_config" where
  "PolicyConfig_SetDefaults p = p\<lparr>cfg_Settings := Settings_SetDefaults (cfg_Settings p)\<rparr>"

text \<open>\<^verbatim>\<open>RetentionDays * 86400\<close> in 64-bit arithmetic.\<close>

definition Seconds :: "pipeline_retention_config \<Rightarrow> int" where
  "Seconds p = int64 (prc_RetentionDays p * 86400)"

definition CompositeKey :: "variable_config \<Rightarrow> string" where
  "CompositeKey v =
     vc_Key v @ ''::'' @ (if vc_EnvironmentScope v = [] then ''*'' else vc_EnvironmentScope v)"

subsection \<open>SDK entities\<close>

text \<open>The settings of a project that the reconcilers compare and edit.\<close>

record gl_project_settings =
  ps_SquashOption :: string
  ps_MergeMethod :: string
  ps_OnlyAllowMergeIfPipelineSucceeds :: bool
  ps_AllowMergeOnSkippedPipeline :: bool
  ps_OnlyAllowMergeIfAllDiscussionsAreResolved :: bool
  ps_RemoveSourceBranchAfterMerge :: bool
  ps_KeepLatestArtifact :: bool
  ps_PrintingMergeRequestLinkEnabled :: bool
  ps_AutoCancelPendingPipelines :: string
  ps_AutoDevopsEnabled :: bool
  ps_SharedRunnersEnabled :: bool
  ps_GroupRunnersEnabled :: bool

definition zero_project_settings :: gl_project_settings where
  "zero_project_settings =
     \<lparr>ps_SquashOption = [], ps_MergeMethod = [], ps_OnlyAllowMergeIfPipelineSucceeds = False,
      ps_AllowMergeOnSkippedPipeline = False, ps_OnlyAllowMergeIfAllDiscussionsAreResolved = False,
      ps_RemoveSourceBranchAfterMerge = False, ps_KeepLatestArtifact = False,
      ps_PrintingMergeRequestLinkEnabled = False, ps_AutoCancelPendingPipelines = [], ps_AutoDevopsEnabled = False,
      ps_SharedRunnersEnabled = False, ps_GroupRunnersEnabled = False\<rparr>"

record gl_project =
  p_ID :: int
  p_Name :: string
  p_Path :: string
  p_PathWithNamespace :: string
  p_DefaultBranch :: string
  p_Archived :: bool
  p_MarkedForDeletionAt :: "int option"
  p_Visibility :: string
  p_Topics :: "string list"
  p_TagList :: "string list"
  p_NamespaceFullPath :: "string option"
  p_Settings :: gl_project_settings

record gl_group =
  g_ID :: int
  g_Name :: string
  g_Path :: string
  g_FullPath :: string
  g_ParentID :: int
  g_Visibility :: string
  g_Description :: string
  g_WebURL :: string

lemmas defaults_defs = GitLabSettings_SetDefaults_def Settings_SetDefaults_def PolicyConfig_SetDefaults_def

text \<open>
  \<^verbatim>\<open>SetDefaults\<close> leaves a configuration that is safe to run: the dry-run flag is
  set and is \<open>True\<close> unless the policy says otherwise, the concurrency and every transport
  parameter are positive, targets and policies are untouched, and applying it twice is the
  same as applying it once.
\<close>

theorem SetDefaults_safe:
  "let s = cfg_Settings (PolicyConfig_SetDefaults c); g = set_GitLab s in
     set_DryRun s = Some (case set_DryRun (cfg_Settings c) of None \<Rightarrow> True | Some b \<Rightarrow> b)
     \<and> 0 < set_Concurrency s \<and> 0 < gls_TimeoutSeconds g \<and> 0 < gls_RateLimitRPS g
     \<and> 0 < gls_RateLimitBurst g \<and> 0 < gls_MaxRetries g \<and> 0 < gls_RetryBaseDelayMs g
     \<and> 0 < gls_RetryMaxDelayMs g
     \<and> cfg_Targets (PolicyConfig_SetDefaults c) = cfg_Targets c
     \<and> cfg_Policies (PolicyConfig_SetDefaults c) = cfg_Policies c
     \<and> PolicyConfig_SetDefaults (PolicyConfig_SetDefaults c) = PolicyConfig_SetDefaults c"
  by (simp add: defaults_defs Let_def split: option.splits)

end
