(* ===== verification/Project_Filter.thy ===== *)
theory Project_Filter
  imports Config_Model
begin

section \<open>Project filter pipeline\<close>

text \<open>
  \<^verbatim>\<open>internal/discovery/projectfilter.go\<close>: compilation of a project selector and the ten checks of
  \<^verbatim>\<open>Evaluate\<close> in their order, with the decision and the diagnostic of each early return. The
  regular-expression engine (package \<^verbatim>\<open>regexp\<close>) and the rendering of a deletion date are the
  parameters in \<open>filter_env\<close>.
\<close>

record filter_env =
  re_Compile :: "string \<Rightarrow> go_error option"        \<comment> \<open>the error of \<^verbatim>\<open>regexp.Compile\<close>, if any\<close>
  re_MatchString :: "string \<Rightarrow> string \<Rightarrow> bool"    \<comment> \<open>pattern, subject\<close>
  ISOTime_String :: "int \<Rightarrow> string"

datatype filter_decision =
    DecisionMatched | DecisionExcludedNamespace | DecisionExcludedRegex | DecisionExcludedTopic
  | DecisionMissingNamespace | DecisionMissingRegex | DecisionMissingTopic
  | DecisionMismatchVisibility | DecisionMismatchArchived | DecisionMismatchMarkedForDeletion
  | DecisionMismatchIDRange | DecisionNilProject

record filter_result =
  fr_Matched :: bool
  fr_Decision :: filter_decision
  fr_Reason :: string
  fr_MatchedRule :: string

record project_filter =
  pf_namespacesInclude :: "string list"
  pf_namespacesExclude :: "string list"
  pf_regexInclude :: "string option"
  pf_regexExclude :: "string option"
  pf_topicsInclude :: "string set"
  pf_topicsExclude :: "string set"
  pf_visibility :: string
  pf_archived :: "bool option"
  pf_excludeMarkedForDeletion :: "bool option"
  pf_idRange :: "id_range option"

definition empty_filter :: project_filter where
  "empty_filter =
     \<lparr>pf_namespacesInclude = [], pf_namespacesExclude = [], pf_regexInclude = None,
      pf_regexExclude = None, pf_topicsInclude = {}, pf_topicsExclude = {}, pf_visibility = [],
      pf_archived = None, pf_excludeMarkedForDeletion = None, pf_idRange = None\<rparr>"

definition norm_namespaces :: "string list \<Rightarrow> string list" where
  "norm_namespaces nss = filter (\<lambda>t. t \<noteq> []) (map (\<lambda>ns. Trim (ToLower ns) ''/'') nss)"

definition norm_topic :: "string \<Rightarrow> string" where
  "norm_topic t = TrimSpace (ToLower t)"

definition topic_set :: "string list \<Rightarrow> string set" where
  "topic_set ts = set (filter (\<lambda>t. t \<noteq> []) (map norm_topic ts))"

definition compile_regex :: "filter_env \<Rightarrow> string \<Rightarrow> string \<Rightarrow> string option go_result" where
  "compile_regex env field pat =
     (if TrimSpace pat = [] then Inr None
      else case re_Compile env pat of
        Some e \<Rightarrow> Inl (Wrapf (''invalid '' @ field @ '' '' @ squote pat) e)
      | None \<Rightarrow> Inr (Some pat))"

definition NewProjectFilter :: "filter_env \<Rightarrow> project_selector option \<Rightarrow> project_filter go_result" where
  "NewProjectFilter env sel =
     (case sel of
        None \<Rightarrow> Inr empty_filter
      | Some s \<Rightarrow>
          (case compile_regex env ''project_name_regex_include'' (psel_ProjectNameRegexInclude s) of
             Inl e \<Rightarrow> Inl e
           | Inr reInc \<Rightarrow>
               (case compile_regex env ''project_name_regex_exclude'' (psel_ProjectNameRegexExclude s) of
                  Inl e \<Rightarrow> Inl e
                | Inr reExc \<Rightarrow>
                    Inr \<lparr>pf_namespacesInclude = norm_namespaces (psel_NamespacesInclude s),
                         pf_namespacesExclude = norm_namespaces (psel_NamespacesExclude s),
                         pf_regexInclude = reInc, pf_regexExclude = reExc,
                         pf_topicsInclude = topic_set (psel_TopicsInclude s),
                         pf_topicsExclude = topic_set (psel_TopicsExclude s),
                         pf_visibility = ToLower (TrimSpace (psel_Visibility s)),
                         pf_archived = psel_Archived s,
                         pf_excludeMarkedForDeletion = psel_ExcludeMarkedForDeletion s,
                         pf_idRange = psel_IDRange s\<rparr>)))"

subsection \<open>Helpers\<close>

definition extractProjectNamespace :: "gl_project \<Rightarrow> string" where
  "extractProjectNamespace p =
     (case p_NamespaceFullPath p of
        Some (c # cs) \<Rightarrow> Trim (ToLower (c # cs)) ''/''
      | _ \<Rightarrow>
          (case LastIndexByte (p_PathWithNamespace p) CHR ''/'' of
             Some idx \<Rightarrow> Trim (ToLower (take idx (p_PathWithNamespace p))) ''/''
           | None \<Rightarrow> []))"

fun add_topics :: "string list \<Rightarrow> string list \<Rightarrow> string list" where
  "add_topics topics [] = topics"
| "add_topics topics (x # xs) =
     (let t = norm_topic x in
      add_topics (if t \<noteq> [] \<and> t \<notin> set topics then topics @ [t] else topics) xs)"

definition extractProjectTopics :: "gl_project \<Rightarrow> string list" where
  "extractProjectTopics p = add_topics (add_topics [] (p_Topics p)) (p_TagList p)"

definition matchNamespace :: "string \<Rightarrow> string \<Rightarrow> bool" where
  "matchNamespace projNS targetNS =
     (let p = Trim (ToLower projNS) ''/''; t = Trim (ToLower targetNS) ''/'' in
      if p = [] \<or> t = [] then p = t
      else if p = t then True
      else HasPrefix p (t @ ''/''))"

definition regex_candidates :: "gl_project \<Rightarrow> string list" where
  "regex_candidates p =
     [p_Name p, ToLower (p_Name p), p_Path p, ToLower (p_Path p),
      p_PathWithNamespace p, ToLower (p_PathWithNamespace p),
      ReplaceAll (ToLower (p_Name p)) '' - '' ''-'',
      ReplaceAll (ToLower (p_Name p)) '' '' ''-'']"

definition matchProjectRegex :: "filter_env \<Rightarrow> string \<Rightarrow> gl_project \<Rightarrow> bool" where
  "matchProjectRegex env re p = list_ex (\<lambda>c. c \<noteq> [] \<and> re_MatchString env re c) (regex_candidates p)"

definition fmt_t :: "bool \<Rightarrow> string" where
  "fmt_t b = (if b then ''true'' else ''false'')"

definition rejected :: "filter_decision \<Rightarrow> string \<Rightarrow> string \<Rightarrow> filter_result" where
  "rejected d reason rule =
     \<lparr>fr_Matched = False, fr_Decision = d, fr_Reason = reason, fr_MatchedRule = rule\<rparr>"

definition accepted :: "string \<Rightarrow> filter_result" where
  "accepted reason =
     \<lparr>fr_Matched = True, fr_Decision = DecisionMatched, fr_Reason = reason, fr_MatchedRule = []\<rparr>"

subsection \<open>Evaluation\<close>

text \<open>Step 1b: whether a project that is pending deletion has to be rejected.\<close>

definition shouldExcludeMarked :: "project_filter \<Rightarrow> bool" where
  "shouldExcludeMarked pf =
     (case pf_excludeMarkedForDeletion pf of Some b \<Rightarrow> b | None \<Rightarrow> pf_archived pf = Some False)"

definition visibility_mismatch :: "project_filter \<Rightarrow> gl_project \<Rightarrow> bool" where
  "visibility_mismatch pf p =
     (pf_visibility pf \<noteq> [] \<and> pf_visibility pf \<noteq> ''any'' \<and> ToLower (p_Visibility p) \<noteq> pf_visibility pf)"

definition id_below :: "project_filter \<Rightarrow> gl_project \<Rightarrow> int option" where
  "id_below pf p =
     (case pf_idRange pf of None \<Rightarrow> None
      | Some r \<Rightarrow> if idr_Min r > 0 \<and> p_ID p < idr_Min r then Some (idr_Min r) else None)"

definition id_above :: "project_filter \<Rightarrow> gl_project \<Rightarrow> int option" where
  "id_above pf p =
     (case pf_idRange pf of None \<Rightarrow> None
      | Some r \<Rightarrow> if idr_Max r > 0 \<and> p_ID p > idr_Max r then Some (idr_Max r) else None)"

definition evaluate_filter :: "filter_env \<Rightarrow> project_filter \<Rightarrow> gl_project \<Rightarrow> filter_result" where
  "evaluate_filter env pf p =
    (let projNS = extractProjectNamespace p; projectTopics = extractProjectTopics p in
     if pf_archived pf = Some (\<not> p_Archived p)
     then rejected DecisionMismatchArchived
       (''project archived status ('' @ fmt_t (p_Archived p) @ '') does not match required ('' @ fmt_t (\<not> p_Archived p) @ '')'') []
     else if shouldExcludeMarked pf \<and> p_MarkedForDeletionAt p \<noteq> None
     then rejected DecisionMismatchMarkedForDeletion
       (''project is marked for deletion (scheduled at '' @ ISOTime_String env (the (p_MarkedForDeletionAt p)) @ '')'') []
     else if visibility_mismatch pf p
     then rejected DecisionMismatchVisibility
       (''project visibility '' @ squote (ToLower (p_Visibility p)) @ '' does not match required '' @ squote (pf_visibility pf)) []
     else if id_below pf p \<noteq> None
     then rejected DecisionMismatchIDRange
       (''project ID '' @ fmt_d (p_ID p) @ '' is below minimum ID '' @ fmt_d (the (id_below pf p))) []
     else if id_above pf p \<noteq> None
     then rejected DecisionMismatchIDRange
       (''project ID '' @ fmt_d (p_ID p) @ '' is above maximum ID '' @ fmt_d (the (id_above pf p))) []
     else case find (matchNamespace projNS) (pf_namespacesExclude pf) of
       Some excludeNS \<Rightarrow> rejected DecisionExcludedNamespace
         (''project namespace '' @ squote projNS @ '' matched excluded namespace '' @ squote excludeNS) excludeNS
     | None \<Rightarrow>
     if pf_regexExclude pf \<noteq> None \<and> matchProjectRegex env (the (pf_regexExclude pf)) p
     then rejected DecisionExcludedRegex
       (''project name/path '' @ squote (p_Name p) @ '' matched excluded regex '' @ squote (the (pf_regexExclude pf)))
       (the (pf_regexExclude pf))
     else case find (\<lambda>pt. pt \<in> pf_topicsExclude pf) projectTopics of
       Some pt \<Rightarrow> rejected DecisionExcludedTopic (''project contains excluded topic '' @ squote pt) pt
     | None \<Rightarrow>
     if pf_namespacesInclude pf \<noteq> [] \<and> \<not> list_ex (matchNamespace projNS) (pf_namespacesInclude pf)
     then rejected DecisionMissingNamespace
       (''project namespace '' @ squote projNS @ '' did not match any included namespaces'') []
     else if pf_regexInclude pf \<noteq> None \<and> \<not> matchProjectRegex env (the (pf_regexInclude pf)) p
     then rejected DecisionMissingRegex
       (''project name/path '' @ squote (p_Name p) @ '' did not match included regex '' @ squote (the (pf_regexInclude pf))) []
     else if pf_topicsInclude pf \<noteq> {} \<and> \<not> list_ex (\<lambda>pt. pt \<in> pf_topicsInclude pf) projectTopics
     then rejected DecisionMissingTopic ''project does not contain any of the required included topics'' []
     else accepted ''passed all filter criteria'')"

text \<open>Both the project and the receiver may be nil.\<close>

definition Evaluate :: "filter_env \<Rightarrow> project_filter option \<Rightarrow> gl_project option \<Rightarrow> filter_result" where
  "Evaluate env pf p =
     (case p of
        None \<Rightarrow> rejected DecisionNilProject ''project is nil'' []
      | Some p \<Rightarrow>
          (case pf of
             None \<Rightarrow> accepted ''no filter configured (matches all)''
           | Some pf \<Rightarrow> evaluate_filter env pf p))"

definition Project_Matches :: "filter_env \<Rightarrow> project_filter option \<Rightarrow> gl_project option \<Rightarrow> bool" where
  "Project_Matches env pf p = fr_Matched (Evaluate env pf p)"

subsection \<open>Lemmas\<close>

lemma rejected_simps [simp]:
  "fr_Matched (rejected d r m) = False" "fr_Decision (rejected d r m) = d" "fr_MatchedRule (rejected d r m) = m"
  by (simp_all add: rejected_def)

lemma accepted_simps [simp]: "fr_Matched (accepted r) = True" "fr_Decision (accepted r) = DecisionMatched"
  by (simp_all add: accepted_def)

lemma add_topics_props:
  "distinct topics \<Longrightarrow> distinct (add_topics topics xs)
     \<and> set (add_topics topics xs) = set topics \<union> {t \<in> norm_topic ` set xs. t \<noteq> []}"
  by (induction topics xs rule: add_topics.induct) (auto simp: Let_def)

lemma extractProjectTopics_spec:
  "distinct (extractProjectTopics p)"
  "set (extractProjectTopics p) = {t \<in> norm_topic ` (set (p_Topics p) \<union> set (p_TagList p)). t \<noteq> []}"
  using add_topics_props [of "[]" "p_Topics p"] add_topics_props [of "add_topics [] (p_Topics p)" "p_TagList p"]
  by (auto simp: extractProjectTopics_def)

text \<open>The declarative meaning of the pipeline: what a targeted project has to satisfy.\<close>

definition filter_spec :: "filter_env \<Rightarrow> project_filter \<Rightarrow> gl_project \<Rightarrow> bool" where
  "filter_spec env pf p \<longleftrightarrow>
     (\<forall>a. pf_archived pf = Some a \<longrightarrow> p_Archived p = a)
     \<and> (shouldExcludeMarked pf \<longrightarrow> p_MarkedForDeletionAt p = None)
     \<and> \<not> visibility_mismatch pf p
     \<and> (\<forall>r. pf_idRange pf = Some r \<longrightarrow>
          (idr_Min r > 0 \<longrightarrow> idr_Min r \<le> p_ID p) \<and> (idr_Max r > 0 \<longrightarrow> p_ID p \<le> idr_Max r))
     \<and> (\<forall>ns \<in> set (pf_namespacesExclude pf). \<not> matchNamespace (extractProjectNamespace p) ns)
     \<and> (\<forall>re. pf_regexExclude pf = Some re \<longrightarrow> \<not> matchProjectRegex env re p)
     \<and> set (extractProjectTopics p) \<inter> pf_topicsExclude pf = {}
     \<and> (pf_namespacesInclude pf \<noteq> [] \<longrightarrow>
          (\<exists>ns \<in> set (pf_namespacesInclude pf). matchNamespace (extractProjectNamespace p) ns))
     \<and> (\<forall>re. pf_regexInclude pf = Some re \<longrightarrow> matchProjectRegex env re p)
     \<and> (pf_topicsInclude pf \<noteq> {} \<longrightarrow> set (extractProjectTopics p) \<inter> pf_topicsInclude pf \<noteq> {})"

lemma id_below_None: "id_below pf p = None \<longleftrightarrow> (\<forall>r. pf_idRange pf = Some r \<longrightarrow> idr_Min r > 0 \<longrightarrow> idr_Min r \<le> p_ID p)"
  by (auto simp: id_below_def split: option.splits)

lemma id_above_None: "id_above pf p = None \<longleftrightarrow> (\<forall>r. pf_idRange pf = Some r \<longrightarrow> idr_Max r > 0 \<longrightarrow> p_ID p \<le> idr_Max r)"
  by (auto simp: id_above_def split: option.splits)

lemma option_bool_mismatch: "(\<forall>a. x = Some a \<longrightarrow> b = a) \<longleftrightarrow> x \<noteq> Some (\<not> b)"
  by (cases x) auto

text \<open>Each rejecting check contributes one conjunct to the acceptance condition.\<close>

lemma chain_if:
  "fr_Matched (if b then rejected d r m else e) \<longleftrightarrow> \<not> b \<and> fr_Matched e"
  "d \<noteq> DecisionMatched \<Longrightarrow>
     fr_Decision (if b then rejected d r m else e) = DecisionMatched \<longleftrightarrow> \<not> b \<and> fr_Decision e = DecisionMatched"
  by auto

lemma chain_case:
  "fr_Matched (case x of None \<Rightarrow> e | Some y \<Rightarrow> rejected d (f y) (h y)) \<longleftrightarrow> x = None \<and> fr_Matched e"
  "d \<noteq> DecisionMatched \<Longrightarrow>
     fr_Decision (case x of None \<Rightarrow> e | Some y \<Rightarrow> rejected d (f y) (h y)) = DecisionMatched
       \<longleftrightarrow> x = None \<and> fr_Decision e = DecisionMatched"
  by (auto split: option.splits)

lemma filter_spec_alt:
  "filter_spec env pf p \<longleftrightarrow>
     pf_archived pf \<noteq> Some (\<not> p_Archived p)
     \<and> \<not> (shouldExcludeMarked pf \<and> p_MarkedForDeletionAt p \<noteq> None)
     \<and> \<not> visibility_mismatch pf p \<and> \<not> id_below pf p \<noteq> None \<and> \<not> id_above pf p \<noteq> None
     \<and> find (matchNamespace (extractProjectNamespace p)) (pf_namespacesExclude pf) = None
     \<and> \<not> (pf_regexExclude pf \<noteq> None \<and> matchProjectRegex env (the (pf_regexExclude pf)) p)
     \<and> find (\<lambda>pt. pt \<in> pf_topicsExclude pf) (extractProjectTopics p) = None
     \<and> \<not> (pf_namespacesInclude pf \<noteq> [] \<and> \<not> list_ex (matchNamespace (extractProjectNamespace p)) (pf_namespacesInclude pf))
     \<and> \<not> (pf_regexInclude pf \<noteq> None \<and> \<not> matchProjectRegex env (the (pf_regexInclude pf)) p)
     \<and> \<not> (pf_topicsInclude pf \<noteq> {} \<and> \<not> list_ex (\<lambda>pt. pt \<in> pf_topicsInclude pf) (extractProjectTopics p))"
proof -
  have ns: "find (matchNamespace (extractProjectNamespace p)) (pf_namespacesExclude pf) = None \<longleftrightarrow>
      (\<forall>ns \<in> set (pf_namespacesExclude pf). \<not> matchNamespace (extractProjectNamespace p) ns)"
    by (auto simp: find_None_iff)
  have tp: "find (\<lambda>pt. pt \<in> pf_topicsExclude pf) (extractProjectTopics p) = None \<longleftrightarrow>
      set (extractProjectTopics p) \<inter> pf_topicsExclude pf = {}"
    by (auto simp: find_None_iff)
  have reE: "\<not> (pf_regexExclude pf \<noteq> None \<and> matchProjectRegex env (the (pf_regexExclude pf)) p) \<longleftrightarrow>
      (\<forall>re. pf_regexExclude pf = Some re \<longrightarrow> \<not> matchProjectRegex env re p)"
    and reI: "\<not> (pf_regexInclude pf \<noteq> None \<and> \<not> matchProjectRegex env (the (pf_regexInclude pf)) p) \<longleftrightarrow>
      (\<forall>re. pf_regexInclude pf = Some re \<longrightarrow> matchProjectRegex env re p)"
    by (cases "pf_regexExclude pf", simp_all) (cases "pf_regexInclude pf", simp_all)
  have range: "(\<forall>r. pf_idRange pf = Some r \<longrightarrow>
        (0 < idr_Min r \<longrightarrow> idr_Min r \<le> p_ID p) \<and> (0 < idr_Max r \<longrightarrow> p_ID p \<le> idr_Max r)) \<longleftrightarrow>
      (\<forall>r. pf_idRange pf = Some r \<longrightarrow> 0 < idr_Min r \<longrightarrow> idr_Min r \<le> p_ID p)
      \<and> (\<forall>r. pf_idRange pf = Some r \<longrightarrow> 0 < idr_Max r \<longrightarrow> p_ID p \<le> idr_Max r)"
    by blast
  have nsI: "list_ex (matchNamespace (extractProjectNamespace p)) (pf_namespacesInclude pf) \<longleftrightarrow>
      (\<exists>ns \<in> set (pf_namespacesInclude pf). matchNamespace (extractProjectNamespace p) ns)"
    by (simp add: list_ex_iff)
  have inc: "list_ex (\<lambda>pt. pt \<in> pf_topicsInclude pf) (extractProjectTopics p) \<longleftrightarrow>
      set (extractProjectTopics p) \<inter> pf_topicsInclude pf \<noteq> {}"
    by (auto simp: list_ex_iff)
  show ?thesis
    unfolding filter_spec_def option_bool_mismatch ns tp reE reI inc id_below_None id_above_None not_not
      nsI range
    by (simp only: de_Morgan_conj not_not imp_conv_disj conj_assoc)
qed

lemma evaluate_filter_conds:
  "fr_Matched (evaluate_filter env pf p) = filter_spec env pf p"
  "(fr_Decision (evaluate_filter env pf p) = DecisionMatched) = filter_spec env pf p"
  unfolding filter_spec_alt evaluate_filter_def Let_def chain_if(1) chain_case(1)
  by (simp_all only: chain_if chain_case accepted_simps filter_decision.distinct not_False_eq_True
      simp_thms)


text \<open>
  An excluded namespace rejects the whole subtree below it and nothing else: a
  namespace matches a target when, trimmed and case-folded, it is the target itself or lies
  under it at a path boundary (the target followed by a slash), so \<^verbatim>\<open>team-a\<close> is never matched by
  \<^verbatim>\<open>team\<close>; an empty target only matches an empty namespace.
\<close>

theorem matchNamespace_boundary:
  "matchNamespace projNS targetNS \<longleftrightarrow>
     (let p = Trim (ToLower projNS) ''/''; t = Trim (ToLower targetNS) ''/'' in
      p = t \<or> (t \<noteq> [] \<and> (\<exists>rest. p = t @ ''/'' @ rest)))"
  by (auto simp: matchNamespace_def Let_def HasPrefix_iff prefix_def)

end
