(* ===== verification/Paged_Listing.thy ===== *)
theory Paged_Listing
  imports Go_Base
begin

section \<open>Page-based listings\<close>

text \<open>
  The loop that the discovery code and the reconcilers use to read a paginated listing
  (\<^verbatim>\<open>listAllSubgroups\<close> and \<^verbatim>\<open>resolveRoots\<close> in \<^verbatim>\<open>discovery/grouptree.go\<close>,
  \<^verbatim>\<open>fetchAllLiveProtectedBranches\<close> in \<^verbatim>\<open>governance/protectedbranches.go\<close>), the contract of a
  paginated endpoint as a locale, and the page mode of the mock server's \<^verbatim>\<open>paginate\<close>
  (\<^verbatim>\<open>testutil/mockserver/router.go\<close>), which is shown to fulfil the contract. The SDK reads the
  \<^verbatim>\<open>X-Next-Page\<close> header into \<^verbatim>\<open>Response.NextPage\<close>, 0 when it is absent.
\<close>

type_synonym 'a page = "'a list \<times> int option"

text \<open>
  Fetch a page, append its items, stop on a nil response or a \<^verbatim>\<open>NextPage\<close> of 0. The value
  \<open>None\<close> of the function means that the loop does not return.
\<close>

partial_function (option) fetch_pages ::
  "(int \<Rightarrow> 'a page go_result) \<Rightarrow> int \<Rightarrow> 'a list \<Rightarrow> 'a list go_result option" where
  "fetch_pages fetch page acc =
     (case fetch page of
        Inl e \<Rightarrow> Some (Inl e)
      | Inr (xs, resp) \<Rightarrow>
          (case resp of
             None \<Rightarrow> Some (Inr (acc @ xs))
           | Some n \<Rightarrow> if n = 0 then Some (Inr (acc @ xs)) else fetch_pages fetch n (acc @ xs)))"

subsection \<open>The mock server's page mode\<close>

record page_headers =
  h_Page :: int
  h_PerPage :: int
  h_Total :: int
  h_TotalPages :: int
  h_NextPage :: "int option"
  h_PrevPage :: "int option"

text \<open>
  \<open>perPage\<close> and \<open>page\<close> are the parsed query parameters; absent, unparsable and non-positive
  values fall back to 20 and 1.
\<close>

definition paginate_page :: "int option \<Rightarrow> int option \<Rightarrow> 'a list \<Rightarrow> 'a list \<times> page_headers" where
  "paginate_page ppQuery pQuery items =
     (let perPage = (case ppQuery of Some pp \<Rightarrow> if pp > 0 then pp else 20 | None \<Rightarrow> 20);
          page = (case pQuery of Some p \<Rightarrow> if p > 0 then p else 1 | None \<Rightarrow> 1);
          totalCount = int (length items);
          totalPages = (let t = (totalCount + perPage - 1) div perPage in if t = 0 then 1 else t);
          startIdx = min ((page - 1) * perPage) totalCount;
          endIdx = min ((page - 1) * perPage + perPage) totalCount
      in (take (nat (endIdx - startIdx)) (drop (nat startIdx) items),
          \<lparr>h_Page = page, h_PerPage = perPage, h_Total = totalCount, h_TotalPages = totalPages,
           h_NextPage = (if page < totalPages then Some (page + 1) else None),
           h_PrevPage = (if page > 1 then Some (page - 1) else None)\<rparr>))"

text \<open>The endpoint as the client sees it through the SDK.\<close>

definition mock_list :: "int \<Rightarrow> 'a list \<Rightarrow> int \<Rightarrow> 'a page go_result" where
  "mock_list perPage items page =
     (let (xs, h) = paginate_page (Some perPage) (Some page) items
      in Inr (xs, Some (case h_NextPage h of None \<Rightarrow> 0 | Some n \<Rightarrow> n)))"

subsection \<open>The contract of a paginated endpoint\<close>

text \<open>
  Page \<open>p\<close> of a listing holds its slice of the items, and names the next page while items
  are left.
\<close>

locale paged_listing =
  fixes fetch :: "int \<Rightarrow> 'a page go_result"
    and items :: "'a list"
    and perPage :: nat
  assumes perPage_pos: "0 < perPage"
    and fetch_slice: "1 \<le> p \<Longrightarrow>
      \<exists>n. fetch p = Inr (take perPage (drop ((nat p - 1) * perPage) items), Some n)
        \<and> (n = (if nat p * perPage < length items then p + 1 else 0))"
begin

lemma fetch_pages_from:
  assumes "1 \<le> p"
  shows "fetch_pages fetch p acc = Some (Inr (acc @ drop ((nat p - 1) * perPage) items))"
  using assms
proof (induction "length items - (nat p - 1) * perPage" arbitrary: p acc rule: less_induct)
  case less
  define k where "k = (nat p - 1) * perPage"
  have p: "1 \<le> p" by (rule less.prems)
  then have np: "nat p * perPage = k + perPage"
    by (cases "nat p") (auto simp: k_def)
  show ?case
  proof (cases "nat p * perPage < length items")
    case True
    have *: "fetch p = Inr (take perPage (drop k items), Some (p + 1))"
      using fetch_slice [OF p] True by (auto simp: k_def)
    have k': "(nat (p + 1) - 1) * perPage = k + perPage" using np p by (simp add: nat_add_distrib)
    have "length items - (nat (p + 1) - 1) * perPage < length items - (nat p - 1) * perPage"
      using True np perPage_pos unfolding k' k_def [symmetric] by linarith
    from less.hyps [OF this] p
    have "fetch_pages fetch (p + 1) (acc @ take perPage (drop k items)) =
        Some (Inr ((acc @ take perPage (drop k items)) @ drop (k + perPage) items))"
      unfolding k' by simp
    moreover have "take perPage (drop k items) @ drop (k + perPage) items = drop k items"
      by (metis add.commute append_take_drop_id drop_drop)
    ultimately show ?thesis
      using * p by (subst fetch_pages.simps) (simp add: k_def)
  next
    case False
    then have "take perPage (drop k items) = drop k items" using np by simp
    then have "fetch p = Inr (drop k items, Some 0)"
      using fetch_slice [OF p] False by (auto simp: k_def)
    then show ?thesis by (subst fetch_pages.simps) (simp add: k_def)
  qed
qed

text \<open>The loop returns, and it returns every item once, in the order of the listing.\<close>

lemma fetch_all: "fetch_pages fetch 1 [] = Some (Inr items)"
  by (simp add: fetch_pages_from)

end

lemma le_div_iff:
  assumes "0 < (d :: int)"
  shows "a \<le> x div d \<longleftrightarrow> a * d \<le> x"
proof
  assume "a \<le> x div d"
  then have "a * d \<le> x div d * d" using assms by (simp add: mult_right_mono)
  also have "\<dots> \<le> x"
    using assms pos_mod_sign [of d x] div_mult_mod_eq [of x d] by linarith
  finally show "a * d \<le> x" .
next
  assume "a * d \<le> x"
  then have "a * d div d \<le> x div d" using assms by (rule zdiv_mono1)
  then show "a \<le> x div d" using assms by simp
qed

lemma paginate_page_slice:
  assumes "0 < perPage" and "1 \<le> p"
  shows "fst (paginate_page (Some perPage) (Some p) items) =
      take (nat perPage) (drop ((nat p - 1) * nat perPage) items)"
proof -
  define k where "k = (p - 1) * perPage"
  have k0: "0 \<le> k" using assms by (simp add: k_def)
  have nk: "(nat p - 1) * nat perPage = nat k"
    using assms by (simp add: k_def nat_mult_distrib nat_diff_distrib')
  have "take (nat (min (k + perPage) (int (length items)) - min k (int (length items))))
      (drop (nat (min k (int (length items)))) items) = take (nat perPage) (drop (nat k) items)"
    using k0 assms by (cases "k \<le> int (length items)"; cases "k + perPage \<le> int (length items)")
      (auto simp: min_def nat_diff_distrib not_le)
  with assms show ?thesis unfolding nk by (simp add: paginate_page_def Let_def k_def)
qed

lemma paginate_page_next:
  assumes "0 < perPage" and "1 \<le> p"
  shows "h_NextPage (snd (paginate_page (Some perPage) (Some p) items)) =
      (if nat p * nat perPage < length items then Some (p + 1) else None)"
proof -
  define t where "t = (int (length items) + perPage - 1) div perPage"
  have "p < t \<longleftrightarrow> (p + 1) * perPage \<le> int (length items) + perPage - 1"
    using le_div_iff [OF assms(1), of "p + 1" "int (length items) + perPage - 1"] by (auto simp: t_def)
  then have "p < t \<longleftrightarrow> p * perPage < int (length items)" by (auto simp: algebra_simps)
  also have "\<dots> \<longleftrightarrow> nat p * nat perPage < length items"
    using assms by (simp add: nat_mult_distrib [symmetric] nat_less_iff)
  finally have "p < t \<longleftrightarrow> nat p * nat perPage < length items" .
  moreover have "p < (if t = 0 then 1 else t) \<longleftrightarrow> p < t" using assms by auto
  ultimately show ?thesis
    using assms by (auto simp: paginate_page_def Let_def t_def [symmetric])
qed

lemma mock_list_contract:
  "0 < perPage \<Longrightarrow> paged_listing (mock_list perPage items) items (nat perPage)"
  by unfold_locales
    (auto simp: mock_list_def split_beta paginate_page_slice paginate_page_next)

interpretation mock: paged_listing "mock_list 100 items" items 100
  using mock_list_contract [of 100 items] by simp

end
