(* ===== verification/Group_Tree.thy ===== *)
theory Group_Tree
  imports Config_Model Paged_Listing "HOL-Library.Multiset_Order"
begin

section \<open>Group discovery: selector and breadth-first traversal\<close>

text \<open>
  \<^verbatim>\<open>internal/discovery/grouptree.go\<close>: the selector evaluator, the resolution of the root
  groups, the paginated listing of subgroups and the breadth-first traversal with its visited
  set and depth ceiling. The SDK calls are the record \<open>group_api\<close>: each is a function of its
  arguments that gives an error or a value (a nil pointer is \<open>None\<close>; a page comes with the
  \<^verbatim>\<open>NextPage\<close> of its response, \<open>None\<close> for a nil response). A loop whose end depends on the
  server is a \<open>partial_function\<close>: its value \<open>None\<close> means that it does not return.
  \<open>ctx n\<close> is the error of the context at its \<open>n\<close>-th poll, \<open>None\<close> while it is live.
\<close>

type_synonym ctx = "nat \<Rightarrow> go_error option"

record group_api =
  api_GetGroupByID :: "int \<Rightarrow> gl_group option go_result"
  api_GetGroupByPath :: "string \<Rightarrow> gl_group option go_result"
  api_ListGroups :: "int \<Rightarrow> gl_group option page go_result"
  api_ListSubgroups :: "int \<Rightarrow> int \<Rightarrow> gl_group option page go_result"

subsection \<open>Selector\<close>

record group_selector_evaluator =
  ev_includeIDs :: "int set"
  ev_excludeIDs :: "int set"
  ev_includePaths :: "string set"
  ev_excludePaths :: "string set"
  ev_hasIncludes :: bool
  ev_recursive :: bool

definition clean_path :: "string \<Rightarrow> string" where
  "clean_path p = Trim (ToLower p) ''/''"

definition clean_paths :: "string list \<Rightarrow> string set" where
  "clean_paths ps = {c \<in> set (map clean_path ps). c \<noteq> []}"

definition NewGroupSelectorEvaluator :: "group_selector option \<Rightarrow> group_selector_evaluator" where
  "NewGroupSelectorEvaluator sel =
     (case sel of
        None \<Rightarrow> \<lparr>ev_includeIDs = {}, ev_excludeIDs = {}, ev_includePaths = {}, ev_excludePaths = {},
                 ev_hasIncludes = False, ev_recursive = True\<rparr>
      | Some s \<Rightarrow>
          (let inc = set (gsel_GroupIDsInclude s); incP = clean_paths (gsel_GroupPathsInclude s) in
           \<lparr>ev_includeIDs = inc, ev_excludeIDs = set (gsel_GroupIDsExclude s),
            ev_includePaths = incP, ev_excludePaths = clean_paths (gsel_GroupPathsExclude s),
            ev_hasIncludes = (inc \<noteq> {} \<or> incP \<noteq> {}),
            ev_recursive = (case gsel_Recursive s of None \<Rightarrow> True | Some b \<Rightarrow> b)\<rparr>))"

definition Group_Matches :: "group_selector_evaluator \<Rightarrow> gl_group option \<Rightarrow> bool" where
  "Group_Matches e g =
     (case g of
        None \<Rightarrow> False
      | Some g \<Rightarrow>
          if g_ID g \<in> ev_excludeIDs e \<or> clean_path (g_FullPath g) \<in> ev_excludePaths e then False
          else if \<not> ev_hasIncludes e then True
          else g_ID g \<in> ev_includeIDs e \<or> clean_path (g_FullPath g) \<in> ev_includePaths e)"

definition IsExcluded :: "group_selector_evaluator \<Rightarrow> gl_group option \<Rightarrow> bool" where
  "IsExcluded e g =
     (case g of
        None \<Rightarrow> True
      | Some g \<Rightarrow> g_ID g \<in> ev_excludeIDs e \<or> clean_path (g_FullPath g) \<in> ev_excludePaths e)"

subsection \<open>Traversal\<close>

record discovered_group =
  dg_ID :: int
  dg_Name :: string
  dg_Path :: string
  dg_FullPath :: string
  dg_ParentID :: int
  dg_RootParentID :: int
  dg_Depth :: int
  dg_Visibility :: string
  dg_Description :: string
  dg_WebURL :: string
  dg_Raw :: gl_group

record queue_item =
  qi_group :: gl_group
  qi_depth :: nat
  qi_rootParentID :: int

definition NormalizeGroup :: "gl_group \<Rightarrow> nat \<Rightarrow> int \<Rightarrow> discovered_group" where
  "NormalizeGroup raw depth rootParentID =
     \<lparr>dg_ID = g_ID raw, dg_Name = g_Name raw, dg_Path = g_Path raw, dg_FullPath = g_FullPath raw,
      dg_ParentID = g_ParentID raw, dg_RootParentID = rootParentID, dg_Depth = int depth,
      dg_Visibility = g_Visibility raw, dg_Description = g_Description raw,
      dg_WebURL = g_WebURL raw, dg_Raw = raw\<rparr>"

definition listAllSubgroups :: "group_api \<Rightarrow> int \<Rightarrow> gl_group option list go_result option" where
  "listAllSubgroups api groupID = fetch_pages (api_ListSubgroups api groupID) 1 []"

text \<open>\<^verbatim>\<open>if g != nil && !seen[g.ID] { seen[g.ID] = true; roots = append(roots, g) }\<close>\<close>

definition add_root :: "gl_group option \<Rightarrow> gl_group list \<Rightarrow> gl_group list" where
  "add_root g roots =
     (case g of None \<Rightarrow> roots
      | Some g \<Rightarrow> if g_ID g \<in> g_ID ` set roots then roots else roots @ [g])"

fun roots_by_id :: "group_api \<Rightarrow> int list \<Rightarrow> gl_group list \<Rightarrow> gl_group list go_result" where
  "roots_by_id api [] roots = Inr roots"
| "roots_by_id api (i # is) roots =
     (if i \<in> g_ID ` set roots then roots_by_id api is roots
      else case api_GetGroupByID api i of
        Inl e \<Rightarrow> Inl (Wrapf (''failed to get group by ID '' @ fmt_d i) e)
      | Inr g \<Rightarrow> roots_by_id api is (add_root g roots))"

fun roots_by_path :: "group_api \<Rightarrow> string list \<Rightarrow> gl_group list \<Rightarrow> gl_group list go_result" where
  "roots_by_path api [] roots = Inr roots"
| "roots_by_path api (p # ps) roots =
     (let clean = Trim p ''/'' in
      if clean = [] then roots_by_path api ps roots
      else case api_GetGroupByPath api clean of
        Inl e \<Rightarrow> Inl (Wrapf (''failed to get group by path '' @ squote clean) e)
      | Inr g \<Rightarrow> roots_by_path api ps (add_root g roots))"

definition top_level_roots :: "group_api \<Rightarrow> gl_group list go_result option" where
  "top_level_roots api =
     (case fetch_pages (api_ListGroups api) 1 [] of
        None \<Rightarrow> None
      | Some (Inl e) \<Rightarrow> Some (Inl (Wrapf ''failed to list top-level groups'' e))
      | Some (Inr gs) \<Rightarrow> Some (Inr (foldl (\<lambda>roots g. add_root g roots) [] gs)))"

definition resolveRoots :: "group_api \<Rightarrow> group_selector option \<Rightarrow> gl_group list go_result option" where
  "resolveRoots api selector =
     (case selector of
        Some s \<Rightarrow>
          if gsel_GroupIDsInclude s \<noteq> [] \<or> gsel_GroupPathsInclude s \<noteq> [] then
            (case roots_by_id api (gsel_GroupIDsInclude s) [] of
               Inl e \<Rightarrow> Some (Inl e)
             | Inr roots \<Rightarrow> Some (roots_by_path api (gsel_GroupPathsInclude s) roots))
          else top_level_roots api
      | None \<Rightarrow> top_level_roots api)"

text \<open>
  Expanding one queue entry: every non-nil child whose ID is not yet visited is marked and
  queued one level deeper.
\<close>

fun expand :: "queue_item \<Rightarrow> gl_group option list \<Rightarrow> int set \<Rightarrow> queue_item list \<times> int set" where
  "expand cur [] visited = ([], visited)"
| "expand cur (None # cs) visited = expand cur cs visited"
| "expand cur (Some c # cs) visited =
     (if g_ID c \<in> visited then expand cur cs visited
      else
        let rootID = (if qi_rootParentID cur = 0 then g_ID (qi_group cur) else qi_rootParentID cur);
            item = \<lparr>qi_group = c, qi_depth = Suc (qi_depth cur), qi_rootParentID = rootID\<rparr>;
            (items, visited') = expand cur cs (insert (g_ID c) visited)
        in (item # items, visited'))"

definition visit :: "group_selector_evaluator \<Rightarrow> queue_item \<Rightarrow> discovered_group list \<Rightarrow> discovered_group list" where
  "visit eval cur acc =
     (if IsExcluded eval (Some (qi_group cur)) then acc
      else acc @ [NormalizeGroup (qi_group cur) (qi_depth cur) (qi_rootParentID cur)])"

text \<open>The queue holds the entries from \<^verbatim>\<open>head\<close> on; \<open>i\<close> counts the iterations.\<close>

partial_function (option) bfs_loop ::
  "ctx \<Rightarrow> group_api \<Rightarrow> group_selector_evaluator \<Rightarrow> nat \<Rightarrow> nat \<Rightarrow> queue_item list \<Rightarrow> int set
   \<Rightarrow> discovered_group list \<Rightarrow> discovered_group list go_result option" where
  "bfs_loop ctx api eval maxDepth i queue visited acc =
     (case queue of
        [] \<Rightarrow> Some (Inr acc)
      | cur # rest \<Rightarrow>
          (case ctx i of
             Some e \<Rightarrow> Some (Inl e)
           | None \<Rightarrow>
               if ev_recursive eval \<and> (maxDepth = 0 \<or> qi_depth cur < maxDepth) then
                 (case listAllSubgroups api (g_ID (qi_group cur)) of
                    None \<Rightarrow> None
                  | Some (Inl e) \<Rightarrow>
                      Some (Inl (Wrapf (''failed to list subgroups for group '' @ fmt_d (g_ID (qi_group cur))
                                        @ '' ('' @ g_FullPath (qi_group cur) @ '')'') e))
                  | Some (Inr subgroups) \<Rightarrow>
                      bfs_loop ctx api eval maxDepth (Suc i)
                        (rest @ fst (expand cur subgroups visited))
                        (snd (expand cur subgroups visited)) (visit eval cur acc))
               else bfs_loop ctx api eval maxDepth (Suc i) rest visited (visit eval cur acc)))"

text \<open>The seed loop over the roots: a visited root is skipped.\<close>

fun seed_queue :: "gl_group list \<Rightarrow> int set \<Rightarrow> queue_item list \<times> int set" where
  "seed_queue [] visited = ([], visited)"
| "seed_queue (r # rs) visited =
     (if g_ID r \<in> visited then seed_queue rs visited
      else let (items, visited') = seed_queue rs (insert (g_ID r) visited)
           in (\<lparr>qi_group = r, qi_depth = 0, qi_rootParentID = g_ID r\<rparr> # items, visited'))"

definition Traverse ::
  "ctx \<Rightarrow> group_api \<Rightarrow> nat \<Rightarrow> group_selector option \<Rightarrow> discovered_group list go_result option" where
  "Traverse ctx api maxDepth selector =
     (case resolveRoots api selector of
        None \<Rightarrow> None
      | Some (Inl e) \<Rightarrow> Some (Inl (Wrapf ''failed to resolve root groups'' e))
      | Some (Inr roots) \<Rightarrow>
          (case seed_queue roots {} of
             (queue, visited) \<Rightarrow>
               bfs_loop ctx api (NewGroupSelectorEvaluator selector) maxDepth 0 queue visited []))"

text \<open>\<^verbatim>\<open>NewBFSGroupTraverser\<close> sets the ceiling to 100.\<close>

definition default_maxDepth :: nat where
  "default_maxDepth = 100"

subsection \<open>Reachable groups\<close>

definition child_of :: "group_api \<Rightarrow> int \<Rightarrow> gl_group \<Rightarrow> bool" where
  "child_of api g c = (\<exists>subs. listAllSubgroups api g = Some (Inr subs) \<and> Some c \<in> set subs)"

text \<open>\<open>reach api roots n g\<close>: the listings lead from a root to \<open>g\<close> in \<open>n\<close> steps.\<close>

inductive reach :: "group_api \<Rightarrow> gl_group list \<Rightarrow> nat \<Rightarrow> gl_group \<Rightarrow> bool"
  for api roots where
  reach_root: "r \<in> set roots \<Longrightarrow> reach api roots 0 r"
| reach_step: "reach api roots n g \<Longrightarrow> child_of api (g_ID g) c \<Longrightarrow> reach api roots (Suc n) c"

abbreviation qi_id :: "queue_item \<Rightarrow> int" where
  "qi_id q \<equiv> g_ID (qi_group q)"

subsection \<open>Termination\<close>

text \<open>
  Every step replaces the head of the queue by finitely many entries one level deeper, and no
  entry at the ceiling is expanded: the multiset of remaining heights decreases, whatever the
  shape of the group graph.
\<close>

definition heights :: "nat \<Rightarrow> queue_item list \<Rightarrow> nat multiset" where
  "heights maxDepth q = mset (map (\<lambda>x. Suc maxDepth - qi_depth x) q)"

lemma expand_depth: "x \<in> set (fst (expand cur cs vis)) \<Longrightarrow> qi_depth x = Suc (qi_depth cur)"
  by (induction cur cs vis rule: expand.induct) (auto simp: split_beta Let_def split: if_splits)

lemma heights_expand:
  assumes "qi_depth cur < maxDepth"
  shows "(heights maxDepth (rest @ fst (expand cur cs vis)), heights maxDepth (cur # rest)) \<in> mult less_than"
proof -
  let ?K = "heights maxDepth (fst (expand cur cs vis))"
  have "(heights maxDepth rest + ?K, heights maxDepth rest + {#Suc maxDepth - qi_depth cur#}) \<in> mult less_than"
    using assms by (intro one_step_implies_mult) (auto simp: heights_def dest!: expand_depth)
  then show ?thesis by (simp add: heights_def)
qed

lemma heights_tail: "(heights maxDepth rest, heights maxDepth (cur # rest)) \<in> mult less_than"
  using one_step_implies_mult [of "{#Suc maxDepth - qi_depth cur#}" "{#}" less_than "heights maxDepth rest"]
  by (simp add: heights_def)

lemma bfs_loop_returns:
  assumes lists: "\<And>g. listAllSubgroups api g \<noteq> None" and max: "0 < maxDepth \<or> \<not> ev_recursive eval"
  shows "bfs_loop ctx api eval maxDepth i queue visited acc \<noteq> None"
proof (induction "heights maxDepth queue" arbitrary: i queue visited acc
    rule: wf_induct_rule [OF wf_mult [OF wf_less_than]])
  case 1
  show ?case
  proof (cases queue)
    case Nil
    then show ?thesis by (subst bfs_loop.simps) simp
  next
    case (Cons cur rest)
    have tail: "bfs_loop ctx api eval maxDepth (Suc i) rest visited acc' \<noteq> None" for acc'
      using 1 heights_tail Cons by blast
    have deep: "bfs_loop ctx api eval maxDepth (Suc i) (rest @ fst (expand cur cs visited)) vis' acc' \<noteq> None"
      if "qi_depth cur < maxDepth" for cs vis' acc'
      using 1 heights_expand [OF that] Cons by blast
    obtain r where "listAllSubgroups api (qi_id cur) = Some r" using lists by blast
    then show ?thesis
      using Cons tail deep max by (subst bfs_loop.simps) (auto split: option.splits sum.splits)
  qed
qed

subsection \<open>Soundness and completeness\<close>

lemma expand_ids:
  "set (map qi_id (fst (expand cur cs vis))) = {g_ID c | c. Some c \<in> set cs} - vis"
  by (induction cur cs vis rule: expand.induct) (auto simp: split_beta Let_def split: if_splits)

lemma expand_visited: "snd (expand cur cs vis) = vis \<union> {g_ID c | c. Some c \<in> set cs}"
  by (induction cur cs vis rule: expand.induct) (auto simp: split_beta Let_def split: if_splits)

lemma expand_children: "x \<in> set (fst (expand cur cs vis)) \<Longrightarrow> Some (qi_group x) \<in> set cs"
  by (induction cur cs vis rule: expand.induct) (auto simp: split_beta Let_def split: if_splits)

lemma expand_distinct: "distinct (map qi_id (fst (expand cur cs vis)))"
  by (induction cur cs vis rule: expand.induct) (use expand_ids in \<open>auto simp: split_beta Let_def\<close>)

text \<open>
  The invariant of the loop, with the entries already handled (\<open>seen\<close>) as a ghost: the visited
  set is exactly the IDs queued so far, entries are reachable at their depth, depths are in
  breadth-first order, and the children of every handled entry are queued no deeper than one
  level below it.
\<close>

definition bfs_inv ::
  "group_api \<Rightarrow> gl_group list \<Rightarrow> group_selector_evaluator \<Rightarrow> nat \<Rightarrow> queue_item list \<Rightarrow> queue_item list
   \<Rightarrow> int set \<Rightarrow> discovered_group list \<Rightarrow> bool" where
  "bfs_inv api roots eval maxDepth seen queue visited acc \<longleftrightarrow>
     visited = qi_id ` set (seen @ queue) \<and> distinct (map qi_id (seen @ queue))
     \<and> (\<forall>q \<in> set (seen @ queue). reach api roots (qi_depth q) (qi_group q) \<and> (0 < maxDepth \<longrightarrow> qi_depth q \<le> maxDepth))
     \<and> sorted (map qi_depth (seen @ queue))
     \<and> (\<forall>q \<in> set queue. qi_depth q \<le> Suc (qi_depth (hd queue)))
     \<and> (\<forall>q \<in> set seen. (maxDepth = 0 \<or> qi_depth q < maxDepth) \<longrightarrow>
          (\<forall>c. child_of api (qi_id q) c \<longrightarrow>
             (\<exists>q' \<in> set (seen @ queue). qi_id q' = g_ID c \<and> qi_depth q' \<le> Suc (qi_depth q))))
     \<and> (\<forall>r \<in> set roots. \<exists>q \<in> set (seen @ queue). qi_id q = g_ID r \<and> qi_depth q = 0)
     \<and> acc = map (\<lambda>q. NormalizeGroup (qi_group q) (qi_depth q) (qi_rootParentID q))
               (filter (\<lambda>q. \<not> IsExcluded eval (Some (qi_group q))) seen)"

lemma bfs_inv_shift:
  assumes inv: "bfs_inv api roots eval maxDepth seen (cur # rest) visited acc"
    and at_ceiling: "\<not> (maxDepth = 0 \<or> qi_depth cur < maxDepth)"
  shows "bfs_inv api roots eval maxDepth (seen @ [cur]) rest visited (visit eval cur acc)"
proof -
  have "qi_depth q \<le> Suc (qi_depth (hd rest))" if "q \<in> set rest" for q
  proof -
    have "hd rest \<in> set rest" using that by (cases rest) auto
    then have "qi_depth cur \<le> qi_depth (hd rest)" "qi_depth q \<le> Suc (qi_depth cur)"
      using inv that unfolding bfs_inv_def by (simp_all add: sorted_append)
    then show ?thesis by simp
  qed
  with inv at_ceiling show ?thesis by (auto simp: bfs_inv_def visit_def)
qed

lemma bfs_inv_expand:
  assumes inv: "bfs_inv api roots eval maxDepth seen (cur # rest) visited acc"
    and subs: "listAllSubgroups api (qi_id cur) = Some (Inr subs)"
    and below: "maxDepth = 0 \<or> qi_depth cur < maxDepth"
    and e: "expand cur subs visited = (new, visited')"
  shows "bfs_inv api roots eval maxDepth (seen @ [cur]) (rest @ new) visited' (visit eval cur acc)"
proof -
  let ?all = "seen @ cur # rest"
  have vis: "visited = qi_id ` set ?all" and dist: "distinct (map qi_id ?all)"
    and reach_all: "\<And>q. q \<in> set ?all \<Longrightarrow> reach api roots (qi_depth q) (qi_group q) \<and> (0 < maxDepth \<longrightarrow> qi_depth q \<le> maxDepth)"
    and srt: "sorted (map qi_depth ?all)" and bnd: "\<And>q. q \<in> set (cur # rest) \<Longrightarrow> qi_depth q \<le> Suc (qi_depth cur)"
    using inv by (auto simp: bfs_inv_def)
  have new_ids: "qi_id ` set new = {g_ID c | c. Some c \<in> set subs} - visited"
    using expand_ids [of cur subs visited] e by simp
  have vis': "visited' = visited \<union> {g_ID c | c. Some c \<in> set subs}"
    using expand_visited [of cur subs visited] e by simp
  have new_depth: "\<And>q. q \<in> set new \<Longrightarrow> qi_depth q = Suc (qi_depth cur)"
    using expand_depth [of _ cur subs visited] e by simp
  have new_child: "\<And>q. q \<in> set new \<Longrightarrow> child_of api (qi_id cur) (qi_group q)"
    using expand_children [of _ cur subs visited] e subs by (auto simp: child_of_def)
  have 1: "visited' = qi_id ` set ((seen @ [cur]) @ rest @ new)"
    using vis vis' new_ids by (auto simp: image_Un)
  have 2: "distinct (map qi_id ((seen @ [cur]) @ rest @ new))"
    using dist expand_distinct [of cur subs visited] e new_ids vis by auto
  have 3: "reach api roots (qi_depth q) (qi_group q) \<and> (0 < maxDepth \<longrightarrow> qi_depth q \<le> maxDepth)"
    if "q \<in> set ((seen @ [cur]) @ rest @ new)" for q
  proof (cases "q \<in> set new")
    case True
    have "reach api roots (Suc (qi_depth cur)) (qi_group q)"
      using reach_all [of cur] new_child [OF True] by (auto intro: reach_step)
    then show ?thesis using below new_depth [OF True] by auto
  next
    case False
    then show ?thesis using that reach_all by auto
  qed
  have last: "qi_depth q \<le> Suc (qi_depth cur)" if "q \<in> set ?all" for q
    using that srt bnd by (fastforce simp: sorted_append)
  have 4: "sorted (map qi_depth ((seen @ [cur]) @ rest @ new))"
  proof -
    have const: "map qi_depth new = replicate (length new) (Suc (qi_depth cur))"
      by (rule nth_equalityI) (simp_all add: new_depth)
    have "x \<le> y" if "x \<in> set (map qi_depth ?all)" "y \<in> set (map qi_depth new)" for x y
    proof -
      have "x \<in> qi_depth ` set ?all" and "y \<in> qi_depth ` set new"
        using that by (simp_all only: set_map)
      with last new_depth show ?thesis by fastforce
    qed
    moreover have "sorted (map qi_depth new)" unfolding const by (rule sorted_replicate)
    ultimately have "sorted (map qi_depth ?all @ map qi_depth new)"
      unfolding sorted_append using srt by blast
    then show ?thesis by simp
  qed
  have 5: "qi_depth q \<le> Suc (qi_depth (hd (rest @ new)))" if qin: "q \<in> set (rest @ new)" for q
  proof -
    have "qi_depth q \<le> Suc (qi_depth cur)" using qin last new_depth by auto
    moreover obtain h where h: "hd (rest @ new) = h" "h \<in> set (rest @ new)"
      using qin by (cases "rest @ new") auto
    then have "qi_depth cur \<le> qi_depth h"
      using srt new_depth by (auto simp: sorted_append)
    then have "qi_depth cur \<le> qi_depth (hd (rest @ new))" unfolding h .
    ultimately show ?thesis by simp
  qed
  have 6: "\<exists>q' \<in> set ((seen @ [cur]) @ rest @ new). qi_id q' = g_ID c \<and> qi_depth q' \<le> Suc (qi_depth q)"
    if q: "q \<in> set (seen @ [cur])" "maxDepth = 0 \<or> qi_depth q < maxDepth" and c: "child_of api (qi_id q) c" for q c
  proof (cases "q \<in> set seen")
    case True
    then have "\<exists>q' \<in> set ?all. qi_id q' = g_ID c \<and> qi_depth q' \<le> Suc (qi_depth q)"
      using inv q c unfolding bfs_inv_def by blast
    then show ?thesis by auto
  next
    case False
    with q have [simp]: "q = cur" by simp
    have "Some c \<in> set subs" using c subs by (auto simp: child_of_def)
    then have "g_ID c \<in> qi_id ` set ?all \<or> g_ID c \<in> qi_id ` set new"
      using new_ids vis by auto
    then show ?thesis using last new_depth by fastforce
  qed
  have 7: "\<forall>r \<in> set roots. \<exists>q \<in> set ((seen @ [cur]) @ rest @ new). qi_id q = g_ID r \<and> qi_depth q = 0"
    using inv unfolding bfs_inv_def by auto
  have 8: "visit eval cur acc = map (\<lambda>q. NormalizeGroup (qi_group q) (qi_depth q) (qi_rootParentID q))
      (filter (\<lambda>q. \<not> IsExcluded eval (Some (qi_group q))) (seen @ [cur]))"
    using inv by (auto simp: bfs_inv_def visit_def)
  show ?thesis unfolding bfs_inv_def using 1 2 3 4 5 6 7 8 by blast
qed

text \<open>What the invariant gives when the queue is empty.\<close>

definition bfs_post ::
  "group_api \<Rightarrow> gl_group list \<Rightarrow> group_selector_evaluator \<Rightarrow> nat \<Rightarrow> discovered_group list \<Rightarrow> bool" where
  "bfs_post api roots eval maxDepth gs \<longleftrightarrow>
     distinct (map dg_ID gs)
     \<and> (\<forall>d \<in> set gs. dg_ID d = g_ID (dg_Raw d) \<and> \<not> IsExcluded eval (Some (dg_Raw d))
          \<and> reach api roots (nat (dg_Depth d)) (dg_Raw d)
          \<and> (0 < maxDepth \<longrightarrow> nat (dg_Depth d) \<le> maxDepth))
     \<and> (\<forall>n g. reach api roots n g \<longrightarrow> (maxDepth = 0 \<or> n \<le> maxDepth) \<longrightarrow>
          g_ID g \<in> dg_ID ` set gs
          \<or> (\<exists>n' g'. reach api roots n' g' \<and> g_ID g' = g_ID g \<and> IsExcluded eval (Some g')))"

lemma bfs_inv_reach:
  assumes inv: "bfs_inv api roots eval maxDepth seen [] visited acc"
  shows "reach api roots n g \<Longrightarrow> (maxDepth = 0 \<or> n \<le> maxDepth) \<Longrightarrow>
    \<exists>q \<in> set seen. qi_id q = g_ID g \<and> qi_depth q \<le> n"
proof (induction rule: reach.induct)
  case (reach_root r)
  then show ?case using inv unfolding bfs_inv_def by force
next
  case (reach_step n g c)
  then obtain q where q: "q \<in> set seen" "qi_id q = g_ID g" "qi_depth q \<le> n" by auto
  then have "maxDepth = 0 \<or> qi_depth q < maxDepth" using reach_step.prems by auto
  with q reach_step.hyps(2) inv
  obtain q' where "q' \<in> set seen" "qi_id q' = g_ID c" "qi_depth q' \<le> Suc (qi_depth q)"
    unfolding bfs_inv_def by (metis append_Nil2)
  with q(3) show ?case by (intro bexI [of _ q']) auto
qed

lemma bfs_inv_post:
  assumes inv: "bfs_inv api roots eval maxDepth seen [] visited acc"
  shows "bfs_post api roots eval maxDepth acc"
proof -
  let ?keep = "filter (\<lambda>q. \<not> IsExcluded eval (Some (qi_group q))) seen"
  have acc: "acc = map (\<lambda>q. NormalizeGroup (qi_group q) (qi_depth q) (qi_rootParentID q)) ?keep"
    and dist: "distinct (map qi_id seen)"
    and rch: "\<And>q. q \<in> set seen \<Longrightarrow> reach api roots (qi_depth q) (qi_group q) \<and> (0 < maxDepth \<longrightarrow> qi_depth q \<le> maxDepth)"
    using inv by (auto simp: bfs_inv_def)
  have ids: "map dg_ID acc = map qi_id ?keep" by (simp add: acc NormalizeGroup_def)
  have 1: "distinct (map dg_ID acc)" unfolding ids by (rule distinct_map_filter [OF dist])
  have 2: "dg_ID d = g_ID (dg_Raw d) \<and> \<not> IsExcluded eval (Some (dg_Raw d))
      \<and> reach api roots (nat (dg_Depth d)) (dg_Raw d) \<and> (0 < maxDepth \<longrightarrow> nat (dg_Depth d) \<le> maxDepth)"
    if "d \<in> set acc" for d
    using that rch by (auto simp: acc NormalizeGroup_def)
  have 3: "g_ID g \<in> dg_ID ` set acc
      \<or> (\<exists>n' g'. reach api roots n' g' \<and> g_ID g' = g_ID g \<and> IsExcluded eval (Some g'))"
    if g: "reach api roots n g" "maxDepth = 0 \<or> n \<le> maxDepth" for n g
  proof -
    obtain q where q: "q \<in> set seen" "qi_id q = g_ID g" using bfs_inv_reach [OF inv g] by blast
    show ?thesis
    proof (cases "IsExcluded eval (Some (qi_group q))")
      case True
      with q rch show ?thesis by blast
    next
      case False
      with q have "g_ID g \<in> set (map qi_id ?keep)" by (auto simp: rev_image_eqI)
      then show ?thesis unfolding ids [symmetric] by simp
    qed
  qed
  from 1 2 3 show ?thesis unfolding bfs_post_def by blast
qed

lemma bfs_loop_post_aux:
  assumes "bfs_loop ctx api eval maxDepth i queue visited acc = Some r"
  shows "\<forall>seen gs. r = Inr gs \<longrightarrow> ev_recursive eval \<longrightarrow> bfs_inv api roots eval maxDepth seen queue visited acc \<longrightarrow>
      bfs_post api roots eval maxDepth gs"
proof (rule bfs_loop.raw_induct [where P = "\<lambda>ctx api eval maxDepth i queue visited acc r.
      \<forall>seen gs. r = Inr gs \<longrightarrow> ev_recursive eval \<longrightarrow> bfs_inv api roots eval maxDepth seen queue visited acc \<longrightarrow>
      bfs_post api roots eval maxDepth gs", OF _ assms], intro allI impI, goal_cases)
  case (1 f ctx api eval maxDepth i queue visited acc r seen gs)
  note IH = 1(1) and eq = 1(2) and res = 1(3) and recur = 1(4) and inv = 1(5)
  show ?case
  proof (cases queue)
    case Nil
    with eq res inv show ?thesis by (auto dest: bfs_inv_post)
  next
    case (Cons cur rest)
    show ?thesis
    proof (cases "maxDepth = 0 \<or> qi_depth cur < maxDepth")
      case True
      with eq res recur Cons obtain subs where subs: "listAllSubgroups api (qi_id cur) = Some (Inr subs)"
        and rest: "f ctx api eval maxDepth (Suc i) (rest @ fst (expand cur subs visited))
          (snd (expand cur subs visited)) (visit eval cur acc) = Some (Inr gs)"
        by (auto split: option.splits sum.splits)
      have "bfs_inv api roots eval maxDepth (seen @ [cur]) (rest @ fst (expand cur subs visited))
          (snd (expand cur subs visited)) (visit eval cur acc)"
        using bfs_inv_expand [OF _ subs True] inv Cons by simp
      then show ?thesis using IH [OF rest] recur by blast
    next
      case False
      with eq res Cons have rest: "f ctx api eval maxDepth (Suc i) rest visited (visit eval cur acc) = Some (Inr gs)"
        by (auto split: option.splits)
      have "bfs_inv api roots eval maxDepth (seen @ [cur]) rest visited (visit eval cur acc)"
        using bfs_inv_shift False inv Cons by blast
      then show ?thesis using IH [OF rest] recur by blast
    qed
  qed
qed

lemmas bfs_loop_post = bfs_loop_post_aux [rule_format]

subsection \<open>The traversal\<close>

lemma seed_queue_spec:
  assumes "seed_queue roots visited = (queue, visited')"
  shows "visited' = visited \<union> g_ID ` set roots \<and> qi_id ` set queue = g_ID ` set roots - visited
    \<and> distinct (map qi_id queue)
    \<and> (\<forall>q \<in> set queue. qi_group q \<in> set roots \<and> qi_depth q = 0)"
  using assms
proof (induction roots visited arbitrary: queue visited' rule: seed_queue.induct)
  case (2 r rs visited)
  show ?case
  proof (cases "g_ID r \<in> visited")
    case True
    then show ?thesis using "2.IH"(1) [OF True] "2.prems" by auto
  next
    case False
    obtain q v where qv: "seed_queue rs (insert (g_ID r) visited) = (q, v)" by fastforce
    note IH = "2.IH"(2) [OF False qv]
    have "qi_id x \<notin> insert (g_ID r) visited" if "x \<in> set q" for x
      using IH that by (metis DiffD2 imageI)
    then show ?thesis using IH "2.prems" False qv by auto
  qed
qed auto

lemma seed_queue_inv:
  assumes "seed_queue roots {} = (queue, visited)"
  shows "bfs_inv api roots eval maxDepth [] queue visited []"
proof -
  note spec = seed_queue_spec [OF assms]
  have "map qi_depth queue = replicate (length queue) 0"
    using spec by (intro nth_equalityI) simp_all
  then have "sorted (map qi_depth queue)" by (simp add: sorted_replicate)
  moreover have "\<exists>q \<in> set queue. qi_id q = g_ID r \<and> qi_depth q = 0" if "r \<in> set roots" for r
  proof -
    have "g_ID r \<in> qi_id ` set queue" using spec that by auto
    then obtain q where "q \<in> set queue" "g_ID r = qi_id q" by (rule imageE)
    then show ?thesis using spec by auto
  qed
  ultimately show ?thesis
    using spec by (auto simp: bfs_inv_def intro: reach_root)
qed

text \<open>
  Property C5. The traversal always returns: as soon as the root resolution and every subgroup
  listing return, so does \<^verbatim>\<open>Traverse\<close> with the ceiling of \<^verbatim>\<open>NewBFSGroupTraverser\<close>, on any group
  graph (cyclic, shared or unbounded) and whatever the context does.
\<close>

theorem Traverse_terminates:
  assumes "resolveRoots api selector \<noteq> None"
    and "\<And>g. listAllSubgroups api g \<noteq> None"
  shows "\<exists>r. Traverse ctx api default_maxDepth selector = Some r"
proof -
  have "bfs_loop ctx api (NewGroupSelectorEvaluator selector) default_maxDepth 0 queue visited [] \<noteq> None"
    for queue visited
    by (rule bfs_loop_returns) (use assms in \<open>auto simp: default_maxDepth_def\<close>)
  with assms(1) show ?thesis
    by (auto simp: Traverse_def split: option.splits sum.splits prod.splits)
qed

text \<open>
  Property C2. When a recursive traversal succeeds, its result is exactly the fleet hierarchy:
  no group appears twice; every returned group is reachable from the roots at its recorded
  depth, lies within the ceiling and is not excluded; and every group that is reachable within
  the ceiling is returned unless an exclusion rule matches it (the descendants of an excluded
  group are still traversed).
\<close>

theorem Traverse_correct:
  assumes "Traverse ctx api maxDepth selector = Some (Inr gs)"
    and "ev_recursive (NewGroupSelectorEvaluator selector)"
  shows "\<exists>roots. resolveRoots api selector = Some (Inr roots)
    \<and> bfs_post api roots (NewGroupSelectorEvaluator selector) maxDepth gs"
proof -
  from assms(1) obtain roots where roots: "resolveRoots api selector = Some (Inr roots)"
    and loop: "bfs_loop ctx api (NewGroupSelectorEvaluator selector) maxDepth 0
      (fst (seed_queue roots {})) (snd (seed_queue roots {})) [] = Some (Inr gs)"
    by (auto simp: Traverse_def split: option.splits sum.splits prod.splits)
  have "bfs_inv api roots (NewGroupSelectorEvaluator selector) maxDepth []
      (fst (seed_queue roots {})) (snd (seed_queue roots {})) []"
    by (rule seed_queue_inv) simp
  then show ?thesis using bfs_loop_post [OF loop refl assms(2)] roots by blast
qed

subsection \<open>Selector precedence\<close>

text \<open>
  Exclusions take precedence over inclusions: a group whose ID or (case-insensitive,
  slash-trimmed) path is excluded never matches, whatever is included; without usable includes
  every other group matches, with them exactly the included ones.
\<close>

theorem Group_Matches_precedence:
  "Group_Matches (NewGroupSelectorEvaluator (Some s)) (Some g) \<longleftrightarrow>
     \<not> (g_ID g \<in> set (gsel_GroupIDsExclude s)
        \<or> (clean_path (g_FullPath g) \<noteq> [] \<and> clean_path (g_FullPath g) \<in> clean_path ` set (gsel_GroupPathsExclude s)))
     \<and> ((gsel_GroupIDsInclude s = [] \<and> clean_path ` set (gsel_GroupPathsInclude s) \<subseteq> {[]})
        \<or> g_ID g \<in> set (gsel_GroupIDsInclude s)
        \<or> (clean_path (g_FullPath g) \<noteq> [] \<and> clean_path (g_FullPath g) \<in> clean_path ` set (gsel_GroupPathsInclude s)))"
  by (auto simp: Group_Matches_def NewGroupSelectorEvaluator_def clean_paths_def Let_def)

subsection \<open>Witnesses: a cyclic hierarchy\<close>

text \<open>
  Two groups that list each other as subgroups, served page by page as the mock server does
  (the shape of \<^verbatim>\<open>SeedCircularSubgroups\<close>).
\<close>

definition ex_group :: "int \<Rightarrow> string \<Rightarrow> gl_group" where
  "ex_group i path =
     \<lparr>g_ID = i, g_Name = path, g_Path = path, g_FullPath = path, g_ParentID = 0,
      g_Visibility = ''private'', g_Description = [], g_WebURL = []\<rparr>"

definition ex_children :: "int \<Rightarrow> gl_group option list" where
  "ex_children g =
     (if g = 1 then [Some (ex_group 2 ''b'')] else if g = 2 then [Some (ex_group 1 ''a'')] else [])"

definition cyclic_api :: group_api where
  "cyclic_api =
     \<lparr>api_GetGroupByID = (\<lambda>i. Inr (Some (ex_group i ''a''))),
      api_GetGroupByPath = (\<lambda>p. Inr (Some (ex_group 1 p))),
      api_ListGroups = mock_list 100 [Some (ex_group 1 ''a'')],
      api_ListSubgroups = (\<lambda>g. mock_list 100 (ex_children g))\<rparr>"

lemma listAllSubgroups_cyclic: "listAllSubgroups cyclic_api g = Some (Inr (ex_children g))"
  by (simp add: listAllSubgroups_def cyclic_api_def mock.fetch_all)

lemma resolveRoots_cyclic: "resolveRoots cyclic_api None = Some (Inr [ex_group 1 ''a''])"
  by (simp add: resolveRoots_def top_level_roots_def cyclic_api_def mock.fetch_all add_root_def)

theorem Traverse_terminates_witness:
  "\<exists>r. Traverse (\<lambda>_. None) cyclic_api default_maxDepth None = Some r"
  by (rule Traverse_terminates) (simp_all add: listAllSubgroups_cyclic resolveRoots_cyclic)

lemma Traverse_cyclic:
  "Traverse (\<lambda>_. None) cyclic_api 100 None =
     Some (Inr [NormalizeGroup (ex_group 1 ''a'') 0 1, NormalizeGroup (ex_group 2 ''b'') 1 1])"
  by (simp add: Traverse_def resolveRoots_cyclic bfs_loop.simps listAllSubgroups_cyclic ex_children_def
      ex_group_def visit_def IsExcluded_def NewGroupSelectorEvaluator_def)

theorem Traverse_correct_witness:
  "\<exists>roots. resolveRoots cyclic_api None = Some (Inr roots)
    \<and> bfs_post cyclic_api roots (NewGroupSelectorEvaluator None) 100
        [NormalizeGroup (ex_group 1 ''a'') 0 1, NormalizeGroup (ex_group 2 ''b'') 1 1]"
  by (rule Traverse_correct [OF Traverse_cyclic]) (simp add: NewGroupSelectorEvaluator_def)

end
