(* ===== verification/Pagination.thy ===== *)
theory Pagination
  imports Group_Tree
begin

section \<open>Streaming pagination\<close>

text \<open>
  \<^verbatim>\<open>internal/gitlab/pagination.go\<close>: the parsing of the page and keyset headers, the streaming
  loop \<^verbatim>\<open>StreamAll\<close> with its fallback from keyset to page mode, \<^verbatim>\<open>CollectAll\<close>, and the request
  options of the four domain streamers. A stream is the list of the items sent to the channel.
  HTTP headers are a function from names to values (\<^verbatim>\<open>""\<close> when absent, as \<^verbatim>\<open>Header.Get\<close> gives);
  \<^verbatim>\<open>url.Parse(u).Query().Get(k)\<close> is the parameter \<open>query u k\<close>, \<open>None\<close> for an unparsable URL.
  \<open>ctx n\<close> tells whether the \<open>n\<close>-th \<^verbatim>\<open>select\<close> of the loop takes its \<^verbatim>\<open>ctx.Done()\<close> branch.
\<close>

datatype pagination_mode = PaginationModeKeyset | PaginationModePage

record pagination_options =
  po_Mode :: pagination_mode
  po_Page :: int
  po_PerPage :: int
  po_OrderBy :: string
  po_Sort :: string
  po_IDAfter :: int
  po_PageToken :: string

definition DefaultPaginationOptions :: pagination_options where
  "DefaultPaginationOptions =
     \<lparr>po_Mode = PaginationModeKeyset, po_Page = 1, po_PerPage = 100, po_OrderBy = ''id'',
      po_Sort = ''asc'', po_IDAfter = 0, po_PageToken = []\<rparr>"

record page_response =
  pg_CurrentPage :: int
  pg_PerPage :: int
  pg_NextPage :: int
  pg_PrevPage :: int
  pg_Total :: int
  pg_TotalPages :: int
  pg_NextURL :: string
  pg_NextIDAfter :: int
  pg_HasNext :: bool

record http_response =
  hr_StatusCode :: int
  hr_Header :: "string \<Rightarrow> string"

datatype 'a stream_item = SVal 'a | SErr go_error

type_synonym url_query = "string \<Rightarrow> string \<Rightarrow> string option"

subsection \<open>Link headers\<close>

fun split_comma :: "string \<Rightarrow> string \<Rightarrow> string list" where
  "split_comma acc [] = [rev acc]"
| "split_comma acc (c # cs) =
     (if c = CHR '','' then rev acc # split_comma [] cs else split_comma (c # acc) cs)"

text \<open>
  The expression \<^verbatim>\<open><([^>]+)>;\s*rel="?([^";]+)"?\<close>, anchored at the start of the string, and
  its leftmost match: each sub-pattern is determined by the characters that may follow it, so
  there is nothing to backtrack over. The \<^verbatim>\<open>\s\<close> of RE2 is a tab, a line feed, a form feed, a carriage
  return or a blank; unlike \<^verbatim>\<open>unicode.IsSpace\<close> it has no vertical tab.
\<close>

definition re2_space :: "char \<Rightarrow> bool" where
  "re2_space c \<longleftrightarrow> of_char c \<in> {9, 10, 12, 13, 32 :: nat}"

definition match_rel :: "string \<Rightarrow> string option" where
  "match_rel s =
     (let s1 = dropWhile re2_space s in
      if \<not> HasPrefix s1 ''rel='' then None
      else let s2 = drop 4 s1;
               s3 = (if s2 \<noteq> [] \<and> hd s2 = CHR 0x22 then tl s2 else s2);
               rel = takeWhile (\<lambda>c. c \<noteq> CHR 0x22 \<and> c \<noteq> CHR '';'') s3
           in if rel = [] then None else Some rel)"

definition match_link_at :: "string \<Rightarrow> (string \<times> string) option" where
  "match_link_at s =
     (case s of
        [] \<Rightarrow> None
      | c # s1 \<Rightarrow>
          if c \<noteq> CHR ''<'' then None
          else let u = takeWhile (\<lambda>c. c \<noteq> CHR ''>'') s1; s2 = dropWhile (\<lambda>c. c \<noteq> CHR ''>'') s1 in
            if u = [] \<or> \<not> HasPrefix s2 ''>;'' then None
            else (case match_rel (drop 2 s2) of None \<Rightarrow> None | Some rel \<Rightarrow> Some (u, rel)))"

fun match_link :: "string \<Rightarrow> (string \<times> string) option" where
  "match_link [] = None"
| "match_link (c # s) =
     (case match_link_at (c # s) of Some m \<Rightarrow> Some m | None \<Rightarrow> match_link s)"

definition ParseLinkHeader :: "string \<Rightarrow> (string, string) go_map" where
  "ParseLinkHeader header =
     (if header = [] then []
      else foldl (\<lambda>links part.
             case match_link (TrimSpace part) of
               None \<Rightarrow> links
             | Some (targetURL, rel) \<Rightarrow> go_put (ToLower rel) targetURL links)
           [] (split_comma [] header))"

subsection \<open>Page metadata\<close>

definition empty_page_response :: page_response where
  "empty_page_response =
     \<lparr>pg_CurrentPage = 0, pg_PerPage = 0, pg_NextPage = 0, pg_PrevPage = 0, pg_Total = 0,
      pg_TotalPages = 0, pg_NextURL = [], pg_NextIDAfter = 0, pg_HasNext = False\<rparr>"

definition atoi_or :: "int \<Rightarrow> string \<Rightarrow> int" where
  "atoi_or d s = (case Atoi s of None \<Rightarrow> d | Some v \<Rightarrow> v)"

definition parse_page_headers :: "(string \<Rightarrow> string) \<Rightarrow> page_response" where
  "parse_page_headers h =
     (let next = atoi_or 0 (h ''X-Next-Page'') in
      empty_page_response
        \<lparr>pg_CurrentPage := atoi_or 0 (h ''X-Page''), pg_PerPage := atoi_or 0 (h ''X-Per-Page''),
         pg_NextPage := (if next > 0 then next else 0), pg_HasNext := next > 0,
         pg_PrevPage := atoi_or 0 (h ''X-Prev-Page''), pg_Total := atoi_or 0 (h ''X-Total''),
         pg_TotalPages := atoi_or 0 (h ''X-Total-Pages'')\<rparr>)"

definition parse_keyset_link :: "url_query \<Rightarrow> string \<Rightarrow> page_response \<Rightarrow> page_response" where
  "parse_keyset_link query nextURL pr =
     (let pr1 = pr\<lparr>pg_NextURL := nextURL, pg_HasNext := True\<rparr> in
      case query nextURL ''id_after'' of
        None \<Rightarrow> pr1
      | Some idAfterStr \<Rightarrow>
          pr1\<lparr>pg_NextIDAfter := (if idAfterStr \<noteq> [] then atoi_or (pg_NextIDAfter pr1) idAfterStr else pg_NextIDAfter pr1),
              pg_NextPage :=
                (case query nextURL ''page'' of
                   Some pageStr \<Rightarrow> if pageStr \<noteq> [] \<and> pg_NextPage pr1 = 0 then atoi_or 0 pageStr else pg_NextPage pr1
                 | None \<Rightarrow> pg_NextPage pr1)\<rparr>)"

definition ParsePageResponse :: "url_query \<Rightarrow> http_response option \<Rightarrow> page_response" where
  "ParsePageResponse query resp =
     (case resp of
        None \<Rightarrow> empty_page_response
      | Some r \<Rightarrow>
          (let h = hr_Header r; pr = parse_page_headers h in
           if h ''Link'' = [] then pr
           else case go_get (ParseLinkHeader (h ''Link'')) ''next'' of
             Some nextURL \<Rightarrow> if nextURL = [] then pr else parse_keyset_link query nextURL pr
           | None \<Rightarrow> pr))"

subsection \<open>StreamAll\<close>

record 'a fetch_result =
  fx_items :: "'a list"
  fx_resp :: "http_response option"
  fx_err :: "go_error option"

type_synonym 'a page_fetcher = "pagination_options \<Rightarrow> 'a fetch_result"

text \<open>
  Sending the items of one page: before each send the loop polls the context.
\<close>

fun send_items :: "ctx \<Rightarrow> nat \<Rightarrow> 'a list \<Rightarrow> 'a stream_item list \<times> go_error option" where
  "send_items ctx k [] = ([], None)"
| "send_items ctx k (x # xs) =
     (case ctx k of
        Some e \<Rightarrow> ([], Some e)
      | None \<Rightarrow> (case send_items ctx (Suc k) xs of (out, r) \<Rightarrow> (SVal x # out, r)))"

text \<open>The termination checks after a page: the options of the next request, if there is one.\<close>

definition next_options :: "page_response \<Rightarrow> pagination_options \<Rightarrow> pagination_options option" where
  "next_options meta opt =
     (case po_Mode opt of
        PaginationModeKeyset \<Rightarrow>
          if \<not> pg_HasNext meta \<or> pg_NextURL meta = [] then None
          else if pg_NextIDAfter meta > 0 then
            (if pg_NextIDAfter meta \<le> po_IDAfter opt then None
             else Some (opt\<lparr>po_IDAfter := pg_NextIDAfter meta\<rparr>))
          else None
      | PaginationModePage \<Rightarrow>
          if \<not> pg_HasNext meta \<or> pg_NextPage meta \<le> po_Page opt then None
          else Some (opt\<lparr>po_Page := pg_NextPage meta\<rparr>))"

text \<open>On a 400 response to a keyset request the loop starts over in page mode.\<close>

definition keyset_fallback :: "bool \<Rightarrow> pagination_options \<Rightarrow> http_response option \<Rightarrow> bool" where
  "keyset_fallback autoFallback opt resp =
     (autoFallback \<and> po_Mode opt = PaginationModeKeyset \<and> (case resp of None \<Rightarrow> False | Some r \<Rightarrow> hr_StatusCode r = 400))"

lemma Atoi_range: "Atoi s = Some v \<Longrightarrow> v < 2 ^ 63"
  by (auto simp: Atoi_def Let_def split: if_splits)

lemma atoi_or_range [simp]: "atoi_or 0 s < 9223372036854775808"
  by (auto simp: atoi_or_def dest: Atoi_range split: option.splits)

lemma ParsePageResponse_range:
  "pg_NextPage (ParsePageResponse query resp) < 2 ^ 63"
  "pg_NextIDAfter (ParsePageResponse query resp) < 2 ^ 63"
  by (simp_all add: ParsePageResponse_def parse_keyset_link_def parse_page_headers_def empty_page_response_def
      Let_def split: option.splits)

text \<open>How far a request is from the largest 64-bit position: what the loop decreases.\<close>

definition stream_measure :: "pagination_options \<Rightarrow> nat \<times> nat" where
  "stream_measure opt =
     (case po_Mode opt of
        PaginationModeKeyset \<Rightarrow> (1, nat (2 ^ 63 - po_IDAfter opt))
      | PaginationModePage \<Rightarrow> (0, nat (2 ^ 63 - po_Page opt)))"

lemma next_options_decreases:
  "next_options (ParsePageResponse query resp) opt = Some opt' \<Longrightarrow>
     (stream_measure opt', stream_measure opt) \<in> less_than <*lex*> less_than"
  using ParsePageResponse_range [of query resp]
  by (auto simp: next_options_def stream_measure_def split: pagination_mode.splits if_splits)

lemma keyset_fallback_decreases:
  "keyset_fallback fb opt resp \<Longrightarrow>
     (stream_measure (opt\<lparr>po_Mode := PaginationModePage, po_Page := p, po_IDAfter := i\<rparr>), stream_measure opt)
       \<in> less_than <*lex*> less_than"
  by (auto simp: keyset_fallback_def stream_measure_def)

function stream_loop ::
  "url_query \<Rightarrow> ctx \<Rightarrow> 'a page_fetcher \<Rightarrow> bool \<Rightarrow> nat \<Rightarrow> pagination_options \<Rightarrow> 'a stream_item list" where
  "stream_loop query ctx fetcher autoFallback k opt =
     (case ctx k of
        Some e \<Rightarrow> [SErr e]
      | None \<Rightarrow>
          (case fx_err (fetcher opt) of
             Some err \<Rightarrow>
               if keyset_fallback autoFallback opt (fx_resp (fetcher opt))
               then stream_loop query ctx fetcher autoFallback (Suc k)
                      (opt\<lparr>po_Mode := PaginationModePage, po_Page := 1, po_IDAfter := 0\<rparr>)
               else [SErr err]
           | None \<Rightarrow>
               (case send_items ctx (Suc k) (fx_items (fetcher opt)) of
                  (out, Some e) \<Rightarrow> out @ [SErr e]
                | (out, None) \<Rightarrow>
                    if fx_items (fetcher opt) = [] then out
                    else case next_options (ParsePageResponse query (fx_resp (fetcher opt))) opt of
                      None \<Rightarrow> out
                    | Some opt' \<Rightarrow>
                        out @ stream_loop query ctx fetcher autoFallback
                                (Suc k + length (fx_items (fetcher opt))) opt')))"
  by pat_completeness auto
termination
  by (relation "inv_image (less_than <*lex*> less_than) (\<lambda>(query, ctx, fetcher, fb, k, opt). stream_measure opt)")
     (auto simp: wf_lex_prod intro: next_options_decreases keyset_fallback_decreases)

declare stream_loop.simps [simp del]

record stream_options =
  so_Pagination :: pagination_options
  so_BufferSize :: int
  so_AutoFallback :: bool

definition DefaultStreamOptions :: stream_options where
  "DefaultStreamOptions =
     \<lparr>so_Pagination = DefaultPaginationOptions, so_BufferSize = 100, so_AutoFallback = True\<rparr>"

text \<open>The buffer size only bounds how far the producer may run ahead of the consumer.\<close>

definition StreamAll :: "url_query \<Rightarrow> ctx \<Rightarrow> 'a page_fetcher \<Rightarrow> stream_options \<Rightarrow> 'a stream_item list" where
  "StreamAll query ctx fetcher opts =
     (let o1 = so_Pagination opts;
          o2 = (if po_PerPage o1 \<le> 0 then o1\<lparr>po_PerPage := 100\<rparr> else o1);
          o3 = (if po_Page o2 \<le> 0 then o2\<lparr>po_Page := 1\<rparr> else o2)
      in stream_loop query ctx fetcher (so_AutoFallback opts) 0 o3)"

fun CollectAll :: "'a stream_item list \<Rightarrow> 'a list \<times> go_error option" where
  "CollectAll [] = ([], None)"
| "CollectAll (SErr e # xs) = ([], Some e)"
| "CollectAll (SVal x # xs) = (case CollectAll xs of (vs, r) \<Rightarrow> (x # vs, r))"

subsection \<open>Domain streamers\<close>

text \<open>
  The list options of the SDK that the streamers fill in. \<^verbatim>\<open>StreamProjects\<close> passes the keyset
  position as \<^verbatim>\<open>id_after\<close>; the group, subgroup and group-project streamers pass it as
  \<^verbatim>\<open>page_token\<close>.
\<close>

record list_options =
  lo_PerPage :: int
  lo_Page :: int
  lo_Pagination :: string
  lo_OrderBy :: "string option"
  lo_Sort :: "string option"
  lo_IDAfter :: "int option"
  lo_PageToken :: string

definition keyset_options :: "list_options \<Rightarrow> pagination_options \<Rightarrow> list_options" where
  "keyset_options base p =
     base\<lparr>lo_PerPage := po_PerPage p, lo_Pagination := ''keyset'',
          lo_OrderBy := (if po_OrderBy p \<noteq> [] then Some (po_OrderBy p) else lo_OrderBy base),
          lo_Sort := (if po_Sort p \<noteq> [] then Some (po_Sort p) else lo_Sort base)\<rparr>"

definition project_list_options :: "list_options \<Rightarrow> pagination_options \<Rightarrow> list_options" where
  "project_list_options base p =
     (case po_Mode p of
        PaginationModeKeyset \<Rightarrow>
          (let r = keyset_options base p in if po_IDAfter p > 0 then r\<lparr>lo_IDAfter := Some (po_IDAfter p)\<rparr> else r)
      | PaginationModePage \<Rightarrow> base\<lparr>lo_PerPage := po_PerPage p, lo_Page := po_Page p\<rparr>)"

definition token_list_options :: "list_options \<Rightarrow> pagination_options \<Rightarrow> list_options" where
  "token_list_options base p =
     (case po_Mode p of
        PaginationModeKeyset \<Rightarrow>
          (let r = keyset_options base p in
           if po_PageToken p \<noteq> [] then r\<lparr>lo_PageToken := po_PageToken p\<rparr>
           else if po_IDAfter p > 0 then r\<lparr>lo_PageToken := fmt_d (po_IDAfter p)\<rparr> else r)
      | PaginationModePage \<Rightarrow> base\<lparr>lo_PerPage := po_PerPage p, lo_Page := po_Page p\<rparr>)"

definition StreamProjects ::
  "url_query \<Rightarrow> ctx \<Rightarrow> (list_options \<Rightarrow> 'p fetch_result) \<Rightarrow> list_options \<Rightarrow> stream_options \<Rightarrow> 'p stream_item list" where
  "StreamProjects query ctx listFn base opts =
     StreamAll query ctx (\<lambda>p. listFn (project_list_options base p)) opts"

definition StreamGroups ::
  "url_query \<Rightarrow> ctx \<Rightarrow> (list_options \<Rightarrow> 'g fetch_result) \<Rightarrow> list_options \<Rightarrow> stream_options \<Rightarrow> 'g stream_item list" where
  "StreamGroups query ctx listFn base opts =
     StreamAll query ctx (\<lambda>p. listFn (token_list_options base p)) opts"

definition StreamSubgroups ::
  "url_query \<Rightarrow> ctx \<Rightarrow> (int \<Rightarrow> list_options \<Rightarrow> 'g fetch_result) \<Rightarrow> int \<Rightarrow> list_options \<Rightarrow> stream_options \<Rightarrow> 'g stream_item list" where
  "StreamSubgroups query ctx listFn groupID base opts =
     StreamAll query ctx (\<lambda>p. listFn groupID (token_list_options base p)) opts"

definition StreamGroupProjects ::
  "url_query \<Rightarrow> ctx \<Rightarrow> (int \<Rightarrow> list_options \<Rightarrow> 'p fetch_result) \<Rightarrow> int \<Rightarrow> list_options \<Rightarrow> stream_options \<Rightarrow> 'p stream_item list" where
  "StreamGroupProjects query ctx listFn groupID base opts =
     StreamAll query ctx (\<lambda>p. listFn groupID (token_list_options base p)) opts"

definition empty_list_options :: list_options where
  "empty_list_options =
     \<lparr>lo_PerPage = 0, lo_Page = 0, lo_Pagination = [], lo_OrderBy = None, lo_Sort = None,
      lo_IDAfter = None, lo_PageToken = []\<rparr>"

subsection \<open>The keyset mode of the mock server\<close>

text \<open>
  The keyset branch of \<^verbatim>\<open>paginate\<close> in \<^verbatim>\<open>router.go\<close>: the items with an ID above the position (taken
  from \<^verbatim>\<open>id_after\<close>, else from \<^verbatim>\<open>page_token\<close>), and a \<^verbatim>\<open>Link\<close> header while more are left.
\<close>

definition keyset_position :: "list_options \<Rightarrow> int" where
  "keyset_position q =
     (case lo_IDAfter q of Some i \<Rightarrow> i | None \<Rightarrow> if lo_PageToken q \<noteq> [] then atoi_or 0 (lo_PageToken q) else 0)"

definition mock_next_url :: "string \<Rightarrow> int \<Rightarrow> int \<Rightarrow> string" where
  "mock_next_url hostPath lastID perPage =
     ''http://'' @ hostPath @ ''?id_after='' @ fmt_d lastID @ ''&page_token='' @ fmt_d lastID
     @ ''&pagination=keyset&per_page='' @ fmt_d perPage"

definition mock_link_header :: "string \<Rightarrow> string" where
  "mock_link_header nextURL = ''<'' @ nextURL @ ''>; rel='' @ [CHR 0x22] @ ''next'' @ [CHR 0x22]"

definition paginate_keyset :: "('a \<Rightarrow> int) \<Rightarrow> string \<Rightarrow> 'a list \<Rightarrow> list_options \<Rightarrow> 'a fetch_result" where
  "paginate_keyset getItemID hostPath items q =
     (let perPage = (if lo_PerPage q > 0 then lo_PerPage q else 20);
          rest = dropWhile (\<lambda>x. getItemID x \<le> keyset_position q) items;
          slice = take (nat perPage) rest;
          link = (if nat perPage < length rest \<and> slice \<noteq> []
                  then mock_link_header (mock_next_url hostPath (getItemID (last slice)) perPage) else [])
      in \<lparr>fx_items = slice,
          fx_resp = Some \<lparr>hr_StatusCode = 200, hr_Header = (\<lambda>k. if k = ''Link'' then link else [])\<rparr>,
          fx_err = None\<rparr>)"

text \<open>
  \<^verbatim>\<open>Query().Get(k)\<close> of a URL without escapes: the first \<^verbatim>\<open>k=v\<close> among the parameters after the
  question mark.
\<close>

fun split_amp :: "string \<Rightarrow> string \<Rightarrow> string list" where
  "split_amp acc [] = [rev acc]"
| "split_amp acc (c # cs) =
     (if c = CHR ''&'' then rev acc # split_amp [] cs else split_amp (c # acc) cs)"

definition simple_query :: url_query where
  "simple_query u k =
     (case find (\<lambda>kv. HasPrefix kv (k @ ''='')) (split_amp [] (drop 1 (dropWhile (\<lambda>c. c \<noteq> CHR ''?'') u))) of
        None \<Rightarrow> Some []
      | Some kv \<Rightarrow> Some (drop (Suc (length k)) kv))"

subsection \<open>Header round trips\<close>

lemma split_comma_none: "CHR '','' \<notin> set s \<Longrightarrow> split_comma acc s = [rev acc @ s]"
  by (induction s arbitrary: acc) auto

lemma split_amp_sep: "CHR ''&'' \<notin> set a \<Longrightarrow> split_amp acc (a @ CHR ''&'' # b) = (rev acc @ a) # split_amp [] b"
  by (induction a arbitrary: acc) auto

lemma trim_by_id: "\<not> P a \<Longrightarrow> \<not> P z \<Longrightarrow> trim_by P (a # xs @ [z]) = a # xs @ [z]"
  by (simp add: trim_by_def)

lemma takeWhile_sep: "c \<notin> set a \<Longrightarrow> takeWhile (\<lambda>x. x \<noteq> c) (a @ c # b) = a"
  by (induction a) auto

lemma dropWhile_sep: "c \<notin> set a \<Longrightarrow> dropWhile (\<lambda>x. x \<noteq> c) (a @ c # b) = c # b"
  by (induction a) auto

lemma match_rel_next: "match_rel ('' rel='' @ [CHR 0x22] @ ''next'' @ [CHR 0x22]) = Some ''next''"
  by (simp add: match_rel_def re2_space_def HasPrefix_def Let_def)

lemma match_link_mock:
  assumes "u \<noteq> []" and "CHR ''>'' \<notin> set u"
  shows "match_link (mock_link_header u) = Some (u, ''next'')"
proof -
  have "match_link_at (CHR ''<'' # u @ ''>; rel='' @ [CHR 0x22] @ ''next'' @ [CHR 0x22]) = Some (u, ''next'')"
    using assms takeWhile_sep [OF assms(2)] dropWhile_sep [OF assms(2)] match_rel_next
    by (simp add: match_link_at_def HasPrefix_def Let_def)
  then show ?thesis by (simp add: mock_link_header_def)
qed

lemma ParseLinkHeader_mock:
  assumes "u \<noteq> []" and "CHR ''>'' \<notin> set u" and "CHR '','' \<notin> set u"
  shows "ParseLinkHeader (mock_link_header u) = [(''next'', u)]"
proof -
  have "CHR '','' \<notin> set (mock_link_header u)" using assms(3) by (simp add: mock_link_header_def)
  then have split: "split_comma [] (mock_link_header u) = [mock_link_header u]"
    by (simp add: split_comma_none)
  have "TrimSpace (CHR ''<'' # (u @ ''>; rel='' @ [CHR 0x22] @ ''next'') @ [CHR 0x22]) =
      CHR ''<'' # (u @ ''>; rel='' @ [CHR 0x22] @ ''next'') @ [CHR 0x22]"
    unfolding TrimSpace_def by (rule trim_by_id) (simp_all add: is_space_def)
  then have trim: "TrimSpace (mock_link_header u) = mock_link_header u"
    by (simp add: mock_link_header_def)
  have "ToLower ''next'' = ''next''" by (simp add: ToLower_def to_lower_char_def)
  then show ?thesis
    using match_link_mock [OF assms(1,2)] split trim
    by (simp add: ParseLinkHeader_def mock_link_header_def [of u] go_put_def del: append.simps)
qed

lemma simple_query_mock:
  assumes "CHR ''?'' \<notin> set hp"
  shows "simple_query (mock_next_url hp n pp) ''id_after'' = Some (fmt_d n)"
proof -
  let ?tail = "''page_token='' @ fmt_d n @ ''&pagination=keyset&per_page='' @ fmt_d pp"
  let ?q = "''id_after='' @ fmt_d n @ CHR ''&'' # ?tail"
  have u: "mock_next_url hp n pp = (''http://'' @ hp) @ CHR ''?'' # ?q"
    by (simp add: mock_next_url_def)
  have "drop 1 (dropWhile (\<lambda>c. c \<noteq> CHR ''?'') (mock_next_url hp n pp)) = ?q"
    unfolding u by (subst dropWhile_sep) (use assms in auto)
  moreover have "CHR ''&'' \<notin> set (''id_after='' @ fmt_d n)"
    using fmt_d_chars [of "CHR ''&''" n] by (auto simp: is_digit_def)
  then have "split_amp [] ?q = (''id_after='' @ fmt_d n) # split_amp [] ?tail"
    using split_amp_sep [of "''id_after='' @ fmt_d n" "[]" ?tail] by simp
  ultimately show ?thesis by (simp add: simple_query_def HasPrefix_def)
qed

subsection \<open>The contract of a keyset endpoint\<close>

locale keyset_listing =
  fixes query :: url_query
    and fetcher :: "'a page_fetcher"
    and items :: "'a list"
    and itemID :: "'a \<Rightarrow> int"
    and perPage :: nat
  assumes perPage_pos: "0 < perPage"
    and ids_increasing: "sorted_wrt (<) (map itemID items)"
    and page: "po_Mode opt = PaginationModeKeyset \<Longrightarrow> po_PerPage opt = int perPage \<Longrightarrow> 0 \<le> po_IDAfter opt \<Longrightarrow>
      rest = dropWhile (\<lambda>x. itemID x \<le> po_IDAfter opt) items \<Longrightarrow>
      fx_err (fetcher opt) = None \<and> fx_items (fetcher opt) = take perPage rest
      \<and> (let m = ParsePageResponse query (fx_resp (fetcher opt)) in
         if perPage < length rest
         then pg_HasNext m \<and> pg_NextURL m \<noteq> [] \<and> pg_NextIDAfter m = itemID (rest ! (perPage - 1))
         else pg_NextURL m = [])"
    and ids_positive: "x \<in> set items \<Longrightarrow> 0 < itemID x"
begin

lemma dropWhile_ids:
  assumes "ys = dropWhile (\<lambda>x. itemID x \<le> a) items" and "perPage < length ys"
  shows "dropWhile (\<lambda>x. itemID x \<le> itemID (ys ! (perPage - 1))) items = drop perPage ys
    \<and> a < itemID (ys ! (perPage - 1)) \<and> 0 < itemID (ys ! (perPage - 1))"
proof -
  obtain pre where items: "items = pre @ ys" and pre: "\<forall>x \<in> set pre. itemID x \<le> a"
    using assms(1) by (metis set_takeWhileD takeWhile_dropWhile_id)
  have incr: "sorted_wrt (<) (map itemID ys)" and above: "\<forall>x \<in> set pre. \<forall>y \<in> set ys. itemID x < itemID y"
    using ids_increasing by (auto simp: items sorted_wrt_append)
  let ?m = "itemID (ys ! (perPage - 1))"
  have k: "perPage - 1 < length ys" using assms(2) by simp
  have "\<forall>x \<in> set (take perPage ys). itemID x \<le> ?m"
  proof
    fix x assume "x \<in> set (take perPage ys)"
    then obtain j where j: "j < perPage" "j < length ys" "x = ys ! j" by (auto simp: in_set_conv_nth)
    show "itemID x \<le> ?m"
    proof (cases "j = perPage - 1")
      case False
      with j perPage_pos have "j < perPage - 1" by simp
      then have "map itemID ys ! j < map itemID ys ! (perPage - 1)"
        using incr k by (intro sorted_wrt_nth_less) auto
      with j k show ?thesis by simp
    qed (use j in simp)
  qed
  moreover have "\<not> itemID (hd (drop perPage ys)) \<le> ?m"
  proof -
    have "map itemID ys ! (perPage - 1) < map itemID ys ! perPage"
      using incr assms(2) perPage_pos by (intro sorted_wrt_nth_less) auto
    then show ?thesis using assms(2) k by (simp add: hd_drop_conv_nth)
  qed
  moreover have "\<forall>x \<in> set pre. itemID x \<le> ?m" using above k by (auto intro: less_imp_le)
  ultimately have "dropWhile (\<lambda>x. itemID x \<le> ?m) (pre @ take perPage ys @ drop perPage ys) = drop perPage ys"
    using assms(2) by (subst dropWhile_append2, blast)+ (cases "drop perPage ys", auto)
  moreover have "a < itemID (hd ys)"
    using assms by (metis hd_dropWhile linorder_not_le list.size(3) not_less_zero)
  then have "a < ?m"
    using \<open>\<forall>x \<in> set (take perPage ys). itemID x \<le> ?m\<close> assms(2) perPage_pos
    by (cases ys; cases perPage) fastforce+
  moreover have "0 < ?m" using ids_positive k by (simp add: items)
  ultimately show ?thesis by (simp add: items)
qed

text \<open>With a live context the stream is the whole listing after the requested position.\<close>

lemma send_items_live: "send_items (\<lambda>_. None) k xs = (map SVal xs, None)"
  by (induction xs arbitrary: k) auto

lemma stream_loop_keyset:
  assumes "po_Mode opt = PaginationModeKeyset" and "po_PerPage opt = int perPage" and "0 \<le> po_IDAfter opt"
  shows "stream_loop query (\<lambda>_. None) fetcher fb k opt =
    map SVal (dropWhile (\<lambda>x. itemID x \<le> po_IDAfter opt) items)"
  using assms
proof (induction "length (dropWhile (\<lambda>x. itemID x \<le> po_IDAfter opt) items)" arbitrary: opt k rule: less_induct)
  case less
  define ys where "ys = dropWhile (\<lambda>x. itemID x \<le> po_IDAfter opt) items"
  note pg = page [OF less.prems ys_def]
  show ?case
  proof (cases "perPage < length ys")
    case True
    let ?m = "itemID (ys ! (perPage - 1))"
    let ?opt = "opt\<lparr>po_IDAfter := ?m\<rparr>"
    note dw = dropWhile_ids [OF ys_def True]
    have "stream_loop query (\<lambda>_. None) fetcher fb k' ?opt = map SVal (drop perPage ys)" for k'
    proof -
      have "length (drop perPage ys) < length ys" using True perPage_pos by simp
      then show ?thesis using less.hyps [of ?opt k'] less.prems dw by (simp add: ys_def)
    qed
    moreover have "next_options (ParsePageResponse query (fx_resp (fetcher opt))) opt = Some ?opt"
      using pg True dw less.prems by (simp add: next_options_def Let_def)
    moreover have "take perPage ys \<noteq> []" using True perPage_pos by auto
    ultimately show ?thesis
      using pg by (subst stream_loop.simps) (simp add: send_items_live ys_def [symmetric] map_append [symmetric])
  next
    case False
    then have "next_options (ParsePageResponse query (fx_resp (fetcher opt))) opt = None"
      using pg less.prems by (simp add: next_options_def Let_def)
    then show ?thesis
      using pg False by (subst stream_loop.simps) (auto simp: send_items_live ys_def [symmetric])
  qed
qed

end

lemma CollectAll_vals: "CollectAll (map SVal xs) = (xs, None)"
  by (induction xs) auto

text \<open>
  The mock server's keyset endpoint, reached through the streamers' options, fulfils the
  contract: what the client parses from the headers it sends is the position of the last item.
\<close>

definition ids_ok :: "('a \<Rightarrow> int) \<Rightarrow> 'a list \<Rightarrow> bool" where
  "ids_ok itemID items \<longleftrightarrow> sorted_wrt (<) (map itemID items) \<and> (\<forall>x \<in> set items. 0 < itemID x \<and> itemID x < 2 ^ 63)"

definition plain_host_path :: "string \<Rightarrow> bool" where
  "plain_host_path hp \<longleftrightarrow> CHR ''?'' \<notin> set hp \<and> CHR ''>'' \<notin> set hp \<and> CHR '','' \<notin> set hp"

lemma mock_next_url_clean:
  assumes "plain_host_path hp" and "c \<in> {CHR ''>'', CHR '',''}"
  shows "c \<notin> set (mock_next_url hp n pp)"
  using assms fmt_d_chars [of c n] fmt_d_chars [of c pp]
  by (auto simp: mock_next_url_def plain_host_path_def is_digit_def)

lemma ParsePageResponse_mock:
  assumes "plain_host_path hp" and "0 < n" and "n < 2 ^ 63"
    and "m = ParsePageResponse simple_query (Some \<lparr>hr_StatusCode = 200,
      hr_Header = (\<lambda>k. if k = ''Link'' then mock_link_header (mock_next_url hp n pp) else [])\<rparr>)"
  shows "pg_HasNext m \<and> pg_NextURL m = mock_next_url hp n pp \<and> pg_NextIDAfter m = n"
proof -
  let ?u = "mock_next_url hp n pp"
  have ne: "?u \<noteq> []" by (simp add: mock_next_url_def)
  have link: "ParseLinkHeader (mock_link_header ?u) = [(''next'', ?u)]"
    using ne mock_next_url_clean [OF assms(1)] by (intro ParseLinkHeader_mock) auto
  have q: "simple_query ?u ''id_after'' = Some (fmt_d n)"
    using assms(1) by (intro simple_query_mock) (simp add: plain_host_path_def)
  have n: "atoi_or d (fmt_d n) = n" for d using assms by (simp add: atoi_or_def Atoi_fmt_d)
  have f: "fmt_d n \<noteq> []" by (simp add: fmt_d_def)
  have h: "mock_link_header ?u \<noteq> []" by (simp add: mock_link_header_def)
  have hdr: "parse_page_headers (\<lambda>k. if k = ''Link'' then x else []) = parse_page_headers (\<lambda>_. [])" for x
    by (simp add: parse_page_headers_def)
  show ?thesis
    by (simp add: assms(4) ParsePageResponse_def Let_def link ne h q n f hdr parse_keyset_link_def)
qed

lemma keyset_position_project:
  "po_Mode opt = PaginationModeKeyset \<Longrightarrow> 0 \<le> po_IDAfter opt \<Longrightarrow>
     keyset_position (project_list_options empty_list_options opt) = po_IDAfter opt"
  by (simp add: keyset_position_def project_list_options_def keyset_options_def empty_list_options_def Let_def)

lemma mock_keyset_contract:
  assumes "plain_host_path hp" and "ids_ok itemID items" and "0 < perPage"
  shows "keyset_listing simple_query
    (\<lambda>p. paginate_keyset itemID hp items (project_list_options empty_list_options p)) items itemID perPage"
proof unfold_locales
  fix opt :: pagination_options and rest
  assume opt: "po_Mode opt = PaginationModeKeyset" "po_PerPage opt = int perPage" "0 \<le> po_IDAfter opt"
    and rest: "rest = dropWhile (\<lambda>x. itemID x \<le> po_IDAfter opt) items"
  let ?q = "project_list_options empty_list_options opt"
  let ?r = "paginate_keyset itemID hp items ?q"
  have pp: "lo_PerPage ?q = int perPage"
    using opt by (simp add: project_list_options_def keyset_options_def Let_def)
  have last: "last (take perPage rest) = rest ! (perPage - 1)" if "perPage < length rest"
    using that assms(3) by (subst last_conv_nth) auto
  have range: "0 < itemID (rest ! (perPage - 1)) \<and> itemID (rest ! (perPage - 1)) < 2 ^ 63" if "perPage < length rest"
  proof -
    have "rest ! (perPage - 1) \<in> set rest" using that by simp
    then have "rest ! (perPage - 1) \<in> set items" unfolding rest by (rule set_dropWhileD)
    then show ?thesis using assms(2) by (simp add: ids_ok_def)
  qed
  have "let m = ParsePageResponse simple_query (fx_resp ?r) in
      if perPage < length rest
      then pg_HasNext m \<and> pg_NextURL m \<noteq> [] \<and> pg_NextIDAfter m = itemID (rest ! (perPage - 1))
      else pg_NextURL m = []"
  proof (cases "perPage < length rest")
    case True
    then have "take perPage rest \<noteq> []" using assms(3) by auto
    then have "fx_resp ?r = Some \<lparr>hr_StatusCode = 200, hr_Header = (\<lambda>k. if k = ''Link''
        then mock_link_header (mock_next_url hp (itemID (rest ! (perPage - 1))) (int perPage)) else [])\<rparr>"
      using True opt assms(3) last
      by (simp add: paginate_keyset_def Let_def pp keyset_position_project rest [symmetric] del: One_nat_def cong: if_cong)
    then show ?thesis
      using True ParsePageResponse_mock [OF assms(1), of "itemID (rest ! (perPage - 1))" _ "int perPage"] range
      by (simp add: Let_def mock_next_url_def)
  next
    case False
    then have "fx_resp ?r = Some \<lparr>hr_StatusCode = 200, hr_Header = (\<lambda>k. [])\<rparr>"
      using opt assms(3) by (simp add: paginate_keyset_def Let_def pp keyset_position_project rest [symmetric])
    then show ?thesis
      using False by (simp add: Let_def ParsePageResponse_def parse_page_headers_def empty_page_response_def)
  qed
  then show "fx_err ?r = None \<and> fx_items ?r = take perPage rest \<and> (let m = ParsePageResponse simple_query (fx_resp ?r) in
      if perPage < length rest
      then pg_HasNext m \<and> pg_NextURL m \<noteq> [] \<and> pg_NextIDAfter m = itemID (rest ! (perPage - 1))
      else pg_NextURL m = [])"
    using opt assms(3) by (simp add: paginate_keyset_def Let_def pp keyset_position_project rest)
qed (use assms in \<open>auto simp: ids_ok_def\<close>)

text \<open>
  Rows whose ids the server handed out itself, counting up in a 64-bit integer, satisfy the
  conditions on ids outright.
\<close>

definition assign_ids :: "'a list \<Rightarrow> (int \<times> 'a) list" where
  "assign_ids rows = zip (map int [1..<2 ^ 63]) rows"

lemma assign_ids_ok: "ids_ok fst (assign_ids rows)"
proof -
  have "sorted_wrt (<) (map int [1..<n])" for n by (simp add: sorted_wrt_map)
  then have "sorted_wrt (<) (take k (map int [1..<2 ^ 63]))" for k by (rule sorted_wrt_take)
  moreover have "0 < x \<and> x < 2 ^ 63" if "x \<in> set (map int [1..<2 ^ 63])" for x
    using that by (auto simp del: upt_conv_Cons_Cons)
  ultimately show ?thesis
    unfolding ids_ok_def assign_ids_def map_fst_zip_take by (auto dest: set_zip_leftD)
qed

interpretation mock_keyset: keyset_listing simple_query
  "\<lambda>p. paginate_keyset fst ''127.0.0.1:8080/api/v4/projects'' (assign_ids rows) (project_list_options empty_list_options p)"
  "assign_ids rows" fst 100
  by (rule mock_keyset_contract) (simp_all add: assign_ids_ok plain_host_path_def)

subsection \<open>Properties\<close>

text \<open>
  Property C38. Link header round trip: from the header the keyset endpoint writes for a next page
  after id \<open>n\<close>, the client recovers exactly the URL and the position \<open>n\<close>, for every positive
  64-bit id and every host and path without reserved characters.
\<close>

theorem Link_header_roundtrip:
  assumes "plain_host_path hp" and "0 < n" and "n < 2 ^ 63"
    and "m = ParsePageResponse simple_query (Some \<lparr>hr_StatusCode = 200,
      hr_Header = (\<lambda>k. if k = ''Link'' then mock_link_header (mock_next_url hp n pp) else [])\<rparr>)"
  shows "pg_HasNext m \<and> pg_NextURL m = mock_next_url hp n pp \<and> pg_NextIDAfter m = n"
  using assms by (rule ParsePageResponse_mock)

theorem Link_header_roundtrip_witness:
  "pg_NextIDAfter (ParsePageResponse simple_query (Some \<lparr>hr_StatusCode = 200,
      hr_Header = (\<lambda>k. if k = ''Link'' then mock_link_header (mock_next_url ''h/p'' 42 100) else [])\<rparr>)) = 42"
  using Link_header_roundtrip [of "''h/p''" 42 _ 100] by (simp add: plain_host_path_def)

text \<open>
  Property C13. Collecting the project stream over the keyset endpoint terminates and yields every
  project of the server exactly once, in id order and without error, whatever the page size.
\<close>

theorem StreamProjects_complete:
  assumes "plain_host_path hp" and "ids_ok itemID items" and "0 < perPage"
    and "opts = DefaultStreamOptions\<lparr>so_Pagination := DefaultPaginationOptions\<lparr>po_PerPage := int perPage\<rparr>\<rparr>"
  shows "CollectAll (StreamProjects simple_query (\<lambda>_. None) (paginate_keyset itemID hp items) empty_list_options opts)
    = (items, None)"
proof -
  have "\<forall>x \<in> set items. \<not> itemID x \<le> 0" using assms(2) by (auto simp: ids_ok_def)
  then have "dropWhile (\<lambda>x. itemID x \<le> 0) items = items" by (cases items) auto
  then show ?thesis
    using keyset_listing.stream_loop_keyset [OF mock_keyset_contract [OF assms(1-3)],
        of "DefaultPaginationOptions\<lparr>po_PerPage := int perPage\<rparr>" True 0] assms(3)
    by (simp add: assms(4) StreamProjects_def StreamAll_def Let_def DefaultStreamOptions_def DefaultPaginationOptions_def
        CollectAll_vals)
qed

theorem StreamProjects_complete_witness:
  "CollectAll (StreamProjects simple_query (\<lambda>_. None)
      (paginate_keyset id ''localhost/api/v4/projects'' [3, 8, 11, 20, 21 :: int]) empty_list_options
      (DefaultStreamOptions\<lparr>so_Pagination := DefaultPaginationOptions\<lparr>po_PerPage := 2\<rparr>\<rparr>))
    = ([3, 8, 11, 20, 21], None)"
  using StreamProjects_complete [of "''localhost/api/v4/projects''" id "[3, 8, 11, 20, 21]" 2]
  by (simp add: plain_host_path_def ids_ok_def)

text \<open>
  In keyset mode a page whose next link carries no positive \<^verbatim>\<open>id_after\<close> (a pure cursor
  link, for instance) ends the stream without an error: the items after that page are lost silently.
\<close>

theorem stream_stops_without_id_after:
  assumes "po_Mode opt = PaginationModeKeyset" and "fx_err (fetcher opt) = None"
    and "pg_NextIDAfter (ParsePageResponse query (fx_resp (fetcher opt))) \<le> 0"
  shows "CollectAll (stream_loop query (\<lambda>_. None) fetcher fb k opt) = (fx_items (fetcher opt), None)"
proof -
  have "send_items (\<lambda>_. None) j xs = (map SVal xs, None)" for j and xs :: "'a list"
    by (induction xs arbitrary: j) auto
  moreover have "next_options (ParsePageResponse query (fx_resp (fetcher opt))) opt = None"
    using assms by (simp add: next_options_def)
  ultimately show ?thesis
    using assms(2) by (subst stream_loop.simps) (simp add: CollectAll_vals)
qed

theorem stream_stops_without_id_after_witness:
  "CollectAll (stream_loop simple_query (\<lambda>_. None)
      (\<lambda>p. \<lparr>fx_items = [1 :: int, 2],
            fx_resp = Some \<lparr>hr_StatusCode = 200, hr_Header =
              (\<lambda>k. if k = ''Link'' then mock_link_header ''http://h/groups?cursor=abc'' else [])\<rparr>,
            fx_err = None\<rparr>) True 0 DefaultPaginationOptions) = ([1, 2], None)"
  by (subst stream_stops_without_id_after) (simp_all add: DefaultPaginationOptions_def, code_simp)

end
