(* ===== verification/Discovery.thy ===== *)
theory Discovery
  imports Project_Filter Pagination
begin

section \<open>Fleet discovery\<close>

text \<open>
  \<^verbatim>\<open>internal/discovery/discovery.go\<close>: the target fleet and its deterministic listings, the
  accumulator that deduplicates groups and projects, the coordinator with its two modes (groups
  first, or the whole instance) and \<^verbatim>\<open>DiscoverFleet\<close>. Wall-clock durations are left out. The
  goroutines of \<^verbatim>\<open>scanGroupProjects\<close> are interleaved by an explicit schedule: the accumulator is
  guarded by a mutex, so a run is a sequence of whole \<^verbatim>\<open>AddProjectIfMatches\<close> calls.
\<close>

definition ErrNilClient :: go_error where
  "ErrNilClient = Err ''gitlab client cannot be nil''"

record target_project =
  tp_ID :: int
  tp_Name :: string
  tp_Path :: string
  tp_PathWithNamespace :: string
  tp_DefaultBranch :: string
  tp_Visibility :: string
  tp_Archived :: bool
  tp_MarkedForDeletion :: bool
  tp_MarkedForDeletionAt :: "int option"
  tp_Topics :: "string list"
  tp_NamespaceFullPath :: string
  tp_ParentGroupID :: int
  tp_Raw :: "gl_project option"

record target_group =
  tg_ID :: int
  tg_Name :: string
  tg_Path :: string
  tg_FullPath :: string
  tg_ParentID :: int
  tg_Raw :: "gl_group option"

record target_fleet =
  tf_Projects :: "(int, target_project) go_map"
  tf_Groups :: "(int, target_group) go_map"
  tf_ScannedProjectsCount :: nat
  tf_ScannedGroupsCount :: nat
  tf_MatchedProjectsCount :: nat
  tf_MatchedGroupsCount :: nat

definition NewTargetFleet :: target_fleet where
  "NewTargetFleet =
     \<lparr>tf_Projects = [], tf_Groups = [], tf_ScannedProjectsCount = 0, tf_ScannedGroupsCount = 0,
      tf_MatchedProjectsCount = 0, tf_MatchedGroupsCount = 0\<rparr>"

definition IsEmpty :: "target_fleet \<Rightarrow> bool" where
  "IsEmpty f \<longleftrightarrow> length (tf_Projects f) = 0 \<and> length (tf_Groups f) = 0"

text \<open>The comparison functions order by path, then by ID.\<close>

definition ProjectList :: "target_fleet \<Rightarrow> target_project list" where
  "ProjectList f = sort_slice (\<lambda>p. (tp_PathWithNamespace p, tp_ID p)) (map snd (tf_Projects f))"

definition GroupList :: "target_fleet \<Rightarrow> target_group list" where
  "GroupList f = sort_slice (\<lambda>g. (tg_FullPath g, tg_ID g)) (map snd (tf_Groups f))"

definition ProjectIDs :: "target_fleet \<Rightarrow> int list" where
  "ProjectIDs f = sort (map fst (tf_Projects f))"

definition GroupIDs :: "target_fleet \<Rightarrow> int list" where
  "GroupIDs f = sort (map fst (tf_Groups f))"

subsection \<open>Accumulator\<close>

record fleet_accumulator =
  fa_projects :: "(int, target_project) go_map"
  fa_groups :: "(int, target_group) go_map"
  fa_scannedProjectsCount :: nat
  fa_scannedGroupsCount :: nat

definition newFleetAccumulator :: fleet_accumulator where
  "newFleetAccumulator =
     \<lparr>fa_projects = [], fa_groups = [], fa_scannedProjectsCount = 0, fa_scannedGroupsCount = 0\<rparr>"

definition insert_new :: "'k \<Rightarrow> 'v \<Rightarrow> ('k, 'v) go_map \<Rightarrow> ('k, 'v) go_map" where
  "insert_new k v m = (case go_get m k of Some _ \<Rightarrow> m | None \<Rightarrow> go_put k v m)"

definition AddDiscoveredGroup :: "discovered_group option \<Rightarrow> fleet_accumulator \<Rightarrow> fleet_accumulator" where
  "AddDiscoveredGroup g a =
     (case g of
        None \<Rightarrow> a
      | Some g \<Rightarrow>
          a\<lparr>fa_scannedGroupsCount := Suc (fa_scannedGroupsCount a),
            fa_groups := insert_new (dg_ID g)
              \<lparr>tg_ID = dg_ID g, tg_Name = dg_Name g, tg_Path = dg_Path g, tg_FullPath = dg_FullPath g,
               tg_ParentID = dg_ParentID g, tg_Raw = Some (dg_Raw g)\<rparr> (fa_groups a)\<rparr>)"

definition AddGroup :: "gl_group option \<Rightarrow> fleet_accumulator \<Rightarrow> fleet_accumulator" where
  "AddGroup g a =
     (case g of
        None \<Rightarrow> a
      | Some g \<Rightarrow>
          a\<lparr>fa_scannedGroupsCount := Suc (fa_scannedGroupsCount a),
            fa_groups := insert_new (g_ID g)
              \<lparr>tg_ID = g_ID g, tg_Name = g_Name g, tg_Path = g_Path g, tg_FullPath = g_FullPath g,
               tg_ParentID = g_ParentID g, tg_Raw = Some g\<rparr> (fa_groups a)\<rparr>)"

definition mk_target_project :: "gl_project \<Rightarrow> int \<Rightarrow> target_project" where
  "mk_target_project p parentGroupID =
     \<lparr>tp_ID = p_ID p, tp_Name = p_Name p, tp_Path = p_Path p, tp_PathWithNamespace = p_PathWithNamespace p,
      tp_DefaultBranch = p_DefaultBranch p, tp_Visibility = p_Visibility p, tp_Archived = p_Archived p,
      tp_MarkedForDeletion = (p_MarkedForDeletionAt p \<noteq> None),
      tp_MarkedForDeletionAt = p_MarkedForDeletionAt p, tp_Topics = extractProjectTopics p,
      tp_NamespaceFullPath = extractProjectNamespace p, tp_ParentGroupID = parentGroupID,
      tp_Raw = Some p\<rparr>"

definition AddProjectIfMatches ::
  "filter_env \<Rightarrow> gl_project option \<Rightarrow> project_filter option \<Rightarrow> int \<Rightarrow> fleet_accumulator
   \<Rightarrow> bool \<times> fleet_accumulator" where
  "AddProjectIfMatches env p flt parentGroupID a =
     (case p of
        None \<Rightarrow> (False, a)
      | Some proj \<Rightarrow>
          (let a1 = a\<lparr>fa_scannedProjectsCount := Suc (fa_scannedProjectsCount a)\<rparr> in
           if flt \<noteq> None \<and> \<not> Project_Matches env flt p then (False, a1)
           else (True, a1\<lparr>fa_projects := insert_new (p_ID proj) (mk_target_project proj parentGroupID) (fa_projects a1)\<rparr>)))"

definition ToFleet :: "fleet_accumulator \<Rightarrow> target_fleet" where
  "ToFleet a =
     (let fleet = NewTargetFleet
            \<lparr>tf_Projects := go_map_of_list fst snd (fa_projects a),
             tf_Groups := go_map_of_list fst snd (fa_groups a)\<rparr>
      in fleet\<lparr>tf_ScannedProjectsCount := fa_scannedProjectsCount a,
               tf_ScannedGroupsCount := fa_scannedGroupsCount a,
               tf_MatchedProjectsCount := length (tf_Projects fleet),
               tf_MatchedGroupsCount := length (tf_Groups fleet)\<rparr>)"

subsection \<open>Scanning the projects of the groups\<close>

text \<open>
  A goroutine is its group and the items its channel still holds. \<open>sc_live\<close> lists the goroutines
  that have not finished, in launch order; the semaphore admits the first \<open>concurrency\<close> of them.
  One step of the schedule lets the \<open>i\<close>-th admitted goroutine consume an item: an error is put
  into the error channel (whose capacity is the number of goroutines, and each sends at most
  one, so the send never blocks) and ends the goroutine.
\<close>

record scan_state =
  sc_acc :: fleet_accumulator
  sc_live :: "(discovered_group \<times> gl_project option stream_item list) list"
  sc_errs :: "go_error list"

definition scan_error :: "discovered_group \<Rightarrow> go_error \<Rightarrow> go_error" where
  "scan_error g e =
     Wrapf (''failed to stream projects for group '' @ fmt_d (dg_ID g) @ '' ('' @ dg_FullPath g @ '')'') e"

definition scan_step ::
  "filter_env \<Rightarrow> project_filter option \<Rightarrow> nat \<Rightarrow> nat \<Rightarrow> scan_state \<Rightarrow> scan_state" where
  "scan_step env flt concurrency i st =
     (if length (sc_live st) \<le> i \<or> concurrency \<le> i then st
      else case sc_live st ! i of (g, items) \<Rightarrow>
        (case items of
           [] \<Rightarrow> st\<lparr>sc_live := take i (sc_live st) @ drop (Suc i) (sc_live st)\<rparr>
         | SErr e # _ \<Rightarrow>
             st\<lparr>sc_live := take i (sc_live st) @ drop (Suc i) (sc_live st), sc_errs := sc_errs st @ [scan_error g e]\<rparr>
         | SVal p # rest \<Rightarrow>
             st\<lparr>sc_live := (sc_live st)[i := (g, rest)],
                sc_acc := snd (AddProjectIfMatches env p flt (dg_ID g) (sc_acc st))\<rparr>))"

text \<open>\<^verbatim>\<open>wg.Wait()\<close>: whatever the schedule left unfinished runs to its end.\<close>

definition scan_work :: "scan_state \<Rightarrow> nat" where
  "scan_work st = sum_list (map (\<lambda>(g, items). Suc (length items)) (sc_live st))"

lemma scan_step_zero_decreases:
  "sc_live st \<noteq> [] \<Longrightarrow> 0 < c \<Longrightarrow> scan_work (scan_step env f c 0 st) < scan_work st"
  by (cases "sc_live st") (auto simp: scan_step_def scan_work_def split: list.splits stream_item.splits)

function scan_drain :: "filter_env \<Rightarrow> project_filter option \<Rightarrow> nat \<Rightarrow> scan_state \<Rightarrow> scan_state" where
  "scan_drain env flt concurrency st =
     (if sc_live st = [] \<or> concurrency = 0 then st
      else scan_drain env flt concurrency (scan_step env flt concurrency 0 st))"
  by pat_completeness auto
termination
  by (relation "measure (\<lambda>(env, f, c, st). scan_work st)") (auto intro: scan_step_zero_decreases)

declare scan_drain.simps [simp del]

definition scan_run ::
  "filter_env \<Rightarrow> project_filter option \<Rightarrow> nat \<Rightarrow> nat list \<Rightarrow> scan_state \<Rightarrow> scan_state" where
  "scan_run env flt concurrency sched st =
     scan_drain env flt concurrency (foldl (\<lambda>s i. scan_step env flt concurrency i s) st sched)"

text \<open>
  The launching loop polls the context before each goroutine (\<open>ctx k\<close> is its error at the
  \<open>k\<close>-th launch); when it is done, the function returns and the accumulator is dropped.
\<close>

definition launch_error :: "ctx \<Rightarrow> nat \<Rightarrow> go_error option" where
  "launch_error ctx n = (case find (\<lambda>k. ctx k \<noteq> None) [0..<n] of None \<Rightarrow> None | Some k \<Rightarrow> ctx k)"

definition scanGroupProjects ::
  "filter_env \<Rightarrow> ctx \<Rightarrow> nat \<Rightarrow> nat list \<Rightarrow> (discovered_group \<Rightarrow> gl_project option stream_item list)
   \<Rightarrow> discovered_group list \<Rightarrow> project_filter option \<Rightarrow> fleet_accumulator \<Rightarrow> fleet_accumulator go_result" where
  "scanGroupProjects env ctx concurrency sched streamOf groups flt acc =
     (case launch_error ctx (length groups) of
        Some e \<Rightarrow> Inl e
      | None \<Rightarrow>
          (let st = scan_run env flt concurrency sched
                      \<lparr>sc_acc = acc, sc_live = map (\<lambda>g. (g, streamOf g)) groups, sc_errs = []\<rparr>
           in case sc_errs st of e # _ \<Rightarrow> Inl e | [] \<Rightarrow> Inr (sc_acc st)))"

fun scanInstanceProjects ::
  "filter_env \<Rightarrow> ctx \<Rightarrow> gl_project option stream_item list \<Rightarrow> project_filter option \<Rightarrow> fleet_accumulator
   \<Rightarrow> fleet_accumulator go_result" where
  "scanInstanceProjects env ctx [] flt acc = Inr acc"
| "scanInstanceProjects env ctx (item # items) flt acc =
     (case ctx 0 of
        Some e \<Rightarrow> Inl e
      | None \<Rightarrow>
          (case item of
             SErr e \<Rightarrow> Inl (Wrapf ''failed to stream instance projects'' e)
           | SVal p \<Rightarrow>
               scanInstanceProjects env (\<lambda>n. ctx (Suc n)) items flt
                 (snd (AddProjectIfMatches env p flt 0 acc))))"

subsection \<open>Coordinator\<close>

text \<open>
  The client: the group calls of the traverser, and the two project listings (the group listing
  is called with \<^verbatim>\<open>include_subgroups=false\<close>). \<open>rt_ctx\<close> gives each goroutine and stream its own
  view of the context, \<open>rt_sched\<close> is the schedule and \<open>rt_query\<close> parses URLs.
\<close>

record discovery_client =
  dcl_Groups :: group_api
  dcl_ListGroupProjects :: "int \<Rightarrow> list_options \<Rightarrow> gl_project option fetch_result"
  dcl_ListProjects :: "list_options \<Rightarrow> gl_project option fetch_result"

record discovery_runtime =
  rt_env :: filter_env
  rt_query :: url_query
  rt_sched :: "nat list"
  rt_traverse_ctx :: ctx
  rt_scan_ctx :: ctx
  rt_stream_ctx :: "int \<Rightarrow> ctx"

type_synonym group_traverser = "ctx \<Rightarrow> group_selector option \<Rightarrow> discovered_group list go_result option"

record discovery_coordinator =
  dc_client :: discovery_client
  dc_targets :: target_selectors
  dc_concurrency :: int
  dc_streamOpts :: stream_options
  dc_groupTraverser :: group_traverser

datatype discovery_option =
  WithConcurrency int
| WithStreamOptions stream_options
| WithGroupTraverser group_traverser

primrec apply_option :: "discovery_option \<Rightarrow> discovery_coordinator \<Rightarrow> discovery_coordinator" where
  "apply_option (WithConcurrency c) dc = (if c > 0 then dc\<lparr>dc_concurrency := c\<rparr> else dc)"
| "apply_option (WithStreamOptions opts) dc = dc\<lparr>dc_streamOpts := opts\<rparr>"
| "apply_option (WithGroupTraverser gt) dc = dc\<lparr>dc_groupTraverser := gt\<rparr>"

definition group_stream ::
  "discovery_runtime \<Rightarrow> discovery_coordinator \<Rightarrow> discovered_group \<Rightarrow> gl_project option stream_item list" where
  "group_stream rt dc g =
     StreamGroupProjects (rt_query rt) (rt_stream_ctx rt (dg_ID g)) (dcl_ListGroupProjects (dc_client dc))
       (dg_ID g) empty_list_options (dc_streamOpts dc)"

definition instance_stream :: "discovery_runtime \<Rightarrow> discovery_coordinator \<Rightarrow> gl_project option stream_item list" where
  "instance_stream rt dc =
     StreamProjects (rt_query rt) (rt_stream_ctx rt 0) (dcl_ListProjects (dc_client dc))
       empty_list_options (dc_streamOpts dc)"

definition scan_groups_and_build ::
  "discovery_runtime \<Rightarrow> discovery_coordinator \<Rightarrow> project_filter \<Rightarrow> discovered_group list \<Rightarrow> target_fleet go_result" where
  "scan_groups_and_build rt dc pf groups =
     (let acc = foldl (\<lambda>a g. AddDiscoveredGroup (Some g) a) newFleetAccumulator groups in
      if groups = [] then Inr (ToFleet acc)
      else case scanGroupProjects (rt_env rt) (rt_scan_ctx rt) (nat (dc_concurrency dc)) (rt_sched rt)
                  (group_stream rt dc) groups (Some pf) acc of
             Inl e \<Rightarrow> Inl e
           | Inr acc' \<Rightarrow> Inr (ToFleet acc'))"

definition discovery_Execute ::
  "discovery_runtime \<Rightarrow> discovery_coordinator \<Rightarrow> target_fleet go_result option" where
  "discovery_Execute rt dc =
     (case NewProjectFilter (rt_env rt) (ts_ProjectSelector (dc_targets dc)) of
        Inl e \<Rightarrow> Some (Inl (Wrapf ''failed to initialize project filter'' e))
      | Inr pf \<Rightarrow>
          (case ts_GroupSelector (dc_targets dc) of
             Some sel \<Rightarrow>
               (case dc_groupTraverser dc (rt_traverse_ctx rt) (Some sel) of
                  None \<Rightarrow> None
                | Some (Inl e) \<Rightarrow> Some (Inl (Wrapf ''group discovery failed'' e))
                | Some (Inr groups) \<Rightarrow> Some (scan_groups_and_build rt dc pf groups))
           | None \<Rightarrow>
               (case scanInstanceProjects (rt_env rt) (rt_scan_ctx rt) (instance_stream rt dc) (Some pf) newFleetAccumulator of
                  Inl e \<Rightarrow> Some (Inl e)
                | Inr acc \<Rightarrow> Some (Inr (ToFleet acc)))))"

definition DiscoverFleet ::
  "discovery_runtime \<Rightarrow> discovery_client option \<Rightarrow> target_selectors \<Rightarrow> discovery_option list
   \<Rightarrow> target_fleet go_result option" where
  "DiscoverFleet rt client targets opts =
     (case client of
        None \<Rightarrow> Some (Inl ErrNilClient)
      | Some cl \<Rightarrow>
          discovery_Execute rt
            (foldl (\<lambda>dc opt. apply_option opt dc)
               \<lparr>dc_client = cl, dc_targets = targets, dc_concurrency = 10, dc_streamOpts = DefaultStreamOptions,
                dc_groupTraverser = (\<lambda>ctx sel. Traverse ctx (dcl_Groups cl) default_maxDepth sel)\<rparr>
               opts))"

subsection \<open>Accumulator lemmas\<close>

text \<open>What one goroutine feeds to the accumulator: the values before the first error.\<close>

fun stream_values :: "'a stream_item list \<Rightarrow> 'a list" where
  "stream_values (SVal x # xs) = x # stream_values xs"
| "stream_values _ = []"

fun stream_failed :: "'a stream_item list \<Rightarrow> bool" where
  "stream_failed [] = False"
| "stream_failed (SErr e # xs) = True"
| "stream_failed (SVal x # xs) = stream_failed xs"

definition add_all ::
  "filter_env \<Rightarrow> project_filter option \<Rightarrow> (gl_project option \<times> int) list \<Rightarrow> fleet_accumulator \<Rightarrow> fleet_accumulator" where
  "add_all env flt lg acc = foldl (\<lambda>a (p, gid). snd (AddProjectIfMatches env p flt gid a)) acc lg"

definition matched :: "filter_env \<Rightarrow> project_filter option \<Rightarrow> (gl_project option \<times> int) set \<Rightarrow> (gl_project \<times> int) set" where
  "matched env flt S = {(p, gid). (Some p, gid) \<in> S \<and> Project_Matches env flt (Some p)}"

lemma Project_Matches_None [simp]: "Project_Matches env None (Some p)"
  by (simp add: Project_Matches_def Evaluate_def)

lemma go_map_ok_insert_new [simp]: "go_map_ok m \<Longrightarrow> go_map_ok (insert_new k v m)"
  by (simp add: insert_new_def split: option.splits)

lemma go_get_insert_new:
  "go_get (insert_new k v m) k' = (if k' = k \<and> go_get m k = None then Some v else go_get m k')"
  by (auto simp: insert_new_def split: option.splits)

lemma AddProject_get:
  "go_get (fa_projects (snd (AddProjectIfMatches env p flt gid a))) k =
     (case p of
        Some q \<Rightarrow> if p_ID q = k \<and> Project_Matches env flt p \<and> go_get (fa_projects a) k = None
                 then Some (mk_target_project q gid) else go_get (fa_projects a) k
      | None \<Rightarrow> go_get (fa_projects a) k)"
  by (auto simp: AddProjectIfMatches_def go_get_insert_new Let_def split: option.splits)

lemma AddProject_ok [simp]:
  "go_map_ok (fa_projects a) \<Longrightarrow> go_map_ok (fa_projects (snd (AddProjectIfMatches env p flt gid a)))"
  by (simp add: AddProjectIfMatches_def Let_def split: option.splits)

lemma AddProject_frame [simp]:
  "fa_groups (snd (AddProjectIfMatches env p flt gid a)) = fa_groups a"
  "fa_scannedGroupsCount (snd (AddProjectIfMatches env p flt gid a)) = fa_scannedGroupsCount a"
  "fa_scannedProjectsCount (snd (AddProjectIfMatches env p flt gid a)) =
     fa_scannedProjectsCount a + (if p = None then 0 else 1)"
  by (simp_all add: AddProjectIfMatches_def Let_def split: option.splits)

lemma add_all_simps [simp]:
  "add_all env flt [] acc = acc"
  "add_all env flt ((p, gid) # lg) acc = add_all env flt lg (snd (AddProjectIfMatches env p flt gid acc))"
  "add_all env flt (xs @ ys) acc = add_all env flt ys (add_all env flt xs acc)"
  by (simp_all add: add_all_def)

lemma add_all_frame:
  "fa_groups (add_all env flt lg acc) = fa_groups acc
   \<and> fa_scannedGroupsCount (add_all env flt lg acc) = fa_scannedGroupsCount acc
   \<and> fa_scannedProjectsCount (add_all env flt lg acc) =
       fa_scannedProjectsCount acc + size (filter_mset (\<lambda>(p, gid). p \<noteq> None) (mset lg))
   \<and> (go_map_ok (fa_projects acc) \<longrightarrow> go_map_ok (fa_projects (add_all env flt lg acc)))"
  by (induction lg arbitrary: acc) auto

text \<open>An entry of the result is an earlier one or comes from a matched item of the log.\<close>

lemma add_all_dom:
  "dom (map_of (fa_projects (add_all env flt lg acc))) =
     dom (map_of (fa_projects acc)) \<union> (\<lambda>(p, gid). p_ID p) ` matched env flt (set lg)"
proof (induction lg arbitrary: acc)
  case (Cons x lg)
  obtain p gid where x: "x = (p, gid)" by (cases x)
  have "dom (map_of (fa_projects (snd (AddProjectIfMatches env p flt gid acc)))) =
      dom (map_of (fa_projects acc)) \<union> (\<lambda>(p, gid). p_ID p) ` matched env flt {x}"
    by (cases p) (auto simp: x dom_def AddProject_get matched_def split: if_splits)
  moreover have "matched env flt (set (x # lg)) = matched env flt {x} \<union> matched env flt (set lg)"
    by (auto simp: matched_def)
  ultimately show ?case using Cons by (simp add: x image_Un Un_assoc)
qed (simp add: matched_def)

lemma add_all_get:
  "go_get (fa_projects (add_all env flt lg acc)) k = Some tp \<Longrightarrow>
     go_get (fa_projects acc) k = Some tp
     \<or> (\<exists>(p, gid) \<in> matched env flt (set lg). p_ID p = k \<and> tp = mk_target_project p gid)"
proof (induction lg arbitrary: acc)
  case (Cons x lg)
  obtain p gid where x: "x = (p, gid)" by (cases x)
  from Cons.prems have "go_get (fa_projects (add_all env flt lg (snd (AddProjectIfMatches env p flt gid acc)))) k = Some tp"
    by (simp add: x)
  from Cons.IH [OF this] show ?case
    by (auto simp: AddProject_get matched_def x split: option.splits if_splits)
qed simp

subsection \<open>Every schedule feeds the same multiset of items\<close>

definition live_values ::
  "(discovered_group \<times> gl_project option stream_item list) list \<Rightarrow> (gl_project option \<times> int) multiset" where
  "live_values live = (\<Sum>(g, items) \<leftarrow> live. mset (map (\<lambda>p. (p, dg_ID g)) (stream_values items)))"

definition live_failed :: "(discovered_group \<times> gl_project option stream_item list) list \<Rightarrow> bool" where
  "live_failed live \<longleftrightarrow> (\<exists>(g, items) \<in> set live. stream_failed items)"

definition scan_rel ::
  "filter_env \<Rightarrow> project_filter option \<Rightarrow> scan_state \<Rightarrow> scan_state \<Rightarrow> bool" where
  "scan_rel env flt st st' \<longleftrightarrow>
     (\<exists>lg. sc_acc st' = add_all env flt lg (sc_acc st)
        \<and> mset lg + live_values (sc_live st') = live_values (sc_live st))
     \<and> (sc_errs st' \<noteq> [] \<or> live_failed (sc_live st') \<longleftrightarrow> sc_errs st \<noteq> [] \<or> live_failed (sc_live st))"

lemma scan_rel_refl [simp]: "scan_rel env flt st st"
  unfolding scan_rel_def by (intro conjI exI [of _ "[]"]) simp_all

lemma scan_rel_trans [trans]: "scan_rel env flt a b \<Longrightarrow> scan_rel env flt b c \<Longrightarrow> scan_rel env flt a c"
  unfolding scan_rel_def
proof (elim conjE exE, intro conjI)
  fix l1 l2
  assume "sc_acc b = add_all env flt l1 (sc_acc a)" "sc_acc c = add_all env flt l2 (sc_acc b)"
    "mset l1 + live_values (sc_live b) = live_values (sc_live a)"
    "mset l2 + live_values (sc_live c) = live_values (sc_live b)"
  then show "\<exists>lg. sc_acc c = add_all env flt lg (sc_acc a) \<and> mset lg + live_values (sc_live c) = live_values (sc_live a)"
    by (intro exI [of _ "l1 @ l2"]) (simp add: add.assoc)
qed blast

lemma scan_step_rel: "scan_rel env flt st (scan_step env flt c i st)"
proof (cases "length (sc_live st) \<le> i \<or> c \<le> i")
  case False
  then have i: "i < length (sc_live st)" by simp
  obtain g items where gi: "sc_live st ! i = (g, items)" by (cases "sc_live st ! i")
  define pre post where "pre = take i (sc_live st)" and "post = drop (Suc i) (sc_live st)"
  have live: "sc_live st = pre @ (g, items) # post"
    using id_take_nth_drop [OF i] by (simp add: gi pre_def post_def)
  have upd: "(sc_live st)[i := y] = pre @ y # post" for y
    using upd_conv_take_nth_drop [OF i] by (simp add: pre_def post_def)
  have [simp]: "take i (sc_live st) = pre" "drop (Suc i) (sc_live st) = post" by (simp_all add: pre_def post_def)
  note step = scan_step_def [of env flt c i st] False gi upd
  show ?thesis
  proof (cases items)
    case Nil
    with False show ?thesis
      unfolding scan_rel_def
      by (intro conjI exI [of _ "[]"]) (simp_all add: step, auto simp: live live_values_def live_failed_def)
  next
    case (Cons it rest)
    show ?thesis
    proof (cases it)
      case (SErr e)
      with Cons False show ?thesis
        unfolding scan_rel_def
        by (intro conjI exI [of _ "[]"]) (simp_all add: step, auto simp: live live_values_def live_failed_def)
    next
      case (SVal p)
      with Cons False show ?thesis
        unfolding scan_rel_def
        by (intro conjI exI [of _ "[(p, dg_ID g)]"]) (simp_all add: step, auto simp: live live_values_def live_failed_def)
    qed
  qed
qed (auto simp: scan_step_def)

lemma scan_drain_rel: "scan_rel env flt st (scan_drain env flt c st)"
  by (induction env flt c st rule: scan_drain.induct)
     (subst scan_drain.simps, auto intro: scan_rel_trans scan_step_rel)

lemma scan_drain_done: "0 < c \<Longrightarrow> sc_live (scan_drain env flt c st) = []"
  by (induction env flt c st rule: scan_drain.induct) (subst scan_drain.simps, auto)

lemma scan_run_rel: "scan_rel env flt st (scan_run env flt c sched st)"
proof -
  have "scan_rel env flt st (foldl (\<lambda>s i. scan_step env flt c i s) st sched)"
    by (induction sched rule: rev_induct) (auto intro: scan_rel_trans scan_step_rel)
  then show ?thesis unfolding scan_run_def by (rule scan_rel_trans) (rule scan_drain_rel)
qed

text \<open>
  The outcome of a group scan under any schedule: it fails exactly when the launch was cancelled
  or some stream failed; otherwise it has fed every item of every stream, in some order.
\<close>

lemma scanGroupProjects_cases:
  assumes "0 < c" and "S = (\<Sum>g \<leftarrow> groups. mset (map (\<lambda>p. (p, dg_ID g)) (stream_values (streamOf g))))"
  shows "if launch_error ctx (length groups) \<noteq> None \<or> (\<exists>g \<in> set groups. stream_failed (streamOf g))
    then \<exists>e. scanGroupProjects env ctx c sched streamOf groups flt acc = Inl e
    else \<exists>lg. mset lg = S
      \<and> scanGroupProjects env ctx c sched streamOf groups flt acc = Inr (add_all env flt lg acc)"
proof -
  let ?st = "\<lparr>sc_acc = acc, sc_live = map (\<lambda>g. (g, streamOf g)) groups, sc_errs = []\<rparr>"
  let ?st' = "scan_run env flt c sched ?st"
  have finished: "sc_live ?st' = []" using assms(1) by (simp add: scan_run_def scan_drain_done)
  then obtain lg where lg: "sc_acc ?st' = add_all env flt lg acc"
    "mset lg = live_values (sc_live ?st)"
    and errs: "sc_errs ?st' \<noteq> [] \<longleftrightarrow> live_failed (sc_live ?st)"
    using scan_run_rel [of env flt ?st c sched] by (auto simp: scan_rel_def live_values_def live_failed_def)
  have "live_values (sc_live ?st) = S" by (simp add: live_values_def assms(2) comp_def)
  moreover have "live_failed (sc_live ?st) \<longleftrightarrow> (\<exists>g \<in> set groups. stream_failed (streamOf g))"
    by (auto simp: live_failed_def)
  ultimately show ?thesis
    using lg errs
    by (auto simp: scanGroupProjects_def Let_def neq_Nil_conv split: option.splits list.splits)
qed

subsection \<open>Fleet invariant\<close>

definition fleet_ok :: "target_fleet \<Rightarrow> bool" where
  "fleet_ok f \<longleftrightarrow> go_map_ok (tf_Projects f) \<and> go_map_ok (tf_Groups f)
     \<and> (\<forall>(k, p) \<in> set (tf_Projects f). tp_ID p = k) \<and> (\<forall>(k, g) \<in> set (tf_Groups f). tg_ID g = k)
     \<and> tf_MatchedProjectsCount f = length (tf_Projects f) \<and> tf_MatchedGroupsCount f = length (tf_Groups f)
     \<and> tf_MatchedProjectsCount f \<le> tf_ScannedProjectsCount f \<and> tf_MatchedGroupsCount f \<le> tf_ScannedGroupsCount f"

definition entries_ok :: "('v \<Rightarrow> 'k) \<Rightarrow> ('k, 'v) go_map \<Rightarrow> nat \<Rightarrow> bool" where
  "entries_ok idf m n \<longleftrightarrow> go_map_ok m \<and> (\<forall>(k, v) \<in> set m. idf v = k) \<and> length m \<le> n"

definition acc_ok :: "fleet_accumulator \<Rightarrow> bool" where
  "acc_ok a \<longleftrightarrow> entries_ok tp_ID (fa_projects a) (fa_scannedProjectsCount a)
     \<and> entries_ok tg_ID (fa_groups a) (fa_scannedGroupsCount a)"

lemma keyed_inj:
  assumes "go_map_ok m" and "\<forall>(k, v) \<in> set m. idf v = k"
  shows "inj_on idf (snd ` set m)"
proof (rule inj_onI)
  fix v w assume "v \<in> snd ` set m" and "w \<in> snd ` set m" and "idf v = idf w"
  then have "(idf v, v) \<in> set m" and "(idf v, w) \<in> set m" using assms(2) by auto
  then show "v = w" using assms(1) by (auto simp: go_map_ok_def dest: eq_key_imp_eq_value)
qed

lemma entries_ok_mono: "entries_ok idf m n \<Longrightarrow> n \<le> n' \<Longrightarrow> entries_ok idf m n'"
  by (auto simp: entries_ok_def)

lemma insert_new_cases: "insert_new k v m = m \<or> (go_get m k = None \<and> insert_new k v m = m @ [(k, v)])"
proof -
  have "k \<notin> fst ` set m \<Longrightarrow> AList.update k v m = m @ [(k, v)]" by (induction m) auto
  then show ?thesis by (auto simp: insert_new_def go_put_def map_of_eq_None_iff split: option.splits)
qed

lemma acc_ok_new [simp]: "acc_ok newFleetAccumulator"
  by (simp add: acc_ok_def entries_ok_def newFleetAccumulator_def)

lemma insert_new_ok: "entries_ok idf m n \<Longrightarrow> idf v = k \<Longrightarrow> entries_ok idf (insert_new k v m) (Suc n)"
  unfolding entries_ok_def
  using insert_new_cases [of k v m] go_map_ok_insert_new [of m k v] by auto

lemma acc_ok_AddDiscoveredGroup [simp]: "acc_ok a \<Longrightarrow> acc_ok (AddDiscoveredGroup g a)"
  by (cases g) (simp_all add: acc_ok_def AddDiscoveredGroup_def insert_new_ok)

lemma acc_ok_AddGroup [simp]: "acc_ok a \<Longrightarrow> acc_ok (AddGroup g a)"
  by (cases g) (simp_all add: acc_ok_def AddGroup_def insert_new_ok)

lemma acc_ok_AddProject [simp]: "acc_ok a \<Longrightarrow> acc_ok (snd (AddProjectIfMatches env p flt gid a))"
  by (cases p) (auto simp: acc_ok_def AddProjectIfMatches_def Let_def mk_target_project_def insert_new_ok
      elim: entries_ok_mono)

lemma acc_ok_add_all [simp]: "acc_ok a \<Longrightarrow> acc_ok (add_all env flt lg a)"
  by (induction lg arbitrary: a) auto

lemma go_map_of_list_id: "go_map_ok m \<Longrightarrow> go_map_of_list fst snd m = m"
proof (induction m rule: rev_induct)
  case (snoc x m)
  have upd: "fst x \<notin> fst ` set m \<Longrightarrow> AList.update (fst x) (snd x) m = m @ [x]" by (induction m) auto
  from snoc show ?case by (simp add: go_map_of_list_def go_map_ok_def go_put_def upd)
qed (simp add: go_map_of_list_def)

lemma fleet_ok_ToFleet: "acc_ok a \<Longrightarrow> fleet_ok (ToFleet a)"
  by (auto simp: acc_ok_def entries_ok_def fleet_ok_def ToFleet_def Let_def NewTargetFleet_def go_map_of_list_id)

lemma ToFleet_projects: "acc_ok a \<Longrightarrow> tf_Projects (ToFleet a) = fa_projects a \<and> tf_Groups (ToFleet a) = fa_groups a"
  by (simp add: acc_ok_def entries_ok_def ToFleet_def Let_def NewTargetFleet_def go_map_of_list_id)

lemma acc_ok_groups: "acc_ok a \<Longrightarrow> acc_ok (foldl (\<lambda>a g. AddDiscoveredGroup (Some g) a) a groups)"
  by (induction groups arbitrary: a) auto

lemma scanInstanceProjects_log:
  "scanInstanceProjects env ctx items flt acc = Inr acc' \<Longrightarrow>
     \<not> stream_failed items \<and> acc' = add_all env flt (map (\<lambda>p. (p, 0)) (stream_values items)) acc"
  by (induction items arbitrary: ctx acc) (auto split: option.splits stream_item.splits)

lemma scan_groups_and_build_Inr:
  assumes "scan_groups_and_build rt dc pf groups = Inr fleet" and "0 < dc_concurrency dc"
  shows "\<exists>lg. mset lg = (\<Sum>g \<leftarrow> groups. mset (map (\<lambda>p. (p, dg_ID g)) (stream_values (group_stream rt dc g))))
    \<and> fleet = ToFleet (add_all (rt_env rt) (Some pf) lg
        (foldl (\<lambda>a g. AddDiscoveredGroup (Some g) a) newFleetAccumulator groups))"
proof (cases "groups = []")
  case True
  with assms(1) show ?thesis by (intro exI [of _ "[]"]) (simp add: scan_groups_and_build_def)
next
  case False
  then show ?thesis
    using assms scanGroupProjects_cases [OF _ refl, of "nat (dc_concurrency dc)" "rt_scan_ctx rt" groups "group_stream rt dc"
        "rt_env rt" "rt_sched rt" "Some pf" "foldl (\<lambda>a g. AddDiscoveredGroup (Some g) a) newFleetAccumulator groups"]
    by (auto simp: scan_groups_and_build_def Let_def split: if_splits sum.splits)
qed

lemma scan_groups_fails:
  "0 < dc_concurrency dc \<Longrightarrow> (\<exists>e. scan_groups_and_build rt dc pf groups = Inl e) \<longleftrightarrow>
     groups \<noteq> [] \<and> (launch_error (rt_scan_ctx rt) (length groups) \<noteq> None \<or> (\<exists>g \<in> set groups. stream_failed (group_stream rt dc g)))"
  using scanGroupProjects_cases [OF _ refl, of "nat (dc_concurrency dc)" "rt_scan_ctx rt" groups "group_stream rt dc"
      "rt_env rt" "rt_sched rt" "Some pf" "foldl (\<lambda>a g. AddDiscoveredGroup (Some g) a) newFleetAccumulator groups"]
  by (auto simp: scan_groups_and_build_def Let_def split: if_splits sum.splits)

lemma apply_options_concurrency:
  "0 < dc_concurrency dc \<Longrightarrow> 0 < dc_concurrency (foldl (\<lambda>dc opt. apply_option opt dc) dc opts)"
proof (induction opts arbitrary: dc)
  case (Cons opt opts)
  then show ?case by (cases opt) auto
qed simp

lemma discovery_Execute_ok:
  assumes "discovery_Execute rt dc = Some (Inr fleet)" and "0 < dc_concurrency dc"
  shows "fleet_ok fleet"
proof (cases "ts_GroupSelector (dc_targets dc)")
  case None
  with assms(1) show ?thesis
    by (auto simp: discovery_Execute_def intro!: fleet_ok_ToFleet split: sum.splits dest!: scanInstanceProjects_log)
next
  case (Some sel)
  with assms(1) obtain pf groups where "scan_groups_and_build rt dc pf groups = Inr fleet"
    by (auto simp: discovery_Execute_def split: sum.splits option.splits)
  from scan_groups_and_build_Inr [OF this assms(2)] show ?thesis
    by (auto intro!: fleet_ok_ToFleet acc_ok_add_all acc_ok_groups)
qed

subsection \<open>Properties\<close>

text \<open>
  Property C24. Every fleet \<^verbatim>\<open>DiscoverFleet\<close> returns is well formed, with any options and under any
  interleaving: projects and groups are stored once, under their own ID; the matched counters are
  the sizes of the maps and never exceed the scanned counters; and the listings used to dispatch
  work do not depend on the iteration order of the maps.
\<close>

theorem DiscoverFleet_fleet_ok:
  assumes "DiscoverFleet rt client targets opts = Some (Inr fleet)"
    and "mset ps = mset (tf_Projects fleet)" and "mset gs = mset (tf_Groups fleet)"
  shows "fleet_ok fleet
    \<and> ProjectList (fleet\<lparr>tf_Projects := ps\<rparr>) = ProjectList fleet
    \<and> GroupList (fleet\<lparr>tf_Groups := gs\<rparr>) = GroupList fleet"
proof -
  from assms(1) obtain dc where "discovery_Execute rt dc = Some (Inr fleet)" and "0 < dc_concurrency dc"
    using apply_options_concurrency by (auto simp: DiscoverFleet_def split: option.splits)
  then have ok: "fleet_ok fleet" by (rule discovery_Execute_ok)
  have "inj_on (\<lambda>p. (tp_PathWithNamespace p, tp_ID p)) (set (map snd ps))"
    using ok mset_eq_setD [OF assms(2)] keyed_inj [of "tf_Projects fleet" tp_ID] by (auto simp: inj_on_def fleet_ok_def)
  moreover have "inj_on (\<lambda>g. (tg_FullPath g, tg_ID g)) (set (map snd gs))"
    using ok mset_eq_setD [OF assms(3)] keyed_inj [of "tf_Groups fleet" tg_ID] by (auto simp: inj_on_def fleet_ok_def)
  ultimately show ?thesis
    using ok assms(2,3) by (auto simp: ProjectList_def GroupList_def intro!: sort_slice_cong_mset)
qed

text \<open>
  Property C3. A successful group scan returns exactly the selected projects, whatever the
  interleaving of its goroutines: a project ID is in the fleet if and only if some targeted
  group's listing holds a matching project with that ID, and the entry stored for it is built
  from such a listing.
\<close>

theorem scan_groups_exact:
  assumes "scan_groups_and_build rt dc pf groups = Inr fleet" and "0 < dc_concurrency dc"
  shows "set (ProjectIDs fleet) =
      {p_ID p | p g. g \<in> set groups \<and> Some p \<in> set (stream_values (group_stream rt dc g))
        \<and> Project_Matches (rt_env rt) (Some pf) (Some p)}
    \<and> (\<forall>tp \<in> set (ProjectList fleet). \<exists>p g. g \<in> set groups
        \<and> Some p \<in> set (stream_values (group_stream rt dc g))
        \<and> Project_Matches (rt_env rt) (Some pf) (Some p) \<and> tp = mk_target_project p (dg_ID g))"
proof -
  let ?acc = "foldl (\<lambda>a g. AddDiscoveredGroup (Some g) a) newFleetAccumulator groups"
  obtain lg where lg: "mset lg = (\<Sum>g \<leftarrow> groups. mset (map (\<lambda>p. (p, dg_ID g)) (stream_values (group_stream rt dc g))))"
    and fleet: "fleet = ToFleet (add_all (rt_env rt) (Some pf) lg ?acc)"
    using scan_groups_and_build_Inr [OF assms] by blast
  have "set lg = set_mset (mset lg)" by simp
  also have "\<dots> = {(p, dg_ID g) | p g. g \<in> set groups \<and> p \<in> set (stream_values (group_stream rt dc g))}"
    unfolding lg by (induction groups) auto
  finally have set: "matched (rt_env rt) (Some pf) (set lg) =
      {(p, dg_ID g) | p g. g \<in> set groups \<and> Some p \<in> set (stream_values (group_stream rt dc g))
        \<and> Project_Matches (rt_env rt) (Some pf) (Some p)}"
    by (auto simp: matched_def)
  have empty: "fa_projects ?acc = []"
  proof -
    have "fa_projects (foldl (\<lambda>a g. AddDiscoveredGroup (Some g) a) a gs) = fa_projects a" for a gs
      by (induction gs arbitrary: a) (auto simp: AddDiscoveredGroup_def)
    then show ?thesis by (simp add: newFleetAccumulator_def)
  qed
  have ok: "acc_ok (add_all (rt_env rt) (Some pf) lg ?acc)" by (simp add: acc_ok_groups)
  note projects = ToFleet_projects [OF ok, THEN conjunct1]
  have "set (ProjectIDs fleet) = dom (map_of (fa_projects (add_all (rt_env rt) (Some pf) lg ?acc)))"
    by (simp add: ProjectIDs_def fleet projects dom_map_of_conv_image_fst)
  moreover have "\<exists>(p, gid) \<in> matched (rt_env rt) (Some pf) (set lg). tp = mk_target_project p gid"
    if "tp \<in> set (ProjectList fleet)" for tp
  proof -
    from that obtain k where "(k, tp) \<in> set (fa_projects (add_all (rt_env rt) (Some pf) lg ?acc))"
      by (auto simp: ProjectList_def fleet projects)
    then have "go_get (fa_projects (add_all (rt_env rt) (Some pf) lg ?acc)) k = Some tp"
      using ok by (simp add: acc_ok_def entries_ok_def go_map_ok_def)
    from add_all_get [OF this] show ?thesis by (auto simp: empty)
  qed
  ultimately show ?thesis unfolding add_all_dom set empty by (force simp: image_def)
qed

text \<open>
  The first goroutine that adds a project wins. When all matched occurrences of a project ID lead to
  the same entry, the winner does not matter.
\<close>

lemma add_all_same_entries:
  assumes lg: "mset lg = mset lg'" and empty: "fa_projects acc = []" and ok: "acc_ok acc"
    and same: "\<And>p gid q gid'. (p, gid) \<in> matched env flt (set lg) \<Longrightarrow> (q, gid') \<in> matched env flt (set lg) \<Longrightarrow>
        p_ID p = p_ID q \<Longrightarrow> mk_target_project p gid = mk_target_project q gid'"
  shows "mset (fa_projects (add_all env flt lg acc)) = mset (fa_projects (add_all env flt lg' acc))"
proof -
  let ?m = "fa_projects (add_all env flt lg acc)" and ?m' = "fa_projects (add_all env flt lg' acc)"
  have ok': "acc_ok (add_all env flt lg acc)" "acc_ok (add_all env flt lg' acc)" using ok by simp_all
  have keys: "distinct (map fst ?m)" "distinct (map fst ?m')"
    using ok' by (simp_all add: acc_ok_def entries_ok_def go_map_ok_def)
  have doms: "dom (map_of ?m) = dom (map_of ?m')" unfolding add_all_dom mset_eq_setD [OF lg] ..
  have "go_get ?m k = go_get ?m' k" for k
  proof (cases "go_get ?m k")
    case None
    then show ?thesis using doms by (metis domIff)
  next
    case (Some x)
    with doms obtain y where y: "go_get ?m' k = Some y" by (metis domD domI)
    have "go_get (fa_projects acc) k = None" by (simp add: empty)
    then obtain p gid q gid' where "(p, gid) \<in> matched env flt (set lg)" "p_ID p = k" "x = mk_target_project p gid"
        "(q, gid') \<in> matched env flt (set lg)" "p_ID q = k" "y = mk_target_project q gid'"
      using add_all_get [OF Some] add_all_get [OF y] unfolding mset_eq_setD [OF lg] by auto
    then have "x = y" using same by metis
    then show ?thesis using Some y by simp
  qed
  then have "set ?m = set ?m'" using map_of_inject_set [OF keys] by (simp add: fun_eq_iff)
  then show ?thesis using keys by (simp add: set_eq_iff_mset_eq_distinct distinct_map)
qed

lemma ProjectList_cong:
  assumes "mset (fa_projects a) = mset (fa_projects a')" and "acc_ok a" and "acc_ok a'"
  shows "ProjectList (ToFleet a) = ProjectList (ToFleet a')"
proof -
  have "inj_on (\<lambda>p. (tp_PathWithNamespace p, tp_ID p)) (set (map snd (fa_projects a)))"
    using assms(2) keyed_inj [of "fa_projects a" tp_ID] by (auto simp: inj_on_def acc_ok_def entries_ok_def)
  moreover have "mset (map snd (fa_projects a)) = mset (map snd (fa_projects a'))" using assms(1) by simp
  ultimately show ?thesis
    using ToFleet_projects [OF assms(2)] ToFleet_projects [OF assms(3)]
    by (simp add: ProjectList_def sort_slice_cong_mset del: mset_map)
qed

text \<open>The occurrences of matching projects in the listings of the groups.\<close>

definition occurrences ::
  "discovery_runtime \<Rightarrow> discovery_coordinator \<Rightarrow> project_filter \<Rightarrow> discovered_group list \<Rightarrow> (gl_project \<times> int) set" where
  "occurrences rt dc pf groups =
     {(p, dg_ID g) | p g. g \<in> set groups \<and> Some p \<in> set (stream_values (group_stream rt dc g))
        \<and> Project_Matches (rt_env rt) (Some pf) (Some p)}"

definition same_entries :: "(gl_project \<times> int) set \<Rightarrow> bool" where
  "same_entries S \<longleftrightarrow>
     (\<forall>(p, gid) \<in> S. \<forall>(q, gid') \<in> S. p_ID p = p_ID q \<longrightarrow> mk_target_project p gid = mk_target_project q gid')"

lemma matched_log:
  assumes "mset lg = (\<Sum>g \<leftarrow> groups. mset (map (\<lambda>p. (p, dg_ID g)) (stream_values (group_stream rt dc g))))"
  shows "matched (rt_env rt) (Some pf) (set lg) = occurrences rt dc pf groups"
proof -
  have "set lg = set_mset (mset lg)" by simp
  also have "\<dots> = {(p, dg_ID g) | p g. g \<in> set groups \<and> p \<in> set (stream_values (group_stream rt dc g))}"
    unfolding assms by (induction groups) auto
  finally show ?thesis by (auto simp: matched_def occurrences_def)
qed

lemma discovered_groups_no_projects:
  "fa_projects (foldl (\<lambda>a g. AddDiscoveredGroup (Some g) a) newFleetAccumulator groups) = []"
proof -
  have "fa_projects (foldl (\<lambda>a g. AddDiscoveredGroup (Some g) a) a gs) = fa_projects a" for a gs
    by (induction gs arbitrary: a) (auto simp: AddDiscoveredGroup_def)
  then show ?thesis by (simp add: newFleetAccumulator_def)
qed

text \<open>What two fleets of the same scan have in common.\<close>

definition same_scan :: "(gl_project \<times> int) set \<Rightarrow> target_fleet \<Rightarrow> target_fleet \<Rightarrow> bool" where
  "same_scan S f f' \<longleftrightarrow>
     ProjectIDs f = ProjectIDs f' \<and> tf_Groups f = tf_Groups f'
     \<and> tf_ScannedProjectsCount f = tf_ScannedProjectsCount f' \<and> tf_ScannedGroupsCount f = tf_ScannedGroupsCount f'
     \<and> tf_MatchedProjectsCount f = tf_MatchedProjectsCount f' \<and> tf_MatchedGroupsCount f = tf_MatchedGroupsCount f'
     \<and> (same_entries S \<longrightarrow> ProjectList f = ProjectList f')"

text \<open>
  Property C7. The fleet does not depend on how the scan goroutines interleave: under any two
  schedules the group scan either fails both times, or finds the same project IDs and the same
  groups with all four counters equal. The project entries themselves are equal too when every
  matching project comes with one entry, that is when no targeted group lists a project of
  another one or lists it with other data; otherwise the first goroutine decides which group
  is recorded (see \<open>shared_project_depends_on_schedule\<close> below).
\<close>

theorem scan_schedule_independent:
  assumes "0 < dc_concurrency dc"
  shows "case (scan_groups_and_build rt dc pf groups, scan_groups_and_build (rt\<lparr>rt_sched := sched\<rparr>) dc pf groups) of
      (Inr f, Inr f') \<Rightarrow> same_scan (occurrences rt dc pf groups) f f'
    | (Inl _, Inl _) \<Rightarrow> True
    | _ \<Rightarrow> False"
proof -
  let ?rt = "rt\<lparr>rt_sched := sched\<rparr>"
  let ?acc = "foldl (\<lambda>a g. AddDiscoveredGroup (Some g) a) newFleetAccumulator groups"
  let ?S = "\<Sum>g \<leftarrow> groups. mset (map (\<lambda>p. (p, dg_ID g)) (stream_values (group_stream rt dc g)))"
  have stream: "group_stream ?rt dc = group_stream rt dc" by (simp add: group_stream_def fun_eq_iff)
  note fails = scan_groups_fails [of dc _ pf groups]
  have same: "same_scan (occurrences rt dc pf groups) f f'"
    if f: "f = ToFleet (add_all (rt_env rt) (Some pf) lg ?acc)" "f' = ToFleet (add_all (rt_env rt) (Some pf) lg' ?acc)"
      and lg: "mset lg = mset lg'" and S: "mset lg = ?S" for f f' lg lg'
  proof -
    let ?a = "add_all (rt_env rt) (Some pf) lg ?acc" and ?a' = "add_all (rt_env rt) (Some pf) lg' ?acc"
    have ok: "acc_ok ?a" "acc_ok ?a'" by (simp_all add: acc_ok_groups)
    have "dom (map_of (fa_projects ?a)) = dom (map_of (fa_projects ?a'))"
      unfolding add_all_dom mset_eq_setD [OF lg] ..
    then have keys: "sort (map fst (fa_projects ?a)) = sort (map fst (fa_projects ?a'))"
      using ok by (intro sorted_distinct_set_unique) (auto simp: acc_ok_def entries_ok_def go_map_ok_def dom_map_of_conv_image_fst)
    from arg_cong [OF this, of length] have len: "length (fa_projects ?a) = length (fa_projects ?a')" by simp
    have "mset (fa_projects ?a) = mset (fa_projects ?a')" if "same_entries (occurrences rt dc pf groups)"
      using that unfolding matched_log [OF S, symmetric] same_entries_def
      by (intro add_all_same_entries [OF lg discovered_groups_no_projects]) (auto simp: acc_ok_groups)
    then have "same_entries (occurrences rt dc pf groups) \<longrightarrow> ProjectList f = ProjectList f'"
      unfolding f using ProjectList_cong ok by blast
    with keys len show ?thesis
      using lg ok ToFleet_projects [OF ok(1)] ToFleet_projects [OF ok(2)]
      by (simp add: same_scan_def f ProjectIDs_def add_all_frame) (simp add: ToFleet_def Let_def add_all_frame)
  qed
  show ?thesis
  proof (cases "scan_groups_and_build rt dc pf groups"; cases "scan_groups_and_build ?rt dc pf groups")
    fix f f' assume f: "scan_groups_and_build rt dc pf groups = Inr f" and f': "scan_groups_and_build ?rt dc pf groups = Inr f'"
    obtain lg where "mset lg = ?S" "f = ToFleet (add_all (rt_env rt) (Some pf) lg ?acc)"
      using scan_groups_and_build_Inr [OF f assms] by blast
    moreover obtain lg' where "mset lg' = ?S" "f' = ToFleet (add_all (rt_env rt) (Some pf) lg' ?acc)"
      using scan_groups_and_build_Inr [OF f' assms] unfolding stream by auto
    ultimately show ?thesis using f f' same [of f lg f' lg'] by simp
  qed (use fails [of rt] fails [of ?rt] assms in \<open>simp_all add: stream\<close>)
qed

subsection \<open>Witnesses\<close>

text \<open>
  Two groups whose listings share a project (id 7) and a filter that rejects archived projects,
  listed in page mode with one page each.
\<close>

definition ex_env :: filter_env where
  "ex_env = \<lparr>re_Compile = (\<lambda>_. None), re_MatchString = (\<lambda>_ _. False), ISOTime_String = (\<lambda>_. [])\<rparr>"

definition ex_project :: "int \<Rightarrow> bool \<Rightarrow> gl_project" where
  "ex_project i arch =
     \<lparr>p_ID = i, p_Name = ''p'', p_Path = ''p'', p_PathWithNamespace = ''a/p'' @ fmt_d i, p_DefaultBranch = ''main'',
      p_Archived = arch, p_MarkedForDeletionAt = None, p_Visibility = ''private'', p_Topics = [], p_TagList = [],
      p_NamespaceFullPath = None, p_Settings = zero_project_settings\<rparr>"

definition ex_fetch :: "gl_project option list \<Rightarrow> gl_project option fetch_result" where
  "ex_fetch ps = \<lparr>fx_items = ps, fx_resp = None, fx_err = None\<rparr>"

definition ex_client :: discovery_client where
  "ex_client =
     \<lparr>dcl_Groups = cyclic_api,
      dcl_ListGroupProjects = (\<lambda>g _. ex_fetch
        (if g = 1 then [Some (ex_project 9 False), None, Some (ex_project 7 False)]
         else [Some (ex_project 7 False), Some (ex_project 8 True)])),
      dcl_ListProjects = (\<lambda>_. ex_fetch [Some (ex_project 7 False)])\<rparr>"

definition ex_runtime :: "nat list \<Rightarrow> discovery_runtime" where
  "ex_runtime sched =
     \<lparr>rt_env = ex_env, rt_query = simple_query, rt_sched = sched, rt_traverse_ctx = (\<lambda>_. None),
      rt_scan_ctx = (\<lambda>_. None), rt_stream_ctx = (\<lambda>_ _. None)\<rparr>"

definition ex_coordinator :: discovery_coordinator where
  "ex_coordinator =
     \<lparr>dc_client = ex_client, dc_targets = \<lparr>ts_GroupSelector = None, ts_ProjectSelector = None\<rparr>,
      dc_concurrency = 2, dc_streamOpts = DefaultStreamOptions,
      dc_groupTraverser = (\<lambda>ctx sel. Traverse ctx cyclic_api default_maxDepth sel)\<rparr>"

definition ex_g1 :: discovered_group where
  "ex_g1 = NormalizeGroup (ex_group 1 ''a'') 0 1"

definition ex_g2 :: discovered_group where
  "ex_g2 = NormalizeGroup (ex_group 2 ''b'') 1 1"

definition ex_groups :: "discovered_group list" where
  "ex_groups = [ex_g1, ex_g2]"

lemma ex_streams:
  "group_stream (ex_runtime sched) ex_coordinator ex_g1 =
     [SVal (Some (ex_project 9 False)), SVal None, SVal (Some (ex_project 7 False))]"
  "group_stream (ex_runtime sched) ex_coordinator ex_g2 =
     [SVal (Some (ex_project 7 False)), SVal (Some (ex_project 8 True))]"
  by (simp_all add: group_stream_def StreamGroupProjects_def StreamAll_def ex_coordinator_def ex_client_def ex_runtime_def
      ex_fetch_def DefaultStreamOptions_def DefaultPaginationOptions_def ex_g1_def ex_g2_def NormalizeGroup_def ex_group_def
      stream_loop.simps next_options_def ParsePageResponse_def empty_page_response_def Let_def)

definition ex_filter :: project_filter where
  "ex_filter = empty_filter\<lparr>pf_archived := Some False\<rparr>"

lemma ex_matches: "Project_Matches ex_env (Some ex_filter) (Some (ex_project i b)) \<longleftrightarrow> \<not> b"
  by (simp add: Project_Matches_def Evaluate_def evaluate_filter_def ex_filter_def empty_filter_def ex_project_def
      extractProjectTopics_def shouldExcludeMarked_def visibility_mismatch_def id_below_def id_above_def Let_def)

lemma ex_scan_succeeds: "\<exists>fleet. scan_groups_and_build (ex_runtime sched) ex_coordinator ex_filter ex_groups = Inr fleet"
proof -
  have "\<nexists>e. scan_groups_and_build (ex_runtime sched) ex_coordinator ex_filter ex_groups = Inl e"
    using ex_streams [of sched]
    by (subst scan_groups_fails)
       (auto simp: ex_groups_def launch_error_def ex_runtime_def, simp add: ex_coordinator_def)
  then show ?thesis by (metis sum.exhaust)
qed

theorem scan_groups_exact_witness:
  "\<exists>fleet. scan_groups_and_build (ex_runtime [1, 0, 1]) ex_coordinator ex_filter ex_groups = Inr fleet
    \<and> set (ProjectIDs fleet) = {7, 9}"
proof -
  obtain fleet where f: "scan_groups_and_build (ex_runtime [1, 0, 1]) ex_coordinator ex_filter ex_groups = Inr fleet"
    using ex_scan_succeeds by blast
  have [simp]: "rt_env (ex_runtime s) = ex_env" for s by (simp add: ex_runtime_def)
  have [simp]: "p_ID (ex_project i b) = i" for i b by (simp add: ex_project_def)
  have "set (ProjectIDs fleet) =
      {p_ID p | p g. g \<in> set ex_groups \<and> Some p \<in> set (stream_values (group_stream (ex_runtime [1, 0, 1]) ex_coordinator g))
        \<and> Project_Matches (rt_env (ex_runtime [1, 0, 1])) (Some ex_filter) (Some p)}"
    by (rule scan_groups_exact [THEN conjunct1, OF f]) (simp add: ex_coordinator_def)
  also have "\<dots> = {k. \<exists>p. k = p_ID p \<and> (p = ex_project 9 False \<or> p = ex_project 7 False)}"
    by (rule Collect_cong, rule ex_cong1) (auto simp: ex_groups_def ex_streams ex_matches)
  also have "\<dots> = p_ID ` {ex_project 9 False, ex_project 7 False}" by blast
  also have "\<dots> = {7, 9}" by auto
  finally show ?thesis using f by blast
qed

text \<open>The same groups with disjoint listings, under two schedules.\<close>

definition ex_split :: discovery_coordinator where
  "ex_split = ex_coordinator\<lparr>dc_client := ex_client\<lparr>dcl_ListGroupProjects := (\<lambda>g _. ex_fetch
     (if g = 1 then [Some (ex_project 9 False), None, Some (ex_project 7 False)] else [Some (ex_project 8 False)]))\<rparr>\<rparr>"

lemma ex_split_streams:
  "group_stream (ex_runtime sched) ex_split ex_g1 =
     [SVal (Some (ex_project 9 False)), SVal None, SVal (Some (ex_project 7 False))]"
  "group_stream (ex_runtime sched) ex_split ex_g2 = [SVal (Some (ex_project 8 False))]"
  by (simp_all add: group_stream_def StreamGroupProjects_def StreamAll_def ex_split_def ex_coordinator_def ex_client_def
      ex_runtime_def ex_fetch_def DefaultStreamOptions_def DefaultPaginationOptions_def ex_g1_def ex_g2_def NormalizeGroup_def
      ex_group_def stream_loop.simps next_options_def ParsePageResponse_def empty_page_response_def Let_def)

lemma ex_split_succeeds: "\<exists>fleet. scan_groups_and_build (ex_runtime sched) ex_split ex_filter ex_groups = Inr fleet"
proof -
  have "\<nexists>e. scan_groups_and_build (ex_runtime sched) ex_split ex_filter ex_groups = Inl e"
    using ex_split_streams [of sched]
    by (subst scan_groups_fails)
       (auto simp: ex_groups_def launch_error_def ex_runtime_def, simp add: ex_split_def ex_coordinator_def)
  then show ?thesis by (metis sum.exhaust)
qed

lemma ball_subset2: "A \<subseteq> B \<Longrightarrow> \<forall>(p, i) \<in> B. \<forall>(q, j) \<in> B. P p i q j \<Longrightarrow> \<forall>(p, i) \<in> A. \<forall>(q, j) \<in> A. P p i q j"
  by blast

lemma ex_split_same_entries: "same_entries (occurrences (ex_runtime sched) ex_split ex_filter ex_groups)"
proof -
  have "occurrences (ex_runtime sched) ex_split ex_filter ex_groups \<subseteq>
      {(ex_project 9 False, dg_ID ex_g1), (ex_project 7 False, dg_ID ex_g1), (ex_project 8 False, dg_ID ex_g2)}"
    by (auto simp: occurrences_def ex_groups_def ex_split_streams)
  moreover have "same_entries \<dots>" by (simp add: same_entries_def ex_project_def)
  ultimately show ?thesis unfolding same_entries_def by (rule ball_subset2)
qed

theorem scan_schedule_independent_witness:
  "\<exists>f f'. scan_groups_and_build (ex_runtime [1, 0, 1]) ex_split ex_filter ex_groups = Inr f
    \<and> scan_groups_and_build (ex_runtime [0, 0]) ex_split ex_filter ex_groups = Inr f'
    \<and> ProjectIDs f = ProjectIDs f' \<and> ProjectList f = ProjectList f'"
proof -
  obtain f f' where f: "scan_groups_and_build (ex_runtime [1, 0, 1]) ex_split ex_filter ex_groups = Inr f"
      "scan_groups_and_build (ex_runtime [0, 0]) ex_split ex_filter ex_groups = Inr f'"
    using ex_split_succeeds by blast
  moreover have "(ex_runtime [1, 0, 1])\<lparr>rt_sched := [0, 0]\<rparr> = ex_runtime [0, 0]" by (simp add: ex_runtime_def)
  moreover have "0 < dc_concurrency ex_split" by (simp add: ex_split_def ex_coordinator_def)
  ultimately have "same_scan (occurrences (ex_runtime [1, 0, 1]) ex_split ex_filter ex_groups) f f'"
    using scan_schedule_independent [of ex_split "ex_runtime [1, 0, 1]" ex_filter ex_groups "[0, 0]"] by simp
  then show ?thesis using f ex_split_same_entries by (auto simp: same_scan_def)
qed

text \<open>
  A project that two targeted groups list, as GitLab does for a project shared with a group, is
  recorded under the group whose goroutine adds it first.
\<close>

lemma shared_project_depends_on_schedule:
  "(case scan_groups_and_build (ex_runtime [1]) ex_coordinator ex_filter ex_groups of
      Inr f \<Rightarrow> map (\<lambda>p. (tp_ID p, tp_ParentGroupID p)) (ProjectList f) | Inl _ \<Rightarrow> []) = [(7, 2), (9, 1)]
   \<and> (case scan_groups_and_build (ex_runtime [0, 0, 0]) ex_coordinator ex_filter ex_groups of
      Inr f \<Rightarrow> map (\<lambda>p. (tp_ID p, tp_ParentGroupID p)) (ProjectList f) | Inl _ \<Rightarrow> []) = [(7, 1), (9, 1)]"
  by code_simp

theorem DiscoverFleet_fleet_ok_witness:
  "\<exists>fleet. DiscoverFleet (ex_runtime []) (Some ex_client) \<lparr>ts_GroupSelector = None, ts_ProjectSelector = None\<rparr> []
      = Some (Inr fleet) \<and> ProjectIDs fleet = [7] \<and> fleet_ok fleet"
proof -
  have s: "instance_stream (ex_runtime []) dc = [SVal (Some (ex_project 7 False))]"
    if "dc_client dc = ex_client" "dc_streamOpts dc = DefaultStreamOptions" for dc
    using that by (simp add: instance_stream_def StreamProjects_def StreamAll_def ex_client_def ex_runtime_def
      ex_fetch_def DefaultStreamOptions_def DefaultPaginationOptions_def stream_loop.simps next_options_def
      ParsePageResponse_def empty_page_response_def Let_def)
  have m: "Project_Matches ex_env (Some empty_filter) (Some (ex_project 7 False))"
    by (simp add: Project_Matches_def Evaluate_def evaluate_filter_def empty_filter_def ex_project_def
      extractProjectTopics_def shouldExcludeMarked_def visibility_mismatch_def id_below_def id_above_def Let_def)
  let ?d = "DiscoverFleet (ex_runtime []) (Some ex_client) \<lparr>ts_GroupSelector = None, ts_ProjectSelector = None\<rparr> []"
  have "\<exists>fleet. ?d = Some (Inr fleet) \<and> ProjectIDs fleet = [7]"
    using m by (simp add: DiscoverFleet_def discovery_Execute_def NewProjectFilter_def s)
      (simp add: ex_runtime_def AddProjectIfMatches_def ToFleet_def ProjectIDs_def newFleetAccumulator_def insert_new_def
        go_map_of_list_def go_put_def NewTargetFleet_def Let_def, simp add: ex_project_def)
  then obtain fleet where "?d = Some (Inr fleet)" "ProjectIDs fleet = [7]" by blast
  then show ?thesis using DiscoverFleet_fleet_ok [OF _ refl refl, of "ex_runtime []"] by blast
qed

end
