(* ===== verification/Registry.thy ===== *)
theory Registry
  imports Diff_Model Discovery
begin

section \<open>Operations registry\<close>

text \<open>
  \<^verbatim>\<open>internal/governance/registry.go\<close> and the interface \<^verbatim>\<open>GovernanceOperation\<close> of \<^verbatim>\<open>operation.go\<close>: the
  registration of operations by name, their dependency order, and the fail-stop execution of
  \<^verbatim>\<open>Plan\<close> and \<^verbatim>\<open>Apply\<close> on projects and groups. An operation is a record of functions over the state
  \<open>'s\<close> of the remote GitLab instance: a call returns a result pointer, an error and the new state.
  The map of operations lists its entries in an arbitrary order; \<open>ctx n\<close> is the error of the
  context at the \<open>n\<close>-th poll of a loop.
\<close>

type_synonym ('r, 's) op_outcome = "('r option \<times> go_error option) \<times> 's"

record 's governance_operation =
  op_Name :: string
  op_Order :: int
  op_Plan :: "gl_project \<Rightarrow> policy_config \<Rightarrow> 's \<Rightarrow> (plan_result, 's) op_outcome"
  op_Apply :: "gl_project \<Rightarrow> policy_config \<Rightarrow> 's \<Rightarrow> (apply_result, 's) op_outcome"
  op_PlanGroup :: "gl_group \<Rightarrow> policy_config \<Rightarrow> 's \<Rightarrow> (plan_result, 's) op_outcome"
  op_ApplyGroup :: "gl_group \<Rightarrow> policy_config \<Rightarrow> 's \<Rightarrow> (apply_result, 's) op_outcome"

type_synonym 's operations_registry = "(string, 's governance_operation) go_map"

definition NewOperationsRegistry :: "'s operations_registry" where
  "NewOperationsRegistry = []"

definition Register :: "'s governance_operation \<Rightarrow> 's operations_registry \<Rightarrow> 's operations_registry" where
  "Register op r = go_put (op_Name op) op r"

definition registry_Get :: "'s operations_registry \<Rightarrow> string \<Rightarrow> 's governance_operation option" where
  "registry_Get r name = go_get r name"

definition OrderedOperations :: "'s operations_registry \<Rightarrow> 's governance_operation list" where
  "OrderedOperations r = sort_slice (\<lambda>op. (op_Order op, op_Name op)) (map snd r)"

text \<open>The fifteen reconcilers with the name and order each of them returns, in registration order.\<close>

definition default_operations :: "(string \<times> int) list" where
  "default_operations =
     [(''push_rules'', 10), (''repository_files'', 15), (''protected_branches'', 20), (''branch_merges'', 24),
      (''protected_tags'', 22), (''protected_environments'', 25), (''approval_rules'', 30),
      (''project_settings'', 40), (''pipeline_retention'', 50), (''variables'', 60), (''runners'', 70),
      (''compliance'', 80), (''webhooks'', 90), (''members'', 100), (''target_branch_rules'', 45)]"

definition NewDefaultRegistry :: "(string \<Rightarrow> int \<Rightarrow> 's governance_operation) \<Rightarrow> 's operations_registry" where
  "NewDefaultRegistry mk =
     foldl (\<lambda>r (name, order). Register ((mk name order)\<lparr>op_Name := name, op_Order := order\<rparr>) r)
       NewOperationsRegistry default_operations"

subsection \<open>Execution loops\<close>

text \<open>
  The loop the four methods share: poll the context, run the operation; on an error append its
  result (or the fallback for a nil result) and return the wrapped error; otherwise append a
  non-nil result and go on.
\<close>

fun run_operations ::
  "ctx \<Rightarrow> ('o \<Rightarrow> 's \<Rightarrow> ('r, 's) op_outcome) \<Rightarrow> ('o \<Rightarrow> go_error \<Rightarrow> 'r) \<Rightarrow> ('o \<Rightarrow> go_error \<Rightarrow> go_error)
   \<Rightarrow> 'o list \<Rightarrow> 'r list \<Rightarrow> 's \<Rightarrow> ('r list \<times> go_error option) \<times> 's" where
  "run_operations ctx call fallback wrap [] results s = ((results, None), s)"
| "run_operations ctx call fallback wrap (op # ops) results s =
     (case ctx 0 of
        Some e \<Rightarrow> ((results, Some e), s)
      | None \<Rightarrow>
          (case call op s of
             ((res, Some err), s') \<Rightarrow>
               ((results @ [case res of None \<Rightarrow> fallback op err | Some r \<Rightarrow> r], Some (wrap op err)), s')
           | ((res, None), s') \<Rightarrow>
               run_operations (\<lambda>n. ctx (Suc n)) call fallback wrap ops
                 (case res of None \<Rightarrow> results | Some r \<Rightarrow> results @ [r]) s'))"

definition plan_fallback :: "resource_type \<Rightarrow> int \<Rightarrow> string \<Rightarrow> 's governance_operation \<Rightarrow> go_error \<Rightarrow> plan_result" where
  "plan_fallback rt i path op err =
     \<lparr>pr_OperationName = op_Name op, pr_ResourceType = rt, pr_ResourceID = i, pr_ResourcePath = path,
      pr_Action = ActionUnset, pr_Diffs = [], pr_HasChanges = False, pr_Details = [], pr_Error = Some err\<rparr>"

definition apply_fallback :: "resource_type \<Rightarrow> int \<Rightarrow> string \<Rightarrow> 's governance_operation \<Rightarrow> go_error \<Rightarrow> apply_result" where
  "apply_fallback rt i path op err =
     \<lparr>ar_OperationName = op_Name op, ar_ResourceType = rt, ar_ResourceID = i, ar_ResourcePath = path,
      ar_Action = ActionUnset, ar_Diffs = [], ar_Status = StatusFailed, ar_Success = False,
      ar_Details = [], ar_Error = Some err\<rparr>"

definition op_error :: "string \<Rightarrow> string \<Rightarrow> int \<Rightarrow> 's governance_operation \<Rightarrow> go_error \<Rightarrow> go_error" where
  "op_error verb kind i op err =
     Wrapf (''operation '' @ op_Name op @ '' failed '' @ verb @ '' on '' @ kind @ '' '' @ fmt_d i) err"

definition PlanProject ::
  "'s operations_registry \<Rightarrow> ctx \<Rightarrow> gl_project \<Rightarrow> policy_config \<Rightarrow> 's \<Rightarrow> (plan_result list \<times> go_error option) \<times> 's" where
  "PlanProject r ctx project cfg s =
     run_operations ctx (\<lambda>op. op_Plan op project cfg)
       (plan_fallback ResourceTypeProject (p_ID project) (p_PathWithNamespace project))
       (op_error ''planning'' ''project'' (p_ID project)) (OrderedOperations r) [] s"

definition ApplyProject ::
  "'s operations_registry \<Rightarrow> ctx \<Rightarrow> gl_project \<Rightarrow> policy_config \<Rightarrow> 's \<Rightarrow> (apply_result list \<times> go_error option) \<times> 's" where
  "ApplyProject r ctx project cfg s =
     run_operations ctx (\<lambda>op. op_Apply op project cfg)
       (apply_fallback ResourceTypeProject (p_ID project) (p_PathWithNamespace project))
       (op_error ''applying'' ''project'' (p_ID project)) (OrderedOperations r) [] s"

definition PlanGroup ::
  "'s operations_registry \<Rightarrow> ctx \<Rightarrow> gl_group \<Rightarrow> policy_config \<Rightarrow> 's \<Rightarrow> (plan_result list \<times> go_error option) \<times> 's" where
  "PlanGroup r ctx grp cfg s =
     run_operations ctx (\<lambda>op. op_PlanGroup op grp cfg)
       (plan_fallback ResourceTypeGroup (g_ID grp) (g_FullPath grp))
       (op_error ''planning'' ''group'' (g_ID grp)) (OrderedOperations r) [] s"

definition ApplyGroup ::
  "'s operations_registry \<Rightarrow> ctx \<Rightarrow> gl_group \<Rightarrow> policy_config \<Rightarrow> 's \<Rightarrow> (apply_result list \<times> go_error option) \<times> 's" where
  "ApplyGroup r ctx grp cfg s =
     run_operations ctx (\<lambda>op. op_ApplyGroup op grp cfg)
       (apply_fallback ResourceTypeGroup (g_ID grp) (g_FullPath grp))
       (op_error ''applying'' ''group'' (g_ID grp)) (OrderedOperations r) [] s"

subsection \<open>Adapters for discovered targets\<close>

definition raw_project :: "target_project \<Rightarrow> gl_project" where
  "raw_project target =
     (case tp_Raw target of
        Some raw \<Rightarrow> raw
      | None \<Rightarrow>
          \<lparr>p_ID = tp_ID target, p_Name = tp_Name target, p_Path = tp_Path target,
           p_PathWithNamespace = tp_PathWithNamespace target, p_DefaultBranch = tp_DefaultBranch target,
           p_Archived = tp_Archived target, p_MarkedForDeletionAt = tp_MarkedForDeletionAt target,
           p_Visibility = [], p_Topics = [], p_TagList = [], p_NamespaceFullPath = None, p_Settings = zero_project_settings\<rparr>)"

definition raw_group :: "target_group \<Rightarrow> gl_group" where
  "raw_group target =
     (case tg_Raw target of
        Some raw \<Rightarrow> raw
      | None \<Rightarrow>
          \<lparr>g_ID = tg_ID target, g_Name = tg_Name target, g_Path = tg_Path target,
           g_FullPath = tg_FullPath target, g_ParentID = tg_ParentID target,
           g_Visibility = [], g_Description = [], g_WebURL = []\<rparr>)"

definition PlanTargetProject where
  "PlanTargetProject r ctx target cfg s = PlanProject r ctx (raw_project target) cfg s"

definition ApplyTargetProject where
  "ApplyTargetProject r ctx target cfg s = ApplyProject r ctx (raw_project target) cfg s"

definition PlanTargetGroup where
  "PlanTargetGroup r ctx target cfg s = PlanGroup r ctx (raw_group target) cfg s"

definition ApplyTargetGroup where
  "ApplyTargetGroup r ctx target cfg s = ApplyGroup r ctx (raw_group target) cfg s"

subsection \<open>Lemmas\<close>

text \<open>A registry built by \<^verbatim>\<open>Register\<close> stores every operation once, under its name.\<close>

definition registry_ok :: "'s operations_registry \<Rightarrow> bool" where
  "registry_ok r \<longleftrightarrow> go_map_ok r \<and> (\<forall>(k, op) \<in> set r. op_Name op = k)"

lemma registry_ok_New [simp]: "registry_ok NewOperationsRegistry"
  by (simp add: registry_ok_def NewOperationsRegistry_def)

lemma registry_ok_Register [simp]: "registry_ok r \<Longrightarrow> registry_ok (Register op r)"
  by (auto simp: registry_ok_def Register_def set_go_put)

text \<open>The state after the first \<open>n\<close> operations.\<close>

definition state_after :: "('o \<Rightarrow> 's \<Rightarrow> ('r, 's) op_outcome) \<Rightarrow> 'o list \<Rightarrow> 's \<Rightarrow> 's" where
  "state_after call ops s = foldl (\<lambda>s op. snd (call op s)) s ops"

lemma state_after_simps [simp]:
  "state_after call [] s = s"
  "state_after call (op # ops) s = state_after call ops (snd (call op s))"
  by (simp_all add: state_after_def)

text \<open>The error of the operation at position \<open>n\<close>, run in the state its predecessors left.\<close>

definition op_err_at :: "('o \<Rightarrow> 's \<Rightarrow> ('r, 's) op_outcome) \<Rightarrow> 'o list \<Rightarrow> 's \<Rightarrow> nat \<Rightarrow> go_error option" where
  "op_err_at call ops s n = snd (fst (call (ops ! n) (state_after call (take n ops) s)))"

definition op_result_at :: "('o \<Rightarrow> 's \<Rightarrow> ('r, 's) op_outcome) \<Rightarrow> 'o list \<Rightarrow> 's \<Rightarrow> nat \<Rightarrow> 'r option" where
  "op_result_at call ops s n = fst (fst (call (ops ! n) (state_after call (take n ops) s)))"

lemma op_at_Cons [simp]:
  "op_err_at call (op # ops) s 0 = snd (fst (call op s))"
  "op_err_at call (op # ops) s (Suc n) = op_err_at call ops (snd (call op s)) n"
  "op_result_at call (op # ops) s 0 = fst (fst (call op s))"
  "op_result_at call (op # ops) s (Suc n) = op_result_at call ops (snd (call op s)) n"
  by (simp_all add: op_err_at_def op_result_at_def)

definition results_of :: "'r option list \<Rightarrow> 'r list" where
  "results_of rs = List.map_filter id rs"

lemma results_of_simps [simp]:
  "results_of [] = []" "results_of (None # rs) = results_of rs" "results_of (Some r # rs) = r # results_of rs"
  by (simp_all add: results_of_def map_filter_simps)

lemma results_of_Cons: "results_of (x # rs) = (case x of None \<Rightarrow> [] | Some r \<Rightarrow> [r]) @ results_of rs"
  by (cases x) simp_all

text \<open>
  The characterisation of the loop: \<open>n\<close> operations complete without error; then either all are
  done, or the context is done at poll \<open>n\<close>, or operation \<open>n\<close> fails.
\<close>

definition stopped_at ::
  "ctx \<Rightarrow> ('o \<Rightarrow> 's \<Rightarrow> ('r, 's) op_outcome) \<Rightarrow> 'o list \<Rightarrow> 's \<Rightarrow> nat \<Rightarrow> bool" where
  "stopped_at ctx call ops s n \<longleftrightarrow> n \<le> length ops \<and> (\<forall>i < n. ctx i = None \<and> op_err_at call ops s i = None)
     \<and> (n = length ops \<or> ctx n \<noteq> None \<or> op_err_at call ops s n \<noteq> None)"

definition outcome_at ::
  "ctx \<Rightarrow> ('o \<Rightarrow> 's \<Rightarrow> ('r, 's) op_outcome) \<Rightarrow> ('o \<Rightarrow> go_error \<Rightarrow> 'r) \<Rightarrow> ('o \<Rightarrow> go_error \<Rightarrow> go_error)
   \<Rightarrow> 'o list \<Rightarrow> 's \<Rightarrow> nat \<Rightarrow> ('r list \<times> go_error option) \<times> 's" where
  "outcome_at ctx call fallback wrap ops s n =
     (let fin = results_of (map (op_result_at call ops s) [0..<n]) in
      if n = length ops then ((fin, None), state_after call ops s)
      else case ctx n of
        Some e \<Rightarrow> ((fin, Some e), state_after call (take n ops) s)
      | None \<Rightarrow>
          (case op_err_at call ops s n of
             Some err \<Rightarrow>
               ((fin @ [case op_result_at call ops s n of None \<Rightarrow> fallback (ops ! n) err | Some r \<Rightarrow> r],
                 Some (wrap (ops ! n) err)), state_after call (take (Suc n) ops) s)
           | None \<Rightarrow> ((fin, None), s)))"

lemma run_operations_stops:
  "\<exists>n. stopped_at ctx call ops s n \<and>
     run_operations ctx call fallback wrap ops results s =
       (case outcome_at ctx call fallback wrap ops s n of ((rs, e), s') \<Rightarrow> ((results @ rs, e), s'))"
proof (induction ops arbitrary: ctx results s)
  case Nil
  show ?case by (intro exI [of _ 0]) (simp add: stopped_at_def outcome_at_def)
next
  case (Cons op ops)
  show ?case
  proof (cases "ctx 0 = None \<and> snd (fst (call op s)) = None")
    case False
    then show ?thesis
      by (intro exI [of _ 0]) (cases "call op s", auto simp: stopped_at_def outcome_at_def split: option.splits prod.splits)
  next
    case True
    obtain res s' where call: "call op s = ((res, None), s')" using True by (cases "call op s") auto
    obtain n where n: "stopped_at (\<lambda>n. ctx (Suc n)) call ops s' n"
      and run: "run_operations (\<lambda>n. ctx (Suc n)) call fallback wrap ops
          (case res of None \<Rightarrow> results | Some r \<Rightarrow> results @ [r]) s' =
        (case outcome_at (\<lambda>n. ctx (Suc n)) call fallback wrap ops s' n of
           ((rs, e), s'') \<Rightarrow> (((case res of None \<Rightarrow> results | Some r \<Rightarrow> results @ [r]) @ rs, e), s''))"
      using Cons.IH by blast
    have st: "stopped_at ctx call (op # ops) s (Suc n)"
      using n True by (auto simp: stopped_at_def call less_Suc_eq_0_disj)
    have upt: "map (op_result_at call (op # ops) s) [0..<Suc n] = res # map (op_result_at call ops s') [0..<n]"
      by (simp add: upt_conv_Cons map_Suc_upt [symmetric] comp_def call del: upt_Suc)
    show ?thesis
      using st run True n
      by (intro exI [of _ "Suc n"])
         (auto simp: outcome_at_def Let_def upt results_of_Cons call stopped_at_def simp del: upt_Suc split: option.splits)
  qed
qed

lemma run_operations_keeps:
  "(\<And>op s. op \<in> set ops \<Longrightarrow> keep s \<Longrightarrow> keep (snd (call op s))) \<Longrightarrow> keep s \<Longrightarrow>
     keep (snd (run_operations ctx call fallback wrap ops results s))"
proof (induction ops arbitrary: ctx results s)
  case (Cons op ops)
  obtain x s' where "call op s = (x, s')" by (cases "call op s")
  moreover have "keep s'" using Cons.prems(1) [of op s] Cons.prems(2) calculation by simp
  ultimately show ?case using Cons by (auto split: option.splits prod.splits)
qed simp

lemma registry_keys_inj:
  assumes "registry_ok r"
  shows "inj_on (\<lambda>op. (op_Order op, op_Name op)) (snd ` set r)"
  using assms keyed_inj [of r op_Name] by (auto simp: registry_ok_def inj_on_def)

subsection \<open>Read-only planning\<close>

text \<open>
  The contract \<^verbatim>\<open>operation.go\<close> states for \<^verbatim>\<open>Plan\<close> and \<^verbatim>\<open>PlanGroup\<close>: they evaluate a target without
  mutating state. \<open>keep\<close> is what is not to change, of the state an operation runs in, which may hold more
  than the remote instance (the caches of a reconciler). What a registry of such operations
  promises is proved once here.
\<close>

locale planning_keeps =
  fixes reg :: "'s operations_registry" and keep :: "'s \<Rightarrow> bool"
  assumes plan_keeps: "op \<in> snd ` set reg \<Longrightarrow> keep s \<Longrightarrow> keep (snd (op_Plan op project cfg s))"
    and plan_group_keeps: "op \<in> snd ` set reg \<Longrightarrow> keep s \<Longrightarrow> keep (snd (op_PlanGroup op grp cfg s))"
begin

lemma PlanProject_keeps: "keep s \<Longrightarrow> keep (snd (PlanProject reg ctx project cfg s))"
  unfolding PlanProject_def by (rule run_operations_keeps) (simp_all add: OrderedOperations_def plan_keeps)

lemma PlanGroup_keeps: "keep s \<Longrightarrow> keep (snd (PlanGroup reg ctx grp cfg s))"
  unfolding PlanGroup_def by (rule run_operations_keeps) (simp_all add: OrderedOperations_def plan_group_keeps)

lemma PlanTarget_keeps:
  "keep s \<Longrightarrow> keep (snd (PlanTargetProject reg ctx tp cfg s))" "keep s \<Longrightarrow> keep (snd (PlanTargetGroup reg ctx tg cfg s))"
  by (simp_all add: PlanTargetProject_def PlanTargetGroup_def PlanProject_keeps PlanGroup_keeps)

end

subsection \<open>Properties\<close>

text \<open>
  Property C37. The execution order is deterministic: for every registry built by \<^verbatim>\<open>Register\<close>, whatever
  the iteration order of its map, \<^verbatim>\<open>OrderedOperations\<close> is the same list, holds every registered
  operation exactly once, and is sorted by order and then by name.
\<close>

theorem OrderedOperations_deterministic:
  assumes "registry_ok r" and "mset r' = mset r"
  shows "OrderedOperations r' = OrderedOperations r
    \<and> mset (OrderedOperations r) = mset (map snd r)
    \<and> sorted (map (\<lambda>op. (op_Order op, op_Name op)) (OrderedOperations r))"
proof -
  have "inj_on (\<lambda>op. (op_Order op, op_Name op)) (set (map snd r'))"
    using registry_keys_inj [OF assms(1)] mset_eq_setD [OF assms(2)] by simp
  then show ?thesis
    using assms(2) by (auto simp: OrderedOperations_def sorted_sort_slice intro!: sort_slice_cong_mset)
qed

text \<open>
  The default registry runs its fifteen reconcilers in one fixed dependency order.
\<close>

theorem default_execution_order:
  "map op_Name (OrderedOperations (NewDefaultRegistry mk)) =
     [''push_rules'', ''repository_files'', ''protected_branches'', ''protected_tags'', ''branch_merges'',
      ''protected_environments'', ''approval_rules'', ''project_settings'', ''target_branch_rules'',
      ''pipeline_retention'', ''variables'', ''runners'', ''compliance'', ''webhooks'', ''members'']"
  by (simp add: NewDefaultRegistry_def default_operations_def Register_def NewOperationsRegistry_def go_put_def
      OrderedOperations_def sort_slice_def less_eq_prod_def)

text \<open>
  Property C6. \<^verbatim>\<open>ApplyProject\<close> is fail-stop: some number \<open>n\<close> of operations complete without error, in
  dependency order; if that is all of them the call succeeds, if the context is done before
  operation \<open>n\<close> its error is returned, and if operation \<open>n\<close> fails its result (or a synthesised
  failed result) is the last one and its error is returned wrapped. Nothing runs after that:
  the remote state is the one the executed prefix left.
\<close>

theorem ApplyProject_fail_stop:
  "\<exists>n. let ops = OrderedOperations r; call = (\<lambda>op. op_Apply op project cfg) in
     stopped_at ctx call ops s n
     \<and> ApplyProject r ctx project cfg s =
         outcome_at ctx call (apply_fallback ResourceTypeProject (p_ID project) (p_PathWithNamespace project))
           (op_error ''applying'' ''project'' (p_ID project)) ops s n"
  using run_operations_stops [of ctx "\<lambda>op. op_Apply op project cfg" "OrderedOperations r" s
      "apply_fallback ResourceTypeProject (p_ID project) (p_PathWithNamespace project)"
      "op_error ''applying'' ''project'' (p_ID project)" "[]"]
  by (simp add: ApplyProject_def Let_def case_prod_unfold)

definition ex_operation :: "string \<Rightarrow> int \<Rightarrow> nat governance_operation" where
  "ex_operation name order =
     \<lparr>op_Name = name, op_Order = order, op_Plan = (\<lambda>_ _ s. ((None, None), s)),
      op_Apply = (\<lambda>_ _ s. ((None, None), Suc s)), op_PlanGroup = (\<lambda>_ _ s. ((None, None), s)),
      op_ApplyGroup = (\<lambda>_ _ s. ((None, None), Suc s))\<rparr>"

theorem OrderedOperations_deterministic_witness:
  "OrderedOperations (rev (Register (ex_operation ''b'' 1) (Register (ex_operation ''a'' 1) NewOperationsRegistry)))
    = [ex_operation ''a'' 1, ex_operation ''b'' 1]"
proof -
  let ?r = "Register (ex_operation ''b'' 1) (Register (ex_operation ''a'' 1) NewOperationsRegistry)"
  have "OrderedOperations (rev ?r) = OrderedOperations ?r"
    using OrderedOperations_deterministic [of ?r "rev ?r"] by simp
  also have "\<dots> = [ex_operation ''a'' 1, ex_operation ''b'' 1]"
    by (simp add: OrderedOperations_def Register_def NewOperationsRegistry_def go_put_def ex_operation_def
        sort_slice_def less_eq_prod_def)
  finally show ?thesis .
qed

end
