(* ===== verification/Worker_Pool.thy ===== *)
theory Worker_Pool
  imports Group_Tree
begin

section \<open>Worker pool\<close>

text \<open>
  \<^verbatim>\<open>internal/engine/workerpool.go\<close>: the bounded pool as a state machine and \<^verbatim>\<open>ParallelMap\<close> and
  \<^verbatim>\<open>ExecuteTasks\<close> on top of it. Tasks are indices; \<open>run t x\<close> is what the body of task \<open>t\<close> does to the
  world \<open>x\<close> (the remote state and the captured variables). The scheduler is explicit: a run of
  the pool is a list of events, each of which is one step of one goroutine, and an event that is
  not enabled makes the run invalid. The body of a task takes effect when it finishes.
  \<open>wp_submitted\<close>, \<open>wp_executed\<close> and \<open>wp_skipped\<close> are ghost fields that record which tasks entered the
  queue, ran, and were dequeued after cancellation. The asynchronous error callback is not
  modelled, and a \<^verbatim>\<open>Submit\<close> does not race with \<^verbatim>\<open>Close\<close> (both helpers submit and close from one goroutine).
\<close>

definition ErrPoolClosed :: go_error where "ErrPoolClosed = Err ''worker pool is closed''"
definition ErrPoolFull :: go_error where "ErrPoolFull = Err ''worker pool task queue is full''"
definition ErrTaskNil :: go_error where "ErrTaskNil = Err ''task cannot be nil''"

datatype worker = Idle | Taken nat | Running nat | Exited

datatype task_outcome = Returned "go_error option" | Panicked string

record pool =
  wp_concurrency :: nat
  wp_queueSize :: nat
  wp_tasks :: "nat list"
  wp_errors :: "go_error list"
  wp_workers :: "worker list"
  wp_cancelled :: "go_error option"
  wp_closed :: bool
  wp_submitted :: "nat list"
  wp_executed :: "nat list"
  wp_skipped :: "nat list"

datatype pool_option = WithWorkerCount int | WithQueueSize int

primrec apply_pool_option :: "pool_option \<Rightarrow> int \<times> int \<Rightarrow> int \<times> int" where
  "apply_pool_option (WithWorkerCount n) cq = (if n > 0 then (n, snd cq) else cq)"
| "apply_pool_option (WithQueueSize n) cq = (if n > 0 then (fst cq, n) else cq)"

text \<open>\<^verbatim>\<open>start\<close> launches one worker per unit of concurrency.\<close>

definition NewWorkerPool :: "int \<Rightarrow> pool_option list \<Rightarrow> pool" where
  "NewWorkerPool concurrency opts =
     (let c0 = (if concurrency \<le> 0 then 10 else concurrency);
          (c, q) = foldl (\<lambda>cq opt. apply_pool_option opt cq) (c0, c0 * 4) opts;
          q' = (if q \<le> 0 then c * 4 else q)
      in \<lparr>wp_concurrency = nat c, wp_queueSize = nat q', wp_tasks = [], wp_errors = [],
          wp_workers = replicate (nat c) Idle, wp_cancelled = None, wp_closed = False,
          wp_submitted = [], wp_executed = [], wp_skipped = []\<rparr>)"

definition recordError :: "go_error option \<Rightarrow> pool \<Rightarrow> pool" where
  "recordError err p = (case err of None \<Rightarrow> p | Some e \<Rightarrow> p\<lparr>wp_errors := wp_errors p @ [e]\<rparr>)"

definition pool_Errors :: "pool \<Rightarrow> go_error list" where
  "pool_Errors p = wp_errors p"

subsection \<open>Submission\<close>

definition enqueue :: "nat \<Rightarrow> pool \<Rightarrow> pool" where
  "enqueue t p = p\<lparr>wp_tasks := wp_tasks p @ [t], wp_submitted := wp_submitted p @ [t]\<rparr>"

text \<open>
  The results a submission may have: \<^verbatim>\<open>select\<close> takes any of its ready branches, and an empty list
  means that the call blocks. \<^verbatim>\<open>SubmitWithTimeout\<close> has the timer as a further branch.
\<close>

definition submit_branches :: "nat \<Rightarrow> pool \<Rightarrow> (go_error option \<times> pool) list" where
  "submit_branches t p =
     (case wp_cancelled p of Some e \<Rightarrow> [(Some e, p)] | None \<Rightarrow> [])
     @ (if length (wp_tasks p) < wp_queueSize p then [(None, enqueue t p)] else [])"

definition Submit :: "nat option \<Rightarrow> pool \<Rightarrow> (go_error option \<times> pool) list" where
  "Submit task p =
     (case task of
        None \<Rightarrow> [(Some ErrTaskNil, p)]
      | Some t \<Rightarrow> if wp_closed p then [(Some ErrPoolClosed, p)] else submit_branches t p)"

definition SubmitWithTimeout :: "nat option \<Rightarrow> pool \<Rightarrow> (go_error option \<times> pool) list" where
  "SubmitWithTimeout task p =
     (case task of
        None \<Rightarrow> [(Some ErrTaskNil, p)]
      | Some t \<Rightarrow> if wp_closed p then [(Some ErrPoolClosed, p)]
                 else (Some ErrPoolFull, p) # submit_branches t p)"

subsection \<open>Steps\<close>

datatype pool_event =
  PSubmit nat             \<comment> \<open>a task is put into the queue\<close>
| PReject nat             \<comment> \<open>a submission returns the error of the done context\<close>
| PTake nat               \<comment> \<open>worker \<open>i\<close> receives a task\<close>
| PSkip nat               \<comment> \<open>worker \<open>i\<close> finds the context done and records its error\<close>
| PStart nat              \<comment> \<open>worker \<open>i\<close> starts the body\<close>
| PFinish nat             \<comment> \<open>the body of worker \<open>i\<close> returns or panics\<close>
| PExit nat               \<comment> \<open>worker \<open>i\<close> returns\<close>
| PClose                  \<comment> \<open>\<^verbatim>\<open>close(p.tasks)\<close>\<close>
| PCancel go_error        \<comment> \<open>the context is done\<close>

definition panic_error :: "string \<Rightarrow> go_error" where
  "panic_error r = Err (''worker panic recovered: '' @ r)"

definition outcome_error :: "task_outcome \<Rightarrow> go_error option" where
  "outcome_error out = (case out of Returned e \<Rightarrow> e | Panicked r \<Rightarrow> Some (panic_error r))"

definition set_worker :: "nat \<Rightarrow> worker \<Rightarrow> pool \<Rightarrow> pool" where
  "set_worker i w p = p\<lparr>wp_workers := (wp_workers p)[i := w]\<rparr>"

definition worker_at :: "pool \<Rightarrow> nat \<Rightarrow> worker option" where
  "worker_at p i = (if i < length (wp_workers p) then Some (wp_workers p ! i) else None)"

text \<open>
  One turn of the worker loop is \<^verbatim>\<open>PTake\<close> followed by \<^verbatim>\<open>executeTask\<close>: \<^verbatim>\<open>PSkip\<close>, or \<^verbatim>\<open>PStart\<close> and
  \<^verbatim>\<open>PFinish\<close> with the recovery of panics.
\<close>

fun pool_step :: "(nat \<Rightarrow> 'x \<Rightarrow> task_outcome \<times> 'x) \<Rightarrow> pool_event \<Rightarrow> pool \<times> 'x \<Rightarrow> (pool \<times> 'x) option" where
  "pool_step run (PSubmit t) (p, x) =
     (if \<not> wp_closed p \<and> length (wp_tasks p) < wp_queueSize p then Some (enqueue t p, x) else None)"
| "pool_step run (PReject t) (p, x) =
     (if \<not> wp_closed p \<and> wp_cancelled p \<noteq> None then Some (recordError (wp_cancelled p) p, x) else None)"
| "pool_step run (PTake i) (p, x) =
     (case (worker_at p i, wp_tasks p) of
        (Some Idle, t # ts) \<Rightarrow> Some (set_worker i (Taken t) (p\<lparr>wp_tasks := ts\<rparr>), x)
      | _ \<Rightarrow> None)"
| "pool_step run (PSkip i) (p, x) =
     (case worker_at p i of
        Some (Taken t) \<Rightarrow>
          if wp_cancelled p = None then None
          else Some (recordError (wp_cancelled p) (set_worker i Idle (p\<lparr>wp_skipped := wp_skipped p @ [t]\<rparr>)), x)
      | _ \<Rightarrow> None)"
| "pool_step run (PStart i) (p, x) =
     (case worker_at p i of
        Some (Taken t) \<Rightarrow> if wp_cancelled p = None then Some (set_worker i (Running t) p, x) else None
      | _ \<Rightarrow> None)"
| "pool_step run (PFinish i) (p, x) =
     (case worker_at p i of
        Some (Running t) \<Rightarrow>
          Some (recordError (outcome_error (fst (run t x)))
                  (set_worker i Idle (p\<lparr>wp_executed := wp_executed p @ [t]\<rparr>)), snd (run t x))
      | _ \<Rightarrow> None)"
| "pool_step run (PExit i) (p, x) =
     (if worker_at p i = Some Idle \<and> (wp_cancelled p \<noteq> None \<or> (wp_closed p \<and> wp_tasks p = []))
      then Some (set_worker i Exited p, x) else None)"
| "pool_step run PClose (p, x) = (if wp_closed p then None else Some (p\<lparr>wp_closed := True\<rparr>, x))"
| "pool_step run (PCancel e) (p, x) =
     (if wp_cancelled p = None then Some (p\<lparr>wp_cancelled := Some e\<rparr>, x) else None)"

fun pool_run :: "(nat \<Rightarrow> 'x \<Rightarrow> task_outcome \<times> 'x) \<Rightarrow> pool_event list \<Rightarrow> pool \<times> 'x \<Rightarrow> (pool \<times> 'x) option" where
  "pool_run run [] st = Some st"
| "pool_run run (e # es) st = (case pool_step run e st of None \<Rightarrow> None | Some st' \<Rightarrow> pool_run run es st')"

text \<open>\<^verbatim>\<open>wg.Wait()\<close> returns when every worker has returned.\<close>

definition all_exited :: "pool \<Rightarrow> bool" where
  "all_exited p \<longleftrightarrow> list_all (\<lambda>w. w = Exited) (wp_workers p)"

subsection \<open>Batch helpers\<close>

text \<open>The events of the submitting goroutine: each task is submitted once, in order, then the pool is closed.\<close>

fun submitted_by :: "pool_event list \<Rightarrow> nat list" where
  "submitted_by [] = []"
| "submitted_by (PSubmit t # es) = t # submitted_by es"
| "submitted_by (PReject t # es) = t # submitted_by es"
| "submitted_by (_ # es) = submitted_by es"

fun rejected_by :: "pool_event list \<Rightarrow> nat list" where
  "rejected_by [] = []"
| "rejected_by (PReject t # es) = t # rejected_by es"
| "rejected_by (_ # es) = rejected_by es"

definition complete_run ::
  "(nat \<Rightarrow> 'x \<Rightarrow> task_outcome \<times> 'x) \<Rightarrow> int \<Rightarrow> nat \<Rightarrow> pool_event list \<Rightarrow> 'x \<Rightarrow> (pool \<times> 'x) option" where
  "complete_run run concurrency n events x =
     (case pool_run run events (NewWorkerPool concurrency [WithQueueSize (int n)], x) of
        None \<Rightarrow> None
      | Some (p, x') \<Rightarrow>
          if wp_closed p \<and> all_exited p \<and> submitted_by events = [0..<n] then Some (p, x') else None)"

definition ExecuteTasks ::
  "pool_event list \<Rightarrow> int \<Rightarrow> ('x \<Rightarrow> task_outcome \<times> 'x) list \<Rightarrow> 'x \<Rightarrow> (go_error list \<times> 'x) option" where
  "ExecuteTasks events concurrency tasks x =
     (if tasks = [] then Some ([], x)
      else case complete_run (\<lambda>t. tasks ! t) (if concurrency \<le> 0 then 10 else concurrency) (length tasks) events x of
        None \<Rightarrow> None
      | Some (p, x') \<Rightarrow> Some (pool_Errors p, x'))"

text \<open>What the closures of \<^verbatim>\<open>ParallelMap\<close> share: the two result slices and the remote state.\<close>

datatype 'r fn_outcome = FnReturned 'r "go_error option" | FnPanicked string

record ('r, 's) map_world =
  mw_results :: "'r option list"
  mw_errs :: "go_error option list"
  mw_remote :: 's

definition map_task ::
  "('a \<Rightarrow> 's \<Rightarrow> 'r fn_outcome \<times> 's) \<Rightarrow> 'a list \<Rightarrow> nat \<Rightarrow> ('r, 's) map_world \<Rightarrow> task_outcome \<times> ('r, 's) map_world" where
  "map_task fn items i w =
     (case fn (items ! i) (mw_remote w) of
        (FnReturned res (Some err), s') \<Rightarrow>
          (Returned (Some err), w\<lparr>mw_errs := (mw_errs w)[i := Some err], mw_remote := s'\<rparr>)
      | (FnReturned res None, s') \<Rightarrow>
          (Returned None, w\<lparr>mw_results := (mw_results w)[i := Some res], mw_remote := s'\<rparr>)
      | (FnPanicked r, s') \<Rightarrow> (Panicked r, w\<lparr>mw_remote := s'\<rparr>))"

text \<open>A failed submission stores its error in the slot of the item; this happens in the submitting goroutine.\<close>

definition reject_slots :: "go_error option \<Rightarrow> nat list \<Rightarrow> go_error option list \<Rightarrow> go_error option list" where
  "reject_slots e is errs = foldl (\<lambda>errs i. errs[i := e]) errs is"

fun add_missing_errors :: "go_error list \<Rightarrow> go_error list \<Rightarrow> go_error list" where
  "add_missing_errors collected [] = collected"
| "add_missing_errors collected (pErr # es) =
     (if list_ex (\<lambda>cErr. cErr = pErr \<or> err_msg cErr = err_msg pErr) collected
      then add_missing_errors collected es
      else add_missing_errors (collected @ [pErr]) es)"

definition collect_errors :: "go_error option list \<Rightarrow> go_error list \<Rightarrow> go_error list" where
  "collect_errors errs poolErrors = add_missing_errors (List.map_filter id errs) poolErrors"

definition ParallelMap ::
  "pool_event list \<Rightarrow> int \<Rightarrow> 'a list \<Rightarrow> ('a \<Rightarrow> 's \<Rightarrow> 'r fn_outcome \<times> 's) \<Rightarrow> 's
   \<Rightarrow> ('r option list \<times> go_error list \<times> 's) option" where
  "ParallelMap events concurrency items fn s =
     (if items = [] then Some ([], [], s)
      else case complete_run (map_task fn items) (if concurrency \<le> 0 then 10 else concurrency) (length items) events
          \<lparr>mw_results = replicate (length items) None, mw_errs = replicate (length items) None, mw_remote = s\<rparr> of
        None \<Rightarrow> None
      | Some (p, w) \<Rightarrow>
          (let errs = reject_slots (wp_cancelled p) (rejected_by events) (mw_errs w) in
           if list_all (\<lambda>e. e = None) errs \<and> pool_Errors p = [] then Some (mw_results w, [], mw_remote w)
           else Some (mw_results w, collect_errors errs (pool_Errors p), mw_remote w)))"

subsection \<open>Reachable states and the pool invariant\<close>

inductive pool_reachable :: "(nat \<Rightarrow> 'x \<Rightarrow> task_outcome \<times> 'x) \<Rightarrow> pool \<times> 'x \<Rightarrow> pool \<times> 'x \<Rightarrow> bool"
  for run st0 where
  reach_init: "pool_reachable run st0 st0"
| reach_event: "pool_reachable run st0 st \<Longrightarrow> pool_step run e st = Some st' \<Longrightarrow> pool_reachable run st0 st'"

lemma pool_run_reachable:
  "pool_reachable run st0 st \<Longrightarrow> pool_run run es st = Some st' \<Longrightarrow> pool_reachable run st0 st'"
  by (induction es arbitrary: st) (auto split: option.splits intro: reach_event)

lemma pool_run_append:
  "pool_run run (as @ bs) st = (case pool_run run as st of None \<Rightarrow> None | Some st' \<Rightarrow> pool_run run bs st')"
  by (induction as arbitrary: st) (auto split: option.splits)

primrec held :: "worker \<Rightarrow> nat list" where
  "held Idle = []" | "held (Taken t) = [t]" | "held (Running t) = [t]" | "held Exited = []"

definition held_tasks :: "pool \<Rightarrow> nat multiset" where
  "held_tasks p = (\<Sum>w \<leftarrow> wp_workers p. mset (held w))"

lemma held_update:
  "i < length ws \<Longrightarrow> (\<Sum>w \<leftarrow> ws[i := v]. mset (held w)) + mset (held (ws ! i)) =
     (\<Sum>w \<leftarrow> ws. mset (held w)) + mset (held v)"
proof (induction ws arbitrary: i)
  case (Cons w ws)
  then show ?case by (cases i) (auto simp: ac_simps)
qed simp

lemma held_tasks_set_worker:
  assumes "worker_at p i = Some w" and "wp_workers p' = wp_workers p"
  shows "held_tasks (set_worker i v p') + mset (held w) = held_tasks p + mset (held v)"
  using assms held_update [of i "wp_workers p" v]
  by (auto simp: held_tasks_def set_worker_def worker_at_def split: if_splits)

text \<open>The errors of the bodies run so far, in order.\<close>

fun exec_errors :: "(nat \<Rightarrow> 'x \<Rightarrow> task_outcome \<times> 'x) \<Rightarrow> 'x \<Rightarrow> nat list \<Rightarrow> go_error list" where
  "exec_errors run x [] = []"
| "exec_errors run x (t # ts) =
     (case outcome_error (fst (run t x)) of None \<Rightarrow> [] | Some e \<Rightarrow> [e]) @ exec_errors run (snd (run t x)) ts"

definition exec_world :: "(nat \<Rightarrow> 'x \<Rightarrow> task_outcome \<times> 'x) \<Rightarrow> 'x \<Rightarrow> nat list \<Rightarrow> 'x" where
  "exec_world run x ts = foldl (\<lambda>x t. snd (run t x)) x ts"

lemma exec_snoc [simp]:
  "exec_world run x (ts @ [t]) = snd (run t (exec_world run x ts))"
  "exec_world run x [] = x"
  "exec_errors run x (ts @ [t]) =
     exec_errors run x ts @ (case outcome_error (fst (run t (exec_world run x ts))) of None \<Rightarrow> [] | Some e \<Rightarrow> [e])"
  by (simp_all add: exec_world_def) (induction ts arbitrary: x; simp)

definition pool_inv :: "(nat \<Rightarrow> 'x \<Rightarrow> task_outcome \<times> 'x) \<Rightarrow> 'x \<Rightarrow> pool \<times> 'x \<Rightarrow> bool" where
  "pool_inv run x0 st \<longleftrightarrow> (case st of (p, x) \<Rightarrow>
     length (wp_workers p) = wp_concurrency p
     \<and> length (wp_tasks p) \<le> wp_queueSize p
     \<and> mset (wp_submitted p) = mset (wp_tasks p) + held_tasks p + mset (wp_executed p) + mset (wp_skipped p)
     \<and> x = exec_world run x0 (wp_executed p)
     \<and> (Exited \<in> set (wp_workers p) \<longrightarrow> wp_cancelled p \<noteq> None \<or> (wp_closed p \<and> wp_tasks p = []))
     \<and> (wp_cancelled p = None \<longrightarrow> wp_skipped p = [] \<and> wp_errors p = exec_errors run x0 (wp_executed p)))"

lemma recordError_simps [simp]:
  "wp_concurrency (recordError e p) = wp_concurrency p" "wp_queueSize (recordError e p) = wp_queueSize p"
  "wp_tasks (recordError e p) = wp_tasks p" "wp_workers (recordError e p) = wp_workers p"
  "wp_cancelled (recordError e p) = wp_cancelled p" "wp_closed (recordError e p) = wp_closed p"
  "wp_submitted (recordError e p) = wp_submitted p" "wp_executed (recordError e p) = wp_executed p"
  "wp_skipped (recordError e p) = wp_skipped p"
  "wp_errors (recordError e p) = wp_errors p @ (case e of None \<Rightarrow> [] | Some e \<Rightarrow> [e])"
  by (simp_all add: recordError_def split: option.splits)

lemma set_worker_simps [simp]:
  "wp_concurrency (set_worker i w p) = wp_concurrency p" "wp_queueSize (set_worker i w p) = wp_queueSize p"
  "wp_tasks (set_worker i w p) = wp_tasks p" "wp_workers (set_worker i w p) = (wp_workers p)[i := w]"
  "wp_cancelled (set_worker i w p) = wp_cancelled p" "wp_closed (set_worker i w p) = wp_closed p"
  "wp_submitted (set_worker i w p) = wp_submitted p" "wp_executed (set_worker i w p) = wp_executed p"
  "wp_skipped (set_worker i w p) = wp_skipped p" "wp_errors (set_worker i w p) = wp_errors p"
  by (simp_all add: set_worker_def)

lemma held_tasks_recordError [simp]: "held_tasks (recordError e p) = held_tasks p"
  by (simp add: held_tasks_def)

lemma held_tasks_cong: "wp_workers p' = wp_workers p \<Longrightarrow> held_tasks p' = held_tasks p"
  by (simp add: held_tasks_def)

lemma Exited_update: "Exited \<in> set (ws[i := w]) \<Longrightarrow> w \<noteq> Exited \<Longrightarrow> Exited \<in> set ws"
  using set_update_subset_insert [of ws i w] by auto

lemma pool_inv_step:
  assumes "pool_inv run x0 st" and "pool_step run e st = Some st'"
  shows "pool_inv run x0 st'"
proof -
  obtain p x where st: "st = (p, x)" by (cases st)
  note inv = assms(1) [unfolded st pool_inv_def prod.case]
  show ?thesis
  proof (cases e)
    case (PTake i)
    with assms(2) st obtain t ts where w: "worker_at p i = Some Idle" and ts: "wp_tasks p = t # ts"
      and st': "st' = (set_worker i (Taken t) (p\<lparr>wp_tasks := ts\<rparr>), x)"
      by (auto split: option.splits worker.splits list.splits)
    have "held_tasks (set_worker i (Taken t) (p\<lparr>wp_tasks := ts\<rparr>)) = add_mset t (held_tasks p)"
      using held_tasks_set_worker [OF w, of "p\<lparr>wp_tasks := ts\<rparr>" "Taken t"] by simp
    then show ?thesis using inv ts by (auto simp: st' pool_inv_def dest: Exited_update)
  next
    case (PSkip i)
    with assms(2) st obtain t where w: "worker_at p i = Some (Taken t)" and c: "wp_cancelled p \<noteq> None"
      and st': "st' = (recordError (wp_cancelled p) (set_worker i Idle (p\<lparr>wp_skipped := wp_skipped p @ [t]\<rparr>)), x)"
      by (auto split: option.splits worker.splits if_splits)
    have "add_mset t (held_tasks (set_worker i Idle (p\<lparr>wp_skipped := wp_skipped p @ [t]\<rparr>))) = held_tasks p"
      using held_tasks_set_worker [OF w, of "p\<lparr>wp_skipped := wp_skipped p @ [t]\<rparr>" Idle] by simp
    then show ?thesis using inv c by (auto simp: st' pool_inv_def dest: Exited_update)
  next
    case (PStart i)
    with assms(2) st obtain t where w: "worker_at p i = Some (Taken t)"
      and st': "st' = (set_worker i (Running t) p, x)"
      by (auto split: option.splits worker.splits if_splits)
    have "held_tasks (set_worker i (Running t) p) = held_tasks p"
      using held_tasks_set_worker [OF w refl, of "Running t"] by simp
    then show ?thesis using inv by (auto simp: st' pool_inv_def dest: Exited_update)
  next
    case (PFinish i)
    with assms(2) st obtain t where w: "worker_at p i = Some (Running t)"
      and st': "st' = (recordError (outcome_error (fst (run t x)))
                  (set_worker i Idle (p\<lparr>wp_executed := wp_executed p @ [t]\<rparr>)), snd (run t x))"
      by (auto split: option.splits worker.splits)
    have "add_mset t (held_tasks (set_worker i Idle (p\<lparr>wp_executed := wp_executed p @ [t]\<rparr>))) = held_tasks p"
      using held_tasks_set_worker [OF w, of "p\<lparr>wp_executed := wp_executed p @ [t]\<rparr>" Idle] by simp
    then show ?thesis using inv by (auto simp: st' pool_inv_def dest: Exited_update)
  next
    case (PExit i)
    with assms(2) st have w: "worker_at p i = Some Idle" and c: "wp_cancelled p \<noteq> None \<or> (wp_closed p \<and> wp_tasks p = [])"
      and st': "st' = (set_worker i Exited p, x)"
      by (auto split: if_splits)
    have "held_tasks (set_worker i Exited p) = held_tasks p"
      using held_tasks_set_worker [OF w refl, of Exited] by simp
    then show ?thesis using inv c by (auto simp: st' pool_inv_def)
  qed (use assms(2) inv st in
      \<open>auto simp: pool_inv_def enqueue_def recordError_def cong: held_tasks_cong split: if_splits option.splits\<close>)
qed

lemma pool_inv_New: "pool_inv run x (NewWorkerPool concurrency opts, x)"
proof -
  have "(\<Sum>w \<leftarrow> replicate n Idle. mset (held w)) = {#}" for n by (induction n) simp_all
  then show ?thesis
    by (auto simp: pool_inv_def NewWorkerPool_def Let_def held_tasks_def split: prod.splits)
qed

lemma pool_inv_reachable:
  "pool_reachable run (NewWorkerPool concurrency opts, x0) st \<Longrightarrow> pool_inv run x0 st"
  by (induction rule: pool_reachable.induct) (auto intro: pool_inv_New pool_inv_step)

lemma pool_step_concurrency: "pool_step run e (p, x) = Some (p', x') \<Longrightarrow> wp_concurrency p' = wp_concurrency p"
  by (cases e) (auto simp: enqueue_def split: if_splits option.splits worker.splits list.splits)

lemma pool_reachable_concurrency:
  "pool_reachable run st0 st \<Longrightarrow> wp_concurrency (fst st) = wp_concurrency (fst st0)"
proof (induction rule: pool_reachable.induct)
  case (reach_event st e st')
  then show ?case by (cases st; cases st') (auto dest: pool_step_concurrency)
qed simp

lemma options_concurrency:
  "0 < fst cq \<Longrightarrow> 0 < fst (foldl (\<lambda>cq opt. apply_pool_option opt cq) cq opts)"
proof (induction opts arbitrary: cq)
  case (Cons opt opts)
  then show ?case by (cases opt) auto
qed simp

lemma NewWorkerPool_concurrency: "0 < wp_concurrency (NewWorkerPool concurrency opts)"
  using options_concurrency [of "(if concurrency \<le> 0 then 10 else concurrency, (if concurrency \<le> 0 then 10 else concurrency) * 4)" opts]
  by (auto simp: NewWorkerPool_def Let_def split: prod.splits)

lemma held_tasks_exited: "all_exited p \<Longrightarrow> held_tasks p = {#}"
proof -
  have "list_all (\<lambda>w. w = Exited) ws \<Longrightarrow> (\<Sum>w \<leftarrow> ws. mset (held w)) = {#}" for ws by (induction ws) auto
  then show "all_exited p \<Longrightarrow> held_tasks p = {#}" by (simp add: all_exited_def held_tasks_def)
qed

lemma pool_drained:
  assumes "pool_reachable run (NewWorkerPool concurrency opts, x0) (p, x)" and "all_exited p" and "wp_cancelled p = None"
  shows "wp_tasks p = [] \<and> mset (wp_executed p) = mset (wp_submitted p)
    \<and> x = exec_world run x0 (wp_executed p) \<and> wp_errors p = exec_errors run x0 (wp_executed p)"
proof -
  have inv: "pool_inv run x0 (p, x)" using assms(1) by (rule pool_inv_reachable)
  have "0 < wp_concurrency p"
    using pool_reachable_concurrency [OF assms(1)] NewWorkerPool_concurrency by simp
  then have "Exited \<in> set (wp_workers p)"
    using inv assms(2) by (cases "wp_workers p") (auto simp: pool_inv_def all_exited_def)
  then show ?thesis using inv assms(3) held_tasks_exited [OF assms(2)] by (auto simp: pool_inv_def)
qed

subsection \<open>Progress\<close>

text \<open>The steps of the worker goroutines, and how much work is left for them.\<close>

primrec worker_event :: "pool_event \<Rightarrow> bool" where
  "worker_event (PSubmit t) = False" | "worker_event (PReject t) = False" | "worker_event (PTake i) = True"
| "worker_event (PSkip i) = True" | "worker_event (PStart i) = True" | "worker_event (PFinish i) = True"
| "worker_event (PExit i) = True" | "worker_event PClose = False" | "worker_event (PCancel e) = False"

primrec worker_work :: "worker \<Rightarrow> nat" where
  "worker_work Idle = 1" | "worker_work (Taken t) = 3" | "worker_work (Running t) = 2" | "worker_work Exited = 0"

definition pool_work :: "pool \<Rightarrow> nat" where
  "pool_work p = 3 * length (wp_tasks p) + sum_list (map worker_work (wp_workers p))"

lemma work_update:
  "i < length ws \<Longrightarrow> sum_list (map worker_work (ws[i := v])) + worker_work (ws ! i) =
     sum_list (map worker_work ws) + worker_work v"
proof (induction ws arbitrary: i)
  case (Cons w ws)
  then show ?case by (cases i) auto
qed simp

lemma pool_work_set_worker:
  assumes "worker_at p i = Some w" and "wp_workers p' = wp_workers p"
  shows "pool_work (set_worker i v p') + worker_work w + 3 * length (wp_tasks p) =
    pool_work p + worker_work v + 3 * length (wp_tasks p')"
  using assms work_update [of i "wp_workers p" v]
  by (auto simp: pool_work_def worker_at_def split: if_splits)

lemma pool_work_recordError [simp]: "pool_work (recordError e p) = pool_work p"
  by (simp add: pool_work_def)

lemma worker_event_decreases:
  assumes "worker_event e" and "pool_step run e (p, x) = Some (p', x')"
  shows "pool_work p' < pool_work p"
proof (cases e)
  case (PTake i)
  with assms(2) obtain t ts where w: "worker_at p i = Some Idle" and ts: "wp_tasks p = t # ts"
    and p': "p' = set_worker i (Taken t) (p\<lparr>wp_tasks := ts\<rparr>)"
    by (auto split: option.splits worker.splits list.splits)
  show ?thesis using pool_work_set_worker [OF w, of "p\<lparr>wp_tasks := ts\<rparr>" "Taken t"] by (simp add: p' ts)
next
  case (PSkip i)
  with assms(2) obtain t where w: "worker_at p i = Some (Taken t)"
    and p': "p' = recordError (wp_cancelled p) (set_worker i Idle (p\<lparr>wp_skipped := wp_skipped p @ [t]\<rparr>))"
    by (auto split: option.splits worker.splits if_splits)
  show ?thesis using pool_work_set_worker [OF w, of "p\<lparr>wp_skipped := wp_skipped p @ [t]\<rparr>" Idle] by (simp add: p')
next
  case (PStart i)
  with assms(2) obtain t where w: "worker_at p i = Some (Taken t)" and p': "p' = set_worker i (Running t) p"
    by (auto split: option.splits worker.splits if_splits)
  show ?thesis using pool_work_set_worker [OF w refl, of "Running t"] by (simp add: p')
next
  case (PFinish i)
  with assms(2) obtain t e where w: "worker_at p i = Some (Running t)"
    and p': "p' = recordError e (set_worker i Idle (p\<lparr>wp_executed := wp_executed p @ [t]\<rparr>))"
    by (auto split: option.splits worker.splits)
  show ?thesis using pool_work_set_worker [OF w, of "p\<lparr>wp_executed := wp_executed p @ [t]\<rparr>" Idle] by (simp add: p')
next
  case (PExit i)
  with assms(2) have w: "worker_at p i = Some Idle" and p': "p' = set_worker i Exited p" by (auto split: if_splits)
  show ?thesis using pool_work_set_worker [OF w refl, of Exited] by (simp add: p')
qed (use assms in auto)

lemma worker_enabled:
  assumes "\<not> all_exited p" and "wp_closed p \<or> wp_cancelled p \<noteq> None"
  shows "\<exists>e st'. worker_event e \<and> pool_step run e (p, x) = Some st'"
proof -
  from assms(1) obtain i where i: "i < length (wp_workers p)" "wp_workers p ! i \<noteq> Exited"
    by (auto simp: all_exited_def list_all_length)
  then have w: "worker_at p i = Some (wp_workers p ! i)" by (simp add: worker_at_def)
  show ?thesis
  proof (cases "wp_workers p ! i")
    case Idle
    show ?thesis
    proof (cases "wp_tasks p")
      case Nil
      then show ?thesis using w Idle assms(2) by (intro exI [of _ "PExit i"]) auto
    next
      case (Cons t ts)
      then show ?thesis using w Idle by (intro exI [of _ "PTake i"]) simp
    qed
  next
    case (Taken t)
    show ?thesis
    proof (cases "wp_cancelled p")
      case None
      then show ?thesis using w Taken by (intro exI [of _ "PStart i"]) simp
    next
      case (Some e)
      then show ?thesis using w Taken by (intro exI [of _ "PSkip i"]) simp
    qed
  next
    case (Running t)
    then show ?thesis using w by (intro exI [of _ "PFinish i"]) simp
  qed (use i in simp)
qed

lemma pool_step_closed:
  "worker_event e \<Longrightarrow> pool_step run e (p, x) = Some (p', x') \<Longrightarrow>
     wp_closed p' = wp_closed p \<and> wp_cancelled p' = wp_cancelled p"
  by (cases e) (auto split: option.splits worker.splits list.splits if_splits)

lemma pool_finishes:
  "wp_closed p \<or> wp_cancelled p \<noteq> None \<Longrightarrow>
     \<exists>es p' x'. list_all worker_event es \<and> pool_run run es (p, x) = Some (p', x') \<and> all_exited p'
       \<and> wp_closed p' = wp_closed p \<and> wp_cancelled p' = wp_cancelled p"
proof (induction "pool_work p" arbitrary: p x rule: less_induct)
  case less
  show ?case
  proof (cases "all_exited p")
    case True
    then show ?thesis by (intro exI [of _ "[]"]) simp
  next
    case False
    then obtain e p1 x1 where e: "worker_event e" "pool_step run e (p, x) = Some (p1, x1)"
      using worker_enabled [OF _ less.prems, of run x] by auto
    note same = pool_step_closed [OF e]
    obtain es p' x' where "list_all worker_event es" "pool_run run es (p1, x1) = Some (p', x')" "all_exited p'"
      "wp_closed p' = wp_closed p1" "wp_cancelled p' = wp_cancelled p1"
      using less.hyps [OF worker_event_decreases [OF e], of x1] less.prems same by auto
    then show ?thesis using e same by (intro exI [of _ "e # es"]) simp
  qed
qed

subsection \<open>Properties\<close>

text \<open>
  Property C25. In every reachable state of a pool no more tasks are in flight than there are workers,
  the queue never exceeds its capacity, and no task is lost or duplicated: every submitted task
  is in exactly one of the queue, a worker, the executed or the skipped tasks.
\<close>

theorem pool_conservation:
  assumes "pool_reachable run (NewWorkerPool concurrency opts, x0) (p, x)"
  shows "size (held_tasks p) \<le> wp_concurrency (NewWorkerPool concurrency opts)
    \<and> length (wp_tasks p) \<le> wp_queueSize p
    \<and> mset (wp_submitted p) = mset (wp_tasks p) + held_tasks p + mset (wp_executed p) + mset (wp_skipped p)"
proof -
  have inv: "pool_inv run x0 (p, x)" using assms by (rule pool_inv_reachable)
  have "size (\<Sum>w \<leftarrow> ws. mset (held w)) \<le> length ws" for ws
  proof (induction ws)
    case (Cons w ws)
    then show ?case by (cases w) auto
  qed simp
  from this [of "wp_workers p"] have "size (held_tasks p) \<le> wp_concurrency p"
    using inv by (simp add: held_tasks_def pool_inv_def)
  then show ?thesis using inv pool_reachable_concurrency [OF assms] by (simp add: pool_inv_def)
qed

theorem pool_conservation_witness:
  "size (held_tasks (NewWorkerPool 3 [])) \<le> 3"
  using pool_conservation [OF reach_init, of 3 "[]"]
  by (simp add: NewWorkerPool_def)

text \<open>
  Property C26. \<^verbatim>\<open>Close\<close> returns: once the queue is closed or the context is done, the workers cannot run
  for more than \<open>pool_work\<close> steps, and while one of them has not returned, some worker can take a
  step (task bodies being assumed to return).
\<close>

theorem pool_close_terminates:
  assumes "wp_closed p \<or> wp_cancelled p \<noteq> None"
  shows "(\<forall>es st'. list_all worker_event es \<and> pool_run run es (p, x) = Some st' \<longrightarrow> length es \<le> pool_work p)
    \<and> (all_exited p \<or> (\<exists>e st'. worker_event e \<and> pool_step run e (p, x) = Some st'))"
proof
  have "list_all worker_event es \<Longrightarrow> pool_run run es (p, x) = Some st' \<Longrightarrow> length es \<le> pool_work p" for es st' p x
  proof (induction es arbitrary: p x)
    case (Cons e es)
    then obtain p1 x1 where s: "pool_step run e (p, x) = Some (p1, x1)" and "length es \<le> pool_work p1"
      by (auto split: option.splits)
    then show ?case using worker_event_decreases [OF _ s] Cons.prems by simp
  qed simp
  then show "\<forall>es st'. list_all worker_event es \<and> pool_run run es (p, x) = Some st' \<longrightarrow> length es \<le> pool_work p" by blast
  show "all_exited p \<or> (\<exists>e st'. worker_event e \<and> pool_step run e (p, x) = Some st')"
    using worker_enabled [OF _ assms, of run x] by blast
qed

theorem pool_close_terminates_witness:
  "\<exists>e st'. worker_event e \<and> pool_step (\<lambda>_ x. (Returned None, x)) e (NewWorkerPool 2 []\<lparr>wp_closed := True\<rparr>, ()) = Some st'"
  using pool_close_terminates [of "NewWorkerPool 2 []\<lparr>wp_closed := True\<rparr>" "\<lambda>_ x. (Returned None, x)" "()"]
  by (simp add: all_exited_def NewWorkerPool_def numeral_2_eq_2)

subsection \<open>ParallelMap\<close>

definition map_start :: "nat \<Rightarrow> 's \<Rightarrow> ('r, 's) map_world" where
  "map_start n s = \<lparr>mw_results = replicate n None, mw_errs = replicate n None, mw_remote = s\<rparr>"

definition uncancelled :: "pool_event list \<Rightarrow> bool" where
  "uncancelled events \<longleftrightarrow> (\<forall>e. PCancel e \<notin> set events)"

lemma pool_step_cancelled:
  "pool_step run e (p, x) = Some (p', x') \<Longrightarrow> wp_cancelled p = None \<Longrightarrow> (\<forall>err. e \<noteq> PCancel err) \<Longrightarrow> wp_cancelled p' = None"
  by (cases e) (auto simp: enqueue_def split: if_splits option.splits worker.splits list.splits)

lemma pool_run_uncancelled:
  "pool_run run es (p, x) = Some (p', x') \<Longrightarrow> wp_cancelled p = None \<Longrightarrow> uncancelled es \<Longrightarrow>
     wp_cancelled p' = None \<and> rejected_by es = [] \<and> wp_submitted p' = wp_submitted p @ submitted_by es"
proof (induction es arbitrary: p x)
  case (Cons e es)
  then obtain p1 x1 where s: "pool_step run e (p, x) = Some (p1, x1)" and r: "pool_run run es (p1, x1) = Some (p', x')"
    by (auto split: option.splits)
  have c: "wp_cancelled p1 = None" using pool_step_cancelled [OF s] Cons.prems by (auto simp: uncancelled_def)
  have IH: "wp_cancelled p' = None \<and> rejected_by es = [] \<and> wp_submitted p' = wp_submitted p1 @ submitted_by es"
    using Cons.IH [OF r c] Cons.prems by (auto simp: uncancelled_def)
  show ?case
    using s IH Cons.prems
    by (cases e) (auto simp: enqueue_def split: if_splits option.splits worker.splits list.splits)
qed simp

lemma complete_run_uncancelled:
  assumes "complete_run run c n events x = Some (p, x')" and "uncancelled events"
  shows "wp_cancelled p = None \<and> rejected_by events = [] \<and> mset (wp_executed p) = mset [0..<n]
    \<and> x' = exec_world run x (wp_executed p) \<and> wp_errors p = exec_errors run x (wp_executed p)"
proof -
  let ?p0 = "NewWorkerPool c [WithQueueSize (int n)]"
  from assms(1) have r: "pool_run run events (?p0, x) = Some (p, x')" and ex: "all_exited p"
    and sub: "submitted_by events = [0..<n]"
    by (auto simp: complete_run_def split: option.splits if_splits)
  have p0: "wp_cancelled ?p0 = None" "wp_submitted ?p0 = []"
    by (simp_all add: NewWorkerPool_def Let_def split: prod.splits)
  note u = pool_run_uncancelled [OF r p0(1) assms(2)]
  have reach: "pool_reachable run (?p0, x) (p, x')" using r by (rule pool_run_reachable [OF reach_init])
  from pool_drained [OF reach ex] u p0 sub show ?thesis by simp
qed

lemma add_missing_errors_extends: "\<exists>more. add_missing_errors es ps = es @ more"
  by (induction es ps rule: add_missing_errors.induct) auto

lemma collect_errors_Nil: "collect_errors errs ps = [] \<longleftrightarrow> list_all (\<lambda>e. e = None) errs \<and> ps = []"
proof -
  have "List.map_filter id errs = [] \<longleftrightarrow> list_all (\<lambda>e. e = None) errs"
    by (induction errs) (auto simp: map_filter_simps split: option.splits)
  moreover have "add_missing_errors es ps = [] \<longleftrightarrow> es = [] \<and> ps = []" for es
  proof (cases ps)
    case (Cons q qs)
    obtain m1 m2 where "add_missing_errors es qs = es @ m1" "add_missing_errors (es @ [q]) qs = (es @ [q]) @ m2"
      using add_missing_errors_extends by blast
    then show ?thesis using Cons by auto
  qed simp
  ultimately show ?thesis by (auto simp: collect_errors_def)
qed

text \<open>A slot of the result slice is filled only by a body that returned without error.\<close>

lemma map_task_slot:
  assumes "\<And>s. \<exists>res e s'. fn (items ! i) s = (FnReturned res (Some e), s')"
    and "mw_results w ! i = None"
  shows "mw_results (snd (map_task fn items t w)) ! i = None"
proof (cases "t = i")
  case True
  then show ?thesis using assms(1) [of "mw_remote w"] assms(2) by (auto simp: map_task_def)
next
  case False
  then show ?thesis using assms(2) by (auto simp: map_task_def split: fn_outcome.splits option.splits prod.splits)
qed

lemma exec_world_slot:
  assumes "\<And>s. \<exists>res e s'. fn (items ! i) s = (FnReturned res (Some e), s')" and "mw_results w ! i = None"
  shows "mw_results (exec_world (map_task fn items) w ts) ! i = None"
  using assms(2) by (induction ts rule: rev_induct) (simp_all add: map_task_slot [of fn, OF assms(1)])

lemma complete_run_world:
  "complete_run run c n events x = Some (p, x') \<Longrightarrow> \<exists>ts. x' = exec_world run x ts"
  using pool_inv_reachable [OF pool_run_reachable [OF reach_init]]
  by (fastforce simp: complete_run_def pool_inv_def split: option.splits if_splits)

lemma map_task_length [simp]: "length (mw_results (snd (map_task fn items t w))) = length (mw_results w)"
  by (simp add: map_task_def split: fn_outcome.splits option.splits prod.splits)

lemma exec_world_length [simp]: "length (mw_results (exec_world (map_task fn items) w ts)) = length (mw_results w)"
  by (induction ts rule: rev_induct) simp_all

lemma map_task_origin:
  "mw_results (snd (map_task fn items t w)) ! i = Some r \<Longrightarrow> i < length (mw_results w) \<Longrightarrow>
     mw_results w ! i = Some r \<or> (\<exists>s s'. t = i \<and> fn (items ! i) s = (FnReturned r None, s'))"
  by (cases "t = i") (auto simp: map_task_def split: fn_outcome.splits option.splits prod.splits)

text \<open>Every filled slot holds what the function returned, without error, for its item.\<close>

lemma exec_world_origin:
  assumes "mw_results (exec_world (map_task fn items) w ts) ! i = Some r" and "i < length (mw_results w)"
    and "mw_results w ! i = None"
  shows "\<exists>s s'. fn (items ! i) s = (FnReturned r None, s')"
  using assms(1)
proof (induction ts rule: rev_induct)
  case (snoc t ts)
  then show ?case using map_task_origin [of fn items t "exec_world (map_task fn items) w ts" i r] assms(2) by auto
qed (use assms(3) in simp)

lemma exec_world_filled:
  assumes "exec_errors (map_task fn items) w ts = []" and "i \<in> set ts" and "i < length (mw_results w)"
  shows "mw_results (exec_world (map_task fn items) w ts) ! i \<noteq> None"
  using assms(1,2)
proof (induction ts rule: rev_induct)
  case (snoc t ts)
  let ?w = "exec_world (map_task fn items) w ts"
  have ok: "outcome_error (fst (map_task fn items t ?w)) = None" and prev: "exec_errors (map_task fn items) w ts = []"
    using snoc.prems(1) by (auto split: option.splits)
  obtain r s' where fn: "fn (items ! t) (mw_remote ?w) = (FnReturned r None, s')"
    using ok by (auto simp: map_task_def outcome_error_def split: fn_outcome.splits option.splits prod.splits)
  then have step: "snd (map_task fn items t ?w) = ?w\<lparr>mw_results := (mw_results ?w)[t := Some r], mw_remote := s'\<rparr>"
    by (simp add: map_task_def [of fn items t ?w])
  show ?case
    unfolding exec_snoc step
    using snoc.IH [OF prev] snoc.prems(2) assms(3) by (cases "t = i") auto
qed simp

lemma ParallelMap_world:
  assumes "ParallelMap events c items fn s = Some (results, errs, s')"
  shows "\<exists>ts w. w = exec_world (map_task fn items) (map_start (length items) s) ts \<and> results = mw_results w \<and> s' = mw_remote w"
proof (cases "items = []")
  case True
  then show ?thesis using assms by (intro exI [of _ "[]"]) (simp add: ParallelMap_def map_start_def)
next
  case False
  with assms obtain p w where "complete_run (map_task fn items) (if c \<le> 0 then 10 else c) (length items) events
      (map_start (length items) s) = Some (p, w)" and "results = mw_results w" "s' = mw_remote w"
    by (auto simp: ParallelMap_def map_start_def Let_def split: option.splits if_splits)
  then show ?thesis using complete_run_world by fastforce
qed

lemma ParallelMap_slot:
  assumes "ParallelMap events c items fn s = Some (results, errs, s')"
  shows "length results = length items
    \<and> (i < length items \<longrightarrow> results ! i = Some r \<longrightarrow> (\<exists>s s'. fn (items ! i) s = (FnReturned r None, s')))"
proof -
  obtain ts where res: "results = mw_results (exec_world (map_task fn items) (map_start (length items) s) ts)"
    using ParallelMap_world [OF assms(1)] by blast
  then show ?thesis
    using exec_world_origin [of fn items "map_start (length items) s" ts i r] by (auto simp: map_start_def)
qed

lemma ParallelMap_origin:
  assumes "ParallelMap events c items fn s = Some (results, errs, s')" and "Some r \<in> set results"
  shows "\<exists>item \<in> set items. \<exists>s s'. fn item s = (FnReturned r None, s')"
proof -
  obtain ts where res: "results = mw_results (exec_world (map_task fn items) (map_start (length items) s) ts)"
    using ParallelMap_world [OF assms(1)] by blast
  obtain i where i: "i < length results" "results ! i = Some r" using assms(2) by (auto simp: in_set_conv_nth)
  have len: "length results = length items" by (simp add: res map_start_def)
  show ?thesis
    using exec_world_origin [of fn items "map_start (length items) s" ts i r] i len
    by (auto simp: res map_start_def intro!: bexI [of _ "items ! i"])
qed

text \<open>What every state of the remote keeps under the function is kept by the whole map.\<close>

lemma ParallelMap_remote_inv:
  assumes "ParallelMap events c items fn s = Some (results, errs, s')" and "Q s"
    and "\<And>item s. Q s \<Longrightarrow> Q (snd (fn item s))"
  shows "Q s'"
proof -
  have "Q (mw_remote (exec_world (map_task fn items) (map_start (length items) s) ts))" for ts
  proof (induction ts rule: rev_induct)
    case (snoc t ts)
    let ?w = "exec_world (map_task fn items) (map_start (length items) s) ts"
    have "mw_remote (snd (map_task fn items t ?w)) = snd (fn (items ! t) (mw_remote ?w))"
      by (simp add: map_task_def [of fn items t ?w] split: fn_outcome.splits option.splits prod.splits)
    then show ?case using assms(3) [OF snoc.IH, of "items ! t"] by simp
  qed (simp add: map_start_def assms(2))
  then show ?thesis using ParallelMap_world [OF assms(1)] by blast
qed

text \<open>
  Property C4. Without cancellation \<^verbatim>\<open>ParallelMap\<close> runs every item exactly once, in some order chosen
  by the scheduler, and its results and the remote state are those of running the items in that
  order; it reports an error exactly when some item failed or panicked.
\<close>

theorem ParallelMap_exactly_once:
  assumes "ParallelMap events c items fn s = Some (results, errs, s')" and "uncancelled events" and "items \<noteq> []"
  shows "\<exists>order w. mset order = mset [0..<length items]
    \<and> w = exec_world (map_task fn items) (map_start (length items) s) order
    \<and> results = mw_results w \<and> s' = mw_remote w
    \<and> (errs = [] \<longleftrightarrow> exec_errors (map_task fn items) (map_start (length items) s) order = [] \<and> list_all (\<lambda>e. e = None) (mw_errs w))"
proof -
  from assms(1,3) obtain p w where run: "complete_run (map_task fn items) (if c \<le> 0 then 10 else c) (length items) events
      (map_start (length items) s) = Some (p, w)"
    and res: "results = mw_results w" "s' = mw_remote w"
    and errs: "errs = [] \<longleftrightarrow> list_all (\<lambda>e. e = None) (reject_slots (wp_cancelled p) (rejected_by events) (mw_errs w)) \<and> pool_Errors p = []"
    by (auto simp: ParallelMap_def map_start_def Let_def collect_errors_Nil split: option.splits if_splits)
  note u = complete_run_uncancelled [OF run assms(2)]
  show ?thesis
    using u res errs by (intro exI [of _ "wp_executed p"] exI [of _ w]) (auto simp: reject_slots_def pool_Errors_def)
qed

lemma ParallelMap_success:
  assumes "ParallelMap events c items fn s = Some (results, [], s')" and "uncancelled events"
  shows "length results = length items \<and> None \<notin> set results"
proof (cases "items = []")
  case True
  then show ?thesis using assms by (auto simp: ParallelMap_def)
next
  case False
  from assms(1) False obtain p w where run: "complete_run (map_task fn items) (if c \<le> 0 then 10 else c) (length items) events
      (map_start (length items) s) = Some (p, w)" and res: "results = mw_results w" and errs: "pool_Errors p = []"
    by (auto simp: ParallelMap_def map_start_def Let_def collect_errors_Nil split: option.splits if_splits)
  note u = complete_run_uncancelled [OF run assms(2)]
  then have "set (wp_executed p) = {0..<length items}" by (metis atLeastLessThan_upt set_mset_mset)
  then have "results ! i \<noteq> None" if "i < length items" for i
    using exec_world_filled [of fn items "map_start (length items) s" "wp_executed p" i] u errs that
    by (auto simp: res pool_Errors_def map_start_def)
  moreover have "length results = length items" using u by (simp add: res map_start_def)
  ultimately show ?thesis by (metis in_set_conv_nth)
qed

text \<open>
  \<^verbatim>\<open>ParallelMap\<close> discards the value of an item whose function returns a value together
  with an error: whatever the schedule, the slot of that item keeps its zero value.
\<close>

theorem ParallelMap_drops_failed_results:
  assumes "ParallelMap events c items fn s = Some (results, errs, s')" and "i < length items"
    and "\<And>s. \<exists>res e s'. fn (items ! i) s = (FnReturned res (Some e), s')"
  shows "results ! i = None"
proof -
  from assms(1,2) obtain p w where run: "complete_run (map_task fn items) (if c \<le> 0 then 10 else c) (length items) events
      (map_start (length items) s) = Some (p, w)" and res: "results = mw_results w"
    by (auto simp: ParallelMap_def map_start_def Let_def split: option.splits if_splits)
  have "mw_results (map_start (length items) s) ! i = None" using assms(2) by (simp add: map_start_def)
  then show ?thesis using complete_run_world [OF run] res exec_world_slot [of fn items i, OF assms(3)] by auto
qed

text \<open>
  When the context is done before the workers receive a queued item, \<^verbatim>\<open>ParallelMap\<close> may
  return with no error at all although the item was never processed.
\<close>

theorem ParallelMap_cancel_drops_silently:
  "\<exists>events. ParallelMap events 1 [item] fn s = Some ([None], [], s)"
  by (intro exI [of _ "[PSubmit 0, PCancel (Err ''context canceled''), PExit 0, PClose]"])
     (simp add: ParallelMap_def complete_run_def NewWorkerPool_def enqueue_def worker_at_def set_worker_def all_exited_def
        reject_slots_def pool_Errors_def Let_def)

text \<open>
  \<^verbatim>\<open>ParallelMap\<close> completes: for every input some uncancelled schedule runs it to its end
  (and by the termination of the pool no schedule can postpone that forever).
\<close>

theorem ParallelMap_completes:
  "\<exists>events r. uncancelled events \<and> ParallelMap events c items fn s = Some r"
proof (cases "items = []")
  case True
  then show ?thesis by (intro exI [of _ "[]"]) (simp add: ParallelMap_def uncancelled_def)
next
  case False
  define c' where "c' = (if c \<le> 0 then 10 else c)"
  let ?n = "length items" and ?run = "map_task fn items"
  let ?p0 = "NewWorkerPool c' [WithQueueSize (int ?n)]" and ?x = "map_start (length items) s"
  have sub: "pool_run ?run (map PSubmit ts @ [PClose]) (p, x) =
      Some (p\<lparr>wp_tasks := wp_tasks p @ ts, wp_submitted := wp_submitted p @ ts, wp_closed := True\<rparr>, x)"
    if "\<not> wp_closed p" "length (wp_tasks p) + length ts \<le> wp_queueSize p" for ts p x
    using that by (induction ts arbitrary: p) (simp_all add: enqueue_def)
  have p0: "\<not> wp_closed ?p0" "wp_tasks ?p0 = []" "wp_queueSize ?p0 = ?n" "wp_cancelled ?p0 = None"
    using False by (simp_all add: NewWorkerPool_def Let_def)
  define p1 where "p1 = ?p0\<lparr>wp_tasks := [0..<?n], wp_submitted := wp_submitted ?p0 @ [0..<?n], wp_closed := True\<rparr>"
  have r1: "pool_run ?run (map PSubmit [0..<?n] @ [PClose]) (?p0, ?x) = Some (p1, ?x)"
    using sub [of ?p0 "[0..<?n]" ?x] p0 by (simp add: p1_def)
  obtain es p' x' where es: "list_all worker_event es" "pool_run ?run es (p1, ?x) = Some (p', x')" "all_exited p'"
    "wp_closed p'"
    using pool_finishes [of p1 ?run ?x] by (auto simp: p1_def)
  let ?events = "(map PSubmit [0..<?n] @ [PClose]) @ es"
  have "pool_run ?run ?events (?p0, ?x) = Some (p', x')" by (subst pool_run_append) (use r1 es in \<open>simp del: append_assoc\<close>)
  moreover have "submitted_by (as @ es) = submitted_by as" for as
  proof -
    have "submitted_by es = []" using es(1)
    proof (induction es)
      case (Cons e es)
      then show ?case by (cases e) auto
    qed simp
    then show ?thesis by (induction as rule: submitted_by.induct) auto
  qed
  moreover have "submitted_by (map PSubmit ts @ [PClose]) = ts" for ts by (induction ts) auto
  ultimately have "complete_run ?run c' ?n ?events ?x = Some (p', x')"
    using es by (simp add: complete_run_def del: append_assoc)
  moreover have "uncancelled ?events"
    using es(1) by (auto simp: uncancelled_def list_all_iff)
  ultimately show ?thesis
    using False by (intro exI [of _ ?events]) (simp add: ParallelMap_def map_start_def Let_def c'_def [symmetric])
qed

definition ex_events :: "pool_event list" where
  "ex_events = [PSubmit 0, PSubmit 1, PTake 1, PTake 0, PStart 1, PStart 0, PClose, PFinish 0, PFinish 1, PExit 1, PExit 0]"

definition ex_fn :: "nat \<Rightarrow> nat list \<Rightarrow> string fn_outcome \<times> nat list" where
  "ex_fn item s = (if item = 7 then FnReturned ''partial'' (Some (Err ''boom'')) else FnReturned ''ok'' None, s @ [item])"

lemma ex_run: "ParallelMap ex_events 2 [5, 7] ex_fn [] = Some ([Some ''ok'', None], [Err ''boom''], [7, 5])"
  by code_simp

theorem ParallelMap_exactly_once_witness:
  "\<exists>order. mset order = mset [0..<2]
    \<and> [7, 5] = mw_remote (exec_world (map_task ex_fn [5, 7]) (map_start 2 []) order)"
  using ParallelMap_exactly_once [OF ex_run] by (auto simp: ex_events_def uncancelled_def numeral_2_eq_2)

theorem ParallelMap_drops_failed_results_witness: "[Some ''ok'', None] ! 1 = (None :: string option)"
  by (rule ParallelMap_drops_failed_results [OF ex_run]) (simp_all add: ex_fn_def)

end
