(* ===== verification/Metrics.thy ===== *)
theory Metrics
  imports Diff_Model Discovery
begin

section \<open>Execution results and summary metrics\<close>

text \<open>
  The result models of \<^verbatim>\<open>internal/engine/engine.go\<close> and the accumulator of \<^verbatim>\<open>internal/engine/metrics.go\<close>:
  the recording of discovery, target and operation results, and the snapshot. Times and durations
  are left out; counters are natural numbers. A nil element of a slice is \<open>None\<close> where the code
  tests for it.
\<close>

record operation_result =
  or_OperationName :: string
  or_ResourceType :: resource_type
  or_ResourceID :: int
  or_ResourcePath :: string
  or_Action :: action_type
  or_Status :: status_type
  or_HasChanges :: bool
  or_Success :: bool
  or_Diffs :: "diff list"
  or_Details :: string
  or_Error :: "go_error option"

definition OperationResultFromPlan :: "plan_result option \<Rightarrow> operation_result option" where
  "OperationResultFromPlan p =
     (case p of
        None \<Rightarrow> None
      | Some pr \<Rightarrow>
          (let (status, success) =
             (if pr_Error pr \<noteq> None then (StatusFailed, False)
              else if pr_Action pr = ActionNoop then (StatusNoop, True)
              else if pr_Action pr = ActionSkipped then (StatusSkipped, True)
              else (StatusSuccess, True))
           in Some \<lparr>or_OperationName = pr_OperationName pr, or_ResourceType = pr_ResourceType pr,
                    or_ResourceID = pr_ResourceID pr, or_ResourcePath = pr_ResourcePath pr,
                    or_Action = pr_Action pr, or_Status = status, or_HasChanges = pr_HasChanges pr,
                    or_Success = success, or_Diffs = pr_Diffs pr, or_Details = pr_Details pr, or_Error = pr_Error pr\<rparr>))"

definition OperationResultFromApply :: "apply_result option \<Rightarrow> operation_result option" where
  "OperationResultFromApply a =
     (case a of
        None \<Rightarrow> None
      | Some ar \<Rightarrow>
          Some \<lparr>or_OperationName = ar_OperationName ar, or_ResourceType = ar_ResourceType ar,
                or_ResourceID = ar_ResourceID ar, or_ResourcePath = ar_ResourcePath ar,
                or_Action = ar_Action ar, or_Status = ar_Status ar,
                or_HasChanges = (ar_Action ar \<noteq> ActionNoop \<and> ar_Action ar \<noteq> ActionSkipped \<and> length (ar_Diffs ar) > 0),
                or_Success = ar_Success ar, or_Diffs = ar_Diffs ar, or_Details = ar_Details ar, or_Error = ar_Error ar\<rparr>)"

record target_result =
  tr_TargetID :: int
  tr_TargetPath :: string
  tr_TargetName :: string
  tr_ResourceType :: resource_type
  tr_DryRun :: bool
  tr_Success :: bool
  tr_HasChanges :: bool
  tr_Operations :: "operation_result list"
  tr_Error :: "go_error option"

definition ChangedOperations :: "target_result \<Rightarrow> operation_result list" where
  "ChangedOperations tr = filter or_HasChanges (tr_Operations tr)"

definition FailedOperations :: "target_result \<Rightarrow> operation_result list" where
  "FailedOperations tr = filter (\<lambda>op. \<not> or_Success op \<or> or_Error op \<noteq> None) (tr_Operations tr)"

definition TargetResult_Diffs :: "target_result \<Rightarrow> diff list" where
  "TargetResult_Diffs tr = concat (map or_Diffs (tr_Operations tr))"

subsection \<open>Accumulator\<close>

record operation_summary =
  os_OperationName :: string
  os_Total :: nat
  os_Created :: nat
  os_Updated :: nat
  os_Deleted :: nat
  os_Noop :: nat
  os_Audit :: nat
  os_Skipped :: nat
  os_Failed :: nat

record drift_summary =
  ds_TotalDriftFields :: nat
  ds_DriftByAction :: "(action_type, nat) go_map"
  ds_DriftByOperation :: "(string, nat) go_map"
  ds_DriftByResource :: "(string, nat) go_map"
  ds_ChangedResources :: "string list"
  ds_FailedResources :: "string list"

record summary_metrics =
  sm_DryRun :: bool
  sm_ScannedProjects :: nat
  sm_ScannedGroups :: nat
  sm_TotalScanned :: nat
  sm_TargetedProjects :: nat
  sm_TargetedGroups :: nat
  sm_TotalTargeted :: nat
  sm_TotalChanged :: nat
  sm_TotalUnchanged :: nat
  sm_TotalFailed :: nat
  sm_TotalSkipped :: nat
  sm_TotalApplied :: nat
  sm_TotalNoop :: nat
  sm_OperationCounts :: "(string, operation_summary) go_map"
  sm_DriftSummary :: drift_summary

definition NewSummaryMetrics :: "bool \<Rightarrow> summary_metrics" where
  "NewSummaryMetrics dryRun =
     \<lparr>sm_DryRun = dryRun, sm_ScannedProjects = 0, sm_ScannedGroups = 0, sm_TotalScanned = 0,
      sm_TargetedProjects = 0, sm_TargetedGroups = 0, sm_TotalTargeted = 0, sm_TotalChanged = 0,
      sm_TotalUnchanged = 0, sm_TotalFailed = 0, sm_TotalSkipped = 0, sm_TotalApplied = 0, sm_TotalNoop = 0,
      sm_OperationCounts = [],
      sm_DriftSummary = \<lparr>ds_TotalDriftFields = 0, ds_DriftByAction = [], ds_DriftByOperation = [], ds_DriftByResource = [],
                         ds_ChangedResources = [], ds_FailedResources = []\<rparr>\<rparr>"

definition RecordDiscovery :: "target_fleet option \<Rightarrow> summary_metrics \<Rightarrow> summary_metrics" where
  "RecordDiscovery fleet m =
     (case fleet of
        None \<Rightarrow> m
      | Some f \<Rightarrow>
          m\<lparr>sm_ScannedProjects := tf_ScannedProjectsCount f, sm_ScannedGroups := tf_ScannedGroupsCount f,
            sm_TotalScanned := tf_ScannedProjectsCount f + tf_ScannedGroupsCount f,
            sm_TargetedProjects := tf_MatchedProjectsCount f, sm_TargetedGroups := tf_MatchedGroupsCount f,
            sm_TotalTargeted := tf_MatchedProjectsCount f + tf_MatchedGroupsCount f\<rparr>)"

definition incr :: "'k \<Rightarrow> ('k, nat) go_map \<Rightarrow> ('k, nat) go_map" where
  "incr k m = go_put k (Suc (case go_get m k of None \<Rightarrow> 0 | Some n \<Rightarrow> n)) m"

definition op_failed :: "operation_result \<Rightarrow> bool" where
  "op_failed op \<longleftrightarrow> \<not> or_Success op \<or> or_Error op \<noteq> None \<or> or_Status op = StatusFailed"

definition empty_summary :: "string \<Rightarrow> operation_summary" where
  "empty_summary name =
     \<lparr>os_OperationName = name, os_Total = 0, os_Created = 0, os_Updated = 0, os_Deleted = 0, os_Noop = 0,
      os_Audit = 0, os_Skipped = 0, os_Failed = 0\<rparr>"

definition count_operation :: "operation_result \<Rightarrow> operation_summary \<Rightarrow> operation_summary" where
  "count_operation op s0 =
     (let s1 = s0\<lparr>os_Total := Suc (os_Total s0)\<rparr>;
          s = (if op_failed op then s1\<lparr>os_Failed := Suc (os_Failed s1)\<rparr> else s1)
      in case or_Action op of
           ActionCreate \<Rightarrow> s\<lparr>os_Created := Suc (os_Created s)\<rparr>
         | ActionUpdate \<Rightarrow> s\<lparr>os_Updated := Suc (os_Updated s)\<rparr>
         | ActionDelete \<Rightarrow> s\<lparr>os_Deleted := Suc (os_Deleted s)\<rparr>
         | ActionAudit \<Rightarrow> s\<lparr>os_Audit := Suc (os_Audit s)\<rparr>
         | ActionSkipped \<Rightarrow> s\<lparr>os_Skipped := Suc (os_Skipped s)\<rparr>
         | ActionNoop \<Rightarrow> s\<lparr>os_Noop := Suc (os_Noop s)\<rparr>
         | ActionUnset \<Rightarrow> s)"

definition drift_fields :: "diff \<Rightarrow> nat" where
  "drift_fields d = length (d_Fields d) + (if d_Fields d = [] \<and> Diff_HasChanges d then 1 else 0)"

definition count_drift :: "operation_result \<Rightarrow> drift_summary \<Rightarrow> drift_summary" where
  "count_drift op d0 =
     (let d = (if or_Action op \<in> {ActionCreate, ActionUpdate, ActionDelete, ActionAudit}
               then d0\<lparr>ds_DriftByAction := incr (or_Action op) (ds_DriftByAction d0)\<rparr> else d0)
      in if or_HasChanges op then
           d\<lparr>ds_DriftByOperation := incr (or_OperationName op) (ds_DriftByOperation d),
             ds_DriftByResource := incr (or_ResourcePath op) (ds_DriftByResource d),
             ds_TotalDriftFields := ds_TotalDriftFields d + sum_list (map drift_fields (or_Diffs op))\<rparr>
         else d)"

definition recordOperationLocked :: "operation_result \<Rightarrow> summary_metrics \<Rightarrow> summary_metrics" where
  "recordOperationLocked op m =
     (let summary = (case go_get (sm_OperationCounts m) (or_OperationName op) of
                       Some s \<Rightarrow> s | None \<Rightarrow> empty_summary (or_OperationName op))
      in m\<lparr>sm_OperationCounts := go_put (or_OperationName op) (count_operation op summary) (sm_OperationCounts m),
           sm_TotalApplied := sm_TotalApplied m + (if or_Action op \<in> {ActionCreate, ActionUpdate, ActionDelete} then 1 else 0),
           sm_TotalSkipped := sm_TotalSkipped m + (if or_Action op = ActionSkipped then 1 else 0),
           sm_TotalNoop := sm_TotalNoop m + (if or_Action op = ActionNoop then 1 else 0),
           sm_DriftSummary := count_drift op (sm_DriftSummary m)\<rparr>)"

definition RecordOperationResult :: "operation_result option \<Rightarrow> summary_metrics \<Rightarrow> summary_metrics" where
  "RecordOperationResult op m = (case op of None \<Rightarrow> m | Some op \<Rightarrow> recordOperationLocked op m)"

definition record_outcome :: "target_result \<Rightarrow> summary_metrics \<Rightarrow> summary_metrics" where
  "record_outcome tr m =
     (if \<not> tr_Success tr \<or> tr_Error tr \<noteq> None then
        m\<lparr>sm_TotalFailed := Suc (sm_TotalFailed m),
          sm_DriftSummary := (sm_DriftSummary m)\<lparr>ds_FailedResources := ds_FailedResources (sm_DriftSummary m) @ [tr_TargetPath tr]\<rparr>\<rparr>
      else if tr_HasChanges tr then
        m\<lparr>sm_TotalChanged := Suc (sm_TotalChanged m),
          sm_DriftSummary := (sm_DriftSummary m)\<lparr>ds_ChangedResources := ds_ChangedResources (sm_DriftSummary m) @ [tr_TargetPath tr]\<rparr>\<rparr>
      else m\<lparr>sm_TotalUnchanged := Suc (sm_TotalUnchanged m)\<rparr>)"

definition RecordTargetResult :: "target_result option \<Rightarrow> summary_metrics \<Rightarrow> summary_metrics" where
  "RecordTargetResult t m =
     (case t of
        None \<Rightarrow> m
      | Some tr \<Rightarrow> foldl (\<lambda>m op. recordOperationLocked op m) (record_outcome tr m) (tr_Operations tr))"

subsection \<open>Snapshot\<close>

record metrics_snapshot =
  sn_DryRun :: bool
  sn_ScannedProjects :: nat
  sn_ScannedGroups :: nat
  sn_TotalScanned :: nat
  sn_TargetedProjects :: nat
  sn_TargetedGroups :: nat
  sn_TotalTargeted :: nat
  sn_TotalChanged :: nat
  sn_TotalUnchanged :: nat
  sn_TotalFailed :: nat
  sn_TotalSkipped :: nat
  sn_TotalAppliedOperations :: nat
  sn_TotalSkippedOperations :: nat
  sn_TotalFailedOperations :: nat
  sn_OperationCounts :: "(string, operation_summary) go_map"
  sn_DriftSummary :: drift_summary

definition Snapshot :: "summary_metrics \<Rightarrow> metrics_snapshot" where
  "Snapshot m =
     (let ops = map snd (sm_OperationCounts m) in
      \<lparr>sn_DryRun = sm_DryRun m, sn_ScannedProjects = sm_ScannedProjects m, sn_ScannedGroups = sm_ScannedGroups m,
       sn_TotalScanned = sm_TotalScanned m, sn_TargetedProjects = sm_TargetedProjects m,
       sn_TargetedGroups = sm_TargetedGroups m, sn_TotalTargeted = sm_TotalTargeted m,
       sn_TotalChanged = sm_TotalChanged m, sn_TotalUnchanged = sm_TotalUnchanged m,
       sn_TotalFailed = sm_TotalFailed m, sn_TotalSkipped = sm_TotalSkipped m,
       sn_TotalAppliedOperations = sum_list (map (\<lambda>v. os_Created v + os_Updated v + os_Deleted v) ops),
       sn_TotalSkippedOperations = sum_list (map os_Skipped ops),
       sn_TotalFailedOperations = sum_list (map os_Failed ops),
       sn_OperationCounts = sm_OperationCounts m,
       sn_DriftSummary = (sm_DriftSummary m)
         \<lparr>ds_ChangedResources := sort (ds_ChangedResources (sm_DriftSummary m)),
          ds_FailedResources := sort (ds_FailedResources (sm_DriftSummary m))\<rparr>\<rparr>)"

definition record_all :: "target_result list \<Rightarrow> summary_metrics \<Rightarrow> summary_metrics" where
  "record_all trs m = foldl (\<lambda>m tr. RecordTargetResult (Some tr) m) m trs"

subsection \<open>Lemmas\<close>

definition ops_sum :: "(operation_summary \<Rightarrow> nat) \<Rightarrow> summary_metrics \<Rightarrow> nat" where
  "ops_sum g m = sum_list (map (g \<circ> snd) (sm_OperationCounts m))"

lemma sum_update:
  "go_get m k = Some v0 \<or> (go_get m k = None \<and> g v0 = (0::nat)) \<Longrightarrow> go_map_ok m \<Longrightarrow>
     sum_list (map (g \<circ> snd) (go_put k v m)) + g v0 = sum_list (map (g \<circ> snd) m) + g v"
proof (induction m)
  case (Cons a m)
  have "go_map_ok m" using Cons.prems(2) by (simp add: go_map_ok_def)
  with Cons show ?case by (cases a) (auto simp: go_put_def comp_def)
qed (simp add: go_put_def)

lemma ops_sum_record:
  assumes "go_map_ok (sm_OperationCounts m)" and "\<And>name. g (empty_summary name) = 0"
    and "\<And>s. g (count_operation op s) = g s + c"
  shows "ops_sum g (recordOperationLocked op m) = ops_sum g m + c"
proof -
  let ?counts = "sm_OperationCounts m" and ?k = "or_OperationName op"
  let ?s = "case go_get ?counts ?k of Some s \<Rightarrow> s | None \<Rightarrow> empty_summary ?k"
  have "sum_list (map (g \<circ> snd) (go_put ?k (count_operation op ?s) ?counts)) + g ?s =
      sum_list (map (g \<circ> snd) ?counts) + g (count_operation op ?s)"
    using assms(1,2)
    by (intro sum_update) (simp_all split: option.splits)
  then show ?thesis by (simp add: ops_sum_def recordOperationLocked_def Let_def assms(3))
qed

lemma count_operation_counts:
  "os_Failed (count_operation op s) = os_Failed s + (if op_failed op then 1 else 0)"
  "os_Skipped (count_operation op s) = os_Skipped s + (if or_Action op = ActionSkipped then 1 else 0)"
  "os_Total (count_operation op s) = os_Total s + 1"
  "os_Created (count_operation op s) + os_Updated (count_operation op s) + os_Deleted (count_operation op s) =
     os_Created s + os_Updated s + os_Deleted s + (if or_Action op \<in> {ActionCreate, ActionUpdate, ActionDelete} then 1 else 0)"
  by (auto simp: count_operation_def Let_def split: action_type.splits)

lemma recordOperation_ok [simp]:
  "go_map_ok (sm_OperationCounts m) \<Longrightarrow> go_map_ok (sm_OperationCounts (recordOperationLocked op m))"
  by (simp add: recordOperationLocked_def Let_def)

lemma recordOperation_frame [simp]:
  "sm_TotalFailed (recordOperationLocked op m) = sm_TotalFailed m"
  "sm_TotalChanged (recordOperationLocked op m) = sm_TotalChanged m"
  "sm_TotalUnchanged (recordOperationLocked op m) = sm_TotalUnchanged m"
  "sm_TotalTargeted (recordOperationLocked op m) = sm_TotalTargeted m"
  "ds_FailedResources (sm_DriftSummary (recordOperationLocked op m)) = ds_FailedResources (sm_DriftSummary m)"
  "ds_ChangedResources (sm_DriftSummary (recordOperationLocked op m)) = ds_ChangedResources (sm_DriftSummary m)"
  by (simp_all add: recordOperationLocked_def count_drift_def Let_def)

lemma record_outcome_frame [simp]:
  "sm_OperationCounts (record_outcome tr m) = sm_OperationCounts m"
  "sm_TotalApplied (record_outcome tr m) = sm_TotalApplied m"
  "sm_TotalSkipped (record_outcome tr m) = sm_TotalSkipped m"
  "sm_TotalTargeted (record_outcome tr m) = sm_TotalTargeted m"
  by (simp_all add: record_outcome_def)

lemma fold_operations:
  "go_map_ok (sm_OperationCounts m) \<Longrightarrow>
     (let m' = foldl (\<lambda>m op. recordOperationLocked op m) m ops in
      go_map_ok (sm_OperationCounts m')
      \<and> ops_sum os_Total m' = ops_sum os_Total m + length ops
      \<and> ops_sum os_Failed m' = ops_sum os_Failed m + length (filter op_failed ops)
      \<and> ops_sum os_Skipped m' = ops_sum os_Skipped m + length (filter (\<lambda>op. or_Action op = ActionSkipped) ops)
      \<and> ops_sum (\<lambda>v. os_Created v + os_Updated v + os_Deleted v) m' =
          ops_sum (\<lambda>v. os_Created v + os_Updated v + os_Deleted v) m
          + length (filter (\<lambda>op. or_Action op \<in> {ActionCreate, ActionUpdate, ActionDelete}) ops)
      \<and> sm_TotalFailed m' = sm_TotalFailed m \<and> sm_TotalChanged m' = sm_TotalChanged m
      \<and> sm_TotalUnchanged m' = sm_TotalUnchanged m \<and> sm_TotalTargeted m' = sm_TotalTargeted m)"
proof (induction ops arbitrary: m)
  case (Cons op ops)
  have sums:
    "ops_sum os_Total (recordOperationLocked op m) = ops_sum os_Total m + 1"
    "ops_sum os_Failed (recordOperationLocked op m) = ops_sum os_Failed m + (if op_failed op then 1 else 0)"
    "ops_sum os_Skipped (recordOperationLocked op m) = ops_sum os_Skipped m + (if or_Action op = ActionSkipped then 1 else 0)"
    "ops_sum (\<lambda>v. os_Created v + os_Updated v + os_Deleted v) (recordOperationLocked op m) =
       ops_sum (\<lambda>v. os_Created v + os_Updated v + os_Deleted v) m
       + (if or_Action op \<in> {ActionCreate, ActionUpdate, ActionDelete} then 1 else 0)"
    by (rule ops_sum_record [OF Cons.prems]; simp add: empty_summary_def count_operation_counts)+
  show ?case using Cons.IH [of "recordOperationLocked op m"] Cons.prems sums by (simp add: Let_def)
qed (simp add: Let_def)

definition tr_failed :: "target_result \<Rightarrow> bool" where
  "tr_failed tr \<longleftrightarrow> \<not> tr_Success tr \<or> tr_Error tr \<noteq> None"

lemma record_all_counts:
  "go_map_ok (sm_OperationCounts m) \<Longrightarrow>
     (let m' = record_all trs m; ops = concat (map tr_Operations trs) in
      go_map_ok (sm_OperationCounts m')
      \<and> ops_sum os_Total m' = ops_sum os_Total m + length ops
      \<and> ops_sum os_Failed m' = ops_sum os_Failed m + length (filter op_failed ops)
      \<and> ops_sum os_Skipped m' = ops_sum os_Skipped m + length (filter (\<lambda>op. or_Action op = ActionSkipped) ops)
      \<and> ops_sum (\<lambda>v. os_Created v + os_Updated v + os_Deleted v) m' =
          ops_sum (\<lambda>v. os_Created v + os_Updated v + os_Deleted v) m
          + length (filter (\<lambda>op. or_Action op \<in> {ActionCreate, ActionUpdate, ActionDelete}) ops)
      \<and> sm_TotalFailed m' = sm_TotalFailed m + length (filter tr_failed trs)
      \<and> sm_TotalChanged m' = sm_TotalChanged m + length (filter (\<lambda>tr. \<not> tr_failed tr \<and> tr_HasChanges tr) trs)
      \<and> sm_TotalUnchanged m' = sm_TotalUnchanged m + length (filter (\<lambda>tr. \<not> tr_failed tr \<and> \<not> tr_HasChanges tr) trs)
      \<and> sm_TotalTargeted m' = sm_TotalTargeted m)"
proof (induction trs arbitrary: m)
  case (Cons tr trs)
  let ?m1 = "RecordTargetResult (Some tr) m"
  have "ops_sum g (record_outcome tr m) = ops_sum g m" for g by (simp add: ops_sum_def)
  then have m1: "let m' = ?m1; ops = tr_Operations tr in
      go_map_ok (sm_OperationCounts m')
      \<and> ops_sum os_Total m' = ops_sum os_Total m + length ops
      \<and> ops_sum os_Failed m' = ops_sum os_Failed m + length (filter op_failed ops)
      \<and> ops_sum os_Skipped m' = ops_sum os_Skipped m + length (filter (\<lambda>op. or_Action op = ActionSkipped) ops)
      \<and> ops_sum (\<lambda>v. os_Created v + os_Updated v + os_Deleted v) m' =
          ops_sum (\<lambda>v. os_Created v + os_Updated v + os_Deleted v) m
          + length (filter (\<lambda>op. or_Action op \<in> {ActionCreate, ActionUpdate, ActionDelete}) ops)
      \<and> sm_TotalFailed m' = sm_TotalFailed m + (if tr_failed tr then 1 else 0)
      \<and> sm_TotalChanged m' = sm_TotalChanged m + (if \<not> tr_failed tr \<and> tr_HasChanges tr then 1 else 0)
      \<and> sm_TotalUnchanged m' = sm_TotalUnchanged m + (if \<not> tr_failed tr \<and> \<not> tr_HasChanges tr then 1 else 0)
      \<and> sm_TotalTargeted m' = sm_TotalTargeted m"
    using fold_operations [of "record_outcome tr m" "tr_Operations tr"] Cons.prems
    by (simp add: RecordTargetResult_def Let_def) (simp add: record_outcome_def tr_failed_def)
  have "record_all (tr # trs) m = record_all trs ?m1" by (simp add: record_all_def)
  then show ?case using Cons.IH [of ?m1] m1 by (simp add: Let_def)
qed (simp add: record_all_def Let_def)

lemma outcome_partition:
  "length (filter (\<lambda>tr. \<not> tr_failed tr \<and> tr_HasChanges tr) trs)
      + length (filter (\<lambda>tr. \<not> tr_failed tr \<and> \<not> tr_HasChanges tr) trs) + length (filter tr_failed trs) = length trs"
  by (induction trs) auto

text \<open>
  Property C29. The summary is exact: after recording any sequence of target results into fresh
  metrics, the changed, unchanged and failed totals partition the results, and the operation
  totals of the snapshot, summed over the per-operation map, are the numbers of recorded
  operations that created, updated or deleted something, were skipped, or failed.
\<close>

theorem metrics_exact:
  "let snap = Snapshot (record_all trs (NewSummaryMetrics dryRun)); ops = concat (map tr_Operations trs) in
     sn_TotalChanged snap + sn_TotalUnchanged snap + sn_TotalFailed snap = length trs
     \<and> sn_TotalFailed snap = length (filter tr_failed trs)
     \<and> sn_TotalAppliedOperations snap = length (filter (\<lambda>op. or_Action op \<in> {ActionCreate, ActionUpdate, ActionDelete}) ops)
     \<and> sn_TotalSkippedOperations snap = length (filter (\<lambda>op. or_Action op = ActionSkipped) ops)
     \<and> sn_TotalFailedOperations snap = length (filter op_failed ops)
     \<and> sum_list (map (os_Total \<circ> snd) (sn_OperationCounts snap)) = length ops"
  using record_all_counts [of "NewSummaryMetrics dryRun" trs] outcome_partition [of trs]
  by (simp add: NewSummaryMetrics_def Snapshot_def Let_def ops_sum_def comp_def)

end
