(* ===== verification/License.thy ===== *)
theory License
  imports Config_Model
begin

section \<open>License enforcement\<close>

text \<open>
  \<^verbatim>\<open>internal/license/model.go\<close>, \<^verbatim>\<open>verifier.go\<close>, \<^verbatim>\<open>enforcer.go\<close> and the release times of
  \<^verbatim>\<open>pkg/version/version.go\<close>. A \<^verbatim>\<open>time.Time\<close> is the number of nanoseconds since 1970 in UTC, \<open>None\<close> for
  the zero time. The package \<^verbatim>\<open>license-go\<close> (token verification, claims, revocation lists,
  entitlement policies), the file system and the process environment are the record \<open>lic_env\<close>.
  Log output is left out; \<open>fmt_q\<close> is \<^verbatim>\<open>%q\<close> on text without quotes or control characters.
\<close>

type_synonym time = int

subsection \<open>Civil dates\<close>

definition days_from_civil :: "int \<Rightarrow> int \<Rightarrow> int \<Rightarrow> int" where
  "days_from_civil y m d =
     (let y' = (if m \<le> 2 then y - 1 else y); era = y' div 400; yoe = y' - era * 400;
          doy = (153 * (if m > 2 then m - 3 else m + 9) + 2) div 5 + d - 1;
          doe = yoe * 365 + yoe div 4 - yoe div 100 + doy
      in era * 146097 + doe - 719468)"

definition civil_from_days :: "int \<Rightarrow> int \<times> int \<times> int" where
  "civil_from_days z0 =
     (let z = z0 + 719468; era = z div 146097; doe = z - era * 146097;
          yoe = (doe - doe div 1460 + doe div 36524 - doe div 146096) div 365;
          doy = doe - (365 * yoe + yoe div 4 - yoe div 100);
          mp = (5 * doy + 2) div 153;
          d = doy - (153 * mp + 2) div 5 + 1;
          m = (if mp < 10 then mp + 3 else mp - 9)
      in (yoe + era * 400 + (if m \<le> 2 then 1 else 0), m, d))"

definition ns_per_second :: int where "ns_per_second = 1000000000"
definition ns_per_day :: int where "ns_per_day = 86400 * ns_per_second"

text \<open>\<^verbatim>\<open>t.AddDate(years, 0, 0)\<close>: a day that does not exist in the new year runs over into the next month.\<close>

definition AddYears :: "int \<Rightarrow> time \<Rightarrow> time" where
  "AddYears n t =
     (case civil_from_days (t div ns_per_day) of
        (y, m, d) \<Rightarrow> (days_from_civil (y + n) m 1 + d - 1) * ns_per_day + t mod ns_per_day)"

text \<open>\<^verbatim>\<open>t.Format("2006-01-02")\<close>\<close>

definition pad0 :: "nat \<Rightarrow> int \<Rightarrow> string" where
  "pad0 n i = (let s = fmt_d i in replicate (n - length s) (CHR ''0'') @ s)"

definition format_date :: "time \<Rightarrow> string" where
  "format_date t = (case civil_from_days (t div ns_per_day) of
     (y, m, d) \<Rightarrow> pad0 4 y @ ''-'' @ pad0 2 m @ ''-'' @ pad0 2 d)"

text \<open>\<^verbatim>\<open>time.Date(2026, 9, 1, 0, 0, 0, 0, time.UTC)\<close>\<close>

definition ProductGenesisEpoch :: time where
  "ProductGenesisEpoch = days_from_civil 2026 9 1 * ns_per_day"

text \<open>
  \<^verbatim>\<open>time.Parse\<close> with the layouts \<^verbatim>\<open>RFC3339\<close> (whose parser also accepts a fraction of a second, so that
  \<^verbatim>\<open>RFC3339Nano\<close> accepts nothing more) and \<^verbatim>\<open>2006-01-02\<close>.
\<close>

definition num :: "string \<Rightarrow> nat \<Rightarrow> (int \<times> string) option" where
  "num s n =
     (if length s < n \<or> \<not> list_all is_digit (take n s) then None
      else Some (int (undigits (take n s)), drop n s))"

definition lit :: "string \<Rightarrow> char \<Rightarrow> string option" where
  "lit s c = (case s of [] \<Rightarrow> None | x # r \<Rightarrow> if x = c then Some r else None)"

definition days_in_month :: "int \<Rightarrow> int \<Rightarrow> int" where
  "days_in_month y m = days_from_civil (if m = 12 then y + 1 else y) (if m = 12 then 1 else m + 1) 1 - days_from_civil y m 1"

definition parse_date :: "string \<Rightarrow> (int \<times> string) option" where
  "parse_date s =
     (case num s 4 of None \<Rightarrow> None | Some (y, s) \<Rightarrow>
      case lit s (CHR ''-'') of None \<Rightarrow> None | Some s \<Rightarrow>
      case num s 2 of None \<Rightarrow> None | Some (m, s) \<Rightarrow>
      case lit s (CHR ''-'') of None \<Rightarrow> None | Some s \<Rightarrow>
      case num s 2 of None \<Rightarrow> None | Some (d, s) \<Rightarrow>
      if 1 \<le> m \<and> m \<le> 12 \<and> 1 \<le> d \<and> d \<le> days_in_month y m then Some (days_from_civil y m d, s) else None)"

definition parse_clock :: "string \<Rightarrow> (int \<times> string) option" where
  "parse_clock s =
     (case num s 2 of None \<Rightarrow> None | Some (h, s) \<Rightarrow>
      case lit s (CHR '':'') of None \<Rightarrow> None | Some s \<Rightarrow>
      case num s 2 of None \<Rightarrow> None | Some (mi, s) \<Rightarrow>
      case lit s (CHR '':'') of None \<Rightarrow> None | Some s \<Rightarrow>
      case num s 2 of None \<Rightarrow> None | Some (sec, s) \<Rightarrow>
      if h < 24 \<and> mi < 60 \<and> sec < 60 then Some (h * 3600 + mi * 60 + sec, s) else None)"

definition parse_fraction :: "string \<Rightarrow> int \<times> string" where
  "parse_fraction s =
     (case s of
        c # r \<Rightarrow>
          if (c = CHR ''.'' \<or> c = CHR '','') \<and> takeWhile is_digit r \<noteq> [] then
            (let ds = takeWhile is_digit r in
             (int (undigits (take 9 (ds @ replicate 9 (CHR ''0'')))), dropWhile is_digit r))
          else (0, s)
      | [] \<Rightarrow> (0, s))"

definition parse_zone :: "string \<Rightarrow> int option" where
  "parse_zone s =
     (if s = ''Z'' then Some 0
      else case s of
        c # r \<Rightarrow>
          (if c = CHR ''+'' \<or> c = CHR ''-'' then
             (case num r 2 of None \<Rightarrow> None | Some (h, r) \<Rightarrow>
              case lit r (CHR '':'') of None \<Rightarrow> None | Some r \<Rightarrow>
              case num r 2 of None \<Rightarrow> None | Some (mi, r) \<Rightarrow>
              if r = [] \<and> h \<le> 24 \<and> mi < 60 then Some ((if c = CHR ''-'' then -1 else 1) * (h * 3600 + mi * 60)) else None)
           else None)
      | [] \<Rightarrow> None)"

definition parse_RFC3339 :: "string \<Rightarrow> time option" where
  "parse_RFC3339 s =
     (case parse_date s of None \<Rightarrow> None | Some (days, s) \<Rightarrow>
      case lit s (CHR ''T'') of None \<Rightarrow> None | Some s \<Rightarrow>
      case parse_clock s of None \<Rightarrow> None | Some (secs, s) \<Rightarrow>
      case parse_fraction s of (ns, s) \<Rightarrow>
      case parse_zone s of None \<Rightarrow> None | Some off \<Rightarrow>
      Some (days * ns_per_day + (secs - off) * ns_per_second + ns))"

definition parse_date_only :: "string \<Rightarrow> time option" where
  "parse_date_only s = (case parse_date s of Some (days, []) \<Rightarrow> Some (days * ns_per_day) | _ \<Rightarrow> None)"

subsection \<open>Release metadata\<close>

record version_info =
  vi_Version :: string
  vi_BuildDate :: string
  vi_Verified :: bool
  vi_SignedBuildDate :: "string option"   \<comment> \<open>\<^verbatim>\<open>Provenance.SignedClaims.BuildDate\<close>, \<open>None\<close> for nil claims\<close>

definition ReleaseTime :: "version_info \<Rightarrow> time option" where
  "ReleaseTime i =
     (let dateStr = (case vi_SignedBuildDate i of
                       Some d \<Rightarrow> if vi_Verified i \<and> d \<noteq> [] then d else vi_BuildDate i
                     | None \<Rightarrow> vi_BuildDate i)
      in if dateStr = [] \<or> dateStr = ''unknown'' then None
         else case (case parse_RFC3339 dateStr of Some t \<Rightarrow> Some t | None \<Rightarrow> parse_date_only dateStr) of
           None \<Rightarrow> None
         | Some t \<Rightarrow> if t < ProductGenesisEpoch then None else Some t)"

definition BSLChangePeriodYears :: int where "BSLChangePeriodYears = 3"

definition ChangeDate :: "version_info \<Rightarrow> time option" where
  "ChangeDate i = (case ReleaseTime i of None \<Rightarrow> None | Some t \<Rightarrow> Some (AddYears BSLChangePeriodYears t))"

definition IsApacheConverted :: "version_info \<Rightarrow> time \<Rightarrow> bool" where
  "IsApacheConverted i now =
     (if \<not> vi_Verified i then False
      else case ChangeDate i of None \<Rightarrow> False | Some cd \<Rightarrow> now > cd)"

subsection \<open>Claims and tiers\<close>

record license_scope =
  sc_Hosts :: "string list"
  sc_Namespaces :: "string list"

record license_claims =
  cl_Plan :: string
  cl_Scope :: "license_scope option"
  cl_ExpiresAt :: time
  cl_GracePeriodDays :: int
  cl_TierFeatures :: "(string \<times> string list) list"
  cl_token :: string

record validation_status =
  vs_Valid :: bool
  vs_InGracePeriod :: bool
  vs_DaysRemaining :: int
  vs_Message :: string
  vs_Claims :: "license_claims option"

definition FreeTierMaxProjects :: int where "FreeTierMaxProjects = 25"

definition DefaultTierFeatures :: "(string \<times> string list) list" where
  "DefaultTierFeatures =
     [(''pro'',
       [''governance.push_rules'', ''governance.protected_branches'', ''governance.project_settings'',
        ''governance.members'', ''governance.variables'', ''governance.approval_rules'',
        ''governance.target_branch_rules'', ''governance.runners'', ''governance.webhooks'',
        ''governance.pipeline_retention'', ''governance.protected_environments'', ''governance.protected_tags'',
        ''report.*'']),
      (''enterprise'', [''*''])]"

definition community_features :: "string list" where
  "community_features =
     [''governance.push_rules'', ''governance.protected_branches'', ''governance.branch_merges'',
      ''governance.project_settings'', ''governance.members'', ''governance.variables'',
      ''report.table'', ''report.json'', ''report.csv'', ''report.markdown'', ''report.summary'', ''report.*'']"

definition IsCommunityFeature :: "string \<Rightarrow> bool" where
  "IsCommunityFeature feature \<longleftrightarrow> TrimSpace (ToLower feature) \<in> set community_features"

definition RequiredTierForFeature :: "string \<Rightarrow> string" where
  "RequiredTierForFeature feature =
     (if IsCommunityFeature feature then ''community''
      else if TrimSpace (ToLower feature) \<in>
        set [''governance.approval_rules'', ''governance.target_branch_rules'', ''governance.runners'',
             ''governance.webhooks'', ''governance.pipeline_retention'', ''governance.protected_environments'',
             ''governance.protected_tags'']
      then ''pro'' else ''enterprise'')"

definition GetClaimsPlan :: "license_claims option \<Rightarrow> string" where
  "GetClaimsPlan c =
     (case c of None \<Rightarrow> ''community'' | Some cl \<Rightarrow> if cl_Plan cl = [] then ''community'' else cl_Plan cl)"

subsection \<open>Environment\<close>

datatype file_access = OpenFailed go_error | StatFailed go_error | NotRegular | ReadFailed go_error | FileContent string

datatype validator_option =
  WithProduct string | WithTierFeatures "(string \<times> string list) list" | WithAutoFingerprint bool
| WithCurrentVersion string | WithBuildDate time | WithRevocationList string | WithCRLURL string
| WithAutoResolvedRevocationList

record verification_result =
  vr_Claims :: license_claims
  vr_InGracePeriod :: bool
  vr_GraceDaysRemaining :: int

record bsl_usage_request =
  ur_Environment :: string
  ur_Usage :: "(string \<times> int) list"
  ur_Time :: time
  ur_Metadata :: "(string \<times> string) list"

text \<open>The Additional Use Grants handed to the library: the dry-run match and the free-tier limits.\<close>

record bsl_policy =
  bp_Product :: string
  bp_ReleaseDate :: "time option"
  bp_ChangePeriodYears :: int
  bp_NonProductionMatch :: "bsl_usage_request \<Rightarrow> bool"
  bp_FreeTier :: "(string \<times> int) list"

record lic_env =
  env_version :: version_info
  env_now :: time
  env_Clean :: "string \<Rightarrow> string"
  env_file :: "string \<Rightarrow> file_access"
  env_Getenv :: "string \<Rightarrow> string"
  ll_ResolveToken :: "string go_result"
  ll_ErrLicenseNotFound :: go_error
  ll_ErrLicenseRevoked :: go_error
  ll_ResolveCRL :: "string list \<Rightarrow> string go_result"
  ll_NewValidator :: "string \<Rightarrow> validator_option list \<Rightarrow> go_error option"
  ll_Verify :: "string \<Rightarrow> validator_option list \<Rightarrow> string \<Rightarrow> time \<Rightarrow> verification_result go_result"
  ll_IsScopeMismatch :: "go_error \<Rightarrow> bool"
  ll_Inspect :: "string \<Rightarrow> license_claims go_result"
  ll_DaysRemaining :: "license_claims \<Rightarrow> int"
  ll_IsInGracePeriodAt :: "license_claims \<Rightarrow> time \<Rightarrow> bool"
  ll_GraceDaysRemainingAt :: "license_claims \<Rightarrow> time \<Rightarrow> int"
  ll_IsPerpetual :: "license_claims \<Rightarrow> bool"
  ll_GetLimit :: "license_claims \<Rightarrow> string \<Rightarrow> int option"
  ll_CheckLimit :: "license_claims \<Rightarrow> string \<Rightarrow> int \<Rightarrow> go_error option"
  ll_IsHostAllowed :: "license_claims \<Rightarrow> string \<Rightarrow> bool"
  ll_IsNamespaceAllowed :: "license_claims \<Rightarrow> string \<Rightarrow> bool"
  ll_AssertFeature :: "license_claims \<Rightarrow> string \<Rightarrow> go_error option"
  ll_NormalizeHost :: "string \<Rightarrow> string"
  ll_EvaluateEntitlement :: "bsl_policy \<Rightarrow> bsl_usage_request \<Rightarrow> bool"

definition fmt_q :: "string \<Rightarrow> string" where
  "fmt_q s = [CHR 0x22] @ s @ [CHR 0x22]"

text \<open>The limit is narrowed to \<^verbatim>\<open>int\<close>, which is 64 bits wide.\<close>

definition GetClaimsMaxProjects :: "lic_env \<Rightarrow> license_claims option \<Rightarrow> int" where
  "GetClaimsMaxProjects env c =
     (case c of
        None \<Rightarrow> 0
      | Some cl \<Rightarrow> (case ll_GetLimit env cl ''max_projects'' of Some n \<Rightarrow> if n > 0 then n else 0 | None \<Rightarrow> 0))"

definition ExtractHost :: "lic_env \<Rightarrow> string \<Rightarrow> string" where
  "ExtractHost env rawURL =
     (let raw = TrimSpace rawURL in if raw = [] then ''gitlab.com'' else ll_NormalizeHost env raw)"

definition AssertFeature :: "lic_env \<Rightarrow> validation_status option \<Rightarrow> string \<Rightarrow> go_error option" where
  "AssertFeature env status feature =
     (if IsCommunityFeature feature then None
      else case (case status of None \<Rightarrow> None | Some st \<Rightarrow> vs_Claims st) of
        None \<Rightarrow> Some (Err (''COMMERCIAL LICENSE REQUIRED: Feature '' @ fmt_q feature @ '' requires a commercial ''
                  @ ToUpper (RequiredTierForFeature feature)
                  @ '' or higher subscription. Visit https://divmora.com or contact licensing@divmora.com''))
      | Some cl \<Rightarrow>
          (case ll_AssertFeature env cl feature of
             None \<Rightarrow> None
           | Some err \<Rightarrow> Some (Wrapf (''FEATURE NOT ENTITLED: Feature '' @ fmt_q feature
                  @ '' is not authorized under your current license plan '' @ fmt_q (cl_Plan cl)) err)))"

subsection \<open>Token and revocation list resolution\<close>

definition maxLicenseFileSize :: nat where "maxLicenseFileSize = 64 * 1024"

definition ResolveToken :: "lic_env \<Rightarrow> string \<Rightarrow> string \<Rightarrow> string go_result" where
  "ResolveToken env key0 file0 =
     (let key = TrimSpace key0; file = TrimSpace file0 in
      if key \<noteq> [] then Inr key
      else if file \<noteq> [] then
        (let cleanPath = env_Clean env file in
         if CHR 0x00 \<in> set cleanPath then Inl (Err ''invalid license file path: contains null byte'')
         else case env_file env cleanPath of
           OpenFailed e \<Rightarrow> Inl (Wrapf (''failed to open license file '' @ fmt_q cleanPath) e)
         | StatFailed e \<Rightarrow> Inl (Wrapf (''failed to stat license file '' @ fmt_q cleanPath) e)
         | NotRegular \<Rightarrow> Inl (Err (''invalid license file '' @ fmt_q cleanPath @ '': must be a regular file''))
         | ReadFailed e \<Rightarrow> Inl (Wrapf (''failed to read license file '' @ fmt_q cleanPath) e)
         | FileContent content \<Rightarrow>
             if length (take (maxLicenseFileSize + 1) content) > maxLicenseFileSize
             then Inl (Err (''license file '' @ fmt_q cleanPath @ '' exceeds maximum allowed size ('' @ fmt_d (int maxLicenseFileSize) @ '' bytes)''))
             else Inr (TrimSpace content))
      else case ll_ResolveToken env of
        Inl err \<Rightarrow> if errors_Is err (ll_ErrLicenseNotFound env) then Inr [] else Inl err
      | Inr token \<Rightarrow> Inr (TrimSpace token))"

definition is_url :: "string \<Rightarrow> bool" where
  "is_url s \<longleftrightarrow> HasPrefix s ''http://'' \<or> HasPrefix s ''https://''"

fun explicit_sources :: "lic_env \<Rightarrow> string list \<Rightarrow> string list go_result" where
  "explicit_sources env [] = Inr []"
| "explicit_sources env (s # ss) =
     (let trimmed = TrimSpace s in
      if trimmed = [] then explicit_sources env ss
      else if CHR 0x00 \<in> set trimmed then Inl (Err ''invalid CRL source: contains null byte'')
      else case explicit_sources env ss of
        Inl e \<Rightarrow> Inl e
      | Inr rest \<Rightarrow>
          Inr ((if \<not> is_url trimmed \<and> \<not> HasPrefix trimmed ''-----BEGIN'' then env_Clean env trimmed else trimmed) # rest))"

definition ResolveCRL :: "lic_env \<Rightarrow> string list \<Rightarrow> string go_result" where
  "ResolveCRL env sources =
     (case explicit_sources env sources of
        Inl e \<Rightarrow> Inl e
      | Inr explicit \<Rightarrow>
          (case ll_ResolveCRL env explicit of
             Inl err \<Rightarrow> if err_msg err = ''license: crl not found'' then Inr [] else Inl err
           | Inr content \<Rightarrow> Inr content))"

subsection \<open>Verification\<close>

definition validator_options :: "lic_env \<Rightarrow> string \<Rightarrow> string list \<Rightarrow> validator_option list" where
  "validator_options env crlData crlURLs =
     [WithProduct ''gitlab-fleet-governor'', WithTierFeatures DefaultTierFeatures, WithAutoFingerprint True]
     @ (let v = vi_Version (env_version env) in if v \<noteq> [] \<and> v \<noteq> ''dev'' then [WithCurrentVersion v] else [])
     @ (case ReleaseTime (env_version env) of Some t \<Rightarrow> [WithBuildDate t] | None \<Rightarrow> [])
     @ (if crlData \<noteq> [] then [WithRevocationList crlData]
        else if crlURLs \<noteq> [] then [WithCRLURL (hd crlURLs)] else [WithAutoResolvedRevocationList])"

definition active_status :: "lic_env \<Rightarrow> license_claims \<Rightarrow> bool \<Rightarrow> int \<Rightarrow> validation_status" where
  "active_status env claims inGrace daysRemaining =
     \<lparr>vs_Valid = True, vs_InGracePeriod = inGrace, vs_DaysRemaining = daysRemaining,
      vs_Message = (if inGrace then ''License expired on '' @ format_date (cl_ExpiresAt claims) @ ''; currently operating within ''
                      @ fmt_d (cl_GracePeriodDays claims) @ ''-day grace period ('' @ fmt_d daysRemaining @ '' days remaining)''
                    else if ll_IsPerpetual env claims then ''Perpetual commercial license is valid and active''
                    else ''License is valid and active ('' @ fmt_d daysRemaining @ '' days remaining)''),
      vs_Claims = Some claims\<rparr>"

definition verify_result ::
  "lic_env \<Rightarrow> string \<Rightarrow> time \<Rightarrow> verification_result go_result \<Rightarrow> validation_status option \<times> go_error option" where
  "verify_result env token evalTime res =
     (case res of
        Inr r \<Rightarrow>
          (Some (active_status env (vr_Claims r) (vr_InGracePeriod r)
             (if vr_InGracePeriod r then vr_GraceDaysRemaining r else ll_DaysRemaining env (vr_Claims r))), None)
      | Inl err \<Rightarrow>
          (let inspected = (case ll_Inspect env token of
                              Inr c \<Rightarrow> Some (c\<lparr>cl_TierFeatures := DefaultTierFeatures\<rparr>) | Inl _ \<Rightarrow> None)
           in case inspected of
             Some claims \<Rightarrow>
               if ll_IsScopeMismatch env err then
                 (let inGrace = ll_IsInGracePeriodAt env claims evalTime in
                  (Some (active_status env claims inGrace
                     (if inGrace then ll_GraceDaysRemainingAt env claims evalTime else ll_DaysRemaining env claims)), None))
               else (Some \<lparr>vs_Valid = False, vs_InGracePeriod = False, vs_DaysRemaining = 0, vs_Message = err_msg err,
                           vs_Claims = Some claims\<rparr>, Some err)
           | None \<Rightarrow>
               (Some \<lparr>vs_Valid = False, vs_InGracePeriod = False, vs_DaysRemaining = 0, vs_Message = err_msg err,
                      vs_Claims = None\<rparr>, Some err)))"

definition ParseAndVerifyAt ::
  "lic_env \<Rightarrow> string \<Rightarrow> string \<Rightarrow> time \<Rightarrow> string list \<Rightarrow> validation_status option \<times> go_error option" where
  "ParseAndVerifyAt env token0 pubKey evalTime crlSources =
     (let token = TrimSpace token0;
          srcs = filter (\<lambda>s. s \<noteq> []) (map TrimSpace crlSources)
      in if token = [] then (None, Some (Err ''license token cannot be empty''))
         else case ResolveCRL env (filter (\<lambda>s. \<not> is_url s) srcs) of
           Inl e \<Rightarrow> (None, Some (Wrapf ''failed to resolve certificate revocation list (CRL)'' e))
         | Inr crlData \<Rightarrow>
             (let opts = validator_options env crlData (filter is_url srcs) in
              case ll_NewValidator env pubKey opts of
                Some e \<Rightarrow> (None, Some (Wrapf ''failed to initialize license validator'' e))
              | None \<Rightarrow> verify_result env token evalTime (ll_Verify env pubKey opts token evalTime)))"

subsection \<open>Enforce\<close>

record enforcement_options =
  eo_DiscoveredProjects :: int
  eo_IsDryRun :: bool
  eo_GitLabBaseURL :: string
  eo_TargetPaths :: "string list"
  eo_LicenseKey :: string
  eo_LicenseFile :: string
  eo_CRL :: string
  eo_CRLFile :: string
  eo_CRLURL :: string
  eo_Command :: string
  eo_PublicKey :: string
  eo_EvaluationTime :: "time option"
  eo_GitLabServerTime :: "time option"
  eo_RequiredFeatures :: "string list"

definition ns_per_hour :: int where "ns_per_hour = 3600 * ns_per_second"

definition effective_time :: "lic_env \<Rightarrow> enforcement_options \<Rightarrow> time" where
  "effective_time env opts =
     (let evalTime = (case eo_EvaluationTime opts of Some t \<Rightarrow> t | None \<Rightarrow> env_now env); v = env_version env in
      case eo_GitLabServerTime opts of
        None \<Rightarrow> evalTime
      | Some serverTime \<Rightarrow>
          if IsApacheConverted v evalTime \<and> \<not> IsApacheConverted v serverTime then serverTime
          else let drift = evalTime - serverTime in
            if drift < - ns_per_hour \<or> drift > ns_per_hour then serverTime else evalTime)"

definition isHostAllowed :: "lic_env \<Rightarrow> license_claims \<Rightarrow> string \<Rightarrow> bool" where
  "isHostAllowed env claims rawURL =
     (case cl_Scope claims of
        None \<Rightarrow> True
      | Some s \<Rightarrow> if sc_Hosts s = [] then True else ll_IsHostAllowed env claims rawURL)"

definition isNamespaceAllowed :: "lic_env \<Rightarrow> license_claims \<Rightarrow> string \<Rightarrow> bool" where
  "isNamespaceAllowed env claims path =
     (case cl_Scope claims of
        None \<Rightarrow> True
      | Some s \<Rightarrow> if sc_Namespaces s = [] then True else ll_IsNamespaceAllowed env claims path)"

definition valid_status :: "string \<Rightarrow> validation_status" where
  "valid_status msg =
     \<lparr>vs_Valid = True, vs_InGracePeriod = False, vs_DaysRemaining = 0, vs_Message = msg, vs_Claims = None\<rparr>"

definition dry_run_message :: string where
  "dry_run_message = ''Simulation / dry-run mode exempted under BSL 1.1 Additional Use Grant (a)''"

text \<open>
  The checks of a verified token outside dry-run mode, in the order of the code: the first one
  that fails is the error.
\<close>

definition capacity_error :: "lic_env \<Rightarrow> enforcement_options \<Rightarrow> license_claims \<Rightarrow> go_error option" where
  "capacity_error env opts claims =
     (case ll_CheckLimit env claims ''max_projects'' (eo_DiscoveredProjects opts) of
        None \<Rightarrow> None
      | Some _ \<Rightarrow> Some (Err (''FLEET CAPACITY EXCEEDED: Governing '' @ fmt_d (eo_DiscoveredProjects opts)
          @ '' production projects exceeds your licensed capacity of '' @ fmt_d (GetClaimsMaxProjects env (Some claims))
          @ '' projects ('' @ ToUpper (GetClaimsPlan (Some claims))
          @ '' Tier). Please contact licensing@divmora.com to upgrade your fleet capacity.'')))"

definition host_error :: "lic_env \<Rightarrow> enforcement_options \<Rightarrow> license_claims \<Rightarrow> go_error option" where
  "host_error env opts claims =
     (if isHostAllowed env claims (eo_GitLabBaseURL opts) then None
      else Some (Err (''COMMERCIAL LICENSE HOST MISMATCH: License is restricted to GitLab host(s) [''
        @ Join (case cl_Scope claims of None \<Rightarrow> [] | Some s \<Rightarrow> sc_Hosts s) '' '' @ ''], but active target is ''
        @ squote (ExtractHost env (eo_GitLabBaseURL opts))
        @ ''. Please obtain a commercial license for this host or contact licensing@divmora.com'')))"

definition namespace_error :: "lic_env \<Rightarrow> enforcement_options \<Rightarrow> license_claims \<Rightarrow> go_error option" where
  "namespace_error env opts claims =
     (case find (\<lambda>path. \<not> isNamespaceAllowed env claims path) (eo_TargetPaths opts) of
        None \<Rightarrow> None
      | Some path \<Rightarrow> Some (Err (''COMMERCIAL LICENSE GROUP MISMATCH: License is restricted to GitLab group hierarchy [''
          @ Join (case cl_Scope claims of None \<Rightarrow> [] | Some s \<Rightarrow> sc_Namespaces s) '' ''
          @ ''], but targeted resource '' @ squote path
          @ '' falls outside permitted groups. Please contact licensing@divmora.com to extend your license scope'')))"

definition feature_error :: "lic_env \<Rightarrow> enforcement_options \<Rightarrow> license_claims \<Rightarrow> go_error option" where
  "feature_error env opts claims =
     (case find (\<lambda>f. \<not> IsCommunityFeature f \<and> ll_AssertFeature env claims f \<noteq> None) (eo_RequiredFeatures opts) of
        None \<Rightarrow> None
      | Some feat \<Rightarrow>
          Some (Wrapf (''FEATURE NOT ENTITLED: Feature '' @ fmt_q feat @ '' is not authorized under license tier ''
            @ fmt_q (cl_Plan claims)) (the (ll_AssertFeature env claims feat))))"

definition first_error :: "go_error option list \<Rightarrow> go_error option" where
  "first_error es = (case find (\<lambda>e. e \<noteq> None) es of None \<Rightarrow> None | Some e \<Rightarrow> e)"

definition enforce_token ::
  "lic_env \<Rightarrow> enforcement_options \<Rightarrow> time \<Rightarrow> string \<Rightarrow> validation_status option \<times> go_error option" where
  "enforce_token env opts evalTime token =
     (case ParseAndVerifyAt env token (eo_PublicKey opts) evalTime [eo_CRL opts, eo_CRLFile opts, eo_CRLURL opts] of
        (status, Some err) \<Rightarrow>
          if eo_IsDryRun opts then (Some (valid_status dry_run_message), None)
          else if errors_Is err (ll_ErrLicenseRevoked env) then (status, Some (Wrapf ''COMMERCIAL LICENSE REVOKED'' err))
          else (status, Some (Wrapf ''commercial license verification failed'' err))
      | (status, None) \<Rightarrow>
          if eo_IsDryRun opts then (status, None)
          else case (case status of None \<Rightarrow> None | Some st \<Rightarrow> vs_Claims st) of
            None \<Rightarrow> (status, None)
          | Some claims \<Rightarrow>
              (status, first_error [capacity_error env opts claims, host_error env opts claims,
                                    namespace_error env opts claims, feature_error env opts claims]))"

definition GetBSLPolicy :: "lic_env \<Rightarrow> bsl_policy" where
  "GetBSLPolicy env =
     \<lparr>bp_Product = ''gitlab-fleet-governor'',
      bp_ReleaseDate = (if vi_Verified (env_version env) then ReleaseTime (env_version env) else None),
      bp_ChangePeriodYears = 3,
      bp_NonProductionMatch = (\<lambda>req. map_of (ur_Metadata req) ''dry_run'' = Some ''true''),
      bp_FreeTier = [(''max_projects'', FreeTierMaxProjects)]\<rparr>"

definition runtime_environment :: "lic_env \<Rightarrow> string" where
  "runtime_environment env =
     (let e = env_Getenv env ''ENV''; e2 = (if e = [] then env_Getenv env ''ENVIRONMENT'' else e)
      in if e2 = [] then ''production'' else e2)"

definition enforce_community ::
  "lic_env \<Rightarrow> enforcement_options \<Rightarrow> time \<Rightarrow> validation_status option \<times> go_error option" where
  "enforce_community env opts evalTime =
     (if eo_IsDryRun opts then (Some (valid_status dry_run_message), None)
      else case find (\<lambda>f. \<not> IsCommunityFeature f) (eo_RequiredFeatures opts) of
        Some feat \<Rightarrow>
          (None, Some (Err (''COMMERCIAL LICENSE REQUIRED: Feature '' @ fmt_q feat @ '' requires a ''
             @ ToUpper (RequiredTierForFeature feat)
             @ '' subscription. Community Tier only includes baseline repository governance. Visit https://divmora.com or contact licensing@divmora.com'')))
      | None \<Rightarrow>
          if ll_EvaluateEntitlement env (GetBSLPolicy env)
               \<lparr>ur_Environment = runtime_environment env, ur_Usage = [(''max_projects'', eo_DiscoveredProjects opts)],
                ur_Time = evalTime, ur_Metadata = [(''command'', eo_Command opts)]\<rparr>
          then (Some (valid_status (''Free Community Tier ('' @ fmt_d (eo_DiscoveredProjects opts) @ ''/''
                  @ fmt_d FreeTierMaxProjects @ '' managed projects)'')), None)
          else (None, Some (Err (''COMMERCIAL LICENSE REQUIRED: Governing '' @ fmt_d (eo_DiscoveredProjects opts)
                  @ '' projects in production exceeds the free Community Tier limit ('' @ fmt_d FreeTierMaxProjects
                  @ '' projects) permitted under the Business Source License 1.1.''))))"

definition Enforce :: "lic_env \<Rightarrow> enforcement_options \<Rightarrow> validation_status option \<times> go_error option" where
  "Enforce env opts =
     (let evalTime = effective_time env opts in
      if IsApacheConverted (env_version env) evalTime
      then (Some (valid_status (''Automatically converted to Apache License 2.0 on ''
              @ (case ChangeDate (env_version env) of Some cd \<Rightarrow> format_date cd | None \<Rightarrow> [])
              @ '' under BSL 1.1 terms. Unrestricted usage permitted.'')), None)
      else case ResolveToken env (eo_LicenseKey opts) (eo_LicenseFile opts) of
        Inl e \<Rightarrow> (None, Some e)
      | Inr token \<Rightarrow> if token \<noteq> [] then enforce_token env opts evalTime token
                    else enforce_community env opts evalTime)"

subsection \<open>Properties\<close>

lemma first_error_None: "first_error es = None \<longleftrightarrow> (\<forall>e \<in> set es. e = None)"
  by (induction es) (auto simp: first_error_def)

lemma find_None_list_all: "find P xs = None \<longleftrightarrow> list_all (\<lambda>x. \<not> P x) xs"
  by (auto simp: find_None_iff list_all_iff)

lemma token_check_None:
  "capacity_error env opts cl = None \<longleftrightarrow> ll_CheckLimit env cl ''max_projects'' (eo_DiscoveredProjects opts) = None"
  "host_error env opts cl = None \<longleftrightarrow> isHostAllowed env cl (eo_GitLabBaseURL opts)"
  "namespace_error env opts cl = None \<longleftrightarrow> list_all (isNamespaceAllowed env cl) (eo_TargetPaths opts)"
  "feature_error env opts cl = None \<longleftrightarrow>
     list_all (\<lambda>f. IsCommunityFeature f \<or> ll_AssertFeature env cl f = None) (eo_RequiredFeatures opts)"
proof -
  show "capacity_error env opts cl = None \<longleftrightarrow> ll_CheckLimit env cl ''max_projects'' (eo_DiscoveredProjects opts) = None"
    unfolding capacity_error_def by (cases "ll_CheckLimit env cl ''max_projects'' (eo_DiscoveredProjects opts)") simp_all
  show "host_error env opts cl = None \<longleftrightarrow> isHostAllowed env cl (eo_GitLabBaseURL opts)"
    by (simp add: host_error_def)
  show "namespace_error env opts cl = None \<longleftrightarrow> list_all (isNamespaceAllowed env cl) (eo_TargetPaths opts)"
    using find_None_list_all [of "\<lambda>path. \<not> isNamespaceAllowed env cl path" "eo_TargetPaths opts"]
    by (auto simp: namespace_error_def split: option.split)
  show "feature_error env opts cl = None \<longleftrightarrow>
      list_all (\<lambda>f. IsCommunityFeature f \<or> ll_AssertFeature env cl f = None) (eo_RequiredFeatures opts)"
    using find_None_list_all [of "\<lambda>f. \<not> IsCommunityFeature f \<and> ll_AssertFeature env cl f \<noteq> None" "eo_RequiredFeatures opts"]
    by (auto simp: feature_error_def list_all_iff split: option.split)
qed

lemma vs_Claims_active: "vs_Claims (active_status env claims g d) = Some claims"
  by (simp add: active_status_def)

lemma verify_result_claims:
  "verify_result env token t res = (st, None) \<Longrightarrow> \<exists>s cl. st = Some s \<and> vs_Claims s = Some cl"
  by (auto simp: verify_result_def vs_Claims_active Let_def split: sum.splits option.splits if_splits)

lemma ParseAndVerifyAt_claims:
  "ParseAndVerifyAt env token pk t crl = (st, None) \<Longrightarrow> \<exists>s cl. st = Some s \<and> vs_Claims s = Some cl"
  by (auto simp: ParseAndVerifyAt_def Let_def split: if_splits sum.splits option.splits dest: verify_result_claims)

text \<open>
  Moving the local clock forward cannot turn off licensing: when the GitLab server reports
  a time at which the release has not converted to Apache 2.0, the enforcement treats it as not
  converted whatever the local clock says; and a build without verified provenance never converts.
\<close>

theorem clock_tamper_defense:
  assumes "eo_GitLabServerTime opts = Some serverTime" and "\<not> IsApacheConverted (env_version env) serverTime"
  shows "\<not> IsApacheConverted (env_version env) (effective_time env opts)"
  using assms by (auto simp: effective_time_def Let_def)

text \<open>
  Dry runs are never blocked by licensing: once the token source can be read, \<^verbatim>\<open>Enforce\<close>
  returns no error in dry-run mode, whatever the token, its verification, the fleet size, the
  scope or the required features.
\<close>

theorem Enforce_dry_run:
  assumes "eo_IsDryRun opts" and "ResolveToken env (eo_LicenseKey opts) (eo_LicenseFile opts) = Inr token"
  shows "snd (Enforce env opts) = None"
  using assms
  by (auto simp: Enforce_def enforce_token_def enforce_community_def Let_def split: prod.splits option.splits)

text \<open>
  Property C19. Outside dry-run mode, before conversion and with a token, \<^verbatim>\<open>Enforce\<close> admits a run exactly
  when the token verifies and the verified claims cover the fleet size, the host, every target
  path and every required feature that is not in the community tier. The token has to verify whatever
  the run requires: also when every required feature is a community one, the run with a token that
  does not verify is refused. (The zero-check bypass for community policies that \<^verbatim>\<open>README.md\<close> and
  \<^verbatim>\<open>docs/plans.md\<close> promise skips the feature assertions only.)
\<close>

theorem Enforce_licensed:
  assumes "\<not> eo_IsDryRun opts" and "ResolveToken env (eo_LicenseKey opts) (eo_LicenseFile opts) = Inr token"
    and "token \<noteq> []" and "\<not> IsApacheConverted (env_version env) (effective_time env opts)"
  shows "snd (Enforce env opts) = None \<longleftrightarrow>
    (\<exists>st cl. ParseAndVerifyAt env token (eo_PublicKey opts) (effective_time env opts)
          [eo_CRL opts, eo_CRLFile opts, eo_CRLURL opts] = (Some st, None)
       \<and> vs_Claims st = Some cl
       \<and> ll_CheckLimit env cl ''max_projects'' (eo_DiscoveredProjects opts) = None
       \<and> isHostAllowed env cl (eo_GitLabBaseURL opts)
       \<and> list_all (isNamespaceAllowed env cl) (eo_TargetPaths opts)
       \<and> list_all (\<lambda>f. IsCommunityFeature f \<or> ll_AssertFeature env cl f = None) (eo_RequiredFeatures opts))"
proof -
  obtain st err where v: "ParseAndVerifyAt env token (eo_PublicKey opts) (effective_time env opts)
      [eo_CRL opts, eo_CRLFile opts, eo_CRLURL opts] = (st, err)" by (cases "ParseAndVerifyAt env token (eo_PublicKey opts) (effective_time env opts)
      [eo_CRL opts, eo_CRLFile opts, eo_CRLURL opts]")
  have E: "snd (Enforce env opts) = snd (enforce_token env opts (effective_time env opts) token)"
    using assms by (simp add: Enforce_def Let_def)
  show ?thesis
  proof (cases err)
    case (Some e)
    then show ?thesis using assms(1) by (simp add: E enforce_token_def v)
  next
    case None
    then obtain s cl where st: "st = Some s" "vs_Claims s = Some cl" using ParseAndVerifyAt_claims v by blast
    have "snd (Enforce env opts) = first_error [capacity_error env opts cl, host_error env opts cl,
        namespace_error env opts cl, feature_error env opts cl]"
      using assms(1) by (simp add: E enforce_token_def v None st)
    then show ?thesis by (simp add: first_error_None token_check_None v None st)
  qed
qed

text \<open>
  Without a token and outside dry-run mode, every required feature outside the community
  tier blocks the run, and otherwise the run is admitted exactly when the library's BSL policy,
  asked with the free-tier limit of 25 projects and the number of discovered projects, authorises it.
\<close>

theorem Enforce_community:
  assumes "\<not> eo_IsDryRun opts" and "ResolveToken env (eo_LicenseKey opts) (eo_LicenseFile opts) = Inr []"
    and "\<not> IsApacheConverted (env_version env) (effective_time env opts)"
    and "\<And>req. ll_EvaluateEntitlement env (GetBSLPolicy env) req \<longleftrightarrow>
      (\<forall>(k, limit) \<in> set (bp_FreeTier (GetBSLPolicy env)). \<forall>n. map_of (ur_Usage req) k = Some n \<longrightarrow> n \<le> limit)"
  shows "snd (Enforce env opts) = None \<longleftrightarrow>
    list_all IsCommunityFeature (eo_RequiredFeatures opts) \<and> eo_DiscoveredProjects opts \<le> 25"
proof -
  have "snd (Enforce env opts) = snd (enforce_community env opts (effective_time env opts))"
    using assms(2,3) by (simp add: Enforce_def Let_def)
  then show ?thesis
    using assms(1,4)
    by (auto simp: enforce_community_def GetBSLPolicy_def FreeTierMaxProjects_def find_None_iff list_all_iff find_Some_iff
        split: option.splits)
qed

subsection \<open>Witnesses\<close>

definition ex_claims :: license_claims where
  "ex_claims =
     \<lparr>cl_Plan = ''pro'', cl_Scope = Some \<lparr>sc_Hosts = [], sc_Namespaces = [''acme'']\<rparr>, cl_ExpiresAt = 0,
      cl_GracePeriodDays = 14, cl_TierFeatures = [], cl_token = ''t''\<rparr>"

definition ex_lic_env :: lic_env where
  "ex_lic_env =
     \<lparr>env_version = \<lparr>vi_Version = ''0.17.0'', vi_BuildDate = ''2026-09-11T10:16:56Z'', vi_Verified = True,
                     vi_SignedBuildDate = None\<rparr>,
      env_now = days_from_civil 2035 1 1 * ns_per_day, env_Clean = id, env_file = (\<lambda>_. NotRegular),
      env_Getenv = (\<lambda>_. []), ll_ResolveToken = Inl (Err ''not found''), ll_ErrLicenseNotFound = Err ''not found'',
      ll_ErrLicenseRevoked = Err ''revoked'', ll_ResolveCRL = (\<lambda>_. Inl (Err ''license: crl not found'')),
      ll_NewValidator = (\<lambda>_ _. None),
      ll_Verify = (\<lambda>_ _ tok _. if tok = ''good'' then Inr \<lparr>vr_Claims = ex_claims, vr_InGracePeriod = False, vr_GraceDaysRemaining = 0\<rparr>
                               else Inl (Err ''bad signature'')),
      ll_IsScopeMismatch = (\<lambda>_. False), ll_Inspect = (\<lambda>_. Inl (Err ''malformed'')), ll_DaysRemaining = (\<lambda>_. 30),
      ll_IsInGracePeriodAt = (\<lambda>_ _. False), ll_GraceDaysRemainingAt = (\<lambda>_ _. 0), ll_IsPerpetual = (\<lambda>_. False),
      ll_GetLimit = (\<lambda>_ _. Some 100), ll_CheckLimit = (\<lambda>_ _ n. if n \<le> 100 then None else Some (Err ''limit'')),
      ll_IsHostAllowed = (\<lambda>_ _. True), ll_IsNamespaceAllowed = (\<lambda>_ p. HasPrefix p ''acme/''),
      ll_AssertFeature = (\<lambda>_ _. None), ll_NormalizeHost = id,
      ll_EvaluateEntitlement = (\<lambda>pol req. list_all (\<lambda>(k, limit).
        case map_of (ur_Usage req) k of None \<Rightarrow> True | Some n \<Rightarrow> n \<le> limit) (bp_FreeTier pol))\<rparr>"

definition ex_opts :: enforcement_options where
  "ex_opts =
     \<lparr>eo_DiscoveredProjects = 26, eo_IsDryRun = False, eo_GitLabBaseURL = ''https://gitlab.com'',
      eo_TargetPaths = [''acme/api''], eo_LicenseKey = [], eo_LicenseFile = [], eo_CRL = [], eo_CRLFile = [], eo_CRLURL = [],
      eo_Command = ''run'', eo_PublicKey = [], eo_EvaluationTime = None,
      eo_GitLabServerTime = Some (days_from_civil 2027 1 1 * ns_per_day), eo_RequiredFeatures = [''governance.variables'']\<rparr>"

lemma ex_not_converted: "\<not> IsApacheConverted (env_version ex_lic_env) (days_from_civil 2027 1 1 * ns_per_day)"
  by code_simp

theorem clock_tamper_defense_witness:
  "IsApacheConverted (env_version ex_lic_env) (env_now ex_lic_env)
   \<and> \<not> IsApacheConverted (env_version ex_lic_env) (effective_time ex_lic_env ex_opts)"
proof
  show "IsApacheConverted (env_version ex_lic_env) (env_now ex_lic_env)" by code_simp
  show "\<not> IsApacheConverted (env_version ex_lic_env) (effective_time ex_lic_env ex_opts)"
    by (rule clock_tamper_defense [OF _ ex_not_converted]) (simp add: ex_opts_def)
qed

lemma ex_opts_effective: "\<not> IsApacheConverted (env_version ex_lic_env) (effective_time ex_lic_env (ex_opts\<lparr>eo_LicenseKey := k\<rparr>))"
  using ex_not_converted by (auto simp: effective_time_def ex_opts_def Let_def)

theorem Enforce_dry_run_witness: "snd (Enforce ex_lic_env (ex_opts\<lparr>eo_IsDryRun := True, eo_LicenseKey := ''forged''\<rparr>)) = None"
proof (rule Enforce_dry_run)
  show "ResolveToken ex_lic_env (eo_LicenseKey (ex_opts\<lparr>eo_IsDryRun := True, eo_LicenseKey := ''forged''\<rparr>))
      (eo_LicenseFile (ex_opts\<lparr>eo_IsDryRun := True, eo_LicenseKey := ''forged''\<rparr>)) = Inr ''forged''" by code_simp
qed simp

theorem Enforce_licensed_witness:
  "snd (Enforce ex_lic_env (ex_opts\<lparr>eo_LicenseKey := ''good''\<rparr>)) = None
    \<and> snd (Enforce ex_lic_env (ex_opts\<lparr>eo_LicenseKey := ''forged'', eo_RequiredFeatures := [], eo_DiscoveredProjects := 1\<rparr>)) \<noteq> None"
proof
  have tok: "ResolveToken ex_lic_env (eo_LicenseKey (ex_opts\<lparr>eo_LicenseKey := ''good''\<rparr>))
      (eo_LicenseFile (ex_opts\<lparr>eo_LicenseKey := ''good''\<rparr>)) = Inr ''good''" by code_simp
  show "snd (Enforce ex_lic_env (ex_opts\<lparr>eo_LicenseKey := ''good''\<rparr>)) = None"
  proof (subst Enforce_licensed [OF _ tok _ ex_opts_effective]; (intro exI conjI)?)
    show "ParseAndVerifyAt ex_lic_env ''good'' (eo_PublicKey (ex_opts\<lparr>eo_LicenseKey := ''good''\<rparr>))
        (effective_time ex_lic_env (ex_opts\<lparr>eo_LicenseKey := ''good''\<rparr>))
        [eo_CRL (ex_opts\<lparr>eo_LicenseKey := ''good''\<rparr>), eo_CRLFile (ex_opts\<lparr>eo_LicenseKey := ''good''\<rparr>),
         eo_CRLURL (ex_opts\<lparr>eo_LicenseKey := ''good''\<rparr>)] = (Some (active_status ex_lic_env ex_claims False 30), None)"
      by code_simp
    show "vs_Claims (active_status ex_lic_env ex_claims False 30) = Some ex_claims" by (simp add: active_status_def)
  qed code_simp+
next
  let ?opts = "ex_opts\<lparr>eo_LicenseKey := ''forged'', eo_RequiredFeatures := [], eo_DiscoveredProjects := 1\<rparr>"
  have tok: "ResolveToken ex_lic_env (eo_LicenseKey ?opts) (eo_LicenseFile ?opts) = Inr ''forged''" by code_simp
  have unverified: "snd (ParseAndVerifyAt ex_lic_env ''forged'' (eo_PublicKey ?opts) (effective_time ex_lic_env ?opts)
      [eo_CRL ?opts, eo_CRLFile ?opts, eo_CRLURL ?opts]) \<noteq> None" by code_simp
  have "effective_time ex_lic_env ?opts = effective_time ex_lic_env (ex_opts\<lparr>eo_LicenseKey := ''forged''\<rparr>)"
    by (simp add: effective_time_def)
  then have live: "\<not> IsApacheConverted (env_version ex_lic_env) (effective_time ex_lic_env ?opts)"
    using ex_opts_effective [of "''forged''"] by simp
  show "snd (Enforce ex_lic_env ?opts) \<noteq> None"
    using Enforce_licensed [OF _ tok _ live] unverified by (auto simp: ex_opts_def)
qed

theorem Enforce_community_witness: "snd (Enforce ex_lic_env ex_opts) \<noteq> None"
proof -
  have tok: "ResolveToken ex_lic_env (eo_LicenseKey ex_opts) (eo_LicenseFile ex_opts) = Inr []" by code_simp
  have "\<not> IsApacheConverted (env_version ex_lic_env) (effective_time ex_lic_env ex_opts)"
    using ex_opts_effective [of "[]"] by (simp add: ex_opts_def)
  then show ?thesis
    by (subst Enforce_community [OF _ tok]) (simp_all add: ex_opts_def ex_lic_env_def GetBSLPolicy_def split: option.splits)
qed

end
