(* ===== verification/Engine.thy ===== *)
theory Engine
  imports Registry Worker_Pool Metrics License
begin

section \<open>Governance engine\<close>

text \<open>
  \<^verbatim>\<open>internal/engine/engine.go\<close>: the construction of the engine, the execution of one project or group,
  and \<^verbatim>\<open>runWithOptions\<close>, which discovers the fleet, enforces the license, runs every target on the
  worker pool and aggregates the results. The remote GitLab instance is the state \<open>'s\<close>; the client
  shows it to discovery as a \<open>discovery_client\<close>. The record \<open>engine_runtime\<close> holds what the scheduler, the
  clock and the process environment decide: the interleaving of the discovery goroutines, the
  events of the two worker pools and the polls of the context. Wall-clock fields and log lines are
  left out. The value \<open>None\<close> of a run stands for a discovery that does not return or an event list
  that is not a complete run of a pool.
\<close>

definition ErrNilConfig :: go_error where "ErrNilConfig = Err ''policy config cannot be nil''"

record project_change =
  pc_ProjectID :: int
  pc_ProjectPath :: string
  pc_Action :: action_type
  pc_Operations :: "string list"

record execution_result =
  er_Mode :: string
  er_DryRun :: bool
  er_Success :: bool
  er_Fleet :: "target_fleet option"
  er_GroupResults :: "target_result list"
  er_ProjectResults :: "target_result list"
  er_TargetResults :: "target_result list"
  er_Metrics :: "metrics_snapshot option"
  er_ProjectChanges :: "project_change list"
  er_Errors :: "go_error list"

definition Result_HasChanges :: "execution_result \<Rightarrow> bool" where
  "Result_HasChanges er = (case er_Metrics er of None \<Rightarrow> False | Some m \<Rightarrow> sn_TotalChanged m > 0)"

definition Result_HasErrors :: "execution_result \<Rightarrow> bool" where
  "Result_HasErrors er \<longleftrightarrow> \<not> er_Success er \<or> length (er_Errors er) > 0
     \<or> (case er_Metrics er of None \<Rightarrow> False | Some m \<Rightarrow> sn_TotalFailed m > 0)"

definition ChangedTargets :: "execution_result \<Rightarrow> target_result list" where
  "ChangedTargets er = filter tr_HasChanges (er_TargetResults er)"

definition UnchangedTargets :: "execution_result \<Rightarrow> target_result list" where
  "UnchangedTargets er = filter (\<lambda>tr. \<not> tr_HasChanges tr \<and> tr_Success tr) (er_TargetResults er)"

definition FailedTargets :: "execution_result \<Rightarrow> target_result list" where
  "FailedTargets er = filter (\<lambda>tr. \<not> tr_Success tr \<or> tr_Error tr \<noteq> None) (er_TargetResults er)"

definition TotalDiffs :: "execution_result \<Rightarrow> nat" where
  "TotalDiffs er = sum_list (map (\<lambda>tr. length (TargetResult_Diffs tr)) (er_TargetResults er))"

subsection \<open>Construction\<close>

record 's governance_engine =
  eng_client :: "('s \<Rightarrow> discovery_client) option"
  eng_config :: "policy_config option"
  eng_registry :: "'s operations_registry option"
  eng_concurrency :: int
  eng_dryRun :: bool

datatype 's engine_option =
  EngineWithConcurrency int | EngineWithDryRun bool | EngineWithRegistry "'s operations_registry option"

primrec apply_engine_option :: "'s engine_option \<Rightarrow> 's governance_engine \<Rightarrow> 's governance_engine" where
  "apply_engine_option (EngineWithConcurrency c) e = (if c > 0 then e\<lparr>eng_concurrency := c\<rparr> else e)"
| "apply_engine_option (EngineWithDryRun b) e = e\<lparr>eng_dryRun := b\<rparr>"
| "apply_engine_option (EngineWithRegistry r) e = e\<lparr>eng_registry := r\<rparr>"

definition NewGovernanceEngine ::
  "(string \<Rightarrow> int \<Rightarrow> 's governance_operation) \<Rightarrow> ('s \<Rightarrow> discovery_client) option \<Rightarrow> policy_config option
   \<Rightarrow> 's engine_option list \<Rightarrow> 's governance_engine go_result" where
  "NewGovernanceEngine mk client cfg opts =
     (case client of
        None \<Rightarrow> Inl ErrNilClient
      | Some cl \<Rightarrow>
          (case cfg of
             None \<Rightarrow> Inl ErrNilConfig
           | Some c \<Rightarrow>
               (let dryRun = (case set_DryRun (cfg_Settings c) of None \<Rightarrow> True | Some b \<Rightarrow> b);
                    concurrency = (if set_Concurrency (cfg_Settings c) \<le> 0 then 10 else set_Concurrency (cfg_Settings c))
                in Inr (foldl (\<lambda>e opt. apply_engine_option opt e)
                     \<lparr>eng_client = Some cl, eng_config = Some c, eng_registry = Some (NewDefaultRegistry mk),
                      eng_concurrency = concurrency, eng_dryRun = dryRun\<rparr> opts))))"

definition NewEngine ::
  "(string \<Rightarrow> int \<Rightarrow> 's governance_operation) \<Rightarrow> ('s \<Rightarrow> discovery_client) option \<Rightarrow> 's engine_option list \<Rightarrow> 's governance_engine" where
  "NewEngine mk client opts =
     foldl (\<lambda>e opt. apply_engine_option opt e)
       \<lparr>eng_client = client, eng_config = None, eng_registry = Some (NewDefaultRegistry mk),
        eng_concurrency = 10, eng_dryRun = True\<rparr> opts"

subsection \<open>Execution of one target\<close>

text \<open>The loop over the results: collect the operations, the changes and the failures.\<close>

definition fold_results :: "operation_result list \<Rightarrow> target_result \<Rightarrow> target_result" where
  "fold_results ops res =
     foldl (\<lambda>res op.
         res\<lparr>tr_Operations := tr_Operations res @ [op],
             tr_HasChanges := tr_HasChanges res \<or> or_HasChanges op,
             tr_Success := tr_Success res \<and> or_Success op\<rparr>) res ops"

definition with_error :: "go_error option \<Rightarrow> target_result \<Rightarrow> target_result" where
  "with_error err res = (case err of None \<Rightarrow> res | Some e \<Rightarrow> res\<lparr>tr_Success := False, tr_Error := Some e\<rparr>)"

definition finish_plan :: "target_result \<Rightarrow> (plan_result list \<times> go_error option) \<times> 's \<Rightarrow> target_result fn_outcome \<times> 's" where
  "finish_plan res out =
     (case out of ((prs, err), s') \<Rightarrow>
        (FnReturned (fold_results (map (\<lambda>pr. the (OperationResultFromPlan (Some pr))) prs) (with_error err res)) err, s'))"

definition finish_apply :: "target_result \<Rightarrow> (apply_result list \<times> go_error option) \<times> 's \<Rightarrow> target_result fn_outcome \<times> 's" where
  "finish_apply res out =
     (case out of ((ars, err), s') \<Rightarrow>
        (FnReturned (fold_results (map (\<lambda>ar. the (OperationResultFromApply (Some ar))) ars) (with_error err res)) err, s'))"

definition marked_for_deletion :: "target_project \<Rightarrow> bool" where
  "marked_for_deletion target \<longleftrightarrow> tp_MarkedForDeletion target \<or> tp_MarkedForDeletionAt target \<noteq> None
     \<or> (case tp_Raw target of None \<Rightarrow> False | Some raw \<Rightarrow> p_MarkedForDeletionAt raw \<noteq> None)"

definition lifecycle_skip :: "target_project \<Rightarrow> operation_result" where
  "lifecycle_skip target =
     \<lparr>or_OperationName = ''lifecycle_check'', or_ResourceType = ResourceTypeProject, or_ResourceID = tp_ID target,
      or_ResourcePath = tp_PathWithNamespace target, or_Action = ActionSkipped, or_Status = StatusSkipped,
      or_HasChanges = False, or_Success = True, or_Diffs = [],
      or_Details = ''Repository is marked for deletion; skipping reconciliation'', or_Error = None\<rparr>"

definition executeProject ::
  "ctx \<Rightarrow> target_project \<Rightarrow> 's operations_registry \<Rightarrow> policy_config \<Rightarrow> bool \<Rightarrow> 's \<Rightarrow> target_result fn_outcome \<times> 's" where
  "executeProject ctx target registry cfg dryRun s =
     (let res = \<lparr>tr_TargetID = tp_ID target, tr_TargetPath = tp_PathWithNamespace target, tr_TargetName = tp_Name target,
                 tr_ResourceType = ResourceTypeProject, tr_DryRun = dryRun, tr_Success = True, tr_HasChanges = False,
                 tr_Operations = [], tr_Error = None\<rparr>
      in if marked_for_deletion target then (FnReturned (res\<lparr>tr_Operations := [lifecycle_skip target]\<rparr>) None, s)
         else if dryRun then finish_plan res (PlanTargetProject registry ctx target cfg s)
         else finish_apply res (ApplyTargetProject registry ctx target cfg s))"

definition executeGroup ::
  "ctx \<Rightarrow> target_group \<Rightarrow> 's operations_registry \<Rightarrow> policy_config \<Rightarrow> bool \<Rightarrow> 's \<Rightarrow> target_result fn_outcome \<times> 's" where
  "executeGroup ctx target registry cfg dryRun s =
     (let res = \<lparr>tr_TargetID = tg_ID target, tr_TargetPath = tg_FullPath target, tr_TargetName = tg_Name target,
                 tr_ResourceType = ResourceTypeGroup, tr_DryRun = dryRun, tr_Success = True, tr_HasChanges = False,
                 tr_Operations = [], tr_Error = None\<rparr>
      in if dryRun then finish_plan res (PlanTargetGroup registry ctx target cfg s)
         else finish_apply res (ApplyTargetGroup registry ctx target cfg s))"

subsection \<open>Required features\<close>

definition prunes :: "bool option \<Rightarrow> bool" where
  "prunes p \<longleftrightarrow> p = Some True"

definition requiredFeatures :: "(string \<Rightarrow> string) \<Rightarrow> policies_config \<Rightarrow> string list" where
  "requiredFeatures getenv pol =
     (case pol_ProtectedEnvironments pol of
        Some pe \<Rightarrow> if length (pes_Rules pe) > 0 \<or> prunes (pes_Prune pe) then [''governance.protected_environments''] else []
      | None \<Rightarrow> [])
     @ (case pol_ProtectedTags pol of
          Some pt \<Rightarrow> if length (pts_Rules pt) > 0 \<or> prunes (pts_Prune pt) then [''governance.protected_tags''] else []
        | None \<Rightarrow> [])
     @ (if pol_ApprovalRules pol \<noteq> None then [''governance.approval_rules''] else [])
     @ (if length (pol_BranchMerges pol) > 0 then [''governance.branch_merges''] else [])
     @ (if pol_TargetBranchRules pol \<noteq> None then [''governance.target_branch_rules''] else [])
     @ (if pol_Runners pol \<noteq> None then [''governance.runners''] else [])
     @ (if length (pol_Webhooks pol) > 0 then [''governance.webhooks''] else [])
     @ (if pol_PipelineRetention pol \<noteq> None then [''governance.pipeline_retention''] else [])
     @ (if pol_Compliance pol \<noteq> None then [''governance.compliance_frameworks''] else [])
     @ (if getenv ''AWS_LAMBDA_FUNCTION_NAME'' \<noteq> [] \<or> getenv ''AWS_LAMBDA_RUNTIME_API'' \<noteq> [] then [''runtime.lambda''] else [])"

subsection \<open>The run\<close>

record 's engine_runtime =
  rn_discovery :: discovery_runtime
  rn_license :: lic_env
  rn_serverTime :: "'s \<Rightarrow> time option"
  rn_group_events :: "pool_event list"
  rn_project_events :: "pool_event list"
  rn_target_ctx :: "resource_type \<Rightarrow> int \<Rightarrow> ctx"

definition project_change_of :: "target_result \<Rightarrow> project_change" where
  "project_change_of r =
     \<lparr>pc_ProjectID = tr_TargetID r, pc_ProjectPath = tr_TargetPath r,
      pc_Action = foldl (\<lambda>a op. or_Action op) ActionUpdate (ChangedOperations r),
      pc_Operations = map or_OperationName (ChangedOperations r)\<rparr>"

definition enforcement_of ::
  "'s engine_runtime \<Rightarrow> policy_config \<Rightarrow> bool \<Rightarrow> target_fleet \<Rightarrow> 's \<Rightarrow> enforcement_options" where
  "enforcement_of rt cfg dryRun fleet s =
     (let lic = set_License (cfg_Settings cfg) in
      \<lparr>eo_DiscoveredProjects = int (length (tf_Projects fleet)), eo_IsDryRun = dryRun,
       eo_GitLabBaseURL = gls_BaseURL (set_GitLab (cfg_Settings cfg)),
       eo_TargetPaths = map (tp_PathWithNamespace \<circ> snd) (tf_Projects fleet) @ map (tg_FullPath \<circ> snd) (tf_Groups fleet),
       eo_LicenseKey = lic_Key lic, eo_LicenseFile = lic_File lic, eo_CRL = lic_CRL lic, eo_CRLFile = lic_CRLFile lic,
       eo_CRLURL = lic_CRLURL lic, eo_Command = ''run'', eo_PublicKey = [], eo_EvaluationTime = None,
       eo_GitLabServerTime = rn_serverTime rt s,
       eo_RequiredFeatures = requiredFeatures (env_Getenv (rn_license rt)) (cfg_Policies cfg)\<rparr>)"

definition empty_result :: "bool \<Rightarrow> bool \<Rightarrow> target_fleet option \<Rightarrow> metrics_snapshot \<Rightarrow> go_error list \<Rightarrow> execution_result" where
  "empty_result dryRun success fleet snap errs =
     \<lparr>er_Mode = (if dryRun then ''plan'' else ''apply''), er_DryRun = dryRun, er_Success = success, er_Fleet = fleet,
      er_GroupResults = [], er_ProjectResults = [], er_TargetResults = [], er_Metrics = Some snap,
      er_ProjectChanges = [], er_Errors = errs\<rparr>"

definition run_targets ::
  "'s engine_runtime \<Rightarrow> 's operations_registry \<Rightarrow> policy_config \<Rightarrow> bool \<Rightarrow> int \<Rightarrow> target_fleet \<Rightarrow> summary_metrics \<Rightarrow> 's
   \<Rightarrow> (execution_result \<times> 's) option" where
  "run_targets rt registry cfg dryRun concurrency fleet metrics s =
     (case ParallelMap (rn_group_events rt) concurrency (GroupList fleet)
             (\<lambda>g. executeGroup (rn_target_ctx rt ResourceTypeGroup (tg_ID g)) g registry cfg dryRun) s of
        None \<Rightarrow> None
      | Some (gres, gerrs, s1) \<Rightarrow>
          (case ParallelMap (rn_project_events rt) concurrency (ProjectList fleet)
                  (\<lambda>p. executeProject (rn_target_ctx rt ResourceTypeProject (tp_ID p)) p registry cfg dryRun) s1 of
             None \<Rightarrow> None
           | Some (pres, perrs, s2) \<Rightarrow>
               (let groupResults = results_of gres; projectResults = results_of pres;
                    allErrors = gerrs @ perrs;
                    snap = Snapshot (record_all projectResults (record_all groupResults metrics))
                in Some (\<lparr>er_Mode = (if dryRun then ''plan'' else ''apply''), er_DryRun = dryRun,
                          er_Success = (length allErrors = 0 \<and> sn_TotalFailed snap = 0), er_Fleet = Some fleet,
                          er_GroupResults = groupResults, er_ProjectResults = projectResults,
                          er_TargetResults = sort_slice (\<lambda>r. (tr_TargetPath r, tr_TargetID r)) (groupResults @ projectResults),
                          er_Metrics = Some snap,
                          er_ProjectChanges = map project_change_of (filter tr_HasChanges projectResults),
                          er_Errors = allErrors\<rparr>, s2))))"

definition runWithOptions ::
  "'s engine_runtime \<Rightarrow> (string \<Rightarrow> int \<Rightarrow> 's governance_operation) \<Rightarrow> 's governance_engine \<Rightarrow> policy_config option \<Rightarrow> bool \<Rightarrow> int \<Rightarrow> 's
   \<Rightarrow> ((execution_result option \<times> go_error option) \<times> 's) option" where
  "runWithOptions rt mk e config dryRun concurrency0 s =
     (case eng_client e of
        None \<Rightarrow> Some ((None, Some ErrNilClient), s)
      | Some client \<Rightarrow>
     (case config of
        None \<Rightarrow> Some ((None, Some ErrNilConfig), s)
      | Some cfg \<Rightarrow>
          (let concurrency = (if concurrency0 \<le> 0 then 10 else concurrency0);
               registry = (case eng_registry e of Some r \<Rightarrow> r | None \<Rightarrow> NewDefaultRegistry mk);
               metrics = NewSummaryMetrics dryRun
           in case DiscoverFleet (rn_discovery rt) (Some (client s)) (cfg_Targets cfg) [WithConcurrency concurrency] of
                None \<Rightarrow> None
              | Some (Inl err) \<Rightarrow>
                  Some ((Some (empty_result dryRun False None (Snapshot metrics) [Wrapf ''fleet discovery failed'' err]), Some err), s)
              | Some (Inr fleet) \<Rightarrow>
                  (let metrics1 = RecordDiscovery (Some fleet) metrics in
                   case snd (Enforce (rn_license rt) (enforcement_of rt cfg dryRun fleet s)) of
                     Some err \<Rightarrow> Some ((Some (empty_result dryRun False (Some fleet) (Snapshot metrics1) [err]), Some err), s)
                   | None \<Rightarrow>
                       if IsEmpty fleet then Some ((Some (empty_result dryRun True (Some fleet) (Snapshot metrics1) []), None), s)
                       else case run_targets rt registry cfg dryRun concurrency fleet metrics1 s of
                         None \<Rightarrow> None
                       | Some (r, s') \<Rightarrow> Some ((Some r, None), s')))))"

definition engine_Execute where
  "engine_Execute rt mk e config s =
     (case config of
        None \<Rightarrow> Some ((None, Some ErrNilConfig), s)
      | Some cfg \<Rightarrow>
          runWithOptions rt mk e (Some cfg)
            (case set_DryRun (cfg_Settings cfg) of Some b \<Rightarrow> b | None \<Rightarrow> eng_dryRun e)
            (if set_Concurrency (cfg_Settings cfg) > 0 then set_Concurrency (cfg_Settings cfg) else eng_concurrency e) s)"

definition engine_Run where
  "engine_Run rt mk e s = runWithOptions rt mk e (eng_config e) (eng_dryRun e) (eng_concurrency e) s"

definition engine_Plan where
  "engine_Plan rt mk e s = runWithOptions rt mk e (eng_config e) True (eng_concurrency e) s"

definition engine_Apply where
  "engine_Apply rt mk e s = runWithOptions rt mk e (eng_config e) False (eng_concurrency e) s"

subsection \<open>Lemmas\<close>

lemma fold_results_simps:
  "tr_TargetID (fold_results ops res) = tr_TargetID res" "tr_TargetPath (fold_results ops res) = tr_TargetPath res"
  "tr_Error (fold_results ops res) = tr_Error res" "tr_DryRun (fold_results ops res) = tr_DryRun res"
  "tr_Operations (fold_results ops res) = tr_Operations res @ ops"
  "tr_Success (fold_results ops res) \<longleftrightarrow> tr_Success res \<and> list_all or_Success ops"
  "tr_HasChanges (fold_results ops res) \<longleftrightarrow> tr_HasChanges res \<or> list_ex or_HasChanges ops"
  by (induction ops arbitrary: res) (auto simp: fold_results_def)

lemma executeProject_returns:
  "fst (executeProject ctx target registry cfg dryRun s) = FnReturned r err \<Longrightarrow>
     tr_Error r = err \<and> tr_TargetID r = tp_ID target \<and> tr_TargetPath r = tp_PathWithNamespace target \<and> tr_DryRun r = dryRun"
  by (auto simp: executeProject_def finish_plan_def finish_apply_def with_error_def fold_results_simps Let_def
      split: if_splits prod.splits option.splits)

lemma executeGroup_returns:
  "fst (executeGroup ctx target registry cfg dryRun s) = FnReturned r err \<Longrightarrow>
     tr_Error r = err \<and> tr_TargetID r = tg_ID target \<and> tr_TargetPath r = tg_FullPath target \<and> tr_DryRun r = dryRun"
  by (auto simp: executeGroup_def finish_plan_def finish_apply_def with_error_def fold_results_simps Let_def
      split: if_splits prod.splits option.splits)

lemma set_results_of: "set (results_of rs) = {r. Some r \<in> set rs}"
proof (induction rs)
  case (Cons x rs)
  then show ?case by (cases x) auto
qed simp

lemma length_results_of: "None \<notin> set rs \<Longrightarrow> length (results_of rs) = length rs"
proof (induction rs)
  case (Cons x rs)
  then show ?case by (cases x) auto
qed simp

lemma run_targets_cases:
  assumes "run_targets rt registry cfg dryRun concurrency fleet metrics s = Some (r, s')"
  obtains gres gerrs s1 pres perrs where
    "ParallelMap (rn_group_events rt) concurrency (GroupList fleet)
       (\<lambda>g. executeGroup (rn_target_ctx rt ResourceTypeGroup (tg_ID g)) g registry cfg dryRun) s = Some (gres, gerrs, s1)"
    "ParallelMap (rn_project_events rt) concurrency (ProjectList fleet)
       (\<lambda>p. executeProject (rn_target_ctx rt ResourceTypeProject (tp_ID p)) p registry cfg dryRun) s1 = Some (pres, perrs, s')"
    "er_GroupResults r = results_of gres" "er_ProjectResults r = results_of pres" "er_Errors r = gerrs @ perrs"
    "er_TargetResults r = sort_slice (\<lambda>r. (tr_TargetPath r, tr_TargetID r)) (results_of gres @ results_of pres)"
    "er_Metrics r = Some (Snapshot (record_all (results_of pres) (record_all (results_of gres) metrics)))"
    "er_Success r \<longleftrightarrow> gerrs @ perrs = [] \<and> sn_TotalFailed (Snapshot (record_all (results_of pres) (record_all (results_of gres) metrics))) = 0"
    "er_Fleet r = Some fleet" "er_DryRun r = dryRun"
  using assms by (auto simp: run_targets_def Let_def split: option.splits prod.splits)

text \<open>No target result of a run carries an error: the pool dropped those that did.\<close>

lemma run_targets_no_errors:
  assumes "run_targets rt registry cfg dryRun concurrency fleet metrics s = Some (r, s')" and "tr \<in> set (er_TargetResults r)"
  shows "tr_Error tr = None"
  using assms(1)
proof (rule run_targets_cases)
  fix gres gerrs s1 pres perrs
  assume g: "ParallelMap (rn_group_events rt) concurrency (GroupList fleet)
       (\<lambda>g. executeGroup (rn_target_ctx rt ResourceTypeGroup (tg_ID g)) g registry cfg dryRun) s = Some (gres, gerrs, s1)"
    and p: "ParallelMap (rn_project_events rt) concurrency (ProjectList fleet)
       (\<lambda>p. executeProject (rn_target_ctx rt ResourceTypeProject (tp_ID p)) p registry cfg dryRun) s1 = Some (pres, perrs, s')"
    and t: "er_TargetResults r = sort_slice (\<lambda>r. (tr_TargetPath r, tr_TargetID r)) (results_of gres @ results_of pres)"
  from t assms(2) consider "Some tr \<in> set gres" | "Some tr \<in> set pres" by (auto simp: set_results_of)
  then show ?thesis
  proof cases
    case 1
    then show ?thesis using ParallelMap_origin [OF g 1] by (metis executeGroup_returns fst_conv)
  next
    case 2
    then show ?thesis using ParallelMap_origin [OF p 2] by (metis executeProject_returns fst_conv)
  qed
qed

text \<open>The results of a map by position: what the function returned for the item there.\<close>

lemma results_of_full: "None \<notin> set rs \<Longrightarrow> map Some (results_of rs) = rs"
proof (induction rs)
  case (Cons x rs)
  then show ?case by (cases x) auto
qed simp

definition results_for :: "('a \<Rightarrow> 's \<Rightarrow> target_result fn_outcome \<times> 's) \<Rightarrow> 'a list \<Rightarrow> target_result list \<Rightarrow> bool" where
  "results_for fn = list_all2 (\<lambda>item tr. \<exists>s s'. fn item s = (FnReturned tr None, s'))"

lemma ParallelMap_results_for:
  assumes "ParallelMap events c items fn s = Some (results, [], s')" and "uncancelled events"
  shows "results_for fn items (results_of results)"
proof -
  from ParallelMap_success [OF assms] have full: "length results = length items" "None \<notin> set results" by simp_all
  have "results ! i = Some (results_of results ! i)" if "i < length items" for i
    using results_of_full [OF full(2)] full that length_results_of [OF full(2)] by (metis nth_map)
  then show ?thesis
    using ParallelMap_slot [OF assms(1)] full length_results_of [OF full(2)]
    by (auto simp: results_for_def list_all2_conv_all_nth)
qed

lemma results_for_names:
  assumes "results_for fn items trs"
    and "\<And>item s r. fst (fn item s) = FnReturned r None \<Longrightarrow> tr_TargetID r = i item \<and> tr_TargetPath r = path item"
  shows "map (\<lambda>tr. (tr_TargetID tr, tr_TargetPath tr)) trs = map (\<lambda>x. (i x, path x)) items"
  using assms(1) unfolding results_for_def
proof (induction rule: list_all2_induct)
  case (Cons x xs y ys)
  then obtain s s' where "fn x s = (FnReturned y None, s')" by blast
  then have "tr_TargetID y = i x \<and> tr_TargetPath y = path x" using assms(2) [of x s y] by simp
  then show ?case using Cons.IH by simp
qed simp

text \<open>How one target of a run is executed.\<close>

definition on_group :: "'s engine_runtime \<Rightarrow> 's operations_registry \<Rightarrow> policy_config \<Rightarrow> bool \<Rightarrow> target_group \<Rightarrow> 's \<Rightarrow> target_result fn_outcome \<times> 's" where
  "on_group rt registry cfg dryRun g = executeGroup (rn_target_ctx rt ResourceTypeGroup (tg_ID g)) g registry cfg dryRun"

definition on_project :: "'s engine_runtime \<Rightarrow> 's operations_registry \<Rightarrow> policy_config \<Rightarrow> bool \<Rightarrow> target_project \<Rightarrow> 's \<Rightarrow> target_result fn_outcome \<times> 's" where
  "on_project rt registry cfg dryRun p = executeProject (rn_target_ctx rt ResourceTypeProject (tp_ID p)) p registry cfg dryRun"

definition registry_of :: "(string \<Rightarrow> int \<Rightarrow> 's governance_operation) \<Rightarrow> 's governance_engine \<Rightarrow> 's operations_registry" where
  "registry_of mk e = (case eng_registry e of Some r \<Rightarrow> r | None \<Rightarrow> NewDefaultRegistry mk)"

text \<open>A run without error has discovered the fleet and run its targets, or the fleet is empty.\<close>

lemma runWithOptions_fleet:
  assumes "runWithOptions rt mk e (Some cfg) dryRun c0 s = Some ((Some r, None), s')"
  obtains client fleet c where "eng_client e = Some client" "c = (if c0 \<le> 0 then 10 else c0)"
    "DiscoverFleet (rn_discovery rt) (Some (client s)) (cfg_Targets cfg) [WithConcurrency c] = Some (Inr fleet)"
    "er_Fleet r = Some fleet"
    "(IsEmpty fleet \<and> r = empty_result dryRun True (Some fleet) (Snapshot (RecordDiscovery (Some fleet) (NewSummaryMetrics dryRun))) [])
     \<or> run_targets rt (registry_of mk e) cfg dryRun c fleet (RecordDiscovery (Some fleet) (NewSummaryMetrics dryRun)) s = Some (r, s')"
  using assms
  by (auto simp: runWithOptions_def registry_of_def Let_def empty_result_def split: option.splits sum.splits if_splits prod.splits
      elim: run_targets_cases)

lemma fleet_ok_distinct: "fleet_ok fleet \<Longrightarrow> distinct (map tp_ID (ProjectList fleet))"
proof -
  assume ok: "fleet_ok fleet"
  then have keys: "map tp_ID (map snd (tf_Projects fleet)) = map fst (tf_Projects fleet)"
    by (auto simp: fleet_ok_def)
  have "mset (ProjectList fleet) = mset (map snd (tf_Projects fleet))" by (simp add: ProjectList_def)
  from arg_cong [OF this, of "image_mset tp_ID"] have "mset (map tp_ID (ProjectList fleet)) = mset (map fst (tf_Projects fleet))"
    unfolding keys [symmetric] by (simp only: mset_map)
  moreover have "distinct (map fst (tf_Projects fleet))" using ok by (simp add: fleet_ok_def go_map_ok_def)
  ultimately show ?thesis by (metis mset_eq_imp_distinct_iff)
qed

lemma runWithOptions_targets:
  assumes "runWithOptions rt mk e config dryRun c s = Some ((Some r, err), s')" and "er_TargetResults r \<noteq> []"
  shows "\<exists>registry cfg c fleet metrics. run_targets rt registry cfg dryRun c fleet metrics s = Some (r, s')"
  using assms
  by (auto simp: runWithOptions_def Let_def empty_result_def split: option.splits sum.splits if_splits prod.splits; blast)

lemma executeProject_remote:
  "snd (executeProject ctx target registry cfg dryRun s) =
     (if marked_for_deletion target then s
      else if dryRun then snd (PlanTargetProject registry ctx target cfg s)
      else snd (ApplyTargetProject registry ctx target cfg s))"
  by (auto simp: executeProject_def finish_plan_def finish_apply_def Let_def split: prod.splits)

lemma executeGroup_remote:
  "snd (executeGroup ctx target registry cfg dryRun s) =
     (if dryRun then snd (PlanTargetGroup registry ctx target cfg s) else snd (ApplyTargetGroup registry ctx target cfg s))"
  by (auto simp: executeGroup_def finish_plan_def finish_apply_def Let_def split: prod.splits)

context planning_keeps
begin

lemma run_targets_dry_run:
  assumes "run_targets rt reg cfg True c fleet metrics s = Some (r, s')" and "keep s"
  shows "keep s'"
  using assms(1)
proof (rule run_targets_cases)
  fix gres gerrs s1 pres perrs
  assume g: "ParallelMap (rn_group_events rt) c (GroupList fleet)
       (\<lambda>g. executeGroup (rn_target_ctx rt ResourceTypeGroup (tg_ID g)) g reg cfg True) s = Some (gres, gerrs, s1)"
    and p: "ParallelMap (rn_project_events rt) c (ProjectList fleet)
       (\<lambda>p. executeProject (rn_target_ctx rt ResourceTypeProject (tp_ID p)) p reg cfg True) s1 = Some (pres, perrs, s')"
  have "keep s1"
    by (rule ParallelMap_remote_inv [OF g, of keep]) (simp_all add: assms(2) executeGroup_remote PlanTarget_keeps)
  then show "keep s'"
    using ParallelMap_remote_inv [OF p, of keep] by (simp add: executeProject_remote PlanTarget_keeps)
qed

lemma dry_run_keeps:
  assumes "runWithOptions rt mk e config True c s = Some (out, s')" and "eng_registry e = Some reg" and "keep s"
  shows "keep s'"
  using assms
  by (auto simp: runWithOptions_def Let_def split: option.splits sum.splits if_splits prod.splits dest: run_targets_dry_run)

end

subsection \<open>Properties\<close>

text \<open>
  A dry run never changes the remote instance: with a registry whose planning methods do
  not mutate state (the contract of \<^verbatim>\<open>GovernanceOperation\<close>), \<^verbatim>\<open>runWithOptions\<close> in dry-run mode leaves the
  state as it was, whatever the policy, the fleet, the schedule, cancellations and errors.
\<close>

theorem engine_dry_run_safe:
  assumes "runWithOptions rt mk e config True c s = Some (out, s')" and "eng_registry e = Some reg"
    and "\<And>op project cfg s. op \<in> snd ` set reg \<Longrightarrow> snd (op_Plan op project cfg s) = s"
    and "\<And>op grp cfg s. op \<in> snd ` set reg \<Longrightarrow> snd (op_PlanGroup op grp cfg s) = s"
  shows "s' = s"
  by (rule planning_keeps.dry_run_keeps [of reg "\<lambda>x. x = s", OF _ assms(1,2)])
    ((unfold_locales; simp add: assms(3,4)), rule refl)

text \<open>
  A project marked for deletion is never touched, not even in apply mode: it yields a
  successful result with one skipped lifecycle operation and leaves the remote state unchanged.
\<close>

theorem marked_project_untouched:
  assumes "tp_MarkedForDeletionAt target \<noteq> None"
  shows "\<exists>r. executeProject ctx target registry cfg dryRun s = (FnReturned r None, s)
    \<and> tr_Success r \<and> \<not> tr_HasChanges r \<and> map or_OperationName (tr_Operations r) = [''lifecycle_check'']"
  using assms by (simp add: executeProject_def marked_for_deletion_def lifecycle_skip_def Let_def)

text \<open>
  Property C39. A project that fails is lost: the worker pool drops the value of a function that also returns an
  error. In every run over a discovered fleet, a project whose execution always returns an error has no
  target result, no target result of the run carries an error, and the failure counter counts none but
  the results that are there; without cancellation the failure shows in the list of errors alone.
\<close>

theorem failed_targets_are_lost:
  assumes run: "runWithOptions rt mk e (Some cfg) dryRun c s = Some ((Some r, None), s')"
    and fleet: "er_Fleet r = Some fleet" and t: "t \<in> set (ProjectList fleet)"
    and fails: "\<And>s. \<exists>res x s'. on_project rt (registry_of mk e) cfg dryRun t s = (FnReturned res (Some x), s')"
  shows "tp_ID t \<notin> tr_TargetID ` set (er_ProjectResults r)
    \<and> list_all (\<lambda>tr. tr_Error tr = None) (er_TargetResults r)
    \<and> (\<exists>snap. er_Metrics r = Some snap \<and> sn_TotalFailed snap = length (FailedTargets r))
    \<and> (uncancelled (rn_project_events rt) \<longrightarrow> er_Errors r \<noteq> [])"
  using run
proof (rule runWithOptions_fleet)
  fix client fl c'
  assume disc: "DiscoverFleet (rn_discovery rt) (Some (client s)) (cfg_Targets cfg) [WithConcurrency c'] = Some (Inr fl)"
    and fl: "er_Fleet r = Some fl"
    and cases: "(IsEmpty fl \<and> r = empty_result dryRun True (Some fl) (Snapshot (RecordDiscovery (Some fl) (NewSummaryMetrics dryRun))) [])
     \<or> run_targets rt (registry_of mk e) cfg dryRun c' fl (RecordDiscovery (Some fl) (NewSummaryMetrics dryRun)) s = Some (r, s')"
  have [simp]: "fl = fleet" using fl fleet by simp
  have "\<not> IsEmpty fleet" using t by (auto simp: IsEmpty_def ProjectList_def)
  with cases have targets: "run_targets rt (registry_of mk e) cfg dryRun c' fleet (RecordDiscovery (Some fleet) (NewSummaryMetrics dryRun)) s = Some (r, s')"
    by simp
  obtain client' fl' where "discovery_Execute (rn_discovery rt) client' = Some (Inr fleet)" "0 < dc_concurrency client'"
    using disc apply_options_concurrency by (auto simp: DiscoverFleet_def)
  then have "fleet_ok fleet" by (rule discovery_Execute_ok)
  then have distinct: "distinct (map tp_ID (ProjectList fleet))" by (rule fleet_ok_distinct)
  have errors: "list_all (\<lambda>tr. tr_Error tr = None) (er_TargetResults r)"
    using run_targets_no_errors [OF targets] by (simp add: list_all_iff)
  from targets show ?thesis
  proof (rule run_targets_cases)
    fix gres gerrs s1 pres perrs
    let ?m = "RecordDiscovery (Some fleet) (NewSummaryMetrics dryRun)"
    assume p: "ParallelMap (rn_project_events rt) c' (ProjectList fleet)
         (\<lambda>p. executeProject (rn_target_ctx rt ResourceTypeProject (tp_ID p)) p (registry_of mk e) cfg dryRun) s1 = Some (pres, perrs, s')"
      and er: "er_ProjectResults r = results_of pres" "er_Errors r = gerrs @ perrs"
        "er_TargetResults r = sort_slice (\<lambda>r. (tr_TargetPath r, tr_TargetID r)) (results_of gres @ results_of pres)"
        "er_Metrics r = Some (Snapshot (record_all (results_of pres) (record_all (results_of gres) ?m)))"
    obtain i where i: "i < length (ProjectList fleet)" "ProjectList fleet ! i = t" using t by (auto simp: in_set_conv_nth)
    have slot: "pres ! i = None"
      by (rule ParallelMap_drops_failed_results [OF p i(1)]) (use fails i(2) in \<open>simp add: on_project_def\<close>)
    have "tp_ID t \<notin> tr_TargetID ` set (results_of pres)"
    proof
      assume "tp_ID t \<in> tr_TargetID ` set (results_of pres)"
      then obtain tr j where j: "j < length pres" "pres ! j = Some tr" "tr_TargetID tr = tp_ID t"
        by (auto simp: set_results_of in_set_conv_nth)
      have len: "length pres = length (ProjectList fleet)" using ParallelMap_slot [OF p] by blast
      then obtain sa sb where "executeProject (rn_target_ctx rt ResourceTypeProject (tp_ID (ProjectList fleet ! j))) (ProjectList fleet ! j)
          (registry_of mk e) cfg dryRun sa = (FnReturned tr None, sb)"
        using ParallelMap_slot [OF p, of j tr] j by auto
      then have "tr_TargetID tr = tp_ID (ProjectList fleet ! j)" using executeProject_returns by (metis fst_conv)
      then have "j = i" using distinct i j len by (metis distinct_conv_nth length_map nth_map)
      then show False using slot j(2) by simp
    qed
    moreover have "sn_TotalFailed (Snapshot (record_all (results_of pres) (record_all (results_of gres) ?m))) = length (FailedTargets r)"
    proof -
      have m: "go_map_ok (sm_OperationCounts ?m)" "sm_TotalFailed ?m = 0" by (simp_all add: RecordDiscovery_def NewSummaryMetrics_def)
      have all: "record_all (results_of pres) (record_all (results_of gres) ?m) = record_all (results_of gres @ results_of pres) ?m"
        by (simp add: record_all_def)
      have "mset (FailedTargets r) = mset (filter tr_failed (results_of gres @ results_of pres))"
        by (simp add: FailedTargets_def er(3) tr_failed_def [abs_def])
      from arg_cong [OF this, of size] have "length (FailedTargets r) = length (filter tr_failed (results_of gres @ results_of pres))"
        by (simp only: size_mset)
      then show ?thesis
        using record_all_counts [OF m(1), of "results_of gres @ results_of pres"] m(2) unfolding all Snapshot_def Let_def by simp
    qed
    moreover have "perrs \<noteq> []" if "uncancelled (rn_project_events rt)"
    proof
      assume "perrs = []"
      from ParallelMap_success [OF p [unfolded this] that]
      have "None \<notin> set pres" "length pres = length (ProjectList fleet)" by simp_all
      then show False using slot i(1) by (metis nth_mem)
    qed
    ultimately show ?thesis using errors by (simp add: er)
  qed
qed

text \<open>
  Property C18. A run that succeeds and was not cancelled is complete: it discovered a fleet; its group results
  are, in the order of the fleet and under the fleet's IDs and paths, what executing each group returned,
  its project results are the same for the projects, and the target results are these together; every one
  of them succeeded, and the summary counts exactly them.
\<close>

theorem successful_run_complete:
  assumes run: "runWithOptions rt mk e (Some cfg) dryRun c s = Some ((Some r, None), s')"
    and success: "er_Success r" and events: "uncancelled (rn_group_events rt)" "uncancelled (rn_project_events rt)"
  shows "\<exists>fleet snap. er_Fleet r = Some fleet \<and> er_Metrics r = Some snap
    \<and> results_for (on_group rt (registry_of mk e) cfg dryRun) (GroupList fleet) (er_GroupResults r)
    \<and> results_for (on_project rt (registry_of mk e) cfg dryRun) (ProjectList fleet) (er_ProjectResults r)
    \<and> map (\<lambda>tr. (tr_TargetID tr, tr_TargetPath tr)) (er_GroupResults r) = map (\<lambda>g. (tg_ID g, tg_FullPath g)) (GroupList fleet)
    \<and> map (\<lambda>tr. (tr_TargetID tr, tr_TargetPath tr)) (er_ProjectResults r) = map (\<lambda>p. (tp_ID p, tp_PathWithNamespace p)) (ProjectList fleet)
    \<and> mset (er_TargetResults r) = mset (er_GroupResults r) + mset (er_ProjectResults r)
    \<and> list_all tr_Success (er_TargetResults r) \<and> FailedTargets r = []
    \<and> sn_TotalChanged snap + sn_TotalUnchanged snap = length (GroupList fleet) + length (ProjectList fleet)"
  using run
proof (rule runWithOptions_fleet)
  fix client fleet c'
  let ?m = "RecordDiscovery (Some fleet) (NewSummaryMetrics dryRun)"
  assume fleet: "er_Fleet r = Some fleet"
    and cases: "(IsEmpty fleet \<and> r = empty_result dryRun True (Some fleet) (Snapshot ?m) [])
     \<or> run_targets rt (registry_of mk e) cfg dryRun c' fleet ?m s = Some (r, s')"
  have m: "go_map_ok (sm_OperationCounts ?m)" "sm_TotalFailed ?m = 0" "sm_TotalChanged ?m = 0" "sm_TotalUnchanged ?m = 0"
    by (simp_all add: RecordDiscovery_def NewSummaryMetrics_def)
  show ?thesis
  proof (cases "IsEmpty fleet \<and> r = empty_result dryRun True (Some fleet) (Snapshot ?m) []")
    case True
    then have "ProjectList fleet = []" "GroupList fleet = []"
      by (auto simp: IsEmpty_def ProjectList_def GroupList_def simp flip: length_0_conv)
    then show ?thesis using True fleet m by (auto simp: empty_result_def FailedTargets_def results_for_def Snapshot_def Let_def)
  next
    case False
    with cases have "run_targets rt (registry_of mk e) cfg dryRun c' fleet ?m s = Some (r, s')" by blast
    then show ?thesis
    proof (rule run_targets_cases)
      fix gres gerrs s1 pres perrs
      assume g: "ParallelMap (rn_group_events rt) c' (GroupList fleet)
           (\<lambda>g. executeGroup (rn_target_ctx rt ResourceTypeGroup (tg_ID g)) g (registry_of mk e) cfg dryRun) s = Some (gres, gerrs, s1)"
        and p: "ParallelMap (rn_project_events rt) c' (ProjectList fleet)
           (\<lambda>p. executeProject (rn_target_ctx rt ResourceTypeProject (tp_ID p)) p (registry_of mk e) cfg dryRun) s1 = Some (pres, perrs, s')"
        and er: "er_GroupResults r = results_of gres" "er_ProjectResults r = results_of pres"
          "er_TargetResults r = sort_slice (\<lambda>r. (tr_TargetPath r, tr_TargetID r)) (results_of gres @ results_of pres)"
          "er_Metrics r = Some (Snapshot (record_all (results_of pres) (record_all (results_of gres) ?m)))"
        and succ: "er_Success r \<longleftrightarrow> gerrs @ perrs = [] \<and> sn_TotalFailed (Snapshot (record_all (results_of pres) (record_all (results_of gres) ?m))) = 0"
      let ?trs = "results_of gres @ results_of pres"
      have gp: "results_for (on_group rt (registry_of mk e) cfg dryRun) (GroupList fleet) (results_of gres)"
        "results_for (on_project rt (registry_of mk e) cfg dryRun) (ProjectList fleet) (results_of pres)"
        using ParallelMap_results_for [OF _ events(1)] ParallelMap_results_for [OF _ events(2)] g p succ success
        by (auto simp: on_group_def [abs_def] on_project_def [abs_def])
      have names: "map (\<lambda>tr. (tr_TargetID tr, tr_TargetPath tr)) (results_of gres) = map (\<lambda>g. (tg_ID g, tg_FullPath g)) (GroupList fleet)"
        "map (\<lambda>tr. (tr_TargetID tr, tr_TargetPath tr)) (results_of pres) = map (\<lambda>p. (tp_ID p, tp_PathWithNamespace p)) (ProjectList fleet)"
        by (rule results_for_names [OF gp(1)], simp add: on_group_def executeGroup_returns,
            rule results_for_names [OF gp(2)], simp add: on_project_def executeProject_returns)
      have all: "record_all (results_of pres) (record_all (results_of gres) ?m) = record_all ?trs ?m"
        by (simp add: record_all_def)
      note counts = record_all_counts [OF m(1), of ?trs, unfolded Let_def]
      have ok: "filter tr_failed ?trs = []"
        using succ success counts m by (simp add: all Snapshot_def Let_def)
      then have good: "\<forall>tr \<in> set ?trs. \<not> tr_failed tr" by (auto simp: filter_empty_conv)
      have "sn_TotalChanged (Snapshot (record_all ?trs ?m)) + sn_TotalUnchanged (Snapshot (record_all ?trs ?m)) = length ?trs"
        using counts m ok outcome_partition [of ?trs] by (simp add: Snapshot_def Let_def)
      moreover have "length (results_of gres) = length (GroupList fleet)" "length (results_of pres) = length (ProjectList fleet)"
        using names [THEN arg_cong, of length] by simp_all
      ultimately show ?thesis
        using good gp names fleet by (auto simp: er all FailedTargets_def tr_failed_def list_all_iff filter_empty_conv)
    qed
  qed
qed

text \<open>
  Licensing gates every mutation: when \<^verbatim>\<open>Enforce\<close> refuses the discovered fleet, the run fails
  with that error, reports no target results and leaves the remote instance untouched.
\<close>

theorem license_gates_run:
  assumes "DiscoverFleet (rn_discovery rt) (Some (client s)) (cfg_Targets cfg) [WithConcurrency c] = Some (Inr fleet)"
    and "snd (Enforce (rn_license rt) (enforcement_of rt cfg dryRun fleet s)) = Some err"
    and "eng_client e = Some client" and "0 < c"
  shows "\<exists>r. runWithOptions rt mk e (Some cfg) dryRun c s = Some ((Some r, Some err), s)
    \<and> \<not> er_Success r \<and> er_TargetResults r = [] \<and> er_Errors r = [err]"
  using assms by (simp add: runWithOptions_def empty_result_def Let_def)

subsection \<open>Witnesses\<close>

text \<open>
  A fleet of one project (discovered instance-wide from \<open>ex_client\<close>), one registered operation that
  counts its applications, one worker and an uncancelled schedule.
\<close>

definition ex_policy :: policy_config where
  "ex_policy = zero_policy_config\<lparr>cfg_Settings := Settings_SetDefaults (cfg_Settings zero_policy_config)\<rparr>"

definition ex_engine :: "nat governance_engine" where
  "ex_engine =
     \<lparr>eng_client = Some (\<lambda>_. ex_client), eng_config = Some ex_policy,
      eng_registry = Some (Register (ex_operation ''push_rules'' 10) NewOperationsRegistry),
      eng_concurrency = 1, eng_dryRun = True\<rparr>"

definition ex_engine_runtime :: "nat engine_runtime" where
  "ex_engine_runtime =
     \<lparr>rn_discovery = ex_runtime [], rn_license = ex_lic_env, rn_serverTime = (\<lambda>_. Some 0), rn_group_events = [],
      rn_project_events = [PSubmit 0, PTake 0, PStart 0, PClose, PFinish 0, PExit 0],
      rn_target_ctx = (\<lambda>_ _ _. None)\<rparr>"

lemma ex_run_dry: "\<not> Option.is_none (runWithOptions ex_engine_runtime ex_operation ex_engine (Some ex_policy) True 1 0)"
  by code_simp

theorem engine_dry_run_safe_witness:
  "\<exists>out. runWithOptions ex_engine_runtime ex_operation ex_engine (Some ex_policy) True 1 0 = Some (out, 0)"
proof -
  obtain out s' where r: "runWithOptions ex_engine_runtime ex_operation ex_engine (Some ex_policy) True 1 0 = Some (out, s')"
    using ex_run_dry by (auto simp: Option.is_none_def)
  have "s' = 0"
    by (rule engine_dry_run_safe [OF r, of "Register (ex_operation ''push_rules'' 10) NewOperationsRegistry"])
       (auto simp: ex_engine_def Register_def NewOperationsRegistry_def go_put_def ex_operation_def)
  with r show ?thesis by blast
qed

theorem marked_project_untouched_witness:
  "\<exists>r. executeProject (\<lambda>_. None) ((mk_target_project (ex_project 7 False) 0)\<lparr>tp_MarkedForDeletionAt := Some 5\<rparr>)
        [(''x'', ex_operation ''x'' 1)] ex_policy False 3 = (FnReturned r None, 3)"
  using marked_project_untouched [of "(mk_target_project (ex_project 7 False) 0)\<lparr>tp_MarkedForDeletionAt := Some 5\<rparr>"] by fastforce

text \<open>A run in apply mode of an engine with the one given operation.\<close>

definition ex_run :: "nat governance_operation \<Rightarrow> ((execution_result option \<times> go_error option) \<times> nat) option" where
  "ex_run op = runWithOptions ex_engine_runtime ex_operation
     (ex_engine\<lparr>eng_registry := Some (Register op NewOperationsRegistry)\<rparr>) (Some ex_policy) False 1 0"

definition ex_result :: "nat governance_operation \<Rightarrow> execution_result" where
  "ex_result op = the (fst (fst (the (ex_run op))))"

text \<open>An operation that changes the instance and then fails.\<close>

definition ex_faulty :: "nat governance_operation" where
  "ex_faulty = (ex_operation ''push_rules'' 10)\<lparr>op_Apply := (\<lambda>_ _ s. ((None, Some (Err ''boom'')), Suc s))\<rparr>"

definition ex_one_project :: target_project where
  "ex_one_project = hd (ProjectList (the (er_Fleet (ex_result ex_faulty))))"

lemma ex_run_result:
  assumes "(case ex_run op of Some ((Some r, None), s') \<Rightarrow> True | _ \<Rightarrow> False)"
  shows "\<exists>s'. ex_run op = Some ((Some (ex_result op), None), s')"
  using assms by (auto simp: ex_result_def split: option.splits prod.splits)

theorem failed_targets_are_lost_witness:
  "map tp_ID (ProjectList (the (er_Fleet (ex_result ex_faulty)))) = [7]
    \<and> er_ProjectResults (ex_result ex_faulty) = [] \<and> tp_ID ex_one_project \<notin> tr_TargetID ` set (er_ProjectResults (ex_result ex_faulty))
    \<and> er_Errors (ex_result ex_faulty) \<noteq> [] \<and> (\<exists>snap. er_Metrics (ex_result ex_faulty) = Some snap \<and> sn_TotalFailed snap = 0)"
proof -
  have one: "map tp_ID (ProjectList (the (er_Fleet (ex_result ex_faulty)))) = [7]" by code_simp
  have none: "er_ProjectResults (ex_result ex_faulty) = []" "FailedTargets (ex_result ex_faulty) = []" by code_simp+
  have fl: "\<not> Option.is_none (er_Fleet (ex_result ex_faulty))" by code_simp
  then obtain fleet where fleet: "er_Fleet (ex_result ex_faulty) = Some fleet" by (auto simp: Option.is_none_def)
  have t: "ex_one_project \<in> set (ProjectList fleet)"
    using one fleet by (cases "ProjectList fleet") (auto simp: ex_one_project_def)
  have live: "\<not> marked_for_deletion ex_one_project" by code_simp
  have ran: "(case ex_run ex_faulty of Some ((Some r, None), s') \<Rightarrow> True | _ \<Rightarrow> False)" by code_simp
  obtain s' where run: "runWithOptions ex_engine_runtime ex_operation
      (ex_engine\<lparr>eng_registry := Some (Register ex_faulty NewOperationsRegistry)\<rparr>) (Some ex_policy) False 1 0
      = Some ((Some (ex_result ex_faulty), None), s')"
    using ex_run_result [OF ran] unfolding ex_run_def by blast
  have fails: "\<exists>res x s'. on_project ex_engine_runtime
      (registry_of ex_operation (ex_engine\<lparr>eng_registry := Some (Register ex_faulty NewOperationsRegistry)\<rparr>)) ex_policy False
      ex_one_project s = (FnReturned res (Some x), s')" for s
    using live by (simp add: on_project_def registry_of_def executeProject_def Let_def ApplyTargetProject_def ApplyProject_def
        OrderedOperations_def Register_def NewOperationsRegistry_def go_put_def sort_slice_def ex_faulty_def ex_operation_def
        ex_engine_runtime_def finish_apply_def)
  have "uncancelled (rn_project_events ex_engine_runtime)" by (simp add: ex_engine_runtime_def uncancelled_def)
  then show ?thesis using failed_targets_are_lost [OF run fleet t fails] one none by simp
qed

theorem successful_run_complete_witness:
  "\<exists>fleet. er_Fleet (ex_result (ex_operation ''push_rules'' 10)) = Some fleet
    \<and> map tr_TargetID (er_ProjectResults (ex_result (ex_operation ''push_rules'' 10))) = map tp_ID (ProjectList fleet)
    \<and> map tp_ID (ProjectList fleet) = [7]"
proof -
  let ?op = "ex_operation ''push_rules'' 10" and ?r = "ex_result (ex_operation ''push_rules'' 10)"
  have "(case ex_run ?op of Some ((Some r, None), s') \<Rightarrow> True | _ \<Rightarrow> False)" by code_simp
  then obtain s' where run: "runWithOptions ex_engine_runtime ex_operation
      (ex_engine\<lparr>eng_registry := Some (Register ?op NewOperationsRegistry)\<rparr>) (Some ex_policy) False 1 0 = Some ((Some ?r, None), s')"
    using ex_run_result unfolding ex_run_def by blast
  have ok: "er_Success ?r" by code_simp
  have ids: "map tp_ID (ProjectList (the (er_Fleet ?r))) = [7]" by code_simp
  have ev: "uncancelled (rn_group_events ex_engine_runtime)" "uncancelled (rn_project_events ex_engine_runtime)"
    by (simp_all add: ex_engine_runtime_def uncancelled_def)
  obtain fleet where fleet: "er_Fleet ?r = Some fleet"
    and named: "map (\<lambda>tr. (tr_TargetID tr, tr_TargetPath tr)) (er_ProjectResults ?r) = map (\<lambda>p. (tp_ID p, tp_PathWithNamespace p)) (ProjectList fleet)"
    using successful_run_complete [OF run ok ev] by blast
  have "map tr_TargetID (er_ProjectResults ?r) = map tp_ID (ProjectList fleet)"
    using arg_cong [OF named, of "map fst"] by (simp add: comp_def)
  then show ?thesis using fleet ids by simp
qed

definition ex_pro_policy :: policy_config where
  "ex_pro_policy = ex_policy\<lparr>cfg_Policies := zero_policies\<lparr>pol_Runners :=
     Some \<lparr>rns_SharedRunnersEnabled = Some False, rns_GroupRunnersEnabled = None, rns_Runners = []\<rparr>\<rparr>\<rparr>"

theorem license_gates_run_witness:
  "\<exists>r err. runWithOptions ex_engine_runtime ex_operation ex_engine (Some ex_pro_policy) False 1 0 = Some ((Some r, Some err), 0)
    \<and> \<not> er_Success r"
proof -
  let ?d = "DiscoverFleet (rn_discovery ex_engine_runtime) (Some ex_client) (cfg_Targets ex_pro_policy) [WithConcurrency 1]"
  have "(case ?d of Some (Inr fleet) \<Rightarrow>
      \<not> Option.is_none (snd (Enforce (rn_license ex_engine_runtime) (enforcement_of ex_engine_runtime ex_pro_policy False fleet 0)))
    | _ \<Rightarrow> False)" by code_simp
  then obtain fleet err where "?d = Some (Inr fleet)"
    and "snd (Enforce (rn_license ex_engine_runtime) (enforcement_of ex_engine_runtime ex_pro_policy False fleet 0)) = Some err"
    by (auto simp: Option.is_none_def split: option.splits sum.splits)
  moreover have "eng_client ex_engine = Some (\<lambda>_. ex_client)" by (simp add: ex_engine_def)
  ultimately show ?thesis
    using license_gates_run [of ex_engine_runtime "\<lambda>_. ex_client" 0 ex_pro_policy 1 fleet False err ex_engine ex_operation] by auto
qed

end
