(* ===== verification/Gitlab_Api.thy ===== *)
theory Gitlab_Api
  imports Paged_Listing
begin

section \<open>Calls to the remote instance\<close>

text \<open>
  The shape of the service methods of \<^verbatim>\<open>internal/gitlab/interfaces.go\<close> as functions over the state \<open>'s\<close>
  of the remote instance, and the loop that reads all pages of a listing. A method that returns a
  value, a response and an error returns \<open>Inl\<close> the error or \<open>Inr\<close> the value (the sources never use the
  value next to a non-nil error); a method that returns an error only, or whose value is never used,
  returns an \<open>option\<close>.
\<close>

type_synonym ('a, 's) api = "'s \<Rightarrow> 'a go_result \<times> 's"

type_synonym 's api_error = "'s \<Rightarrow> go_error option \<times> 's"

subsection \<open>Reading all pages of a listing\<close>

text \<open>
  The loop of \<^verbatim>\<open>fetchAllLiveProtectedBranches\<close> and its siblings: fetch a page, append it, stop on
  a nil response or a \<^verbatim>\<open>NextPage\<close> of 0. \<open>None\<close> means that the loop does not return.
\<close>

partial_function (option) list_all_pages ::
  "(int \<Rightarrow> ('a page, 's) api) \<Rightarrow> int \<Rightarrow> 'a list \<Rightarrow> 's \<Rightarrow> ('a list go_result \<times> 's) option" where
  "list_all_pages fetch page acc s =
     (case fetch page s of
        (Inl e, s') \<Rightarrow> Some (Inl e, s')
      | (Inr (xs, resp), s') \<Rightarrow>
          (case resp of
             None \<Rightarrow> Some (Inr (acc @ xs), s')
           | Some n \<Rightarrow> if n = 0 then Some (Inr (acc @ xs), s') else list_all_pages fetch n (acc @ xs) s'))"

text \<open>Over an endpoint that only reads, the loop is the stateless one of \<open>fetch_pages\<close>.\<close>

lemma list_all_pages_read_only:
  assumes "\<And>p. fetch p s = (f p, s)" and "fetch_pages f page acc = Some r"
  shows "list_all_pages fetch page acc s = Some (r, s)"
proof -
  have "(\<forall>p. fetch p s = (f p, s)) \<longrightarrow> list_all_pages fetch page acc s = Some (r, s)"
  proof (rule fetch_pages.raw_induct [OF _ assms(2),
        where P = "\<lambda>f page acc r. (\<forall>p. fetch p s = (f p, s)) \<longrightarrow> list_all_pages fetch page acc s = Some (r, s)"], intro impI)
    fix g f page acc r
    assume "\<And>f page acc r. g f page acc = Some r \<Longrightarrow>
          (\<forall>p. fetch p s = (f p, s)) \<longrightarrow> list_all_pages fetch page acc s = Some (r, s)"
      and "(case f page of
              Inl e \<Rightarrow> Some (Inl e)
            | Inr (xs, resp) \<Rightarrow>
                (case resp of
                   None \<Rightarrow> Some (Inr (acc @ xs))
                 | Some n \<Rightarrow> if n = 0 then Some (Inr (acc @ xs)) else g f n (acc @ xs))) = Some r"
      and "\<forall>p. fetch p s = (f p, s)"
    then show "list_all_pages fetch page acc s = Some (r, s)"
      by (subst list_all_pages.simps) (auto split: sum.splits option.splits if_splits prod.splits)
  qed
  with assms(1) show ?thesis by simp
qed

end
