(* ===== verification/Reconciler.thy ===== *)
theory Reconciler
  imports Registry Gitlab_Api
begin

section \<open>What the reconcilers share\<close>

text \<open>
  The shape of the \<^verbatim>\<open>Plan\<close> and \<^verbatim>\<open>Apply\<close> methods of \<^verbatim>\<open>internal/governance\<close>: a plan is \<open>Inl\<close> its error or
  \<open>Inr\<close> its result (the methods never return both); an apply always returns a result, with an error
  next to it when it failed. The contract every reconciler promises is a locale: planning only
  reads, applying without drift changes nothing, and after a successful apply no drift is left.
\<close>

type_synonym resource = "resource_type \<times> int \<times> string"

type_synonym 's plan_fun = "'s \<Rightarrow> plan_result go_result \<times> 's"

type_synonym 's apply_fun = "'s \<Rightarrow> (apply_result \<times> go_error option) \<times> 's"

definition project_resource :: "gl_project \<Rightarrow> resource" where
  "project_resource p = (ResourceTypeProject, p_ID p, p_PathWithNamespace p)"

definition group_resource :: "gl_group \<Rightarrow> resource" where
  "group_resource g = (ResourceTypeGroup, g_ID g, g_FullPath g)"

subsection \<open>Results for a resource\<close>

definition noop_plan :: "string \<Rightarrow> resource \<Rightarrow> plan_result" where
  "noop_plan name r = (case r of (rt, i, path) \<Rightarrow> NewNoopPlanResult name rt i path)"

definition changes_plan :: "string \<Rightarrow> resource \<Rightarrow> action_type \<Rightarrow> diff list \<Rightarrow> plan_result" where
  "changes_plan name r action ds = (case r of (rt, i, path) \<Rightarrow> NewPlanResult name rt i path action ds)"

definition skipped_plan :: "string \<Rightarrow> resource \<Rightarrow> string \<Rightarrow> plan_result" where
  "skipped_plan name r reason = (case r of (rt, i, path) \<Rightarrow> NewSkippedPlanResult name rt i path reason)"

definition noop_apply :: "string \<Rightarrow> resource \<Rightarrow> apply_result \<times> go_error option" where
  "noop_apply name r = (case r of (rt, i, path) \<Rightarrow> (NewNoopApplyResult name rt i path, None))"

definition skipped_apply :: "string \<Rightarrow> resource \<Rightarrow> string \<Rightarrow> apply_result \<times> go_error option" where
  "skipped_apply name r reason = (case r of (rt, i, path) \<Rightarrow> (NewSkippedApplyResult name rt i path reason, None))"

text \<open>The error stored in the result may be wrapped where the returned one is not.\<close>

definition failed_apply ::
  "string \<Rightarrow> resource \<Rightarrow> action_type \<Rightarrow> diff list \<Rightarrow> go_error \<Rightarrow> go_error \<Rightarrow> apply_result \<times> go_error option" where
  "failed_apply name r action ds stored returned =
     (case r of (rt, i, path) \<Rightarrow> (NewApplyResult name rt i path action StatusFailed ds (Some stored), Some returned))"

definition ok_apply :: "string \<Rightarrow> resource \<Rightarrow> action_type \<Rightarrow> diff list \<Rightarrow> apply_result \<times> go_error option" where
  "ok_apply name r action ds =
     (case r of (rt, i, path) \<Rightarrow> (NewApplyResult name rt i path action StatusSuccess ds None, None))"

text \<open>\<^verbatim>\<open>if v != "" { opt.F = gitlab.Ptr(v) }\<close>\<close>

definition str_ptr :: "string \<Rightarrow> string option" where
  "str_ptr v = (if v \<noteq> [] then Some v else None)"

text \<open>The entries of a listing that are not nil.\<close>

definition present :: "'a option list \<Rightarrow> 'a list" where
  "present xs = List.map_filter id xs"

lemma present_simps [simp]: "present [] = []" "present (None # xs) = present xs" "present (Some x # xs) = x # present xs"
  by (simp_all add: present_def map_filter_simps)

lemma present_Some [simp]: "present (map Some xs) = xs"
  by (induction xs) simp_all

text \<open>\<^verbatim>\<open>if overallAction == ActionNoop { overallAction = a }\<close>\<close>

definition note_action :: "action_type \<Rightarrow> action_type \<Rightarrow> action_type" where
  "note_action a overall = (if overall = ActionNoop then a else overall)"

text \<open>The end of most \<^verbatim>\<open>Plan\<close> methods: no diffs are a no-op.\<close>

definition plan_of_diffs :: "string \<Rightarrow> resource \<Rightarrow> action_type \<Rightarrow> diff list \<Rightarrow> plan_result" where
  "plan_of_diffs name r action ds = (if ds = [] then noop_plan name r else changes_plan name r action ds)"

text \<open>The start of most \<^verbatim>\<open>Apply\<close> methods: plan first, fail with its error, stop without changes.\<close>

definition apply_after_plan ::
  "string \<Rightarrow> resource \<Rightarrow> 's plan_fun \<Rightarrow> (plan_result \<Rightarrow> 's apply_fun) \<Rightarrow> 's apply_fun" where
  "apply_after_plan name r plan mutate s =
     (case plan s of
        (Inl err, s') \<Rightarrow> (failed_apply name r ActionNoop [] err err, s')
      | (Inr pl, s') \<Rightarrow> if \<not> pr_HasChanges pl then (noop_apply name r, s') else mutate pl s')"

subsection \<open>As operations of the registry\<close>

definition plan_outcome :: "plan_result go_result \<times> 's \<Rightarrow> (plan_result, 's) op_outcome" where
  "plan_outcome r = (case r of (Inl e, s) \<Rightarrow> ((None, Some e), s) | (Inr pl, s) \<Rightarrow> ((Some pl, None), s))"

definition apply_outcome :: "(apply_result \<times> go_error option) \<times> 's \<Rightarrow> (apply_result, 's) op_outcome" where
  "apply_outcome r = (case r of ((res, e), s) \<Rightarrow> ((Some res, e), s))"

lemma snd_outcome [simp]: "snd (plan_outcome r) = snd r" "snd (apply_outcome q) = snd q"
  by (simp_all add: plan_outcome_def apply_outcome_def split: prod.splits sum.splits)

subsection \<open>Lemmas\<close>

lemma has_changes_simps [simp]:
  "\<not> pr_HasChanges (noop_plan name r)"
  "\<not> pr_HasChanges (skipped_plan name r reason)"
  "pr_HasChanges (changes_plan name r a ds) \<longleftrightarrow> a \<noteq> ActionNoop \<and> a \<noteq> ActionSkipped \<and> ds \<noteq> []"
  by (simp_all add: noop_plan_def skipped_plan_def changes_plan_def result_defs split: prod.splits)

lemma plan_of_diffs_changes [simp]:
  "a \<noteq> ActionNoop \<Longrightarrow> a \<noteq> ActionSkipped \<Longrightarrow> pr_HasChanges (plan_of_diffs name r a ds) \<longleftrightarrow> ds \<noteq> []"
  by (simp add: plan_of_diffs_def)

lemma apply_errors [simp]:
  "snd (noop_apply name r) = None" "snd (skipped_apply name r reason) = None"
  "snd (ok_apply name r a ds) = None" "snd (failed_apply name r a ds e1 e2) = Some e2"
  by (simp_all add: noop_apply_def skipped_apply_def ok_apply_def failed_apply_def split: prod.splits)

lemma apply_pairs [simp]:
  "noop_apply name r \<noteq> (res, Some e)" "ok_apply name r a ds \<noteq> (res, Some e)" "skipped_apply name r x \<noteq> (res, Some e)"
  "failed_apply name r a ds e1 e2 \<noteq> (res, None)"
  by (simp_all add: noop_apply_def skipped_apply_def ok_apply_def failed_apply_def split: prod.splits)

lemma fmt_d_nonempty [simp]: "fmt_d i \<noteq> []" "[] \<noteq> fmt_d i"
  using fmt_d_first [of i] by auto

lemma apply_exists [simp]:
  "\<exists>res. noop_apply name r = (res, None)" "\<exists>res. ok_apply name r a ds = (res, None)"
  "\<exists>res. skipped_apply name r x = (res, None)" "\<exists>res. failed_apply name r a ds e1 e2 = (res, Some e2)"
  by (simp_all add: prod_eq_iff)

lemma result_diffs [simp]:
  "pr_Diffs (noop_plan name r) = []" "pr_Diffs (changes_plan name r a ds) = ds"
  "ar_Diffs (fst (noop_apply name r)) = []" "ar_Diffs (fst (ok_apply name r a ds)) = ds"
  by (simp_all add: noop_plan_def changes_plan_def noop_apply_def ok_apply_def result_defs split: prod.splits)

lemma noop_status [simp]: "ar_Status (fst (noop_apply name r)) = StatusNoop"
  by (simp add: noop_apply_def result_defs split: prod.splits)

text \<open>The accumulated diffs and overall action of a plan loop: the action is a no-op as long as there is no diff.\<close>

definition tracks :: "diff list \<times> action_type \<Rightarrow> bool" where
  "tracks acc \<longleftrightarrow> snd acc \<noteq> ActionSkipped \<and> (snd acc = ActionNoop \<longleftrightarrow> fst acc = [])"

lemma tracks_start [simp]: "tracks ([], ActionNoop)"
  by (simp add: tracks_def)

lemma tracks_append [simp]:
  "tracks (ds, a) \<Longrightarrow> a' \<noteq> ActionNoop \<Longrightarrow> a' \<noteq> ActionSkipped \<Longrightarrow> tracks (ds @ [d], note_action a' a)"
  by (auto simp: tracks_def note_action_def)

lemma tracks_foldl: "(\<And>acc x. tracks acc \<Longrightarrow> tracks (f acc x)) \<Longrightarrow> tracks acc \<Longrightarrow> tracks (foldl f acc xs)"
  by (induction xs arbitrary: acc) simp_all

lemma tracks_plan [simp]: "tracks (ds, a) \<Longrightarrow> pr_HasChanges (plan_of_diffs name r a ds) \<longleftrightarrow> ds \<noteq> []"
  by (auto simp: tracks_def plan_of_diffs_def)

subsection \<open>The contract of a reconciler\<close>

definition settled :: "'s plan_fun \<Rightarrow> 's \<Rightarrow> bool" where
  "settled plan s \<longleftrightarrow> (case plan s of (Inl _, _) \<Rightarrow> False | (Inr pl, s') \<Rightarrow> s' = s \<and> \<not> pr_HasChanges pl)"

text \<open>The common start of the apply methods, against a plan that only reads.\<close>

lemma apply_after_plan_state:
  assumes "snd (plan s) = s" and "P s" and "\<And>pl. plan s = (Inr pl, s) \<Longrightarrow> pr_HasChanges pl \<Longrightarrow> P (snd (mutate pl s))"
  shows "P (snd (apply_after_plan name r plan mutate s))"
  using assms by (auto simp: apply_after_plan_def split: prod.splits sum.splits)

lemma apply_after_plan_settled: "settled plan s \<Longrightarrow> apply_after_plan name r plan mutate s = (noop_apply name r, s)"
  by (auto simp: apply_after_plan_def settled_def split: prod.splits sum.splits)

lemma apply_after_plan_settles:
  assumes "snd (plan s) = s" and "snd (fst (apply_after_plan name r plan mutate s)) = None"
    and "\<And>pl. plan s = (Inr pl, s) \<Longrightarrow> pr_HasChanges pl \<Longrightarrow> snd (fst (mutate pl s)) = None \<Longrightarrow>
           settled plan (snd (mutate pl s))"
  shows "settled plan (snd (apply_after_plan name r plan mutate s))"
  using assms by (auto simp: apply_after_plan_def settled_def split: prod.splits sum.splits if_splits)

text \<open>
  \<open>inv\<close> is what the remote instance guarantees of its state. The laws are the three promises of an
  operation; what follows for repeated runs is proved once.
\<close>

locale reconciler =
  fixes plan :: "'s plan_fun" and apply' :: "'s apply_fun" and inv :: "'s \<Rightarrow> bool"
  assumes plan_read_only: "inv s \<Longrightarrow> snd (plan s) = s"
    and apply_inv: "inv s \<Longrightarrow> inv (snd (apply' s))"
    and apply_settles: "inv s \<Longrightarrow> snd (fst (apply' s)) = None \<Longrightarrow> settled plan (snd (apply' s))"
    and settled_apply: "inv s \<Longrightarrow> settled plan s \<Longrightarrow>
      snd (apply' s) = s \<and> snd (fst (apply' s)) = None \<and> ar_Status (fst (fst (apply' s))) = StatusNoop"
begin

text \<open>A second run after a successful one is a no-op and leaves the instance as it is.\<close>

lemma idempotent:
  assumes "inv s" and "snd (fst (apply' s)) = None"
  shows "snd (apply' (snd (apply' s))) = snd (apply' s)"
    and "ar_Status (fst (fst (apply' (snd (apply' s))))) = StatusNoop"
  using settled_apply [OF apply_inv [OF assms(1)] apply_settles [OF assms]] by simp_all

lemma settled_iff: "inv s \<Longrightarrow> settled plan s \<longleftrightarrow> (\<exists>pl. plan s = (Inr pl, s) \<and> \<not> pr_HasChanges pl)"
  using plan_read_only [of s] by (auto simp: settled_def split: prod.splits sum.splits)

end

text \<open>Without a policy every reconciler is the one that does nothing.\<close>

lemma noop_reconciler:
  "reconciler (\<lambda>s. (Inr (noop_plan n r), s)) (\<lambda>s. (noop_apply n r, s)) P"
  by unfold_locales (simp_all add: settled_def)

end
