(* ===== verification/Gitlab_Services.thy ===== *)
theory Gitlab_Services
  imports Config_Model Paged_Listing Gitlab_Api
begin

section \<open>The GitLab services the reconcilers call\<close>

text \<open>
  The service interfaces of \<^verbatim>\<open>internal/gitlab/interfaces.go\<close> as records of functions over the
  state \<open>'s\<close> of the remote instance, with the SDK entities and option structs they exchange.
  A method that returns a value, a response and an error returns \<open>Inl\<close> the error or \<open>Inr\<close> the value
  (the sources never use the value next to a non-nil error); a method that returns an error only
  returns an \<open>option\<close>. The request options only carry the context, whose cancellation is one of the
  errors a call may return. A pointer in an option struct is an \<open>option\<close>; a list element that the
  sources test for nil is an \<open>option\<close>.
\<close>

subsection \<open>Projects\<close>

record edit_project_options =
  epo_DefaultBranch :: "string option"
  epo_SquashOption :: "string option"
  epo_MergeMethod :: "string option"
  epo_OnlyAllowMergeIfPipelineSucceeds :: "bool option"
  epo_AllowMergeOnSkippedPipeline :: "bool option"
  epo_OnlyAllowMergeIfAllDiscussionsAreResolved :: "bool option"
  epo_RemoveSourceBranchAfterMerge :: "bool option"
  epo_KeepLatestArtifact :: "bool option"
  epo_PrintingMergeRequestLinkEnabled :: "bool option"
  epo_AutoCancelPendingPipelines :: "string option"
  epo_AutoDevopsEnabled :: "bool option"
  epo_SharedRunnersEnabled :: "bool option"
  epo_GroupRunnersEnabled :: "bool option"

definition zero_edit_project_options :: edit_project_options where
  "zero_edit_project_options =
     \<lparr>epo_DefaultBranch = None, epo_SquashOption = None, epo_MergeMethod = None,
      epo_OnlyAllowMergeIfPipelineSucceeds = None, epo_AllowMergeOnSkippedPipeline = None,
      epo_OnlyAllowMergeIfAllDiscussionsAreResolved = None, epo_RemoveSourceBranchAfterMerge = None,
      epo_KeepLatestArtifact = None, epo_PrintingMergeRequestLinkEnabled = None,
      epo_AutoCancelPendingPipelines = None, epo_AutoDevopsEnabled = None,
      epo_SharedRunnersEnabled = None, epo_GroupRunnersEnabled = None\<rparr>"

record 's projects_service =
  GetProject :: "int \<Rightarrow> (gl_project option, 's) api"
  EditProject :: "int \<Rightarrow> edit_project_options \<Rightarrow> (gl_project, 's) api"
  GetProjectPipelineRetention :: "int \<Rightarrow> (int, 's) api"
  SetProjectPipelineRetention :: "int \<Rightarrow> int \<Rightarrow> 's api_error"

subsection \<open>Protected branches\<close>

record gl_branch_access =
  gba_AccessLevel :: int
  gba_UserID :: int
  gba_GroupID :: int
  gba_DeployKeyID :: int

record gl_protected_branch =
  glb_Name :: string
  glb_PushAccessLevels :: "gl_branch_access list"
  glb_MergeAccessLevels :: "gl_branch_access list"
  glb_UnprotectAccessLevels :: "gl_branch_access list"
  glb_AllowForcePush :: bool
  glb_CodeOwnerApprovalRequired :: bool

record branch_permission_options =
  bpo_AccessLevel :: "int option"
  bpo_UserID :: "int option"
  bpo_GroupID :: "int option"
  bpo_DeployKeyID :: "int option"

record protect_branches_options =
  pbo_Name :: string
  pbo_PushAccessLevel :: "int option"
  pbo_MergeAccessLevel :: "int option"
  pbo_UnprotectAccessLevel :: "int option"
  pbo_AllowedToPush :: "branch_permission_options list option"
  pbo_AllowedToMerge :: "branch_permission_options list option"
  pbo_AllowedToUnprotect :: "branch_permission_options list option"
  pbo_AllowForcePush :: "bool option"
  pbo_CodeOwnerApprovalRequired :: "bool option"

record 's protected_branches_service =
  ListProtectedBranches :: "int \<Rightarrow> int \<Rightarrow> int \<Rightarrow> (gl_protected_branch page, 's) api"
  ProtectRepositoryBranches :: "int \<Rightarrow> protect_branches_options \<Rightarrow> (gl_protected_branch, 's) api"
  UnprotectRepositoryBranches :: "int \<Rightarrow> string \<Rightarrow> 's api_error"
  UpdateProtectedBranch :: "int \<Rightarrow> string \<Rightarrow> bool option \<Rightarrow> (gl_protected_branch, 's) api"

subsection \<open>Push rules\<close>

record gl_push_rules =
  gpr_AuthorEmailRegex :: string
  gpr_BranchNameRegex :: string
  gpr_CommitMessageRegex :: string
  gpr_CommitMessageNegativeRegex :: string
  gpr_FileNameRegex :: string
  gpr_MaxFileSize :: int
  gpr_CommitCommitterCheck :: bool
  gpr_MemberCheck :: bool
  gpr_PreventSecrets :: bool
  gpr_DenyDeleteTag :: bool
  gpr_RejectUnsignedCommits :: bool
  gpr_RejectNonDCOCommits :: bool

text \<open>The add and edit options of projects and groups have the same fields.\<close>

record push_rule_options =
  pro_AuthorEmailRegex :: "string option"
  pro_BranchNameRegex :: "string option"
  pro_CommitMessageRegex :: "string option"
  pro_CommitMessageNegativeRegex :: "string option"
  pro_FileNameRegex :: "string option"
  pro_MaxFileSize :: "int option"
  pro_CommitCommitterCheck :: "bool option"
  pro_MemberCheck :: "bool option"
  pro_PreventSecrets :: "bool option"
  pro_DenyDeleteTag :: "bool option"
  pro_RejectUnsignedCommits :: "bool option"
  pro_RejectNonDCOCommits :: "bool option"

text \<open>The getters return the rule, the status of the response (when there is one) and the error.\<close>

type_synonym push_rule_reply = "gl_push_rules option \<times> int option \<times> go_error option"

record 's push_rules_service =
  GetProjectPushRule :: "int \<Rightarrow> 's \<Rightarrow> push_rule_reply \<times> 's"
  AddProjectPushRule :: "int \<Rightarrow> push_rule_options \<Rightarrow> 's api_error"
  EditProjectPushRule :: "int \<Rightarrow> push_rule_options \<Rightarrow> 's api_error"
  GetGroupPushRule :: "int \<Rightarrow> 's \<Rightarrow> push_rule_reply \<times> 's"
  AddGroupPushRule :: "int \<Rightarrow> push_rule_options \<Rightarrow> 's api_error"
  EditGroupPushRule :: "int \<Rightarrow> push_rule_options \<Rightarrow> 's api_error"

subsection \<open>CI/CD variables\<close>

text \<open>Project and group variables have the same fields.\<close>

record gl_variable =
  gv_Key :: string
  gv_Value :: string
  gv_VariableType :: string
  gv_Protected :: bool
  gv_Masked :: bool
  gv_Raw :: bool
  gv_EnvironmentScope :: string
  gv_Description :: string

record create_variable_options =
  cvo_Key :: string
  cvo_Value :: string
  cvo_EnvironmentScope :: string
  cvo_VariableType :: "string option"
  cvo_Protected :: "bool option"
  cvo_Masked :: "bool option"
  cvo_Raw :: "bool option"
  cvo_Description :: "string option"

text \<open>A project update names the scope in a filter; a group update sends it as a field.\<close>

record update_variable_options =
  uvo_Value :: string
  uvo_FilterScope :: "string option"
  uvo_EnvironmentScope :: "string option"
  uvo_VariableType :: "string option"
  uvo_Protected :: "bool option"
  uvo_Masked :: "bool option"
  uvo_Raw :: "bool option"
  uvo_Description :: "string option"

text \<open>The listings take the page size; the sources read the first page only.\<close>

record 's variables_service =
  ListProjectVariables :: "int \<Rightarrow> int \<Rightarrow> (gl_variable option list, 's) api"
  CreateProjectVariable :: "int \<Rightarrow> create_variable_options \<Rightarrow> 's api_error"
  UpdateProjectVariable :: "int \<Rightarrow> string \<Rightarrow> update_variable_options \<Rightarrow> 's api_error"
  RemoveProjectVariable :: "int \<Rightarrow> string \<Rightarrow> string \<Rightarrow> 's api_error"
  ListGroupVariables :: "int \<Rightarrow> int \<Rightarrow> (gl_variable option list, 's) api"
  CreateGroupVariable :: "int \<Rightarrow> create_variable_options \<Rightarrow> 's api_error"
  UpdateGroupVariable :: "int \<Rightarrow> string \<Rightarrow> update_variable_options \<Rightarrow> 's api_error"
  RemoveGroupVariable :: "int \<Rightarrow> string \<Rightarrow> 's api_error"

subsection \<open>Webhooks\<close>

record gl_hook =
  gh_ID :: int
  gh_URL :: string
  gh_PushEvents :: bool
  gh_MergeRequestsEvents :: bool
  gh_TagPushEvents :: bool
  gh_IssuesEvents :: bool
  gh_PipelineEvents :: bool
  gh_JobEvents :: bool
  gh_ReleasesEvents :: bool
  gh_EnableSSLVerification :: bool
  gh_PushEventsBranchFilter :: string

text \<open>\<^verbatim>\<open>AddProjectHookOptions\<close> and \<^verbatim>\<open>EditProjectHookOptions\<close>.\<close>

record hook_options =
  ho_URL :: string
  ho_PushEvents :: "bool option"
  ho_MergeRequestsEvents :: "bool option"
  ho_TagPushEvents :: "bool option"
  ho_IssuesEvents :: "bool option"
  ho_PipelineEvents :: "bool option"
  ho_JobEvents :: "bool option"
  ho_ReleasesEvents :: "bool option"
  ho_EnableSSLVerification :: "bool option"
  ho_PushEventsBranchFilter :: "string option"
  ho_Token :: "string option"

text \<open>The listing is called without pagination options: the server's default first page.\<close>

record 's webhooks_service =
  ListProjectHooks :: "int \<Rightarrow> (gl_hook option list, 's) api"
  AddProjectHook :: "int \<Rightarrow> hook_options \<Rightarrow> 's api_error"
  EditProjectHook :: "int \<Rightarrow> int \<Rightarrow> hook_options \<Rightarrow> 's api_error"
  DeleteProjectHook :: "int \<Rightarrow> int \<Rightarrow> 's api_error"

subsection \<open>Members\<close>

text \<open>An expiry date is a day number; \<open>None\<close> is the nil pointer.\<close>

record gl_member =
  gm_ID :: int
  gm_Username :: string
  gm_AccessLevel :: int
  gm_ExpiresAt :: "int option"

record 's members_service =
  ListProjectMembers :: "int \<Rightarrow> (gl_member option list, 's) api"
  ListAllProjectMembers :: "int \<Rightarrow> (gl_member option list, 's) api"
  ListAllGroupMembers :: "int \<Rightarrow> (gl_member option list, 's) api"

subsection \<open>Compliance frameworks\<close>

record compliance_framework =
  cf_ID :: string
  cf_Name :: string
  cf_Description :: string
  cf_Color :: string
  cf_Default :: bool

record 's compliance_service =
  GetProjectComplianceFrameworks :: "int \<Rightarrow> (compliance_framework list, 's) api"
  SetProjectComplianceFramework :: "int \<Rightarrow> string \<Rightarrow> 's api_error"
  RemoveProjectComplianceFramework :: "int \<Rightarrow> string \<Rightarrow> 's api_error"

subsection \<open>Target branch rules\<close>

record target_branch_rule =
  tr_ID :: string
  tr_Name :: string
  tr_TargetBranch :: string

text \<open>\<^verbatim>\<open>CreateTargetBranchRule\<close> is called with the numeric project ID.\<close>

record 's target_branch_rules_service =
  GetTargetBranchRules :: "string \<Rightarrow> (target_branch_rule list, 's) api"
  CreateTargetBranchRule :: "int \<Rightarrow> string \<Rightarrow> string \<Rightarrow> (target_branch_rule option, 's) api"
  DestroyTargetBranchRule :: "string \<Rightarrow> 's api_error"

subsection \<open>Runners\<close>

record gl_runner =
  grn_ID :: int
  grn_Description :: string

record gl_runner_details =
  grd_Description :: string
  grd_Paused :: bool
  grd_Locked :: bool
  grd_RunUntagged :: bool
  grd_AccessLevel :: string
  grd_MaximumTimeout :: int
  grd_TagList :: "string list"

record update_runner_options =
  uro_Description :: "string option"
  uro_Paused :: "bool option"
  uro_Locked :: "bool option"
  uro_RunUntagged :: "bool option"
  uro_AccessLevel :: "string option"
  uro_MaximumTimeout :: "int option"
  uro_TagList :: "string list option"

record 's runners_service =
  ListProjectRunners :: "int \<Rightarrow> (gl_runner list, 's) api"
  GetRunnerDetails :: "int \<Rightarrow> (gl_runner_details, 's) api"
  UpdateRunnerDetails :: "int \<Rightarrow> update_runner_options \<Rightarrow> 's api_error"

end
