(* ===== verification/Gitlab_Resources.thy ===== *)
theory Gitlab_Resources
  imports Config_Model Paged_Listing Gitlab_Api
begin

section \<open>The services for users, tags, environments, approvals, merge requests and files\<close>

text \<open>
  The remaining service interfaces of \<^verbatim>\<open>internal/gitlab/interfaces.go\<close>, with the conventions of
  \<open>Gitlab_Services\<close>.
\<close>

subsection \<open>Users and groups\<close>

record gl_user =
  gu_ID :: int
  gu_Username :: string
  gu_Name :: string

text \<open>\<^verbatim>\<open>ListUsers\<close> is called with a username filter, \<^verbatim>\<open>GetGroup\<close> with a full path.\<close>

record 's users_service =
  ListUsers :: "string \<Rightarrow> (gl_user list, 's) api"

record 's groups_service =
  GetGroup :: "string \<Rightarrow> (gl_group option, 's) api"

subsection \<open>Protected tags\<close>

record gl_tag_access =
  gta_AccessLevel :: int
  gta_UserID :: int
  gta_GroupID :: int

record gl_protected_tag =
  gpt_Name :: string
  gpt_CreateAccessLevels :: "gl_tag_access option list"

record tag_permission_options =
  tpo_AccessLevel :: "int option"
  tpo_UserID :: "int option"
  tpo_GroupID :: "int option"

record protect_tags_options =
  pto_Name :: string
  pto_CreateAccessLevel :: "int option"
  pto_AllowedToCreate :: "tag_permission_options list option"

record 's protected_tags_service =
  ListProtectedTags :: "int \<Rightarrow> int \<Rightarrow> int \<Rightarrow> (gl_protected_tag option page, 's) api"
  ProtectRepositoryTags :: "int \<Rightarrow> protect_tags_options \<Rightarrow> 's api_error"
  UnprotectRepositoryTags :: "int \<Rightarrow> string \<Rightarrow> 's api_error"

subsection \<open>Protected environments\<close>

record gl_environment_access =
  gea_AccessLevel :: int
  gea_UserID :: int
  gea_GroupID :: int

record gl_environment_approval =
  gar_AccessLevel :: int
  gar_UserID :: int
  gar_GroupID :: int
  gar_RequiredApprovalCount :: int

record gl_protected_environment =
  gpe_Name :: string
  gpe_DeployAccessLevels :: "gl_environment_access option list"
  gpe_RequiredApprovalCount :: int
  gpe_ApprovalRules :: "gl_environment_approval option list"

record environment_access_options =
  eao_AccessLevel :: "int option"
  eao_UserID :: "int option"
  eao_GroupID :: "int option"

record environment_approval_options =
  apo_AccessLevel :: "int option"
  apo_UserID :: "int option"
  apo_GroupID :: "int option"
  apo_RequiredApprovalCount :: "int option"

record protect_environments_options =
  peo_Name :: string
  peo_RequiredApprovalCount :: "int option"
  peo_DeployAccessLevels :: "environment_access_options list option"
  peo_ApprovalRules :: "environment_approval_options list option"

record 's protected_environments_service =
  ListProtectedEnvironments :: "int \<Rightarrow> int \<Rightarrow> int \<Rightarrow> (gl_protected_environment option page, 's) api"
  ProtectRepositoryEnvironments :: "int \<Rightarrow> protect_environments_options \<Rightarrow> 's api_error"
  UnprotectEnvironment :: "int \<Rightarrow> string \<Rightarrow> 's api_error"

record gl_environment =
  gen_ID :: int
  gen_Name :: string

record 's environments_service =
  ListEnvironments :: "int \<Rightarrow> int \<Rightarrow> int \<Rightarrow> (gl_environment option page, 's) api"

subsection \<open>Approval configuration and rules\<close>

record gl_approvals =
  gap_ApprovalsBeforeMerge :: int
  gap_ResetApprovalsOnPush :: bool
  gap_MergeRequestsAuthorApproval :: bool
  gap_MergeRequestsDisableCommittersApproval :: bool
  gap_DisableOverridingApproversPerMergeRequest :: bool
  gap_SelectiveCodeOwnerRemovals :: bool
  gap_RequirePasswordToApprove :: bool

record change_approvals_options =
  cao_ApprovalsBeforeMerge :: "int option"
  cao_ResetApprovalsOnPush :: "bool option"
  cao_MergeRequestsAuthorApproval :: "bool option"
  cao_MergeRequestsDisableCommittersApproval :: "bool option"
  cao_DisableOverridingApproversPerMergeRequest :: "bool option"
  cao_SelectiveCodeOwnerRemovals :: "bool option"
  cao_RequirePasswordToApprove :: "bool option"

record gl_approval_rule =
  gal_ID :: int
  gal_Name :: string
  gal_RuleType :: string
  gal_ApprovalsRequired :: int
  gal_Users :: "gl_user option list"
  gal_Groups :: "gl_group option list"

text \<open>\<^verbatim>\<open>CreateProjectLevelRuleOptions\<close> and \<^verbatim>\<open>UpdateProjectLevelRuleOptions\<close> (which has no rule type). A nil slice of IDs is \<open>None\<close>.\<close>

record approval_rule_options =
  aro_Name :: string
  aro_ApprovalsRequired :: int
  aro_UserIDs :: "int list option"
  aro_GroupIDs :: "int list option"
  aro_ProtectedBranchIDs :: "int list option"
  aro_RuleType :: "string option"

text \<open>The rules are listed without pagination options.\<close>

record 's approval_rules_service =
  GetApprovalConfiguration :: "int \<Rightarrow> (gl_approvals option, 's) api"
  ChangeApprovalConfiguration :: "int \<Rightarrow> change_approvals_options \<Rightarrow> 's api_error"
  GetProjectApprovalRules :: "int \<Rightarrow> (gl_approval_rule option list, 's) api"
  CreateProjectApprovalRule :: "int \<Rightarrow> approval_rule_options \<Rightarrow> 's api_error"
  UpdateProjectApprovalRule :: "int \<Rightarrow> int \<Rightarrow> approval_rule_options \<Rightarrow> 's api_error"
  DeleteProjectApprovalRule :: "int \<Rightarrow> int \<Rightarrow> 's api_error"

subsection \<open>Branches, merge requests and repository files\<close>

text \<open>Of a branch's commit only the identifier is used; \<open>None\<close> is the nil commit.\<close>

record gl_branch =
  gbr_Name :: string
  gbr_CommitID :: "string option"

record 's branches_service =
  GetBranch :: "int \<Rightarrow> string \<Rightarrow> (gl_branch, 's) api"
  CreateBranch :: "int \<Rightarrow> string \<Rightarrow> string \<Rightarrow> 's api_error"

record gl_merge_request =
  gmr_IID :: int
  gmr_Title :: string
  gmr_SourceBranch :: string
  gmr_TargetBranch :: string
  gmr_State :: string
  gmr_Labels :: "string list"
  gmr_HasConflicts :: bool
  gmr_DetailedMergeStatus :: string

record create_mr_options =
  cmo_SourceBranch :: string
  cmo_TargetBranch :: string
  cmo_Title :: string
  cmo_Labels :: "string list"
  cmo_Description :: "string option"
  cmo_RemoveSourceBranch :: "bool option"
  cmo_Squash :: "bool option"

record accept_mr_options =
  amo_MergeWhenPipelineSucceeds :: "bool option"
  amo_ShouldRemoveSourceBranch :: "bool option"
  amo_Squash :: "bool option"

text \<open>The listing takes source branch, target branch and state.\<close>

record 's merge_requests_service =
  ListProjectMergeRequests :: "int \<Rightarrow> string \<Rightarrow> string \<Rightarrow> string \<Rightarrow> (gl_merge_request list, 's) api"
  GetMergeRequest :: "int \<Rightarrow> int \<Rightarrow> (gl_merge_request option, 's) api"
  CreateMergeRequest :: "int \<Rightarrow> create_mr_options \<Rightarrow> (gl_merge_request, 's) api"
  AcceptMergeRequest :: "int \<Rightarrow> int \<Rightarrow> accept_mr_options \<Rightarrow> 's api_error"

text \<open>An error comes with the status of the response, where there was one.\<close>

type_synonym http_error = "go_error \<times> int option"

record file_options =
  fo_Branch :: string
  fo_Content :: string
  fo_CommitMessage :: string

record 's repository_files_service =
  GetRawFile :: "int \<Rightarrow> string \<Rightarrow> string \<Rightarrow> 's \<Rightarrow> (http_error + string) \<times> 's"
  CreateFile :: "int \<Rightarrow> string \<Rightarrow> file_options \<Rightarrow> 's \<Rightarrow> http_error option \<times> 's"
  UpdateFile :: "int \<Rightarrow> string \<Rightarrow> file_options \<Rightarrow> 's \<Rightarrow> http_error option \<times> 's"

end
