(* ===== verification/Gitlab_Client.thy ===== *)
theory Gitlab_Client
  imports Gitlab_Services Gitlab_Resources
begin

section \<open>The GitLab client\<close>

text \<open>\<^verbatim>\<open>GitLabClient\<close> of \<^verbatim>\<open>internal/gitlab/interfaces.go\<close>: the services of one remote instance.\<close>

text \<open>The environments service may be nil.\<close>

record 's gitlab_client =
  cl_Projects :: "'s projects_service"
  cl_Groups :: "'s groups_service"
  cl_ProtectedBranches :: "'s protected_branches_service"
  cl_ProtectedTags :: "'s protected_tags_service"
  cl_PushRules :: "'s push_rules_service"
  cl_ApprovalRules :: "'s approval_rules_service"
  cl_Variables :: "'s variables_service"
  cl_Runners :: "'s runners_service"
  cl_Compliance :: "'s compliance_service"
  cl_Webhooks :: "'s webhooks_service"
  cl_Members :: "'s members_service"
  cl_Users :: "'s users_service"
  cl_ProtectedEnvironments :: "'s protected_environments_service"
  cl_Environments :: "'s environments_service option"
  cl_TargetBranchRules :: "'s target_branch_rules_service"
  cl_RepositoryFiles :: "'s repository_files_service"
  cl_Branches :: "'s branches_service"
  cl_MergeRequests :: "'s merge_requests_service"

end
