(* ===== verification/Mock_State.thy ===== *)
theory Mock_State
  imports Gitlab_Client
begin

section \<open>The state of the mock GitLab server\<close>

text \<open>
  \<^verbatim>\<open>State\<close> of \<^verbatim>\<open>internal/testutil/mockserver/state.go\<close>, without the pipelines and the group relations,
  which no modelled service reads; how it resolves projects and groups; and what the handlers of
  \<^verbatim>\<open>router.go\<close> share. A nested Go map that is nil reads as empty. The list order of a map is one
  iteration order, the same for the pages of one listing. \<open>sdk_error\<close> is the error the SDK builds
  from a status and a message.
\<close>

type_synonym sdk_error = "int \<Rightarrow> string \<Rightarrow> go_error"

record mock_target_branch_rule =
  mtr_ID :: string
  mtr_Name :: string
  mtr_TargetBranch :: string
  mtr_Seq :: int

record mock_state =
  ms_projects :: "(int, gl_project) go_map"
  ms_projectByPath :: "(string, int) go_map"
  ms_nextProjectID :: int
  ms_pipelineRetention :: "(int, int) go_map"
  ms_groups :: "(int, gl_group) go_map"
  ms_groupByPath :: "(string, int) go_map"
  ms_projectPushRules :: "(int, gl_push_rules) go_map"
  ms_groupPushRules :: "(int, gl_push_rules) go_map"
  ms_protectedBranches :: "(int, (string, gl_protected_branch) go_map) go_map"
  ms_protectedTags :: "(int, (string, gl_protected_tag) go_map) go_map"
  ms_protectedEnvironments :: "(int, (string, gl_protected_environment) go_map) go_map"
  ms_environments :: "(int, (int, gl_environment) go_map) go_map"
  ms_nextEnvironmentID :: int
  ms_projectApprovals :: "(int, gl_approvals) go_map"
  ms_projectApprovalRules :: "(int, (int, gl_approval_rule) go_map) go_map"
  ms_nextApprovalRuleID :: int
  ms_projectVariables :: "(int, (string, gl_variable) go_map) go_map"
  ms_groupVariables :: "(int, (string, gl_variable) go_map) go_map"
  ms_runners :: "(int, gl_runner) go_map"
  ms_runnerDetails :: "(int, gl_runner_details) go_map"
  ms_nextRunnerID :: int
  ms_complianceFrameworks :: "(int, compliance_framework list) go_map"
  ms_projectHooks :: "(int, (int, gl_hook) go_map) go_map"
  ms_nextHookID :: int
  ms_projectMembers :: "(int, (int, gl_member) go_map) go_map"
  ms_groupMembers :: "(int, (int, gl_member) go_map) go_map"
  ms_targetBranchRules :: "(int, (string, mock_target_branch_rule) go_map) go_map"
  ms_nextTargetRuleID :: int
  ms_repositoryFiles :: "(int, (string, (string, string) go_map) go_map) go_map"
  ms_branches :: "(int, (string, gl_branch) go_map) go_map"
  ms_mergeRequests :: "(int, (int, gl_merge_request) go_map) go_map"
  ms_nextMRIID :: "(int, int) go_map"
  ms_users :: "(int, gl_user) go_map"
  ms_userByUsername :: "(string, int) go_map"
  ms_nextUserID :: int

definition NewState :: mock_state where
  "NewState =
     \<lparr>ms_projects = [], ms_projectByPath = [], ms_nextProjectID = 1, ms_pipelineRetention = [],
      ms_groups = [], ms_groupByPath = [], ms_projectPushRules = [], ms_groupPushRules = [],
      ms_protectedBranches = [], ms_protectedTags = [], ms_protectedEnvironments = [], ms_environments = [],
      ms_nextEnvironmentID = 1, ms_projectApprovals = [], ms_projectApprovalRules = [], ms_nextApprovalRuleID = 1,
      ms_projectVariables = [], ms_groupVariables = [], ms_runners = [], ms_runnerDetails = [],
      ms_nextRunnerID = 1, ms_complianceFrameworks = [], ms_projectHooks = [], ms_nextHookID = 1,
      ms_projectMembers = [], ms_groupMembers = [], ms_targetBranchRules = [], ms_nextTargetRuleID = 1,
      ms_repositoryFiles = [], ms_branches = [], ms_mergeRequests = [], ms_nextMRIID = [],
      ms_users = [], ms_userByUsername = [], ms_nextUserID = 1\<rparr>"

text \<open>Reading a nested map, and writing one entry of it.\<close>

definition inner :: "('k, ('j, 'v) go_map) go_map \<Rightarrow> 'k \<Rightarrow> ('j, 'v) go_map" where
  "inner m k = (case go_get m k of None \<Rightarrow> [] | Some x \<Rightarrow> x)"

definition put_inner :: "'k \<Rightarrow> 'j \<Rightarrow> 'v \<Rightarrow> ('k, ('j, 'v) go_map) go_map \<Rightarrow> ('k, ('j, 'v) go_map) go_map" where
  "put_inner k j v m = go_put k (go_put j v (inner m k)) m"

definition delete_inner :: "'k \<Rightarrow> 'j \<Rightarrow> ('k, ('j, 'v) go_map) go_map \<Rightarrow> ('k, ('j, 'v) go_map) go_map" where
  "delete_inner k j m = go_put k (go_delete j (inner m k)) m"

lemma inner_put [simp]: "inner (go_put k x m) k' = (if k' = k then x else inner m k')"
  by (simp add: inner_def)

lemma inner_put_inner [simp]: "inner (put_inner k j v m) k' = (if k' = k then go_put j v (inner m k) else inner m k')"
  by (simp add: put_inner_def)

lemma inner_delete_inner [simp]:
  "inner (delete_inner k j m) k' = (if k' = k then go_delete j (inner m k) else inner m k')"
  by (simp add: delete_inner_def)

subsection \<open>Resolving projects and groups\<close>

definition clean_lookup :: "(string, int) go_map \<Rightarrow> string \<Rightarrow> int option" where
  "clean_lookup byPath v =
     (let v' = (case PathUnescape v of Some u \<Rightarrow> u | None \<Rightarrow> v) in go_get byPath (Trim (ToLower v') ''/''))"

definition resolveProjectIDLocked :: "string \<Rightarrow> mock_state \<Rightarrow> int option" where
  "resolveProjectIDLocked idOrPath st =
     (let v = TrimPrefix idOrPath ''gid://gitlab/Project/'' in
      case Atoi v of Some i \<Rightarrow> Some i | None \<Rightarrow> clean_lookup (ms_projectByPath st) v)"

definition resolveGroupIDLocked :: "string \<Rightarrow> mock_state \<Rightarrow> int option" where
  "resolveGroupIDLocked idOrPath st =
     (case Atoi idOrPath of Some i \<Rightarrow> Some i | None \<Rightarrow> clean_lookup (ms_groupByPath st) idOrPath)"

text \<open>The client names a project or group by its number; it arrives as a path segment.\<close>

lemma resolve_project_number: "in_int64 pid \<Longrightarrow> resolveProjectIDLocked (fmt_d pid) st = Some pid"
  by (simp add: resolveProjectIDLocked_def in_int64_def Atoi_fmt_d is_digit_def)

lemma resolve_project_gid:
  "in_int64 pid \<Longrightarrow> resolveProjectIDLocked (''gid://gitlab/Project/'' @ fmt_d pid) st = Some pid"
  unfolding resolveProjectIDLocked_def TrimPrefix_append by (simp add: in_int64_def Atoi_fmt_d)

lemma resolve_group_number: "in_int64 gid \<Longrightarrow> resolveGroupIDLocked (fmt_d gid) st = Some gid"
  by (simp add: resolveGroupIDLocked_def in_int64_def Atoi_fmt_d)

lemma resolve_frame [simp]:
  "resolveProjectIDLocked x (st\<lparr>ms_projects := v0\<rparr>) = resolveProjectIDLocked x st"
  "resolveProjectIDLocked x (st\<lparr>ms_nextProjectID := v2\<rparr>) = resolveProjectIDLocked x st"
  "resolveProjectIDLocked x (st\<lparr>ms_pipelineRetention := v3\<rparr>) = resolveProjectIDLocked x st"
  "resolveProjectIDLocked x (st\<lparr>ms_groups := v4\<rparr>) = resolveProjectIDLocked x st"
  "resolveProjectIDLocked x (st\<lparr>ms_groupByPath := v5\<rparr>) = resolveProjectIDLocked x st"
  "resolveProjectIDLocked x (st\<lparr>ms_projectPushRules := v6\<rparr>) = resolveProjectIDLocked x st"
  "resolveProjectIDLocked x (st\<lparr>ms_groupPushRules := v7\<rparr>) = resolveProjectIDLocked x st"
  "resolveProjectIDLocked x (st\<lparr>ms_protectedBranches := v8\<rparr>) = resolveProjectIDLocked x st"
  "resolveProjectIDLocked x (st\<lparr>ms_protectedTags := v9\<rparr>) = resolveProjectIDLocked x st"
  "resolveProjectIDLocked x (st\<lparr>ms_protectedEnvironments := v10\<rparr>) = resolveProjectIDLocked x st"
  "resolveProjectIDLocked x (st\<lparr>ms_environments := v11\<rparr>) = resolveProjectIDLocked x st"
  "resolveProjectIDLocked x (st\<lparr>ms_nextEnvironmentID := v12\<rparr>) = resolveProjectIDLocked x st"
  "resolveProjectIDLocked x (st\<lparr>ms_projectApprovals := v13\<rparr>) = resolveProjectIDLocked x st"
  "resolveProjectIDLocked x (st\<lparr>ms_projectApprovalRules := v14\<rparr>) = resolveProjectIDLocked x st"
  "resolveProjectIDLocked x (st\<lparr>ms_nextApprovalRuleID := v15\<rparr>) = resolveProjectIDLocked x st"
  "resolveProjectIDLocked x (st\<lparr>ms_projectVariables := v16\<rparr>) = resolveProjectIDLocked x st"
  "resolveProjectIDLocked x (st\<lparr>ms_groupVariables := v17\<rparr>) = resolveProjectIDLocked x st"
  "resolveProjectIDLocked x (st\<lparr>ms_runners := v18\<rparr>) = resolveProjectIDLocked x st"
  "resolveProjectIDLocked x (st\<lparr>ms_runnerDetails := v19\<rparr>) = resolveProjectIDLocked x st"
  "resolveProjectIDLocked x (st\<lparr>ms_nextRunnerID := v20\<rparr>) = resolveProjectIDLocked x st"
  "resolveProjectIDLocked x (st\<lparr>ms_complianceFrameworks := v21\<rparr>) = resolveProjectIDLocked x st"
  "resolveProjectIDLocked x (st\<lparr>ms_projectHooks := v22\<rparr>) = resolveProjectIDLocked x st"
  "resolveProjectIDLocked x (st\<lparr>ms_nextHookID := v23\<rparr>) = resolveProjectIDLocked x st"
  "resolveProjectIDLocked x (st\<lparr>ms_projectMembers := v24\<rparr>) = resolveProjectIDLocked x st"
  "resolveProjectIDLocked x (st\<lparr>ms_groupMembers := v25\<rparr>) = resolveProjectIDLocked x st"
  "resolveProjectIDLocked x (st\<lparr>ms_targetBranchRules := v26\<rparr>) = resolveProjectIDLocked x st"
  "resolveProjectIDLocked x (st\<lparr>ms_nextTargetRuleID := v27\<rparr>) = resolveProjectIDLocked x st"
  "resolveProjectIDLocked x (st\<lparr>ms_repositoryFiles := v28\<rparr>) = resolveProjectIDLocked x st"
  "resolveProjectIDLocked x (st\<lparr>ms_branches := v29\<rparr>) = resolveProjectIDLocked x st"
  "resolveProjectIDLocked x (st\<lparr>ms_mergeRequests := v30\<rparr>) = resolveProjectIDLocked x st"
  "resolveProjectIDLocked x (st\<lparr>ms_nextMRIID := v31\<rparr>) = resolveProjectIDLocked x st"
  "resolveProjectIDLocked x (st\<lparr>ms_users := v32\<rparr>) = resolveProjectIDLocked x st"
  "resolveProjectIDLocked x (st\<lparr>ms_userByUsername := v33\<rparr>) = resolveProjectIDLocked x st"
  "resolveProjectIDLocked x (st\<lparr>ms_nextUserID := v34\<rparr>) = resolveProjectIDLocked x st"
  by (simp_all add: resolveProjectIDLocked_def cong: option.case_cong)

lemma resolve_group_frame [simp]:
  "resolveGroupIDLocked x (st\<lparr>ms_projects := v0\<rparr>) = resolveGroupIDLocked x st"
  "resolveGroupIDLocked x (st\<lparr>ms_projectByPath := v1\<rparr>) = resolveGroupIDLocked x st"
  "resolveGroupIDLocked x (st\<lparr>ms_nextProjectID := v2\<rparr>) = resolveGroupIDLocked x st"
  "resolveGroupIDLocked x (st\<lparr>ms_pipelineRetention := v3\<rparr>) = resolveGroupIDLocked x st"
  "resolveGroupIDLocked x (st\<lparr>ms_groups := v4\<rparr>) = resolveGroupIDLocked x st"
  "resolveGroupIDLocked x (st\<lparr>ms_projectPushRules := v6\<rparr>) = resolveGroupIDLocked x st"
  "resolveGroupIDLocked x (st\<lparr>ms_groupPushRules := v7\<rparr>) = resolveGroupIDLocked x st"
  "resolveGroupIDLocked x (st\<lparr>ms_protectedBranches := v8\<rparr>) = resolveGroupIDLocked x st"
  "resolveGroupIDLocked x (st\<lparr>ms_protectedTags := v9\<rparr>) = resolveGroupIDLocked x st"
  "resolveGroupIDLocked x (st\<lparr>ms_protectedEnvironments := v10\<rparr>) = resolveGroupIDLocked x st"
  "resolveGroupIDLocked x (st\<lparr>ms_environments := v11\<rparr>) = resolveGroupIDLocked x st"
  "resolveGroupIDLocked x (st\<lparr>ms_nextEnvironmentID := v12\<rparr>) = resolveGroupIDLocked x st"
  "resolveGroupIDLocked x (st\<lparr>ms_projectApprovals := v13\<rparr>) = resolveGroupIDLocked x st"
  "resolveGroupIDLocked x (st\<lparr>ms_projectApprovalRules := v14\<rparr>) = resolveGroupIDLocked x st"
  "resolveGroupIDLocked x (st\<lparr>ms_nextApprovalRuleID := v15\<rparr>) = resolveGroupIDLocked x st"
  "resolveGroupIDLocked x (st\<lparr>ms_projectVariables := v16\<rparr>) = resolveGroupIDLocked x st"
  "resolveGroupIDLocked x (st\<lparr>ms_groupVariables := v17\<rparr>) = resolveGroupIDLocked x st"
  "resolveGroupIDLocked x (st\<lparr>ms_runners := v18\<rparr>) = resolveGroupIDLocked x st"
  "resolveGroupIDLocked x (st\<lparr>ms_runnerDetails := v19\<rparr>) = resolveGroupIDLocked x st"
  "resolveGroupIDLocked x (st\<lparr>ms_nextRunnerID := v20\<rparr>) = resolveGroupIDLocked x st"
  "resolveGroupIDLocked x (st\<lparr>ms_complianceFrameworks := v21\<rparr>) = resolveGroupIDLocked x st"
  "resolveGroupIDLocked x (st\<lparr>ms_projectHooks := v22\<rparr>) = resolveGroupIDLocked x st"
  "resolveGroupIDLocked x (st\<lparr>ms_nextHookID := v23\<rparr>) = resolveGroupIDLocked x st"
  "resolveGroupIDLocked x (st\<lparr>ms_projectMembers := v24\<rparr>) = resolveGroupIDLocked x st"
  "resolveGroupIDLocked x (st\<lparr>ms_groupMembers := v25\<rparr>) = resolveGroupIDLocked x st"
  "resolveGroupIDLocked x (st\<lparr>ms_targetBranchRules := v26\<rparr>) = resolveGroupIDLocked x st"
  "resolveGroupIDLocked x (st\<lparr>ms_nextTargetRuleID := v27\<rparr>) = resolveGroupIDLocked x st"
  "resolveGroupIDLocked x (st\<lparr>ms_repositoryFiles := v28\<rparr>) = resolveGroupIDLocked x st"
  "resolveGroupIDLocked x (st\<lparr>ms_branches := v29\<rparr>) = resolveGroupIDLocked x st"
  "resolveGroupIDLocked x (st\<lparr>ms_mergeRequests := v30\<rparr>) = resolveGroupIDLocked x st"
  "resolveGroupIDLocked x (st\<lparr>ms_nextMRIID := v31\<rparr>) = resolveGroupIDLocked x st"
  "resolveGroupIDLocked x (st\<lparr>ms_users := v32\<rparr>) = resolveGroupIDLocked x st"
  "resolveGroupIDLocked x (st\<lparr>ms_userByUsername := v33\<rparr>) = resolveGroupIDLocked x st"
  "resolveGroupIDLocked x (st\<lparr>ms_nextUserID := v34\<rparr>) = resolveGroupIDLocked x st"
  by (simp_all add: resolveGroupIDLocked_def cong: option.case_cong)

subsection \<open>What the handlers share\<close>

text \<open>A field of a request body that is present replaces the old value.\<close>

definition set_when :: "'a option \<Rightarrow> 'a \<Rightarrow> 'a" where
  "set_when v old = (case v of None \<Rightarrow> old | Some x \<Rightarrow> x)"

definition found_or_404 :: "sdk_error \<Rightarrow> string \<Rightarrow> bool \<times> mock_state \<Rightarrow> go_error option \<times> mock_state" where
  "found_or_404 err msg r = (case r of (ok, st) \<Rightarrow> (if ok then None else Some (err 404 msg), st))"

text \<open>The first page of a listing, with a page size or with the server's default of 20.\<close>

definition first_page_of :: "int \<Rightarrow> 'a list \<Rightarrow> 'a option list" where
  "first_page_of perPage xs = map Some (fst (paginate_page (Some perPage) None xs))"

definition first_page :: "'a list \<Rightarrow> 'a option list" where
  "first_page xs = map Some (fst (paginate_page None None xs))"

end
