(* ===== verification/Mock_Resources.thy ===== *)
theory Mock_Resources
  imports Mock_State
begin

section \<open>The mock GitLab server: tags, environments, approvals, runners, hooks, merge requests and files\<close>

text \<open>
  The handlers of \<^verbatim>\<open>internal/testutil/mockserver/router.go\<close> and their state functions in \<^verbatim>\<open>state.go\<close> for
  the resources named above, as the services of the client. A pointer in a request body that is
  absent decodes to nil, any other absent field to its zero value; a pointer and its target are one
  value, since no handler keeps an alias of a stored entity but the one it edits.
\<close>

subsection \<open>Users and groups\<close>

definition State_GetUser :: "int \<Rightarrow> mock_state \<Rightarrow> gl_user option" where
  "State_GetUser i st = go_get (ms_users st) i"

definition GetUserByUsername :: "string \<Rightarrow> mock_state \<Rightarrow> gl_user option" where
  "GetUserByUsername username st =
     (case go_get (ms_userByUsername st) (ToLower username) of None \<Rightarrow> None | Some i \<Rightarrow> go_get (ms_users st) i)"

definition State_ListUsers :: "mock_state \<Rightarrow> gl_user list" where
  "State_ListUsers st = map snd (ms_users st)"

definition State_GetGroup :: "string \<Rightarrow> mock_state \<Rightarrow> gl_group option" where
  "State_GetGroup idOrPath st =
     (case resolveGroupIDLocked idOrPath st of None \<Rightarrow> None | Some i \<Rightarrow> go_get (ms_groups st) i)"

text \<open>An empty username lists everybody, a page at a time.\<close>

definition mock_users :: "mock_state users_service" where
  "mock_users = \<lparr>ListUsers = (\<lambda>username st.
     (Inr (if username \<noteq> [] then (case GetUserByUsername username st of Some u \<Rightarrow> [u] | None \<Rightarrow> [])
           else fst (paginate_page None None (State_ListUsers st))), st))\<rparr>"

definition mock_groups :: "sdk_error \<Rightarrow> mock_state groups_service" where
  "mock_groups err = \<lparr>GetGroup = (\<lambda>path st.
     (case State_GetGroup path st of Some g \<Rightarrow> Inr (Some g) | None \<Rightarrow> Inl (err 404 ''404 Group Not Found''), st))\<rparr>"

subsection \<open>Protected tags\<close>

definition State_ListProtectedTags :: "string \<Rightarrow> mock_state \<Rightarrow> gl_protected_tag list" where
  "State_ListProtectedTags idOrPath st =
     (case resolveProjectIDLocked idOrPath st of
        None \<Rightarrow> [] | Some i \<Rightarrow> map snd (inner (ms_protectedTags st) i))"

definition ProtectTag :: "string \<Rightarrow> gl_protected_tag \<Rightarrow> mock_state \<Rightarrow> bool \<times> mock_state" where
  "ProtectTag idOrPath t st =
     (case resolveProjectIDLocked idOrPath st of
        None \<Rightarrow> (False, st)
      | Some i \<Rightarrow> (True, st\<lparr>ms_protectedTags := put_inner i (gpt_Name t) t (ms_protectedTags st)\<rparr>))"

definition UnprotectTag :: "string \<Rightarrow> string \<Rightarrow> mock_state \<Rightarrow> bool \<times> mock_state" where
  "UnprotectTag idOrPath tag st =
     (case resolveProjectIDLocked idOrPath st of
        None \<Rightarrow> (False, st)
      | Some i \<Rightarrow>
          (if go_get (inner (ms_protectedTags st) i) tag = None then (False, st)
           else (True, st\<lparr>ms_protectedTags := delete_inner i tag (ms_protectedTags st)\<rparr>)))"

definition decode_tag_permission :: "tag_permission_options \<Rightarrow> gl_tag_access" where
  "decode_tag_permission o' =
     \<lparr>gta_AccessLevel = set_when (tpo_AccessLevel o') 0, gta_UserID = set_when (tpo_UserID o') 0,
      gta_GroupID = set_when (tpo_GroupID o') 0\<rparr>"

definition tag_of_options :: "protect_tags_options \<Rightarrow> gl_protected_tag" where
  "tag_of_options o' =
     \<lparr>gpt_Name = pto_Name o',
      gpt_CreateAccessLevels =
        (case pto_AllowedToCreate o' of
           Some (x # xs) \<Rightarrow> map (Some \<circ> decode_tag_permission) (x # xs)
         | _ \<Rightarrow> (case pto_CreateAccessLevel o' of
                   Some l \<Rightarrow> [Some \<lparr>gta_AccessLevel = l, gta_UserID = 0, gta_GroupID = 0\<rparr>]
                 | None \<Rightarrow> []))\<rparr>"

definition mock_tags :: "sdk_error \<Rightarrow> mock_state protected_tags_service" where
  "mock_tags err =
     \<lparr>ListProtectedTags = (\<lambda>pid page perPage st.
        (mock_list perPage (map Some (State_ListProtectedTags (fmt_d pid) st)) page, st)),
      ProtectRepositoryTags = (\<lambda>pid o' st.
        found_or_404 err ''404 Project Not Found'' (ProtectTag (fmt_d pid) (tag_of_options o') st)),
      UnprotectRepositoryTags = (\<lambda>pid tag st.
        found_or_404 err ''404 Protected Tag Not Found'' (UnprotectTag (fmt_d pid) tag st))\<rparr>"

subsection \<open>Protected environments\<close>

definition State_ListProtectedEnvironments :: "string \<Rightarrow> mock_state \<Rightarrow> gl_protected_environment list" where
  "State_ListProtectedEnvironments idOrPath st =
     (case resolveProjectIDLocked idOrPath st of
        None \<Rightarrow> [] | Some i \<Rightarrow> map snd (inner (ms_protectedEnvironments st) i))"

definition ProtectEnvironment :: "string \<Rightarrow> gl_protected_environment \<Rightarrow> mock_state \<Rightarrow> bool \<times> mock_state" where
  "ProtectEnvironment idOrPath e st =
     (case resolveProjectIDLocked idOrPath st of
        None \<Rightarrow> (False, st)
      | Some i \<Rightarrow> (True, st\<lparr>ms_protectedEnvironments := put_inner i (gpe_Name e) e (ms_protectedEnvironments st)\<rparr>))"

definition State_UnprotectEnvironment :: "string \<Rightarrow> string \<Rightarrow> mock_state \<Rightarrow> bool \<times> mock_state" where
  "State_UnprotectEnvironment idOrPath envName st =
     (case resolveProjectIDLocked idOrPath st of
        None \<Rightarrow> (False, st)
      | Some i \<Rightarrow>
          (if go_get (inner (ms_protectedEnvironments st) i) envName = None then (False, st)
           else (True, st\<lparr>ms_protectedEnvironments := delete_inner i envName (ms_protectedEnvironments st)\<rparr>)))"

definition State_ListEnvironments :: "string \<Rightarrow> mock_state \<Rightarrow> gl_environment list" where
  "State_ListEnvironments idOrPath st =
     (case resolveProjectIDLocked idOrPath st of None \<Rightarrow> [] | Some i \<Rightarrow> map snd (inner (ms_environments st) i))"

definition AddEnvironment :: "string \<Rightarrow> gl_environment \<Rightarrow> mock_state \<Rightarrow> bool \<times> mock_state" where
  "AddEnvironment idOrPath env0 st =
     (case resolveProjectIDLocked idOrPath st of
        None \<Rightarrow> (False, st)
      | Some i \<Rightarrow>
          (let n = ms_nextEnvironmentID st; fresh = (gen_ID env0 = 0);
               env = (if fresh then env0\<lparr>gen_ID := n\<rparr> else env0)
           in (True, st\<lparr>ms_nextEnvironmentID := (if fresh then n + 1 else n),
                        ms_environments := put_inner i (gen_ID env) env (ms_environments st)\<rparr>)))"

text \<open>The body of the request, decoded as a protected environment.\<close>

definition decode_environment_access :: "environment_access_options \<Rightarrow> gl_environment_access" where
  "decode_environment_access o' =
     \<lparr>gea_AccessLevel = set_when (eao_AccessLevel o') 0, gea_UserID = set_when (eao_UserID o') 0,
      gea_GroupID = set_when (eao_GroupID o') 0\<rparr>"

definition decode_environment_approval :: "environment_approval_options \<Rightarrow> gl_environment_approval" where
  "decode_environment_approval o' =
     \<lparr>gar_AccessLevel = set_when (apo_AccessLevel o') 0, gar_UserID = set_when (apo_UserID o') 0,
      gar_GroupID = set_when (apo_GroupID o') 0, gar_RequiredApprovalCount = set_when (apo_RequiredApprovalCount o') 0\<rparr>"

definition environment_of_options :: "protect_environments_options \<Rightarrow> gl_protected_environment" where
  "environment_of_options o' =
     \<lparr>gpe_Name = peo_Name o',
      gpe_DeployAccessLevels = map (Some \<circ> decode_environment_access) (set_when (peo_DeployAccessLevels o') []),
      gpe_RequiredApprovalCount = set_when (peo_RequiredApprovalCount o') 0,
      gpe_ApprovalRules = map (Some \<circ> decode_environment_approval) (set_when (peo_ApprovalRules o') [])\<rparr>"

definition mock_protected_environments :: "sdk_error \<Rightarrow> mock_state protected_environments_service" where
  "mock_protected_environments err =
     \<lparr>ListProtectedEnvironments = (\<lambda>pid page perPage st.
        (mock_list perPage (map Some (State_ListProtectedEnvironments (fmt_d pid) st)) page, st)),
      ProtectRepositoryEnvironments = (\<lambda>pid o' st.
        found_or_404 err ''404 Project Not Found'' (ProtectEnvironment (fmt_d pid) (environment_of_options o') st)),
      UnprotectEnvironment = (\<lambda>pid name st.
        found_or_404 err ''404 Protected Environment Not Found'' (State_UnprotectEnvironment (fmt_d pid) name st))\<rparr>"

definition mock_environments :: "mock_state environments_service" where
  "mock_environments = \<lparr>ListEnvironments = (\<lambda>pid page perPage st.
     (mock_list perPage (map Some (State_ListEnvironments (fmt_d pid) st)) page, st))\<rparr>"

subsection \<open>Approval configuration and rules\<close>

definition zero_approvals :: gl_approvals where
  "zero_approvals =
     \<lparr>gap_ApprovalsBeforeMerge = 0, gap_ResetApprovalsOnPush = False, gap_MergeRequestsAuthorApproval = False,
      gap_MergeRequestsDisableCommittersApproval = False, gap_DisableOverridingApproversPerMergeRequest = False,
      gap_SelectiveCodeOwnerRemovals = False, gap_RequirePasswordToApprove = False\<rparr>"

definition GetProjectApprovals :: "string \<Rightarrow> mock_state \<Rightarrow> gl_approvals option" where
  "GetProjectApprovals idOrPath st =
     (case resolveProjectIDLocked idOrPath st of
        None \<Rightarrow> None
      | Some i \<Rightarrow> Some (case go_get (ms_projectApprovals st) i of None \<Rightarrow> zero_approvals | Some a \<Rightarrow> a))"

definition SetProjectApprovals :: "string \<Rightarrow> gl_approvals \<Rightarrow> mock_state \<Rightarrow> bool \<times> mock_state" where
  "SetProjectApprovals idOrPath a st =
     (case resolveProjectIDLocked idOrPath st of
        None \<Rightarrow> (False, st) | Some i \<Rightarrow> (True, st\<lparr>ms_projectApprovals := go_put i a (ms_projectApprovals st)\<rparr>))"

text \<open>Changing the configuration stores the decoded body: what is not declared is reset.\<close>

definition approvals_of_options :: "change_approvals_options \<Rightarrow> gl_approvals" where
  "approvals_of_options o' =
     \<lparr>gap_ApprovalsBeforeMerge = set_when (cao_ApprovalsBeforeMerge o') 0,
      gap_ResetApprovalsOnPush = set_when (cao_ResetApprovalsOnPush o') False,
      gap_MergeRequestsAuthorApproval = set_when (cao_MergeRequestsAuthorApproval o') False,
      gap_MergeRequestsDisableCommittersApproval = set_when (cao_MergeRequestsDisableCommittersApproval o') False,
      gap_DisableOverridingApproversPerMergeRequest = set_when (cao_DisableOverridingApproversPerMergeRequest o') False,
      gap_SelectiveCodeOwnerRemovals = set_when (cao_SelectiveCodeOwnerRemovals o') False,
      gap_RequirePasswordToApprove = set_when (cao_RequirePasswordToApprove o') False\<rparr>"

definition ListApprovalRules :: "string \<Rightarrow> mock_state \<Rightarrow> gl_approval_rule list" where
  "ListApprovalRules idOrPath st =
     (case resolveProjectIDLocked idOrPath st of
        None \<Rightarrow> [] | Some i \<Rightarrow> map snd (inner (ms_projectApprovalRules st) i))"

definition AddApprovalRule :: "string \<Rightarrow> gl_approval_rule \<Rightarrow> mock_state \<Rightarrow> bool \<times> mock_state" where
  "AddApprovalRule idOrPath r0 st =
     (case resolveProjectIDLocked idOrPath st of
        None \<Rightarrow> (False, st)
      | Some i \<Rightarrow>
          (let n = ms_nextApprovalRuleID st;
               r = (if gal_ID r0 = 0 then r0\<lparr>gal_ID := n\<rparr> else r0);
               n' = (if gal_ID r0 = 0 then n + 1 else if gal_ID r0 \<ge> n then gal_ID r0 + 1 else n)
           in (True, st\<lparr>ms_nextApprovalRuleID := n',
                        ms_projectApprovalRules := put_inner i (gal_ID r) r (ms_projectApprovalRules st)\<rparr>)))"

definition UpdateApprovalRule ::
  "string \<Rightarrow> int \<Rightarrow> (gl_approval_rule \<Rightarrow> gl_approval_rule) \<Rightarrow> mock_state \<Rightarrow> bool \<times> mock_state" where
  "UpdateApprovalRule idOrPath ruleID updater st =
     (case resolveProjectIDLocked idOrPath st of
        None \<Rightarrow> (False, st)
      | Some i \<Rightarrow>
          (case go_get (inner (ms_projectApprovalRules st) i) ruleID of
             None \<Rightarrow> (False, st)
           | Some r \<Rightarrow> (True, st\<lparr>ms_projectApprovalRules := put_inner i ruleID (updater r) (ms_projectApprovalRules st)\<rparr>)))"

definition DeleteApprovalRule :: "string \<Rightarrow> int \<Rightarrow> mock_state \<Rightarrow> bool \<times> mock_state" where
  "DeleteApprovalRule idOrPath ruleID st =
     (case resolveProjectIDLocked idOrPath st of
        None \<Rightarrow> (False, st)
      | Some i \<Rightarrow>
          (if go_get (inner (ms_projectApprovalRules st) i) ruleID = None then (False, st)
           else (True, st\<lparr>ms_projectApprovalRules := delete_inner i ruleID (ms_projectApprovalRules st)\<rparr>)))"

text \<open>Identifiers without a user or group of that number are dropped.\<close>

definition approvers :: "int list \<Rightarrow> mock_state \<Rightarrow> gl_user option list" where
  "approvers ids st = map Some (List.map_filter (\<lambda>i. State_GetUser i st) ids)"

definition approver_groups :: "int list \<Rightarrow> mock_state \<Rightarrow> gl_group option list" where
  "approver_groups ids st = map Some (List.map_filter (\<lambda>i. State_GetGroup (fmt_d i) st) ids)"

definition approval_rule_of_options :: "approval_rule_options \<Rightarrow> mock_state \<Rightarrow> gl_approval_rule" where
  "approval_rule_of_options o' st =
     \<lparr>gal_ID = 0, gal_Name = aro_Name o',
      gal_RuleType = (let t = set_when (aro_RuleType o') [] in if t = [] then ''regular'' else t),
      gal_ApprovalsRequired = aro_ApprovalsRequired o', gal_Users = approvers (set_when (aro_UserIDs o') []) st,
      gal_Groups = approver_groups (set_when (aro_GroupIDs o') []) st\<rparr>"

definition edit_approval_rule :: "approval_rule_options \<Rightarrow> mock_state \<Rightarrow> gl_approval_rule \<Rightarrow> gl_approval_rule" where
  "edit_approval_rule o' st r =
     r\<lparr>gal_Name := aro_Name o', gal_ApprovalsRequired := aro_ApprovalsRequired o',
       gal_Users := (case aro_UserIDs o' of None \<Rightarrow> gal_Users r | Some ids \<Rightarrow> approvers ids st),
       gal_Groups := (case aro_GroupIDs o' of None \<Rightarrow> gal_Groups r | Some ids \<Rightarrow> approver_groups ids st)\<rparr>"

definition mock_approvals :: "sdk_error \<Rightarrow> mock_state approval_rules_service" where
  "mock_approvals err =
     \<lparr>GetApprovalConfiguration = (\<lambda>pid st.
        (case GetProjectApprovals (fmt_d pid) st of
           None \<Rightarrow> Inl (err 404 ''404 Project Not Found'') | Some a \<Rightarrow> Inr (Some a), st)),
      ChangeApprovalConfiguration = (\<lambda>pid o' st.
        found_or_404 err ''404 Project Not Found'' (SetProjectApprovals (fmt_d pid) (approvals_of_options o') st)),
      GetProjectApprovalRules = (\<lambda>pid st. (Inr (first_page (ListApprovalRules (fmt_d pid) st)), st)),
      CreateProjectApprovalRule = (\<lambda>pid o' st.
        found_or_404 err ''404 Project Not Found'' (AddApprovalRule (fmt_d pid) (approval_rule_of_options o' st) st)),
      UpdateProjectApprovalRule = (\<lambda>pid rid o' st.
        found_or_404 err ''404 Rule Not Found'' (UpdateApprovalRule (fmt_d pid) rid (edit_approval_rule o' st) st)),
      DeleteProjectApprovalRule = (\<lambda>pid rid st.
        found_or_404 err ''404 Rule Not Found'' (DeleteApprovalRule (fmt_d pid) rid st))\<rparr>"

subsection \<open>Runners\<close>

text \<open>The project's listing returns every runner of the instance.\<close>

definition ListRunners :: "mock_state \<Rightarrow> gl_runner list" where
  "ListRunners st = map snd (ms_runners st)"

definition AddRunner :: "gl_runner \<Rightarrow> gl_runner_details option \<Rightarrow> mock_state \<Rightarrow> mock_state" where
  "AddRunner r0 details st =
     (let n = ms_nextRunnerID st;
          r = (if grn_ID r0 = 0 then r0\<lparr>grn_ID := n\<rparr> else r0);
          n' = (if grn_ID r0 = 0 then n + 1 else if grn_ID r0 \<ge> n then grn_ID r0 + 1 else n)
      in st\<lparr>ms_nextRunnerID := n', ms_runners := go_put (grn_ID r) r (ms_runners st),
            ms_runnerDetails := (case details of None \<Rightarrow> ms_runnerDetails st
                                 | Some d \<Rightarrow> go_put (grn_ID r) d (ms_runnerDetails st))\<rparr>)"

definition State_GetRunnerDetails :: "int \<Rightarrow> mock_state \<Rightarrow> gl_runner_details option" where
  "State_GetRunnerDetails i st = go_get (ms_runnerDetails st) i"

definition State_UpdateRunnerDetails ::
  "int \<Rightarrow> (gl_runner_details \<Rightarrow> gl_runner_details) \<Rightarrow> mock_state \<Rightarrow> bool \<times> mock_state" where
  "State_UpdateRunnerDetails i updater st =
     (case go_get (ms_runnerDetails st) i of
        None \<Rightarrow> (False, st)
      | Some d \<Rightarrow> (True, st\<lparr>ms_runnerDetails := go_put i (updater d) (ms_runnerDetails st)\<rparr>))"

text \<open>The handler stores neither \<^verbatim>\<open>run_untagged\<close> nor \<^verbatim>\<open>maximum_timeout\<close>.\<close>

definition edit_runner :: "update_runner_options \<Rightarrow> gl_runner_details \<Rightarrow> gl_runner_details" where
  "edit_runner o' d =
     d\<lparr>grd_Description := set_when (uro_Description o') (grd_Description d), grd_Paused := set_when (uro_Paused o') (grd_Paused d),
       grd_Locked := set_when (uro_Locked o') (grd_Locked d), grd_AccessLevel := set_when (uro_AccessLevel o') (grd_AccessLevel d),
       grd_TagList := set_when (uro_TagList o') (grd_TagList d)\<rparr>"

definition mock_runners :: "sdk_error \<Rightarrow> mock_state runners_service" where
  "mock_runners err =
     \<lparr>ListProjectRunners = (\<lambda>pid st. (Inr (fst (paginate_page None None (ListRunners st))), st)),
      GetRunnerDetails = (\<lambda>i st.
        (case State_GetRunnerDetails i st of
           None \<Rightarrow> Inl (err 404 ''404 Runner Not Found'') | Some d \<Rightarrow> Inr d, st)),
      UpdateRunnerDetails = (\<lambda>i o' st.
        found_or_404 err ''404 Runner Not Found'' (State_UpdateRunnerDetails i (edit_runner o') st))\<rparr>"

subsection \<open>Webhooks\<close>

definition State_ListProjectHooks :: "string \<Rightarrow> mock_state \<Rightarrow> gl_hook list" where
  "State_ListProjectHooks idOrPath st =
     (case resolveProjectIDLocked idOrPath st of None \<Rightarrow> [] | Some i \<Rightarrow> map snd (inner (ms_projectHooks st) i))"

definition State_AddProjectHook :: "string \<Rightarrow> gl_hook \<Rightarrow> mock_state \<Rightarrow> bool \<times> mock_state" where
  "State_AddProjectHook idOrPath h0 st =
     (case resolveProjectIDLocked idOrPath st of
        None \<Rightarrow> (False, st)
      | Some i \<Rightarrow>
          (let n = ms_nextHookID st;
               h = (if gh_ID h0 = 0 then h0\<lparr>gh_ID := n\<rparr> else h0);
               n' = (if gh_ID h0 = 0 then n + 1 else if gh_ID h0 \<ge> n then gh_ID h0 + 1 else n)
           in (True, st\<lparr>ms_nextHookID := n', ms_projectHooks := put_inner i (gh_ID h) h (ms_projectHooks st)\<rparr>)))"

definition State_EditProjectHook :: "string \<Rightarrow> int \<Rightarrow> (gl_hook \<Rightarrow> gl_hook) \<Rightarrow> mock_state \<Rightarrow> bool \<times> mock_state" where
  "State_EditProjectHook idOrPath hookID updater st =
     (case resolveProjectIDLocked idOrPath st of
        None \<Rightarrow> (False, st)
      | Some i \<Rightarrow>
          (case go_get (inner (ms_projectHooks st) i) hookID of
             None \<Rightarrow> (False, st)
           | Some h \<Rightarrow> (True, st\<lparr>ms_projectHooks := put_inner i hookID (updater h) (ms_projectHooks st)\<rparr>)))"

definition State_DeleteProjectHook :: "string \<Rightarrow> int \<Rightarrow> mock_state \<Rightarrow> bool \<times> mock_state" where
  "State_DeleteProjectHook idOrPath hookID st =
     (case resolveProjectIDLocked idOrPath st of
        None \<Rightarrow> (False, st)
      | Some i \<Rightarrow>
          (if go_get (inner (ms_projectHooks st) i) hookID = None then (False, st)
           else (True, st\<lparr>ms_projectHooks := delete_inner i hookID (ms_projectHooks st)\<rparr>)))"

definition hook_of_options :: "hook_options \<Rightarrow> gl_hook" where
  "hook_of_options o' =
     \<lparr>gh_ID = 0, gh_URL = ho_URL o', gh_PushEvents = set_when (ho_PushEvents o') False,
      gh_MergeRequestsEvents = set_when (ho_MergeRequestsEvents o') False,
      gh_TagPushEvents = set_when (ho_TagPushEvents o') False, gh_IssuesEvents = set_when (ho_IssuesEvents o') False,
      gh_PipelineEvents = set_when (ho_PipelineEvents o') False, gh_JobEvents = set_when (ho_JobEvents o') False,
      gh_ReleasesEvents = set_when (ho_ReleasesEvents o') False,
      gh_EnableSSLVerification = set_when (ho_EnableSSLVerification o') False,
      gh_PushEventsBranchFilter = set_when (ho_PushEventsBranchFilter o') []\<rparr>"

definition edit_hook :: "hook_options \<Rightarrow> gl_hook \<Rightarrow> gl_hook" where
  "edit_hook o' h =
     \<lparr>gh_ID = gh_ID h, gh_URL = ho_URL o', gh_PushEvents = set_when (ho_PushEvents o') (gh_PushEvents h),
      gh_MergeRequestsEvents = set_when (ho_MergeRequestsEvents o') (gh_MergeRequestsEvents h),
      gh_TagPushEvents = set_when (ho_TagPushEvents o') (gh_TagPushEvents h),
      gh_IssuesEvents = set_when (ho_IssuesEvents o') (gh_IssuesEvents h),
      gh_PipelineEvents = set_when (ho_PipelineEvents o') (gh_PipelineEvents h),
      gh_JobEvents = set_when (ho_JobEvents o') (gh_JobEvents h),
      gh_ReleasesEvents = set_when (ho_ReleasesEvents o') (gh_ReleasesEvents h),
      gh_EnableSSLVerification = set_when (ho_EnableSSLVerification o') (gh_EnableSSLVerification h),
      gh_PushEventsBranchFilter = set_when (ho_PushEventsBranchFilter o') (gh_PushEventsBranchFilter h)\<rparr>"

definition mock_webhooks :: "sdk_error \<Rightarrow> mock_state webhooks_service" where
  "mock_webhooks err =
     \<lparr>ListProjectHooks = (\<lambda>pid st. (Inr (first_page (State_ListProjectHooks (fmt_d pid) st)), st)),
      AddProjectHook = (\<lambda>pid o' st.
        found_or_404 err ''404 Project Not Found'' (State_AddProjectHook (fmt_d pid) (hook_of_options o') st)),
      EditProjectHook = (\<lambda>pid hid o' st.
        found_or_404 err ''404 Hook Not Found'' (State_EditProjectHook (fmt_d pid) hid (edit_hook o') st)),
      DeleteProjectHook = (\<lambda>pid hid st.
        found_or_404 err ''404 Hook Not Found'' (State_DeleteProjectHook (fmt_d pid) hid st))\<rparr>"

subsection \<open>Repository files and branches\<close>

text \<open>The files of a branch.\<close>

definition files_of :: "int \<Rightarrow> string \<Rightarrow> mock_state \<Rightarrow> (string, string) go_map" where
  "files_of i ref st = inner (inner (ms_repositoryFiles st) i) ref"

definition State_GetRawFile :: "string \<Rightarrow> string \<Rightarrow> string \<Rightarrow> mock_state \<Rightarrow> string option" where
  "State_GetRawFile idOrPath path ref st =
     (case resolveProjectIDLocked idOrPath st of None \<Rightarrow> None | Some i \<Rightarrow> go_get (files_of i ref st) path)"

definition put_file :: "int \<Rightarrow> string \<Rightarrow> string \<Rightarrow> string \<Rightarrow> mock_state \<Rightarrow> mock_state" where
  "put_file i ref path content st =
     st\<lparr>ms_repositoryFiles :=
          put_inner i ref (go_put path content (files_of i ref st)) (ms_repositoryFiles st)\<rparr>"

definition SetFile :: "string \<Rightarrow> string \<Rightarrow> string \<Rightarrow> string \<Rightarrow> mock_state \<Rightarrow> bool \<times> mock_state" where
  "SetFile idOrPath path ref content st =
     (case resolveProjectIDLocked idOrPath st of
        None \<Rightarrow> (False, st) | Some i \<Rightarrow> (True, put_file i ref path content st))"

definition copy_files :: "int \<Rightarrow> string \<Rightarrow> string \<Rightarrow> mock_state \<Rightarrow> mock_state" where
  "copy_files i src tgt st = fold (\<lambda>(path, content). put_file i tgt path content) (files_of i src st) st"

definition State_GetBranch :: "string \<Rightarrow> string \<Rightarrow> mock_state \<Rightarrow> gl_branch option" where
  "State_GetBranch idOrPath branch st =
     (case resolveProjectIDLocked idOrPath st of None \<Rightarrow> None | Some i \<Rightarrow> go_get (inner (ms_branches st) i) branch)"

definition State_CreateBranch :: "string \<Rightarrow> string \<Rightarrow> string \<Rightarrow> mock_state \<Rightarrow> bool \<times> mock_state" where
  "State_CreateBranch idOrPath branch ref st =
     (case resolveProjectIDLocked idOrPath st of
        None \<Rightarrow> (False, st)
      | Some i \<Rightarrow>
          (let b = \<lparr>gbr_Name = branch, gbr_CommitID = Some (''sha-'' @ branch)\<rparr>
           in (True, copy_files i ref branch (st\<lparr>ms_branches := put_inner i branch b (ms_branches st)\<rparr>))))"

definition mock_git_branches :: "sdk_error \<Rightarrow> mock_state branches_service" where
  "mock_git_branches err =
     \<lparr>GetBranch = (\<lambda>pid branch st.
        (case State_GetBranch (fmt_d pid) branch st of
           None \<Rightarrow> Inl (err 404 ''404 Branch Not Found'') | Some b \<Rightarrow> Inr b, st)),
      CreateBranch = (\<lambda>pid branch ref st.
        found_or_404 err ''404 Project Not Found'' (State_CreateBranch (fmt_d pid) branch ref st))\<rparr>"

text \<open>A branch whose protection lets nobody push refuses every commit.\<close>

definition push_refused :: "gl_protected_branch option \<Rightarrow> bool" where
  "push_refused pb =
     (case pb of None \<Rightarrow> False
      | Some b \<Rightarrow> glb_PushAccessLevels b \<noteq> [] \<and> \<not> list_ex (\<lambda>l. gba_AccessLevel l > 0) (glb_PushAccessLevels b))"

definition GetProtectedBranch :: "string \<Rightarrow> string \<Rightarrow> mock_state \<Rightarrow> gl_protected_branch option" where
  "GetProtectedBranch idOrPath branch st =
     (case resolveProjectIDLocked idOrPath st of
        None \<Rightarrow> None | Some i \<Rightarrow> go_get (inner (ms_protectedBranches st) i) branch)"

text \<open>Creating and updating a file are the same handler; without a branch the file goes to \<^verbatim>\<open>main\<close>.\<close>

definition commit_file :: "sdk_error \<Rightarrow> int \<Rightarrow> string \<Rightarrow> file_options \<Rightarrow> mock_state \<Rightarrow> http_error option \<times> mock_state" where
  "commit_file err pid path o' st =
     (let branch = (if fo_Branch o' = [] then ''main'' else fo_Branch o') in
      if push_refused (GetProtectedBranch (fmt_d pid) branch st) then
        (Some (err 403 ''403 Forbidden - You are not allowed to push code to protected branches on this project.'', Some 403), st)
      else (case SetFile (fmt_d pid) path branch (fo_Content o') st of
              (True, st') \<Rightarrow> (None, st')
            | (False, st') \<Rightarrow> (Some (err 404 ''404 Project Not Found'', Some 404), st')))"

definition mock_files :: "sdk_error \<Rightarrow> mock_state repository_files_service" where
  "mock_files err =
     \<lparr>GetRawFile = (\<lambda>pid path ref st.
        (case State_GetRawFile (fmt_d pid) path (if ref = [] then ''main'' else ref) st of
           None \<Rightarrow> Inl (err 404 ''404 File Not Found'', Some 404) | Some c \<Rightarrow> Inr c, st)),
      CreateFile = commit_file err, UpdateFile = commit_file err\<rparr>"

subsection \<open>Merge requests\<close>

definition State_ListMergeRequests :: "string \<Rightarrow> string \<Rightarrow> string \<Rightarrow> string \<Rightarrow> mock_state \<Rightarrow> gl_merge_request list" where
  "State_ListMergeRequests idOrPath source target state st =
     (case resolveProjectIDLocked idOrPath st of
        None \<Rightarrow> []
      | Some i \<Rightarrow>
          filter (\<lambda>mr. (source = [] \<or> gmr_SourceBranch mr = source) \<and> (target = [] \<or> gmr_TargetBranch mr = target)
                       \<and> (state = [] \<or> gmr_State mr = state))
            (map snd (inner (ms_mergeRequests st) i)))"

definition new_merge_request :: "int \<Rightarrow> create_mr_options \<Rightarrow> gl_merge_request" where
  "new_merge_request iid o' =
     (let hasConflicts = Contains (cmo_SourceBranch o') ''conflict'' \<or> Contains (cmo_TargetBranch o') ''conflict'' in
      \<lparr>gmr_IID = iid, gmr_Title = cmo_Title o', gmr_SourceBranch = cmo_SourceBranch o',
       gmr_TargetBranch = cmo_TargetBranch o', gmr_State = ''opened'', gmr_Labels = cmo_Labels o',
       gmr_HasConflicts = hasConflicts,
       gmr_DetailedMergeStatus = (if hasConflicts then ''conflict'' else ''mergeable'')\<rparr>)"

definition State_CreateMergeRequest ::
  "string \<Rightarrow> create_mr_options \<Rightarrow> mock_state \<Rightarrow> gl_merge_request option \<times> mock_state" where
  "State_CreateMergeRequest idOrPath o' st =
     (case resolveProjectIDLocked idOrPath st of
        None \<Rightarrow> (None, st)
      | Some i \<Rightarrow>
          (let iid = (case go_get (ms_nextMRIID st) i of None \<Rightarrow> 1 | Some n \<Rightarrow> n);
               mr = new_merge_request iid o'
           in (Some mr, st\<lparr>ms_nextMRIID := go_put i (iid + 1) (ms_nextMRIID st),
                           ms_mergeRequests := put_inner i iid mr (ms_mergeRequests st)\<rparr>)))"

definition State_GetMergeRequest :: "string \<Rightarrow> int \<Rightarrow> mock_state \<Rightarrow> gl_merge_request option" where
  "State_GetMergeRequest idOrPath iid st =
     (case resolveProjectIDLocked idOrPath st of None \<Rightarrow> None | Some i \<Rightarrow> go_get (inner (ms_mergeRequests st) i) iid)"

definition State_AcceptMergeRequest :: "string \<Rightarrow> int \<Rightarrow> mock_state \<Rightarrow> bool \<times> mock_state" where
  "State_AcceptMergeRequest idOrPath iid st =
     (case resolveProjectIDLocked idOrPath st of
        None \<Rightarrow> (False, st)
      | Some i \<Rightarrow>
          (case go_get (inner (ms_mergeRequests st) i) iid of
             None \<Rightarrow> (False, st)
           | Some mr \<Rightarrow>
               if gmr_HasConflicts mr then (False, st)
               else (True, copy_files i (gmr_SourceBranch mr) (gmr_TargetBranch mr)
                       (st\<lparr>ms_mergeRequests := put_inner i iid (mr\<lparr>gmr_State := ''merged''\<rparr>) (ms_mergeRequests st)\<rparr>))))"

definition mock_merge_requests :: "sdk_error \<Rightarrow> mock_state merge_requests_service" where
  "mock_merge_requests err =
     \<lparr>ListProjectMergeRequests = (\<lambda>pid source target state st.
        (Inr (State_ListMergeRequests (fmt_d pid) source target state st), st)),
      GetMergeRequest = (\<lambda>pid iid st.
        (case State_GetMergeRequest (fmt_d pid) iid st of
           None \<Rightarrow> Inl (err 404 ''404 MR Not Found'') | Some mr \<Rightarrow> Inr (Some mr), st)),
      CreateMergeRequest = (\<lambda>pid o' st.
        case State_CreateMergeRequest (fmt_d pid) o' st of
          (None, st') \<Rightarrow> (Inl (err 404 ''404 Project Not Found''), st') | (Some mr, st') \<Rightarrow> (Inr mr, st')),
      AcceptMergeRequest = (\<lambda>pid iid _ st.
        case State_GetMergeRequest (fmt_d pid) iid st of
          None \<Rightarrow> (Some (err 404 ''404 MR Not Found''), st)
        | Some mr \<Rightarrow>
            if gmr_HasConflicts mr then (Some (err 405 ''405 Method Not Allowed - Branch has merge conflicts''), st)
            else (case State_AcceptMergeRequest (fmt_d pid) iid st of
                    (True, st') \<Rightarrow> (None, st')
                  | (False, st') \<Rightarrow> (Some (err 400 ''400 Bad Request - Cannot accept merge request''), st')))\<rparr>"

end
