(* ===== verification/Mock_Server.thy ===== *)
theory Mock_Server
  imports Mock_Resources
begin

section \<open>The mock GitLab server\<close>

text \<open>
  The in-memory GitLab instance of \<^verbatim>\<open>internal/testutil/mockserver\<close>: the handlers of \<^verbatim>\<open>router.go\<close> behind
  the service methods the reconcilers call, over the state of \<open>Mock_State\<close>; the client that talks to
  it; and the invariant it keeps. It is the one GitLab the repository contains; the contracts the
  reconcilers rely on are stated as locales and shown to hold for it.
\<close>

subsection \<open>Projects\<close>

text \<open>\<^verbatim>\<open>AddProject\<close> numbers a project without ID and keeps the next number above every ID it has seen.\<close>

definition AddProject :: "gl_project \<Rightarrow> mock_state \<Rightarrow> gl_project \<times> mock_state" where
  "AddProject p0 st =
     (let p = (if p_ID p0 = 0 then p0\<lparr>p_ID := ms_nextProjectID st\<rparr> else p0);
          next = (if p_ID p0 = 0 then ms_nextProjectID st + 1
                  else if p_ID p0 \<ge> ms_nextProjectID st then p_ID p0 + 1 else ms_nextProjectID st)
      in (p, st\<lparr>ms_nextProjectID := next, ms_projects := go_put (p_ID p) p (ms_projects st),
               ms_projectByPath :=
                 (if p_PathWithNamespace p \<noteq> [] then go_put (ToLower (p_PathWithNamespace p)) (p_ID p) (ms_projectByPath st)
                  else ms_projectByPath st)\<rparr>))"

definition State_GetProject :: "string \<Rightarrow> mock_state \<Rightarrow> gl_project option" where
  "State_GetProject idOrPath st =
     (case resolveProjectIDLocked idOrPath st of None \<Rightarrow> None | Some i \<Rightarrow> go_get (ms_projects st) i)"

text \<open>\<^verbatim>\<open>handleEditProject\<close>: every field of the body that is present replaces the field of the project.\<close>

definition edit_project :: "edit_project_options \<Rightarrow> gl_project \<Rightarrow> gl_project" where
  "edit_project o' p =
     (let ps = p_Settings p in
      p\<lparr>p_DefaultBranch := set_when (epo_DefaultBranch o') (p_DefaultBranch p),
        p_Settings :=
          \<lparr>ps_SquashOption = set_when (epo_SquashOption o') (ps_SquashOption ps),
           ps_MergeMethod = set_when (epo_MergeMethod o') (ps_MergeMethod ps),
           ps_OnlyAllowMergeIfPipelineSucceeds =
             set_when (epo_OnlyAllowMergeIfPipelineSucceeds o') (ps_OnlyAllowMergeIfPipelineSucceeds ps),
           ps_AllowMergeOnSkippedPipeline = set_when (epo_AllowMergeOnSkippedPipeline o') (ps_AllowMergeOnSkippedPipeline ps),
           ps_OnlyAllowMergeIfAllDiscussionsAreResolved =
             set_when (epo_OnlyAllowMergeIfAllDiscussionsAreResolved o') (ps_OnlyAllowMergeIfAllDiscussionsAreResolved ps),
           ps_RemoveSourceBranchAfterMerge = set_when (epo_RemoveSourceBranchAfterMerge o') (ps_RemoveSourceBranchAfterMerge ps),
           ps_KeepLatestArtifact = set_when (epo_KeepLatestArtifact o') (ps_KeepLatestArtifact ps),
           ps_PrintingMergeRequestLinkEnabled =
             set_when (epo_PrintingMergeRequestLinkEnabled o') (ps_PrintingMergeRequestLinkEnabled ps),
           ps_AutoCancelPendingPipelines = set_when (epo_AutoCancelPendingPipelines o') (ps_AutoCancelPendingPipelines ps),
           ps_AutoDevopsEnabled = set_when (epo_AutoDevopsEnabled o') (ps_AutoDevopsEnabled ps),
           ps_SharedRunnersEnabled = set_when (epo_SharedRunnersEnabled o') (ps_SharedRunnersEnabled ps),
           ps_GroupRunnersEnabled = set_when (epo_GroupRunnersEnabled o') (ps_GroupRunnersEnabled ps)\<rparr>\<rparr>)"

text \<open>
  \<^verbatim>\<open>UpdateProject\<close> runs the updater on the stored project; the retention in the body, when present,
  is stored under the ID of the project.
\<close>

definition handleEditProject ::
  "sdk_error \<Rightarrow> string \<Rightarrow> edit_project_options \<Rightarrow> int option \<Rightarrow> mock_state \<Rightarrow> gl_project go_result \<times> mock_state" where
  "handleEditProject err idOrPath opts seconds st =
     (case resolveProjectIDLocked idOrPath st of
        None \<Rightarrow> (Inl (err 404 ''404 Project Not Found''), st)
      | Some i \<Rightarrow>
          (case go_get (ms_projects st) i of
             None \<Rightarrow> (Inl (err 404 ''404 Project Not Found''), st)
           | Some p \<Rightarrow>
               (let p' = edit_project opts p;
                    st' = st\<lparr>ms_projects := go_put i p' (ms_projects st)\<rparr>
                in (Inr p',
                    (case seconds of None \<Rightarrow> st'
                     | Some n \<Rightarrow> st'\<lparr>ms_pipelineRetention := go_put (p_ID p') n (ms_pipelineRetention st')\<rparr>)))))"

definition GetPipelineRetention :: "int \<Rightarrow> mock_state \<Rightarrow> int" where
  "GetPipelineRetention pid st = (case go_get (ms_pipelineRetention st) pid of None \<Rightarrow> 0 | Some n \<Rightarrow> n)"

text \<open>The client reads the retention from the project resource and writes it there.\<close>

definition mock_projects :: "sdk_error \<Rightarrow> mock_state projects_service" where
  "mock_projects err =
     \<lparr>GetProject = (\<lambda>pid st.
        case State_GetProject (fmt_d pid) st of
          None \<Rightarrow> (Inl (err 404 ''404 Project Not Found''), st) | Some p \<Rightarrow> (Inr (Some p), st)),
      EditProject = (\<lambda>pid opts st. handleEditProject err (fmt_d pid) opts None st),
      GetProjectPipelineRetention = (\<lambda>pid st.
        case State_GetProject (fmt_d pid) st of
          None \<Rightarrow> (Inl (err 404 ''404 Project Not Found''), st)
        | Some p \<Rightarrow> (Inr (GetPipelineRetention (p_ID p) st), st)),
      SetProjectPipelineRetention = (\<lambda>pid seconds st.
        case handleEditProject err (fmt_d pid) zero_edit_project_options (Some seconds) st of
          (Inl e, st') \<Rightarrow> (Some e, st') | (Inr _, st') \<Rightarrow> (None, st'))\<rparr>"

subsection \<open>Protected branches\<close>

definition State_ListProtectedBranches :: "string \<Rightarrow> mock_state \<Rightarrow> gl_protected_branch list" where
  "State_ListProtectedBranches idOrPath st =
     (case resolveProjectIDLocked idOrPath st of
        None \<Rightarrow> [] | Some i \<Rightarrow> map snd (inner (ms_protectedBranches st) i))"

definition ProtectBranch :: "string \<Rightarrow> gl_protected_branch \<Rightarrow> mock_state \<Rightarrow> gl_protected_branch option \<times> mock_state" where
  "ProtectBranch idOrPath b st =
     (case resolveProjectIDLocked idOrPath st of
        None \<Rightarrow> (None, st)
      | Some i \<Rightarrow> (Some b, st\<lparr>ms_protectedBranches := put_inner i (glb_Name b) b (ms_protectedBranches st)\<rparr>))"

definition UnprotectBranch :: "string \<Rightarrow> string \<Rightarrow> mock_state \<Rightarrow> bool \<times> mock_state" where
  "UnprotectBranch idOrPath branch st =
     (case resolveProjectIDLocked idOrPath st of
        None \<Rightarrow> (False, st)
      | Some i \<Rightarrow>
          (if go_get (inner (ms_protectedBranches st) i) branch = None then (False, st)
           else (True, st\<lparr>ms_protectedBranches := delete_inner i branch (ms_protectedBranches st)\<rparr>)))"

text \<open>A permission option arrives with the fields that are set; the others decode to 0.\<close>

definition decode_permission :: "branch_permission_options \<Rightarrow> gl_branch_access" where
  "decode_permission o' =
     \<lparr>gba_AccessLevel = set_when (bpo_AccessLevel o') 0, gba_UserID = set_when (bpo_UserID o') 0,
      gba_GroupID = set_when (bpo_GroupID o') 0, gba_DeployKeyID = set_when (bpo_DeployKeyID o') 0\<rparr>"

text \<open>
  \<^verbatim>\<open>allowed_to_push\<close> wins over \<^verbatim>\<open>push_access_level\<close>; the field \<^verbatim>\<open>push_access_levels\<close> the handler also
  accepts is never sent by the SDK's options.
\<close>

definition decode_access :: "branch_permission_options list option \<Rightarrow> int option \<Rightarrow> gl_branch_access list" where
  "decode_access allowed level =
     (case allowed of
        Some (x # xs) \<Rightarrow> map decode_permission (x # xs)
      | _ \<Rightarrow> (case level of
                Some l \<Rightarrow> [\<lparr>gba_AccessLevel = l, gba_UserID = 0, gba_GroupID = 0, gba_DeployKeyID = 0\<rparr>]
              | None \<Rightarrow> []))"

definition branch_of_options :: "protect_branches_options \<Rightarrow> gl_protected_branch" where
  "branch_of_options o' =
     \<lparr>glb_Name = pbo_Name o',
      glb_PushAccessLevels = decode_access (pbo_AllowedToPush o') (pbo_PushAccessLevel o'),
      glb_MergeAccessLevels = decode_access (pbo_AllowedToMerge o') (pbo_MergeAccessLevel o'),
      glb_UnprotectAccessLevels = decode_access (pbo_AllowedToUnprotect o') (pbo_UnprotectAccessLevel o'),
      glb_AllowForcePush = set_when (pbo_AllowForcePush o') False,
      glb_CodeOwnerApprovalRequired = set_when (pbo_CodeOwnerApprovalRequired o') False\<rparr>"

text \<open>A patch of a branch without protection creates one with the name only.\<close>

definition patch_branch :: "string \<Rightarrow> bool option \<Rightarrow> gl_protected_branch option \<Rightarrow> gl_protected_branch" where
  "patch_branch branch v old =
     (case old of
        Some b \<Rightarrow> b
      | None \<Rightarrow> \<lparr>glb_Name = branch, glb_PushAccessLevels = [], glb_MergeAccessLevels = [],
                  glb_UnprotectAccessLevels = [], glb_AllowForcePush = False, glb_CodeOwnerApprovalRequired = False\<rparr>)
     \<lparr>glb_CodeOwnerApprovalRequired := set_when v False\<rparr>"

definition mock_branches :: "sdk_error \<Rightarrow> mock_state protected_branches_service" where
  "mock_branches err =
     \<lparr>ListProtectedBranches = (\<lambda>pid page perPage st.
        (mock_list perPage (State_ListProtectedBranches (fmt_d pid) st) page, st)),
      ProtectRepositoryBranches = (\<lambda>pid o' st.
        case ProtectBranch (fmt_d pid) (branch_of_options o') st of
          (None, st') \<Rightarrow> (Inl (err 404 ''404 Project Not Found''), st') | (Some b, st') \<Rightarrow> (Inr b, st')),
      UnprotectRepositoryBranches = (\<lambda>pid branch st.
        case UnprotectBranch (fmt_d pid) branch st of
          (False, st') \<Rightarrow> (Some (err 404 ''404 Protected Branch Not Found''), st') | (True, st') \<Rightarrow> (None, st')),
      UpdateProtectedBranch = (\<lambda>pid branch v st.
        let b = patch_branch branch v (GetProtectedBranch (fmt_d pid) branch st)
        in (Inr b, snd (ProtectBranch (fmt_d pid) b st)))\<rparr>"

subsection \<open>Push rules\<close>

definition push_rules_of_options :: "push_rule_options \<Rightarrow> gl_push_rules" where
  "push_rules_of_options o' =
     \<lparr>gpr_AuthorEmailRegex = set_when (pro_AuthorEmailRegex o') [], gpr_BranchNameRegex = set_when (pro_BranchNameRegex o') [],
      gpr_CommitMessageRegex = set_when (pro_CommitMessageRegex o') [],
      gpr_CommitMessageNegativeRegex = set_when (pro_CommitMessageNegativeRegex o') [],
      gpr_FileNameRegex = set_when (pro_FileNameRegex o') [], gpr_MaxFileSize = set_when (pro_MaxFileSize o') 0,
      gpr_CommitCommitterCheck = set_when (pro_CommitCommitterCheck o') False,
      gpr_MemberCheck = set_when (pro_MemberCheck o') False, gpr_PreventSecrets = set_when (pro_PreventSecrets o') False,
      gpr_DenyDeleteTag = set_when (pro_DenyDeleteTag o') False,
      gpr_RejectUnsignedCommits = set_when (pro_RejectUnsignedCommits o') False,
      gpr_RejectNonDCOCommits = set_when (pro_RejectNonDCOCommits o') False\<rparr>"

definition State_GetProjectPushRule :: "string \<Rightarrow> mock_state \<Rightarrow> gl_push_rules option" where
  "State_GetProjectPushRule idOrPath st =
     (case resolveProjectIDLocked idOrPath st of None \<Rightarrow> None | Some i \<Rightarrow> go_get (ms_projectPushRules st) i)"

definition SetProjectPushRule :: "string \<Rightarrow> gl_push_rules \<Rightarrow> mock_state \<Rightarrow> bool \<times> mock_state" where
  "SetProjectPushRule idOrPath r st =
     (case resolveProjectIDLocked idOrPath st of
        None \<Rightarrow> (False, st) | Some i \<Rightarrow> (True, st\<lparr>ms_projectPushRules := go_put i r (ms_projectPushRules st)\<rparr>))"

definition State_GetGroupPushRule :: "string \<Rightarrow> mock_state \<Rightarrow> gl_push_rules option" where
  "State_GetGroupPushRule idOrPath st =
     (case resolveGroupIDLocked idOrPath st of None \<Rightarrow> None | Some i \<Rightarrow> go_get (ms_groupPushRules st) i)"

definition SetGroupPushRule :: "string \<Rightarrow> gl_push_rules \<Rightarrow> mock_state \<Rightarrow> bool \<times> mock_state" where
  "SetGroupPushRule idOrPath r st =
     (case resolveGroupIDLocked idOrPath st of
        None \<Rightarrow> (False, st) | Some i \<Rightarrow> (True, st\<lparr>ms_groupPushRules := go_put i r (ms_groupPushRules st)\<rparr>))"

text \<open>Adding and editing both store the decoded rule: the handlers do not merge.\<close>

definition mock_push_rules :: "sdk_error \<Rightarrow> mock_state push_rules_service" where
  "mock_push_rules err =
     (let reply = (\<lambda>msg r. case r of None \<Rightarrow> (None, Some 404, Some (err 404 msg)) | Some pr \<Rightarrow> (Some pr, Some 200, None));
          set_project = (\<lambda>pid o' st. found_or_404 err ''404 Project Not Found''
            (SetProjectPushRule (fmt_d pid) (push_rules_of_options o') st));
          set_group = (\<lambda>gid o' st. found_or_404 err ''404 Group Not Found''
            (SetGroupPushRule (fmt_d gid) (push_rules_of_options o') st))
      in \<lparr>GetProjectPushRule = (\<lambda>pid st. (reply ''404 Push Rule Not Found'' (State_GetProjectPushRule (fmt_d pid) st), st)),
          AddProjectPushRule = set_project, EditProjectPushRule = set_project,
          GetGroupPushRule = (\<lambda>gid st. (reply ''404 Group Push Rule Not Found'' (State_GetGroupPushRule (fmt_d gid) st), st)),
          AddGroupPushRule = set_group, EditGroupPushRule = set_group\<rparr>)"

subsection \<open>Target branch rules\<close>

text \<open>Listed by descending creation sequence, as GitLab orders them.\<close>

definition State_GetTargetBranchRules :: "string \<Rightarrow> mock_state \<Rightarrow> mock_target_branch_rule list option" where
  "State_GetTargetBranchRules idOrPath st =
     (case resolveProjectIDLocked idOrPath st of
        None \<Rightarrow> None
      | Some i \<Rightarrow> Some (sort_slice (\<lambda>r. - mtr_Seq r) (map snd (inner (ms_targetBranchRules st) i))))"

definition target_rule_gid :: "int \<Rightarrow> string" where
  "target_rule_gid n = ''gid://gitlab/Projects::TargetBranchRule/'' @ fmt_d n"

definition AddTargetBranchRule ::
  "string \<Rightarrow> string \<Rightarrow> string \<Rightarrow> mock_state \<Rightarrow> mock_target_branch_rule option \<times> mock_state" where
  "AddTargetBranchRule idOrPath name targetBranch st =
     (case resolveProjectIDLocked idOrPath st of
        None \<Rightarrow> (None, st)
      | Some i \<Rightarrow>
          (let n = ms_nextTargetRuleID st;
               rule = \<lparr>mtr_ID = target_rule_gid n, mtr_Name = name, mtr_TargetBranch = targetBranch, mtr_Seq = n\<rparr>
           in (Some rule, st\<lparr>ms_nextTargetRuleID := n + 1,
                 ms_targetBranchRules := put_inner i (mtr_ID rule) rule (ms_targetBranchRules st)\<rparr>)))"

definition State_DestroyTargetBranchRule :: "string \<Rightarrow> mock_state \<Rightarrow> bool \<times> mock_state" where
  "State_DestroyTargetBranchRule ruleID st =
     (case find (\<lambda>(i, rules). go_get rules ruleID \<noteq> None) (ms_targetBranchRules st) of
        None \<Rightarrow> (False, st)
      | Some (i, rules) \<Rightarrow> (True, st\<lparr>ms_targetBranchRules := delete_inner i ruleID (ms_targetBranchRules st)\<rparr>))"

definition decode_rule :: "mock_target_branch_rule \<Rightarrow> target_branch_rule" where
  "decode_rule r = \<lparr>tr_ID = mtr_ID r, tr_Name = mtr_Name r, tr_TargetBranch = mtr_TargetBranch r\<rparr>"

text \<open>
  The GraphQL service of \<^verbatim>\<open>client.go\<close> against \<^verbatim>\<open>handleGraphQL\<close>: a missing project is the client's error
  \<^verbatim>\<open>project not found\<close>, a failed creation the first entry of the mutation's errors; destroying never
  reports an error.
\<close>

definition formatProjectGID :: "int \<Rightarrow> string" where
  "formatProjectGID i = ''gid://gitlab/Project/'' @ fmt_d i"

definition mock_target_branch_rules :: "mock_state target_branch_rules_service" where
  "mock_target_branch_rules =
     \<lparr>GetTargetBranchRules = (\<lambda>fullPath st.
        case State_GetTargetBranchRules fullPath st of
          None \<Rightarrow> (Inl (Err (''project not found: '' @ fullPath)), st)
        | Some rules \<Rightarrow> (Inr (map decode_rule rules), st)),
      CreateTargetBranchRule = (\<lambda>pid name targetBranch st.
        case AddTargetBranchRule (formatProjectGID pid) name targetBranch st of
          (None, st') \<Rightarrow> (Inl (Err ''create target branch rule error: project not found''), st')
        | (Some r, st') \<Rightarrow> (Inr (Some (decode_rule r)), st')),
      DestroyTargetBranchRule = (\<lambda>ruleID st. (None, snd (State_DestroyTargetBranchRule ruleID st)))\<rparr>"

subsection \<open>CI/CD variables\<close>

definition mock_varCompositeKey :: "string \<Rightarrow> string \<Rightarrow> string" where
  "mock_varCompositeKey key envScope = key @ ''::'' @ (if envScope = [] then ''*'' else envScope)"

definition State_ListProjectVariables :: "string \<Rightarrow> mock_state \<Rightarrow> gl_variable list" where
  "State_ListProjectVariables idOrPath st =
     (case resolveProjectIDLocked idOrPath st of
        None \<Rightarrow> [] | Some i \<Rightarrow> map snd (inner (ms_projectVariables st) i))"

definition SetProjectVariable :: "string \<Rightarrow> gl_variable \<Rightarrow> mock_state \<Rightarrow> bool \<times> mock_state" where
  "SetProjectVariable idOrPath v st =
     (case resolveProjectIDLocked idOrPath st of
        None \<Rightarrow> (False, st)
      | Some i \<Rightarrow> (True, st\<lparr>ms_projectVariables :=
          put_inner i (mock_varCompositeKey (gv_Key v) (gv_EnvironmentScope v)) v (ms_projectVariables st)\<rparr>))"

text \<open>The key of the entry a removal hits: the composite key, else the first entry that matches.\<close>

definition removed_variable :: "string \<Rightarrow> string \<Rightarrow> (string, gl_variable) go_map \<Rightarrow> string option" where
  "removed_variable key envScope m =
     (let cKey = mock_varCompositeKey key envScope in
      if go_get m cKey \<noteq> None then Some cKey
      else map_option fst (find (\<lambda>(k, v). gv_Key v = key \<and> (envScope = [] \<or> gv_EnvironmentScope v = envScope)) m))"

definition State_RemoveProjectVariable :: "string \<Rightarrow> string \<Rightarrow> string \<Rightarrow> mock_state \<Rightarrow> bool \<times> mock_state" where
  "State_RemoveProjectVariable idOrPath key envScope st =
     (case resolveProjectIDLocked idOrPath st of
        None \<Rightarrow> (False, st)
      | Some i \<Rightarrow>
          (case removed_variable key envScope (inner (ms_projectVariables st) i) of
             None \<Rightarrow> (False, st)
           | Some k \<Rightarrow> (True, st\<lparr>ms_projectVariables := delete_inner i k (ms_projectVariables st)\<rparr>)))"

definition State_ListGroupVariables :: "string \<Rightarrow> mock_state \<Rightarrow> gl_variable list" where
  "State_ListGroupVariables idOrPath st =
     (case resolveGroupIDLocked idOrPath st of
        None \<Rightarrow> [] | Some i \<Rightarrow> map snd (inner (ms_groupVariables st) i))"

definition SetGroupVariable :: "string \<Rightarrow> gl_variable \<Rightarrow> mock_state \<Rightarrow> bool \<times> mock_state" where
  "SetGroupVariable idOrPath v st =
     (case resolveGroupIDLocked idOrPath st of
        None \<Rightarrow> (False, st)
      | Some i \<Rightarrow> (True, st\<lparr>ms_groupVariables :=
          put_inner i (mock_varCompositeKey (gv_Key v) (gv_EnvironmentScope v)) v (ms_groupVariables st)\<rparr>))"

definition State_RemoveGroupVariable :: "string \<Rightarrow> string \<Rightarrow> string \<Rightarrow> mock_state \<Rightarrow> bool \<times> mock_state" where
  "State_RemoveGroupVariable idOrPath key envScope st =
     (case resolveGroupIDLocked idOrPath st of
        None \<Rightarrow> (False, st)
      | Some i \<Rightarrow>
          (case removed_variable key envScope (inner (ms_groupVariables st) i) of
             None \<Rightarrow> (False, st)
           | Some k \<Rightarrow> (True, st\<lparr>ms_groupVariables := delete_inner i k (ms_groupVariables st)\<rparr>)))"

text \<open>The bodies of the requests, decoded; a field that is not sent is the zero value.\<close>

definition variable_of_create :: "create_variable_options \<Rightarrow> gl_variable" where
  "variable_of_create o' =
     \<lparr>gv_Key = cvo_Key o', gv_Value = cvo_Value o', gv_VariableType = set_when (cvo_VariableType o') [],
      gv_Protected = set_when (cvo_Protected o') False, gv_Masked = set_when (cvo_Masked o') False,
      gv_Raw = set_when (cvo_Raw o') False, gv_EnvironmentScope = cvo_EnvironmentScope o',
      gv_Description = set_when (cvo_Description o') []\<rparr>"

text \<open>\<open>query\<close> is the scope in the query string, which replaces an empty one of the body.\<close>

definition variable_of_update :: "string \<Rightarrow> string \<Rightarrow> update_variable_options \<Rightarrow> gl_variable" where
  "variable_of_update key query o' =
     \<lparr>gv_Key = key, gv_Value = uvo_Value o', gv_VariableType = set_when (uvo_VariableType o') [],
      gv_Protected = set_when (uvo_Protected o') False, gv_Masked = set_when (uvo_Masked o') False,
      gv_Raw = set_when (uvo_Raw o') False,
      gv_EnvironmentScope = (let scope = set_when (uvo_EnvironmentScope o') [] in if scope = [] then query else scope),
      gv_Description = set_when (uvo_Description o') []\<rparr>"

text \<open>
  \<open>put_query\<close> says what of the scope filter of an update the SDK puts into the query string (it may send
  the filter in the body, where the handlers do not read it). A removal sends it in the query.
\<close>

definition mock_variables :: "sdk_error \<Rightarrow> (string option \<Rightarrow> string) \<Rightarrow> mock_state variables_service" where
  "mock_variables err put_query =
     \<lparr>ListProjectVariables = (\<lambda>pid perPage st. (Inr (first_page_of perPage (State_ListProjectVariables (fmt_d pid) st)), st)),
      CreateProjectVariable = (\<lambda>pid o' st.
        found_or_404 err ''404 Project Not Found'' (SetProjectVariable (fmt_d pid) (variable_of_create o') st)),
      UpdateProjectVariable = (\<lambda>pid key o' st. found_or_404 err ''404 Project Not Found''
        (SetProjectVariable (fmt_d pid) (variable_of_update key (put_query (uvo_FilterScope o')) o') st)),
      RemoveProjectVariable = (\<lambda>pid key scope st. found_or_404 err ''404 Variable Not Found''
        (State_RemoveProjectVariable (fmt_d pid) key scope st)),
      ListGroupVariables = (\<lambda>gid perPage st. (Inr (first_page_of perPage (State_ListGroupVariables (fmt_d gid) st)), st)),
      CreateGroupVariable = (\<lambda>gid o' st.
        found_or_404 err ''404 Group Not Found'' (SetGroupVariable (fmt_d gid) (variable_of_create o') st)),
      UpdateGroupVariable = (\<lambda>gid key o' st. found_or_404 err ''404 Group Not Found''
        (SetGroupVariable (fmt_d gid) (variable_of_update key (put_query (uvo_FilterScope o')) o') st)),
      RemoveGroupVariable = (\<lambda>gid key st. found_or_404 err ''404 Variable Not Found''
        (State_RemoveGroupVariable (fmt_d gid) key [] st))\<rparr>"

subsection \<open>Compliance frameworks and members\<close>

definition framework_of_id :: "string \<Rightarrow> compliance_framework" where
  "framework_of_id fid =
     \<lparr>cf_ID = fid,
      cf_Name = (if HasPrefix fid ''gid://'' then ''Framework-'' @ rev (takeWhile (\<lambda>c. c \<noteq> CHR ''/'') (rev fid)) else fid),
      cf_Description = [], cf_Color = [], cf_Default = False\<rparr>"

text \<open>An empty framework ID removes the label.\<close>

definition set_framework :: "int \<Rightarrow> string \<Rightarrow> mock_state \<Rightarrow> mock_state" where
  "set_framework pid fid st =
     (if fid = [] then st\<lparr>ms_complianceFrameworks := go_delete pid (ms_complianceFrameworks st)\<rparr>
      else st\<lparr>ms_complianceFrameworks := go_put pid [framework_of_id fid] (ms_complianceFrameworks st)\<rparr>)"

definition mock_compliance :: "mock_state compliance_service" where
  "mock_compliance =
     \<lparr>GetProjectComplianceFrameworks = (\<lambda>pid st.
        (Inr (case go_get (ms_complianceFrameworks st) pid of None \<Rightarrow> [] | Some fs \<Rightarrow> fs), st)),
      SetProjectComplianceFramework = (\<lambda>pid fid st. (None, set_framework pid fid st)),
      RemoveProjectComplianceFramework = (\<lambda>pid _ st. (None, set_framework pid [] st))\<rparr>"

text \<open>
  Members are listed without pagination options: the first 20. The router serves the endpoints for
  direct and for all members from the same list.
\<close>

definition State_ListProjectMembers :: "string \<Rightarrow> mock_state \<Rightarrow> gl_member list" where
  "State_ListProjectMembers idOrPath st =
     (case resolveProjectIDLocked idOrPath st of
        None \<Rightarrow> [] | Some i \<Rightarrow> map snd (inner (ms_projectMembers st) i))"

definition State_ListGroupMembers :: "string \<Rightarrow> mock_state \<Rightarrow> gl_member list" where
  "State_ListGroupMembers idOrPath st =
     (case resolveGroupIDLocked idOrPath st of
        None \<Rightarrow> [] | Some i \<Rightarrow> map snd (inner (ms_groupMembers st) i))"

definition mock_members :: "mock_state members_service" where
  "mock_members =
     \<lparr>ListProjectMembers = (\<lambda>pid st. (Inr (first_page (State_ListProjectMembers (fmt_d pid) st)), st)),
      ListAllProjectMembers = (\<lambda>pid st. (Inr (first_page (State_ListProjectMembers (fmt_d pid) st)), st)),
      ListAllGroupMembers = (\<lambda>gid st. (Inr (first_page (State_ListGroupMembers (fmt_d gid) st)), st))\<rparr>"

definition mock_client :: "sdk_error \<Rightarrow> mock_state gitlab_client" where
  "mock_client err =
     \<lparr>cl_Projects = mock_projects err, cl_Groups = mock_groups err, cl_ProtectedBranches = mock_branches err,
      cl_ProtectedTags = mock_tags err, cl_PushRules = mock_push_rules err, cl_ApprovalRules = mock_approvals err,
      cl_Variables = mock_variables err (\<lambda>_. []), cl_Runners = mock_runners err, cl_Compliance = mock_compliance,
      cl_Webhooks = mock_webhooks err, cl_Members = mock_members, cl_Users = mock_users,
      cl_ProtectedEnvironments = mock_protected_environments err, cl_Environments = Some mock_environments,
      cl_TargetBranchRules = mock_target_branch_rules, cl_RepositoryFiles = mock_files err,
      cl_Branches = mock_git_branches err, cl_MergeRequests = mock_merge_requests err\<rparr>"

lemma mock_client_sel [simp]:
  "cl_Projects (mock_client err) = mock_projects err" "cl_Groups (mock_client err) = mock_groups err"
  "cl_ProtectedBranches (mock_client err) = mock_branches err" "cl_ProtectedTags (mock_client err) = mock_tags err"
  "cl_PushRules (mock_client err) = mock_push_rules err" "cl_ApprovalRules (mock_client err) = mock_approvals err"
  "cl_Variables (mock_client err) = mock_variables err (\<lambda>_. [])" "cl_Runners (mock_client err) = mock_runners err"
  "cl_Compliance (mock_client err) = mock_compliance" "cl_Webhooks (mock_client err) = mock_webhooks err"
  "cl_Members (mock_client err) = mock_members" "cl_Users (mock_client err) = mock_users"
  "cl_ProtectedEnvironments (mock_client err) = mock_protected_environments err"
  "cl_Environments (mock_client err) = Some mock_environments"
  "cl_TargetBranchRules (mock_client err) = mock_target_branch_rules"
  "cl_RepositoryFiles (mock_client err) = mock_files err" "cl_Branches (mock_client err) = mock_git_branches err"
  "cl_MergeRequests (mock_client err) = mock_merge_requests err"
  by (simp_all add: mock_client_def)

subsection \<open>The invariant of the server\<close>

text \<open>
  Stored entities carry the key they are stored under, the keys of every map are distinct, and a
  target branch rule has the identifier of its creation number, which is below the next one and
  belongs to one project only.
\<close>

definition projects_keyed :: "mock_state \<Rightarrow> bool" where
  "projects_keyed st \<longleftrightarrow> (\<forall>i p. go_get (ms_projects st) i = Some p \<longrightarrow> p_ID p = i)"

definition branches_keyed :: "mock_state \<Rightarrow> bool" where
  "branches_keyed st \<longleftrightarrow> (\<forall>i. go_map_ok (inner (ms_protectedBranches st) i)
     \<and> (\<forall>k b. go_get (inner (ms_protectedBranches st) i) k = Some b \<longrightarrow> glb_Name b = k))"

definition rules_keyed :: "mock_state \<Rightarrow> bool" where
  "rules_keyed st \<longleftrightarrow> go_map_ok (ms_targetBranchRules st)
     \<and> (\<forall>i. go_map_ok (inner (ms_targetBranchRules st) i)
          \<and> (\<forall>k r. go_get (inner (ms_targetBranchRules st) i) k = Some r \<longrightarrow>
               mtr_ID r = k \<and> k = target_rule_gid (mtr_Seq r) \<and> mtr_Seq r < ms_nextTargetRuleID st))
     \<and> (\<forall>i j k. go_get (inner (ms_targetBranchRules st) i) k \<noteq> None
          \<longrightarrow> go_get (inner (ms_targetBranchRules st) j) k \<noteq> None \<longrightarrow> i = j)"

definition mock_ok :: "mock_state \<Rightarrow> bool" where
  "mock_ok st \<longleftrightarrow> projects_keyed st \<and> branches_keyed st \<and> rules_keyed st"

text \<open>The server knows the project under its number and under its path.\<close>

definition governs :: "gl_project \<Rightarrow> mock_state \<Rightarrow> bool" where
  "governs project st \<longleftrightarrow> mock_ok st \<and> in_int64 (p_ID project)
     \<and> resolveProjectIDLocked (p_PathWithNamespace project) st = Some (p_ID project)"

lemma mock_ok_New: "mock_ok NewState"
  by (simp add: mock_ok_def projects_keyed_def branches_keyed_def rules_keyed_def NewState_def inner_def)

lemma keyed_frame [simp]:
  "branches_keyed (st\<lparr>ms_projects := a\<rparr>) = branches_keyed st" "rules_keyed (st\<lparr>ms_projects := a\<rparr>) = rules_keyed st"
  "projects_keyed (st\<lparr>ms_pipelineRetention := b\<rparr>) = projects_keyed st"
  "branches_keyed (st\<lparr>ms_pipelineRetention := b\<rparr>) = branches_keyed st"
  "rules_keyed (st\<lparr>ms_pipelineRetention := b\<rparr>) = rules_keyed st"
  "projects_keyed (st\<lparr>ms_projectPushRules := c\<rparr>) = projects_keyed st"
  "branches_keyed (st\<lparr>ms_projectPushRules := c\<rparr>) = branches_keyed st"
  "rules_keyed (st\<lparr>ms_projectPushRules := c\<rparr>) = rules_keyed st"
  "projects_keyed (st\<lparr>ms_protectedBranches := d\<rparr>) = projects_keyed st"
  "rules_keyed (st\<lparr>ms_protectedBranches := d\<rparr>) = rules_keyed st"
  "projects_keyed (st\<lparr>ms_targetBranchRules := e\<rparr>) = projects_keyed st"
  "branches_keyed (st\<lparr>ms_targetBranchRules := e\<rparr>) = branches_keyed st"
  "projects_keyed (st\<lparr>ms_nextTargetRuleID := f\<rparr>) = projects_keyed st"
  "branches_keyed (st\<lparr>ms_nextTargetRuleID := f\<rparr>) = branches_keyed st"
  "projects_keyed (st\<lparr>ms_complianceFrameworks := g\<rparr>) = projects_keyed st"
  "branches_keyed (st\<lparr>ms_complianceFrameworks := g\<rparr>) = branches_keyed st"
  "rules_keyed (st\<lparr>ms_complianceFrameworks := g\<rparr>) = rules_keyed st"
  by (simp_all add: projects_keyed_def branches_keyed_def rules_keyed_def)

lemma mock_ok_add_project:
  assumes "mock_ok st"
  shows "mock_ok (snd (AddProject p st))"
proof -
  have "projects_keyed st" using assms by (simp add: mock_ok_def)
  then have "projects_keyed (snd (AddProject p st))"
    by (simp add: AddProject_def projects_keyed_def Let_def)
  with assms show ?thesis
    by (simp add: mock_ok_def branches_keyed_def rules_keyed_def AddProject_def Let_def)
qed

text \<open>The parts of the state no invariant speaks about.\<close>

lemma mock_ok_frame [simp]:
  "mock_ok (st\<lparr>ms_pipelineRetention := b\<rparr>) = mock_ok st" "mock_ok (st\<lparr>ms_projectPushRules := c\<rparr>) = mock_ok st"
  "mock_ok (st\<lparr>ms_groupPushRules := c\<rparr>) = mock_ok st" "mock_ok (st\<lparr>ms_projectVariables := h\<rparr>) = mock_ok st"
  "mock_ok (st\<lparr>ms_groupVariables := h\<rparr>) = mock_ok st" "mock_ok (st\<lparr>ms_complianceFrameworks := g\<rparr>) = mock_ok st"
  by (simp_all add: mock_ok_def projects_keyed_def branches_keyed_def rules_keyed_def)

lemma governs_frame [simp]:
  "governs project (st\<lparr>ms_pipelineRetention := b\<rparr>) = governs project st"
  "governs project (st\<lparr>ms_projectPushRules := c\<rparr>) = governs project st"
  "governs project (st\<lparr>ms_groupPushRules := c\<rparr>) = governs project st"
  "governs project (st\<lparr>ms_projectVariables := h\<rparr>) = governs project st"
  "governs project (st\<lparr>ms_groupVariables := h\<rparr>) = governs project st"
  "governs project (st\<lparr>ms_complianceFrameworks := g\<rparr>) = governs project st"
  by (simp_all add: governs_def)

lemma mock_ok_frame2 [simp]:
  "mock_ok (st\<lparr>ms_protectedTags := v0\<rparr>) = mock_ok st"
  "mock_ok (st\<lparr>ms_protectedEnvironments := v1\<rparr>) = mock_ok st"
  "mock_ok (st\<lparr>ms_environments := v2\<rparr>) = mock_ok st"
  "mock_ok (st\<lparr>ms_projectApprovals := v3\<rparr>) = mock_ok st"
  "mock_ok (st\<lparr>ms_projectApprovalRules := v4\<rparr>) = mock_ok st"
  "mock_ok (st\<lparr>ms_nextApprovalRuleID := v5\<rparr>) = mock_ok st"
  "mock_ok (st\<lparr>ms_runnerDetails := v6\<rparr>) = mock_ok st"
  "mock_ok (st\<lparr>ms_projectHooks := v7\<rparr>) = mock_ok st"
  "mock_ok (st\<lparr>ms_nextHookID := v8\<rparr>) = mock_ok st"
  "mock_ok (st\<lparr>ms_repositoryFiles := v9\<rparr>) = mock_ok st"
  "mock_ok (st\<lparr>ms_branches := v10\<rparr>) = mock_ok st"
  "mock_ok (st\<lparr>ms_mergeRequests := v11\<rparr>) = mock_ok st"
  "mock_ok (st\<lparr>ms_nextMRIID := v12\<rparr>) = mock_ok st"
  by (simp_all add: mock_ok_def projects_keyed_def branches_keyed_def rules_keyed_def)

lemma governs_frame2 [simp]:
  "governs project (st\<lparr>ms_protectedTags := v0\<rparr>) = governs project st"
  "governs project (st\<lparr>ms_protectedEnvironments := v1\<rparr>) = governs project st"
  "governs project (st\<lparr>ms_environments := v2\<rparr>) = governs project st"
  "governs project (st\<lparr>ms_projectApprovals := v3\<rparr>) = governs project st"
  "governs project (st\<lparr>ms_projectApprovalRules := v4\<rparr>) = governs project st"
  "governs project (st\<lparr>ms_nextApprovalRuleID := v5\<rparr>) = governs project st"
  "governs project (st\<lparr>ms_runnerDetails := v6\<rparr>) = governs project st"
  "governs project (st\<lparr>ms_projectHooks := v7\<rparr>) = governs project st"
  "governs project (st\<lparr>ms_nextHookID := v8\<rparr>) = governs project st"
  "governs project (st\<lparr>ms_repositoryFiles := v9\<rparr>) = governs project st"
  "governs project (st\<lparr>ms_branches := v10\<rparr>) = governs project st"
  "governs project (st\<lparr>ms_mergeRequests := v11\<rparr>) = governs project st"
  "governs project (st\<lparr>ms_nextMRIID := v12\<rparr>) = governs project st"
  by (simp_all add: governs_def)

lemma mock_ok_edit:
  assumes "mock_ok st"
  shows "mock_ok (snd (handleEditProject err idOrPath opts seconds st))"
proof -
  have "p_ID (edit_project o' p) = p_ID p" for o' p by (simp add: edit_project_def Let_def)
  then have "projects_keyed (st\<lparr>ms_projects := go_put i (edit_project opts p) (ms_projects st)\<rparr>)"
    if "go_get (ms_projects st) i = Some p" for i p
    using assms that by (auto simp: mock_ok_def projects_keyed_def)
  then show ?thesis
    using assms by (auto simp: handleEditProject_def mock_ok_def Let_def split: option.splits)
qed

lemma mock_ok_protect: "mock_ok st \<Longrightarrow> mock_ok (snd (ProtectBranch idOrPath b st))"
  by (auto simp: ProtectBranch_def mock_ok_def branches_keyed_def split: option.splits)

lemma mock_ok_unprotect: "mock_ok st \<Longrightarrow> mock_ok (snd (UnprotectBranch idOrPath branch st))"
  by (auto simp: UnprotectBranch_def mock_ok_def branches_keyed_def split: option.splits)

lemma target_rule_gid_inject [simp]: "target_rule_gid m = target_rule_gid n \<longleftrightarrow> m = n"
  by (simp add: target_rule_gid_def)

text \<open>The identifier of the next rule is fresh.\<close>

lemma rule_gid_fresh:
  assumes "rules_keyed st"
  shows "go_get (inner (ms_targetBranchRules st) i) (target_rule_gid (ms_nextTargetRuleID st)) = None"
proof (rule ccontr)
  assume "go_get (inner (ms_targetBranchRules st) i) (target_rule_gid (ms_nextTargetRuleID st)) \<noteq> None"
  then obtain r where r: "go_get (inner (ms_targetBranchRules st) i) (target_rule_gid (ms_nextTargetRuleID st)) = Some r"
    by blast
  with assms have "target_rule_gid (ms_nextTargetRuleID st) = target_rule_gid (mtr_Seq r) \<and> mtr_Seq r < ms_nextTargetRuleID st"
    unfolding rules_keyed_def by blast
  then show False by auto
qed

lemma mock_ok_add_rule:
  assumes "mock_ok st"
  shows "mock_ok (snd (AddTargetBranchRule idOrPath name tb st))"
proof (cases "resolveProjectIDLocked idOrPath st")
  case (Some i)
  define n where "n = ms_nextTargetRuleID st"
  define m where "m = ms_targetBranchRules st"
  define r where "r = \<lparr>mtr_ID = target_rule_gid n, mtr_Name = name, mtr_TargetBranch = tb, mtr_Seq = n\<rparr>"
  define st' where "st' = st\<lparr>ms_nextTargetRuleID := n + 1, ms_targetBranchRules := put_inner i (mtr_ID r) r m\<rparr>"
  have st': "snd (AddTargetBranchRule idOrPath name tb st) = st'"
    by (simp add: AddTargetBranchRule_def Some Let_def st'_def r_def n_def m_def)
  have ok: "rules_keyed st" using assms by (simp add: mock_ok_def)
  have fresh: "go_get (inner m j) (target_rule_gid n) = None" for j
    using rule_gid_fresh [OF ok] by (simp add: n_def m_def)
  have "rules_keyed st'"
    unfolding rules_keyed_def
  proof (intro conjI allI impI)
    show "go_map_ok (ms_targetBranchRules st')" using ok by (simp add: st'_def put_inner_def rules_keyed_def m_def)
  next
    fix j show "go_map_ok (inner (ms_targetBranchRules st') j)" using ok by (simp add: st'_def rules_keyed_def m_def)
  next
    fix j k r' assume "go_get (inner (ms_targetBranchRules st') j) k = Some r'"
    then have r': "r' = r \<and> k = target_rule_gid n \<or> go_get (inner m j) k = Some r'"
      by (auto simp: st'_def r_def split: if_splits)
    then have "mtr_ID r' = k \<and> k = target_rule_gid (mtr_Seq r') \<and> mtr_Seq r' < n + 1"
    proof
      assume "go_get (inner m j) k = Some r'"
      then have "mtr_ID r' = k \<and> k = target_rule_gid (mtr_Seq r') \<and> mtr_Seq r' < n"
        using ok unfolding rules_keyed_def m_def n_def by blast
      then show ?thesis by simp
    qed (simp add: r_def)
    then show "mtr_ID r' = k" "k = target_rule_gid (mtr_Seq r')" "mtr_Seq r' < ms_nextTargetRuleID st'"
      by (simp_all add: st'_def)
  next
    fix j j' k assume "go_get (inner (ms_targetBranchRules st') j) k \<noteq> None" "go_get (inner (ms_targetBranchRules st') j') k \<noteq> None"
    then show "j = j'"
      using ok fresh unfolding st'_def rules_keyed_def r_def m_def by (simp split: if_splits) metis+
  qed
  with assms Some show ?thesis unfolding st' by (simp add: mock_ok_def st'_def)
qed (simp add: AddTargetBranchRule_def assms)

lemma mock_ok_destroy_rule:
  assumes "mock_ok st"
  shows "mock_ok (snd (State_DestroyTargetBranchRule ruleID st))"
proof (cases "find (\<lambda>(i, rules). go_get rules ruleID \<noteq> None) (ms_targetBranchRules st)")
  case (Some ir)
  obtain i rules where ir: "ir = (i, rules)" by (cases ir)
  define m where "m = ms_targetBranchRules st"
  have ok: "rules_keyed st" using assms by (simp add: mock_ok_def)
  have sub: "go_get (inner (delete_inner i ruleID m) j) k = Some r \<Longrightarrow> go_get (inner m j) k = Some r" for j k r
    by (simp split: if_splits)
  have "rules_keyed (st\<lparr>ms_targetBranchRules := delete_inner i ruleID m\<rparr>)"
    unfolding rules_keyed_def
  proof (intro conjI allI impI)
    show "go_map_ok (ms_targetBranchRules (st\<lparr>ms_targetBranchRules := delete_inner i ruleID m\<rparr>))"
      using ok by (simp add: delete_inner_def rules_keyed_def m_def)
  next
    fix j show "go_map_ok (inner (ms_targetBranchRules (st\<lparr>ms_targetBranchRules := delete_inner i ruleID m\<rparr>)) j)"
      using ok by (simp add: rules_keyed_def m_def)
  next
    fix j k r assume "go_get (inner (ms_targetBranchRules (st\<lparr>ms_targetBranchRules := delete_inner i ruleID m\<rparr>)) j) k = Some r"
    then have "go_get (inner m j) k = Some r" using sub by simp
    then have "mtr_ID r = k \<and> k = target_rule_gid (mtr_Seq r) \<and> mtr_Seq r < ms_nextTargetRuleID st"
      using ok unfolding rules_keyed_def m_def by blast
    then show "mtr_ID r = k" "k = target_rule_gid (mtr_Seq r)"
      "mtr_Seq r < ms_nextTargetRuleID (st\<lparr>ms_targetBranchRules := delete_inner i ruleID m\<rparr>)" by simp_all
  next
    fix j j' k
    assume "go_get (inner (ms_targetBranchRules (st\<lparr>ms_targetBranchRules := delete_inner i ruleID m\<rparr>)) j) k \<noteq> None"
      "go_get (inner (ms_targetBranchRules (st\<lparr>ms_targetBranchRules := delete_inner i ruleID m\<rparr>)) j') k \<noteq> None"
    then have "go_get (inner m j) k \<noteq> None" "go_get (inner m j') k \<noteq> None" using sub by fastforce+
    then show "j = j'" using ok unfolding rules_keyed_def m_def by blast
  qed
  with assms Some ir show ?thesis by (simp add: mock_ok_def State_DestroyTargetBranchRule_def m_def)
qed (simp add: State_DestroyTargetBranchRule_def assms)

text \<open>A small instance for the evaluation of examples: one project with two target branch rules.\<close>

definition example_project :: gl_project where
  "example_project =
     \<lparr>p_ID = 7, p_Name = ''p'', p_Path = ''p'', p_PathWithNamespace = ''g/p'', p_DefaultBranch = ''main'', p_Archived = False,
      p_MarkedForDeletionAt = None, p_Visibility = [], p_Topics = [], p_TagList = [], p_NamespaceFullPath = None,
      p_Settings = zero_project_settings\<rparr>"

definition example_state :: mock_state where
  "example_state =
     snd (AddTargetBranchRule ''g/p'' ''feature/*'' ''develop''
       (snd (AddTargetBranchRule ''7'' ''hotfix/*'' ''main'' (snd (AddProject example_project NewState)))))"

lemma governs_example: "governs example_project example_state"
proof -
  have "mock_ok example_state"
    unfolding example_state_def by (intro mock_ok_add_rule mock_ok_add_project mock_ok_New)
  moreover have "resolveProjectIDLocked ''g/p'' example_state = Some 7" by code_simp
  ultimately show ?thesis by (simp add: governs_def example_project_def in_int64_def)
qed

end
