(* ===== verification/Project_Reconcilers.thy ===== *)
theory Project_Reconcilers
  imports Reconciler Mock_Server "HOL-Library.Signed_Division"
begin

section \<open>Reconcilers of one project resource\<close>

text \<open>
  \<^verbatim>\<open>pipelineretention.go\<close> (order 50) and \<^verbatim>\<open>projectsettings.go\<close> (order 40): read the live value, compare
  it with the policy, and send one edit when it differs. Both fulfil the contract of a reconciler
  on the mock server.
\<close>

subsection \<open>Pipeline retention\<close>

definition retention_name :: string where
  "retention_name = ''pipeline_retention''"

text \<open>Go's \<^verbatim>\<open>/\<close> truncates towards zero.\<close>

definition retention_diff :: "pipeline_retention_config \<Rightarrow> int \<Rightarrow> diff" where
  "retention_diff rc currentSeconds =
     (let desired = Seconds rc; days = currentSeconds sdiv 86400 in
      Build ''pipeline_retention'' ActionUpdate
        (SetDetails (''Update pipeline retention from '' @ fmt_d days @ '' days ('' @ fmt_d currentSeconds @ '' sec) to ''
            @ fmt_d (prc_RetentionDays rc) @ '' days ('' @ fmt_d desired @ '' sec)'')
          (AddField ''retention_days'' (VInt days) (VInt (prc_RetentionDays rc)) ActionUpdate
            (AddField ''ci_delete_pipelines_in_seconds'' (VInt currentSeconds) (VInt desired) ActionUpdate NewDiffBuilder))))"

definition retention_policy :: "policy_config option \<Rightarrow> pipeline_retention_config option" where
  "retention_policy cfg = (case cfg of None \<Rightarrow> None | Some c \<Rightarrow> pol_PipelineRetention (cfg_Policies c))"

definition PipelineRetention_Plan :: "'s gitlab_client \<Rightarrow> gl_project \<Rightarrow> policy_config option \<Rightarrow> 's plan_fun" where
  "PipelineRetention_Plan client project cfg s =
     (case retention_policy cfg of
        None \<Rightarrow> (Inr (noop_plan retention_name (project_resource project)), s)
      | Some rc \<Rightarrow>
          (case GetProjectPipelineRetention (cl_Projects client) (p_ID project) s of
             (Inl err, s') \<Rightarrow> (Inl (Wrapf (''failed to fetch project '' @ fmt_d (p_ID project) @ '' pipeline retention'') err), s')
           | (Inr currentSeconds, s') \<Rightarrow>
               (Inr (if currentSeconds = Seconds rc then noop_plan retention_name (project_resource project)
                     else changes_plan retention_name (project_resource project) ActionUpdate [retention_diff rc currentSeconds]), s')))"

definition PipelineRetention_Apply :: "'s gitlab_client \<Rightarrow> gl_project \<Rightarrow> policy_config option \<Rightarrow> 's apply_fun" where
  "PipelineRetention_Apply client project cfg s =
     (case retention_policy cfg of
        None \<Rightarrow> (noop_apply retention_name (project_resource project), s)
      | Some rc \<Rightarrow>
          apply_after_plan retention_name (project_resource project) (PipelineRetention_Plan client project cfg)
            (\<lambda>pl s1.
               case SetProjectPipelineRetention (cl_Projects client) (p_ID project) (Seconds rc) s1 of
                 (Some err, s2) \<Rightarrow>
                   (let e = Wrapf (''failed to update pipeline retention on project '' @ fmt_d (p_ID project)) err
                    in (failed_apply retention_name (project_resource project) ActionUpdate (pr_Diffs pl) e e, s2))
               | (None, s2) \<Rightarrow> (ok_apply retention_name (project_resource project) ActionUpdate (pr_Diffs pl), s2)) s)"

definition PipelineRetention_PlanGroup :: "gl_group \<Rightarrow> 's plan_fun" where
  "PipelineRetention_PlanGroup g s =
     (Inr (skipped_plan retention_name (group_resource g) ''Pipeline retention is not applicable to groups''), s)"

definition PipelineRetention_ApplyGroup :: "gl_group \<Rightarrow> 's apply_fun" where
  "PipelineRetention_ApplyGroup g s =
     (skipped_apply retention_name (group_resource g) ''Pipeline retention is not applicable to groups'', s)"

subsection \<open>Project settings\<close>

definition settings_name :: string where
  "settings_name = ''project_settings''"

text \<open>\<^verbatim>\<open>if desired != "" && live != desired { builder.AddField(...) }\<close>\<close>

definition add_if_declared :: "string \<Rightarrow> string \<Rightarrow> string \<Rightarrow> diff_builder \<Rightarrow> diff_builder" where
  "add_if_declared field live desired b =
     (if desired \<noteq> [] \<and> live \<noteq> desired then AddField field (VStr live) (VStr desired) ActionUpdate b else b)"

definition buildProjectSettingsDiff :: "gl_project \<Rightarrow> project_settings_config \<Rightarrow> diff" where
  "buildProjectSettingsDiff live desired =
     (let ps = p_Settings live in
      Build ''project_settings'' ActionUpdate
       (Add (CompareBoolPtr ''auto_devops_enabled'' (ps_AutoDevopsEnabled ps) (pjs_AutoDevopsEnabled desired))
       (add_if_declared ''auto_cancel_pending_pipelines'' (ps_AutoCancelPendingPipelines ps) (pjs_AutoCancelPendingPipelines desired)
       (Add (CompareBoolPtr ''printing_merge_request_link_enabled'' (ps_PrintingMergeRequestLinkEnabled ps)
               (pjs_PrintingMergeRequestLinkEnabled desired))
       (Add (CompareBoolPtr ''keep_latest_artifact'' (ps_KeepLatestArtifact ps) (pjs_KeepLatestArtifact desired))
       (Add (CompareBoolPtr ''remove_source_branch_after_merge'' (ps_RemoveSourceBranchAfterMerge ps)
               (pjs_RemoveSourceBranchAfterMerge desired))
       (Add (CompareBoolPtr ''only_allow_merge_if_all_discussions_are_resolved''
               (ps_OnlyAllowMergeIfAllDiscussionsAreResolved ps) (pjs_OnlyAllowMergeIfAllDiscussionsAreResolved desired))
       (Add (CompareBoolPtr ''allow_merge_on_skipped_pipeline'' (ps_AllowMergeOnSkippedPipeline ps)
               (pjs_AllowMergeOnSkippedPipeline desired))
       (Add (CompareBoolPtr ''only_allow_merge_if_pipeline_succeeds'' (ps_OnlyAllowMergeIfPipelineSucceeds ps)
               (pjs_OnlyAllowMergeIfPipelineSucceeds desired))
       (add_if_declared ''merge_method'' (ps_MergeMethod ps) (pjs_MergeMethod desired)
       (add_if_declared ''squash_option'' (ps_SquashOption ps) (pjs_SquashOption desired)
       (add_if_declared ''default_branch'' (p_DefaultBranch live) (pjs_DefaultBranch desired) NewDiffBuilder))))))))))))"

definition toEditProjectOptions :: "project_settings_config \<Rightarrow> edit_project_options" where
  "toEditProjectOptions c =
     zero_edit_project_options
       \<lparr>epo_DefaultBranch := str_ptr (pjs_DefaultBranch c), epo_SquashOption := str_ptr (pjs_SquashOption c),
        epo_MergeMethod := str_ptr (pjs_MergeMethod c),
        epo_OnlyAllowMergeIfPipelineSucceeds := pjs_OnlyAllowMergeIfPipelineSucceeds c,
        epo_AllowMergeOnSkippedPipeline := pjs_AllowMergeOnSkippedPipeline c,
        epo_OnlyAllowMergeIfAllDiscussionsAreResolved := pjs_OnlyAllowMergeIfAllDiscussionsAreResolved c,
        epo_RemoveSourceBranchAfterMerge := pjs_RemoveSourceBranchAfterMerge c,
        epo_KeepLatestArtifact := pjs_KeepLatestArtifact c,
        epo_PrintingMergeRequestLinkEnabled := pjs_PrintingMergeRequestLinkEnabled c,
        epo_AutoCancelPendingPipelines := str_ptr (pjs_AutoCancelPendingPipelines c),
        epo_AutoDevopsEnabled := pjs_AutoDevopsEnabled c\<rparr>"

definition settings_policy :: "policy_config option \<Rightarrow> project_settings_config option" where
  "settings_policy cfg = (case cfg of None \<Rightarrow> None | Some c \<Rightarrow> pol_ProjectSettings (cfg_Policies c))"

text \<open>A nil project in the reply falls back to the project of the call.\<close>

definition ProjectSettings_Plan :: "'s gitlab_client \<Rightarrow> gl_project \<Rightarrow> policy_config option \<Rightarrow> 's plan_fun" where
  "ProjectSettings_Plan client project cfg s =
     (case settings_policy cfg of
        None \<Rightarrow> (Inr (noop_plan settings_name (project_resource project)), s)
      | Some sc \<Rightarrow>
          (case GetProject (cl_Projects client) (p_ID project) s of
             (Inl err, s') \<Rightarrow> (Inl (Wrapf (''failed to get project '' @ fmt_d (p_ID project) @ '' details'') err), s')
           | (Inr liveProj, s') \<Rightarrow>
               (let d = buildProjectSettingsDiff (case liveProj of None \<Rightarrow> project | Some p \<Rightarrow> p) sc in
                (Inr (if \<not> Diff_HasChanges d then noop_plan settings_name (project_resource project)
                      else changes_plan settings_name (project_resource project) ActionUpdate [d]), s'))))"

definition ProjectSettings_Apply :: "'s gitlab_client \<Rightarrow> gl_project \<Rightarrow> policy_config option \<Rightarrow> 's apply_fun" where
  "ProjectSettings_Apply client project cfg s =
     (case settings_policy cfg of
        None \<Rightarrow> (noop_apply settings_name (project_resource project), s)
      | Some sc \<Rightarrow>
          apply_after_plan settings_name (project_resource project) (ProjectSettings_Plan client project cfg)
            (\<lambda>pl s1.
               case EditProject (cl_Projects client) (p_ID project) (toEditProjectOptions sc) s1 of
                 (Inl err, s2) \<Rightarrow>
                   (let e = Wrapf (''failed to update project settings for project '' @ fmt_d (p_ID project)) err
                    in (failed_apply settings_name (project_resource project) ActionUpdate (pr_Diffs pl) e e, s2))
               | (Inr _, s2) \<Rightarrow> (ok_apply settings_name (project_resource project) ActionUpdate (pr_Diffs pl), s2)) s)"

definition ProjectSettings_PlanGroup :: "gl_group \<Rightarrow> 's plan_fun" where
  "ProjectSettings_PlanGroup g s =
     (Inr (skipped_plan settings_name (group_resource g) ''Project settings are not applicable to groups''), s)"

definition ProjectSettings_ApplyGroup :: "gl_group \<Rightarrow> 's apply_fun" where
  "ProjectSettings_ApplyGroup g s =
     (skipped_apply settings_name (group_resource g) ''Project settings are not applicable to groups'', s)"

subsection \<open>On the mock server\<close>

lemma State_GetProject_number [simp]: "in_int64 pid \<Longrightarrow> State_GetProject (fmt_d pid) st = go_get (ms_projects st) pid"
  by (simp add: State_GetProject_def resolve_project_number)

lemma p_ID_edit_project [simp]: "p_ID (edit_project opts p) = p_ID p"
  by (simp add: edit_project_def Let_def)

lemma edit_project_zero [simp]: "edit_project zero_edit_project_options p = p"
  by (simp add: edit_project_def zero_edit_project_options_def set_when_def Let_def)

lemma handleEditProject_number:
  "in_int64 pid \<Longrightarrow> handleEditProject err (fmt_d pid) opts seconds st =
     (case go_get (ms_projects st) pid of
        None \<Rightarrow> (Inl (err 404 ''404 Project Not Found''), st)
      | Some p \<Rightarrow> (Inr (edit_project opts p),
          (case seconds of None \<Rightarrow> st\<lparr>ms_projects := go_put pid (edit_project opts p) (ms_projects st)\<rparr>
           | Some n \<Rightarrow> st\<lparr>ms_projects := go_put pid (edit_project opts p) (ms_projects st),
                            ms_pipelineRetention := go_put (p_ID p) n (ms_pipelineRetention st)\<rparr>)))"
  by (simp add: handleEditProject_def resolve_project_number Let_def split: option.splits)

text \<open>After the edit nothing of the policy differs.\<close>

lemma settings_edit_converges: "\<not> Diff_HasChanges (buildProjectSettingsDiff (edit_project (toEditProjectOptions c) p) c)"
proof -
  have s: "add_if_declared f (set_when (str_ptr d) x) d b = b" for f d x b
    by (simp add: add_if_declared_def str_ptr_def set_when_def)
  have b: "CompareBoolPtr f (set_when d x) d = None" for f d x
    by (simp add: CompareBoolPtr_def set_when_def split: option.splits)
  show ?thesis
    by (simp add: buildProjectSettingsDiff_def edit_project_def toEditProjectOptions_def Let_def s b
        Diff_HasChanges_def Build_def)
qed

lemma governs_edit: "governs project st \<Longrightarrow> governs project (snd (handleEditProject err idOrPath opts seconds st))"
  using mock_ok_edit [of st err idOrPath opts seconds]
  by (auto simp: governs_def handleEditProject_def Let_def split: option.splits)

lemma governs_number [simp]: "governs project st \<Longrightarrow> in_int64 (p_ID project)"
  by (simp add: governs_def)

lemma governs_keyed: "governs project st \<Longrightarrow> go_get (ms_projects st) i = Some p \<Longrightarrow> p_ID p = i"
  by (simp add: governs_def mock_ok_def projects_keyed_def)

text \<open>Both mutations end in the handler; they fail only where it does.\<close>

lemma snd_case_edit [simp]:
  "snd (case x of (Inl e, s') \<Rightarrow> (f e, s') | (Inr v, s') \<Rightarrow> (g v, s')) = snd x"
  "snd (case y of (None, s') \<Rightarrow> (a, s') | (Some e', s') \<Rightarrow> (b e', s')) = snd y"
  by (simp_all split: prod.splits sum.splits option.splits)

lemma retention_plan_read_only:
  "governs project s \<Longrightarrow> snd (PipelineRetention_Plan (mock_client err) project cfg s) = s"
  by (auto simp: PipelineRetention_Plan_def mock_projects_def split: option.splits)

lemma settings_plan_read_only:
  "governs project s \<Longrightarrow> snd (ProjectSettings_Plan (mock_client err) project cfg s) = s"
  by (auto simp: ProjectSettings_Plan_def mock_projects_def Let_def split: option.splits)

interpretation retention: reconciler "PipelineRetention_Plan (mock_client err) project cfg"
  "PipelineRetention_Apply (mock_client err) project cfg" "governs project"
proof
  fix s :: mock_state
  let ?plan = "PipelineRetention_Plan (mock_client err) project cfg"
  let ?apply = "PipelineRetention_Apply (mock_client err) project cfg"
  assume inv: "governs project s"
  show ro: "snd (?plan s) = s"
    using inv by (rule retention_plan_read_only)
  show "governs project (snd (?apply s))"
    unfolding PipelineRetention_Apply_def Let_def
    by (auto split: option.splits intro!: inv governs_edit apply_after_plan_state [where P = "governs project"]
        simp: ro mock_projects_def Let_def)
  show "settled ?plan (snd (?apply s))" if ok: "snd (fst (?apply s)) = None"
  proof (cases "retention_policy cfg")
    case (Some rc)
    show ?thesis
      using ro ok unfolding PipelineRetention_Apply_def Some option.case Let_def
      by (rule apply_after_plan_settles)
        (cases "go_get (ms_projects s) (p_ID project)",
         use inv in \<open>auto simp: Some mock_projects_def settled_def PipelineRetention_Plan_def handleEditProject_number
           GetPipelineRetention_def dest: governs_keyed\<close>)
  qed (simp add: PipelineRetention_Apply_def PipelineRetention_Plan_def settled_def)
  show "snd (?apply s) = s \<and> snd (fst (?apply s)) = None \<and> ar_Status (fst (fst (?apply s))) = StatusNoop"
    if "settled ?plan s"
    using that by (auto simp: PipelineRetention_Apply_def apply_after_plan_settled split: option.splits)
qed

interpretation settings: reconciler "ProjectSettings_Plan (mock_client err) project cfg"
  "ProjectSettings_Apply (mock_client err) project cfg" "governs project"
proof
  fix s :: mock_state
  let ?plan = "ProjectSettings_Plan (mock_client err) project cfg"
  let ?apply = "ProjectSettings_Apply (mock_client err) project cfg"
  assume inv: "governs project s"
  show ro: "snd (?plan s) = s"
    using inv by (rule settings_plan_read_only)
  show "governs project (snd (?apply s))"
    unfolding ProjectSettings_Apply_def Let_def
    by (auto split: option.splits intro!: inv governs_edit apply_after_plan_state [where P = "governs project"]
        simp: ro mock_projects_def Let_def)
  show "settled ?plan (snd (?apply s))" if ok: "snd (fst (?apply s)) = None"
  proof (cases "settings_policy cfg")
    case (Some sc)
    show ?thesis
      using ro ok unfolding ProjectSettings_Apply_def Some option.case Let_def
      by (rule apply_after_plan_settles)
        (use inv in \<open>auto simp: Some mock_projects_def settled_def ProjectSettings_Plan_def handleEditProject_number
             settings_edit_converges Let_def split: option.splits\<close>)
  qed (simp add: ProjectSettings_Apply_def ProjectSettings_Plan_def settled_def)
  show "snd (?apply s) = s \<and> snd (fst (?apply s)) = None \<and> ar_Status (fst (fst (?apply s))) = StatusNoop"
    if "settled ?plan s"
    using that by (auto simp: ProjectSettings_Apply_def apply_after_plan_settled split: option.splits)
qed

end
