(* ===== verification/Mock_Facts.thy ===== *)
theory Mock_Facts
  imports Reconciler Mock_Server
begin

section \<open>Facts about the mock server the reconcilers share\<close>

text \<open>
  How the entries of a Go map change in the iteration order used here, the first page of a short
  listing, and the latest entry of a listing with a property.
\<close>

lemma go_put_fresh: "go_get m k = None \<Longrightarrow> go_put k v m = m @ [(k, v)]"
  by (induction m) (auto simp: go_put_def split: if_splits)

lemma go_put_in_place:
  "go_map_ok m \<Longrightarrow> go_get m k \<noteq> None \<Longrightarrow> go_put k v m = map (\<lambda>(i, x). (i, if i = k then v else x)) m"
proof (induction m)
  case (Cons a m)
  obtain i x where a: "a = (i, x)" by (cases a)
  show ?case
  proof (cases "i = k")
    case True
    then have "k \<notin> fst ` set m" using Cons.prems(1) a by (simp add: go_map_ok_def)
    then have "map (\<lambda>(i, x). (i, if i = k then v else x)) m = m" by (induction m) auto
    with True a show ?thesis by (simp add: go_put_def)
  next
    case False
    with Cons a show ?thesis by (simp add: go_put_def go_map_ok_def)
  qed
qed simp

lemma go_map_ok_append: "go_map_ok m \<Longrightarrow> go_get m k = None \<Longrightarrow> go_map_ok (m @ [(k, v)])"
  using go_map_ok_put [of m k v] by (simp add: go_put_fresh)

lemma go_get_mem: "go_map_ok m \<Longrightarrow> go_get m k = Some v \<longleftrightarrow> (k, v) \<in> set m"
  by (simp add: go_map_ok_def)

lemma go_delete_filter: "go_delete k m = filter (\<lambda>e. fst e \<noteq> k) m"
  by (simp add: go_delete_def AList.delete_eq)

text \<open>A map whose entries carry their key, read back from the list of its entries.\<close>

definition keyed :: "('v \<Rightarrow> 'k) \<Rightarrow> ('k, 'v) go_map \<Rightarrow> bool" where
  "keyed key m \<longleftrightarrow> go_map_ok m \<and> (\<forall>k v. go_get m k = Some v \<longrightarrow> key v = k)"

lemma keyed_put: "keyed key m \<Longrightarrow> keyed key (go_put (key v) v m)"
  by (simp add: keyed_def)

lemma keyed_delete: "keyed key m \<Longrightarrow> keyed key (go_delete k m)"
  by (simp add: keyed_def)

lemma keyed_keys: "keyed key m \<Longrightarrow> map key (map snd m) = map fst m"
  unfolding map_map by (rule map_cong) (auto simp: keyed_def go_get_mem)

lemma keyed_distinct: "keyed key m \<Longrightarrow> distinct (map key (map snd m))"
  by (simp add: keyed_keys del: map_map) (simp add: keyed_def go_map_ok_def)

lemma keyed_mem: "keyed key m \<Longrightarrow> v \<in> set (map snd m) \<longleftrightarrow> go_get m (key v) = Some v"
  by (force simp: keyed_def go_get_mem)

lemma keyed_lookup:
  assumes "keyed key m"
  shows "go_get (go_map_of_list key id (map snd m)) n = go_get m n"
proof (cases "go_get m n")
  case None
  then have "n \<notin> key ` set (map snd m)" using keyed_mem [OF assms] by (metis (no_types, lifting) imageE option.distinct(1))
  then show ?thesis using None by (simp add: go_get_map_of_list_None)
next
  case (Some v)
  then have v: "key v = n" using assms by (simp add: keyed_def)
  with Some have "v \<in> set (map snd m)" using keyed_mem [OF assms] by simp
  from go_get_map_of_list_distinct [OF keyed_distinct [OF assms] this, of id] v Some show ?thesis by simp
qed

text \<open>A listing of at most 20 entries fits on the default page, one of at most 100 on a page of 100.\<close>

lemma first_page_short: "length xs \<le> 20 \<Longrightarrow> first_page xs = map Some xs"
  by (simp add: first_page_def paginate_page_def Let_def min_def)

lemma first_page_take: "first_page xs = map Some (take 20 xs)"
  by (simp add: first_page_def paginate_page_def Let_def min_def)

text \<open>The latest entry with a property.\<close>

definition latest :: "('a \<Rightarrow> bool) \<Rightarrow> 'a list \<Rightarrow> 'a option" where
  "latest P xs = find P (rev xs)"

lemma latest_append: "latest P (xs @ [x]) = (if P x then Some x else latest P xs)"
  by (simp add: latest_def)

lemma latest_SomeD: "latest P xs = Some x \<Longrightarrow> x \<in> set xs \<and> P x"
  by (auto simp: latest_def dest!: find_SomeD)

lemma latest_None: "latest P xs = None \<longleftrightarrow> (\<forall>x \<in> set xs. \<not> P x)"
  by (auto simp: latest_def find_None_iff)

lemma find_map: "find P (map f xs) = map_option f (find (P \<circ> f) xs)"
  by (induction xs) auto

lemma latest_map: "(\<And>x. x \<in> set xs \<Longrightarrow> P (f x) = P x) \<Longrightarrow> latest P (map f xs) = map_option f (latest P xs)"
  unfolding latest_def rev_map find_map comp_def by (rule arg_cong [of _ _ "map_option f"], rule find_cong) auto

lemma latest_filter: "latest P xs = Some x \<Longrightarrow> Q x \<Longrightarrow> latest P (filter Q xs) = Some x"
proof -
  have "find P ys = Some x \<Longrightarrow> Q x \<Longrightarrow> find P (filter Q ys) = Some x" for ys
    by (induction ys) (auto split: if_splits)
  then show "latest P xs = Some x \<Longrightarrow> Q x \<Longrightarrow> latest P (filter Q xs) = Some x"
    by (simp add: latest_def rev_filter)
qed

lemma go_get_map_of_list_latest: "go_get (go_map_of_list kf id xs) k = latest (\<lambda>x. kf x = k) xs"
  by (simp add: go_get_map_of_list latest_def option.map_id)

text \<open>The usual way to fulfil the contract of a reconciler.\<close>

lemma reconcilerI:
  assumes plan: "\<And>s. ok s \<Longrightarrow> snd (plan s) = s"
    and noop: "\<And>s. settled plan s \<Longrightarrow> apply' s = (noop_apply name r, s)"
    and change: "\<And>s. ok s \<Longrightarrow> \<not> settled plan s \<Longrightarrow>
      ok (snd (apply' s)) \<and> (snd (fst (apply' s)) = None \<longrightarrow> settled plan (snd (apply' s)))"
  shows "reconciler plan apply' ok"
proof
  fix s
  assume okay: "ok s"
  show "snd (plan s) = s" using okay by (rule plan)
  show "ok (snd (apply' s))" using noop [of s] change [OF okay] okay by (cases "settled plan s") auto
  show "settled plan (snd (apply' s))" if "snd (fst (apply' s)) = None"
    using noop [of s] change [OF okay] that by (cases "settled plan s") auto
  show "snd (apply' s) = s \<and> snd (fst (apply' s)) = None \<and> ar_Status (fst (fst (apply' s))) = StatusNoop"
    if "settled plan s" using noop [OF that] by simp
qed

lemma undeclared_reconciler:
  "plan = (\<lambda>s. (Inr (noop_plan n r), s)) \<Longrightarrow> apply' = (\<lambda>s. (noop_apply n r, s)) \<Longrightarrow> reconciler plan apply' P"
  by (simp only: noop_reconciler)

end
