(* ===== verification/Target_Branch_Rules.thy ===== *)
theory Target_Branch_Rules
  imports Reconciler Mock_Facts
begin

section \<open>Target branch rules\<close>

text \<open>
  \<^verbatim>\<open>internal/governance/targetbranchrules.go\<close> (order 45). GitLab evaluates the rules of a project top
  down and lists the newest first; there is no update. The reconciler therefore destroys the managed
  rules and creates the declared ones in reverse. The abstract specification is the list of
  (source pattern, target branch) pairs in evaluation order; the apply refines it on the mock server.
\<close>

definition target_rules_name :: string where
  "target_rules_name = ''target_branch_rules''"

definition target_rules_policy :: "policy_config option \<Rightarrow> target_branch_rules_config option" where
  "target_rules_policy cfg = (case cfg of None \<Rightarrow> None | Some c \<Rightarrow> pol_TargetBranchRules (cfg_Policies c))"

definition prune_enabled :: "target_branch_rules_config \<Rightarrow> bool" where
  "prune_enabled dc \<longleftrightarrow> tbs_Prune dc = Some True"

definition desiredMap :: "target_branch_rules_config \<Rightarrow> (string, target_branch_rule_config) go_map" where
  "desiredMap dc = go_map_of_list tbr_Name id (tbs_Rules dc)"

definition is_managed :: "target_branch_rules_config \<Rightarrow> string \<Rightarrow> bool" where
  "is_managed dc name \<longleftrightarrow> go_get (desiredMap dc) name \<noteq> None"

subsection \<open>Planning\<close>

definition rule_diff :: "string \<Rightarrow> go_any \<Rightarrow> go_any \<Rightarrow> action_type \<Rightarrow> diff" where
  "rule_diff name old new a =
     Build (''target_branch_rule:'' @ name) a (AddField ''target_branch'' old new a NewDiffBuilder)"

text \<open>The three passes of \<^verbatim>\<open>calculateDiffs\<close>: declared rules, pruned rules, evaluation order.\<close>

definition declared_pass ::
  "(string, target_branch_rule) go_map \<Rightarrow> diff list \<times> action_type \<Rightarrow> target_branch_rule_config \<Rightarrow> diff list \<times> action_type" where
  "declared_pass liveMap acc dr =
     (case acc of (ds, a) \<Rightarrow>
        (case go_get liveMap (tbr_Name dr) of
           None \<Rightarrow> (ds @ [rule_diff (tbr_Name dr) VNil (VStr (tbr_TargetBranch dr)) ActionCreate], note_action ActionCreate a)
         | Some lr \<Rightarrow>
             (if tr_TargetBranch lr \<noteq> tbr_TargetBranch dr
              then (ds @ [rule_diff (tbr_Name dr) (VStr (tr_TargetBranch lr)) (VStr (tbr_TargetBranch dr)) ActionUpdate],
                    note_action ActionUpdate a)
              else (ds, a))))"

definition prune_pass ::
  "target_branch_rules_config \<Rightarrow> diff list \<times> action_type \<Rightarrow> target_branch_rule \<Rightarrow> diff list \<times> action_type" where
  "prune_pass dc acc lr =
     (case acc of (ds, a) \<Rightarrow>
        (if \<not> is_managed dc (tr_Name lr)
         then (ds @ [rule_diff (tr_Name lr) (VStr (tr_TargetBranch lr)) VNil ActionDelete], note_action ActionDelete a)
         else (ds, a)))"

definition order_drift :: "string list \<Rightarrow> string list \<Rightarrow> bool" where
  "order_drift liveSequence desiredSequence \<longleftrightarrow>
     length liveSequence = length desiredSequence \<and> (\<exists>i < length liveSequence. liveSequence ! i \<noteq> desiredSequence ! i)"

definition calculateDiffs :: "target_branch_rule list \<Rightarrow> target_branch_rules_config \<Rightarrow> diff list \<times> action_type" where
  "calculateDiffs liveRules dc =
     (let liveMap = go_map_of_list tr_Name id liveRules;
          acc1 = foldl (declared_pass liveMap) ([], ActionNoop) (tbs_Rules dc);
          acc2 = (if prune_enabled dc then foldl (prune_pass dc) acc1 liveRules else acc1);
          liveSequence = filter (is_managed dc) (map tr_Name liveRules);
          desiredSequence = map tbr_Name (tbs_Rules dc)
      in if order_drift liveSequence desiredSequence \<and> fst acc2 = []
         then ([Build ''target_branch_rules:evaluation_order'' ActionUpdate
                 (AddField ''evaluation_order'' (VStrs liveSequence) (VStrs desiredSequence) ActionUpdate NewDiffBuilder)],
               note_action ActionUpdate (snd acc2))
         else acc2)"

definition TargetBranchRules_Plan :: "'s gitlab_client \<Rightarrow> gl_project \<Rightarrow> policy_config option \<Rightarrow> 's plan_fun" where
  "TargetBranchRules_Plan client project cfg s =
     (case target_rules_policy cfg of
        None \<Rightarrow> (Inr (noop_plan target_rules_name (project_resource project)), s)
      | Some dc \<Rightarrow>
          (case GetTargetBranchRules (cl_TargetBranchRules client) (p_PathWithNamespace project) s of
             (Inl err, s') \<Rightarrow>
               (Inl (Wrapf (''failed to fetch target branch rules for project '' @ p_PathWithNamespace project) err), s')
           | (Inr liveRules, s') \<Rightarrow>
               (case calculateDiffs liveRules dc of
                  (ds, a) \<Rightarrow> (Inr (plan_of_diffs target_rules_name (project_resource project) a ds), s'))))"

subsection \<open>Applying\<close>

text \<open>The first failing call ends a loop; the rule it failed on goes into the error text.\<close>

fun destroy_rules ::
  "'s target_branch_rules_service \<Rightarrow> (target_branch_rule \<Rightarrow> bool) \<Rightarrow> target_branch_rule list \<Rightarrow> 's
   \<Rightarrow> (target_branch_rule \<times> go_error) option \<times> 's" where
  "destroy_rules svc doomed [] s = (None, s)"
| "destroy_rules svc doomed (lr # lrs) s =
     (if doomed lr then
        (case DestroyTargetBranchRule svc (tr_ID lr) s of
           (Some e, s') \<Rightarrow> (Some (lr, e), s')
         | (None, s') \<Rightarrow> destroy_rules svc doomed lrs s')
      else destroy_rules svc doomed lrs s)"

fun create_rules ::
  "'s target_branch_rules_service \<Rightarrow> int \<Rightarrow> target_branch_rule_config list \<Rightarrow> 's
   \<Rightarrow> (target_branch_rule_config \<times> go_error) option \<times> 's" where
  "create_rules svc pid [] s = (None, s)"
| "create_rules svc pid (dr # drs) s =
     (case CreateTargetBranchRule svc pid (tbr_Name dr) (tbr_TargetBranch dr) s of
        (Inl e, s') \<Rightarrow> (Some (dr, e), s')
      | (Inr _, s') \<Rightarrow> create_rules svc pid drs s')"

definition TargetBranchRules_Apply :: "'s gitlab_client \<Rightarrow> gl_project \<Rightarrow> policy_config option \<Rightarrow> 's apply_fun" where
  "TargetBranchRules_Apply client project cfg s =
     (let name = target_rules_name; r = project_resource project; svc = cl_TargetBranchRules client in
      case target_rules_policy cfg of
        None \<Rightarrow> (noop_apply name r, s)
      | Some dc \<Rightarrow>
          (case GetTargetBranchRules svc (p_PathWithNamespace project) s of
             (Inl err, s1) \<Rightarrow> (failed_apply name r ActionNoop [] err err, s1)
           | (Inr liveRules, s1) \<Rightarrow>
               (case calculateDiffs liveRules dc of
                  (ds, a) \<Rightarrow>
                    (if ds = [] then (noop_apply name r, s1)
                     else
                       (case destroy_rules svc (\<lambda>lr. is_managed dc (tr_Name lr) \<or> prune_enabled dc) liveRules s1 of
                          (Some (lr, e), s2) \<Rightarrow>
                            (failed_apply name r a ds
                               (Wrapf (''failed to destroy target branch rule '' @ tr_Name lr @ '' ('' @ tr_ID lr @ '')'') e) e, s2)
                        | (None, s2) \<Rightarrow>
                            (case create_rules svc (p_ID project) (rev (tbs_Rules dc)) s2 of
                               (Some (dr, e), s3) \<Rightarrow>
                                 (failed_apply name r a ds
                                    (Wrapf (''failed to create target branch rule '' @ tbr_Name dr @ '' -> ''
                                       @ tbr_TargetBranch dr) e) e, s3)
                             | (None, s3) \<Rightarrow> (ok_apply name r a ds, s3)))))))"

definition TargetBranchRules_PlanGroup :: "gl_group \<Rightarrow> 's plan_fun" where
  "TargetBranchRules_PlanGroup g s =
     (Inr (skipped_plan target_rules_name (group_resource g) ''Target branch rules are not applicable to groups''), s)"

definition TargetBranchRules_ApplyGroup :: "gl_group \<Rightarrow> 's apply_fun" where
  "TargetBranchRules_ApplyGroup g s =
     (skipped_apply target_rules_name (group_resource g) ''Target branch rules are not applicable to groups'', s)"

subsection \<open>What the diffs mean\<close>

lemma is_managed_iff: "is_managed dc n \<longleftrightarrow> n \<in> tbr_Name ` set (tbs_Rules dc)"
  by (simp add: is_managed_def desiredMap_def go_get_map_of_list_None)

lemma order_drift_iff: "order_drift xs ys \<longleftrightarrow> length xs = length ys \<and> xs \<noteq> ys"
  by (auto simp: order_drift_def list_eq_iff_nth_eq)

lemma declared_pass_nil:
  "fst (foldl (declared_pass lm) acc rs) = [] \<longleftrightarrow>
     fst acc = [] \<and> (\<forall>dr \<in> set rs. \<exists>lr. go_get lm (tbr_Name dr) = Some lr \<and> tr_TargetBranch lr = tbr_TargetBranch dr)"
  by (induction rs arbitrary: acc) (auto simp: declared_pass_def split: option.splits prod.splits)

lemma prune_pass_nil:
  "fst (foldl (prune_pass dc) acc lrs) = [] \<longleftrightarrow> fst acc = [] \<and> (\<forall>lr \<in> set lrs. is_managed dc (tr_Name lr))"
  by (induction lrs arbitrary: acc) (auto simp: prune_pass_def split: prod.splits)

lemma tracks_calculateDiffs: "tracks (calculateDiffs lrs dc)"
proof -
  have d: "tracks acc \<Longrightarrow> tracks (declared_pass lm acc dr)" for lm acc dr
    by (cases acc) (auto simp: declared_pass_def split: option.splits)
  have p: "tracks acc \<Longrightarrow> tracks (prune_pass dc acc lr)" for acc lr
    by (cases acc) (auto simp: prune_pass_def)
  have one: "tracks ([x], note_action ActionUpdate (snd acc))" if "tracks acc" "fst acc = []" for x acc
    using that by (simp add: tracks_def note_action_def)
  have "tracks (if prune_enabled dc then foldl (prune_pass dc) acc lrs else acc)" if "tracks acc" for acc
    using that p by (simp add: tracks_foldl)
  then show ?thesis
    using d one by (simp add: calculateDiffs_def Let_def tracks_foldl)
qed

text \<open>The abstract specification: the rules in evaluation order, as (pattern, target) pairs.\<close>

type_synonym rule_pairs = "(string \<times> string) list"

definition declared_rules :: "target_branch_rules_config \<Rightarrow> rule_pairs" where
  "declared_rules dc = map (\<lambda>r. (tbr_Name r, tbr_TargetBranch r)) (tbs_Rules dc)"

definition managed_part :: "target_branch_rules_config \<Rightarrow> rule_pairs \<Rightarrow> rule_pairs" where
  "managed_part dc rs = filter (\<lambda>p. is_managed dc (fst p)) rs"

definition unmanaged_part :: "target_branch_rules_config \<Rightarrow> rule_pairs \<Rightarrow> rule_pairs" where
  "unmanaged_part dc rs = filter (\<lambda>p. \<not> is_managed dc (fst p)) rs"

definition pairs_of :: "target_branch_rule list \<Rightarrow> rule_pairs" where
  "pairs_of lrs = map (\<lambda>r. (tr_Name r, tr_TargetBranch r)) lrs"

lemma parts_declared [simp]:
  "managed_part dc (declared_rules dc) = declared_rules dc" "unmanaged_part dc (declared_rules dc) = []"
  by (auto simp: managed_part_def unmanaged_part_def declared_rules_def is_managed_iff filter_id_conv filter_empty_conv)

text \<open>Two lists without repeated keys whose entries agree under every key are equal once their keys are.\<close>

lemma map_eq_by_keys:
  assumes "map fst xs = map fst ys" and "distinct (map fst xs)" and "set xs \<subseteq> set ys"
  shows "xs = ys"
proof (rule nth_equalityI)
  show len: "length xs = length ys" using assms(1) by (metis length_map)
  fix i assume i: "i < length xs"
  then have "xs ! i \<in> set ys" using assms(3) by auto
  then obtain j where j: "j < length ys" "ys ! j = xs ! i" by (auto simp: in_set_conv_nth)
  have "map fst xs ! j = map fst xs ! i" using i j len assms(1) by (metis nth_map)
  then have "j = i" using assms(2) i j len by (simp add: distinct_conv_nth) (metis)
  then show "xs ! i = ys ! i" using j by simp
qed

lemma calculateDiffs_nil_iff:
  assumes live: "distinct (map tr_Name lrs)" and pol: "distinct (map tbr_Name (tbs_Rules dc))"
  shows "fst (calculateDiffs lrs dc) = [] \<longleftrightarrow>
    managed_part dc (pairs_of lrs) = declared_rules dc \<and> (prune_enabled dc \<longrightarrow> unmanaged_part dc (pairs_of lrs) = [])"
    (is "?nil \<longleftrightarrow> ?conf \<and> ?pr")
proof -
  let ?all = "\<forall>dr \<in> set (tbs_Rules dc). \<exists>lr. go_get (go_map_of_list tr_Name id lrs) (tbr_Name dr) = Some lr
    \<and> tr_TargetBranch lr = tbr_TargetBranch dr"
  let ?seq = "filter (is_managed dc) (map tr_Name lrs)"
  let ?des = "map tbr_Name (tbs_Rules dc)"
  have all_iff: "?all \<longleftrightarrow> set (declared_rules dc) \<subseteq> set (pairs_of lrs)"
  proof
    assume a: ?all
    show "set (declared_rules dc) \<subseteq> set (pairs_of lrs)"
    proof
      fix p assume "p \<in> set (declared_rules dc)"
      then obtain dr where dr: "dr \<in> set (tbs_Rules dc)" "p = (tbr_Name dr, tbr_TargetBranch dr)"
        by (auto simp: declared_rules_def)
      then obtain lr where "go_get (go_map_of_list tr_Name id lrs) (tbr_Name dr) = Some lr"
        "tr_TargetBranch lr = tbr_TargetBranch dr" using a by blast
      then show "p \<in> set (pairs_of lrs)"
        using dr go_get_map_of_list_SomeD [of tr_Name id lrs] by (force simp: pairs_of_def)
    qed
  next
    assume sub: "set (declared_rules dc) \<subseteq> set (pairs_of lrs)"
    show ?all
    proof
      fix dr assume "dr \<in> set (tbs_Rules dc)"
      then obtain lr where "lr \<in> set lrs" "tr_Name lr = tbr_Name dr" "tr_TargetBranch lr = tbr_TargetBranch dr"
        using sub by (auto simp: declared_rules_def pairs_of_def)
      then show "\<exists>lr. go_get (go_map_of_list tr_Name id lrs) (tbr_Name dr) = Some lr \<and> tr_TargetBranch lr = tbr_TargetBranch dr"
        using go_get_map_of_list_distinct [OF live, of lr id] by auto
    qed
  qed
  have seq: "?seq = map fst (managed_part dc (pairs_of lrs))"
    by (simp add: managed_part_def pairs_of_def filter_map o_def)
  have des: "?des = map fst (declared_rules dc)" by (simp add: declared_rules_def)
  have pr_iff: "?pr \<longleftrightarrow> (prune_enabled dc \<longrightarrow> (\<forall>lr \<in> set lrs. is_managed dc (tr_Name lr)))"
    by (auto simp: unmanaged_part_def pairs_of_def filter_empty_conv)
  have len: "length ?seq = length ?des" if "set (declared_rules dc) \<subseteq> set (pairs_of lrs)"
  proof -
    have "tbr_Name ` set (tbs_Rules dc) \<subseteq> tr_Name ` set lrs"
      using image_mono [OF that, of fst] by (simp add: declared_rules_def pairs_of_def image_image)
    then have "set ?seq = set ?des" by (auto simp: is_managed_iff)
    moreover have "distinct ?seq" using live by simp
    ultimately show ?thesis using pol distinct_card by metis
  qed
  have "?nil \<longleftrightarrow> ?all \<and> (prune_enabled dc \<longrightarrow> (\<forall>lr \<in> set lrs. is_managed dc (tr_Name lr))) \<and> \<not> order_drift ?seq ?des"
    by (auto simp: calculateDiffs_def Let_def declared_pass_nil prune_pass_nil)
  also have "\<dots> \<longleftrightarrow> set (declared_rules dc) \<subseteq> set (pairs_of lrs) \<and> ?pr \<and> ?seq = ?des"
    unfolding all_iff pr_iff order_drift_iff using len by blast
  also have "\<dots> \<longleftrightarrow> ?conf \<and> ?pr"
  proof -
    have "managed_part dc (pairs_of lrs) = declared_rules dc"
      if "set (declared_rules dc) \<subseteq> set (pairs_of lrs)" "?seq = ?des"
    proof (rule sym, rule map_eq_by_keys)
      show "map fst (declared_rules dc) = map fst (managed_part dc (pairs_of lrs))" using that seq des by simp
      show "distinct (map fst (declared_rules dc))" using pol des by simp
      show "set (declared_rules dc) \<subseteq> set (managed_part dc (pairs_of lrs))"
        using that(1) by (auto simp: managed_part_def declared_rules_def is_managed_iff)
    qed
    moreover have "set (managed_part dc (pairs_of lrs)) \<subseteq> set (pairs_of lrs)" by (auto simp: managed_part_def)
    ultimately show ?thesis using seq des by metis
  qed
  finally show ?thesis .
qed

subsection \<open>On the mock server\<close>

definition rule_list :: "int \<Rightarrow> mock_state \<Rightarrow> mock_target_branch_rule list" where
  "rule_list pid st = sort_slice (\<lambda>r. - mtr_Seq r) (map snd (inner (ms_targetBranchRules st) pid))"

definition rules_view :: "int \<Rightarrow> mock_state \<Rightarrow> rule_pairs" where
  "rules_view pid st = map (\<lambda>r. (mtr_Name r, mtr_TargetBranch r)) (rule_list pid st)"

lemma pairs_of_decode [simp]: "pairs_of (map decode_rule rs) = map (\<lambda>r. (mtr_Name r, mtr_TargetBranch r)) rs"
  by (simp add: pairs_of_def decode_rule_def)

lemma set_rule_list: "go_map_ok (inner (ms_targetBranchRules st) pid) \<Longrightarrow>
    r \<in> set (rule_list pid st) \<longleftrightarrow> (\<exists>k. go_get (inner (ms_targetBranchRules st) pid) k = Some r)"
  by (force simp: rule_list_def go_map_ok_def image_iff)

lemma rule_keyed:
  assumes "rules_keyed st" and "r \<in> set (rule_list pid st)"
  shows "go_get (inner (ms_targetBranchRules st) pid) (mtr_ID r) = Some r"
    and "mtr_ID r = target_rule_gid (mtr_Seq r)" and "mtr_Seq r < ms_nextTargetRuleID st"
proof -
  have "go_map_ok (inner (ms_targetBranchRules st) pid)" using assms(1) by (simp add: rules_keyed_def)
  then obtain k where k: "go_get (inner (ms_targetBranchRules st) pid) k = Some r" using assms(2) by (auto simp: set_rule_list)
  then have "mtr_ID r = k \<and> k = target_rule_gid (mtr_Seq r) \<and> mtr_Seq r < ms_nextTargetRuleID st"
    using assms(1) unfolding rules_keyed_def by blast
  with k show "go_get (inner (ms_targetBranchRules st) pid) (mtr_ID r) = Some r"
    and "mtr_ID r = target_rule_gid (mtr_Seq r)" and "mtr_Seq r < ms_nextTargetRuleID st" by auto
qed

lemma distinct_rule_list:
  assumes "rules_keyed st"
  shows "distinct (rule_list pid st)"
proof -
  have ok: "go_map_ok (inner (ms_targetBranchRules st) pid)" using assms by (simp add: rules_keyed_def)
  have "inj_on snd (set (inner (ms_targetBranchRules st) pid))"
  proof (rule inj_onI)
    fix x y assume x: "x \<in> set (inner (ms_targetBranchRules st) pid)" "y \<in> set (inner (ms_targetBranchRules st) pid)" "snd x = snd y"
    then have "go_get (inner (ms_targetBranchRules st) pid) (fst x) = Some (snd x)"
      "go_get (inner (ms_targetBranchRules st) pid) (fst y) = Some (snd y)"
      using ok unfolding go_map_ok_def by (metis map_of_is_SomeI prod.collapse)+
    then have "mtr_ID (snd x) = fst x" "mtr_ID (snd y) = fst y" using assms unfolding rules_keyed_def by blast+
    with x(3) show "x = y" by (simp add: prod_eq_iff)
  qed
  moreover have "distinct (inner (ms_targetBranchRules st) pid)" using ok by (simp add: go_map_ok_def distinct_map)
  ultimately show ?thesis by (simp add: rule_list_def sort_slice_def distinct_map)
qed

text \<open>Destroying a listed rule removes it from its project's list and touches no other list.\<close>

lemma destroy_listed:
  assumes ok: "rules_keyed st" and r: "r \<in> set (rule_list pid st)"
  shows "rule_list j (snd (State_DestroyTargetBranchRule (mtr_ID r) st)) =
    (if j = pid then filter (\<lambda>x. x \<noteq> r) (rule_list pid st) else rule_list j st)"
proof -
  let ?m = "ms_targetBranchRules st"
  let ?hit = "\<lambda>(i, rules). go_get rules (mtr_ID r) \<noteq> None"
  have got: "go_get (inner ?m pid) (mtr_ID r) = Some r" by (rule rule_keyed [OF ok r])
  have maps: "go_map_ok ?m" using ok by (simp add: rules_keyed_def)
  have "go_get ?m pid = Some (inner ?m pid)" using got by (auto simp: inner_def split: option.splits)
  then have mem: "(pid, inner ?m pid) \<in> set ?m" by (rule map_of_SomeD)
  have "find ?hit ?m = Some (pid, inner ?m pid)"
  proof (rule find_unique [OF mem])
    show "?hit (pid, inner ?m pid)" using got by simp
    fix y assume y: "y \<in> set ?m" "?hit y"
    obtain i rules where ir: "y = (i, rules)" by (cases y)
    have "go_get ?m i = Some rules" using y(1) maps by (simp add: ir go_map_ok_def)
    then have rules: "inner ?m i = rules" by (simp add: inner_def)
    then have "go_get (inner ?m i) (mtr_ID r) \<noteq> None" using y(2) ir by simp
    then have "i = pid" using ok got unfolding rules_keyed_def by (metis option.distinct(1))
    then show "y = (pid, inner ?m pid)" using rules ir by simp
  qed
  then have st': "ms_targetBranchRules (snd (State_DestroyTargetBranchRule (mtr_ID r) st)) = delete_inner pid (mtr_ID r) ?m"
    by (simp add: State_DestroyTargetBranchRule_def)
  have "map snd (go_delete (mtr_ID r) (inner ?m pid)) = filter (\<lambda>x. x \<noteq> r) (map snd (inner ?m pid))"
  proof -
    have "fst kv \<noteq> mtr_ID r \<longleftrightarrow> snd kv \<noteq> r" if kv: "kv \<in> set (inner ?m pid)" for kv
    proof -
      have "go_get (inner ?m pid) (fst kv) = Some (snd kv)"
        using kv ok by (simp add: rules_keyed_def go_map_ok_def)
      moreover from this have "mtr_ID (snd kv) = fst kv" using ok unfolding rules_keyed_def by blast
      ultimately show ?thesis using got by auto
    qed
    then show ?thesis by (simp add: go_delete_def filter_map o_def cong: filter_cong)
  qed
  then show ?thesis by (simp add: rule_list_def st' sort_slice_def filter_sort)
qed

lemma sort_slice_newest: "\<forall>x \<in> set xs. f a < f x \<Longrightarrow> sort_slice f (xs @ [a]) = a # sort_slice f xs"
  unfolding sort_slice_def by (induction xs) auto

lemma add_listed:
  assumes ok: "rules_keyed st" and res: "resolveProjectIDLocked idOrPath st = Some pid"
  shows "rules_view j (snd (AddTargetBranchRule idOrPath name tb st)) =
    (if j = pid then (name, tb) # rules_view pid st else rules_view j st)"
proof -
  let ?n = "ms_nextTargetRuleID st"
  let ?m = "inner (ms_targetBranchRules st) pid"
  define r where "r = \<lparr>mtr_ID = target_rule_gid ?n, mtr_Name = name, mtr_TargetBranch = tb, mtr_Seq = ?n\<rparr>"
  have fresh: "go_get ?m (mtr_ID r) = None" using rule_gid_fresh [OF ok] by (simp add: r_def)
  have below: "- mtr_Seq r < - mtr_Seq x" if "x \<in> set (map snd ?m)" for x
    using rule_keyed(3) [OF ok, of x pid] that by (simp add: rule_list_def r_def)
  have "sort_slice (\<lambda>r. - mtr_Seq r) (map snd ?m @ [r]) = r # sort_slice (\<lambda>r. - mtr_Seq r) (map snd ?m)"
    by (intro sort_slice_newest ballI below)
  moreover have "ms_targetBranchRules (snd (AddTargetBranchRule idOrPath name tb st)) =
      put_inner pid (mtr_ID r) r (ms_targetBranchRules st)"
    by (simp add: AddTargetBranchRule_def res Let_def r_def)
  ultimately show ?thesis
    by (simp add: rules_view_def rule_list_def go_put_fresh [OF fresh]) (simp add: r_def)
qed

lemma resolve_destroy [simp]:
  "resolveProjectIDLocked x (snd (State_DestroyTargetBranchRule i st)) = resolveProjectIDLocked x st"
  by (simp add: State_DestroyTargetBranchRule_def split: option.splits prod.splits)

lemma resolve_add [simp]:
  "resolveProjectIDLocked x (snd (AddTargetBranchRule p name tb st)) = resolveProjectIDLocked x st"
  by (simp add: AddTargetBranchRule_def Let_def split: option.splits)

lemma governs_destroy: "governs project st \<Longrightarrow> governs project (snd (State_DestroyTargetBranchRule i st))"
  by (simp add: governs_def mock_ok_destroy_rule)

lemma governs_add: "governs project st \<Longrightarrow> governs project (snd (AddTargetBranchRule p name tb st))"
  by (simp add: governs_def mock_ok_add_rule)

lemma governs_rules: "governs project st \<Longrightarrow> rules_keyed st"
  by (simp add: governs_def mock_ok_def)

lemma destroy_rules_mock:
  assumes "governs project st" and "set rs \<subseteq> set (rule_list pid st)" and "distinct rs"
  shows "\<exists>st'. destroy_rules mock_target_branch_rules doomed (map decode_rule rs) st = (None, st') \<and> governs project st'
    \<and> rule_list pid st' = filter (\<lambda>r. \<not> (doomed (decode_rule r) \<and> r \<in> set rs)) (rule_list pid st)
    \<and> (\<forall>j. j \<noteq> pid \<longrightarrow> rule_list j st' = rule_list j st)"
  using assms
proof (induction rs arbitrary: st)
  case (Cons r rs)
  show ?case
  proof (cases "doomed (decode_rule r)")
    case True
    let ?st = "snd (State_DestroyTargetBranchRule (mtr_ID r) st)"
    have r: "r \<in> set (rule_list pid st)" and keyed: "rules_keyed st"
      using Cons.prems governs_rules by auto
    note l = destroy_listed [OF keyed r]
    have sub: "set rs \<subseteq> set (rule_list pid ?st)" using Cons.prems(2,3) l by auto
    obtain st' where st': "destroy_rules mock_target_branch_rules doomed (map decode_rule rs) ?st = (None, st')"
      "governs project st'" "rule_list pid st' = filter (\<lambda>r. \<not> (doomed (decode_rule r) \<and> r \<in> set rs)) (rule_list pid ?st)"
      "\<forall>j. j \<noteq> pid \<longrightarrow> rule_list j st' = rule_list j ?st"
      using Cons.IH [OF governs_destroy [OF Cons.prems(1)] sub] Cons.prems(3) by auto
    have "destroy_rules mock_target_branch_rules doomed (map decode_rule (r # rs)) st = (None, st')"
      using True st'(1) by (simp add: mock_target_branch_rules_def) (simp add: decode_rule_def)
    moreover have "rule_list pid st' = filter (\<lambda>x. \<not> (doomed (decode_rule x) \<and> x \<in> set (r # rs))) (rule_list pid st)"
      unfolding st'(3) l using True by (auto intro!: filter_cong)
    ultimately show ?thesis using st'(2,4) l by auto
  next
    case False
    obtain st' where st': "destroy_rules mock_target_branch_rules doomed (map decode_rule rs) st = (None, st')"
      "governs project st'" "rule_list pid st' = filter (\<lambda>r. \<not> (doomed (decode_rule r) \<and> r \<in> set rs)) (rule_list pid st)"
      "\<forall>j. j \<noteq> pid \<longrightarrow> rule_list j st' = rule_list j st"
      using Cons.IH [OF Cons.prems(1)] Cons.prems(2,3) by auto
    moreover have "filter (\<lambda>r. \<not> (doomed (decode_rule r) \<and> r \<in> set rs)) (rule_list pid st) =
        filter (\<lambda>x. \<not> (doomed (decode_rule x) \<and> x \<in> set (r # rs))) (rule_list pid st)"
      using False by (auto intro!: filter_cong)
    ultimately show ?thesis using False by auto
  qed
qed auto

lemma create_rules_mock:
  assumes "governs project st"
  shows "\<exists>st'. create_rules mock_target_branch_rules (p_ID project) rs st = (None, st') \<and> governs project st'
    \<and> rules_view (p_ID project) st' = rev (map (\<lambda>r. (tbr_Name r, tbr_TargetBranch r)) rs) @ rules_view (p_ID project) st
    \<and> (\<forall>j. j \<noteq> p_ID project \<longrightarrow> rules_view j st' = rules_view j st)"
  using assms
proof (induction rs arbitrary: st)
  case (Cons r rs)
  let ?add = "AddTargetBranchRule (formatProjectGID (p_ID project)) (tbr_Name r) (tbr_TargetBranch r)"
  have res: "resolveProjectIDLocked (formatProjectGID (p_ID project)) st = Some (p_ID project)"
    using Cons.prems by (simp add: formatProjectGID_def governs_def resolve_project_gid del: append.simps)
  note v = add_listed [OF governs_rules [OF Cons.prems] res]
  obtain st' where st': "create_rules mock_target_branch_rules (p_ID project) rs (snd (?add st)) = (None, st')"
    "governs project st'"
    "rules_view (p_ID project) st' = rev (map (\<lambda>r. (tbr_Name r, tbr_TargetBranch r)) rs) @ rules_view (p_ID project) (snd (?add st))"
    "\<forall>j. j \<noteq> p_ID project \<longrightarrow> rules_view j st' = rules_view j (snd (?add st))"
    using Cons.IH [OF governs_add [OF Cons.prems]] by blast
  have "fst (?add st) \<noteq> None" by (simp add: AddTargetBranchRule_def res Let_def)
  then have "create_rules mock_target_branch_rules (p_ID project) (r # rs) st = (None, st')"
    using st'(1) by (auto simp: mock_target_branch_rules_def split: prod.splits option.splits)
  then show ?case using st' v by auto
qed simp

text \<open>The reply of the mock server to the listing.\<close>

lemma mock_get_rules:
  "governs project st \<Longrightarrow> GetTargetBranchRules mock_target_branch_rules (p_PathWithNamespace project) st =
     (Inr (map decode_rule (rule_list (p_ID project) st)), st)"
  by (simp add: mock_target_branch_rules_def State_GetTargetBranchRules_def governs_def rule_list_def)

definition rules_named_once :: "gl_project \<Rightarrow> mock_state \<Rightarrow> bool" where
  "rules_named_once project st \<longleftrightarrow> distinct (map fst (rules_view (p_ID project) st))"

lemma rules_named_once_decode:
  "rules_named_once project st \<longleftrightarrow> distinct (map tr_Name (map decode_rule (rule_list (p_ID project) st)))"
  by (simp add: rules_named_once_def rules_view_def decode_rule_def o_def)

lemma parts_append [simp]:
  "managed_part dc (xs @ ys) = managed_part dc xs @ managed_part dc ys"
  "unmanaged_part dc (xs @ ys) = unmanaged_part dc xs @ unmanaged_part dc ys"
  by (simp_all add: managed_part_def unmanaged_part_def)

lemma view_filter: "map (\<lambda>r. (mtr_Name r, mtr_TargetBranch r)) (filter (\<lambda>r. \<not> is_managed dc (mtr_Name r)) rs) =
    unmanaged_part dc (map (\<lambda>r. (mtr_Name r, mtr_TargetBranch r)) rs)"
  by (simp add: unmanaged_part_def filter_map o_def)

text \<open>What an apply with changes does to the lists of the server.\<close>

lemma TargetBranchRules_Apply_mock:
  assumes gov: "governs project st" and pol: "target_rules_policy cfg = Some dc"
    and ch: "calculateDiffs (map decode_rule (rule_list (p_ID project) st)) dc = (ds, a)" "ds \<noteq> []"
  shows "\<exists>st'. TargetBranchRules_Apply (mock_client err) project cfg st =
      (ok_apply target_rules_name (project_resource project) a ds, st') \<and> governs project st'
    \<and> rules_view (p_ID project) st'
        = declared_rules dc @ (if prune_enabled dc then [] else unmanaged_part dc (rules_view (p_ID project) st))
    \<and> (\<forall>j. j \<noteq> p_ID project \<longrightarrow> rules_view j st' = rules_view j st)"
proof -
  let ?pid = "p_ID project"
  let ?doomed = "\<lambda>lr. is_managed dc (tr_Name lr) \<or> prune_enabled dc"
  obtain st2 where st2: "destroy_rules mock_target_branch_rules ?doomed (map decode_rule (rule_list ?pid st)) st = (None, st2)"
    "governs project st2"
    "rule_list ?pid st2 = filter (\<lambda>r. \<not> (?doomed (decode_rule r) \<and> r \<in> set (rule_list ?pid st))) (rule_list ?pid st)"
    "\<forall>j. j \<noteq> ?pid \<longrightarrow> rule_list j st2 = rule_list j st"
    using destroy_rules_mock [OF gov subset_refl distinct_rule_list [OF governs_rules [OF gov]]] by blast
  obtain st3 where st3: "create_rules mock_target_branch_rules ?pid (rev (tbs_Rules dc)) st2 = (None, st3)" "governs project st3"
    "rules_view ?pid st3 = rev (map (\<lambda>r. (tbr_Name r, tbr_TargetBranch r)) (rev (tbs_Rules dc))) @ rules_view ?pid st2"
    "\<forall>j. j \<noteq> ?pid \<longrightarrow> rules_view j st3 = rules_view j st2"
    using create_rules_mock [OF st2(2)] by blast
  have "rule_list ?pid st2 = filter (\<lambda>r. \<not> ?doomed (decode_rule r)) (rule_list ?pid st)"
    unfolding st2(3) by (rule filter_cong) auto
  then have "rules_view ?pid st2 = (if prune_enabled dc then [] else unmanaged_part dc (rules_view ?pid st))"
    by (simp add: rules_view_def view_filter decode_rule_def)
  then have "rules_view ?pid st3 = declared_rules dc @ (if prune_enabled dc then [] else unmanaged_part dc (rules_view ?pid st))"
    using st3(3) by (simp add: declared_rules_def rev_map)
  moreover have "TargetBranchRules_Apply (mock_client err) project cfg st =
      (ok_apply target_rules_name (project_resource project) a ds, st3)"
    using ch st2(1) st3(1) by (simp add: TargetBranchRules_Apply_def pol mock_get_rules [OF gov] Let_def)
  ultimately show ?thesis using st3 st2(4) by (auto simp: rules_view_def)
qed

lemma TargetBranchRules_Apply_mock_nil:
  assumes "governs project st" and "target_rules_policy cfg = Some dc"
    and "fst (calculateDiffs (map decode_rule (rule_list (p_ID project) st)) dc) = []"
  shows "TargetBranchRules_Apply (mock_client err) project cfg st = (noop_apply target_rules_name (project_resource project), st)"
  using assms by (cases "calculateDiffs (map decode_rule (rule_list (p_ID project) st)) dc")
    (simp add: TargetBranchRules_Apply_def mock_get_rules Let_def)

lemma parts_idem [simp]:
  "unmanaged_part dc (unmanaged_part dc x) = unmanaged_part dc x" "managed_part dc (unmanaged_part dc x) = []"
  "managed_part dc [] = []" "unmanaged_part dc [] = []"
  by (simp_all add: unmanaged_part_def managed_part_def)

text \<open>The reconciler keeps its contract where the policy and the project name no rule twice.\<close>

definition target_rules_inv :: "gl_project \<Rightarrow> policy_config option \<Rightarrow> mock_state \<Rightarrow> bool" where
  "target_rules_inv project cfg st \<longleftrightarrow> governs project st \<and> rules_named_once project st
     \<and> (\<forall>dc. target_rules_policy cfg = Some dc \<longrightarrow> distinct (map tbr_Name (tbs_Rules dc)))"

lemma settled_rules_iff:
  assumes "governs project st" and "target_rules_policy cfg = Some dc"
  shows "settled (TargetBranchRules_Plan (mock_client err) project cfg) st \<longleftrightarrow>
    fst (calculateDiffs (map decode_rule (rule_list (p_ID project) st)) dc) = []"
proof (cases "calculateDiffs (map decode_rule (rule_list (p_ID project) st)) dc")
  case (Pair ds a)
  then have "tracks (ds, a)" using tracks_calculateDiffs by metis
  with Pair assms show ?thesis by (simp add: settled_def TargetBranchRules_Plan_def mock_get_rules)
qed

lemma rules_plan_read_only:
  "governs project s \<Longrightarrow> snd (TargetBranchRules_Plan (mock_client err) project cfg s) = s"
  by (simp add: TargetBranchRules_Plan_def mock_get_rules split: option.splits prod.splits)

lemma distinct_declared:
  assumes "distinct (map tbr_Name (tbs_Rules dc))" and "distinct (map fst v)"
  shows "distinct (map fst (declared_rules dc @ (if prune_enabled dc then [] else unmanaged_part dc v)))"
proof -
  have "fst ` set (declared_rules dc) \<inter> fst ` set (unmanaged_part dc v) = {}"
    by (auto simp: declared_rules_def unmanaged_part_def is_managed_iff)
  moreover have "distinct (map fst (declared_rules dc))" using assms(1) by (simp add: declared_rules_def o_def)
  moreover have "distinct (map fst (unmanaged_part dc v))"
    using assms(2) unfolding unmanaged_part_def by (rule distinct_map_filter)
  ultimately show ?thesis by simp
qed

interpretation target_rules: reconciler "TargetBranchRules_Plan (mock_client err) project cfg"
  "TargetBranchRules_Apply (mock_client err) project cfg" "target_rules_inv project cfg"
proof
  fix s :: mock_state
  let ?plan = "TargetBranchRules_Plan (mock_client err) project cfg"
  let ?apply = "TargetBranchRules_Apply (mock_client err) project cfg"
  assume inv: "target_rules_inv project cfg s"
  then have gov: "governs project s" and once: "rules_named_once project s" by (simp_all add: target_rules_inv_def)
  show "snd (?plan s) = s" using gov by (rule rules_plan_read_only)
  have some: "target_rules_inv project cfg (snd (?apply s)) \<and> settled ?plan (snd (?apply s))"
    if pol: "target_rules_policy cfg = Some dc" for dc
  proof (cases "fst (calculateDiffs (map decode_rule (rule_list (p_ID project) s)) dc) = []")
    case True
    then show ?thesis using inv settled_rules_iff [OF gov pol] TargetBranchRules_Apply_mock_nil [OF gov pol True] by simp
  next
    case False
    then obtain ds a where ch: "calculateDiffs (map decode_rule (rule_list (p_ID project) s)) dc = (ds, a)" "ds \<noteq> []"
      by (metis prod.collapse)
    obtain s' where s': "snd (?apply s) = s'" "governs project s'"
      "rules_view (p_ID project) s' = declared_rules dc @ (if prune_enabled dc then [] else unmanaged_part dc (rules_view (p_ID project) s))"
      using TargetBranchRules_Apply_mock [OF gov pol ch, of err] by auto
    have dist: "distinct (map tbr_Name (tbs_Rules dc))" using inv pol by (simp add: target_rules_inv_def)
    have once': "rules_named_once project s'"
      using distinct_declared [OF dist] once unfolding rules_named_once_def s'(3) by blast
    have "fst (calculateDiffs (map decode_rule (rule_list (p_ID project) s')) dc) = []"
      using once' s'(3) by (subst calculateDiffs_nil_iff [OF _ dist]) (auto simp: rules_named_once_decode rules_view_def)
    then show ?thesis using inv s' once' settled_rules_iff [OF s'(2) pol] by (simp add: target_rules_inv_def)
  qed
  show "target_rules_inv project cfg (snd (?apply s))"
    using some inv by (cases "target_rules_policy cfg") (auto simp: TargetBranchRules_Apply_def Let_def)
  show "settled ?plan (snd (?apply s))" if "snd (fst (?apply s)) = None"
    using some by (cases "target_rules_policy cfg")
      (auto simp: TargetBranchRules_Apply_def TargetBranchRules_Plan_def settled_def Let_def)
  show "snd (?apply s) = s \<and> snd (fst (?apply s)) = None \<and> ar_Status (fst (fst (?apply s))) = StatusNoop"
    if set: "settled ?plan s"
  proof (cases "target_rules_policy cfg")
    case (Some dc)
    then show ?thesis
      using set settled_rules_iff [OF gov Some] TargetBranchRules_Apply_mock_nil [OF gov Some] by simp
  qed (simp add: TargetBranchRules_Apply_def Let_def)
qed

text \<open>
  Property C8. Refinement of the list of rules in evaluation order, on the mock server: applying the policy
  always succeeds and ends with the declared rules, in the declared order, as the managed part of the
  list; the rules of other names keep their order, or are all gone when pruning is on; and no other
  project's rules change. The policy and the project name no rule twice.
\<close>

theorem TargetBranchRules_Apply_refines:
  assumes "governs project st" and "target_rules_policy cfg = Some dc"
    and "distinct (map tbr_Name (tbs_Rules dc))" and "rules_named_once project st"
  shows "\<exists>res st'. TargetBranchRules_Apply (mock_client err) project cfg st = ((res, None), st')
    \<and> managed_part dc (rules_view (p_ID project) st') = declared_rules dc
    \<and> unmanaged_part dc (rules_view (p_ID project) st')
        = (if prune_enabled dc then [] else unmanaged_part dc (rules_view (p_ID project) st))
    \<and> (\<forall>j. j \<noteq> p_ID project \<longrightarrow> rules_view j st' = rules_view j st)"
proof (cases "fst (calculateDiffs (map decode_rule (rule_list (p_ID project) st)) dc) = []")
  case True
  then have "managed_part dc (rules_view (p_ID project) st) = declared_rules dc
      \<and> (prune_enabled dc \<longrightarrow> unmanaged_part dc (rules_view (p_ID project) st) = [])"
    using calculateDiffs_nil_iff [OF _ assms(3)] assms(4) by (simp add: rules_named_once_decode rules_view_def)
  then show ?thesis
    using TargetBranchRules_Apply_mock_nil [OF assms(1,2) True, of err]
    by (intro exI [of _ st] exI [of _ "fst (noop_apply target_rules_name (project_resource project))"])
      (simp add: prod_eq_iff)
next
  case False
  obtain ds a where ch: "calculateDiffs (map decode_rule (rule_list (p_ID project) st)) dc = (ds, a)" "ds \<noteq> []"
    using False by (metis prod.collapse)
  show ?thesis
    using TargetBranchRules_Apply_mock [OF assms(1,2) ch, of err]
    by (elim exE conjE, intro exI [of _ "fst (ok_apply target_rules_name (project_resource project) a ds)"])
      (auto simp: prod_eq_iff)
qed

definition example_rules :: target_branch_rules_config where
  "example_rules = \<lparr>tbs_Prune = None,
     tbs_Rules = [\<lparr>tbr_Name = ''release/*'', tbr_TargetBranch = ''stable''\<rparr>, \<lparr>tbr_Name = ''hotfix/*'', tbr_TargetBranch = ''stable''\<rparr>]\<rparr>"

lemma TargetBranchRules_Apply_refines_witness:
  "\<exists>res st'. TargetBranchRules_Apply (mock_client (\<lambda>_ m. Err m)) example_project
      (Some (zero_policy_config\<lparr>cfg_Policies := zero_policies\<lparr>pol_TargetBranchRules := Some example_rules\<rparr>\<rparr>)) example_state
        = ((res, None), st')
    \<and> managed_part example_rules (rules_view (p_ID example_project) st') = declared_rules example_rules
    \<and> unmanaged_part example_rules (rules_view (p_ID example_project) st')
        = (if prune_enabled example_rules then [] else unmanaged_part example_rules (rules_view (p_ID example_project) example_state))
    \<and> (\<forall>j. j \<noteq> p_ID example_project \<longrightarrow> rules_view j st' = rules_view j example_state)"
proof (rule TargetBranchRules_Apply_refines [OF governs_example])
  show "target_rules_policy (Some (zero_policy_config\<lparr>cfg_Policies := zero_policies\<lparr>pol_TargetBranchRules := Some example_rules\<rparr>\<rparr>))
      = Some example_rules" by (simp add: target_rules_policy_def)
  show "distinct (map tbr_Name (tbs_Rules example_rules))" by (simp add: example_rules_def)
  show "rules_named_once example_project example_state" unfolding rules_named_once_def by code_simp
qed

end
