(* ===== verification/Protected_Branches.thy ===== *)
theory Protected_Branches
  imports Reconciler Mock_Server
begin

section \<open>Protected branches\<close>

text \<open>
  \<^verbatim>\<open>internal/governance/protectedbranches.go\<close> (order 20): compare the protection of every branch the
  policy names with the live one, protect what is unprotected, patch the code owner flag where
  nothing else differs, and otherwise unprotect and protect again. The abstract specification is
  \<open>branch_conforms\<close>. The listing follows the pages of the remote instance, so planning and applying
  are \<open>None\<close> where that loop does not return.
\<close>

definition branches_name :: string where
  "branches_name = ''protected_branches''"

definition branches_policy :: "policy_config option \<Rightarrow> protected_branch_rule_config list" where
  "branches_policy cfg = (case cfg of None \<Rightarrow> [] | Some c \<Rightarrow> pol_ProtectedBranches (cfg_Policies c))"

definition fetchAllLiveProtectedBranches ::
  "'s gitlab_client \<Rightarrow> int \<Rightarrow> 's \<Rightarrow> (gl_protected_branch list go_result \<times> 's) option" where
  "fetchAllLiveProtectedBranches client pid s =
     list_all_pages (\<lambda>page. ListProtectedBranches (cl_ProtectedBranches client) pid page 100) 1 [] s"

subsection \<open>Access descriptions\<close>

definition format_access :: "branch_access_description \<Rightarrow> string" where
  "format_access d =
     (if bad_UserID d > 0 then ''user_id:'' @ fmt_d (bad_UserID d)
      else if bad_GroupID d > 0 then ''group_id:'' @ fmt_d (bad_GroupID d)
      else if bad_DeployKeyID d > 0 then ''deploy_key_id:'' @ fmt_d (bad_DeployKeyID d)
      else ''level:'' @ fmt_d (bad_AccessLevel d))"

definition formatAccessDescriptions :: "branch_access_description list \<Rightarrow> string" where
  "formatAccessDescriptions ds = Join (map format_access ds) '', ''"

definition liveAccessToDescriptions :: "gl_branch_access list \<Rightarrow> branch_access_description list" where
  "liveAccessToDescriptions levels =
     map (\<lambda>l. \<lparr>bad_AccessLevel = gba_AccessLevel l, bad_UserID = gba_UserID l, bad_GroupID = gba_GroupID l,
               bad_Username = [], bad_GroupPath = [], bad_DeployKeyID = 0\<rparr>) levels"

definition access_triple :: "branch_access_description \<Rightarrow> int \<times> int \<times> int" where
  "access_triple d = (bad_AccessLevel d, bad_UserID d, bad_GroupID d)"

definition triple_key :: "int \<times> int \<times> int \<Rightarrow> string" where
  "triple_key t = (case t of (l, u, g) \<Rightarrow> fmt_d l @ '':'' @ fmt_d u @ '':'' @ fmt_d g)"

definition equalAccessDescriptions :: "branch_access_description list \<Rightarrow> branch_access_description list \<Rightarrow> bool" where
  "equalAccessDescriptions a b =
     (if length a \<noteq> length b then False
      else let sa = sort_slice (\<lambda>d. triple_key (access_triple d)) a; sb = sort_slice (\<lambda>d. triple_key (access_triple d)) b
           in list_all2 (\<lambda>x y. access_triple x = access_triple y) sa sb)"

subsection \<open>Diffs\<close>

definition add_created :: "string \<Rightarrow> branch_access_description list \<Rightarrow> diff_builder \<Rightarrow> diff_builder" where
  "add_created field descs b =
     (if descs \<noteq> [] then AddField field VNil (VStr (formatAccessDescriptions descs)) ActionCreate b else b)"

definition add_flag :: "string \<Rightarrow> bool option \<Rightarrow> diff_builder \<Rightarrow> diff_builder" where
  "add_flag field v b = (case v of None \<Rightarrow> b | Some x \<Rightarrow> AddField field VNil (VBool x) ActionCreate b)"

definition buildCreateDiff :: "protected_branch_rule_config \<Rightarrow> diff" where
  "buildCreateDiff rule =
     Build (''protected_branch:'' @ pb_Name rule) ActionCreate
       (add_flag ''code_owner_approval_required'' (pb_CodeOwnerApprovalRequired rule)
       (add_flag ''allow_force_push'' (pb_AllowForcePush rule)
       (add_created ''allowed_to_unprotect'' (pb_AllowedToUnprotect rule)
       (add_created ''allowed_to_merge'' (pb_AllowedToMerge rule)
       (add_created ''allowed_to_push'' (pb_AllowedToPush rule)
       (AddField ''name'' VNil (VStr (pb_Name rule)) ActionCreate NewDiffBuilder))))))"

definition compare_access ::
  "string \<Rightarrow> gl_branch_access list \<Rightarrow> branch_access_description list \<Rightarrow> diff_builder \<Rightarrow> diff_builder" where
  "compare_access field levels desired b =
     (if desired \<noteq> [] then
        (let live = liveAccessToDescriptions levels in
         if \<not> equalAccessDescriptions live desired
         then AddField field (VStr (formatAccessDescriptions live)) (VStr (formatAccessDescriptions desired)) ActionUpdate b
         else b)
      else b)"

definition buildUpdateDiff :: "gl_protected_branch \<Rightarrow> protected_branch_rule_config \<Rightarrow> diff" where
  "buildUpdateDiff live rule =
     Build (''protected_branch:'' @ pb_Name rule) ActionUpdate
       (Add (CompareBoolPtr ''code_owner_approval_required'' (glb_CodeOwnerApprovalRequired live) (pb_CodeOwnerApprovalRequired rule))
       (Add (CompareBoolPtr ''allow_force_push'' (glb_AllowForcePush live) (pb_AllowForcePush rule))
       (compare_access ''allowed_to_unprotect'' (glb_UnprotectAccessLevels live) (pb_AllowedToUnprotect rule)
       (compare_access ''allowed_to_merge'' (glb_MergeAccessLevels live) (pb_AllowedToMerge rule)
       (compare_access ''allowed_to_push'' (glb_PushAccessLevels live) (pb_AllowedToPush rule) NewDiffBuilder)))))"

definition isOnlyCodeOwnerApprovalChanged :: "diff \<Rightarrow> bool" where
  "isOnlyCodeOwnerApprovalChanged d \<longleftrightarrow>
     length (d_Fields d) = 1 \<and> fd_Field (hd (d_Fields d)) = ''code_owner_approval_required''"

subsection \<open>Options of the calls\<close>

definition positive :: "int \<Rightarrow> int option" where
  "positive n = (if n > 0 then Some n else None)"

definition toBranchPermissionOptions :: "branch_access_description list \<Rightarrow> branch_permission_options list" where
  "toBranchPermissionOptions descs =
     map (\<lambda>d. \<lparr>bpo_AccessLevel = positive (bad_AccessLevel d), bpo_UserID = positive (bad_UserID d),
               bpo_GroupID = positive (bad_GroupID d), bpo_DeployKeyID = positive (bad_DeployKeyID d)\<rparr>) descs"

text \<open>
  A single entry without user and group also sets the plain level; only the push list looks at the
  deploy key as well.
\<close>

definition plain_level :: "(branch_access_description \<Rightarrow> bool) \<Rightarrow> branch_access_description list \<Rightarrow> int option" where
  "plain_level ok descs = (case descs of [d] \<Rightarrow> if ok d then Some (bad_AccessLevel d) else None | _ \<Rightarrow> None)"

definition permission_ptr :: "branch_access_description list \<Rightarrow> branch_permission_options list option" where
  "permission_ptr descs = (if descs \<noteq> [] then Some (toBranchPermissionOptions descs) else None)"

definition toProtectOptions :: "protected_branch_rule_config \<Rightarrow> protect_branches_options" where
  "toProtectOptions rule =
     (let no_id = (\<lambda>d. bad_UserID d = 0 \<and> bad_GroupID d = 0) in
      \<lparr>pbo_Name = pb_Name rule,
       pbo_PushAccessLevel = plain_level (\<lambda>d. no_id d \<and> bad_DeployKeyID d = 0) (pb_AllowedToPush rule),
       pbo_MergeAccessLevel = plain_level no_id (pb_AllowedToMerge rule),
       pbo_UnprotectAccessLevel = plain_level no_id (pb_AllowedToUnprotect rule),
       pbo_AllowedToPush = permission_ptr (pb_AllowedToPush rule),
       pbo_AllowedToMerge = permission_ptr (pb_AllowedToMerge rule),
       pbo_AllowedToUnprotect = permission_ptr (pb_AllowedToUnprotect rule),
       pbo_AllowForcePush = pb_AllowForcePush rule,
       pbo_CodeOwnerApprovalRequired = pb_CodeOwnerApprovalRequired rule\<rparr>)"

subsection \<open>Planning\<close>

definition plan_branch_rule ::
  "(string, gl_protected_branch) go_map \<Rightarrow> diff list \<times> action_type \<Rightarrow> protected_branch_rule_config \<Rightarrow> diff list \<times> action_type" where
  "plan_branch_rule liveMap acc rule =
     (case acc of (ds, a) \<Rightarrow>
        (case go_get liveMap (pb_Name rule) of
           None \<Rightarrow> (ds @ [buildCreateDiff rule], note_action ActionCreate a)
         | Some live \<Rightarrow>
             (let d = buildUpdateDiff live rule in
              if Diff_HasChanges d then (ds @ [d], note_action ActionUpdate a) else (ds, a))))"

definition ProtectedBranches_Plan ::
  "'s gitlab_client \<Rightarrow> gl_project \<Rightarrow> policy_config option \<Rightarrow> 's \<Rightarrow> (plan_result go_result \<times> 's) option" where
  "ProtectedBranches_Plan client project cfg s =
     (let name = branches_name; r = project_resource project; rules = branches_policy cfg in
      if rules = [] then Some (Inr (noop_plan name r), s)
      else
        map_option
          (\<lambda>reply. case reply of
             (Inl err, s') \<Rightarrow> (Inl (Wrapf (''failed to list protected branches for project '' @ fmt_d (p_ID project)) err), s')
           | (Inr branches, s') \<Rightarrow>
               (case foldl (plan_branch_rule (go_map_of_list glb_Name id branches)) ([], ActionNoop) rules of
                  (ds, a) \<Rightarrow> (Inr (plan_of_diffs name r a ds), s')))
          (fetchAllLiveProtectedBranches client (p_ID project) s))"

subsection \<open>Applying\<close>

text \<open>One rule: the action and diff it reports (nothing when it conforms) with the error of a failed call.\<close>

definition apply_branch_rule ::
  "'s protected_branches_service \<Rightarrow> int \<Rightarrow> (string, gl_protected_branch) go_map \<Rightarrow> protected_branch_rule_config \<Rightarrow> 's
   \<Rightarrow> (action_type \<times> diff \<times> go_error option) option \<times> 's" where
  "apply_branch_rule svc pid liveMap rule s =
     (case go_get liveMap (pb_Name rule) of
        None \<Rightarrow>
          (case ProtectRepositoryBranches svc pid (toProtectOptions rule) s of
             (Inl e, s') \<Rightarrow> (Some (ActionCreate, buildCreateDiff rule, Some e), s')
           | (Inr _, s') \<Rightarrow> (Some (ActionCreate, buildCreateDiff rule, None), s'))
      | Some live \<Rightarrow>
          (let d = buildUpdateDiff live rule in
           if \<not> Diff_HasChanges d then (None, s)
           else if isOnlyCodeOwnerApprovalChanged d \<and> pb_CodeOwnerApprovalRequired rule \<noteq> None then
             (case UpdateProtectedBranch svc pid (pb_Name rule) (pb_CodeOwnerApprovalRequired rule) s of
                (Inl e, s') \<Rightarrow> (Some (ActionUpdate, d, Some e), s')
              | (Inr _, s') \<Rightarrow> (Some (ActionUpdate, d, None), s'))
           else
             (case UnprotectRepositoryBranches svc pid (pb_Name rule) s of
                (Some e, s1) \<Rightarrow> (Some (ActionUpdate, d, Some e), s1)
              | (None, s1) \<Rightarrow>
                  (case ProtectRepositoryBranches svc pid (toProtectOptions rule) s1 of
                     (Inl e, s2) \<Rightarrow> (Some (ActionUpdate, d, Some e), s2)
                   | (Inr _, s2) \<Rightarrow> (Some (ActionUpdate, d, None), s2)))))"

fun apply_branch_rules ::
  "'s protected_branches_service \<Rightarrow> resource \<Rightarrow> int \<Rightarrow> (string, gl_protected_branch) go_map
   \<Rightarrow> protected_branch_rule_config list \<Rightarrow> diff list \<Rightarrow> action_type \<Rightarrow> 's apply_fun" where
  "apply_branch_rules svc r pid liveMap [] ds a s =
     (if ds = [] then noop_apply branches_name r else ok_apply branches_name r a ds, s)"
| "apply_branch_rules svc r pid liveMap (rule # rules) ds a s =
     (case apply_branch_rule svc pid liveMap rule s of
        (None, s') \<Rightarrow> apply_branch_rules svc r pid liveMap rules ds a s'
      | (Some (act, d, Some e), s') \<Rightarrow> (failed_apply branches_name r act (ds @ [d]) e e, s')
      | (Some (act, d, None), s') \<Rightarrow> apply_branch_rules svc r pid liveMap rules (ds @ [d]) (note_action act a) s')"

definition ProtectedBranches_Apply ::
  "'s gitlab_client \<Rightarrow> gl_project \<Rightarrow> policy_config option \<Rightarrow> 's \<Rightarrow> ((apply_result \<times> go_error option) \<times> 's) option" where
  "ProtectedBranches_Apply client project cfg s =
     (let name = branches_name; r = project_resource project; rules = branches_policy cfg in
      if rules = [] then Some (noop_apply name r, s)
      else
        map_option
          (\<lambda>reply. case reply of
             (Inl err, s') \<Rightarrow> (failed_apply name r ActionNoop [] err err, s')
           | (Inr branches, s') \<Rightarrow>
               apply_branch_rules (cl_ProtectedBranches client) r (p_ID project) (go_map_of_list glb_Name id branches)
                 rules [] ActionNoop s')
          (fetchAllLiveProtectedBranches client (p_ID project) s))"

definition ProtectedBranches_PlanGroup :: "gl_group \<Rightarrow> 's plan_fun" where
  "ProtectedBranches_PlanGroup g s =
     (Inr (skipped_plan branches_name (group_resource g) ''Protected branches are not applicable to groups''), s)"

definition ProtectedBranches_ApplyGroup :: "gl_group \<Rightarrow> 's apply_fun" where
  "ProtectedBranches_ApplyGroup g s =
     (skipped_apply branches_name (group_resource g) ''Protected branches are not applicable to groups'', s)"

subsection \<open>The specification: conforming branches\<close>

lemma map_sort_key: "map f (sort_key (\<lambda>x. k (f x)) xs) = sort_key k (map f xs)"
proof (induction xs)
  case (Cons x xs)
  have "map f (insort_key (\<lambda>x. k (f x)) x ys) = insort_key k (f x) (map f ys)" for ys
    by (induction ys) auto
  then show ?case using Cons by simp
qed simp

lemma triple_key_inject: "triple_key t = triple_key u \<longleftrightarrow> t = u"
proof
  obtain a b c where t: "t = (a, b, c)" by (cases t)
  obtain a' b' c' where u: "u = (a', b', c')" by (cases u)
  assume "triple_key t = triple_key u"
  then have eq: "fmt_d a @ CHR '':'' # (fmt_d b @ CHR '':'' # fmt_d c) = fmt_d a' @ CHR '':'' # (fmt_d b' @ CHR '':'' # fmt_d c')"
    by (simp add: triple_key_def t u)
  have "fmt_d a = fmt_d a'" and "fmt_d b @ CHR '':'' # fmt_d c = fmt_d b' @ CHR '':'' # fmt_d c'"
    using append_sep_inject [of "CHR '':''" "fmt_d a" "fmt_d a'"] eq by auto
  moreover from this have "fmt_d b = fmt_d b' \<and> fmt_d c = fmt_d c'"
    using append_sep_inject [of "CHR '':''" "fmt_d b" "fmt_d b'"] by auto
  ultimately show "t = u" by (simp add: t u)
qed simp

text \<open>The comparison is equality as multisets of (level, user, group).\<close>

lemma equalAccessDescriptions_iff:
  "equalAccessDescriptions a b \<longleftrightarrow> mset (map access_triple a) = mset (map access_triple b)"
proof -
  have ms: "map access_triple (sort_slice (\<lambda>d. triple_key (access_triple d)) xs) = sort_slice triple_key (map access_triple xs)" for xs
    by (simp add: sort_slice_def map_sort_key)
  have "sort_slice triple_key xs = sort_slice triple_key ys \<longleftrightarrow> mset xs = mset ys" for xs ys
    using sort_slice_cong_mset [of xs ys triple_key] mset_sort_slice by (metis inj_onI triple_key_inject)
  moreover have "mset (map access_triple a) = mset (map access_triple b) \<Longrightarrow> length a = length b"
    by (metis length_map mset_eq_length)
  moreover have "list_all2 (\<lambda>x y. access_triple x = access_triple y) xs ys \<longleftrightarrow> map access_triple xs = map access_triple ys" for xs ys
    by (auto simp: list_all2_conv_all_nth list_eq_iff_nth_eq)
  ultimately show ?thesis
    unfolding equalAccessDescriptions_def Let_def by (auto simp: ms simp del: mset_map)
qed

definition access_conforms :: "gl_branch_access list \<Rightarrow> branch_access_description list \<Rightarrow> bool" where
  "access_conforms levels desired \<longleftrightarrow>
     desired = [] \<or> mset (map (\<lambda>l. (gba_AccessLevel l, gba_UserID l, gba_GroupID l)) levels) = mset (map access_triple desired)"

definition branch_conforms :: "gl_protected_branch \<Rightarrow> protected_branch_rule_config \<Rightarrow> bool" where
  "branch_conforms b rule \<longleftrightarrow>
     access_conforms (glb_PushAccessLevels b) (pb_AllowedToPush rule)
   \<and> access_conforms (glb_MergeAccessLevels b) (pb_AllowedToMerge rule)
   \<and> access_conforms (glb_UnprotectAccessLevels b) (pb_AllowedToUnprotect rule)
   \<and> pb_AllowForcePush rule \<in> {None, Some (glb_AllowForcePush b)}
   \<and> pb_CodeOwnerApprovalRequired rule \<in> {None, Some (glb_CodeOwnerApprovalRequired b)}"

lemma compare_access_conforms:
  "b_fields (compare_access f levels desired b) =
     b_fields b @ (if access_conforms levels desired then []
       else [\<lparr>fd_Field = f, fd_OldValue = VStr (formatAccessDescriptions (liveAccessToDescriptions levels)),
              fd_NewValue = VStr (formatAccessDescriptions desired), fd_Action = ActionUpdate\<rparr>])"
  "b_details (compare_access f levels desired b) = b_details b"
proof -
  have "map access_triple (liveAccessToDescriptions levels) = map (\<lambda>l. (gba_AccessLevel l, gba_UserID l, gba_GroupID l)) levels"
    by (simp add: liveAccessToDescriptions_def access_triple_def)
  then show "b_fields (compare_access f levels desired b) =
     b_fields b @ (if access_conforms levels desired then []
       else [\<lparr>fd_Field = f, fd_OldValue = VStr (formatAccessDescriptions (liveAccessToDescriptions levels)),
              fd_NewValue = VStr (formatAccessDescriptions desired), fd_Action = ActionUpdate\<rparr>])"
    by (simp add: compare_access_def Let_def equalAccessDescriptions_iff access_conforms_def del: mset_map)
qed (simp add: compare_access_def Let_def)

lemma buildUpdateDiff_iff: "Diff_HasChanges (buildUpdateDiff b rule) \<longleftrightarrow> \<not> branch_conforms b rule"
proof -
  have "(case CompareBoolPtr f l d of None \<Rightarrow> [] | Some x \<Rightarrow> [x]) = [] \<longleftrightarrow> d \<in> {None, Some l}" for f l d
    by (auto simp: CompareBoolPtr_def split: option.splits)
  then show ?thesis
    by (simp add: buildUpdateDiff_def Build_HasChanges Builder_HasChanges_def compare_access_conforms branch_conforms_def)
qed

lemma buildCreateDiff_changes [simp]: "Diff_HasChanges (buildCreateDiff rule)"
  by (simp add: buildCreateDiff_def Build_HasChanges Builder_HasChanges_def add_flag_def add_created_def split: option.splits)

text \<open>A rule whose identifiers and levels are not negative, as the validator demands.\<close>

definition access_ok :: "branch_access_description \<Rightarrow> bool" where
  "access_ok d \<longleftrightarrow> bad_AccessLevel d \<ge> 0 \<and> bad_UserID d \<ge> 0 \<and> bad_GroupID d \<ge> 0"

definition branch_rule_ok :: "protected_branch_rule_config \<Rightarrow> bool" where
  "branch_rule_ok rule \<longleftrightarrow>
     list_all access_ok (pb_AllowedToPush rule) \<and> list_all access_ok (pb_AllowedToMerge rule)
   \<and> list_all access_ok (pb_AllowedToUnprotect rule)"

text \<open>What the options of a rule ask for is a branch that conforms to the rule.\<close>

lemma decode_access_conforms:
  assumes "list_all access_ok descs"
  shows "access_conforms (decode_access (permission_ptr descs) level) descs"
proof (cases descs)
  case (Cons d ds)
  have "set_when (positive n) 0 = n" if "n \<ge> 0" for n using that by (simp add: positive_def set_when_def)
  then have "map (\<lambda>l. (gba_AccessLevel l, gba_UserID l, gba_GroupID l)) (map decode_permission (toBranchPermissionOptions descs))
      = map access_triple descs"
    using assms by (auto simp: toBranchPermissionOptions_def decode_permission_def access_triple_def access_ok_def list_all_iff)
  moreover have "decode_access (permission_ptr descs) level = map decode_permission (toBranchPermissionOptions descs)"
    by (simp add: Cons permission_ptr_def decode_access_def toBranchPermissionOptions_def)
  ultimately show ?thesis by (simp add: access_conforms_def del: map_map mset_map)
qed (simp add: access_conforms_def)

lemma protect_conforms: "branch_rule_ok rule \<Longrightarrow> branch_conforms (branch_of_options (toProtectOptions rule)) rule"
  by (auto simp: branch_conforms_def branch_of_options_def toProtectOptions_def Let_def branch_rule_ok_def set_when_def
      intro: decode_access_conforms split: option.splits)

text \<open>The patch of the code owner flag suffices where only that flag differs.\<close>

lemma patch_conforms:
  assumes "isOnlyCodeOwnerApprovalChanged (buildUpdateDiff b rule)"
    and "pb_CodeOwnerApprovalRequired rule \<noteq> None"
  shows "branch_conforms (patch_branch n (pb_CodeOwnerApprovalRequired rule) (Some b)) rule"
proof -
  obtain v where v: "pb_CodeOwnerApprovalRequired rule = Some v" using assms(2) by blast
  have "access_conforms (glb_PushAccessLevels b) (pb_AllowedToPush rule)
      \<and> access_conforms (glb_MergeAccessLevels b) (pb_AllowedToMerge rule)
      \<and> access_conforms (glb_UnprotectAccessLevels b) (pb_AllowedToUnprotect rule)
      \<and> CompareBoolPtr ''allow_force_push'' (glb_AllowForcePush b) (pb_AllowForcePush rule) = None"
    using assms(1) by (auto simp: isOnlyCodeOwnerApprovalChanged_def buildUpdateDiff_def compare_access_conforms
        CompareBoolPtr_def update_diff_def split: if_splits option.splits)
  then show ?thesis
    by (auto simp: branch_conforms_def patch_branch_def set_when_def v CompareBoolPtr_None)
qed

subsection \<open>On the mock server\<close>

definition branches_of :: "int \<Rightarrow> mock_state \<Rightarrow> (string, gl_protected_branch) go_map" where
  "branches_of pid st = inner (ms_protectedBranches st) pid"

lemma mock_fetch_branches:
  assumes "governs project st"
  shows "fetchAllLiveProtectedBranches (mock_client err) (p_ID project) st =
    Some (Inr (map snd (branches_of (p_ID project) st)), st)"
  unfolding fetchAllLiveProtectedBranches_def
proof (rule list_all_pages_read_only [OF _ mock.fetch_all])
  fix p show "ListProtectedBranches (cl_ProtectedBranches (mock_client err)) (p_ID project) p 100 st =
      (mock_list 100 (map snd (branches_of (p_ID project) st)) p, st)"
    using assms by (simp add: mock_branches_def State_ListProtectedBranches_def resolve_project_number governs_def branches_of_def)
qed

lemma live_map_lookup:
  assumes "branches_keyed st"
  shows "go_get (go_map_of_list glb_Name id (map snd (branches_of pid st))) n = go_get (branches_of pid st) n"
proof -
  let ?m = "branches_of pid st"
  have ok: "go_map_ok ?m" and key: "\<And>k b. go_get ?m k = Some b \<Longrightarrow> glb_Name b = k"
    using assms by (simp_all add: branches_keyed_def branches_of_def)
  have k: "go_get ?m (fst kv) = Some (snd kv) \<and> glb_Name (snd kv) = fst kv" if "kv \<in> set ?m" for kv
    using ok key [of "fst kv" "snd kv"] that unfolding go_map_ok_def by (metis map_of_is_SomeI prod.collapse)
  have mem: "b \<in> set (map snd ?m) \<longleftrightarrow> go_get ?m (glb_Name b) = Some b" for b
  proof
    show "go_get ?m (glb_Name b) = Some b" if "b \<in> set (map snd ?m)" using that k by auto
    show "b \<in> set (map snd ?m)" if "go_get ?m (glb_Name b) = Some b"
      using map_of_SomeD [OF that] by (auto intro: rev_image_eqI)
  qed
  have "map glb_Name (map snd ?m) = map fst ?m" unfolding map_map by (rule map_cong) (simp_all add: k)
  then have dist: "distinct (map glb_Name (map snd ?m))" using ok unfolding go_map_ok_def by (simp only:)
  show ?thesis
  proof (cases "go_get ?m n")
    case None
    then have "glb_Name b \<noteq> n" if "b \<in> set (map snd ?m)" for b using that unfolding mem by auto
    then have "n \<notin> glb_Name ` set (map snd ?m)" by blast
    then show ?thesis using None by (simp add: go_get_map_of_list_None)
  next
    case (Some b)
    then have "b \<in> set (map snd ?m)" and "glb_Name b = n" using mem key by auto
    then show ?thesis using go_get_map_of_list_distinct [OF dist, of b id] Some by simp
  qed
qed

text \<open>
  What applying does to the server: only the protections change, and only those of the project. A rule
  that does not conform reports a diff, one that conforms leaves the state as it is.
\<close>

definition branches_step :: "gl_project \<Rightarrow> string set \<Rightarrow> mock_state \<Rightarrow> mock_state \<Rightarrow> bool" where
  "branches_step project names st st' \<longleftrightarrow>
     (\<exists>m. st' = st\<lparr>ms_protectedBranches := m\<rparr>) \<and> governs project st'
   \<and> (\<forall>n. n \<notin> names \<longrightarrow> go_get (branches_of (p_ID project) st') n = go_get (branches_of (p_ID project) st) n)
   \<and> (\<forall>j. j \<noteq> p_ID project \<longrightarrow> branches_of j st' = branches_of j st)"

lemma branches_step_refl: "governs project st \<Longrightarrow> branches_step project names st st"
  by (auto simp: branches_step_def intro: exI [of _ "ms_protectedBranches st"])

lemma branches_step_trans:
  "branches_step project A st st' \<Longrightarrow> branches_step project B st' st'' \<Longrightarrow> branches_step project (A \<union> B) st st''"
  by (auto simp: branches_step_def)

lemma protect_step:
  assumes "governs project st"
  shows "snd (ProtectBranch (fmt_d (p_ID project)) b st) =
      st\<lparr>ms_protectedBranches := put_inner (p_ID project) (glb_Name b) b (ms_protectedBranches st)\<rparr>"
    and "fst (ProtectBranch (fmt_d (p_ID project)) b st) = Some b"
    and "branches_step project {glb_Name b} st (snd (ProtectBranch (fmt_d (p_ID project)) b st))"
    and "go_get (branches_of (p_ID project) (snd (ProtectBranch (fmt_d (p_ID project)) b st))) (glb_Name b) = Some b"
  using assms mock_ok_protect [of st "fmt_d (p_ID project)" b]
  by (auto simp: ProtectBranch_def governs_def resolve_project_number branches_step_def branches_of_def)

lemma governs_protect: "governs project st \<Longrightarrow> governs project (snd (ProtectBranch idOrPath b st))"
  using mock_ok_protect [of st idOrPath b] by (auto simp: governs_def ProtectBranch_def split: option.splits)

lemma unprotect_step:
  assumes "governs project st" and "go_get (branches_of (p_ID project) st) n \<noteq> None"
  shows "fst (UnprotectBranch (fmt_d (p_ID project)) n st)"
    and "branches_step project {n} st (snd (UnprotectBranch (fmt_d (p_ID project)) n st))"
    and "go_get (branches_of (p_ID project) (snd (UnprotectBranch (fmt_d (p_ID project)) n st))) n = None"
  using assms mock_ok_unprotect [of st "fmt_d (p_ID project)" n]
  by (auto simp: UnprotectBranch_def governs_def resolve_project_number branches_step_def branches_of_def)

definition branch_settled :: "(string, gl_protected_branch) go_map \<Rightarrow> protected_branch_rule_config \<Rightarrow> bool" where
  "branch_settled m rule \<longleftrightarrow> (case go_get m (pb_Name rule) of None \<Rightarrow> False | Some b \<Rightarrow> branch_conforms b rule)"

lemma pbo_Name_toProtectOptions [simp]: "glb_Name (branch_of_options (toProtectOptions rule)) = pb_Name rule"
  by (simp add: branch_of_options_def toProtectOptions_def Let_def)

text \<open>One rule on the server: no call fails, and the branch conforms afterwards.\<close>

lemma apply_rule_mock:
  assumes gov: "governs project st" and ok: "branch_rule_ok rule"
    and live: "go_get liveMap (pb_Name rule) = go_get (branches_of (p_ID project) st) (pb_Name rule)"
  shows "\<exists>out st'. apply_branch_rule (mock_branches err) (p_ID project) liveMap rule st = (out, st')
    \<and> branches_step project {pb_Name rule} st st' \<and> branch_settled (branches_of (p_ID project) st') rule
    \<and> (case out of None \<Rightarrow> branch_settled (branches_of (p_ID project) st) rule \<and> st' = st
       | Some (a, d, e) \<Rightarrow> \<not> branch_settled (branches_of (p_ID project) st) rule \<and> e = None
           \<and> a \<noteq> ActionNoop \<and> a \<noteq> ActionSkipped)"
proof -
  let ?pid = "p_ID project"
  let ?P = "ProtectBranch (fmt_d ?pid) (branch_of_options (toProtectOptions rule))"
  have protect: "fst (?P s) = Some (branch_of_options (toProtectOptions rule))" "branches_step project {pb_Name rule} s (snd (?P s))"
    "branch_settled (branches_of ?pid (snd (?P s))) rule" if "governs project s" for s
    using protect_step(2-4) [OF that, of "branch_of_options (toProtectOptions rule)"] protect_conforms [OF ok]
    by (simp_all add: branch_settled_def)
  have call: "ProtectRepositoryBranches (mock_branches err) ?pid (toProtectOptions rule) s =
      (Inr (branch_of_options (toProtectOptions rule)), snd (?P s))" if "governs project s" for s
    using protect(1) [OF that] by (cases "?P s") (simp add: mock_branches_def)
  show ?thesis
  proof (cases "go_get (branches_of ?pid st) (pb_Name rule)")
    case None
    then have "\<not> branch_settled (branches_of ?pid st) rule" by (simp add: branch_settled_def)
    moreover have "apply_branch_rule (mock_branches err) ?pid liveMap rule st =
        (Some (ActionCreate, buildCreateDiff rule, None), snd (?P st))"
      using live None call [OF gov] by (simp add: apply_branch_rule_def)
    ultimately show ?thesis using protect [OF gov] by auto
  next
    case (Some b)
    show ?thesis
    proof (cases "branch_conforms b rule")
      case True
      then show ?thesis
        using live Some gov branches_step_refl by (simp add: apply_branch_rule_def buildUpdateDiff_iff branch_settled_def)
    next
      case no: False
      then have drift: "\<not> branch_settled (branches_of ?pid st) rule" using Some by (simp add: branch_settled_def)
      have name: "glb_Name b = pb_Name rule"
        using gov Some by (simp add: governs_def mock_ok_def branches_keyed_def branches_of_def)
      show ?thesis
      proof (cases "isOnlyCodeOwnerApprovalChanged (buildUpdateDiff b rule) \<and> pb_CodeOwnerApprovalRequired rule \<noteq> None")
        case True
        define b' where "b' = patch_branch (pb_Name rule) (pb_CodeOwnerApprovalRequired rule) (Some b)"
        have b': "glb_Name b' = pb_Name rule" "branch_conforms b' rule"
          using patch_conforms True name by (simp_all add: b'_def) (simp add: patch_branch_def)
        have "GetProtectedBranch (fmt_d ?pid) (pb_Name rule) st = Some b"
          using gov Some by (simp add: GetProtectedBranch_def governs_def resolve_project_number branches_of_def)
        then have "apply_branch_rule (mock_branches err) ?pid liveMap rule st =
            (Some (ActionUpdate, buildUpdateDiff b rule, None), snd (ProtectBranch (fmt_d ?pid) b' st))"
          using live Some no True by (simp add: apply_branch_rule_def buildUpdateDiff_iff Let_def mock_branches_def b'_def)
        then show ?thesis
          using protect_step(3,4) [OF gov, of b'] b' drift by (simp add: branch_settled_def)
      next
        case False
        let ?s1 = "snd (UnprotectBranch (fmt_d ?pid) (pb_Name rule) st)"
        have un: "fst (UnprotectBranch (fmt_d ?pid) (pb_Name rule) st)" "branches_step project {pb_Name rule} st ?s1"
          using unprotect_step(1,2) [OF gov, of "pb_Name rule"] Some by auto
        then have gov1: "governs project ?s1" by (simp add: branches_step_def)
        have "UnprotectRepositoryBranches (mock_branches err) ?pid (pb_Name rule) st = (None, ?s1)"
          using un(1) by (cases "UnprotectBranch (fmt_d ?pid) (pb_Name rule) st") (simp add: mock_branches_def)
        then have "apply_branch_rule (mock_branches err) ?pid liveMap rule st =
            (Some (ActionUpdate, buildUpdateDiff b rule, None), snd (?P ?s1))"
          using live Some no False call [OF gov1] by (auto simp: apply_branch_rule_def buildUpdateDiff_iff Let_def)
        then show ?thesis
          using protect [OF gov1] drift branches_step_trans [OF un(2) protect(2) [OF gov1]] by simp
      qed
    qed
  qed
qed

lemma branch_settled_frame:
  "branches_step project A st st' \<Longrightarrow> pb_Name rule \<notin> A \<Longrightarrow>
     branch_settled (branches_of (p_ID project) st') rule = branch_settled (branches_of (p_ID project) st) rule"
  by (simp add: branches_step_def branch_settled_def)

lemma apply_rules_mock:
  assumes "governs project st" and "distinct (map pb_Name rules)" and "list_all branch_rule_ok rules"
    and "\<forall>rule \<in> set rules. go_get liveMap (pb_Name rule) = go_get (branches_of (p_ID project) st) (pb_Name rule)"
  shows "\<exists>res st'. apply_branch_rules (mock_branches err) r (p_ID project) liveMap rules ds a st = ((res, None), st')
    \<and> branches_step project (pb_Name ` set rules) st st'
    \<and> (\<forall>rule \<in> set rules. branch_settled (branches_of (p_ID project) st') rule)
    \<and> ((\<forall>rule \<in> set rules. branch_settled (branches_of (p_ID project) st) rule) \<and> ds = [] \<longrightarrow>
         st' = st \<and> ar_Status res = StatusNoop)"
  using assms
proof (induction rules arbitrary: ds a st)
  case Nil
  then show ?case
    by (cases "ds = []") (auto simp: branches_step_refl prod_eq_iff intro: exI [of _ "fst (noop_apply branches_name r)"])
next
  case (Cons rule rules)
  let ?pid = "p_ID project"
  obtain out s1 where out: "apply_branch_rule (mock_branches err) ?pid liveMap rule st = (out, s1)"
    "branches_step project {pb_Name rule} st s1" "branch_settled (branches_of ?pid s1) rule"
    "case out of None \<Rightarrow> branch_settled (branches_of ?pid st) rule \<and> s1 = st
     | Some (a, d, e) \<Rightarrow> \<not> branch_settled (branches_of ?pid st) rule \<and> e = None \<and> a \<noteq> ActionNoop \<and> a \<noteq> ActionSkipped"
    using apply_rule_mock [OF Cons.prems(1), of rule liveMap err] Cons.prems(3,4) by auto
  have gov1: "governs project s1" using out(2) by (simp add: branches_step_def)
  have fresh: "pb_Name rule \<notin> pb_Name ` set rules" using Cons.prems(2) by auto
  have live: "\<forall>q \<in> set rules. go_get liveMap (pb_Name q) = go_get (branches_of ?pid s1) (pb_Name q)"
  proof
    fix q assume q: "q \<in> set rules"
    then have "pb_Name q \<notin> {pb_Name rule}" using fresh by (metis imageI singletonD)
    then have "go_get (branches_of ?pid s1) (pb_Name q) = go_get (branches_of ?pid st) (pb_Name q)"
      using out(2) unfolding branches_step_def by blast
    then show "go_get liveMap (pb_Name q) = go_get (branches_of ?pid s1) (pb_Name q)" using Cons.prems(4) q by simp
  qed
  have IH: "\<exists>res st'. apply_branch_rules (mock_branches err) r ?pid liveMap rules ds' a' s1 = ((res, None), st')
    \<and> branches_step project (pb_Name ` set rules) s1 st'
    \<and> (\<forall>rule \<in> set rules. branch_settled (branches_of ?pid st') rule)
    \<and> ((\<forall>rule \<in> set rules. branch_settled (branches_of ?pid s1) rule) \<and> ds' = [] \<longrightarrow> st' = s1 \<and> ar_Status res = StatusNoop)"
    for ds' a'
    using Cons.IH [OF gov1 _ _ live] Cons.prems(2,3) by auto
  have after: "branches_step project (pb_Name ` set (rule # rules)) st st' \<and> branch_settled (branches_of ?pid st') rule"
    if "branches_step project (pb_Name ` set rules) s1 st'" for st'
    using branches_step_trans [OF out(2) that] branch_settled_frame [OF that fresh] out(3) by simp
  show ?case
  proof (cases out)
    case None
    then show ?thesis using IH [of ds a] out(1,4) after by auto
  next
    case (Some x)
    then obtain act d where x: "out = Some (act, d, None)" using out(4) by (cases x) auto
    then show ?thesis using IH [of "ds @ [d]" "note_action act a"] out(1,4) after by auto
  qed
qed

lemma plan_rules_nil:
  "fst (foldl (plan_branch_rule lm) acc rules) = [] \<longleftrightarrow> fst acc = [] \<and> (\<forall>rule \<in> set rules. branch_settled lm rule)"
  by (induction rules arbitrary: acc)
    (auto simp: plan_branch_rule_def buildUpdateDiff_iff branch_settled_def Let_def split: option.splits prod.splits)

lemma tracks_plan_rules: "tracks (foldl (plan_branch_rule lm) ([], ActionNoop) rules)"
proof (rule tracks_foldl)
  fix acc x assume "tracks acc"
  then show "tracks (plan_branch_rule lm acc x)" by (cases acc) (auto simp: plan_branch_rule_def Let_def split: option.splits)
qed simp

definition branches_settled :: "gl_project \<Rightarrow> policy_config option \<Rightarrow> mock_state \<Rightarrow> bool" where
  "branches_settled project cfg st \<longleftrightarrow> (\<forall>rule \<in> set (branches_policy cfg). branch_settled (branches_of (p_ID project) st) rule)"

lemma branch_settled_live:
  assumes "governs project st"
  shows "branch_settled (go_map_of_list glb_Name id (map snd (branches_of (p_ID project) st))) rule
    = branch_settled (branches_of (p_ID project) st) rule"
  using assms live_map_lookup [of st] by (simp add: branch_settled_def governs_def mock_ok_def)

lemma plan_branches_mock:
  assumes "governs project st"
  shows "\<exists>pl. ProtectedBranches_Plan (mock_client err) project cfg st = Some (Inr pl, st)
    \<and> (pr_HasChanges pl \<longleftrightarrow> \<not> branches_settled project cfg st)"
proof (cases "branches_policy cfg = []")
  case False
  let ?acc = "foldl (plan_branch_rule (go_map_of_list glb_Name id (map snd (branches_of (p_ID project) st)))) ([], ActionNoop)
      (branches_policy cfg)"
  obtain ds a where acc: "?acc = (ds, a)" by (cases ?acc)
  have "tracks (ds, a)" using tracks_plan_rules acc by metis
  moreover have "ds = [] \<longleftrightarrow> branches_settled project cfg st"
    using plan_rules_nil [of _ "([], ActionNoop)"] acc unfolding branches_settled_def branch_settled_live [OF assms, symmetric]
    by (metis fst_conv)
  ultimately show ?thesis
    using False by (simp add: ProtectedBranches_Plan_def mock_fetch_branches [OF assms] acc Let_def)
qed (simp add: ProtectedBranches_Plan_def branches_settled_def)

text \<open>A policy that names every branch once, with identifiers and levels that are not negative.\<close>

definition branches_policy_ok :: "policy_config option \<Rightarrow> bool" where
  "branches_policy_ok cfg \<longleftrightarrow> distinct (map pb_Name (branches_policy cfg)) \<and> list_all branch_rule_ok (branches_policy cfg)"

lemma apply_branches_mock:
  assumes gov: "governs project st" and ok: "branches_policy_ok cfg"
  shows "\<exists>res st'. ProtectedBranches_Apply (mock_client err) project cfg st = Some ((res, None), st')
    \<and> branches_step project (pb_Name ` set (branches_policy cfg)) st st' \<and> branches_settled project cfg st'
    \<and> (branches_settled project cfg st \<longrightarrow> st' = st \<and> ar_Status res = StatusNoop)"
proof (cases "branches_policy cfg = []")
  case True
  then show ?thesis
    by (intro exI [of _ "fst (noop_apply branches_name (project_resource project))"] exI [of _ st])
      (simp add: ProtectedBranches_Apply_def branches_settled_def branches_step_refl [OF gov] prod_eq_iff)
next
  case False
  have "branches_keyed st" using gov by (simp add: governs_def mock_ok_def)
  then show ?thesis
    using False ok apply_rules_mock [OF gov, of "branches_policy cfg"
        "go_map_of_list glb_Name id (map snd (branches_of (p_ID project) st))" err "project_resource project" "[]" ActionNoop]
    by (auto simp: ProtectedBranches_Apply_def mock_fetch_branches [OF gov] Let_def live_map_lookup branches_settled_def
        branches_policy_ok_def)
qed

text \<open>The contract of a reconciler; on the server both methods return.\<close>

interpretation branches: reconciler "\<lambda>s. the (ProtectedBranches_Plan (mock_client err) project cfg s)"
  "\<lambda>s. the (ProtectedBranches_Apply (mock_client err) project cfg s)" "\<lambda>s. governs project s \<and> branches_policy_ok cfg"
proof
  fix s :: mock_state
  let ?plan = "\<lambda>s. the (ProtectedBranches_Plan (mock_client err) project cfg s)"
  let ?apply = "\<lambda>s. the (ProtectedBranches_Apply (mock_client err) project cfg s)"
  assume inv: "governs project s \<and> branches_policy_ok cfg"
  have settled: "settled ?plan t \<longleftrightarrow> branches_settled project cfg t" if "governs project t" for t
    using plan_branches_mock [OF that, of err cfg] by (auto simp: settled_def)
  obtain res s' where a: "?apply s = ((res, None), s')" "branches_step project (pb_Name ` set (branches_policy cfg)) s s'"
    "branches_settled project cfg s'" "branches_settled project cfg s \<longrightarrow> s' = s \<and> ar_Status res = StatusNoop"
    using apply_branches_mock [of project s cfg err] inv by auto
  then have gov': "governs project s'" by (simp add: branches_step_def)
  show "snd (?plan s) = s" using plan_branches_mock [of project s err cfg] inv by auto
  show "governs project (snd (?apply s)) \<and> branches_policy_ok cfg" using a(1) gov' inv by simp
  show "settled ?plan (snd (?apply s))" using a(1,3) settled [OF gov'] by simp
  show "snd (?apply s) = s \<and> snd (fst (?apply s)) = None \<and> ar_Status (fst (fst (?apply s))) = StatusNoop"
    if "settled ?plan s" using that settled [of s] inv a(1,4) by simp
qed

subsection \<open>Properties\<close>

text \<open>
  Property C9. On the mock server applying a well-formed protected branches policy returns and succeeds;
  afterwards every branch the policy names is protected as declared (the access lists as multisets
  of level, user and group, the flags where declared), the next plan has no changes, the branches the
  policy does not name and every other project keep their protections, and a project that already
  conforms is left untouched.
\<close>

theorem ProtectedBranches_Apply_converges:
  assumes "governs project st" and "branches_policy_ok cfg"
  shows "\<exists>res st' pl. ProtectedBranches_Apply (mock_client err) project cfg st = Some ((res, None), st')
    \<and> ProtectedBranches_Plan (mock_client err) project cfg st' = Some (Inr pl, st') \<and> \<not> pr_HasChanges pl
    \<and> branches_settled project cfg st' \<and> branches_step project (pb_Name ` set (branches_policy cfg)) st st'
    \<and> (branches_settled project cfg st \<longrightarrow> st' = st \<and> ar_Status res = StatusNoop)"
proof -
  obtain res st' where a: "ProtectedBranches_Apply (mock_client err) project cfg st = Some ((res, None), st')"
    "branches_step project (pb_Name ` set (branches_policy cfg)) st st'" "branches_settled project cfg st'"
    "branches_settled project cfg st \<longrightarrow> st' = st \<and> ar_Status res = StatusNoop"
    using apply_branches_mock [OF assms] by blast
  then have "governs project st'" by (simp add: branches_step_def)
  then show ?thesis using a plan_branches_mock [of project st' err cfg] by auto
qed

definition example_branch_rule :: protected_branch_rule_config where
  "example_branch_rule =
     \<lparr>pb_Name = ''main'',
      pb_AllowedToPush = [\<lparr>bad_AccessLevel = 40, bad_UserID = 0, bad_GroupID = 0, bad_Username = [], bad_GroupPath = [], bad_DeployKeyID = 0\<rparr>],
      pb_AllowedToMerge = [], pb_AllowedToUnprotect = [], pb_AllowForcePush = Some False, pb_CodeOwnerApprovalRequired = None\<rparr>"

definition example_branches_policy :: policy_config where
  "example_branches_policy =
     zero_policy_config\<lparr>cfg_Policies := zero_policies\<lparr>pol_ProtectedBranches := [example_branch_rule]\<rparr>\<rparr>"

lemma branches_policy_example [simp]: "branches_policy (Some example_branches_policy) = [example_branch_rule]"
  by (simp add: branches_policy_def example_branches_policy_def)

lemma ProtectedBranches_Apply_converges_witness:
  "\<exists>res st' pl. ProtectedBranches_Apply (mock_client (\<lambda>_ m. Err m)) example_project (Some example_branches_policy) example_state
      = Some ((res, None), st')
    \<and> ProtectedBranches_Plan (mock_client (\<lambda>_ m. Err m)) example_project (Some example_branches_policy) st' = Some (Inr pl, st')
    \<and> \<not> pr_HasChanges pl
    \<and> branches_settled example_project (Some example_branches_policy) st'
    \<and> branches_step example_project (pb_Name ` set (branches_policy (Some example_branches_policy))) example_state st'
    \<and> (branches_settled example_project (Some example_branches_policy) example_state \<longrightarrow>
         st' = example_state \<and> ar_Status res = StatusNoop)"
  by (rule ProtectedBranches_Apply_converges [OF governs_example])
    (simp add: branches_policy_ok_def branch_rule_ok_def example_branch_rule_def access_ok_def)

text \<open>
  Property C36. Recreating a protection is not atomic: when the branch is unprotected and the call that protects
  it again fails, applying returns the error and the project is left with no protection of that branch
  at all, although it had one before.
\<close>

theorem ProtectedBranches_failed_recreate_unprotects:
  assumes "governs project st" and "branches_policy cfg = [rule]"
    and "go_get (branches_of (p_ID project) st) (pb_Name rule) = Some b" and "\<not> branch_conforms b rule"
    and "\<not> isOnlyCodeOwnerApprovalChanged (buildUpdateDiff b rule)"
  shows "\<exists>res st'. ProtectedBranches_Apply
        ((mock_client err)\<lparr>cl_ProtectedBranches := (mock_branches err)\<lparr>ProtectRepositoryBranches := \<lambda>pid opts s. (Inl e, s)\<rparr>\<rparr>)
        project cfg st = Some ((res, Some e), st')
    \<and> go_get (branches_of (p_ID project) st') (pb_Name rule) = None"
proof -
  define svc where "svc = (mock_branches err)\<lparr>ProtectRepositoryBranches := \<lambda>pid opts s. (Inl e, s)\<rparr>"
  have svc: "ListProtectedBranches svc = ListProtectedBranches (mock_branches err)"
    "UnprotectRepositoryBranches svc = UnprotectRepositoryBranches (mock_branches err)"
    "ProtectRepositoryBranches svc pid opts s = (Inl e, s)" for pid opts s by (simp_all add: svc_def)
  let ?client = "(mock_client err)\<lparr>cl_ProtectedBranches := svc\<rparr>"
  let ?pid = "p_ID project"
  have fetch: "fetchAllLiveProtectedBranches ?client ?pid st = Some (Inr (map snd (branches_of ?pid st)), st)"
    using mock_fetch_branches [OF assms(1), of err] by (simp add: fetchAllLiveProtectedBranches_def svc)
  have keyed: "branches_keyed st" using assms(1) by (simp add: governs_def mock_ok_def)
  let ?s1 = "snd (UnprotectBranch (fmt_d ?pid) (pb_Name rule) st)"
  have un: "UnprotectRepositoryBranches svc ?pid (pb_Name rule) st = (None, ?s1)"
    unfolding svc using unprotect_step(1) [OF assms(1), of "pb_Name rule"] assms(3)
    by (cases "UnprotectBranch (fmt_d ?pid) (pb_Name rule) st") (simp add: mock_branches_def)
  have gone: "go_get (branches_of ?pid ?s1) (pb_Name rule) = None"
    using unprotect_step(3) [OF assms(1), of "pb_Name rule"] assms(3) by simp
  have "apply_branch_rule svc ?pid (go_map_of_list glb_Name id (map snd (branches_of ?pid st))) rule st =
      (Some (ActionUpdate, buildUpdateDiff b rule, Some e), ?s1)"
    using assms(3-5) un by (simp add: apply_branch_rule_def live_map_lookup [OF keyed] buildUpdateDiff_iff Let_def svc(3))
  then have "ProtectedBranches_Apply ?client project cfg st =
      Some (failed_apply branches_name (project_resource project) ActionUpdate [buildUpdateDiff b rule] e e, ?s1)"
    by (simp add: ProtectedBranches_Apply_def assms(2) fetch Let_def)
  moreover have "failed_apply n r a ds e e = (fst (failed_apply n r a ds e e), Some e)" for n r a ds
    by (simp add: prod_eq_iff)
  ultimately show ?thesis
    unfolding svc_def [symmetric] using gone by metis
qed

definition example_protected_state :: mock_state where
  "example_protected_state =
     snd (ProtectBranch ''7''
       \<lparr>glb_Name = ''main'', glb_PushAccessLevels = [\<lparr>gba_AccessLevel = 30, gba_UserID = 0, gba_GroupID = 0, gba_DeployKeyID = 0\<rparr>],
        glb_MergeAccessLevels = [], glb_UnprotectAccessLevels = [], glb_AllowForcePush = False, glb_CodeOwnerApprovalRequired = False\<rparr>
       example_state)"

lemma ProtectedBranches_failed_recreate_unprotects_witness:
  "\<exists>res st'. ProtectedBranches_Apply
        ((mock_client (\<lambda>_ m. Err m))\<lparr>cl_ProtectedBranches :=
           (mock_branches (\<lambda>_ m. Err m))\<lparr>ProtectRepositoryBranches := \<lambda>pid opts s. (Inl (Err ''500''), s)\<rparr>\<rparr>)
        example_project (Some example_branches_policy) example_protected_state = Some ((res, Some (Err ''500'')), st')
    \<and> go_get (branches_of (p_ID example_project) st') (pb_Name example_branch_rule) = None"
proof -
  obtain b where b: "go_get (branches_of (p_ID example_project) example_protected_state) (pb_Name example_branch_rule) = Some b"
    "\<not> branch_conforms b example_branch_rule" "\<not> isOnlyCodeOwnerApprovalChanged (buildUpdateDiff b example_branch_rule)"
  proof -
    have "case go_get (branches_of (p_ID example_project) example_protected_state) (pb_Name example_branch_rule) of
        None \<Rightarrow> False
      | Some b \<Rightarrow> Diff_HasChanges (buildUpdateDiff b example_branch_rule)
          \<and> \<not> isOnlyCodeOwnerApprovalChanged (buildUpdateDiff b example_branch_rule)" by code_simp
    then show thesis using that by (auto simp: buildUpdateDiff_iff split: option.splits)
  qed
  have "governs example_project example_protected_state"
    unfolding example_protected_state_def by (rule governs_protect [OF governs_example])
  then show ?thesis
    by (rule ProtectedBranches_failed_recreate_unprotects [OF _ branches_policy_example b])
qed

end
