(* ===== verification/Push_Rules.thy ===== *)
theory Push_Rules
  imports Reconciler Mock_Server
begin

section \<open>Push rules\<close>

text \<open>
  \<^verbatim>\<open>internal/governance/pushrules.go\<close> (order 10): the one reconciler that governs projects and groups.
  A push rule that does not exist is created with every declared field, an existing one is edited
  when a declared field differs. Whether it exists is read from the response status or from the text
  of the error.
\<close>

definition push_rules_name :: string where
  "push_rules_name = ''push_rules''"

definition push_rules_policy :: "policy_config option \<Rightarrow> push_rules_config option" where
  "push_rules_policy cfg = (case cfg of None \<Rightarrow> None | Some c \<Rightarrow> pol_PushRules (cfg_Policies c))"

definition isNotFound :: "go_error option \<Rightarrow> int option \<Rightarrow> bool" where
  "isNotFound err status \<longleftrightarrow>
     status = Some 404
   \<or> (case err of None \<Rightarrow> False
      | Some e \<Rightarrow> let errStr = ToLower (err_msg e) in Contains errStr ''404'' \<or> Contains errStr ''not found'')"

subsection \<open>Diffs and options\<close>

definition create_str :: "string \<Rightarrow> string \<Rightarrow> diff_builder \<Rightarrow> diff_builder" where
  "create_str field v b = (if v \<noteq> [] then AddField field VNil (VStr v) ActionCreate b else b)"

definition create_bool :: "string \<Rightarrow> bool option \<Rightarrow> diff_builder \<Rightarrow> diff_builder" where
  "create_bool field v b = (case v of None \<Rightarrow> b | Some x \<Rightarrow> AddField field VNil (VBool x) ActionCreate b)"

definition create_int :: "string \<Rightarrow> int option \<Rightarrow> diff_builder \<Rightarrow> diff_builder" where
  "create_int field v b = (case v of None \<Rightarrow> b | Some x \<Rightarrow> AddField field VNil (VInt x) ActionCreate b)"

definition buildProjectCreateDiff :: "push_rules_config \<Rightarrow> diff" where
  "buildProjectCreateDiff c =
     Build ''push_rule'' ActionCreate
       (create_bool ''reject_non_dco_commits'' (pu_RejectNonDCOCommits c)
       (create_bool ''reject_unsigned_commits'' (pu_RejectUnsignedCommits c)
       (create_bool ''deny_delete_tag'' (pu_DenyDeleteTag c)
       (create_bool ''prevent_secrets'' (pu_PreventSecrets c)
       (create_bool ''member_check'' (pu_MemberCheck c)
       (create_bool ''commit_committer_check'' (pu_CommitCommitterCheck c)
       (create_int ''max_file_size'' (pu_MaxFileSize c)
       (create_str ''file_name_regex'' (pu_FileNameRegex c)
       (create_str ''commit_message_negative_regex'' (pu_CommitMessageNegativeRegex c)
       (create_str ''commit_message_regex'' (pu_CommitMessageRegex c)
       (create_str ''branch_name_regex'' (pu_BranchNameRegex c)
       (create_str ''author_email_regex'' (pu_AuthorEmailRegex c) NewDiffBuilder))))))))))))"

definition buildGroupCreateDiff :: "push_rules_config \<Rightarrow> diff" where
  "buildGroupCreateDiff c = buildProjectCreateDiff c"

definition buildProjectUpdateDiff :: "gl_push_rules \<Rightarrow> push_rules_config \<Rightarrow> diff" where
  "buildProjectUpdateDiff live c =
     Build ''push_rule'' ActionUpdate
       (Add (CompareBoolPtr ''reject_non_dco_commits'' (gpr_RejectNonDCOCommits live) (pu_RejectNonDCOCommits c))
       (Add (CompareBoolPtr ''reject_unsigned_commits'' (gpr_RejectUnsignedCommits live) (pu_RejectUnsignedCommits c))
       (Add (CompareBoolPtr ''deny_delete_tag'' (gpr_DenyDeleteTag live) (pu_DenyDeleteTag c))
       (Add (CompareBoolPtr ''prevent_secrets'' (gpr_PreventSecrets live) (pu_PreventSecrets c))
       (Add (CompareBoolPtr ''member_check'' (gpr_MemberCheck live) (pu_MemberCheck c))
       (Add (CompareBoolPtr ''commit_committer_check'' (gpr_CommitCommitterCheck live) (pu_CommitCommitterCheck c))
       (Add (CompareIntPtr ''max_file_size'' (gpr_MaxFileSize live) (pu_MaxFileSize c))
       (Add (CompareString ''file_name_regex'' (gpr_FileNameRegex live) (pu_FileNameRegex c))
       (Add (CompareString ''commit_message_negative_regex'' (gpr_CommitMessageNegativeRegex live) (pu_CommitMessageNegativeRegex c))
       (Add (CompareString ''commit_message_regex'' (gpr_CommitMessageRegex live) (pu_CommitMessageRegex c))
       (Add (CompareString ''branch_name_regex'' (gpr_BranchNameRegex live) (pu_BranchNameRegex c))
       (Add (CompareString ''author_email_regex'' (gpr_AuthorEmailRegex live) (pu_AuthorEmailRegex c)) NewDiffBuilder))))))))))))"

text \<open>The group's rule has the same fields, compared in the same order.\<close>

definition buildGroupUpdateDiff :: "gl_push_rules \<Rightarrow> push_rules_config \<Rightarrow> diff" where
  "buildGroupUpdateDiff live c = buildProjectUpdateDiff live c"

definition toAddProjectOptions :: "push_rules_config \<Rightarrow> push_rule_options" where
  "toAddProjectOptions c =
     \<lparr>pro_AuthorEmailRegex = str_ptr (pu_AuthorEmailRegex c), pro_BranchNameRegex = str_ptr (pu_BranchNameRegex c),
      pro_CommitMessageRegex = str_ptr (pu_CommitMessageRegex c),
      pro_CommitMessageNegativeRegex = str_ptr (pu_CommitMessageNegativeRegex c),
      pro_FileNameRegex = str_ptr (pu_FileNameRegex c), pro_MaxFileSize = pu_MaxFileSize c,
      pro_CommitCommitterCheck = pu_CommitCommitterCheck c, pro_MemberCheck = pu_MemberCheck c,
      pro_PreventSecrets = pu_PreventSecrets c, pro_DenyDeleteTag = pu_DenyDeleteTag c,
      pro_RejectUnsignedCommits = pu_RejectUnsignedCommits c, pro_RejectNonDCOCommits = pu_RejectNonDCOCommits c\<rparr>"

text \<open>The other three option structs have the same fields, set from the same conditions.\<close>

definition toEditProjectPushOptions :: "push_rules_config \<Rightarrow> push_rule_options" where
  "toEditProjectPushOptions c = toAddProjectOptions c"

definition toAddGroupOptions :: "push_rules_config \<Rightarrow> push_rule_options" where
  "toAddGroupOptions c = toAddProjectOptions c"

definition toEditGroupOptions :: "push_rules_config \<Rightarrow> push_rule_options" where
  "toEditGroupOptions c = toAddProjectOptions c"

subsection \<open>Planning and applying\<close>

text \<open>The body \<^verbatim>\<open>Plan\<close> and \<^verbatim>\<open>PlanGroup\<close> share after the policy test.\<close>

definition plan_push_rule ::
  "resource \<Rightarrow> ('s \<Rightarrow> push_rule_reply \<times> 's) \<Rightarrow> (go_error \<Rightarrow> go_error) \<Rightarrow> diff \<Rightarrow> (gl_push_rules \<Rightarrow> diff) \<Rightarrow> 's plan_fun" where
  "plan_push_rule r get wrap created updated s =
     (case get s of
        ((live, status, err), s') \<Rightarrow>
          (case (if isNotFound err status then None else err) of
             Some e \<Rightarrow> (Inl (wrap e), s')
           | None \<Rightarrow>
               (Inr (case (if isNotFound err status then None else live) of
                  None \<Rightarrow> changes_plan push_rules_name r ActionCreate [created]
                | Some rule \<Rightarrow>
                    (let d = updated rule in
                     if \<not> Diff_HasChanges d then noop_plan push_rules_name r
                     else changes_plan push_rules_name r ActionUpdate [d])), s')))"

text \<open>The body of \<^verbatim>\<open>Apply\<close> and \<^verbatim>\<open>ApplyGroup\<close>.\<close>

definition apply_push_rule ::
  "resource \<Rightarrow> ('s \<Rightarrow> push_rule_reply \<times> 's) \<Rightarrow> diff \<Rightarrow> (gl_push_rules \<Rightarrow> diff) \<Rightarrow> 's api_error \<Rightarrow> 's api_error \<Rightarrow> 's apply_fun" where
  "apply_push_rule r get created updated add edit s =
     (let outcome = (\<lambda>a d reply. case reply of
            (Some e, s2) \<Rightarrow> (failed_apply push_rules_name r a [d] e e, s2)
          | (None, s2) \<Rightarrow> (ok_apply push_rules_name r a [d], s2))
      in case get s of
        ((live, status, err), s') \<Rightarrow>
          (case (if isNotFound err status then None else err) of
             Some e \<Rightarrow> (failed_apply push_rules_name r ActionNoop [] e e, s')
           | None \<Rightarrow>
               (case (if isNotFound err status then None else live) of
                  None \<Rightarrow> outcome ActionCreate created (add s')
                | Some rule \<Rightarrow>
                    (let d = updated rule in
                     if \<not> Diff_HasChanges d then (noop_apply push_rules_name r, s')
                     else outcome ActionUpdate d (edit s')))))"

definition PushRules_Plan :: "'s gitlab_client \<Rightarrow> gl_project \<Rightarrow> policy_config option \<Rightarrow> 's plan_fun" where
  "PushRules_Plan client project cfg s =
     (case push_rules_policy cfg of
        None \<Rightarrow> (Inr (noop_plan push_rules_name (project_resource project)), s)
      | Some c \<Rightarrow>
          plan_push_rule (project_resource project) (GetProjectPushRule (cl_PushRules client) (p_ID project))
            (Wrapf (''failed to fetch project push rules for project '' @ fmt_d (p_ID project)))
            (buildProjectCreateDiff c) (\<lambda>live. buildProjectUpdateDiff live c) s)"

definition PushRules_Apply :: "'s gitlab_client \<Rightarrow> gl_project \<Rightarrow> policy_config option \<Rightarrow> 's apply_fun" where
  "PushRules_Apply client project cfg s =
     (case push_rules_policy cfg of
        None \<Rightarrow> (noop_apply push_rules_name (project_resource project), s)
      | Some c \<Rightarrow>
          apply_push_rule (project_resource project) (GetProjectPushRule (cl_PushRules client) (p_ID project))
            (buildProjectCreateDiff c) (\<lambda>live. buildProjectUpdateDiff live c)
            (AddProjectPushRule (cl_PushRules client) (p_ID project) (toAddProjectOptions c))
            (EditProjectPushRule (cl_PushRules client) (p_ID project) (toEditProjectPushOptions c)) s)"

definition PushRules_PlanGroup :: "'s gitlab_client \<Rightarrow> gl_group \<Rightarrow> policy_config option \<Rightarrow> 's plan_fun" where
  "PushRules_PlanGroup client g cfg s =
     (case push_rules_policy cfg of
        None \<Rightarrow> (Inr (noop_plan push_rules_name (group_resource g)), s)
      | Some c \<Rightarrow>
          plan_push_rule (group_resource g) (GetGroupPushRule (cl_PushRules client) (g_ID g))
            (Wrapf (''failed to fetch group push rules for group '' @ fmt_d (g_ID g)))
            (buildGroupCreateDiff c) (\<lambda>live. buildGroupUpdateDiff live c) s)"

definition PushRules_ApplyGroup :: "'s gitlab_client \<Rightarrow> gl_group \<Rightarrow> policy_config option \<Rightarrow> 's apply_fun" where
  "PushRules_ApplyGroup client g cfg s =
     (case push_rules_policy cfg of
        None \<Rightarrow> (noop_apply push_rules_name (group_resource g), s)
      | Some c \<Rightarrow>
          apply_push_rule (group_resource g) (GetGroupPushRule (cl_PushRules client) (g_ID g))
            (buildGroupCreateDiff c) (\<lambda>live. buildGroupUpdateDiff live c)
            (AddGroupPushRule (cl_PushRules client) (g_ID g) (toAddGroupOptions c))
            (EditGroupPushRule (cl_PushRules client) (g_ID g) (toEditGroupOptions c)) s)"

subsection \<open>The specification\<close>

text \<open>A live push rule has every declared field.\<close>

definition str_conforms :: "string \<Rightarrow> string \<Rightarrow> bool" where
  "str_conforms live desired \<longleftrightarrow> desired = [] \<or> live = desired"

definition ptr_conforms :: "'a \<Rightarrow> 'a option \<Rightarrow> bool" where
  "ptr_conforms live desired \<longleftrightarrow> desired = None \<or> desired = Some live"

definition push_rule_conforms :: "gl_push_rules \<Rightarrow> push_rules_config \<Rightarrow> bool" where
  "push_rule_conforms live c \<longleftrightarrow>
     str_conforms (gpr_AuthorEmailRegex live) (pu_AuthorEmailRegex c)
   \<and> str_conforms (gpr_BranchNameRegex live) (pu_BranchNameRegex c)
   \<and> str_conforms (gpr_CommitMessageRegex live) (pu_CommitMessageRegex c)
   \<and> str_conforms (gpr_CommitMessageNegativeRegex live) (pu_CommitMessageNegativeRegex c)
   \<and> str_conforms (gpr_FileNameRegex live) (pu_FileNameRegex c)
   \<and> ptr_conforms (gpr_MaxFileSize live) (pu_MaxFileSize c)
   \<and> ptr_conforms (gpr_CommitCommitterCheck live) (pu_CommitCommitterCheck c)
   \<and> ptr_conforms (gpr_MemberCheck live) (pu_MemberCheck c)
   \<and> ptr_conforms (gpr_PreventSecrets live) (pu_PreventSecrets c)
   \<and> ptr_conforms (gpr_DenyDeleteTag live) (pu_DenyDeleteTag c)
   \<and> ptr_conforms (gpr_RejectUnsignedCommits live) (pu_RejectUnsignedCommits c)
   \<and> ptr_conforms (gpr_RejectNonDCOCommits live) (pu_RejectNonDCOCommits c)"

lemma update_diff_iff: "Diff_HasChanges (buildProjectUpdateDiff live c) \<longleftrightarrow> \<not> push_rule_conforms live c"
proof -
  have p: "(case CompareBoolPtr f l d of None \<Rightarrow> [] | Some x \<Rightarrow> [x]) = [] \<longleftrightarrow> ptr_conforms l d"
    "(case CompareIntPtr f i e of None \<Rightarrow> [] | Some x \<Rightarrow> [x]) = [] \<longleftrightarrow> ptr_conforms i e"
    "(case CompareString f t u of None \<Rightarrow> [] | Some x \<Rightarrow> [x]) = [] \<longleftrightarrow> str_conforms t u" for f l d i e t u
    by (auto simp: CompareBoolPtr_def CompareIntPtr_def CompareString_def ptr_conforms_def str_conforms_def split: option.splits)
  show ?thesis
    by (simp add: buildProjectUpdateDiff_def Build_HasChanges Builder_HasChanges_def p push_rule_conforms_def)
qed

lemma decoded_options_conform: "push_rule_conforms (push_rules_of_options (toAddProjectOptions c)) c"
proof -
  have "str_conforms (set_when (str_ptr v) []) v" "ptr_conforms (set_when d x) d" for v and d :: "'a option" and x
    by (auto simp: str_conforms_def ptr_conforms_def set_when_def str_ptr_def split: option.splits)
  then show ?thesis
    by (simp add: push_rule_conforms_def push_rules_of_options_def toAddProjectOptions_def)
      (simp add: ptr_conforms_def set_when_def split: option.splits)
qed

lemmas options_eq = toEditProjectPushOptions_def toAddGroupOptions_def toEditGroupOptions_def
  buildGroupCreateDiff_def buildGroupUpdateDiff_def

subsection \<open>The contract of the push rule endpoints\<close>

text \<open>
  What the reconciler relies on: reading returns the stored rule or a not-found reply and changes
  nothing; adding and editing leave a rule that has the declared fields. A reconciler over such
  endpoints keeps its contract.
\<close>

locale push_rule_store =
  fixes get :: "'s \<Rightarrow> push_rule_reply \<times> 's" and add :: "'s api_error" and edit :: "'s api_error"
    and stored :: "'s \<Rightarrow> gl_push_rules option" and inv :: "'s \<Rightarrow> bool" and c :: push_rules_config
  assumes get_stored: "inv s \<Longrightarrow> \<exists>status e. get s = ((stored s, status, e), s)
      \<and> (case stored s of None \<Rightarrow> isNotFound e status | Some _ \<Rightarrow> e = None \<and> \<not> isNotFound e status)"
    and add_stores: "inv s \<Longrightarrow> fst (add s) = None \<and> inv (snd (add s))
      \<and> (case stored (snd (add s)) of None \<Rightarrow> False | Some v \<Rightarrow> push_rule_conforms v c)"
    and edit_stores: "inv s \<Longrightarrow> fst (edit s) = None \<and> inv (snd (edit s))
      \<and> (case stored (snd (edit s)) of None \<Rightarrow> False | Some v \<Rightarrow> push_rule_conforms v c)"
begin

definition conforms :: "'s \<Rightarrow> bool" where
  "conforms s \<longleftrightarrow> (case stored s of None \<Rightarrow> False | Some v \<Rightarrow> push_rule_conforms v c)"

lemma plan_reads:
  assumes "inv s"
  shows "\<exists>pl. plan_push_rule r get wrap created (\<lambda>live. buildProjectUpdateDiff live c) s = (Inr pl, s)
    \<and> (pr_HasChanges pl \<longleftrightarrow> \<not> conforms s)"
  using get_stored [OF assms]
  by (auto simp: plan_push_rule_def Let_def conforms_def update_diff_iff split: option.splits)

lemma apply_conforms:
  assumes "inv s"
  shows "\<exists>res s'. apply_push_rule r get created (\<lambda>live. buildProjectUpdateDiff live c) add edit s = ((res, None), s')
    \<and> inv s' \<and> conforms s' \<and> (conforms s \<longrightarrow> s' = s \<and> ar_Status res = StatusNoop)"
proof -
  have ok: "ok_apply n r a ds = (fst (ok_apply n r a ds), None)" "noop_apply n r = (fst (noop_apply n r), None)" for n r a ds
    by (simp_all add: prod_eq_iff)
  obtain a1 s1 e1 s2 where ae: "add s = (a1, s1)" "edit s = (e1, s2)" by fastforce
  then have post: "a1 = None" "inv s1" "conforms s1" "e1 = None" "inv s2" "conforms s2"
    using add_stores [OF assms] edit_stores [OF assms] by (simp_all add: conforms_def)
  obtain status e where get: "get s = ((stored s, status, e), s)"
    "case stored s of None \<Rightarrow> isNotFound e status | Some _ \<Rightarrow> e = None \<and> \<not> isNotFound e status"
    using get_stored [OF assms] by blast
  show ?thesis
  proof (cases "stored s")
    case None
    then have "apply_push_rule r get created (\<lambda>live. buildProjectUpdateDiff live c) add edit s =
        (ok_apply push_rules_name r ActionCreate [created], s1)"
      using get post ae by (simp add: apply_push_rule_def Let_def)
    then show ?thesis using None post ok(1) by (metis conforms_def option.simps(4))
  next
    case (Some v)
    then have get: "get s = ((Some v, status, None), s)" "\<not> isNotFound None status" using get by auto
    show ?thesis
    proof (cases "push_rule_conforms v c")
      case True
      then have "apply_push_rule r get created (\<lambda>live. buildProjectUpdateDiff live c) add edit s =
          (noop_apply push_rules_name r, s)"
        using Some get by (simp add: apply_push_rule_def Let_def update_diff_iff)
      then show ?thesis using Some True assms ok(2) by (metis conforms_def noop_status option.simps(5))
    next
      case False
      then have "apply_push_rule r get created (\<lambda>live. buildProjectUpdateDiff live c) add edit s =
          (ok_apply push_rules_name r ActionUpdate [buildProjectUpdateDiff v c], s2)"
        using Some get post ae by (simp add: apply_push_rule_def Let_def update_diff_iff)
      then show ?thesis using Some False post ok(1) by (metis conforms_def option.simps(5))
    qed
  qed
qed

lemma settled_iff:
  assumes "inv s"
  shows "settled (plan_push_rule r get wrap created (\<lambda>live. buildProjectUpdateDiff live c)) s \<longleftrightarrow> conforms s"
  using plan_reads [OF assms, of r wrap created] by (auto simp: settled_def)

lemma is_reconciler:
  "reconciler (plan_push_rule r get wrap created (\<lambda>live. buildProjectUpdateDiff live c))
     (apply_push_rule r get created (\<lambda>live. buildProjectUpdateDiff live c) add edit) inv"
proof
  fix s
  let ?apply = "apply_push_rule r get created (\<lambda>live. buildProjectUpdateDiff live c) add edit"
  let ?plan = "plan_push_rule r get wrap created (\<lambda>live. buildProjectUpdateDiff live c)"
  assume inv: "inv s"
  obtain res s' where a: "?apply s = ((res, None), s')" "inv s'" "conforms s'" "conforms s \<longrightarrow> s' = s \<and> ar_Status res = StatusNoop"
    using apply_conforms [OF inv] by blast
  show "snd (?plan s) = s" using plan_reads [OF inv, of r wrap created] by auto
  show "inv (snd (?apply s))" using a by simp
  show "settled ?plan (snd (?apply s))" using a settled_iff by simp
  show "snd (?apply s) = s \<and> snd (fst (?apply s)) = None \<and> ar_Status (fst (fst (?apply s))) = StatusNoop"
    if "settled ?plan s" using that a settled_iff [OF inv] by simp
qed

end

subsection \<open>On the mock server\<close>

definition known_group :: "gl_group \<Rightarrow> mock_state \<Rightarrow> bool" where
  "known_group g st \<longleftrightarrow> mock_ok st \<and> in_int64 (g_ID g)"

lemma known_group_frame [simp]: "known_group g (st\<lparr>ms_groupPushRules := m\<rparr>) = known_group g st"
  by (simp add: known_group_def)

interpretation project_push: push_rule_store "GetProjectPushRule (mock_push_rules err) (p_ID project)"
  "AddProjectPushRule (mock_push_rules err) (p_ID project) (toAddProjectOptions c)"
  "EditProjectPushRule (mock_push_rules err) (p_ID project) (toEditProjectPushOptions c)"
  "\<lambda>st. go_get (ms_projectPushRules st) (p_ID project)" "governs project" c
  by unfold_locales
    (auto simp: mock_push_rules_def Let_def State_GetProjectPushRule_def SetProjectPushRule_def resolve_project_number
      governs_def mock_ok_def found_or_404_def isNotFound_def options_eq decoded_options_conform split: option.splits)

interpretation group_push: push_rule_store "GetGroupPushRule (mock_push_rules err) (g_ID g)"
  "AddGroupPushRule (mock_push_rules err) (g_ID g) (toAddGroupOptions c)"
  "EditGroupPushRule (mock_push_rules err) (g_ID g) (toEditGroupOptions c)"
  "\<lambda>st. go_get (ms_groupPushRules st) (g_ID g)" "known_group g" c
  by unfold_locales
    (auto simp: mock_push_rules_def Let_def State_GetGroupPushRule_def SetGroupPushRule_def resolve_group_number
      known_group_def mock_ok_def projects_keyed_def branches_keyed_def rules_keyed_def found_or_404_def
      isNotFound_def options_eq decoded_options_conform split: option.splits)

interpretation push: reconciler "PushRules_Plan (mock_client err) project cfg"
  "PushRules_Apply (mock_client err) project cfg" "governs project"
proof (cases "push_rules_policy cfg")
  case None
  then have "PushRules_Plan (mock_client err) project cfg = (\<lambda>s. (Inr (noop_plan push_rules_name (project_resource project)), s))"
    "PushRules_Apply (mock_client err) project cfg = (\<lambda>s. (noop_apply push_rules_name (project_resource project), s))"
    by (simp_all add: fun_eq_iff PushRules_Plan_def PushRules_Apply_def)
  then show "reconciler (PushRules_Plan (mock_client err) project cfg) (PushRules_Apply (mock_client err) project cfg) (governs project)"
    by (simp only: noop_reconciler)
next
  case (Some c)
  show "reconciler (PushRules_Plan (mock_client err) project cfg) (PushRules_Apply (mock_client err) project cfg) (governs project)"
    by (simp add: PushRules_Plan_def [abs_def] PushRules_Apply_def [abs_def] Some project_push.is_reconciler)
qed

interpretation push_group: reconciler "PushRules_PlanGroup (mock_client err) g cfg"
  "PushRules_ApplyGroup (mock_client err) g cfg" "known_group g"
proof (cases "push_rules_policy cfg")
  case None
  then have "PushRules_PlanGroup (mock_client err) g cfg = (\<lambda>s. (Inr (noop_plan push_rules_name (group_resource g)), s))"
    "PushRules_ApplyGroup (mock_client err) g cfg = (\<lambda>s. (noop_apply push_rules_name (group_resource g), s))"
    by (simp_all add: fun_eq_iff PushRules_PlanGroup_def PushRules_ApplyGroup_def)
  then show "reconciler (PushRules_PlanGroup (mock_client err) g cfg) (PushRules_ApplyGroup (mock_client err) g cfg) (known_group g)"
    by (simp only: noop_reconciler)
next
  case (Some c)
  show "reconciler (PushRules_PlanGroup (mock_client err) g cfg) (PushRules_ApplyGroup (mock_client err) g cfg) (known_group g)"
    using group_push.is_reconciler
    by (simp add: PushRules_PlanGroup_def [abs_def] PushRules_ApplyGroup_def [abs_def] Some options_eq)
qed

subsection \<open>Properties\<close>

text \<open>
  Property C35. On the mock server applying a push rules policy to a project always succeeds and leaves a push
  rule that has every declared field, whether there was a rule before or not; the following plan has no
  changes, and applying once more changes nothing and reports a no-op.
\<close>

theorem PushRules_Apply_converges:
  assumes "governs project st" and "push_rules_policy cfg = Some c"
  shows "\<exists>res st' v. PushRules_Apply (mock_client err) project cfg st = ((res, None), st')
    \<and> go_get (ms_projectPushRules st') (p_ID project) = Some v \<and> push_rule_conforms v c
    \<and> settled (PushRules_Plan (mock_client err) project cfg) st'
    \<and> (\<exists>res'. PushRules_Apply (mock_client err) project cfg st' = ((res', None), st') \<and> ar_Status res' = StatusNoop)"
proof -
  obtain res st' where a: "PushRules_Apply (mock_client err) project cfg st = ((res, None), st')" "governs project st'"
    "project_push.conforms project c st'"
    using project_push.apply_conforms [OF assms(1), of "project_resource project" err "buildProjectCreateDiff c" c]
    by (auto simp: PushRules_Apply_def assms(2))
  have settled: "settled (PushRules_Plan (mock_client err) project cfg) st'"
    using push.apply_settles [OF assms(1), of err cfg] a(1) by simp
  obtain v where "go_get (ms_projectPushRules st') (p_ID project) = Some v" "push_rule_conforms v c"
    using a(3) by (auto simp: project_push.conforms_def split: option.splits)
  then show ?thesis
    using a(1) settled push.settled_apply [OF a(2) settled] by (auto simp: prod_eq_iff)
qed

definition example_push_policy :: policy_config where
  "example_push_policy = zero_policy_config\<lparr>cfg_Policies := zero_policies\<lparr>pol_PushRules := Some
     \<lparr>pu_AuthorEmailRegex = ''@corp'', pu_BranchNameRegex = [], pu_CommitMessageRegex = [], pu_CommitMessageNegativeRegex = [],
      pu_FileNameRegex = [], pu_MaxFileSize = Some 10, pu_CommitCommitterCheck = None, pu_MemberCheck = None,
      pu_PreventSecrets = Some True, pu_DenyDeleteTag = None, pu_RejectUnsignedCommits = None, pu_RejectNonDCOCommits = None\<rparr>\<rparr>\<rparr>"

definition example_push_rules :: push_rules_config where
  "example_push_rules = the (push_rules_policy (Some example_push_policy))"

lemma push_policy_example: "push_rules_policy (Some example_push_policy) = Some example_push_rules"
  by (simp add: push_rules_policy_def example_push_policy_def example_push_rules_def)

lemma PushRules_Apply_converges_witness:
  "\<exists>res st' v. PushRules_Apply (mock_client (\<lambda>_ m. Err m)) example_project (Some example_push_policy) example_state = ((res, None), st')
    \<and> go_get (ms_projectPushRules st') (p_ID example_project) = Some v \<and> push_rule_conforms v example_push_rules
    \<and> settled (PushRules_Plan (mock_client (\<lambda>_ m. Err m)) example_project (Some example_push_policy)) st'
    \<and> (\<exists>res'. PushRules_Apply (mock_client (\<lambda>_ m. Err m)) example_project (Some example_push_policy) st' = ((res', None), st')
         \<and> ar_Status res' = StatusNoop)"
  by (rule PushRules_Apply_converges [OF governs_example push_policy_example])

text \<open>
  Any error whose text contains \<^verbatim>\<open>404\<close> counts as an absent push rule: with a service whose read fails
  with such an error, applying does not report it but adds the declared rule, and the result and the
  state are those of the add call.
\<close>

theorem PushRules_error_text_404_is_absence:
  assumes "push_rules_policy cfg = Some c"
    and "GetProjectPushRule (cl_PushRules client) (p_ID project) s = ((live, status, Some e), s1)"
    and "Contains (ToLower (err_msg e)) ''404''"
  shows "PushRules_Apply client project cfg s =
    (case AddProjectPushRule (cl_PushRules client) (p_ID project) (toAddProjectOptions c) s1 of
       (Some e', s2) \<Rightarrow>
         (failed_apply push_rules_name (project_resource project) ActionCreate [buildProjectCreateDiff c] e' e', s2)
     | (None, s2) \<Rightarrow> (ok_apply push_rules_name (project_resource project) ActionCreate [buildProjectCreateDiff c], s2))"
proof -
  have "isNotFound (Some e) status" using assms(3) by (simp add: isNotFound_def Let_def)
  then show ?thesis using assms(1,2) by (simp add: PushRules_Apply_def apply_push_rule_def Let_def)
qed

text \<open>A refused connection to port 14040 is such an error: the existing rule is overwritten.\<close>

definition refused_push_rules :: "mock_state gitlab_client" where
  "refused_push_rules =
     (let client = mock_client (\<lambda>_ m. Err m) in
      client\<lparr>cl_PushRules := (cl_PushRules client)\<lparr>GetProjectPushRule := \<lambda>pid s.
        ((None, None, Some (Err ''dial tcp 10.0.0.1:14040: connection refused'')), s)\<rparr>\<rparr>)"

lemma PushRules_error_text_404_is_absence_witness:
  "PushRules_Apply refused_push_rules example_project (Some example_push_policy) example_state =
    (case AddProjectPushRule (cl_PushRules refused_push_rules) (p_ID example_project) (toAddProjectOptions example_push_rules)
         example_state of
       (Some e', s2) \<Rightarrow>
         (failed_apply push_rules_name (project_resource example_project) ActionCreate
            [buildProjectCreateDiff example_push_rules] e' e', s2)
     | (None, s2) \<Rightarrow>
         (ok_apply push_rules_name (project_resource example_project) ActionCreate
            [buildProjectCreateDiff example_push_rules], s2))"
proof (rule PushRules_error_text_404_is_absence [OF push_policy_example])
  show "GetProjectPushRule (cl_PushRules refused_push_rules) (p_ID example_project) example_state =
      ((None, None, Some (Err ''dial tcp 10.0.0.1:14040: connection refused'')), example_state)"
    by (simp add: refused_push_rules_def Let_def)
  show "Contains (ToLower (err_msg (Err ''dial tcp 10.0.0.1:14040: connection refused''))) ''404''" by code_simp
qed

end
