(* ===== verification/Compliance.thy ===== *)
theory Compliance
  imports Reconciler Mock_Server
begin

section \<open>Compliance frameworks\<close>

text \<open>
  \<^verbatim>\<open>internal/governance/compliance.go\<close> (order 80): assign the declared compliance framework to a
  project, or remove the one it has when the policy only prunes. The first framework of the reply is
  the current one; it matches by ID, or by name whatever its case.
\<close>

definition compliance_name :: string where
  "compliance_name = ''compliance''"

definition compliance_policy :: "policy_config option \<Rightarrow> compliance_config option" where
  "compliance_policy cfg = (case cfg of None \<Rightarrow> None | Some c \<Rightarrow> pol_Compliance (cfg_Policies c))"

definition resolveDesiredFrameworkID :: "compliance_config \<Rightarrow> string" where
  "resolveDesiredFrameworkID c = (case cc_FrameworkID c of Some i \<Rightarrow> fmt_d i | None \<Rightarrow> cc_FrameworkName c)"

text \<open>The policy asks for no framework at all.\<close>

definition prunes :: "compliance_config \<Rightarrow> bool" where
  "prunes c \<longleftrightarrow> cc_Prune c = Some True \<and> cc_FrameworkName c = [] \<and> cc_FrameworkID c = None"

definition current_framework :: "compliance_framework list \<Rightarrow> string \<times> string" where
  "current_framework fs = (case fs of [] \<Rightarrow> ([], []) | f # _ \<Rightarrow> (cf_Name f, cf_ID f))"

definition framework_diffs :: "compliance_config \<Rightarrow> compliance_framework list \<Rightarrow> diff list" where
  "framework_diffs desired fs =
     (case current_framework fs of (currentName, currentID) \<Rightarrow>
        (let desiredName = cc_FrameworkName desired; desiredID = resolveDesiredFrameworkID desired in
         if prunes desired then
           (if currentID \<noteq> [] \<or> currentName \<noteq> []
            then [Build ''compliance_framework'' ActionDelete
                    (SetDetails (''Pruning compliance framework '' @ squote currentName)
                      (AddField ''compliance_framework'' (VStr currentName) VNil ActionDelete NewDiffBuilder))]
            else [])
         else if desiredName = [] \<and> desiredID = [] then []
         else
           (let isMatch = (if desiredID \<noteq> [] \<and> currentID = desiredID then True
                           else desiredName \<noteq> [] \<and> EqualFold currentName desiredName);
                action = (if currentName \<noteq> [] \<or> currentID \<noteq> [] then ActionUpdate else ActionCreate)
            in if \<not> isMatch
               then [Build ''compliance_framework'' action
                       (SetDetails (''Assigning compliance framework '' @ squote desiredName @ '' (ID: '' @ desiredID @ '')'')
                         (AddField ''compliance_framework'' (VStr currentName) (VStr desiredName) action NewDiffBuilder))]
               else [])))"

definition calculateComplianceDiffs ::
  "'s gitlab_client \<Rightarrow> compliance_config \<Rightarrow> gl_project \<Rightarrow> 's \<Rightarrow> diff list go_result \<times> 's" where
  "calculateComplianceDiffs client desired project s =
     (case GetProjectComplianceFrameworks (cl_Compliance client) (p_ID project) s of
        (Inl err, s') \<Rightarrow> (Inl (Wrapf (''failed to get compliance frameworks for project '' @ fmt_d (p_ID project)) err), s')
      | (Inr fs, s') \<Rightarrow> (Inr (framework_diffs desired fs), s'))"

definition Compliance_Plan :: "'s gitlab_client \<Rightarrow> gl_project \<Rightarrow> policy_config option \<Rightarrow> 's plan_fun" where
  "Compliance_Plan client project cfg s =
     (let r = project_resource project in
      case compliance_policy cfg of
        None \<Rightarrow> (Inr (noop_plan compliance_name r), s)
      | Some c \<Rightarrow>
          (case calculateComplianceDiffs client c project s of
             (Inl err, s') \<Rightarrow> (Inl err, s')
           | (Inr ds, s') \<Rightarrow>
               (Inr (case ds of [] \<Rightarrow> noop_plan compliance_name r
                     | d # _ \<Rightarrow> changes_plan compliance_name r (d_Action d) ds), s')))"

text \<open>The loop over the diffs of the plan; the first failing call ends it.\<close>

fun apply_frameworks ::
  "'s gitlab_client \<Rightarrow> compliance_config \<Rightarrow> gl_project \<Rightarrow> plan_result \<Rightarrow> diff list \<Rightarrow> 's apply_fun" where
  "apply_frameworks client c project pl [] s =
     (ok_apply compliance_name (project_resource project) (pr_Action pl) (pr_Diffs pl), s)"
| "apply_frameworks client c project pl (d # ds) s =
     (let r = project_resource project; pid = p_ID project; svc = cl_Compliance client;
          failed = (\<lambda>e. failed_apply compliance_name r (d_Action d) (pr_Diffs pl) e e) in
      if d_Action d = ActionCreate \<or> d_Action d = ActionUpdate then
        (let frameworkID = resolveDesiredFrameworkID c in
         if frameworkID = [] then (failed (Err ''compliance framework ID or name is required''), s)
         else
           (case SetProjectComplianceFramework svc pid frameworkID s of
              (Some err, s') \<Rightarrow> (failed (Wrapf (''failed to set compliance framework on project '' @ fmt_d pid) err), s')
            | (None, s') \<Rightarrow> apply_frameworks client c project pl ds s'))
      else if d_Action d = ActionDelete then
        (case RemoveProjectComplianceFramework svc pid [] s of
           (Some err, s') \<Rightarrow> (failed (Wrapf (''failed to remove compliance framework from project '' @ fmt_d pid) err), s')
         | (None, s') \<Rightarrow> apply_frameworks client c project pl ds s')
      else apply_frameworks client c project pl ds s)"

definition Compliance_Apply :: "'s gitlab_client \<Rightarrow> gl_project \<Rightarrow> policy_config option \<Rightarrow> 's apply_fun" where
  "Compliance_Apply client project cfg s =
     (case compliance_policy cfg of
        None \<Rightarrow> (noop_apply compliance_name (project_resource project), s)
      | Some c \<Rightarrow>
          apply_after_plan compliance_name (project_resource project) (Compliance_Plan client project cfg)
            (\<lambda>pl. apply_frameworks client c project pl (pr_Diffs pl)) s)"

definition Compliance_PlanGroup :: "gl_group \<Rightarrow> 's plan_fun" where
  "Compliance_PlanGroup g s =
     (Inr (skipped_plan compliance_name (group_resource g) ''Compliance framework policy is not applicable to groups''), s)"

definition Compliance_ApplyGroup :: "gl_group \<Rightarrow> 's apply_fun" where
  "Compliance_ApplyGroup g s =
     (skipped_apply compliance_name (group_resource g) ''Compliance framework policy is not applicable to groups'', s)"

subsection \<open>On the mock server\<close>

definition frameworks_of :: "int \<Rightarrow> mock_state \<Rightarrow> compliance_framework list" where
  "frameworks_of pid st = (case go_get (ms_complianceFrameworks st) pid of None \<Rightarrow> [] | Some fs \<Rightarrow> fs)"

lemma frameworks_set [simp]:
  "frameworks_of pid (set_framework pid fid st) = (if fid = [] then [] else [framework_of_id fid])"
  by (simp add: frameworks_of_def set_framework_def)

lemma governs_set_framework [simp]: "governs project (set_framework pid fid st) = governs project st"
  by (simp add: set_framework_def)

text \<open>The declared framework, once set, is the current one by its ID; a removed one leaves nothing to prune.\<close>

lemma framework_diffs_set:
  "resolveDesiredFrameworkID c \<noteq> [] \<Longrightarrow> framework_diffs c [framework_of_id (resolveDesiredFrameworkID c)] = []"
  by (auto simp: framework_diffs_def current_framework_def framework_of_id_def Let_def prunes_def resolveDesiredFrameworkID_def
      split: option.splits)

lemma framework_diffs_removed: "prunes c \<Longrightarrow> framework_diffs c [] = []"
  by (simp add: framework_diffs_def current_framework_def)

lemma framework_diffs_cases:
  "framework_diffs c fs = []
   \<or> (\<exists>d. framework_diffs c fs = [d] \<and> \<not> prunes c \<and> d_Action d \<in> {ActionCreate, ActionUpdate} \<and> resolveDesiredFrameworkID c \<noteq> [])
   \<or> (\<exists>d. framework_diffs c fs = [d] \<and> prunes c \<and> d_Action d = ActionDelete)"
  by (auto simp: framework_diffs_def Let_def Build_def resolveDesiredFrameworkID_def split: prod.splits option.splits)

lemma plan_compliance_mock:
  "compliance_policy cfg = Some c \<Longrightarrow> Compliance_Plan (mock_client err) project cfg st =
     (Inr (case framework_diffs c (frameworks_of (p_ID project) st) of
        [] \<Rightarrow> noop_plan compliance_name (project_resource project)
      | d # _ \<Rightarrow> changes_plan compliance_name (project_resource project) (d_Action d)
          (framework_diffs c (frameworks_of (p_ID project) st))), st)"
  by (simp add: Compliance_Plan_def calculateComplianceDiffs_def mock_compliance_def frameworks_of_def [symmetric] Let_def)

lemma settled_compliance:
  assumes "compliance_policy cfg = Some c"
  shows "settled (Compliance_Plan (mock_client err) project cfg) st \<longleftrightarrow> framework_diffs c (frameworks_of (p_ID project) st) = []"
  using framework_diffs_cases [of c "frameworks_of (p_ID project) st"]
  by (auto simp: settled_def plan_compliance_mock [OF assms])

lemma apply_compliance_mock:
  assumes pol: "compliance_policy cfg = Some c" and drift: "framework_diffs c (frameworks_of (p_ID project) st) \<noteq> []"
  shows "\<exists>res. Compliance_Apply (mock_client err) project cfg st =
    ((res, None), set_framework (p_ID project) (if prunes c then [] else resolveDesiredFrameworkID c) st)"
  using framework_diffs_cases [of c "frameworks_of (p_ID project) st"] drift
  by (auto simp: Compliance_Apply_def pol apply_after_plan_def plan_compliance_mock [OF pol] mock_compliance_def Let_def)

interpretation compliance: reconciler "Compliance_Plan (mock_client err) project cfg"
  "Compliance_Apply (mock_client err) project cfg" "governs project"
proof (cases "compliance_policy cfg")
  case None
  then have "Compliance_Plan (mock_client err) project cfg = (\<lambda>s. (Inr (noop_plan compliance_name (project_resource project)), s))"
    "Compliance_Apply (mock_client err) project cfg = (\<lambda>s. (noop_apply compliance_name (project_resource project), s))"
    by (simp_all add: fun_eq_iff Compliance_Plan_def Compliance_Apply_def)
  then show "reconciler (Compliance_Plan (mock_client err) project cfg) (Compliance_Apply (mock_client err) project cfg) (governs project)"
    by (simp only: noop_reconciler)
next
  case pol: (Some c)
  show "reconciler (Compliance_Plan (mock_client err) project cfg) (Compliance_Apply (mock_client err) project cfg) (governs project)"
  proof
    fix s :: mock_state
    let ?plan = "Compliance_Plan (mock_client err) project cfg"
    let ?apply = "Compliance_Apply (mock_client err) project cfg"
    let ?s' = "set_framework (p_ID project) (if prunes c then [] else resolveDesiredFrameworkID c) s"
    assume inv: "governs project s"
    show "snd (?plan s) = s" by (simp add: plan_compliance_mock [OF pol])
    have noop: "?apply s = (noop_apply compliance_name (project_resource project), s)" if "settled ?plan s"
      using that by (simp add: Compliance_Apply_def pol apply_after_plan_settled)
    have change: "\<exists>res. ?apply s = ((res, None), ?s') \<and> settled ?plan ?s'" if "\<not> settled ?plan s"
    proof -
      have drift: "framework_diffs c (frameworks_of (p_ID project) s) \<noteq> []" using that settled_compliance [OF pol] by simp
      have "framework_diffs c (frameworks_of (p_ID project) ?s') = []"
        using framework_diffs_cases [of c "frameworks_of (p_ID project) s"] drift framework_diffs_set [of c] framework_diffs_removed [of c]
        by auto
      then show ?thesis using apply_compliance_mock [OF pol drift, of err] settled_compliance [OF pol] by auto
    qed
    show "governs project (snd (?apply s))" using noop change inv by (cases "settled ?plan s") auto
    show "settled ?plan (snd (?apply s))" using noop change by (cases "settled ?plan s") auto
    show "snd (?apply s) = s \<and> snd (fst (?apply s)) = None \<and> ar_Status (fst (fst (?apply s))) = StatusNoop"
      if "settled ?plan s" using noop [OF that] by simp
  qed
qed

end
