(* ===== verification/Variables.thy ===== *)
theory Variables
  imports Reconciler Mock_Server
begin

section \<open>CI/CD variables\<close>

text \<open>
  \<^verbatim>\<open>internal/governance/variables.go\<close> (order 60) for projects and groups: a variable is identified by
  its key and environment scope; declared variables are created or updated, and unmanaged ones
  removed where the reconciler was built with pruning (the default registry builds it without).
  The value of a confidential variable never reaches a plan. Projects and groups run the same code
  on different endpoints and texts: \<open>variable_calls\<close> holds what differs.
\<close>

definition variables_name :: string where
  "variables_name = ''variables''"

definition variables_policy :: "policy_config option \<Rightarrow> variable_config list" where
  "variables_policy cfg = (case cfg of None \<Rightarrow> [] | Some c \<Rightarrow> pol_Variables (cfg_Policies c))"

definition varCompositeKey :: "string \<Rightarrow> string \<Rightarrow> string" where
  "varCompositeKey key scope = TrimSpace key @ ''::'' @ TrimSpace (if scope = [] then ''*'' else scope)"

definition isSensitiveVariable :: "string \<Rightarrow> bool \<Rightarrow> bool" where
  "isSensitiveVariable key masked \<longleftrightarrow>
     masked \<or> (let kUpper = ToUpper key in
       Contains kUpper ''SECRET'' \<or> Contains kUpper ''TOKEN'' \<or> Contains kUpper ''PASSWORD'' \<or> Contains kUpper ''KEY''
     \<or> Contains kUpper ''AUTH'' \<or> Contains kUpper ''PRIVATE'')"

definition sanitizeValue :: "string \<Rightarrow> string \<Rightarrow> bool \<Rightarrow> string" where
  "sanitizeValue key val masked = (if isSensitiveVariable key masked then ''******'' else val)"

definition decl_scope :: "variable_config \<Rightarrow> string" where
  "decl_scope d = (if vc_EnvironmentScope d = [] then ''*'' else vc_EnvironmentScope d)"

definition decl_key :: "variable_config \<Rightarrow> string" where
  "decl_key d = varCompositeKey (vc_Key d) (decl_scope d)"

definition live_key :: "gl_variable \<Rightarrow> string" where
  "live_key lv = varCompositeKey (gv_Key lv) (gv_EnvironmentScope lv)"

text \<open>\<^verbatim>\<open>for _, lv := range liveVars { if lv != nil { liveMap[...] = lv } }\<close>\<close>

definition live_map :: "gl_variable option list \<Rightarrow> (string, gl_variable) go_map" where
  "live_map lives = go_map_of_list live_key id (present lives)"

subsection \<open>Diffs\<close>

definition add_str :: "string \<Rightarrow> string \<Rightarrow> diff_builder \<Rightarrow> diff_builder" where
  "add_str field v b = (if v \<noteq> [] then AddField field VNil (VStr v) ActionCreate b else b)"

definition add_bool :: "string \<Rightarrow> bool option \<Rightarrow> diff_builder \<Rightarrow> diff_builder" where
  "add_bool field v b = (case v of None \<Rightarrow> b | Some x \<Rightarrow> AddField field VNil (VBool x) ActionCreate b)"

text \<open>\<open>noun\<close> is \<^verbatim>\<open>variable\<close> for projects and \<^verbatim>\<open>group variable\<close> for groups.\<close>

definition create_variable_diff :: "string \<Rightarrow> variable_config \<Rightarrow> diff" where
  "create_variable_diff noun d =
     Build (''variable:'' @ decl_key d) ActionCreate
       (SetDetails (''Create '' @ noun @ '' '' @ squote (vc_Key d) @ '' (scope: '' @ decl_scope d @ '')'')
       (add_bool ''raw'' (vc_Raw d)
       (add_bool ''protected'' (vc_Protected d)
       (add_bool ''masked'' (vc_Masked d)
       (add_str ''variable_type'' (vc_VariableType d)
       (AddField ''environment_scope'' VNil (VStr (decl_scope d)) ActionCreate
       (AddField ''value'' VNil (VStr (sanitizeValue (vc_Key d) (vc_Value d) (vc_Masked d = Some True))) ActionCreate
       (AddField ''key'' VNil (VStr (vc_Key d)) ActionCreate NewDiffBuilder))))))))"

definition diffProjectVariable :: "variable_config \<Rightarrow> gl_variable \<Rightarrow> diff" where
  "diffProjectVariable d live =
     (let masked = vc_Masked d = Some True \<or> gv_Masked live;
          b1 = (if gv_Value live \<noteq> vc_Value d
                then AddField ''value'' (VStr (sanitizeValue (gv_Key live) (gv_Value live) masked))
                       (VStr (sanitizeValue (vc_Key d) (vc_Value d) masked)) ActionUpdate NewDiffBuilder
                else NewDiffBuilder);
          b2 = (if vc_VariableType d \<noteq> [] \<and> gv_VariableType live \<noteq> vc_VariableType d
                then AddField ''variable_type'' (VStr (gv_VariableType live)) (VStr (vc_VariableType d)) ActionUpdate b1 else b1);
          b3 = Add (CompareBoolPtr ''protected'' (gv_Protected live) (vc_Protected d)) b2;
          b4 = Add (CompareBoolPtr ''masked'' (gv_Masked live) (vc_Masked d)) b3;
          b5 = Add (CompareBoolPtr ''raw'' (gv_Raw live) (vc_Raw d)) b4;
          b6 = (if vc_Description d \<noteq> [] \<and> gv_Description live \<noteq> vc_Description d
                then AddField ''description'' (VStr (gv_Description live)) (VStr (vc_Description d)) ActionUpdate b5 else b5)
      in Build (''variable:'' @ varCompositeKey (vc_Key d) (vc_EnvironmentScope d)) ActionUpdate b6)"

text \<open>The group's variable has the same fields, compared in the same order.\<close>

definition diffGroupVariable :: "variable_config \<Rightarrow> gl_variable \<Rightarrow> diff" where
  "diffGroupVariable d live = diffProjectVariable d live"

definition prune_variable_diff :: "string \<Rightarrow> gl_variable \<Rightarrow> diff" where
  "prune_variable_diff noun lv =
     Build (''variable:'' @ live_key lv) ActionDelete
       (SetDetails (''Prune unmanaged '' @ noun @ '' '' @ squote (gv_Key lv) @ '' (scope: '' @ gv_EnvironmentScope lv @ '')'')
       (AddField ''environment_scope'' (VStr (gv_EnvironmentScope lv)) VNil ActionDelete
       (AddField ''key'' (VStr (gv_Key lv)) VNil ActionDelete NewDiffBuilder)))"

text \<open>\<^verbatim>\<open>matchedKeys\<close>: the keys of the declared variables that are live.\<close>

definition matchedKeys :: "(string, gl_variable) go_map \<Rightarrow> variable_config list \<Rightarrow> string set" where
  "matchedKeys lm decls = {k \<in> decl_key ` set decls. go_get lm k \<noteq> None}"

definition declared_diffs ::
  "string \<Rightarrow> (variable_config \<Rightarrow> gl_variable \<Rightarrow> diff) \<Rightarrow> (string, gl_variable) go_map \<Rightarrow> variable_config \<Rightarrow> diff list" where
  "declared_diffs noun dv lm d =
     (case go_get lm (decl_key d) of
        None \<Rightarrow> [create_variable_diff noun d]
      | Some live \<Rightarrow> (let vd = dv d live in if Diff_HasChanges vd then [vd] else []))"

definition variable_diffs ::
  "string \<Rightarrow> (variable_config \<Rightarrow> gl_variable \<Rightarrow> diff) \<Rightarrow> bool \<Rightarrow> gl_variable option list \<Rightarrow> variable_config list \<Rightarrow> diff list" where
  "variable_diffs noun dv prune lives decls =
     (let lm = live_map lives in
      concat (map (declared_diffs noun dv lm) decls)
      @ (if prune then map (prune_variable_diff noun) (filter (\<lambda>lv. live_key lv \<notin> matchedKeys lm decls) (present lives))
         else []))"

subsection \<open>The calls\<close>

record 's variable_calls =
  vcl_Noun :: string
  vcl_Kind :: string
  vcl_ID :: int
  vcl_Diff :: "variable_config \<Rightarrow> gl_variable \<Rightarrow> diff"
  vcl_List :: "(gl_variable option list, 's) api"
  vcl_Create :: "variable_config \<Rightarrow> 's api_error"
  vcl_Update :: "variable_config \<Rightarrow> 's api_error"
  vcl_Remove :: "gl_variable \<Rightarrow> 's api_error"

definition create_variable_options :: "variable_config \<Rightarrow> create_variable_options" where
  "create_variable_options d =
     \<lparr>cvo_Key = vc_Key d, cvo_Value = vc_Value d, cvo_EnvironmentScope = decl_scope d,
      cvo_VariableType = str_ptr (vc_VariableType d), cvo_Protected = vc_Protected d, cvo_Masked = vc_Masked d,
      cvo_Raw = vc_Raw d, cvo_Description = str_ptr (vc_Description d)\<rparr>"

text \<open>A project's update carries the scope in the filter, a group's as a field.\<close>

definition update_variable_options :: "bool \<Rightarrow> variable_config \<Rightarrow> update_variable_options" where
  "update_variable_options project d =
     \<lparr>uvo_Value = vc_Value d, uvo_FilterScope = (if project then Some (decl_scope d) else None),
      uvo_EnvironmentScope = (if project then None else Some (decl_scope d)),
      uvo_VariableType = str_ptr (vc_VariableType d), uvo_Protected = vc_Protected d, uvo_Masked = vc_Masked d,
      uvo_Raw = vc_Raw d, uvo_Description = str_ptr (vc_Description d)\<rparr>"

definition project_variable_calls :: "'s gitlab_client \<Rightarrow> int \<Rightarrow> 's variable_calls" where
  "project_variable_calls client pid =
     (let svc = cl_Variables client in
      \<lparr>vcl_Noun = ''variable'', vcl_Kind = ''project'', vcl_ID = pid, vcl_Diff = diffProjectVariable,
       vcl_List = ListProjectVariables svc pid 100,
       vcl_Create = (\<lambda>d. CreateProjectVariable svc pid (create_variable_options d)),
       vcl_Update = (\<lambda>d. UpdateProjectVariable svc pid (vc_Key d) (update_variable_options True d)),
       vcl_Remove = (\<lambda>lv. RemoveProjectVariable svc pid (gv_Key lv) (gv_EnvironmentScope lv))\<rparr>)"

definition group_variable_calls :: "'s gitlab_client \<Rightarrow> int \<Rightarrow> 's variable_calls" where
  "group_variable_calls client gid =
     (let svc = cl_Variables client in
      \<lparr>vcl_Noun = ''group variable'', vcl_Kind = ''group'', vcl_ID = gid, vcl_Diff = diffGroupVariable,
       vcl_List = ListGroupVariables svc gid 100,
       vcl_Create = (\<lambda>d. CreateGroupVariable svc gid (create_variable_options d)),
       vcl_Update = (\<lambda>d. UpdateGroupVariable svc gid (vc_Key d) (update_variable_options False d)),
       vcl_Remove = (\<lambda>lv. RemoveGroupVariable svc gid (gv_Key lv))\<rparr>)"

subsection \<open>Planning and applying\<close>

definition plan_variables :: "'s variable_calls \<Rightarrow> resource \<Rightarrow> bool \<Rightarrow> variable_config list \<Rightarrow> 's plan_fun" where
  "plan_variables calls r prune decls s =
     (if decls = [] then (Inr (noop_plan variables_name r), s)
      else
        (case vcl_List calls s of
           (Inl err, s') \<Rightarrow>
             (Inl (Wrapf (''failed to list '' @ vcl_Kind calls @ '' variables for '' @ vcl_Kind calls @ '' ''
                @ fmt_d (vcl_ID calls)) err), s')
         | (Inr lives, s') \<Rightarrow>
             (Inr (plan_of_diffs variables_name r ActionUpdate
                (variable_diffs (vcl_Noun calls) (vcl_Diff calls) prune lives decls)), s')))"

text \<open>The loops of an apply: the first failing call ends them with its action and wrapped error.\<close>

fun set_variables ::
  "'s variable_calls \<Rightarrow> (string, gl_variable) go_map \<Rightarrow> variable_config list \<Rightarrow> 's \<Rightarrow> (action_type \<times> go_error) option \<times> 's" where
  "set_variables calls lm [] s = (None, s)"
| "set_variables calls lm (d # ds) s =
     (if go_get lm (decl_key d) = None then
        (case vcl_Create calls d s of
           (Some e, s') \<Rightarrow>
             (Some (ActionCreate, Wrapf (''failed to create '' @ vcl_Kind calls @ '' variable '' @ squote (decl_key d)) e), s')
         | (None, s') \<Rightarrow> set_variables calls lm ds s')
      else
        (case vcl_Update calls d s of
           (Some e, s') \<Rightarrow>
             (Some (ActionUpdate, Wrapf (''failed to update '' @ vcl_Kind calls @ '' variable '' @ squote (decl_key d)) e), s')
         | (None, s') \<Rightarrow> set_variables calls lm ds s'))"

fun remove_variables ::
  "'s variable_calls \<Rightarrow> string set \<Rightarrow> gl_variable list \<Rightarrow> 's \<Rightarrow> (action_type \<times> go_error) option \<times> 's" where
  "remove_variables calls keep [] s = (None, s)"
| "remove_variables calls keep (lv # lvs) s =
     (if live_key lv \<notin> keep then
        (case vcl_Remove calls lv s of
           (Some e, s') \<Rightarrow>
             (Some (ActionDelete, Wrapf (''failed to remove unmanaged '' @ vcl_Kind calls @ '' variable ''
                @ squote (live_key lv)) e), s')
         | (None, s') \<Rightarrow> remove_variables calls keep lvs s')
      else remove_variables calls keep lvs s)"

definition apply_variables :: "'s variable_calls \<Rightarrow> resource \<Rightarrow> bool \<Rightarrow> variable_config list \<Rightarrow> 's apply_fun" where
  "apply_variables calls r prune decls s =
     (if decls = [] then (noop_apply variables_name r, s)
      else
        apply_after_plan variables_name r (plan_variables calls r prune decls)
          (\<lambda>pl s1.
             let failed = (\<lambda>a e. failed_apply variables_name r a (pr_Diffs pl) e e) in
             case vcl_List calls s1 of
               (Inl err, s2) \<Rightarrow> (failed ActionUpdate (Wrapf (''failed to list '' @ vcl_Kind calls @ '' variables'') err), s2)
             | (Inr lives, s2) \<Rightarrow>
                 (case set_variables calls (live_map lives) decls s2 of
                    (Some (a, e), s3) \<Rightarrow> (failed a e, s3)
                  | (None, s3) \<Rightarrow>
                      (case (if prune then remove_variables calls (matchedKeys (live_map lives) decls) (present lives) s3
                             else (None, s3)) of
                         (Some (a, e), s4) \<Rightarrow> (failed a e, s4)
                       | (None, s4) \<Rightarrow> (ok_apply variables_name r ActionUpdate (pr_Diffs pl), s4)))) s)"

definition Variables_Plan :: "bool \<Rightarrow> 's gitlab_client \<Rightarrow> gl_project \<Rightarrow> policy_config option \<Rightarrow> 's plan_fun" where
  "Variables_Plan prune client project cfg =
     plan_variables (project_variable_calls client (p_ID project)) (project_resource project) prune (variables_policy cfg)"

definition Variables_Apply :: "bool \<Rightarrow> 's gitlab_client \<Rightarrow> gl_project \<Rightarrow> policy_config option \<Rightarrow> 's apply_fun" where
  "Variables_Apply prune client project cfg =
     apply_variables (project_variable_calls client (p_ID project)) (project_resource project) prune (variables_policy cfg)"

definition Variables_PlanGroup :: "bool \<Rightarrow> 's gitlab_client \<Rightarrow> gl_group \<Rightarrow> policy_config option \<Rightarrow> 's plan_fun" where
  "Variables_PlanGroup prune client g cfg =
     plan_variables (group_variable_calls client (g_ID g)) (group_resource g) prune (variables_policy cfg)"

definition Variables_ApplyGroup :: "bool \<Rightarrow> 's gitlab_client \<Rightarrow> gl_group \<Rightarrow> policy_config option \<Rightarrow> 's apply_fun" where
  "Variables_ApplyGroup prune client g cfg =
     apply_variables (group_variable_calls client (g_ID g)) (group_resource g) prune (variables_policy cfg)"

subsection \<open>What the plan depends on\<close>

lemma find_list_all2:
  assumes "list_all2 R xs ys" and "\<And>x y. R x y \<Longrightarrow> P x = Q y"
  shows "rel_option R (find P xs) (find Q ys)"
  using assms(1)
proof (induction rule: list_all2_induct)
  case (Cons x xs y ys)
  then show ?case using assms(2) [of x y] by simp
qed simp

lemma present_list_all2: "list_all2 (rel_option R) xs ys \<Longrightarrow> list_all2 R (present xs) (present ys)"
  by (induction rule: list_all2_induct) (auto elim!: option.rel_cases)

text \<open>
  Two declared (live) variables that differ at most in their value, and in that only when the variable
  is confidential by its name or its own mask.
\<close>

definition decl_variant :: "variable_config \<Rightarrow> variable_config \<Rightarrow> bool" where
  "decl_variant d d' \<longleftrightarrow> d' = d\<lparr>vc_Value := vc_Value d'\<rparr>
     \<and> (vc_Value d' = vc_Value d \<or> isSensitiveVariable (vc_Key d) (vc_Masked d = Some True))"

definition live_variant :: "gl_variable \<Rightarrow> gl_variable \<Rightarrow> bool" where
  "live_variant lv lv' \<longleftrightarrow> lv' = lv\<lparr>gv_Value := gv_Value lv'\<rparr>
     \<and> (gv_Value lv' = gv_Value lv \<or> isSensitiveVariable (gv_Key lv) (gv_Masked lv))"

definition same_match :: "gl_variable \<Rightarrow> gl_variable \<Rightarrow> variable_config \<Rightarrow> variable_config \<Rightarrow> bool" where
  "same_match lv lv' d d' \<longleftrightarrow> (gv_Value lv = vc_Value d \<longleftrightarrow> gv_Value lv' = vc_Value d')"

lemma decl_variant_fields:
  assumes "decl_variant d d'"
  shows "vc_Key d' = vc_Key d" "vc_EnvironmentScope d' = vc_EnvironmentScope d" "vc_VariableType d' = vc_VariableType d"
    "vc_Protected d' = vc_Protected d" "vc_Masked d' = vc_Masked d" "vc_Raw d' = vc_Raw d" "vc_Description d' = vc_Description d"
    "decl_key d' = decl_key d" "decl_scope d' = decl_scope d"
    "sanitizeValue (vc_Key d) (vc_Value d') (vc_Masked d = Some True \<or> m) = sanitizeValue (vc_Key d) (vc_Value d) (vc_Masked d = Some True \<or> m)"
proof -
  obtain v where d': "d' = d\<lparr>vc_Value := v\<rparr>" "v = vc_Value d \<or> isSensitiveVariable (vc_Key d) (vc_Masked d = Some True)"
    using assms unfolding decl_variant_def by metis
  show "vc_Key d' = vc_Key d" "vc_EnvironmentScope d' = vc_EnvironmentScope d" "vc_VariableType d' = vc_VariableType d"
    "vc_Protected d' = vc_Protected d" "vc_Masked d' = vc_Masked d" "vc_Raw d' = vc_Raw d" "vc_Description d' = vc_Description d"
    "decl_key d' = decl_key d" "decl_scope d' = decl_scope d" by (simp_all add: d'(1) decl_key_def decl_scope_def)
  show "sanitizeValue (vc_Key d) (vc_Value d') (vc_Masked d = Some True \<or> m) = sanitizeValue (vc_Key d) (vc_Value d) (vc_Masked d = Some True \<or> m)"
    using d'(2) by (auto simp: d'(1) sanitizeValue_def isSensitiveVariable_def)
qed

lemma live_variant_fields:
  assumes "live_variant lv lv'"
  shows "gv_Key lv' = gv_Key lv" "gv_EnvironmentScope lv' = gv_EnvironmentScope lv" "gv_VariableType lv' = gv_VariableType lv"
    "gv_Protected lv' = gv_Protected lv" "gv_Masked lv' = gv_Masked lv" "gv_Raw lv' = gv_Raw lv" "gv_Description lv' = gv_Description lv"
    "live_key lv' = live_key lv" "prune_variable_diff noun lv' = prune_variable_diff noun lv"
    "sanitizeValue (gv_Key lv) (gv_Value lv') (m \<or> gv_Masked lv) = sanitizeValue (gv_Key lv) (gv_Value lv) (m \<or> gv_Masked lv)"
proof -
  obtain v where lv': "lv' = lv\<lparr>gv_Value := v\<rparr>" "v = gv_Value lv \<or> isSensitiveVariable (gv_Key lv) (gv_Masked lv)"
    using assms unfolding live_variant_def by metis
  show "gv_Key lv' = gv_Key lv" "gv_EnvironmentScope lv' = gv_EnvironmentScope lv" "gv_VariableType lv' = gv_VariableType lv"
    "gv_Protected lv' = gv_Protected lv" "gv_Masked lv' = gv_Masked lv" "gv_Raw lv' = gv_Raw lv" "gv_Description lv' = gv_Description lv"
    "live_key lv' = live_key lv" "prune_variable_diff noun lv' = prune_variable_diff noun lv"
    by (simp_all add: lv'(1) live_key_def prune_variable_diff_def)
  show "sanitizeValue (gv_Key lv) (gv_Value lv') (m \<or> gv_Masked lv) = sanitizeValue (gv_Key lv) (gv_Value lv) (m \<or> gv_Masked lv)"
    using lv'(2) by (auto simp: lv'(1) sanitizeValue_def isSensitiveVariable_def)
qed

text \<open>A diff shows neither of two confidential values.\<close>

lemma diff_variant:
  assumes d: "decl_variant d d'" and lv: "live_variant lv lv'" and eq: "same_match lv lv' d d'"
  shows "diffProjectVariable d' lv' = diffProjectVariable d lv"
  using eq by (simp add: diffProjectVariable_def Let_def decl_variant_fields [OF d] live_variant_fields [OF lv] same_match_def)

lemma create_variant:
  assumes "decl_variant d d'"
  shows "create_variable_diff noun d' = create_variable_diff noun d"
  using decl_variant_fields(10) [OF assms, of False]
  by (simp add: create_variable_diff_def decl_variant_fields(1-9) [OF assms])

lemma variable_diffs_variant:
  assumes decls: "list_all2 decl_variant decls decls'"
    and lives: "list_all2 (rel_option (\<lambda>lv lv'. live_variant lv lv' \<and> (\<forall>(d, d') \<in> set (zip decls decls'). same_match lv lv' d d')))
      lives lives'"
  shows "variable_diffs noun diffProjectVariable prune lives' decls' = variable_diffs noun diffProjectVariable prune lives decls"
proof -
  let ?R = "\<lambda>lv lv'. live_variant lv lv' \<and> (\<forall>(d, d') \<in> set (zip decls decls'). same_match lv lv' d d')"
  have rel: "list_all2 ?R (present lives) (present lives')" by (rule present_list_all2 [OF lives])
  have get: "rel_option ?R (go_get (live_map lives) k) (go_get (live_map lives') k)" for k
    unfolding live_map_def go_get_map_of_list option.map_id
  proof (rule find_list_all2)
    show "list_all2 ?R (rev (present lives)) (rev (present lives'))" using rel by (simp only: list_all2_rev)
    fix x y assume "?R x y"
    then show "(live_key x = k) = (live_key y = k)" using live_variant_fields(8) [of x y] by simp
  qed
  have none: "go_get (live_map lives') k = None \<longleftrightarrow> go_get (live_map lives) k = None" for k
    using get [of k] by (auto elim!: option.rel_cases)
  have each: "declared_diffs noun diffProjectVariable (live_map lives') d' = declared_diffs noun diffProjectVariable (live_map lives) d"
    if dd: "(d, d') \<in> set (zip decls decls')" for d d'
  proof -
    have d: "decl_variant d d'" using dd decls by (auto simp: list_all2_iff)
    show ?thesis
    proof (cases "go_get (live_map lives) (decl_key d)")
      case None
      then have "go_get (live_map lives') (decl_key d) = None" using none by blast
      with None show ?thesis by (simp add: declared_diffs_def decl_variant_fields(8) [OF d] create_variant [OF d])
    next
      case (Some lv)
      then obtain lv' where lv': "go_get (live_map lives') (decl_key d) = Some lv'" "?R lv lv'"
        using get [of "decl_key d"] by (auto simp: option_rel_Some1)
      then have "diffProjectVariable d' lv' = diffProjectVariable d lv" using dd d by (auto intro!: diff_variant)
      then show ?thesis using Some lv'(1) by (simp add: declared_diffs_def decl_variant_fields(8) [OF d])
    qed
  qed
  have "map (declared_diffs noun diffProjectVariable (live_map lives')) decls' = map (declared_diffs noun diffProjectVariable (live_map lives)) decls"
    using each decls by (auto simp: list_eq_iff_nth_eq list_all2_conv_all_nth in_set_zip)
  moreover have keys: "map decl_key decls' = map decl_key decls"
    using decls decl_variant_fields(8) by (auto simp: list_eq_iff_nth_eq list_all2_conv_all_nth)
  have matched: "matchedKeys (live_map lives') decls' = matchedKeys (live_map lives) decls"
    using arg_cong [OF keys, of set] none by (simp add: matchedKeys_def)
  have "map (prune_variable_diff noun) (filter (\<lambda>lv. live_key lv \<notin> K) (present lives')) =
      map (prune_variable_diff noun) (filter (\<lambda>lv. live_key lv \<notin> K) (present lives))" for K
    using rel by (induction rule: list_all2_induct) (auto simp: live_variant_fields)
  ultimately show ?thesis by (simp add: variable_diffs_def Let_def matched)
qed

lemma list_all2_Nil_iff: "list_all2 R xs ys \<Longrightarrow> xs = [] \<longleftrightarrow> ys = []"
  by (cases xs; cases ys) auto

lemma paginate_first_page: "0 < n \<Longrightarrow> fst (paginate_page (Some n) None xs) = take (nat n) xs"
  using paginate_page_slice [of n 1 xs] by (simp add: paginate_page_def Let_def)

lemma mock_list_variables:
  "in_int64 pid \<Longrightarrow> ListProjectVariables (mock_variables err q) pid 100 st =
     (Inr (map Some (take 100 (map snd (inner (ms_projectVariables st) pid)))), st)"
  by (simp add: mock_variables_def first_page_of_def paginate_first_page State_ListProjectVariables_def resolve_project_number)

subsection \<open>Properties\<close>

text \<open>
  Two listings a plan cannot tell apart: both fail with the same error, or the live variables differ
  at most in confidential values and a live value equals a declared one in the one run exactly when
  it does in the other. The last condition is needed: a plan does show whether a live secret still
  equals the declared one, although it shows neither.
\<close>

definition reads_alike ::
  "'s variable_calls \<Rightarrow> 's variable_calls \<Rightarrow> variable_config list \<Rightarrow> variable_config list \<Rightarrow> 's \<Rightarrow> 's \<Rightarrow> bool" where
  "reads_alike calls calls' decls decls' s s' \<longleftrightarrow>
     (case (fst (vcl_List calls s), fst (vcl_List calls' s')) of
        (Inl e, Inl e') \<Rightarrow> e' = e
      | (Inr lives, Inr lives') \<Rightarrow>
          list_all2 (rel_option (\<lambda>lv lv'. live_variant lv lv' \<and> (\<forall>(d, d') \<in> set (zip decls decls'). same_match lv lv' d d')))
            lives lives'
      | _ \<Rightarrow> False)"

lemma plan_variables_alike:
  assumes decls: "list_all2 decl_variant decls decls'" and reads: "reads_alike calls calls' decls decls' s s'"
    and diff: "vcl_Diff calls = diffProjectVariable" "vcl_Diff calls' = diffProjectVariable"
    and same: "vcl_Noun calls' = vcl_Noun calls" "vcl_Kind calls' = vcl_Kind calls" "vcl_ID calls' = vcl_ID calls"
  shows "fst (plan_variables calls' r prune decls' s') = fst (plan_variables calls r prune decls s)"
  using reads variable_diffs_variant [OF decls] list_all2_Nil_iff [OF decls]
  by (auto simp: plan_variables_def reads_alike_def diff same split: prod.splits sum.splits)

lemma calls_of_kind:
  "vcl_Diff (project_variable_calls client pid) = diffProjectVariable" "vcl_Diff (group_variable_calls client gid) = diffProjectVariable"
  "vcl_Noun (project_variable_calls client pid) = ''variable''" "vcl_Noun (group_variable_calls client gid) = ''group variable''"
  "vcl_Kind (project_variable_calls client pid) = ''project''" "vcl_Kind (group_variable_calls client gid) = ''group''"
  "vcl_ID (project_variable_calls client pid) = pid" "vcl_ID (group_variable_calls client gid) = gid"
  by (simp_all add: project_variable_calls_def group_variable_calls_def Let_def diffGroupVariable_def fun_eq_iff)

text \<open>
  Property C10. Confidential values do not show in a plan (non-interference): when the declared and the live
  variables of two runs differ only in the values of confidential variables, and a live value equals
  a declared one in the one run exactly when it does in the other, then the two plans are the same,
  diffs, texts and all, for the variables of a project and for those of a group.
\<close>

theorem Variables_plan_hides_secrets:
  assumes "list_all2 decl_variant (variables_policy cfg) (variables_policy cfg')"
  shows "(reads_alike (project_variable_calls client (p_ID project)) (project_variable_calls client' (p_ID project))
        (variables_policy cfg) (variables_policy cfg') s s' \<longrightarrow>
      fst (Variables_Plan prune client' project cfg' s') = fst (Variables_Plan prune client project cfg s))
    \<and> (reads_alike (group_variable_calls client (g_ID g)) (group_variable_calls client' (g_ID g))
        (variables_policy cfg) (variables_policy cfg') s s' \<longrightarrow>
      fst (Variables_PlanGroup prune client' g cfg' s') = fst (Variables_PlanGroup prune client g cfg s))"
  unfolding Variables_Plan_def Variables_PlanGroup_def
  by (intro conjI impI plan_variables_alike [OF assms]) (simp_all add: calls_of_kind)

definition example_variable :: "string \<Rightarrow> variable_config" where
  "example_variable v =
     \<lparr>vc_Key = ''DEPLOY_TOKEN'', vc_Value = v, vc_VariableType = [], vc_Protected = Some True, vc_Masked = None, vc_Raw = None,
      vc_EnvironmentScope = [], vc_Description = []\<rparr>"

definition example_live :: "string \<Rightarrow> string \<Rightarrow> gl_variable" where
  "example_live scope v =
     \<lparr>gv_Key = ''DEPLOY_TOKEN'', gv_Value = v, gv_VariableType = ''env_var'', gv_Protected = False, gv_Masked = False,
      gv_Raw = False, gv_EnvironmentScope = scope, gv_Description = []\<rparr>"

definition variables_cfg :: "variable_config list \<Rightarrow> policy_config option" where
  "variables_cfg ds = Some (zero_policy_config\<lparr>cfg_Policies := zero_policies\<lparr>pol_Variables := ds\<rparr>\<rparr>)"

lemma variables_cfg [simp]: "variables_policy (variables_cfg ds) = ds"
  by (simp add: variables_cfg_def variables_policy_def)

definition variables_state :: "string \<Rightarrow> mock_state" where
  "variables_state v = snd (SetProjectVariable ''7'' (example_live ''*'' v) example_state)"

lemma variables_state_live:
  "inner (ms_projectVariables (variables_state v)) 7 = [(mock_varCompositeKey ''DEPLOY_TOKEN'' ''*'', example_live ''*'' v)]"
proof -
  have "resolveProjectIDLocked ''7'' example_state = Some 7" "inner (ms_projectVariables example_state) 7 = []" by code_simp+
  then show ?thesis by (simp add: variables_state_def SetProjectVariable_def example_live_def go_put_def)
qed

definition group_variables_state :: "string \<Rightarrow> mock_state" where
  "group_variables_state v = example_state\<lparr>ms_groupVariables :=
     [(7, [(mock_varCompositeKey ''DEPLOY_TOKEN'' ''*'', example_live ''*'' v)])]\<rparr>"

definition variables_group :: gl_group where
  "variables_group = \<lparr>g_ID = 7, g_Name = ''g'', g_Path = ''g'', g_FullPath = ''g'', g_ParentID = 0, g_Visibility = [],
     g_Description = [], g_WebURL = []\<rparr>"

lemma example_lists:
  "fst (vcl_List (project_variable_calls (mock_client err) 7) (variables_state v)) = Inr [Some (example_live ''*'' v)]"
  "fst (vcl_List (group_variable_calls (mock_client err) 7) (group_variables_state v)) = Inr [Some (example_live ''*'' v)]"
proof -
  show "fst (vcl_List (project_variable_calls (mock_client err) 7) (variables_state v)) = Inr [Some (example_live ''*'' v)]"
    by (simp add: project_variable_calls_def Let_def mock_list_variables in_int64_def variables_state_live)
  have "Atoi (fmt_d 7) = Some 7" by code_simp
  then have "resolveGroupIDLocked (fmt_d 7) (group_variables_state v) = Some 7" by (simp add: resolveGroupIDLocked_def)
  then show "fst (vcl_List (group_variable_calls (mock_client err) 7) (group_variables_state v)) = Inr [Some (example_live ''*'' v)]"
    by (simp add: group_variable_calls_def Let_def mock_variables_def first_page_of_def paginate_first_page
        State_ListGroupVariables_def group_variables_state_def inner_def)
qed

text \<open>A project and a group whose token was rotated both in the policy and on the server.\<close>

lemma Variables_plan_hides_secrets_witness:
  "fst (Variables_Plan False (mock_client (\<lambda>_ m. Err m)) example_project (variables_cfg [example_variable ''s3cret''])
       (variables_state ''old''))
   = fst (Variables_Plan False (mock_client (\<lambda>_ m. Err m)) example_project (variables_cfg [example_variable ''hunter2''])
       (variables_state ''other''))
   \<and> fst (Variables_PlanGroup False (mock_client (\<lambda>_ m. Err m)) variables_group (variables_cfg [example_variable ''s3cret''])
       (group_variables_state ''old''))
   = fst (Variables_PlanGroup False (mock_client (\<lambda>_ m. Err m)) variables_group (variables_cfg [example_variable ''hunter2''])
       (group_variables_state ''other''))"
proof -
  have sens: "isSensitiveVariable ''DEPLOY_TOKEN'' False" by code_simp
  have ids: "p_ID example_project = 7" "g_ID variables_group = 7" by (simp_all add: example_project_def variables_group_def)
  have decls: "list_all2 decl_variant (variables_policy (variables_cfg [example_variable v])) (variables_policy (variables_cfg [example_variable v']))" for v v'
    by (simp add: decl_variant_def example_variable_def sens)
  note alike = reads_alike_def example_lists live_variant_def same_match_def example_variable_def example_live_def sens
  show ?thesis
    using Variables_plan_hides_secrets [OF decls [of "''hunter2''" "''s3cret''"], of "mock_client (\<lambda>_ m. Err m)" example_project
        "mock_client (\<lambda>_ m. Err m)" "variables_state ''other''" "variables_state ''old''" False]
      Variables_plan_hides_secrets [OF decls [of "''hunter2''" "''s3cret''"], where client = "mock_client (\<lambda>_ m. Err m)" and g = variables_group
        and client' = "mock_client (\<lambda>_ m. Err m)" and s = "group_variables_state ''other''" and s' = "group_variables_state ''old''" and prune = False]
    unfolding ids by (auto simp: alike)
qed

text \<open>
  Pruning a group variable removes by key alone: on the mock server, removing an unmanaged variable
  of some environment scope deletes the variable of the same key with the default scope instead, when
  there is one (the managed one, say), and leaves the unmanaged variable where it was.
\<close>

theorem Variables_group_prune_hits_default_scope:
  assumes "in_int64 gid" and "gv_EnvironmentScope lv \<noteq> []" and "gv_EnvironmentScope lv \<noteq> ''*''"
    and "go_get (inner (ms_groupVariables st) gid) (mock_varCompositeKey (gv_Key lv) ''*'') = Some managed"
    and "go_get (inner (ms_groupVariables st) gid) (mock_varCompositeKey (gv_Key lv) (gv_EnvironmentScope lv)) = Some lv"
  shows "\<exists>st'. vcl_Remove (group_variable_calls (mock_client err) gid) lv st = (None, st')
    \<and> go_get (inner (ms_groupVariables st') gid) (mock_varCompositeKey (gv_Key lv) ''*'') = None
    \<and> go_get (inner (ms_groupVariables st') gid) (mock_varCompositeKey (gv_Key lv) (gv_EnvironmentScope lv)) = Some lv"
proof -
  have "mock_varCompositeKey (gv_Key lv) [] = mock_varCompositeKey (gv_Key lv) ''*''" by (simp add: mock_varCompositeKey_def)
  moreover have "mock_varCompositeKey (gv_Key lv) (gv_EnvironmentScope lv) \<noteq> mock_varCompositeKey (gv_Key lv) ''*''"
    using assms(2,3) by (simp add: mock_varCompositeKey_def)
  ultimately show ?thesis
    using assms(1,4,5) by (simp add: group_variable_calls_def mock_variables_def State_RemoveGroupVariable_def found_or_404_def
        resolve_group_number removed_variable_def Let_def)
qed

lemma Variables_group_prune_hits_default_scope_witness:
  "\<exists>st'. vcl_Remove (group_variable_calls (mock_client (\<lambda>_ m. Err m)) 5) (example_live ''staging'' ''x'')
      (NewState\<lparr>ms_groupVariables := [(5, [(''DEPLOY_TOKEN::*'', example_live ''*'' ''y''), (''DEPLOY_TOKEN::staging'', example_live ''staging'' ''x'')])]\<rparr>)
        = (None, st')
    \<and> go_get (inner (ms_groupVariables st') 5) (mock_varCompositeKey (gv_Key (example_live ''staging'' ''x'')) ''*'') = None
    \<and> go_get (inner (ms_groupVariables st') 5)
        (mock_varCompositeKey (gv_Key (example_live ''staging'' ''x'')) (gv_EnvironmentScope (example_live ''staging'' ''x'')))
      = Some (example_live ''staging'' ''x'')"
  by (rule Variables_group_prune_hits_default_scope)
    (simp_all add: in_int64_def example_live_def inner_def mock_varCompositeKey_def)

text \<open>
  Only the first hundred variables are read: a declared variable the server already has, but
  after the first hundred, is planned as a creation, whatever its value there.
\<close>

theorem Variables_plan_reads_first_page_only:
  assumes "governs project st" and "d \<in> set (variables_policy cfg)"
    and "v \<in> set (drop 100 (State_ListProjectVariables (fmt_d (p_ID project)) st))" and "live_key v = decl_key d"
    and "decl_key d \<notin> live_key ` set (take 100 (State_ListProjectVariables (fmt_d (p_ID project)) st))"
  shows "\<exists>pl. Variables_Plan prune (mock_client err) project cfg st = (Inr pl, st)
    \<and> pr_HasChanges pl \<and> create_variable_diff ''variable'' d \<in> set (pr_Diffs pl)"
proof -
  let ?lives = "map Some (take 100 (map snd (inner (ms_projectVariables st) (p_ID project))))"
  let ?ds = "variable_diffs ''variable'' diffProjectVariable prune ?lives (variables_policy cfg)"
  have num: "in_int64 (p_ID project)" using assms(1) by (simp add: governs_def)
  have "go_get (live_map ?lives) (decl_key d) = None"
    using assms(5) num by (simp add: live_map_def go_get_map_of_list_None State_ListProjectVariables_def resolve_project_number)
  then have mem: "create_variable_diff ''variable'' d \<in> set ?ds"
    using assms(2) by (force simp: variable_diffs_def Let_def declared_diffs_def)
  then have "?ds \<noteq> []" by auto
  then have "Variables_Plan prune (mock_client err) project cfg st =
      (Inr (changes_plan variables_name (project_resource project) ActionUpdate ?ds), st)"
    using assms(2) by (auto simp: Variables_Plan_def plan_variables_def project_variable_calls_def Let_def
        mock_list_variables [OF num] plan_of_diffs_def)
  then show ?thesis using mem \<open>?ds \<noteq> []\<close> by (simp add: changes_plan_def NewPlanResult_def split: prod.splits)
qed

definition numbered_variable :: "nat \<Rightarrow> gl_variable" where
  "numbered_variable i = (example_live ''*'' ''v'')\<lparr>gv_Key := CHR ''V'' # fmt_d (int i)\<rparr>"

definition full_state :: mock_state where
  "full_state = example_state\<lparr>ms_projectVariables :=
     [(7, map (\<lambda>i. (mock_varCompositeKey (gv_Key (numbered_variable i)) ''*'', numbered_variable i)) [0..<101])]\<rparr>"

lemma Variables_plan_reads_first_page_only_witness:
  "\<exists>pl. Variables_Plan False (mock_client (\<lambda>_ m. Err m)) example_project (variables_cfg [(example_variable ''v'')\<lparr>vc_Key := ''V100''\<rparr>])
      full_state = (Inr pl, full_state)
    \<and> pr_HasChanges pl \<and> create_variable_diff ''variable'' ((example_variable ''v'')\<lparr>vc_Key := ''V100''\<rparr>) \<in> set (pr_Diffs pl)"
proof (rule Variables_plan_reads_first_page_only)
  show "governs example_project full_state"
    using governs_example by (simp add: full_state_def)
  have list: "State_ListProjectVariables (fmt_d (p_ID example_project)) full_state = map numbered_variable [0..<101]"
    by (simp add: State_ListProjectVariables_def example_project_def resolve_project_number in_int64_def full_state_def inner_def o_def)
  show "numbered_variable 100 \<in> set (drop 100 (State_ListProjectVariables (fmt_d (p_ID example_project)) full_state))"
    unfolding list by (simp add: drop_map)
  show "live_key (numbered_variable 100) = decl_key ((example_variable ''v'')\<lparr>vc_Key := ''V100''\<rparr>)" by code_simp
  show "decl_key ((example_variable ''v'')\<lparr>vc_Key := ''V100''\<rparr>)
      \<notin> live_key ` set (take 100 (State_ListProjectVariables (fmt_d (p_ID example_project)) full_state))"
    unfolding list by code_simp
qed simp

end
