(* ===== verification/Members.thy ===== *)
theory Members
  imports Reconciler Mock_Server
begin

section \<open>Members audit\<close>

text \<open>
  \<^verbatim>\<open>internal/governance/members.go\<close> (order 100): an audit that reports violations of the member policy
  and changes nothing, so applying it succeeds with the findings of the plan and the findings stay.
  Dates are day numbers since 1970-01-01 in UTC; \<open>today\<close> is the clock reading.
\<close>

definition members_name :: string where
  "members_name = ''members''"

definition members_policy :: "policy_config option \<Rightarrow> members_config option" where
  "members_policy cfg = (case cfg of None \<Rightarrow> None | Some c \<Rightarrow> pol_Members (cfg_Policies c))"

subsection \<open>Dates\<close>

text \<open>\<^verbatim>\<open>Format("2006-01-02")\<close> of a day number, by the proleptic Gregorian calendar.\<close>

definition pad2 :: "int \<Rightarrow> string" where
  "pad2 n = (if n < 10 then ''0'' @ fmt_d n else fmt_d n)"

definition pad4 :: "int \<Rightarrow> string" where
  "pad4 n = replicate (4 - length (fmt_d n)) (CHR ''0'') @ fmt_d n"

definition format_date :: "int \<Rightarrow> string" where
  "format_date days =
     (let z = days + 719468;
          era = z div 146097;
          doe = z mod 146097;
          yoe = (doe - doe div 1460 + doe div 36524 - doe div 146096) div 365;
          doy = doe - (365 * yoe + yoe div 4 - yoe div 100);
          mp = (5 * doy + 2) div 153;
          d = doy - (153 * mp + 2) div 5 + 1;
          m = (if mp < 10 then mp + 3 else mp - 9);
          y = yoe + era * 400 + (if m \<le> 2 then 1 else 0)
      in pad4 y @ ''-'' @ pad2 m @ ''-'' @ pad2 d)"

subsection \<open>Violations\<close>

datatype violation_severity = SeverityCritical | SeverityHigh | SeverityMedium | SeverityLow

record member_violation =
  mv_Username :: string
  mv_AccessLevel :: int
  mv_IsDirect :: bool
  mv_Severity :: violation_severity
  mv_ViolationType :: string
  mv_Message :: string

type_synonym finding = "member_violation \<times> diff"

text \<open>A violation with the diff built next to it; \<open>build\<close> adds the field.\<close>

definition report ::
  "gl_member \<Rightarrow> bool \<Rightarrow> violation_severity \<Rightarrow> string \<Rightarrow> string \<Rightarrow> (diff_builder \<Rightarrow> diff_builder) \<Rightarrow> finding" where
  "report m direct sev vtype msg build =
     (\<lparr>mv_Username = gm_Username m, mv_AccessLevel = gm_AccessLevel m, mv_IsDirect = direct, mv_Severity = sev,
       mv_ViolationType = vtype, mv_Message = msg\<rparr>,
      Build (''member:'' @ gm_Username m) ActionAudit (SetDetails msg (build NewDiffBuilder)))"

definition deniedSet :: "members_config \<Rightarrow> string set" where
  "deniedSet p = ToLower ` set (mc_DeniedMembers p)"

definition denied_finding :: "members_config \<Rightarrow> gl_member \<Rightarrow> bool \<Rightarrow> finding list" where
  "denied_finding p m direct =
     (if ToLower (gm_Username m) \<in> deniedSet p
      then [report m direct SeverityCritical ''DENIED_MEMBER''
              (''User '' @ squote (gm_Username m) @ '' is present in denied_members policy'')
              (AddField ''denied_member'' (VStr (gm_Username m)) VNil ActionAudit)]
      else [])"

definition max_level_finding :: "members_config \<Rightarrow> gl_member \<Rightarrow> bool \<Rightarrow> finding list" where
  "max_level_finding p m direct =
     (case mc_MaxAccessLevel p of None \<Rightarrow> []
      | Some mx \<Rightarrow>
          (if gm_AccessLevel m > mx
           then [report m direct SeverityHigh ''OVER_PRIVILEGED''
                   (''User '' @ squote (gm_Username m) @ '' has access level '' @ fmt_d (gm_AccessLevel m)
                     @ '' exceeding max '' @ fmt_d mx)
                   (AddField ''access_level'' (VInt (gm_AccessLevel m)) (VInt mx) ActionAudit)]
           else []))"

definition min_level_finding :: "members_config \<Rightarrow> gl_member \<Rightarrow> bool \<Rightarrow> finding list" where
  "min_level_finding p m direct =
     (case mc_MinAccessLevel p of None \<Rightarrow> []
      | Some mn \<Rightarrow>
          (if gm_AccessLevel m < mn
           then [report m direct SeverityLow ''UNDER_PRIVILEGED''
                   (''User '' @ squote (gm_Username m) @ '' has access level '' @ fmt_d (gm_AccessLevel m)
                     @ '' below min '' @ fmt_d mn)
                   (AddField ''access_level'' (VInt (gm_AccessLevel m)) (VInt mn) ActionAudit)]
           else []))"

definition missing_expiry_finding :: "members_config \<Rightarrow> gl_member \<Rightarrow> finding list" where
  "missing_expiry_finding p m =
     (if mc_EnforceExpiresAt p = Some True \<and> gm_ExpiresAt m = None
      then [report m True SeverityMedium ''MISSING_EXPIRATION''
              (''Direct member '' @ squote (gm_Username m) @ '' has no expiration date configured'')
              (AddField ''expires_at'' VNil (VStr ''<configured_date>'') ActionAudit)]
      else [])"

definition late_expiry_finding :: "members_config \<Rightarrow> int \<Rightarrow> gl_member \<Rightarrow> finding list" where
  "late_expiry_finding p today m =
     (case (mc_MaxExpirationDays p, gm_ExpiresAt m) of
        (Some n, Some expDay) \<Rightarrow>
          (if expDay > today + n
           then [report m True SeverityMedium ''EXCESSIVE_EXPIRATION''
                   (''Direct member '' @ squote (gm_Username m) @ '' expiration '' @ format_date expDay
                     @ '' exceeds max '' @ fmt_d n @ '' days'')
                   (AddField ''expires_at'' (VStr (format_date expDay)) (VStr (format_date (today + n))) ActionAudit)]
           else [])
      | _ \<Rightarrow> [])"

definition audit_project_member :: "members_config \<Rightarrow> int \<Rightarrow> (int, gl_member) go_map \<Rightarrow> gl_member \<Rightarrow> finding list" where
  "audit_project_member p today directMap m =
     (let isDirect = go_get directMap (gm_ID m) \<noteq> None in
      denied_finding p m isDirect @ max_level_finding p m isDirect @ min_level_finding p m isDirect
      @ (if isDirect then missing_expiry_finding p m @ late_expiry_finding p today m else []))"

definition auditProjectMembers ::
  "'s gitlab_client \<Rightarrow> int \<Rightarrow> members_config \<Rightarrow> gl_project \<Rightarrow> 's \<Rightarrow> (member_violation list \<times> diff list) go_result \<times> 's" where
  "auditProjectMembers client today p project s =
     (case ListProjectMembers (cl_Members client) (p_ID project) s of
        (Inl err, s1) \<Rightarrow> (Inl (Wrapf (''failed to list direct project members for '' @ fmt_d (p_ID project)) err), s1)
      | (Inr directMembers, s1) \<Rightarrow>
          (case ListAllProjectMembers (cl_Members client) (p_ID project) s1 of
             (Inl err, s2) \<Rightarrow> (Inl (Wrapf (''failed to list all project members for '' @ fmt_d (p_ID project)) err), s2)
           | (Inr allMembers, s2) \<Rightarrow>
               (let fs = concat (map (audit_project_member p today (go_map_of_list gm_ID id (present directMembers)))
                           (present allMembers))
                in (Inr (map fst fs, map snd fs), s2))))"

definition auditGroupMembers ::
  "'s gitlab_client \<Rightarrow> members_config \<Rightarrow> gl_group \<Rightarrow> 's \<Rightarrow> (member_violation list \<times> diff list) go_result \<times> 's" where
  "auditGroupMembers client p g s =
     (case ListAllGroupMembers (cl_Members client) (g_ID g) s of
        (Inl err, s1) \<Rightarrow> (Inl (Wrapf (''failed to list all group members for '' @ fmt_d (g_ID g)) err), s1)
      | (Inr allMembers, s1) \<Rightarrow>
          (let fs = concat (map (\<lambda>m. denied_finding p m False) (present allMembers))
           in (Inr (map fst fs, map snd fs), s1)))"

subsection \<open>Planning and applying\<close>

definition plan_audit :: "resource \<Rightarrow> (member_violation list \<times> diff list) go_result \<times> 's \<Rightarrow> plan_result go_result \<times> 's" where
  "plan_audit r reply =
     (case reply of
        (Inl err, s) \<Rightarrow> (Inl err, s)
      | (Inr (violations, ds), s) \<Rightarrow>
          (Inr (if violations = [] \<and> ds = [] then noop_plan members_name r else changes_plan members_name r ActionAudit ds), s))"

definition Members_Plan :: "'s gitlab_client \<Rightarrow> int \<Rightarrow> gl_project \<Rightarrow> policy_config option \<Rightarrow> 's plan_fun" where
  "Members_Plan client today project cfg s =
     (case members_policy cfg of
        None \<Rightarrow> (Inr (noop_plan members_name (project_resource project)), s)
      | Some p \<Rightarrow> plan_audit (project_resource project) (auditProjectMembers client today p project s))"

definition Members_Apply :: "'s gitlab_client \<Rightarrow> int \<Rightarrow> gl_project \<Rightarrow> policy_config option \<Rightarrow> 's apply_fun" where
  "Members_Apply client today project cfg s =
     (case members_policy cfg of
        None \<Rightarrow> (noop_apply members_name (project_resource project), s)
      | Some p \<Rightarrow>
          apply_after_plan members_name (project_resource project) (Members_Plan client today project cfg)
            (\<lambda>pl s1. (ok_apply members_name (project_resource project) (pr_Action pl) (pr_Diffs pl), s1)) s)"

definition Members_PlanGroup :: "'s gitlab_client \<Rightarrow> gl_group \<Rightarrow> policy_config option \<Rightarrow> 's plan_fun" where
  "Members_PlanGroup client g cfg s =
     (case members_policy cfg of
        None \<Rightarrow> (Inr (noop_plan members_name (group_resource g)), s)
      | Some p \<Rightarrow> plan_audit (group_resource g) (auditGroupMembers client p g s))"

definition Members_ApplyGroup :: "'s gitlab_client \<Rightarrow> gl_group \<Rightarrow> policy_config option \<Rightarrow> 's apply_fun" where
  "Members_ApplyGroup client g cfg s =
     (case members_policy cfg of
        None \<Rightarrow> (noop_apply members_name (group_resource g), s)
      | Some p \<Rightarrow>
          apply_after_plan members_name (group_resource g) (Members_PlanGroup client g cfg)
            (\<lambda>pl s1. (ok_apply members_name (group_resource g) (pr_Action pl) (pr_Diffs pl), s1)) s)"

subsection \<open>What the audit checks\<close>

text \<open>A member that the policy accepts: not denied, within the levels, and a direct member with an early enough expiry.\<close>

definition member_compliant :: "members_config \<Rightarrow> int \<Rightarrow> bool \<Rightarrow> gl_member \<Rightarrow> bool" where
  "member_compliant p today direct m \<longleftrightarrow>
     \<not> list_ex (\<lambda>u. ToLower u = ToLower (gm_Username m)) (mc_DeniedMembers p)
   \<and> (case mc_MaxAccessLevel p of None \<Rightarrow> True | Some mx \<Rightarrow> gm_AccessLevel m \<le> mx)
   \<and> (case mc_MinAccessLevel p of None \<Rightarrow> True | Some mn \<Rightarrow> mn \<le> gm_AccessLevel m)
   \<and> (direct \<longrightarrow>
        (case gm_ExpiresAt m of
           None \<Rightarrow> mc_EnforceExpiresAt p \<noteq> Some True
         | Some expDay \<Rightarrow> (case mc_MaxExpirationDays p of None \<Rightarrow> True | Some n \<Rightarrow> expDay \<le> today + n)))"

lemma denied_finding_nil: "denied_finding p m direct = [] \<longleftrightarrow> \<not> list_ex (\<lambda>u. ToLower u = ToLower (gm_Username m)) (mc_DeniedMembers p)"
  by (auto simp: denied_finding_def deniedSet_def list_ex_iff image_iff)

lemma audit_project_member_nil:
  "audit_project_member p today dm m = [] \<longleftrightarrow> member_compliant p today (go_get dm (gm_ID m) \<noteq> None) m"
  by (auto simp: audit_project_member_def Let_def denied_finding_nil max_level_finding_def min_level_finding_def
      missing_expiry_finding_def late_expiry_finding_def member_compliant_def split: option.splits if_splits)

text \<open>Applying is planning: the same calls, and the findings of the plan.\<close>

lemma Members_Apply_state: "snd (Members_Apply client today project cfg s) = snd (Members_Plan client today project cfg s)"
  by (auto simp: Members_Apply_def Members_Plan_def apply_after_plan_def split: option.splits prod.splits sum.splits)

lemma Members_ApplyGroup_state: "snd (Members_ApplyGroup client g cfg s) = snd (Members_PlanGroup client g cfg s)"
  by (auto simp: Members_ApplyGroup_def Members_PlanGroup_def apply_after_plan_def split: option.splits prod.splits sum.splits)

lemma Members_Plan_mock_state: "snd (Members_Plan (mock_client err) today project cfg st) = st"
  by (simp add: Members_Plan_def plan_audit_def auditProjectMembers_def mock_members_def Let_def split: option.splits)

lemma Members_PlanGroup_mock_state: "snd (Members_PlanGroup (mock_client err) g cfg st) = st"
  by (simp add: Members_PlanGroup_def plan_audit_def auditGroupMembers_def mock_members_def Let_def split: option.splits)

subsection \<open>Properties\<close>

text \<open>The number of criteria a member fails.\<close>

definition member_faults :: "members_config \<Rightarrow> int \<Rightarrow> bool \<Rightarrow> gl_member \<Rightarrow> nat" where
  "member_faults p today direct m =
     of_bool (list_ex (\<lambda>u. ToLower u = ToLower (gm_Username m)) (mc_DeniedMembers p))
     + of_bool (\<exists>mx. mc_MaxAccessLevel p = Some mx \<and> mx < gm_AccessLevel m)
     + of_bool (\<exists>mn. mc_MinAccessLevel p = Some mn \<and> gm_AccessLevel m < mn)
     + of_bool (direct \<and> mc_EnforceExpiresAt p = Some True \<and> gm_ExpiresAt m = None)
     + of_bool (direct \<and> (\<exists>n expDay. mc_MaxExpirationDays p = Some n \<and> gm_ExpiresAt m = Some expDay \<and> today + n < expDay))"

lemma member_compliant_faults: "member_compliant p today direct m \<longleftrightarrow> member_faults p today direct m = 0"
  by (auto simp: member_compliant_def member_faults_def not_less split: option.splits)

lemma audit_project_member_length:
  "length (audit_project_member p today dm m) = member_faults p today (go_get dm (gm_ID m) \<noteq> None) m"
proof -
  have "length (denied_finding p m d) = of_bool (list_ex (\<lambda>u. ToLower u = ToLower (gm_Username m)) (mc_DeniedMembers p))" for d
    by (auto simp: denied_finding_def deniedSet_def list_ex_iff image_iff)
  moreover have "length (max_level_finding p m d) = of_bool (\<exists>mx. mc_MaxAccessLevel p = Some mx \<and> mx < gm_AccessLevel m)" for d
    by (auto simp: max_level_finding_def split: option.splits)
  moreover have "length (min_level_finding p m d) = of_bool (\<exists>mn. mc_MinAccessLevel p = Some mn \<and> gm_AccessLevel m < mn)" for d
    by (auto simp: min_level_finding_def split: option.splits)
  moreover have "length (late_expiry_finding p today m) =
      of_bool (\<exists>n expDay. mc_MaxExpirationDays p = Some n \<and> gm_ExpiresAt m = Some expDay \<and> today + n < expDay)"
    by (auto simp: late_expiry_finding_def split: option.splits)
  ultimately show ?thesis
    by (auto simp: audit_project_member_def member_faults_def missing_expiry_finding_def Let_def)
qed

text \<open>The two fields of the policy that the code never reads.\<close>

definition other_members_policy :: "members_config \<Rightarrow> members_config \<Rightarrow> bool" where
  "other_members_policy p q \<longleftrightarrow>
     (\<exists>allowed remove. q = p\<lparr>mc_AllowedMembers := allowed, mc_RemoveInheritedMaintainers := remove\<rparr>)"

lemma audit_project_member_other: "other_members_policy p q \<Longrightarrow> audit_project_member q today dm m = audit_project_member p today dm m"
  by (auto simp: other_members_policy_def audit_project_member_def denied_finding_def deniedSet_def max_level_finding_def
      min_level_finding_def missing_expiry_finding_def late_expiry_finding_def Let_def)

text \<open>
  Property C15. The audit of a project is exact for the criteria it checks, on the members it is given (direct members
  being those of the first listing): the plan has one diff per criterion that a listed member fails, so
  it has none exactly when every listed member complies, and applying reports the same diffs with
  success and calls nothing that the plan does not call. The criteria are the denied names, the two
  access levels and the expiry of direct members; \<^verbatim>\<open>allowed_members\<close> and \<^verbatim>\<open>remove_inherited_maintainers\<close>,
  which \<^verbatim>\<open>docs/configuration.md\<close> and \<^verbatim>\<open>model.go\<close> document, make no difference to a plan.
\<close>

theorem Members_audit_exact:
  assumes "members_policy cfg = Some p"
    and "ListProjectMembers (cl_Members client) (p_ID project) s = (Inr directs, s1)"
    and "ListAllProjectMembers (cl_Members client) (p_ID project) s1 = (Inr members, s2)"
  shows "\<exists>pl res. Members_Plan client today project cfg s = (Inr pl, s2)
    \<and> length (pr_Diffs pl) =
        (\<Sum>m \<leftarrow> present members. member_faults p today (gm_ID m \<in> gm_ID ` set (present directs)) m)
    \<and> (pr_HasChanges pl \<longleftrightarrow>
         \<not> list_all (\<lambda>m. member_compliant p today (gm_ID m \<in> gm_ID ` set (present directs)) m) (present members))
    \<and> Members_Apply client today project cfg s = ((res, None), s2) \<and> ar_Diffs res = pr_Diffs pl
    \<and> (\<forall>cfg' q. members_policy cfg' = Some q \<and> other_members_policy p q \<longrightarrow>
         Members_Plan client today project cfg' s = Members_Plan client today project cfg s)"
proof -
  let ?dm = "go_map_of_list gm_ID id (present directs)"
  define fs where "fs = concat (map (audit_project_member p today ?dm) (present members))"
  have direct: "go_get ?dm i \<noteq> None \<longleftrightarrow> i \<in> gm_ID ` set (present directs)" for i
    by (simp add: go_get_map_of_list_None)
  have count: "length fs = (\<Sum>m \<leftarrow> present members. member_faults p today (gm_ID m \<in> gm_ID ` set (present directs)) m)"
    unfolding fs_def length_concat map_map comp_def audit_project_member_length direct ..
  then have nil: "fs = [] \<longleftrightarrow> list_all (\<lambda>m. member_compliant p today (gm_ID m \<in> gm_ID ` set (present directs)) m) (present members)"
    by (simp add: member_compliant_faults list_all_iff sum_list_eq_0_iff flip: length_0_conv)
  have plan: "Members_Plan client today project cfg s =
      (Inr (if fs = [] then noop_plan members_name (project_resource project)
            else changes_plan members_name (project_resource project) ActionAudit (map snd fs)), s2)"
    using assms by (simp add: Members_Plan_def plan_audit_def auditProjectMembers_def Let_def fs_def)
  have other: "Members_Plan client today project cfg' s = Members_Plan client today project cfg s"
    if "members_policy cfg' = Some q" "other_members_policy p q" for cfg' q
  proof -
    have "audit_project_member q today dm = audit_project_member p today dm" for dm
      using audit_project_member_other [OF that(2)] by (simp add: fun_eq_iff)
    then show ?thesis using that(1) assms by (simp add: Members_Plan_def auditProjectMembers_def)
  qed
  show ?thesis
  proof (cases "fs = []")
    case True
    then have "Members_Apply client today project cfg s = (noop_apply members_name (project_resource project), s2)"
      using plan by (simp add: Members_Apply_def assms(1) apply_after_plan_def)
    then show ?thesis
      using True plan nil count other by (intro exI conjI) (auto simp: prod_eq_iff)
  next
    case False
    then have "Members_Apply client today project cfg s =
        (ok_apply members_name (project_resource project) (pr_Action (changes_plan members_name (project_resource project) ActionAudit (map snd fs)))
           (pr_Diffs (changes_plan members_name (project_resource project) ActionAudit (map snd fs))), s2)"
      using plan by (simp add: Members_Apply_def assms(1) apply_after_plan_def)
    then show ?thesis
      using False plan nil count other by (intro exI conjI) (auto simp: prod_eq_iff)
  qed
qed

definition example_members_policy :: members_config where
  "example_members_policy =
     \<lparr>mc_MinAccessLevel = None, mc_MaxAccessLevel = Some 40, mc_EnforceExpiresAt = Some True, mc_MaxExpirationDays = Some 90,
      mc_RemoveInheritedMaintainers = None, mc_AllowedMembers = [], mc_DeniedMembers = [''Mallory'']\<rparr>"

definition example_members_state :: mock_state where
  "example_members_state = example_state\<lparr>ms_projectMembers :=
     [(7, [(1, \<lparr>gm_ID = 1, gm_Username = ''mallory'', gm_AccessLevel = 50, gm_ExpiresAt = None\<rparr>)])]\<rparr>"

text \<open>
  A denied direct member above the maximal level and without an expiry: three diffs, whoever is allowed.
\<close>

definition example_members_cfg :: "members_config \<Rightarrow> policy_config option" where
  "example_members_cfg p = Some (zero_policy_config\<lparr>cfg_Policies := zero_policies\<lparr>pol_Members := Some p\<rparr>\<rparr>)"

lemma Members_audit_exact_witness:
  "\<exists>pl res. Members_Plan (mock_client (\<lambda>_ m. Err m)) 20000 example_project (example_members_cfg example_members_policy) example_members_state
      = (Inr pl, example_members_state)
    \<and> length (pr_Diffs pl) = 3 \<and> pr_HasChanges pl
    \<and> Members_Apply (mock_client (\<lambda>_ m. Err m)) 20000 example_project (example_members_cfg example_members_policy) example_members_state
      = ((res, None), example_members_state) \<and> ar_Diffs res = pr_Diffs pl
    \<and> Members_Plan (mock_client (\<lambda>_ m. Err m)) 20000 example_project
        (example_members_cfg (example_members_policy\<lparr>mc_AllowedMembers := [], mc_RemoveInheritedMaintainers := Some True\<rparr>)) example_members_state
      = (Inr pl, example_members_state)"
proof -
  let ?mallory = "\<lparr>gm_ID = 1, gm_Username = ''mallory'', gm_AccessLevel = 50, gm_ExpiresAt = None\<rparr> :: gl_member"
  have "first_page (State_ListProjectMembers (fmt_d (p_ID example_project)) example_members_state) = [Some ?mallory]" by code_simp
  then have lists: "ListProjectMembers (cl_Members (mock_client (\<lambda>_ m. Err m))) (p_ID example_project) example_members_state = (Inr [Some ?mallory], example_members_state)"
    "ListAllProjectMembers (cl_Members (mock_client (\<lambda>_ m. Err m))) (p_ID example_project) example_members_state = (Inr [Some ?mallory], example_members_state)"
    by (simp_all add: mock_members_def)
  have policy: "members_policy (example_members_cfg p) = Some p" for p by (simp add: example_members_cfg_def members_policy_def)
  have "list_ex (\<lambda>u. ToLower u = ToLower ''mallory'') [''Mallory'']" by code_simp
  then have three: "member_faults example_members_policy 20000 True ?mallory = 3"
    by (simp add: member_faults_def example_members_policy_def)
  then have bad: "\<not> member_compliant example_members_policy 20000 True ?mallory" by (simp add: member_compliant_faults)
  have other: "other_members_policy p (p\<lparr>mc_AllowedMembers := a, mc_RemoveInheritedMaintainers := r\<rparr>)" for p a r
    by (auto simp: other_members_policy_def)
  have present: "present [Some ?mallory] = [?mallory]" by simp
  obtain pl res where all: "Members_Plan (mock_client (\<lambda>_ m. Err m)) 20000 example_project (example_members_cfg example_members_policy) example_members_state = (Inr pl, example_members_state)"
    "length (pr_Diffs pl) = 3" "pr_HasChanges pl"
    "Members_Apply (mock_client (\<lambda>_ m. Err m)) 20000 example_project (example_members_cfg example_members_policy) example_members_state = ((res, None), example_members_state)"
    "ar_Diffs res = pr_Diffs pl"
    "\<forall>cfg' q. members_policy cfg' = Some q \<and> other_members_policy example_members_policy q \<longrightarrow>
       Members_Plan (mock_client (\<lambda>_ m. Err m)) 20000 example_project cfg' example_members_state
         = Members_Plan (mock_client (\<lambda>_ m. Err m)) 20000 example_project (example_members_cfg example_members_policy) example_members_state"
    using Members_audit_exact [OF policy [of example_members_policy] lists, of 20000] three bad by (elim exE conjE) (auto simp: present)
  then show ?thesis using policy other by metis
qed

end
