(* ===== verification/Webhooks.thy ===== *)
theory Webhooks
  imports Project_Reconcilers Mock_Facts
begin

section \<open>Webhooks\<close>

text \<open>
  \<^verbatim>\<open>internal/governance/webhooks.go\<close> (order 90): the declared hooks are matched to the listed ones by
  their normalised URL, missing ones are added, drifted ones edited and, in the pruning mode, the
  others deleted. \<^verbatim>\<open>url.Parse\<close> is a parameter: \<open>None\<close> is its error, otherwise it gives the path and
  how the URL prints with another path.
\<close>

record parsed_url =
  url_Path :: string
  url_String :: "string \<Rightarrow> string"

definition normalizeWebhookURL :: "(string \<Rightarrow> parsed_url option) \<Rightarrow> string \<Rightarrow> string" where
  "normalizeWebhookURL parse raw =
     (case parse (TrimSpace raw) of
        None \<Rightarrow> TrimRight (ToLower raw) ''/''
      | Some u \<Rightarrow> ToLower (url_String u (TrimRight (url_Path u) ''/'')))"

definition webhooks_name :: string where
  "webhooks_name = ''webhooks''"

definition webhooks_policy :: "policy_config option \<Rightarrow> webhook_config list" where
  "webhooks_policy cfg = (case cfg of None \<Rightarrow> [] | Some c \<Rightarrow> pol_Webhooks (cfg_Policies c))"

text \<open>The listed hooks by normalised URL: of two with the same one the last counts.\<close>

definition existingMap :: "(string \<Rightarrow> string) \<Rightarrow> gl_hook option list \<Rightarrow> (string, gl_hook) go_map" where
  "existingMap nf hooks = go_map_of_list (\<lambda>h. nf (gh_URL h)) id (present hooks)"

definition create_hook_diff :: "webhook_config \<Rightarrow> diff" where
  "create_hook_diff w =
     Build (''webhook:'' @ wh_URL w) ActionCreate
       (SetDetails (''Webhook '' @ wh_URL w @ '' to be created'')
         (AddField ''url'' VNil (VStr (wh_URL w)) ActionCreate NewDiffBuilder))"

definition update_hook_fields :: "webhook_config \<Rightarrow> gl_hook \<Rightarrow> diff_builder" where
  "update_hook_fields w h =
     add_if_declared ''push_events_branch_filter'' (gh_PushEventsBranchFilter h) (wh_PushEventsBranchFilter w)
     (Add (CompareBoolPtr ''enable_ssl_verification'' (gh_EnableSSLVerification h) (wh_EnableSSLVerification w))
     (Add (CompareBoolPtr ''releases_events'' (gh_ReleasesEvents h) (wh_ReleasesEvents w))
     (Add (CompareBoolPtr ''job_events'' (gh_JobEvents h) (wh_JobEvents w))
     (Add (CompareBoolPtr ''pipeline_events'' (gh_PipelineEvents h) (wh_PipelineEvents w))
     (Add (CompareBoolPtr ''issues_events'' (gh_IssuesEvents h) (wh_IssuesEvents w))
     (Add (CompareBoolPtr ''tag_push_events'' (gh_TagPushEvents h) (wh_TagPushEvents w))
     (Add (CompareBoolPtr ''merge_requests_events'' (gh_MergeRequestsEvents h) (wh_MergeRequestsEvents w))
     (Add (CompareBoolPtr ''push_events'' (gh_PushEvents h) (wh_PushEvents w)) NewDiffBuilder))))))))"

definition update_hook_diff :: "webhook_config \<Rightarrow> gl_hook \<Rightarrow> diff list" where
  "update_hook_diff w h =
     (let b = update_hook_fields w h in
      if Builder_HasChanges b
      then [Build (''webhook:'' @ fmt_d (gh_ID h)) ActionUpdate (SetDetails (''Webhook '' @ wh_URL w @ '' has drift'') b)]
      else [])"

definition prune_hook_diff :: "gl_hook \<Rightarrow> diff" where
  "prune_hook_diff h =
     Build (''webhook:'' @ fmt_d (gh_ID h)) ActionDelete
       (SetDetails (''Prune unmanaged webhook ID '' @ fmt_d (gh_ID h) @ '' ('' @ gh_URL h @ '')'')
         (AddField ''url'' (VStr (gh_URL h)) VNil ActionDelete NewDiffBuilder))"

text \<open>The IDs of the listed hooks some declared one matches.\<close>

definition matchedHookIDs :: "(string \<Rightarrow> string) \<Rightarrow> webhook_config list \<Rightarrow> gl_hook option list \<Rightarrow> int set" where
  "matchedHookIDs nf ws hooks =
     set (map gh_ID (List.map_filter (\<lambda>w. go_get (existingMap nf hooks) (nf (wh_URL w))) ws))"

definition unmatched_hooks :: "(string \<Rightarrow> string) \<Rightarrow> webhook_config list \<Rightarrow> gl_hook option list \<Rightarrow> gl_hook list" where
  "unmatched_hooks nf ws hooks = filter (\<lambda>h. gh_ID h \<notin> matchedHookIDs nf ws hooks) (present hooks)"

definition webhook_diffs ::
  "(string \<Rightarrow> string) \<Rightarrow> bool \<Rightarrow> webhook_config list \<Rightarrow> gl_hook option list \<Rightarrow> diff list" where
  "webhook_diffs nf prune ws hooks =
     concat (map (\<lambda>w. case go_get (existingMap nf hooks) (nf (wh_URL w)) of
                        None \<Rightarrow> [create_hook_diff w]
                      | Some h \<Rightarrow> update_hook_diff w h) ws)
     @ (if prune then map prune_hook_diff (unmatched_hooks nf ws hooks) else [])"

definition calculateWebhooksDiffs ::
  "(string \<Rightarrow> string) \<Rightarrow> bool \<Rightarrow> 's gitlab_client \<Rightarrow> webhook_config list \<Rightarrow> gl_project \<Rightarrow> 's \<Rightarrow> diff list go_result \<times> 's" where
  "calculateWebhooksDiffs nf prune client ws project s =
     (case ListProjectHooks (cl_Webhooks client) (p_ID project) s of
        (Inl err, s') \<Rightarrow> (Inl (Wrapf (''failed to list project webhooks for '' @ fmt_d (p_ID project)) err), s')
      | (Inr hooks, s') \<Rightarrow> (Inr (webhook_diffs nf prune ws hooks), s'))"

definition Webhooks_Plan ::
  "(string \<Rightarrow> parsed_url option) \<Rightarrow> bool \<Rightarrow> 's gitlab_client \<Rightarrow> gl_project \<Rightarrow> policy_config option \<Rightarrow> 's plan_fun" where
  "Webhooks_Plan parse prune client project cfg s =
     (let r = project_resource project; ws = webhooks_policy cfg in
      if ws = [] then (Inr (noop_plan webhooks_name r), s)
      else (case calculateWebhooksDiffs (normalizeWebhookURL parse) prune client ws project s of
              (Inl err, s') \<Rightarrow> (Inl err, s')
            | (Inr ds, s') \<Rightarrow> (Inr (plan_of_diffs webhooks_name r ActionUpdate ds), s')))"

definition hook_options_of :: "webhook_config \<Rightarrow> hook_options" where
  "hook_options_of w =
     \<lparr>ho_URL = wh_URL w, ho_PushEvents = wh_PushEvents w, ho_MergeRequestsEvents = wh_MergeRequestsEvents w,
      ho_TagPushEvents = wh_TagPushEvents w, ho_IssuesEvents = wh_IssuesEvents w, ho_PipelineEvents = wh_PipelineEvents w,
      ho_JobEvents = wh_JobEvents w, ho_ReleasesEvents = wh_ReleasesEvents w,
      ho_EnableSSLVerification = wh_EnableSSLVerification w,
      ho_PushEventsBranchFilter = str_ptr (wh_PushEventsBranchFilter w), ho_Token = str_ptr (wh_SecretToken w)\<rparr>"

text \<open>The first loop of \<^verbatim>\<open>Apply\<close>: the map is the one read at its start. An error comes with the action it failed in.\<close>

fun set_hooks ::
  "(string \<Rightarrow> string) \<Rightarrow> 's gitlab_client \<Rightarrow> int \<Rightarrow> (string, gl_hook) go_map \<Rightarrow> webhook_config list \<Rightarrow> 's
     \<Rightarrow> (action_type \<times> go_error) option \<times> 's" where
  "set_hooks nf client pid existing [] s = (None, s)"
| "set_hooks nf client pid existing (w # ws) s =
     (case go_get existing (nf (wh_URL w)) of
        None \<Rightarrow>
          (case AddProjectHook (cl_Webhooks client) pid (hook_options_of w) s of
             (Some err, s') \<Rightarrow>
               (Some (ActionCreate, Wrapf (''failed to add webhook '' @ wh_URL w @ '' to project '' @ fmt_d pid) err), s')
           | (None, s') \<Rightarrow> set_hooks nf client pid existing ws s')
      | Some h \<Rightarrow>
          (case EditProjectHook (cl_Webhooks client) pid (gh_ID h) (hook_options_of w) s of
             (Some err, s') \<Rightarrow>
               (Some (ActionUpdate, Wrapf (''failed to edit webhook '' @ fmt_d (gh_ID h) @ '' for project '' @ fmt_d pid) err), s')
           | (None, s') \<Rightarrow> set_hooks nf client pid existing ws s'))"

fun delete_hooks :: "'s gitlab_client \<Rightarrow> int \<Rightarrow> gl_hook list \<Rightarrow> 's \<Rightarrow> (action_type \<times> go_error) option \<times> 's" where
  "delete_hooks client pid [] s = (None, s)"
| "delete_hooks client pid (h # hs) s =
     (case DeleteProjectHook (cl_Webhooks client) pid (gh_ID h) s of
        (Some err, s') \<Rightarrow> (Some (ActionDelete, Wrapf (''failed to delete unmanaged webhook '' @ fmt_d (gh_ID h)) err), s')
      | (None, s') \<Rightarrow> delete_hooks client pid hs s')"

definition change_hooks ::
  "(string \<Rightarrow> string) \<Rightarrow> bool \<Rightarrow> 's gitlab_client \<Rightarrow> gl_project \<Rightarrow> webhook_config list \<Rightarrow> plan_result \<Rightarrow> 's apply_fun" where
  "change_hooks nf prune client project ws pl s =
     (let r = project_resource project; pid = p_ID project in
      case ListProjectHooks (cl_Webhooks client) pid s of
        (Inl err, s1) \<Rightarrow>
          (let e = Wrapf (''failed to list project hooks for '' @ fmt_d pid) err
           in (failed_apply webhooks_name r ActionUpdate (pr_Diffs pl) e e, s1))
      | (Inr hooks, s1) \<Rightarrow>
          (case set_hooks nf client pid (existingMap nf hooks) ws s1 of
             (Some (a, e), s2) \<Rightarrow> (failed_apply webhooks_name r a (pr_Diffs pl) e e, s2)
           | (None, s2) \<Rightarrow>
               (case (if prune then delete_hooks client pid (unmatched_hooks nf ws hooks) s2 else (None, s2)) of
                  (Some (a, e), s3) \<Rightarrow> (failed_apply webhooks_name r a (pr_Diffs pl) e e, s3)
                | (None, s3) \<Rightarrow> (ok_apply webhooks_name r ActionUpdate (pr_Diffs pl), s3))))"

definition Webhooks_Apply ::
  "(string \<Rightarrow> parsed_url option) \<Rightarrow> bool \<Rightarrow> 's gitlab_client \<Rightarrow> gl_project \<Rightarrow> policy_config option \<Rightarrow> 's apply_fun" where
  "Webhooks_Apply parse prune client project cfg s =
     (let r = project_resource project; ws = webhooks_policy cfg in
      if ws = [] then (noop_apply webhooks_name r, s)
      else apply_after_plan webhooks_name r (Webhooks_Plan parse prune client project cfg)
             (change_hooks (normalizeWebhookURL parse) prune client project ws) s)"

definition Webhooks_PlanGroup :: "gl_group \<Rightarrow> 's plan_fun" where
  "Webhooks_PlanGroup g s =
     (Inr (skipped_plan webhooks_name (group_resource g) ''Webhooks policy is not applicable to groups''), s)"

definition Webhooks_ApplyGroup :: "gl_group \<Rightarrow> 's apply_fun" where
  "Webhooks_ApplyGroup g s =
     (skipped_apply webhooks_name (group_resource g) ''Webhooks policy is not applicable to groups'', s)"

subsection \<open>On the mock server\<close>

definition hooks_of :: "int \<Rightarrow> mock_state \<Rightarrow> (int, gl_hook) go_map" where
  "hooks_of pid st = inner (ms_projectHooks st) pid"

text \<open>The hook a declared URL is matched to.\<close>

definition live_hook :: "(string \<Rightarrow> string) \<Rightarrow> string \<Rightarrow> (int, gl_hook) go_map \<Rightarrow> gl_hook option" where
  "live_hook nf u m = latest (\<lambda>h. nf (gh_URL h) = u) (map snd m)"

definition hooks_keyed :: "int \<Rightarrow> mock_state \<Rightarrow> bool" where
  "hooks_keyed pid st \<longleftrightarrow> go_map_ok (hooks_of pid st)
     \<and> (\<forall>i h. (i, h) \<in> set (hooks_of pid st) \<longrightarrow> gh_ID h = i \<and> i < ms_nextHookID st)"

text \<open>
  What it means that a hook conforms to its declaration: every field the policy declares has the declared
  value. The secret token is write-only and not part of it.
\<close>

definition hook_conforms :: "webhook_config \<Rightarrow> gl_hook \<Rightarrow> bool" where
  "hook_conforms w h \<longleftrightarrow>
     wh_PushEvents w \<in> {None, Some (gh_PushEvents h)}
   \<and> wh_MergeRequestsEvents w \<in> {None, Some (gh_MergeRequestsEvents h)}
   \<and> wh_TagPushEvents w \<in> {None, Some (gh_TagPushEvents h)}
   \<and> wh_IssuesEvents w \<in> {None, Some (gh_IssuesEvents h)}
   \<and> wh_PipelineEvents w \<in> {None, Some (gh_PipelineEvents h)}
   \<and> wh_JobEvents w \<in> {None, Some (gh_JobEvents h)}
   \<and> wh_ReleasesEvents w \<in> {None, Some (gh_ReleasesEvents h)}
   \<and> wh_EnableSSLVerification w \<in> {None, Some (gh_EnableSSLVerification h)}
   \<and> wh_PushEventsBranchFilter w \<in> {[], gh_PushEventsBranchFilter h}"

lemma update_hook_diff_iff: "update_hook_diff w h = [] \<longleftrightarrow> hook_conforms w h"
proof -
  have "(case CompareBoolPtr f l d of None \<Rightarrow> [] | Some x \<Rightarrow> [x]) = [] \<longleftrightarrow> d \<in> {None, Some l}" for f l d
    by (auto simp: CompareBoolPtr_def split: option.splits)
  then show ?thesis
    by (auto simp: update_hook_diff_def update_hook_fields_def Builder_HasChanges_def add_if_declared_def hook_conforms_def Let_def)
qed

lemma set_when_declared [simp]: "d \<in> {None, Some (set_when d x)}"
  by (cases d) (simp_all add: set_when_def)

lemma set_when_str_ptr [simp]: "v \<in> {[], set_when (str_ptr v) x}"
  by (simp add: set_when_def str_ptr_def)

lemma hook_conforms_set [simp]:
  "hook_conforms w (edit_hook (hook_options_of w) h)"
  "hook_conforms w (hook_of_options (hook_options_of w)\<lparr>gh_ID := i\<rparr>)"
  by (simp_all add: hook_conforms_def edit_hook_def hook_of_options_def hook_options_of_def del: insert_iff)

lemma gh_ID_edit [simp]: "gh_ID (edit_hook o' h) = gh_ID h"
  by (simp add: edit_hook_def)

text \<open>The declared webhooks with other secret tokens.\<close>

definition with_tokens :: "(webhook_config \<Rightarrow> string) \<Rightarrow> policy_config \<Rightarrow> policy_config" where
  "with_tokens f c =
     c\<lparr>cfg_Policies := (cfg_Policies c)\<lparr>pol_Webhooks := map (\<lambda>w. w\<lparr>wh_SecretToken := f w\<rparr>) (pol_Webhooks (cfg_Policies c))\<rparr>\<rparr>"

lemma webhook_diffs_tokens:
  "webhook_diffs nf prune (map (\<lambda>w. w\<lparr>wh_SecretToken := f w\<rparr>) ws) hooks = webhook_diffs nf prune ws hooks"
proof -
  have "create_hook_diff (w\<lparr>wh_SecretToken := t\<rparr>) = create_hook_diff w"
    "update_hook_diff (w\<lparr>wh_SecretToken := t\<rparr>) h = update_hook_diff w h" for w t h
    by (simp_all add: create_hook_diff_def update_hook_diff_def update_hook_fields_def Let_def)
  moreover have "matchedHookIDs nf (map (\<lambda>w. w\<lparr>wh_SecretToken := f w\<rparr>) ws) hooks = matchedHookIDs nf ws hooks"
    by (simp add: matchedHookIDs_def List.map_filter_def filter_map comp_def)
  ultimately show ?thesis
    by (simp add: webhook_diffs_def unmatched_hooks_def comp_def cong: option.case_cong)
qed

lemma Webhooks_Plan_tokens:
  "Webhooks_Plan parse prune client project (map_option (with_tokens f) cfg) = Webhooks_Plan parse prune client project cfg"
proof
  fix s
  have "webhooks_policy (map_option (with_tokens f) cfg) = map (\<lambda>w. w\<lparr>wh_SecretToken := f w\<rparr>) (webhooks_policy cfg)"
    by (cases cfg) (simp_all add: webhooks_policy_def with_tokens_def)
  then show "Webhooks_Plan parse prune client project (map_option (with_tokens f) cfg) s = Webhooks_Plan parse prune client project cfg s"
    by (cases "ListProjectHooks (cl_Webhooks client) (p_ID project) s")
      (simp add: Webhooks_Plan_def calculateWebhooksDiffs_def webhook_diffs_tokens Let_def split: sum.split)
qed

lemma list_hooks_mock:
  "in_int64 pid \<Longrightarrow> ListProjectHooks (mock_webhooks err) pid st = (Inr (first_page (map snd (hooks_of pid st))), st)"
  by (simp add: mock_webhooks_def State_ListProjectHooks_def resolve_project_number hooks_of_def)

text \<open>A successful call of the loop: what it does to the hooks of the project.\<close>

lemma add_hook_mock:
  assumes "in_int64 pid" and keyed: "hooks_keyed pid st"
  shows "\<exists>st'. AddProjectHook (mock_webhooks err) pid o' st = (None, st')
    \<and> hooks_of pid st' = hooks_of pid st @ [(ms_nextHookID st, hook_of_options o'\<lparr>gh_ID := ms_nextHookID st\<rparr>)]
    \<and> hooks_keyed pid st' \<and> governs project st' = governs project st"
proof -
  let ?n = "ms_nextHookID st" and ?h = "hook_of_options o'\<lparr>gh_ID := ms_nextHookID st\<rparr>"
  have ok: "go_map_ok (hooks_of pid st)" using keyed by (simp add: hooks_keyed_def)
  have "?n \<notin> fst ` set (hooks_of pid st)" using keyed by (fastforce simp: hooks_keyed_def)
  with ok have fresh: "go_get (hooks_of pid st) ?n = None" by (simp add: map_of_eq_None_iff)
  let ?st = "st\<lparr>ms_nextHookID := ?n + 1, ms_projectHooks := put_inner pid ?n ?h (ms_projectHooks st)\<rparr>"
  have "AddProjectHook (mock_webhooks err) pid o' st = (None, ?st)"
    by (simp add: mock_webhooks_def State_AddProjectHook_def resolve_project_number assms(1) found_or_404_def
        hook_of_options_def Let_def)
  moreover have hooks: "hooks_of pid ?st = hooks_of pid st @ [(?n, ?h)]"
    using fresh by (simp add: hooks_of_def go_put_fresh)
  moreover have "hooks_keyed pid ?st"
    using keyed go_map_ok_append [OF ok fresh] by (fastforce simp: hooks_keyed_def hooks intro: less_imp_le)
  ultimately show ?thesis by (intro exI [of _ ?st]) simp
qed

lemma edit_hook_mock:
  assumes "in_int64 pid" and keyed: "hooks_keyed pid st" and mem: "(k, h) \<in> set (hooks_of pid st)"
  shows "\<exists>st'. EditProjectHook (mock_webhooks err) pid k o' st = (None, st')
    \<and> hooks_of pid st' = map (\<lambda>(i, x). (i, if i = k then edit_hook o' x else x)) (hooks_of pid st)
    \<and> hooks_keyed pid st' \<and> governs project st' = governs project st"
proof -
  have ok: "go_map_ok (hooks_of pid st)" using keyed by (simp add: hooks_keyed_def)
  then have get: "go_get (hooks_of pid st) k = Some h" using mem by (simp add: go_get_mem)
  let ?st = "st\<lparr>ms_projectHooks := put_inner pid k (edit_hook o' h) (ms_projectHooks st)\<rparr>"
  have "EditProjectHook (mock_webhooks err) pid k o' st = (None, ?st)"
    using get by (simp add: mock_webhooks_def State_EditProjectHook_def resolve_project_number assms(1) found_or_404_def
        hooks_of_def)
  moreover have hooks: "hooks_of pid ?st = map (\<lambda>(i, x). (i, if i = k then edit_hook o' x else x)) (hooks_of pid st)"
  proof -
    have "x = h" if "(k, x) \<in> set (hooks_of pid st)" for x
      using that get ok by (simp add: go_get_mem [symmetric])
    then have "map (\<lambda>(i, x). (i, if i = k then edit_hook o' h else x)) (hooks_of pid st)
      = map (\<lambda>(i, x). (i, if i = k then edit_hook o' x else x)) (hooks_of pid st)"
      by (intro map_cong) auto
    then show ?thesis using go_put_in_place [OF ok] get by (simp add: hooks_of_def)
  qed
  moreover have "hooks_keyed pid ?st"
    using keyed by (fastforce simp: hooks_keyed_def hooks go_map_ok_def comp_def case_prod_unfold)
  ultimately show ?thesis by (intro exI [of _ ?st]) simp
qed

text \<open>What a run of the first loop leaves, relative to the state it started from.\<close>

definition hook_ids :: "int \<Rightarrow> mock_state \<Rightarrow> int set" where
  "hook_ids pid st = fst ` set (hooks_of pid st)"

definition hooks_set :: "(string \<Rightarrow> string) \<Rightarrow> int \<Rightarrow> webhook_config list \<Rightarrow> mock_state \<Rightarrow> mock_state \<Rightarrow> bool" where
  "hooks_set nf pid ws st st' \<longleftrightarrow>
     hooks_keyed pid st'
     \<and> length (hooks_of pid st') =
         length (hooks_of pid st) + length (filter (\<lambda>w. live_hook nf (nf (wh_URL w)) (hooks_of pid st) = None) ws)
     \<and> (\<forall>w \<in> set ws. \<exists>h. live_hook nf (nf (wh_URL w)) (hooks_of pid st') = Some h \<and> hook_conforms w h
          \<and> (case live_hook nf (nf (wh_URL w)) (hooks_of pid st) of Some h0 \<Rightarrow> gh_ID h = gh_ID h0 | None \<Rightarrow> gh_ID h \<notin> hook_ids pid st))
     \<and> (\<forall>u. u \<notin> (\<lambda>w. nf (wh_URL w)) ` set ws \<longrightarrow> live_hook nf u (hooks_of pid st') = live_hook nf u (hooks_of pid st))
     \<and> hook_ids pid st \<subseteq> hook_ids pid st'
     \<and> (\<forall>i h. (i, h) \<in> set (hooks_of pid st') \<longrightarrow> i \<in> hook_ids pid st
          \<or> (\<exists>w \<in> set ws. live_hook nf (nf (wh_URL w)) (hooks_of pid st') = Some h))"

lemma hooks_setD:
  "hooks_set nf pid ws st st' \<Longrightarrow> w \<in> set ws \<Longrightarrow>
     \<exists>h. live_hook nf (nf (wh_URL w)) (hooks_of pid st') = Some h \<and> hook_conforms w h
       \<and> (case live_hook nf (nf (wh_URL w)) (hooks_of pid st) of Some h0 \<Rightarrow> gh_ID h = gh_ID h0 | None \<Rightarrow> gh_ID h \<notin> hook_ids pid st)"
  by (simp add: hooks_set_def)

lemma live_hook_add:
  "live_hook nf u (m @ [(i, h)]) = (if nf (gh_URL h) = u then Some h else live_hook nf u m)"
  by (simp add: live_hook_def latest_append)

lemma live_hook_edit:
  assumes keyed: "\<And>i h. (i, h) \<in> set m \<Longrightarrow> gh_ID h = i"
    and url: "\<And>h. (k, h) \<in> set m \<Longrightarrow> nf (gh_URL (f h)) = nf (gh_URL h)"
  shows "live_hook nf u (map (\<lambda>(i, x). (i, if i = k then f x else x)) m) =
    map_option (\<lambda>x. if gh_ID x = k then f x else x) (live_hook nf u m)"
proof -
  have "map snd (map (\<lambda>(i, x). (i, if i = k then f x else x)) m) = map (\<lambda>x. if gh_ID x = k then f x else x) (map snd m)"
    using keyed by (auto intro!: map_cong)
  then show ?thesis unfolding live_hook_def
    by (simp only:) (rule latest_map, use keyed url in force)
qed

lemma live_hook_mem: "live_hook nf u m = Some h \<Longrightarrow> \<exists>i. (i, h) \<in> set m \<and> nf (gh_URL h) = u"
  by (force simp: live_hook_def dest!: latest_SomeD)

lemma hooks_keyedD:
  assumes "hooks_keyed pid st" and "(i, h) \<in> set (hooks_of pid st)"
  shows "gh_ID h = i" "i < ms_nextHookID st" "(i, h') \<in> set (hooks_of pid st) \<Longrightarrow> h' = h"
proof -
  show "gh_ID h = i" "i < ms_nextHookID st" using assms by (auto simp: hooks_keyed_def)
  show "h' = h" if "(i, h') \<in> set (hooks_of pid st)"
    using assms that by (metis go_get_mem hooks_keyed_def option.inject)
qed

lemma hooks_set_add:
  assumes keyed: "hooks_keyed pid st" "hooks_keyed pid st1" and none: "live_hook nf (nf (wh_URL w)) (hooks_of pid st) = None"
    and hooks: "hooks_of pid st1 = hooks_of pid st @ [(ms_nextHookID st, hook_of_options (hook_options_of w)\<lparr>gh_ID := ms_nextHookID st\<rparr>)]"
  shows "hooks_set nf pid [w] st st1"
proof -
  have url: "gh_URL (hook_of_options (hook_options_of w)) = wh_URL w" by (simp add: hook_of_options_def hook_options_of_def)
  have "ms_nextHookID st \<notin> hook_ids pid st" using hooks_keyedD(2) [OF keyed(1)] by (force simp: hook_ids_def)
  moreover have "i \<in> hook_ids pid st" if "(i, h) \<in> set (hooks_of pid st)" for i h
    using that by (force simp: hook_ids_def)
  ultimately show ?thesis
    using keyed none by (auto simp: hooks_set_def hooks live_hook_add url) (auto simp: hook_ids_def hooks)
qed

lemma hooks_set_edit:
  assumes keyed: "hooks_keyed pid st" "hooks_keyed pid st1" and some: "live_hook nf (nf (wh_URL w)) (hooks_of pid st) = Some h"
    and hooks: "hooks_of pid st1 =
      map (\<lambda>(i, x). (i, if i = gh_ID h then edit_hook (hook_options_of w) x else x)) (hooks_of pid st)"
  shows "hooks_set nf pid [w] st st1"
proof -
  let ?e = "edit_hook (hook_options_of w)"
  have url: "gh_URL (?e x) = wh_URL w" for x by (simp add: edit_hook_def hook_options_of_def)
  obtain i where i: "(i, h) \<in> set (hooks_of pid st)" and norm: "nf (gh_URL h) = nf (wh_URL w)"
    using live_hook_mem [OF some] by blast
  have id: "gh_ID h = i" using hooks_keyedD(1) [OF keyed(1) i] .
  have live: "live_hook nf u (hooks_of pid st1) =
      map_option (\<lambda>x. if gh_ID x = gh_ID h then ?e x else x) (live_hook nf u (hooks_of pid st))" for u
    unfolding hooks
  proof (rule live_hook_edit)
    show "gh_ID x = j" if "(j, x) \<in> set (hooks_of pid st)" for j x using hooks_keyedD(1) [OF keyed(1) that] .
    show "nf (gh_URL (?e x)) = nf (gh_URL x)" if "(gh_ID h, x) \<in> set (hooks_of pid st)" for x
      using hooks_keyedD(3) [OF keyed(1) i, of x] that norm by (simp add: url id)
  qed
  have other: "live_hook nf u (hooks_of pid st1) = live_hook nf u (hooks_of pid st)" if "u \<noteq> nf (wh_URL w)" for u
  proof (cases "live_hook nf u (hooks_of pid st)")
    case (Some x)
    obtain j where j: "(j, x) \<in> set (hooks_of pid st)" "nf (gh_URL x) = u" using live_hook_mem [OF Some] by blast
    have "gh_ID x \<noteq> gh_ID h"
      using j i that norm id hooks_keyedD(1) [OF keyed(1) j(1)] hooks_keyedD(3) [OF keyed(1) i, of x] by metis
    with Some show ?thesis by (simp add: live)
  qed (simp add: live)
  have ids: "hook_ids pid st1 = hook_ids pid st" by (force simp: hook_ids_def hooks)
  have len: "length (hooks_of pid st1) = length (hooks_of pid st)" by (simp add: hooks)
  have known: "j \<in> hook_ids pid st" if "(j, x) \<in> set (hooks_of pid st1)" for j x
    using that ids by (force simp: hook_ids_def)
  show ?thesis
    using keyed(2) some other known by (simp add: hooks_set_def live [of "nf (wh_URL w)"] ids len)
qed

lemma hooks_set_Cons:
  assumes one: "hooks_set nf pid [w] st st1" and rest: "hooks_set nf pid ws st1 st2"
    and fresh: "nf (wh_URL w) \<notin> (\<lambda>w. nf (wh_URL w)) ` set ws"
  shows "hooks_set nf pid (w # ws) st st2"
proof -
  have same: "live_hook nf (nf (wh_URL v)) (hooks_of pid st1) = live_hook nf (nf (wh_URL v)) (hooks_of pid st)" if "v \<in> set ws" for v
  proof -
    have "nf (wh_URL v) \<noteq> nf (wh_URL w)" using fresh that by (metis imageI)
    then have "nf (wh_URL v) \<notin> (\<lambda>w. nf (wh_URL w)) ` set [w]" by simp
    with one show ?thesis unfolding hooks_set_def by blast
  qed
  have first: "live_hook nf (nf (wh_URL w)) (hooks_of pid st2) = live_hook nf (nf (wh_URL w)) (hooks_of pid st1)"
    using rest fresh by (simp add: hooks_set_def)
  have filt: "filter (\<lambda>w. live_hook nf (nf (wh_URL w)) (hooks_of pid st1) = None) ws
      = filter (\<lambda>w. live_hook nf (nf (wh_URL w)) (hooks_of pid st) = None) ws"
    using same by (intro filter_cong) auto
  have sub: "hook_ids pid st \<subseteq> hook_ids pid st1" "hook_ids pid st1 \<subseteq> hook_ids pid st2"
    using one rest by (simp_all add: hooks_set_def)
  show ?thesis unfolding hooks_set_def
  proof (intro conjI)
    show "hooks_keyed pid st2" using rest by (simp add: hooks_set_def)
    show "length (hooks_of pid st2) = length (hooks_of pid st)
        + length (filter (\<lambda>w. live_hook nf (nf (wh_URL w)) (hooks_of pid st) = None) (w # ws))"
      using one rest by (simp add: hooks_set_def filt split: if_splits)
    show "\<forall>v \<in> set (w # ws). \<exists>h. live_hook nf (nf (wh_URL v)) (hooks_of pid st2) = Some h \<and> hook_conforms v h
        \<and> (case live_hook nf (nf (wh_URL v)) (hooks_of pid st) of Some h0 \<Rightarrow> gh_ID h = gh_ID h0 | None \<Rightarrow> gh_ID h \<notin> hook_ids pid st)"
    proof
      fix v assume "v \<in> set (w # ws)"
      then consider "v = w" | "v \<in> set ws" by auto
      then show "\<exists>h. live_hook nf (nf (wh_URL v)) (hooks_of pid st2) = Some h \<and> hook_conforms v h
        \<and> (case live_hook nf (nf (wh_URL v)) (hooks_of pid st) of Some h0 \<Rightarrow> gh_ID h = gh_ID h0 | None \<Rightarrow> gh_ID h \<notin> hook_ids pid st)"
      proof cases
        case 1
        with one first show ?thesis by (simp add: hooks_set_def)
      next
        case 2
        with rest obtain h where "live_hook nf (nf (wh_URL v)) (hooks_of pid st2) = Some h" "hook_conforms v h"
          "case live_hook nf (nf (wh_URL v)) (hooks_of pid st1) of Some h0 \<Rightarrow> gh_ID h = gh_ID h0 | None \<Rightarrow> gh_ID h \<notin> hook_ids pid st1"
          by (auto simp: hooks_set_def)
        with same [OF 2] sub show ?thesis by (auto split: option.splits)
      qed
    qed
    show "\<forall>u. u \<notin> (\<lambda>w. nf (wh_URL w)) ` set (w # ws) \<longrightarrow> live_hook nf u (hooks_of pid st2) = live_hook nf u (hooks_of pid st)"
      using one rest by (simp add: hooks_set_def)
    show "hook_ids pid st \<subseteq> hook_ids pid st2" using sub by blast
    show "\<forall>i h. (i, h) \<in> set (hooks_of pid st2) \<longrightarrow> i \<in> hook_ids pid st
        \<or> (\<exists>v \<in> set (w # ws). live_hook nf (nf (wh_URL v)) (hooks_of pid st2) = Some h)"
    proof (intro allI impI)
      fix i h assume mem: "(i, h) \<in> set (hooks_of pid st2)"
      show "i \<in> hook_ids pid st \<or> (\<exists>v \<in> set (w # ws). live_hook nf (nf (wh_URL v)) (hooks_of pid st2) = Some h)"
      proof (cases "i \<in> hook_ids pid st1")
        case False
        with mem rest have "\<exists>v \<in> set ws. live_hook nf (nf (wh_URL v)) (hooks_of pid st2) = Some h"
          unfolding hooks_set_def by blast
        then show ?thesis by auto
      next
        case True
        then obtain h1 where h1: "(i, h1) \<in> set (hooks_of pid st1)" by (auto simp: hook_ids_def)
        have keyed: "hooks_keyed pid st1" "hooks_keyed pid st2" using one rest by (simp_all add: hooks_set_def)
        from one h1 have "i \<in> hook_ids pid st \<or> live_hook nf (nf (wh_URL w)) (hooks_of pid st1) = Some h1"
          by (auto simp: hooks_set_def)
        then show ?thesis
        proof
          assume "live_hook nf (nf (wh_URL w)) (hooks_of pid st1) = Some h1"
          then have live: "live_hook nf (nf (wh_URL w)) (hooks_of pid st2) = Some h1" by (simp add: first)
          then obtain j where j: "(j, h1) \<in> set (hooks_of pid st2)" using live_hook_mem by blast
          have "j = i" using hooks_keyedD(1) [OF keyed(1) h1] hooks_keyedD(1) [OF keyed(2) j] by simp
          then have "h1 = h" using hooks_keyedD(3) [OF keyed(2) mem] j by simp
          with live show ?thesis by simp
        qed simp
      qed
    qed
  qed
qed

lemma hooks_set_Nil: "hooks_keyed pid st \<Longrightarrow> hooks_set nf pid [] st st"
  by (force simp: hooks_set_def hook_ids_def)

text \<open>The first loop succeeds and sets every declared hook.\<close>

lemma set_hooks_mock:
  assumes pid: "in_int64 pid" and "hooks_keyed pid st" and "distinct (map (\<lambda>w. nf (wh_URL w)) ws)"
    and "\<And>w. w \<in> set ws \<Longrightarrow> go_get ex (nf (wh_URL w)) = live_hook nf (nf (wh_URL w)) (hooks_of pid st)"
  shows "\<exists>st'. set_hooks nf (mock_client err) pid ex ws st = (None, st') \<and> hooks_set nf pid ws st st'
    \<and> governs project st' = governs project st"
  using assms(2-)
proof (induction ws arbitrary: st)
  case Nil
  then show ?case by (simp add: hooks_set_Nil)
next
  case (Cons w ws)
  let ?u = "nf (wh_URL w)"
  have fresh: "?u \<notin> (\<lambda>w. nf (wh_URL w)) ` set ws" using Cons.prems(2) by simp
  have ex: "go_get ex ?u = live_hook nf ?u (hooks_of pid st)" using Cons.prems(3) by simp
  have "\<exists>st1. set_hooks nf (mock_client err) pid ex (w # ws) st = set_hooks nf (mock_client err) pid ex ws st1
      \<and> hooks_set nf pid [w] st st1 \<and> governs project st1 = governs project st"
  proof (cases "live_hook nf ?u (hooks_of pid st)")
    case None
    with add_hook_mock [OF pid Cons.prems(1), of err "hook_options_of w" project] ex show ?thesis
      using hooks_set_add [OF Cons.prems(1)] by (auto simp del: hooks_of_def)
  next
    case (Some h)
    obtain i where i: "(i, h) \<in> set (hooks_of pid st)" using live_hook_mem [OF Some] by blast
    have "(gh_ID h, h) \<in> set (hooks_of pid st)" using i hooks_keyedD(1) [OF Cons.prems(1) i] by simp
    from edit_hook_mock [OF pid Cons.prems(1) this, of err "hook_options_of w" project] ex Some show ?thesis
      using hooks_set_edit [OF Cons.prems(1) _ Some] by auto
  qed
  then obtain st1 where st1: "set_hooks nf (mock_client err) pid ex (w # ws) st = set_hooks nf (mock_client err) pid ex ws st1"
      "hooks_set nf pid [w] st st1" "governs project st1 = governs project st" by blast
  have "\<exists>st'. set_hooks nf (mock_client err) pid ex ws st1 = (None, st') \<and> hooks_set nf pid ws st1 st'
      \<and> governs project st' = governs project st1"
  proof (rule Cons.IH)
    show "hooks_keyed pid st1" using st1(2) by (simp add: hooks_set_def)
    show "distinct (map (\<lambda>w. nf (wh_URL w)) ws)" using Cons.prems(2) by simp
    show "go_get ex (nf (wh_URL v)) = live_hook nf (nf (wh_URL v)) (hooks_of pid st1)" if "v \<in> set ws" for v
    proof -
      have "nf (wh_URL v) \<noteq> nf (wh_URL w)" using fresh that by (metis imageI)
    then have "nf (wh_URL v) \<notin> (\<lambda>w. nf (wh_URL w)) ` set [w]" by simp
      then show ?thesis using Cons.prems(3) [of v] that st1(2) unfolding hooks_set_def by auto
    qed
  qed
  with st1 hooks_set_Cons [OF st1(2) _ fresh] show ?case by auto
qed

text \<open>The second loop deletes exactly the hooks it is given.\<close>

lemma delete_hooks_mock:
  assumes pid: "in_int64 pid" and "hooks_keyed pid st" and "distinct (map gh_ID hs)" and "gh_ID ` set hs \<subseteq> hook_ids pid st"
  shows "\<exists>st'. delete_hooks (mock_client err) pid hs st = (None, st')
    \<and> hooks_of pid st' = filter (\<lambda>e. fst e \<notin> gh_ID ` set hs) (hooks_of pid st)
    \<and> hooks_keyed pid st' \<and> governs project st' = governs project st"
  using assms(2-)
proof (induction hs arbitrary: st)
  case (Cons h hs)
  let ?st = "st\<lparr>ms_projectHooks := delete_inner pid (gh_ID h) (ms_projectHooks st)\<rparr>"
  have ok: "go_map_ok (hooks_of pid st)" using Cons.prems(1) by (simp add: hooks_keyed_def)
  have "go_get (hooks_of pid st) (gh_ID h) \<noteq> None"
    using Cons.prems(3) ok by (auto simp: hook_ids_def map_of_eq_None_iff)
  then have del: "DeleteProjectHook (mock_webhooks err) pid (gh_ID h) st = (None, ?st)"
    by (auto simp: mock_webhooks_def State_DeleteProjectHook_def resolve_project_number pid found_or_404_def hooks_of_def)
  have hooks: "hooks_of pid ?st = filter (\<lambda>e. fst e \<noteq> gh_ID h) (hooks_of pid st)"
    by (simp add: hooks_of_def go_delete_filter)
  have "\<exists>st'. delete_hooks (mock_client err) pid hs ?st = (None, st')
    \<and> hooks_of pid st' = filter (\<lambda>e. fst e \<notin> gh_ID ` set hs) (hooks_of pid ?st)
    \<and> hooks_keyed pid st' \<and> governs project st' = governs project ?st"
  proof (rule Cons.IH)
    show "hooks_keyed pid ?st"
      using Cons.prems(1) by (auto simp: hooks_keyed_def hooks go_map_ok_def intro: distinct_map_filter)
    show "distinct (map gh_ID hs)" using Cons.prems(2) by simp
    show "gh_ID ` set hs \<subseteq> hook_ids pid ?st"
    proof -
      have "hook_ids pid ?st = hook_ids pid st - {gh_ID h}" unfolding hook_ids_def hooks by force
      moreover have "gh_ID h \<notin> gh_ID ` set hs" using Cons.prems(2) by simp
      ultimately show ?thesis using Cons.prems(3) by (simp add: subset_Diff_insert)
    qed
  qed
  then obtain st' where st': "delete_hooks (mock_client err) pid hs ?st = (None, st')"
    "hooks_of pid st' = filter (\<lambda>e. fst e \<notin> gh_ID ` set hs) (hooks_of pid ?st)"
    "hooks_keyed pid st'" "governs project st' = governs project st" by auto
  have "hooks_of pid st' = filter (\<lambda>e. fst e \<notin> gh_ID ` set (h # hs)) (hooks_of pid st)"
    unfolding st'(2) hooks by simp
  moreover have "delete_hooks (mock_client err) pid (h # hs) st = (None, st')"
    by (simp add: del st'(1))
  moreover have "governs project st' = governs project st"
    unfolding st'(4) by simp
  ultimately show ?case using st'(3) by blast
qed (simp add: filter_True)

text \<open>
  What the pagination of the client needs: the hooks of the project, with those the policy adds, fit on
  the server's default page of 20; and no two declared URLs are the same up to normalisation.
\<close>

definition hooks_fit :: "(string \<Rightarrow> string) \<Rightarrow> gl_project \<Rightarrow> webhook_config list \<Rightarrow> mock_state \<Rightarrow> bool" where
  "hooks_fit nf project ws st \<longleftrightarrow> governs project st \<and> hooks_keyed (p_ID project) st
     \<and> distinct (map (\<lambda>w. nf (wh_URL w)) ws)
     \<and> length (hooks_of (p_ID project) st)
         + length (filter (\<lambda>w. live_hook nf (nf (wh_URL w)) (hooks_of (p_ID project) st) = None) ws) \<le> 20"

definition listed :: "(int, gl_hook) go_map \<Rightarrow> gl_hook option list" where
  "listed m = map Some (map snd m)"

lemma present_listed [simp]: "present (listed m) = map snd m"
  unfolding listed_def by (rule present_Some)

lemma existing_live: "go_get (existingMap nf (listed m)) u = live_hook nf u m"
  by (simp add: existingMap_def live_hook_def go_get_map_of_list_latest)

lemma hooks_fit_first_page:
  "hooks_fit nf project ws st \<Longrightarrow> first_page (map snd (hooks_of (p_ID project) st)) = listed (hooks_of (p_ID project) st)"
  by (simp add: hooks_fit_def first_page_short listed_def)

lemma matched_live:
  "i \<in> matchedHookIDs nf ws (listed m) \<longleftrightarrow> (\<exists>w \<in> set ws. \<exists>h. live_hook nf (nf (wh_URL w)) m = Some h \<and> gh_ID h = i)"
  by (force simp: matchedHookIDs_def existing_live List.map_filter_def image_iff)

lemma plan_webhooks_mock:
  assumes "hooks_fit (normalizeWebhookURL parse) project (webhooks_policy cfg) st" and "webhooks_policy cfg \<noteq> []"
  shows "Webhooks_Plan parse prune (mock_client err) project cfg st =
    (Inr (plan_of_diffs webhooks_name (project_resource project) ActionUpdate
       (webhook_diffs (normalizeWebhookURL parse) prune (webhooks_policy cfg) (listed (hooks_of (p_ID project) st)))), st)"
  using assms hooks_fit_first_page [OF assms(1)]
  by (simp add: Webhooks_Plan_def calculateWebhooksDiffs_def list_hooks_mock hooks_fit_def governs_def Let_def)

lemma live_hook_filter:
  assumes keyed: "hooks_keyed pid st" and live: "live_hook nf u (hooks_of pid st) = Some h" and "gh_ID h \<notin> D"
  shows "live_hook nf u (filter (\<lambda>e. fst e \<notin> D) (hooks_of pid st)) = Some h"
proof -
  have *: "map snd (filter (\<lambda>e. fst e \<notin> D) m) = filter (\<lambda>h. gh_ID h \<notin> D) (map snd m)" if "\<forall>(i, h) \<in> set m. gh_ID h = i" for m
    using that by (induction m) auto
  have "\<forall>(i, h) \<in> set (hooks_of pid st). gh_ID h = i" using keyed by (auto simp: hooks_keyed_def)
  from * [OF this] show ?thesis
    using live assms(3) unfolding live_hook_def by (simp only: latest_filter simp_thms)
qed

text \<open>The hooks a successful apply leaves, with the pruning.\<close>

lemma webhook_diffs_Nil:
  "webhook_diffs nf prune ws (listed m) = [] \<longleftrightarrow>
     (\<forall>w \<in> set ws. \<exists>h. live_hook nf (nf (wh_URL w)) m = Some h \<and> hook_conforms w h)
     \<and> (prune \<longrightarrow> (\<forall>i h. (i, h) \<in> set m \<longrightarrow> gh_ID h \<in> matchedHookIDs nf ws (listed m)))"
  by (force simp: webhook_diffs_def existing_live update_hook_diff_iff unmatched_hooks_def filter_empty_conv split: option.splits)

lemma settled_webhooks:
  assumes "hooks_fit (normalizeWebhookURL parse) project (webhooks_policy cfg) st" and "webhooks_policy cfg \<noteq> []"
  shows "settled (Webhooks_Plan parse prune (mock_client err) project cfg) st \<longleftrightarrow>
    webhook_diffs (normalizeWebhookURL parse) prune (webhooks_policy cfg) (listed (hooks_of (p_ID project) st)) = []"
  by (simp add: settled_def plan_webhooks_mock [OF assms])

lemma apply_webhooks_mock:
  assumes fit: "hooks_fit (normalizeWebhookURL parse) project (webhooks_policy cfg) st" and pol: "webhooks_policy cfg \<noteq> []"
    and drift: "\<not> settled (Webhooks_Plan parse prune (mock_client err) project cfg) st"
  shows "\<exists>res st'. Webhooks_Apply parse prune (mock_client err) project cfg st = ((res, None), st')
    \<and> hooks_fit (normalizeWebhookURL parse) project (webhooks_policy cfg) st'
    \<and> settled (Webhooks_Plan parse prune (mock_client err) project cfg) st'
    \<and> (\<not> prune \<longrightarrow> (\<forall>u. u \<notin> (\<lambda>w. normalizeWebhookURL parse (wh_URL w)) ` set (webhooks_policy cfg) \<longrightarrow>
         live_hook (normalizeWebhookURL parse) u (hooks_of (p_ID project) st')
           = live_hook (normalizeWebhookURL parse) u (hooks_of (p_ID project) st)))"
proof -
  let ?nf = "normalizeWebhookURL parse" and ?pid = "p_ID project" and ?ws = "webhooks_policy cfg"
  let ?hooks = "listed (hooks_of ?pid st)"
  let ?un = "unmatched_hooks ?nf ?ws ?hooks"
  have pid: "in_int64 ?pid" and keyed: "hooks_keyed ?pid st" and dist: "distinct (map (\<lambda>w. ?nf (wh_URL w)) ?ws)"
    using fit by (simp_all add: hooks_fit_def governs_def)
  obtain st2 where st2: "set_hooks ?nf (mock_client err) ?pid (existingMap ?nf ?hooks) ?ws st = (None, st2)"
      "hooks_set ?nf ?pid ?ws st st2" "governs project st2 = governs project st"
    using set_hooks_mock [OF pid keyed dist, of "existingMap ?nf ?hooks"] existing_live by blast
  have keyed2: "hooks_keyed ?pid st2" using st2(2) by (simp add: hooks_set_def)
  have un_ids: "gh_ID ` set ?un \<subseteq> hook_ids ?pid st"
    using hooks_keyedD(1) [OF keyed] by (force simp: unmatched_hooks_def hook_ids_def)
  have "distinct (map gh_ID (map snd (hooks_of ?pid st)))"
  proof -
    have "map gh_ID (map snd (hooks_of ?pid st)) = map fst (hooks_of ?pid st)"
      using hooks_keyedD(1) [OF keyed] by (auto intro!: map_cong)
    with keyed show ?thesis by (simp only: hooks_keyed_def go_map_ok_def)
  qed
  then have "distinct (map gh_ID ?un)" by (simp add: unmatched_hooks_def distinct_map_filter)
  moreover have "gh_ID ` set ?un \<subseteq> hook_ids ?pid st2" using un_ids st2(2) unfolding hooks_set_def by blast
  ultimately obtain st3 where st3: "delete_hooks (mock_client err) ?pid ?un st2 = (None, st3)"
      "hooks_of ?pid st3 = filter (\<lambda>e. fst e \<notin> gh_ID ` set ?un) (hooks_of ?pid st2)"
      "hooks_keyed ?pid st3" "governs project st3 = governs project st2"
    using delete_hooks_mock [OF pid keyed2, of ?un err project] by blast
  define st' where "st' = (if prune then st3 else st2)"
  have live: "\<exists>h. live_hook ?nf (?nf (wh_URL w)) (hooks_of ?pid st') = Some h \<and> hook_conforms w h" if "w \<in> set ?ws" for w
  proof -
    obtain h where h: "live_hook ?nf (?nf (wh_URL w)) (hooks_of ?pid st2) = Some h" "hook_conforms w h"
      "case live_hook ?nf (?nf (wh_URL w)) (hooks_of ?pid st) of Some h0 \<Rightarrow> gh_ID h = gh_ID h0 | None \<Rightarrow> gh_ID h \<notin> hook_ids ?pid st"
      using hooks_setD [OF st2(2)] \<open>w \<in> set ?ws\<close> by blast
    have "gh_ID h \<notin> gh_ID ` set ?un"
    proof (cases "live_hook ?nf (?nf (wh_URL w)) (hooks_of ?pid st)")
      case (Some h0)
      with h(3) that have "gh_ID h \<in> matchedHookIDs ?nf ?ws ?hooks" by (auto simp: matched_live)
      then show ?thesis by (auto simp: unmatched_hooks_def)
    next
      case None
      with h(3) un_ids show ?thesis by auto
    qed
    with live_hook_filter [OF keyed2 h(1)] h st3(2) show ?thesis by (simp add: st'_def)
  qed
  have pruned: "gh_ID h \<in> matchedHookIDs ?nf ?ws (listed (hooks_of ?pid st'))"
    if "prune" "(i, h) \<in> set (hooks_of ?pid st')" for i h
  proof -
    have mem: "(i, h) \<in> set (hooks_of ?pid st2)" "i \<notin> gh_ID ` set ?un" using that st3(2) by (simp_all add: st'_def)
    have id: "gh_ID h = i" using hooks_keyedD(1) [OF keyed2 mem(1)] .
    have kept: "live_hook ?nf u (hooks_of ?pid st') = Some x" if "live_hook ?nf u (hooks_of ?pid st2) = Some x" "gh_ID x = i" for u x
      using live_hook_filter [OF keyed2 that(1)] that(2) mem(2) st3(2) \<open>prune\<close> by (simp add: st'_def)
    from st2(2) mem(1) consider "i \<in> hook_ids ?pid st" | w where "w \<in> set ?ws" "live_hook ?nf (?nf (wh_URL w)) (hooks_of ?pid st2) = Some h"
      unfolding hooks_set_def by blast
    then show ?thesis
    proof cases
      case 1
      then obtain h0 where h0: "(i, h0) \<in> set (hooks_of ?pid st)" by (auto simp: hook_ids_def)
      have "gh_ID h0 = i" using hooks_keyedD(1) [OF keyed h0] .
      with h0 mem(2) have "i \<in> matchedHookIDs ?nf ?ws ?hooks" by (force simp: unmatched_hooks_def)
      then obtain w h1 where w: "w \<in> set ?ws" "live_hook ?nf (?nf (wh_URL w)) (hooks_of ?pid st) = Some h1" "gh_ID h1 = i"
        by (auto simp: matched_live)
      then obtain h2 where "live_hook ?nf (?nf (wh_URL w)) (hooks_of ?pid st2) = Some h2" "gh_ID h2 = i"
        using hooks_setD [OF st2(2) w(1)] by auto
      with kept w(1) id show ?thesis by (force simp: matched_live)
    next
      case 2
      with kept id show ?thesis by (force simp: matched_live)
    qed
  qed
  have none: "filter (\<lambda>w. live_hook ?nf (?nf (wh_URL w)) (hooks_of ?pid st') = None) ?ws = []"
    using live by (force simp: filter_empty_conv)
  have "length (hooks_of ?pid st') \<le> length (hooks_of ?pid st2)" using st3(2) by (simp add: st'_def)
  also have "\<dots> \<le> 20" using fit st2(2) by (simp add: hooks_set_def hooks_fit_def)
  finally have fit': "hooks_fit ?nf project ?ws st'"
    using fit st2(3) st3(3,4) keyed2 dist none by (simp add: hooks_fit_def st'_def)
  have "webhook_diffs ?nf prune ?ws (listed (hooks_of ?pid st')) = []"
    using live pruned unfolding webhook_diffs_Nil by blast
  with settled_webhooks [OF fit' pol] have "settled (Webhooks_Plan parse prune (mock_client err) project cfg) st'" by simp
  moreover have "\<exists>res. Webhooks_Apply parse prune (mock_client err) project cfg st = ((res, None), st')"
    using drift st2(1) st3(1) hooks_fit_first_page [OF fit]
    by (simp add: Webhooks_Apply_def pol apply_after_plan_def plan_webhooks_mock [OF fit pol] settled_def change_hooks_def
        list_hooks_mock [OF pid] st'_def Let_def)
  moreover have "live_hook ?nf u (hooks_of ?pid st') = live_hook ?nf u (hooks_of ?pid st)"
    if "\<not> prune" "u \<notin> (\<lambda>w. ?nf (wh_URL w)) ` set ?ws" for u
    using st2(2) that by (simp add: st'_def hooks_set_def)
  ultimately show ?thesis using fit' by blast
qed

interpretation webhooks: reconciler "Webhooks_Plan parse prune (mock_client err) project cfg"
  "Webhooks_Apply parse prune (mock_client err) project cfg"
  "hooks_fit (normalizeWebhookURL parse) project (webhooks_policy cfg)"
proof (cases "webhooks_policy cfg = []")
  case True
  then show "reconciler (Webhooks_Plan parse prune (mock_client err) project cfg) (Webhooks_Apply parse prune (mock_client err) project cfg)
      (hooks_fit (normalizeWebhookURL parse) project (webhooks_policy cfg))"
    by (intro undeclared_reconciler) (simp_all add: fun_eq_iff Webhooks_Plan_def Webhooks_Apply_def)
next
  case pol: False
  show "reconciler (Webhooks_Plan parse prune (mock_client err) project cfg) (Webhooks_Apply parse prune (mock_client err) project cfg)
      (hooks_fit (normalizeWebhookURL parse) project (webhooks_policy cfg))"
  proof (rule reconcilerI)
    fix s :: mock_state
    let ?plan = "Webhooks_Plan parse prune (mock_client err) project cfg"
    let ?apply = "Webhooks_Apply parse prune (mock_client err) project cfg"
    show "?apply s = (noop_apply webhooks_name (project_resource project), s)" if "settled ?plan s"
      using that by (simp add: Webhooks_Apply_def pol apply_after_plan_settled)
    assume fit: "hooks_fit (normalizeWebhookURL parse) project (webhooks_policy cfg) s"
    show "snd (?plan s) = s" by (simp add: plan_webhooks_mock [OF fit pol])
    show "hooks_fit (normalizeWebhookURL parse) project (webhooks_policy cfg) (snd (?apply s))
        \<and> (snd (fst (?apply s)) = None \<longrightarrow> settled ?plan (snd (?apply s)))" if "\<not> settled ?plan s"
      using apply_webhooks_mock [OF fit pol that] by auto
  qed
qed

text \<open>
  Property C33. On the mock server, when the hooks of the project with those the policy adds fit on one page
  of twenty (the listing is not paginated) and the declared URLs are distinct up to normalisation, applying
  a webhooks policy succeeds. Afterwards every declared hook exists with every declared field at its declared
  value; with the pruning there is no other hook, without it the hooks of undeclared URLs are as they were; and a
  second run is a no-op that leaves the server as it is. The secret token is not compared: whatever
  tokens the policy declares, the plan is the same, so a rotated token alone is never applied.
\<close>

theorem Webhooks_Apply_converges:
  assumes "hooks_fit (normalizeWebhookURL parse) project (webhooks_policy cfg) st" and "webhooks_policy cfg \<noteq> []"
  shows "\<exists>res st'. Webhooks_Apply parse prune (mock_client err) project cfg st = ((res, None), st')
    \<and> (\<forall>w \<in> set (webhooks_policy cfg). \<exists>h \<in> snd ` set (hooks_of (p_ID project) st').
         normalizeWebhookURL parse (gh_URL h) = normalizeWebhookURL parse (wh_URL w) \<and> hook_conforms w h)
    \<and> (prune \<longrightarrow> (\<forall>h \<in> snd ` set (hooks_of (p_ID project) st'). \<exists>w \<in> set (webhooks_policy cfg).
         normalizeWebhookURL parse (gh_URL h) = normalizeWebhookURL parse (wh_URL w)))
    \<and> (\<not> prune \<longrightarrow> (\<forall>u. u \<notin> (\<lambda>w. normalizeWebhookURL parse (wh_URL w)) ` set (webhooks_policy cfg) \<longrightarrow>
         live_hook (normalizeWebhookURL parse) u (hooks_of (p_ID project) st')
           = live_hook (normalizeWebhookURL parse) u (hooks_of (p_ID project) st)))
    \<and> Webhooks_Apply parse prune (mock_client err) project cfg st' = (noop_apply webhooks_name (project_resource project), st')
    \<and> Webhooks_Plan parse prune (mock_client err) project (map_option (with_tokens f) cfg) st'
        = Webhooks_Plan parse prune (mock_client err) project cfg st'
    \<and> settled (Webhooks_Plan parse prune (mock_client err) project (map_option (with_tokens f) cfg)) st'"
proof -
  let ?nf = "normalizeWebhookURL parse" and ?ws = "webhooks_policy cfg"
  let ?plan = "Webhooks_Plan parse prune (mock_client err) project cfg"
  let ?apply = "Webhooks_Apply parse prune (mock_client err) project cfg"
  let ?kept = "\<lambda>st'. \<not> prune \<longrightarrow> (\<forall>u. u \<notin> (\<lambda>w. ?nf (wh_URL w)) ` set ?ws \<longrightarrow>
    live_hook ?nf u (hooks_of (p_ID project) st') = live_hook ?nf u (hooks_of (p_ID project) st))"
  have noop: "?apply s = (noop_apply webhooks_name (project_resource project), s)" if "settled ?plan s" for s
    using that assms(2) by (simp add: Webhooks_Apply_def apply_after_plan_settled)
  obtain res st' where st': "?apply st = ((res, None), st')" "hooks_fit ?nf project ?ws st'" "settled ?plan st'" and kept: "?kept st'"
  proof (cases "settled ?plan st")
    case True
    then show ?thesis using noop [OF True] assms(1) that [of "fst (noop_apply webhooks_name (project_resource project))" st]
      by (simp add: prod_eq_iff)
  qed (use apply_webhooks_mock [OF assms] that in blast)
  let ?m = "hooks_of (p_ID project) st'"
  have "webhook_diffs ?nf prune ?ws (listed ?m) = []" using st'(3) settled_webhooks [OF st'(2) assms(2)] by simp
  then have conform: "\<forall>w \<in> set ?ws. \<exists>h. live_hook ?nf (?nf (wh_URL w)) ?m = Some h \<and> hook_conforms w h"
    and pruned: "prune \<Longrightarrow> \<forall>i h. (i, h) \<in> set ?m \<longrightarrow> gh_ID h \<in> matchedHookIDs ?nf ?ws (listed ?m)"
    unfolding webhook_diffs_Nil by blast+
  have declared: "\<forall>w \<in> set ?ws. \<exists>h \<in> snd ` set ?m. ?nf (gh_URL h) = ?nf (wh_URL w) \<and> hook_conforms w h"
  proof
    fix w assume "w \<in> set ?ws"
    with conform obtain h where h: "live_hook ?nf (?nf (wh_URL w)) ?m = Some h" "hook_conforms w h" by blast
    then obtain i where "(i, h) \<in> set ?m" "?nf (gh_URL h) = ?nf (wh_URL w)" using live_hook_mem by blast
    with h(2) show "\<exists>h \<in> snd ` set ?m. ?nf (gh_URL h) = ?nf (wh_URL w) \<and> hook_conforms w h" by force
  qed
  have others: "\<exists>w \<in> set ?ws. ?nf (gh_URL h) = ?nf (wh_URL w)" if "prune" "(i, h) \<in> set ?m" for i h
  proof -
    have "gh_ID h \<in> matchedHookIDs ?nf ?ws (listed ?m)" using pruned that by blast
    then obtain w h1 where w: "w \<in> set ?ws" "live_hook ?nf (?nf (wh_URL w)) ?m = Some h1" "gh_ID h1 = gh_ID h"
      unfolding matched_live by blast
    then obtain j where "(j, h1) \<in> set ?m" "?nf (gh_URL h1) = ?nf (wh_URL w)" using live_hook_mem by blast
    moreover have "hooks_keyed (p_ID project) st'" using st'(2) by (simp add: hooks_fit_def)
    ultimately show ?thesis using that(2) w by (metis hooks_keyedD(1,3))
  qed
  show ?thesis
  proof (intro exI conjI)
    show "?apply st = ((res, None), st')" by (rule st'(1))
    show "prune \<longrightarrow> (\<forall>h \<in> snd ` set ?m. \<exists>w \<in> set ?ws. ?nf (gh_URL h) = ?nf (wh_URL w))" using others by auto
  qed (use declared kept noop [OF st'(3)] st'(3) in \<open>simp_all add: Webhooks_Plan_tokens\<close>)
qed

definition example_webhook :: webhook_config where
  "example_webhook =
     \<lparr>wh_URL = ''https://hooks.example.com/ci/'', wh_PushEvents = Some True, wh_MergeRequestsEvents = None, wh_TagPushEvents = None,
      wh_IssuesEvents = None, wh_PipelineEvents = Some True, wh_JobEvents = None, wh_ReleasesEvents = None,
      wh_EnableSSLVerification = Some True, wh_SecretToken = [], wh_PushEventsBranchFilter = []\<rparr>"

definition example_webhook_policy :: policy_config where
  "example_webhook_policy = zero_policy_config\<lparr>cfg_Policies := zero_policies\<lparr>pol_Webhooks := [example_webhook]\<rparr>\<rparr>"

lemma webhooks_policy_example: "webhooks_policy (Some example_webhook_policy) = [example_webhook]"
  by (simp add: webhooks_policy_def example_webhook_policy_def)

lemma example_no_hooks: "hooks_of 7 example_state = []"
  by code_simp

lemma hooks_fit_example: "hooks_fit (normalizeWebhookURL (\<lambda>_. None)) example_project [example_webhook] example_state"
proof -
  have "p_ID example_project = 7" by (simp add: example_project_def)
  then show ?thesis
    using governs_example by (simp add: hooks_fit_def hooks_keyed_def example_no_hooks)
qed

lemma Webhooks_Apply_converges_witness:
  "\<exists>res st'. Webhooks_Apply (\<lambda>_. None) True (mock_client (\<lambda>_ m. Err m)) example_project (Some example_webhook_policy) example_state
       = ((res, None), st')
    \<and> (\<exists>h \<in> snd ` set (hooks_of (p_ID example_project) st').
         normalizeWebhookURL (\<lambda>_. None) (gh_URL h) = normalizeWebhookURL (\<lambda>_. None) (wh_URL example_webhook)
         \<and> gh_PushEvents h \<and> gh_PipelineEvents h \<and> gh_EnableSSLVerification h)
    \<and> (\<forall>h \<in> snd ` set (hooks_of (p_ID example_project) st').
         normalizeWebhookURL (\<lambda>_. None) (gh_URL h) = normalizeWebhookURL (\<lambda>_. None) (wh_URL example_webhook))
    \<and> settled (Webhooks_Plan (\<lambda>_. None) True (mock_client (\<lambda>_ m. Err m)) example_project
         (Some (with_tokens (\<lambda>_. ''rotated'') example_webhook_policy))) st'"
proof -
  have conf: "hook_conforms example_webhook h \<longleftrightarrow> gh_PushEvents h \<and> gh_PipelineEvents h \<and> gh_EnableSSLVerification h" for h
    by (simp add: hook_conforms_def example_webhook_def)
  have fit: "hooks_fit (normalizeWebhookURL (\<lambda>_. None)) example_project (webhooks_policy (Some example_webhook_policy)) example_state"
    unfolding webhooks_policy_example by (rule hooks_fit_example)
  have some: "webhooks_policy (Some example_webhook_policy) \<noteq> []" by (simp add: webhooks_policy_example)
  from Webhooks_Apply_converges [OF fit some, of True "\<lambda>_ m. Err m" "\<lambda>_. ''rotated''"] show ?thesis
    unfolding webhooks_policy_example by (simp add: conf) blast
qed

subsection \<open>Beyond the first page\<close>

text \<open>A declared hook that is not among the first twenty listed ones is added again.\<close>

lemma apply_unlisted_hook:
  assumes pol: "webhooks_policy cfg = [w]" and pid: "in_int64 (p_ID project)" and keyed: "hooks_keyed (p_ID project) st"
    and other: "\<forall>h \<in> set (take 20 (map snd (hooks_of (p_ID project) st))). normalizeWebhookURL parse (gh_URL h) \<noteq> normalizeWebhookURL parse (wh_URL w)"
  shows "\<exists>res st' x. Webhooks_Apply parse False (mock_client err) project cfg st = ((res, None), st')
    \<and> hooks_of (p_ID project) st' = hooks_of (p_ID project) st @ [x] \<and> hooks_keyed (p_ID project) st'"
proof -
  let ?nf = "normalizeWebhookURL parse" and ?pid = "p_ID project"
  let ?page = "first_page (map snd (hooks_of ?pid st))"
  have none: "go_get (existingMap ?nf ?page) (?nf (wh_URL w)) = None"
    using other unfolding existingMap_def go_get_map_of_list_None first_page_take present_Some by (metis (mono_tags, lifting) imageE)
  obtain st' where st': "AddProjectHook (mock_webhooks err) ?pid (hook_options_of w) st = (None, st')"
    "\<exists>x. hooks_of ?pid st' = hooks_of ?pid st @ [x]" "hooks_keyed ?pid st'"
    using add_hook_mock [OF pid keyed, of err "hook_options_of w" project] by blast
  have "Webhooks_Plan parse False (mock_client err) project cfg st =
      (Inr (changes_plan webhooks_name (project_resource project) ActionUpdate [create_hook_diff w]), st)"
    by (simp add: Webhooks_Plan_def calculateWebhooksDiffs_def list_hooks_mock [OF pid] pol webhook_diffs_def none plan_of_diffs_def Let_def)
  then have "\<exists>res. Webhooks_Apply parse False (mock_client err) project cfg st = ((res, None), st')"
    by (simp add: Webhooks_Apply_def pol apply_after_plan_def change_hooks_def list_hooks_mock [OF pid] none st'(1) Let_def)
  with st'(2,3) show ?thesis by blast
qed

text \<open>The hooks are read without pagination, so only the server's first page of twenty is seen: when it holds
  twenty hooks and not the declared one, every apply succeeds and adds one more copy of the declared hook,
  whether or not it already exists.\<close>

theorem Webhooks_duplicates_beyond_first_page:
  assumes pol: "webhooks_policy cfg = [w]" and pid: "in_int64 (p_ID project)" and keyed: "hooks_keyed (p_ID project) st"
    and full: "20 \<le> length (hooks_of (p_ID project) st)"
    and other: "\<forall>h \<in> set (take 20 (map snd (hooks_of (p_ID project) st))). normalizeWebhookURL parse (gh_URL h) \<noteq> normalizeWebhookURL parse (wh_URL w)"
  shows "length (hooks_of (p_ID project) (((\<lambda>s. snd (Webhooks_Apply parse False (mock_client err) project cfg s)) ^^ n) st))
    = length (hooks_of (p_ID project) st) + n"
proof -
  let ?step = "\<lambda>s. snd (Webhooks_Apply parse False (mock_client err) project cfg s)"
  have "length (hooks_of (p_ID project) ((?step ^^ n) st)) = length (hooks_of (p_ID project) st) + n
      \<and> hooks_keyed (p_ID project) ((?step ^^ n) st)
      \<and> take 20 (hooks_of (p_ID project) ((?step ^^ n) st)) = take 20 (hooks_of (p_ID project) st)"
  proof (induction n)
    case (Suc n)
    let ?s = "(?step ^^ n) st"
    have "\<forall>h \<in> set (take 20 (map snd (hooks_of (p_ID project) ?s))). normalizeWebhookURL parse (gh_URL h) \<noteq> normalizeWebhookURL parse (wh_URL w)"
      using other Suc by (simp add: take_map)
    with apply_unlisted_hook [OF pol pid, of ?s] Suc obtain res st' x where
      "Webhooks_Apply parse False (mock_client err) project cfg ?s = ((res, None), st')"
      "hooks_of (p_ID project) st' = hooks_of (p_ID project) ?s @ [x]" "hooks_keyed (p_ID project) st'" by blast
    then show ?case using Suc full by simp
  qed (use keyed in simp)
  then show ?thesis by blast
qed

definition other_hook :: gl_hook where
  "other_hook = hook_of_options (hook_options_of (example_webhook\<lparr>wh_URL := ''https://other.example.com''\<rparr>))"

definition crowded_state :: mock_state where
  "crowded_state =
     example_state\<lparr>ms_projectHooks := [(7, map (\<lambda>i. (i, other_hook\<lparr>gh_ID := i\<rparr>)) [1..20])], ms_nextHookID := 21\<rparr>"

lemma crowded_hooks: "hooks_of 7 crowded_state = map (\<lambda>i. (i, other_hook\<lparr>gh_ID := i\<rparr>)) [1..20]"
  by (simp add: hooks_of_def crowded_state_def inner_def)

lemma Webhooks_duplicates_beyond_first_page_witness:
  "length (hooks_of (p_ID example_project) (((\<lambda>s. snd (Webhooks_Apply (\<lambda>_. None) False (mock_client (\<lambda>_ m. Err m)) example_project
       (Some example_webhook_policy) s)) ^^ 3) crowded_state)) = length (hooks_of (p_ID example_project) crowded_state) + 3"
proof (rule Webhooks_duplicates_beyond_first_page [OF webhooks_policy_example])
  have pid: "p_ID example_project = 7" by (simp add: example_project_def)
  show "in_int64 (p_ID example_project)" by (simp add: pid in_int64_def)
  show "20 \<le> length (hooks_of (p_ID example_project) crowded_state)" by (simp add: pid crowded_hooks)
  show "hooks_keyed (p_ID example_project) crowded_state"
    by (auto simp: hooks_keyed_def pid crowded_hooks go_map_ok_def comp_def) (simp add: crowded_state_def)
  have "gh_URL h = ''https://other.example.com''" if "h \<in> set (map snd (hooks_of 7 crowded_state))" for h
    using that by (auto simp: crowded_hooks other_hook_def hook_of_options_def hook_options_of_def)
  moreover have "normalizeWebhookURL (\<lambda>_. None) ''https://other.example.com'' \<noteq> normalizeWebhookURL (\<lambda>_. None) (wh_URL example_webhook)"
    by code_simp
  ultimately show "\<forall>h \<in> set (take 20 (map snd (hooks_of (p_ID example_project) crowded_state))).
      normalizeWebhookURL (\<lambda>_. None) (gh_URL h) \<noteq> normalizeWebhookURL (\<lambda>_. None) (wh_URL example_webhook)"
    unfolding pid by (metis in_set_takeD)
qed

end
