(* ===== verification/Runners.thy ===== *)
theory Runners
  imports Project_Reconcilers Mock_Facts
begin

section \<open>Runners\<close>

text \<open>
  \<^verbatim>\<open>internal/governance/runners.go\<close> (order 70): the runner switches of the project, and the attributes of
  the declared runners among those listed for it. A declared runner is matched by its ID or by its
  description, whichever a listed runner fulfils first.
\<close>

definition runners_name :: string where
  "runners_name = ''runners''"

definition runners_policy :: "policy_config option \<Rightarrow> runners_config option" where
  "runners_policy cfg = (case cfg of None \<Rightarrow> None | Some c \<Rightarrow> pol_Runners (cfg_Policies c))"

definition findMatchingRunner :: "runner_config \<Rightarrow> gl_runner list \<Rightarrow> gl_runner option" where
  "findMatchingRunner c runners =
     find (\<lambda>r. rn_ID c > 0 \<and> grn_ID r = rn_ID c \<or> rn_Description c \<noteq> [] \<and> grn_Description r = rn_Description c) runners"

definition tagsEqual :: "string list \<Rightarrow> string list \<Rightarrow> bool" where
  "tagsEqual a b \<longleftrightarrow> length a = length b \<and> sort a = sort b"

definition runner_settings_diff :: "gl_project \<Rightarrow> runners_config \<Rightarrow> diff list" where
  "runner_settings_diff live c =
     (let ps = p_Settings live;
          b = Add (CompareBoolPtr ''group_runners_enabled'' (ps_GroupRunnersEnabled ps) (rns_GroupRunnersEnabled c))
             (Add (CompareBoolPtr ''shared_runners_enabled'' (ps_SharedRunnersEnabled ps) (rns_SharedRunnersEnabled c)) NewDiffBuilder)
      in if Builder_HasChanges b then [Build ''runners_settings'' ActionUpdate b] else [])"

definition unassigned_diff :: "runner_config \<Rightarrow> diff" where
  "unassigned_diff c =
     Build (''runner:'' @ fmt_d (rn_ID c) @ ''/'' @ rn_Description c) ActionCreate
       (SetDetails ''Runner assertion defined in policy not assigned to project'' NewDiffBuilder)"

definition runner_fields :: "gl_runner_details \<Rightarrow> runner_config \<Rightarrow> diff_builder" where
  "runner_fields d c =
     (let b = Add (CompareIntPtr ''maximum_timeout'' (grd_MaximumTimeout d) (rn_MaximumTimeout c))
             (add_if_declared ''access_level'' (grd_AccessLevel d) (rn_AccessLevel c)
             (Add (CompareBoolPtr ''run_untagged'' (grd_RunUntagged d) (rn_RunUntagged c))
             (Add (CompareBoolPtr ''locked'' (grd_Locked d) (rn_Locked c))
             (Add (CompareBoolPtr ''paused'' (grd_Paused d) (rn_Paused c)) NewDiffBuilder))))
      in if rn_TagList c \<noteq> [] \<and> \<not> tagsEqual (rn_TagList c) (grd_TagList d)
         then AddField ''tag_list'' (VStrs (grd_TagList d)) (VStrs (rn_TagList c)) ActionUpdate b else b)"

definition runner_diff :: "gl_runner \<Rightarrow> gl_runner_details \<Rightarrow> runner_config \<Rightarrow> diff list" where
  "runner_diff r d c =
     (let b = runner_fields d c in
      if Builder_HasChanges b then [Build (''runner:'' @ fmt_d (grn_ID r)) ActionUpdate b] else [])"

text \<open>The loop over the declared runners, reading the details of each matched one.\<close>

fun runner_diffs :: "'s gitlab_client \<Rightarrow> gl_runner list \<Rightarrow> runner_config list \<Rightarrow> diff list \<Rightarrow> 's \<Rightarrow> diff list go_result \<times> 's" where
  "runner_diffs client runners [] ds s = (Inr ds, s)"
| "runner_diffs client runners (c # cs) ds s =
     (case findMatchingRunner c runners of
        None \<Rightarrow> runner_diffs client runners cs (ds @ [unassigned_diff c]) s
      | Some r \<Rightarrow>
          (case GetRunnerDetails (cl_Runners client) (grn_ID r) s of
             (Inl err, s') \<Rightarrow> (Inl (Wrapf (''failed to fetch runner details '' @ fmt_d (grn_ID r)) err), s')
           | (Inr d, s') \<Rightarrow> runner_diffs client runners cs (ds @ runner_diff r d c) s'))"

definition calculateProjectDiffs ::
  "'s gitlab_client \<Rightarrow> runners_config \<Rightarrow> gl_project \<Rightarrow> 's \<Rightarrow> diff list go_result \<times> 's" where
  "calculateProjectDiffs client c project s =
     (let pid = p_ID project in
      case GetProject (cl_Projects client) pid s of
        (Inl err, s1) \<Rightarrow> (Inl (Wrapf (''failed to fetch project '' @ fmt_d pid) err), s1)
      | (Inr live, s1) \<Rightarrow>
          (let ds = runner_settings_diff (case live of None \<Rightarrow> project | Some p \<Rightarrow> p) c in
           if rns_Runners c = [] then (Inr ds, s1)
           else (case ListProjectRunners (cl_Runners client) pid s1 of
                   (Inl err, s2) \<Rightarrow> (Inl (Wrapf (''failed to list project runners for '' @ fmt_d pid) err), s2)
                 | (Inr runners, s2) \<Rightarrow> runner_diffs client runners (rns_Runners c) ds s2)))"

definition Runners_Plan :: "'s gitlab_client \<Rightarrow> gl_project \<Rightarrow> policy_config option \<Rightarrow> 's plan_fun" where
  "Runners_Plan client project cfg s =
     (let r = project_resource project in
      case runners_policy cfg of
        None \<Rightarrow> (Inr (noop_plan runners_name r), s)
      | Some c \<Rightarrow>
          (case calculateProjectDiffs client c project s of
             (Inl err, s') \<Rightarrow> (Inl err, s')
           | (Inr ds, s') \<Rightarrow> (Inr (plan_of_diffs runners_name r ActionUpdate ds), s')))"

definition runner_update :: "runner_config \<Rightarrow> update_runner_options" where
  "runner_update c =
     \<lparr>uro_Description = str_ptr (rn_Description c), uro_Paused = rn_Paused c, uro_Locked = rn_Locked c,
      uro_RunUntagged = rn_RunUntagged c, uro_AccessLevel = str_ptr (rn_AccessLevel c),
      uro_MaximumTimeout = rn_MaximumTimeout c,
      uro_TagList = (if rn_TagList c \<noteq> [] then Some (rn_TagList c) else None)\<rparr>"

definition has_update :: "runner_config \<Rightarrow> bool" where
  "has_update c \<longleftrightarrow> rn_Description c \<noteq> [] \<or> rn_Paused c \<noteq> None \<or> rn_Locked c \<noteq> None \<or> rn_RunUntagged c \<noteq> None
     \<or> rn_AccessLevel c \<noteq> [] \<or> rn_MaximumTimeout c \<noteq> None \<or> rn_TagList c \<noteq> []"

fun update_runners :: "'s gitlab_client \<Rightarrow> gl_runner list \<Rightarrow> runner_config list \<Rightarrow> 's \<Rightarrow> go_error option \<times> 's" where
  "update_runners client runners [] s = (None, s)"
| "update_runners client runners (c # cs) s =
     (case findMatchingRunner c runners of
        None \<Rightarrow> update_runners client runners cs s
      | Some r \<Rightarrow>
          if has_update c then
            (case UpdateRunnerDetails (cl_Runners client) (grn_ID r) (runner_update c) s of
               (Some err, s') \<Rightarrow> (Some (Wrapf (''failed to update runner '' @ fmt_d (grn_ID r)) err), s')
             | (None, s') \<Rightarrow> update_runners client runners cs s')
          else update_runners client runners cs s)"

text \<open>The project edit, where a switch is declared.\<close>

definition edit_runner_settings :: "'s gitlab_client \<Rightarrow> int \<Rightarrow> runners_config \<Rightarrow> 's \<Rightarrow> go_error option \<times> 's" where
  "edit_runner_settings client pid c s =
     (if rns_SharedRunnersEnabled c = None \<and> rns_GroupRunnersEnabled c = None then (None, s)
      else (case EditProject (cl_Projects client) pid
              (zero_edit_project_options\<lparr>epo_SharedRunnersEnabled := rns_SharedRunnersEnabled c,
                 epo_GroupRunnersEnabled := rns_GroupRunnersEnabled c\<rparr>) s of
              (Inl err, s') \<Rightarrow> (Some (Wrapf (''failed to update project runner settings for '' @ fmt_d pid) err), s')
            | (Inr _, s') \<Rightarrow> (None, s')))"

definition change_runners :: "'s gitlab_client \<Rightarrow> gl_project \<Rightarrow> runners_config \<Rightarrow> plan_result \<Rightarrow> 's apply_fun" where
  "change_runners client project c pl s =
     (let r = project_resource project; pid = p_ID project;
          failed = (\<lambda>e. failed_apply runners_name r ActionUpdate (pr_Diffs pl) e e);
          ok = ok_apply runners_name r ActionUpdate (pr_Diffs pl) in
      case edit_runner_settings client pid c s of
        (Some e, s1) \<Rightarrow> (failed e, s1)
      | (None, s1) \<Rightarrow>
          if rns_Runners c = [] then (ok, s1)
          else (case ListProjectRunners (cl_Runners client) pid s1 of
                  (Inl err, s2) \<Rightarrow> (failed (Wrapf (''failed to list runners for project '' @ fmt_d pid) err), s2)
                | (Inr runners, s2) \<Rightarrow>
                    (case update_runners client runners (rns_Runners c) s2 of
                       (Some e, s3) \<Rightarrow> (failed e, s3) | (None, s3) \<Rightarrow> (ok, s3))))"

definition Runners_Apply :: "'s gitlab_client \<Rightarrow> gl_project \<Rightarrow> policy_config option \<Rightarrow> 's apply_fun" where
  "Runners_Apply client project cfg s =
     (case runners_policy cfg of
        None \<Rightarrow> (noop_apply runners_name (project_resource project), s)
      | Some c \<Rightarrow>
          apply_after_plan runners_name (project_resource project) (Runners_Plan client project cfg)
            (change_runners client project c) s)"

definition Runners_PlanGroup :: "gl_group \<Rightarrow> 's plan_fun" where
  "Runners_PlanGroup g s =
     (Inr (skipped_plan runners_name (group_resource g) ''Runner project policy is not applicable to groups''), s)"

definition Runners_ApplyGroup :: "gl_group \<Rightarrow> 's apply_fun" where
  "Runners_ApplyGroup g s =
     (skipped_apply runners_name (group_resource g) ''Runner project policy is not applicable to groups'', s)"

subsection \<open>On the mock server\<close>

text \<open>The first page of the listing, which never changes; every matched runner has details.\<close>

definition listed_runners :: "mock_state \<Rightarrow> gl_runner list" where
  "listed_runners st = take 20 (ListRunners st)"

definition details_known :: "runner_config list \<Rightarrow> mock_state \<Rightarrow> bool" where
  "details_known cs st \<longleftrightarrow> (\<forall>c \<in> set cs. \<forall>r. findMatchingRunner c (listed_runners st) = Some r \<longrightarrow>
     go_get (ms_runnerDetails st) (grn_ID r) \<noteq> None)"

definition runner_drift :: "mock_state \<Rightarrow> runner_config \<Rightarrow> diff list" where
  "runner_drift st c =
     (case findMatchingRunner c (listed_runners st) of
        None \<Rightarrow> [unassigned_diff c]
      | Some r \<Rightarrow> runner_diff r (the (go_get (ms_runnerDetails st) (grn_ID r))) c)"

lemma list_runners_mock: "ListProjectRunners (mock_runners err) pid st = (Inr (listed_runners st), st)"
  by (simp add: mock_runners_def listed_runners_def paginate_page_def Let_def min_def)

lemma listed_runners_frame [simp]:
  "listed_runners (st\<lparr>ms_projects := a\<rparr>) = listed_runners st" "listed_runners (st\<lparr>ms_runnerDetails := b\<rparr>) = listed_runners st"
  by (simp_all add: listed_runners_def ListRunners_def)

lemma runner_diffs_mock:
  "details_known cs st \<Longrightarrow>
     runner_diffs (mock_client err) (listed_runners st) cs ds st = (Inr (ds @ concat (map (runner_drift st) cs)), st)"
proof (induction cs arbitrary: ds)
  case (Cons c cs)
  then have "details_known cs st" by (simp add: details_known_def)
  with Cons show ?case
    by (cases "findMatchingRunner c (listed_runners st)")
      (auto simp: runner_drift_def details_known_def mock_runners_def State_GetRunnerDetails_def)
qed simp

lemma update_runners_mock:
  "details_known cs st \<Longrightarrow>
     \<exists>D. update_runners (mock_client err) (listed_runners st) cs st = (None, st\<lparr>ms_runnerDetails := D\<rparr>)
       \<and> (\<forall>i. go_get D i = None \<longleftrightarrow> go_get (ms_runnerDetails st) i = None)
       \<and> (\<forall>i. (\<forall>c \<in> set cs. \<forall>r. findMatchingRunner c (listed_runners st) = Some r \<longrightarrow> grn_ID r \<noteq> i) \<longrightarrow>
            go_get D i = go_get (ms_runnerDetails st) i)
       \<and> (distinct (map grn_ID (List.map_filter (\<lambda>c. findMatchingRunner c (listed_runners st)) cs)) \<longrightarrow>
            (\<forall>c \<in> set cs. \<forall>r. findMatchingRunner c (listed_runners st) = Some r \<longrightarrow>
               go_get D (grn_ID r) = map_option (if has_update c then edit_runner (runner_update c) else id)
                 (go_get (ms_runnerDetails st) (grn_ID r))))"
proof (induction cs arbitrary: st)
  case Nil
  show ?case by (intro exI [of _ "ms_runnerDetails st"]) simp
next
  case (Cons c cs)
  have known: "details_known cs st" using Cons.prems by (simp add: details_known_def)
  show ?case
  proof (cases "findMatchingRunner c (listed_runners st)")
    case None
    with Cons.IH [OF known] show ?thesis by (simp add: map_filter_simps)
  next
    case (Some r)
    then obtain d where d: "go_get (ms_runnerDetails st) (grn_ID r) = Some d"
      using Cons.prems by (auto simp: details_known_def)
    let ?f = "if has_update c then edit_runner (runner_update c) else id"
    let ?D1 = "if has_update c then go_put (grn_ID r) (?f d) (ms_runnerDetails st) else ms_runnerDetails st"
    let ?st = "st\<lparr>ms_runnerDetails := ?D1\<rparr>"
    have step: "update_runners (mock_client err) (listed_runners st) (c # cs) st =
        update_runners (mock_client err) (listed_runners ?st) cs ?st"
      using Some d by (simp add: mock_runners_def State_UpdateRunnerDetails_def found_or_404_def)
    have "details_known cs ?st" using known by (auto simp: details_known_def)
    from Cons.IH [OF this] obtain D where
      run: "update_runners (mock_client err) (listed_runners ?st) cs ?st = (None, ?st\<lparr>ms_runnerDetails := D\<rparr>)"
      and dom: "\<And>i. go_get D i = None \<longleftrightarrow> go_get ?D1 i = None"
      and other: "\<And>i. \<forall>c \<in> set cs. \<forall>r. findMatchingRunner c (listed_runners st) = Some r \<longrightarrow> grn_ID r \<noteq> i \<Longrightarrow>
            go_get D i = go_get ?D1 i"
      and set: "distinct (map grn_ID (List.map_filter (\<lambda>c. findMatchingRunner c (listed_runners st)) cs)) \<Longrightarrow>
            \<forall>c \<in> set cs. \<forall>r. findMatchingRunner c (listed_runners st) = Some r \<longrightarrow>
               go_get D (grn_ID r) = map_option (if has_update c then edit_runner (runner_update c) else id) (go_get ?D1 (grn_ID r))"
      by auto
    have D1: "go_get ?D1 i = (if i = grn_ID r then Some (?f d) else go_get (ms_runnerDetails st) i)" for i
      using d by simp
    show ?thesis
    proof (intro exI [of _ D] conjI impI allI ballI)
      show "update_runners (mock_client err) (listed_runners st) (c # cs) st = (None, st\<lparr>ms_runnerDetails := D\<rparr>)"
        unfolding step run by simp
      show "go_get D i = None \<longleftrightarrow> go_get (ms_runnerDetails st) i = None" for i
        using dom [of i] d by (auto simp: D1 simp del: if_split split: if_splits)
      show "go_get D i = go_get (ms_runnerDetails st) i"
        if "\<forall>c' \<in> set (c # cs). \<forall>r. findMatchingRunner c' (listed_runners st) = Some r \<longrightarrow> grn_ID r \<noteq> i" for i
        using that other [of i] Some by (simp add: D1 del: map_of_eq_None_iff)
      fix c' r' assume dist: "distinct (map grn_ID (List.map_filter (\<lambda>c. findMatchingRunner c (listed_runners st)) (c # cs)))"
        and c': "c' \<in> set (c # cs)" "findMatchingRunner c' (listed_runners st) = Some r'"
      have fresh: "grn_ID r'' \<noteq> grn_ID r" if "c'' \<in> set cs" "findMatchingRunner c'' (listed_runners st) = Some r''" for c'' r''
        using dist Some that by (force simp: map_filter_simps List.map_filter_def)
      show "go_get D (grn_ID r') = map_option (if has_update c' then edit_runner (runner_update c') else id) (go_get (ms_runnerDetails st) (grn_ID r'))"
      proof (cases "c' \<in> set cs")
        case True
        with set dist c'(2) fresh [OF True c'(2)] Some show ?thesis by (simp add: D1 map_filter_simps)
      next
        case False
        then have "c' = c" "r' = r" using c' Some by auto
        moreover have "go_get D (grn_ID r) = go_get ?D1 (grn_ID r)" by (rule other) (use fresh in blast)
        ultimately show ?thesis by (simp add: D1 d)
      qed
    qed
  qed
qed

definition switched :: "runners_config \<Rightarrow> gl_project \<Rightarrow> gl_project" where
  "switched c p =
     edit_project (zero_edit_project_options\<lparr>epo_SharedRunnersEnabled := rns_SharedRunnersEnabled c,
       epo_GroupRunnersEnabled := rns_GroupRunnersEnabled c\<rparr>) p"

lemma runner_settings_switched [simp]: "runner_settings_diff (switched c p) c = []"
  by (simp add: runner_settings_diff_def switched_def edit_project_def zero_edit_project_options_def set_when_def
      CompareBoolPtr_def Builder_HasChanges_def Let_def split: option.splits)

lemma runner_settings_undeclared:
  "rns_SharedRunnersEnabled c = None \<Longrightarrow> rns_GroupRunnersEnabled c = None \<Longrightarrow> runner_settings_diff p c = []"
  by (simp add: runner_settings_diff_def CompareBoolPtr_def Builder_HasChanges_def Let_def)

lemma runner_diff_set:
  assumes "rn_RunUntagged c = None" and "rn_MaximumTimeout c = None"
  shows "runner_diff r ((if has_update c then edit_runner (runner_update c) else id) d) c = []"
  using assms by (auto simp: runner_diff_def runner_fields_def edit_runner_def runner_update_def has_update_def set_when_def str_ptr_def
      add_if_declared_def tagsEqual_def CompareBoolPtr_def CompareIntPtr_def Builder_HasChanges_def Let_def split: option.splits)

text \<open>The server knows the project, and the details of every declared runner that is listed.\<close>

definition runners_known :: "gl_project \<Rightarrow> runners_config \<Rightarrow> mock_state \<Rightarrow> bool" where
  "runners_known project c st \<longleftrightarrow> governs project st \<and> go_get (ms_projects st) (p_ID project) \<noteq> None
     \<and> details_known (rns_Runners c) st"

definition all_drift :: "gl_project \<Rightarrow> runners_config \<Rightarrow> mock_state \<Rightarrow> diff list" where
  "all_drift project c st =
     runner_settings_diff (the (go_get (ms_projects st) (p_ID project))) c @ concat (map (runner_drift st) (rns_Runners c))"

lemma plan_runners_mock:
  assumes "runners_policy cfg = Some c" and "runners_known project c st"
  shows "Runners_Plan (mock_client err) project cfg st =
    (Inr (plan_of_diffs runners_name (project_resource project) ActionUpdate (all_drift project c st)), st)"
  using assms
  by (auto simp: Runners_Plan_def calculateProjectDiffs_def runners_known_def mock_projects_def list_runners_mock runner_diffs_mock
      all_drift_def Let_def)

lemma settled_runners:
  "runners_policy cfg = Some c \<Longrightarrow> runners_known project c st \<Longrightarrow>
     settled (Runners_Plan (mock_client err) project cfg) st \<longleftrightarrow> all_drift project c st = []"
  by (simp add: settled_def plan_runners_mock)

text \<open>What a run that finds drift does.\<close>

lemma apply_runners_mock:
  assumes pol: "runners_policy cfg = Some c" and known: "runners_known project c st" and drift: "all_drift project c st \<noteq> []"
  shows "\<exists>st' D. Runners_Apply (mock_client err) project cfg st =
      (ok_apply runners_name (project_resource project) ActionUpdate (all_drift project c st), st')
    \<and> runners_known project c st' \<and> listed_runners st' = listed_runners st \<and> ms_runnerDetails st' = D
    \<and> runner_settings_diff (the (go_get (ms_projects st') (p_ID project))) c = []
    \<and> (distinct (map grn_ID (List.map_filter (\<lambda>c. findMatchingRunner c (listed_runners st)) (rns_Runners c))) \<longrightarrow>
         (\<forall>rc \<in> set (rns_Runners c). \<forall>r. findMatchingRunner rc (listed_runners st) = Some r \<longrightarrow>
            go_get D (grn_ID r) = map_option (if has_update rc then edit_runner (runner_update rc) else id)
              (go_get (ms_runnerDetails st) (grn_ID r))))"
proof -
  let ?pid = "p_ID project" and ?cs = "rns_Runners c"
  let ?plain = "rns_SharedRunnersEnabled c = None \<and> rns_GroupRunnersEnabled c = None"
  from known obtain p where p: "go_get (ms_projects st) ?pid = Some p" by (auto simp: runners_known_def)
  have gov: "governs project st" and pid: "in_int64 ?pid" using known by (auto simp: runners_known_def governs_def)
  define st1 where "st1 = (if ?plain then st else st\<lparr>ms_projects := go_put ?pid (switched c p) (ms_projects st)\<rparr>)"
  have edit: "edit_runner_settings (mock_client err) ?pid c st = (None, st1)"
    by (auto simp: edit_runner_settings_def mock_projects_def handleEditProject_number pid p switched_def st1_def)
  have gov1: "governs project st1"
    using governs_edit [OF gov, of err "fmt_d ?pid" _ None] gov by (auto simp: st1_def handleEditProject_number pid p switched_def)
  have listed: "listed_runners st1 = listed_runners st" and details: "ms_runnerDetails st1 = ms_runnerDetails st"
    by (simp_all add: st1_def)
  then have known1: "details_known ?cs st1" using known by (simp add: runners_known_def details_known_def)
  obtain D where run: "update_runners (mock_client err) (listed_runners st1) ?cs st1 = (None, st1\<lparr>ms_runnerDetails := D\<rparr>)"
    and dom: "\<And>i. go_get D i = None \<longleftrightarrow> go_get (ms_runnerDetails st) i = None"
    and set: "distinct (map grn_ID (List.map_filter (\<lambda>c. findMatchingRunner c (listed_runners st)) ?cs)) \<longrightarrow>
            (\<forall>c \<in> set ?cs. \<forall>r. findMatchingRunner c (listed_runners st) = Some r \<longrightarrow>
               go_get D (grn_ID r) = map_option (if has_update c then edit_runner (runner_update c) else id)
                 (go_get (ms_runnerDetails st) (grn_ID r)))"
    using update_runners_mock [OF known1, of err] unfolding listed details by blast
  let ?st' = "st1\<lparr>ms_runnerDetails := D\<rparr>"
  have "change_runners (mock_client err) project c (plan_of_diffs runners_name (project_resource project) ActionUpdate (all_drift project c st)) st
      = (ok_apply runners_name (project_resource project) ActionUpdate (all_drift project c st), ?st')"
    using run drift by (auto simp: change_runners_def edit list_runners_mock plan_of_diffs_def Let_def)
  then have "Runners_Apply (mock_client err) project cfg st =
      (ok_apply runners_name (project_resource project) ActionUpdate (all_drift project c st), ?st')"
    using drift by (simp add: Runners_Apply_def pol apply_after_plan_def plan_runners_mock [OF pol known])
  moreover have "runners_known project c ?st'"
    using known1 gov1 p dom by (auto simp: runners_known_def details_known_def listed details st1_def simp del: map_of_eq_None_iff)
  moreover have "runner_settings_diff (the (go_get (ms_projects ?st') ?pid)) c = []"
    by (simp add: st1_def runner_settings_undeclared)
  ultimately show ?thesis using listed set by (intro exI [of _ ?st'] exI [of _ D]) simp
qed

text \<open>
  With every declared runner listed, no two matched to the same one, and none declaring what the mock
  server does not store, the reconciler fulfils its contract.
\<close>

definition runners_fit :: "gl_project \<Rightarrow> policy_config option \<Rightarrow> mock_state \<Rightarrow> bool" where
  "runners_fit project cfg st \<longleftrightarrow> governs project st \<and>
     (case runners_policy cfg of None \<Rightarrow> True
      | Some c \<Rightarrow> runners_known project c st
          \<and> (\<forall>rc \<in> set (rns_Runners c). findMatchingRunner rc (listed_runners st) \<noteq> None
               \<and> rn_RunUntagged rc = None \<and> rn_MaximumTimeout rc = None)
          \<and> distinct (map grn_ID (List.map_filter (\<lambda>c. findMatchingRunner c (listed_runners st)) (rns_Runners c))))"

lemma runners_converge:
  assumes pol: "runners_policy cfg = Some c" and fit: "runners_fit project cfg st" and drift: "all_drift project c st \<noteq> []"
  shows "\<exists>st'. Runners_Apply (mock_client err) project cfg st =
      (ok_apply runners_name (project_resource project) ActionUpdate (all_drift project c st), st')
    \<and> runners_fit project cfg st' \<and> all_drift project c st' = []"
proof -
  have known: "runners_known project c st"
    and dist: "distinct (map grn_ID (List.map_filter (\<lambda>c. findMatchingRunner c (listed_runners st)) (rns_Runners c)))"
    and each: "\<And>rc. rc \<in> set (rns_Runners c) \<Longrightarrow> findMatchingRunner rc (listed_runners st) \<noteq> None
               \<and> rn_RunUntagged rc = None \<and> rn_MaximumTimeout rc = None"
    using fit pol by (auto simp: runners_fit_def)
  obtain st' D where st': "Runners_Apply (mock_client err) project cfg st =
      (ok_apply runners_name (project_resource project) ActionUpdate (all_drift project c st), st')"
    "runners_known project c st'" "listed_runners st' = listed_runners st" "ms_runnerDetails st' = D"
    "runner_settings_diff (the (go_get (ms_projects st') (p_ID project))) c = []"
    and set: "\<And>rc r. rc \<in> set (rns_Runners c) \<Longrightarrow> findMatchingRunner rc (listed_runners st) = Some r \<Longrightarrow>
            go_get D (grn_ID r) = map_option (if has_update rc then edit_runner (runner_update rc) else id)
              (go_get (ms_runnerDetails st) (grn_ID r))"
    using apply_runners_mock [OF pol known drift, of err] dist by blast
  have "runner_drift st' rc = []" if rc: "rc \<in> set (rns_Runners c)" for rc
  proof -
    obtain r where r: "findMatchingRunner rc (listed_runners st) = Some r" using each [OF rc] by blast
    moreover obtain d where "go_get (ms_runnerDetails st) (grn_ID r) = Some d"
      using known rc r unfolding runners_known_def details_known_def by blast
    ultimately show ?thesis
      using set [OF rc r] each [OF rc] by (simp add: runner_drift_def st'(3,4) runner_diff_set del: if_split)
  qed
  then have "all_drift project c st' = []" using st'(5) by (simp add: all_drift_def)
  moreover have "runners_fit project cfg st'"
    using st'(2) dist each pol by (auto simp: runners_fit_def st'(3) runners_known_def)
  ultimately show ?thesis using st'(1) by blast
qed

interpretation runners: reconciler "Runners_Plan (mock_client err) project cfg" "Runners_Apply (mock_client err) project cfg"
  "runners_fit project cfg"
proof (cases "runners_policy cfg")
  case None
  then show "reconciler (Runners_Plan (mock_client err) project cfg) (Runners_Apply (mock_client err) project cfg) (runners_fit project cfg)"
    by (intro undeclared_reconciler) (simp_all add: fun_eq_iff Runners_Plan_def Runners_Apply_def)
next
  case pol: (Some c)
  have known: "runners_known project c s" if "runners_fit project cfg s" for s
    using that by (simp add: runners_fit_def pol)
  show "reconciler (Runners_Plan (mock_client err) project cfg) (Runners_Apply (mock_client err) project cfg) (runners_fit project cfg)"
  proof (rule reconcilerI)
    fix s :: mock_state
    let ?plan = "Runners_Plan (mock_client err) project cfg" and ?apply = "Runners_Apply (mock_client err) project cfg"
    show "snd (?plan s) = s" if "runners_fit project cfg s" by (simp add: plan_runners_mock [OF pol known [OF that]])
    show "?apply s = (noop_apply runners_name (project_resource project), s)" if "settled ?plan s"
      using that by (simp add: Runners_Apply_def pol apply_after_plan_settled)
    assume fit: "runners_fit project cfg s" and "\<not> settled ?plan s"
    then have "all_drift project c s \<noteq> []" using settled_runners [OF pol known [OF fit]] by simp
    from runners_converge [OF pol fit this, of err] known
    show "runners_fit project cfg (snd (?apply s)) \<and> (snd (fst (?apply s)) = None \<longrightarrow> settled ?plan (snd (?apply s)))"
      by (auto simp: settled_runners [OF pol])
  qed
qed

subsection \<open>A declared runner that is not assigned\<close>

text \<open>A declared runner that no listed runner matches is planned as a creation, but nothing assigns runners:
  the apply succeeds and reports that very change as applied, and the drift is still there afterwards,
  under the same conditions, so every later run reports it again.\<close>

theorem Runners_unassigned_reported_applied:
  assumes pol: "runners_policy cfg = Some c" and known: "runners_known project c st"
    and rc: "rc \<in> set (rns_Runners c)" and none: "findMatchingRunner rc (listed_runners st) = None"
  shows "\<exists>st'. Runners_Apply (mock_client err) project cfg st =
      (ok_apply runners_name (project_resource project) ActionUpdate (all_drift project c st), st')
    \<and> unassigned_diff rc \<in> set (all_drift project c st)
    \<and> runners_known project c st' \<and> findMatchingRunner rc (listed_runners st') = None
    \<and> \<not> settled (Runners_Plan (mock_client err) project cfg) st'"
proof -
  have mem: "unassigned_diff rc \<in> set (all_drift project c s)" if "findMatchingRunner rc (listed_runners s) = None" for s
    using rc that by (auto simp: all_drift_def runner_drift_def intro!: bexI [of _ rc])
  then have "all_drift project c st \<noteq> []" using none by (metis empty_iff empty_set)
  then obtain st' where st': "Runners_Apply (mock_client err) project cfg st =
      (ok_apply runners_name (project_resource project) ActionUpdate (all_drift project c st), st')"
    "runners_known project c st'" "listed_runners st' = listed_runners st"
    using apply_runners_mock [OF pol known] by blast
  have "all_drift project c st' \<noteq> []" using mem [of st'] none st'(3) by (metis empty_iff empty_set)
  with st' mem none show ?thesis by (auto simp: settled_runners [OF pol])
qed

definition example_runner :: runner_config where
  "example_runner =
     \<lparr>rn_ID = 99, rn_Description = ''deploy'', rn_Paused = Some False, rn_Locked = None, rn_TagList = [''deploy''],
      rn_RunUntagged = None, rn_AccessLevel = [], rn_MaximumTimeout = None\<rparr>"

definition example_runners :: runners_config where
  "example_runners = \<lparr>rns_SharedRunnersEnabled = Some True, rns_GroupRunnersEnabled = None, rns_Runners = [example_runner]\<rparr>"

definition example_runner_policy :: policy_config where
  "example_runner_policy = zero_policy_config\<lparr>cfg_Policies := zero_policies\<lparr>pol_Runners := Some example_runners\<rparr>\<rparr>"

lemma runners_policy_example: "runners_policy (Some example_runner_policy) = Some example_runners"
  by (simp add: runners_policy_def example_runner_policy_def)

lemma no_runners_example: "listed_runners example_state = []"
  by code_simp

lemma example_project_known: "go_get (ms_projects example_state) (p_ID example_project) = Some example_project"
  by code_simp

lemma runners_known_example: "runners_known example_project example_runners example_state"
  by (simp add: runners_known_def details_known_def governs_example example_project_known no_runners_example findMatchingRunner_def)

lemma Runners_unassigned_reported_applied_witness:
  "\<exists>st'. Runners_Apply (mock_client (\<lambda>_ m. Err m)) example_project (Some example_runner_policy) example_state =
      (ok_apply runners_name (project_resource example_project) ActionUpdate (all_drift example_project example_runners example_state), st')
    \<and> unassigned_diff example_runner \<in> set (all_drift example_project example_runners example_state)
    \<and> runners_known example_project example_runners st' \<and> findMatchingRunner example_runner (listed_runners st') = None
    \<and> \<not> settled (Runners_Plan (mock_client (\<lambda>_ m. Err m)) example_project (Some example_runner_policy)) st'"
  by (rule Runners_unassigned_reported_applied [OF runners_policy_example runners_known_example])
    (simp_all add: example_runners_def no_runners_example findMatchingRunner_def)

end
