(* ===== verification/Resolver.thy ===== *)
theory Resolver
  imports Mock_Facts
begin

section \<open>The caching resolver\<close>

text \<open>
  \<^verbatim>\<open>CachingResolver\<close> of \<^verbatim>\<open>internal/governance/approvalrules.go\<close>: user names and group paths to their numbers,
  with a cache per reconciler that lives as long as the process. The methods of a reconciler that
  resolves names run over the pair of its cache and the remote instance. The two locks protect one
  map access each; two goroutines that miss the same key both store what they found, so a run of
  the methods one after the other has all outcomes.
\<close>

record resolver_cache =
  rsc_userCache :: "(string, int) go_map"
  rsc_groupCache :: "(string, int) go_map"

definition NewCachingResolver :: resolver_cache where
  "NewCachingResolver = \<lparr>rsc_userCache = [], rsc_groupCache = []\<rparr>"

type_synonym ('a, 's) resolving = "resolver_cache \<times> 's \<Rightarrow> 'a go_result \<times> (resolver_cache \<times> 's)"

definition clean_user :: "string \<Rightarrow> string" where
  "clean_user username = TrimPrefix (TrimSpace (ToLower username)) ''@''"

definition clean_group :: "string \<Rightarrow> string" where
  "clean_group path = Trim (TrimSpace (ToLower path)) ''/''"

definition ResolveUsername :: "'s gitlab_client \<Rightarrow> string \<Rightarrow> (int, 's) resolving" where
  "ResolveUsername client username cs =
     (case cs of (c, s) \<Rightarrow>
        (let cleanUser = clean_user username in
         if cleanUser = [] then (Inl (Err ''empty username provided''), (c, s))
         else
           (case go_get (rsc_userCache c) cleanUser of
              Some i \<Rightarrow> (Inr i, (c, s))
            | None \<Rightarrow>
                (case ListUsers (cl_Users client) cleanUser s of
                   (Inl err, s') \<Rightarrow> (Inl (Wrapf (''failed to lookup user '' @ squote cleanUser) err), (c, s'))
                 | (Inr [], s') \<Rightarrow> (Inl (Err (''user '' @ squote cleanUser @ '' not found in GitLab instance'')), (c, s'))
                 | (Inr (u # _), s') \<Rightarrow>
                     (Inr (gu_ID u), (c\<lparr>rsc_userCache := go_put cleanUser (gu_ID u) (rsc_userCache c)\<rparr>, s'))))))"

definition ResolveGroupPath :: "'s gitlab_client \<Rightarrow> string \<Rightarrow> (int, 's) resolving" where
  "ResolveGroupPath client groupPath cs =
     (case cs of (c, s) \<Rightarrow>
        (let cleanPath = clean_group groupPath in
         if cleanPath = [] then (Inl (Err ''empty group path provided''), (c, s))
         else
           (case go_get (rsc_groupCache c) cleanPath of
              Some i \<Rightarrow> (Inr i, (c, s))
            | None \<Rightarrow>
                (case GetGroup (cl_Groups client) cleanPath s of
                   (Inl err, s') \<Rightarrow> (Inl (Wrapf (''failed to lookup group '' @ squote cleanPath) err), (c, s'))
                 | (Inr None, s') \<Rightarrow> (Inl (Err (''group '' @ squote cleanPath @ '' not found in GitLab instance'')), (c, s'))
                 | (Inr (Some g), s') \<Rightarrow>
                     (Inr (g_ID g), (c\<lparr>rsc_groupCache := go_put cleanPath (g_ID g) (rsc_groupCache c)\<rparr>, s'))))))"

subsection \<open>Computations that resolve names\<close>

text \<open>Sequencing, where the first error ends the computation, and a call to the remote instance.\<close>

definition rreturn :: "'a \<Rightarrow> ('a, 's) resolving" where
  "rreturn x cs = (Inr x, cs)"

definition rbind :: "('a, 's) resolving \<Rightarrow> ('a \<Rightarrow> ('b, 's) resolving) \<Rightarrow> ('b, 's) resolving" where
  "rbind m f cs = (case m cs of (Inl e, cs') \<Rightarrow> (Inl e, cs') | (Inr x, cs') \<Rightarrow> f x cs')"

definition rwrap :: "string \<Rightarrow> ('a, 's) resolving \<Rightarrow> ('a, 's) resolving" where
  "rwrap msg m cs = (case m cs of (Inl e, cs') \<Rightarrow> (Inl (Wrapf msg e), cs') | (Inr x, cs') \<Rightarrow> (Inr x, cs'))"

fun resolve_each :: "('a \<Rightarrow> ('b, 's) resolving) \<Rightarrow> 'a list \<Rightarrow> ('b list, 's) resolving" where
  "resolve_each f [] = rreturn []"
| "resolve_each f (x # xs) = rbind (f x) (\<lambda>y. rbind (resolve_each f xs) (\<lambda>ys. rreturn (y # ys)))"

definition with_cache :: "('s \<Rightarrow> 'a \<times> 's) \<Rightarrow> resolver_cache \<times> 's \<Rightarrow> 'a \<times> (resolver_cache \<times> 's)" where
  "with_cache f cs = (case f (snd cs) of (x, s') \<Rightarrow> (x, (fst cs, s')))"

lemma with_cache_pair [simp]: "with_cache f (c, s) = (fst (f s), (c, snd (f s)))"
  by (simp add: with_cache_def split_beta)

subsection \<open>The specification: looking up without a cache\<close>

definition lookup_user :: "(string \<Rightarrow> gl_user list go_result) \<Rightarrow> string \<Rightarrow> int go_result" where
  "lookup_user users username =
     (let u = clean_user username in
      if u = [] then Inl (Err ''empty username provided'')
      else (case users u of
              Inl err \<Rightarrow> Inl (Wrapf (''failed to lookup user '' @ squote u) err)
            | Inr [] \<Rightarrow> Inl (Err (''user '' @ squote u @ '' not found in GitLab instance''))
            | Inr (x # _) \<Rightarrow> Inr (gu_ID x)))"

definition lookup_group :: "(string \<Rightarrow> gl_group option go_result) \<Rightarrow> string \<Rightarrow> int go_result" where
  "lookup_group groups path =
     (let g = clean_group path in
      if g = [] then Inl (Err ''empty group path provided'')
      else (case groups g of
              Inl err \<Rightarrow> Inl (Wrapf (''failed to lookup group '' @ squote g) err)
            | Inr None \<Rightarrow> Inl (Err (''group '' @ squote g @ '' not found in GitLab instance''))
            | Inr (Some x) \<Rightarrow> Inr (g_ID x)))"

text \<open>What is cached is what the directory says.\<close>

definition cache_sound ::
  "(string \<Rightarrow> gl_user list go_result) \<Rightarrow> (string \<Rightarrow> gl_group option go_result) \<Rightarrow> resolver_cache \<Rightarrow> bool" where
  "cache_sound users groups c \<longleftrightarrow>
     (\<forall>u i. go_get (rsc_userCache c) u = Some i \<longrightarrow> (\<exists>x xs. users u = Inr (x # xs) \<and> gu_ID x = i))
   \<and> (\<forall>g i. go_get (rsc_groupCache c) g = Some i \<longrightarrow> (\<exists>x. groups g = Inr (Some x) \<and> g_ID x = i))"

lemma cache_sound_New: "cache_sound users groups NewCachingResolver"
  by (simp add: cache_sound_def NewCachingResolver_def)

text \<open>
  The contract of the directory: in the states considered its answers depend on the name only, and
  asking changes nothing. Under it the cache is transparent.
\<close>

locale user_directory =
  fixes client :: "'s gitlab_client"
    and users :: "string \<Rightarrow> gl_user list go_result" and groups :: "string \<Rightarrow> gl_group option go_result"
    and stable :: "'s \<Rightarrow> bool"
  assumes list_users: "stable s \<Longrightarrow> ListUsers (cl_Users client) u s = (users u, s)"
    and get_group: "stable s \<Longrightarrow> GetGroup (cl_Groups client) g s = (groups g, s)"
begin

lemma username_transparent:
  assumes "stable s" and "cache_sound users groups c"
  shows "\<exists>c'. ResolveUsername client name (c, s) = (lookup_user users name, (c', s)) \<and> cache_sound users groups c'"
proof (cases "go_get (rsc_userCache c) (clean_user name)")
  case (Some i)
  with assms(2) obtain x xs where "users (clean_user name) = Inr (x # xs)" "gu_ID x = i"
    unfolding cache_sound_def by blast
  with Some assms(2) show ?thesis by (intro exI [of _ c]) (simp add: ResolveUsername_def lookup_user_def Let_def)
next
  case None
  show ?thesis
  proof (cases "clean_user name = []")
    case False
    show ?thesis
    proof (cases "users (clean_user name)")
      case (Inl e)
      with None False assms show ?thesis
        by (intro exI [of _ c]) (simp add: ResolveUsername_def lookup_user_def list_users Let_def)
    next
      case (Inr us)
      show ?thesis
      proof (cases us)
        case Nil
        with None False Inr assms show ?thesis
          by (intro exI [of _ c]) (simp add: ResolveUsername_def lookup_user_def list_users Let_def)
      next
        case (Cons u us')
        let ?c = "c\<lparr>rsc_userCache := go_put (clean_user name) (gu_ID u) (rsc_userCache c)\<rparr>"
        have "cache_sound users groups ?c" using assms(2) Inr Cons by (auto simp: cache_sound_def)
        with None False Inr Cons assms(1) show ?thesis
          by (intro exI [of _ ?c]) (simp add: ResolveUsername_def lookup_user_def list_users Let_def)
      qed
    qed
  qed (use assms(2) in \<open>auto simp: ResolveUsername_def lookup_user_def Let_def\<close>)
qed

lemma group_path_transparent:
  assumes "stable s" and "cache_sound users groups c"
  shows "\<exists>c'. ResolveGroupPath client path (c, s) = (lookup_group groups path, (c', s)) \<and> cache_sound users groups c'"
proof (cases "go_get (rsc_groupCache c) (clean_group path)")
  case (Some i)
  with assms(2) obtain x where "groups (clean_group path) = Inr (Some x)" "g_ID x = i"
    unfolding cache_sound_def by blast
  with Some assms(2) show ?thesis by (intro exI [of _ c]) (simp add: ResolveGroupPath_def lookup_group_def Let_def)
next
  case None
  show ?thesis
  proof (cases "clean_group path = []")
    case False
    show ?thesis
    proof (cases "groups (clean_group path)")
      case (Inl e)
      with None False assms show ?thesis
        by (intro exI [of _ c]) (simp add: ResolveGroupPath_def lookup_group_def get_group Let_def)
    next
      case (Inr g)
      show ?thesis
      proof (cases g)
        case None': None
        with None False Inr assms show ?thesis
          by (intro exI [of _ c]) (simp add: ResolveGroupPath_def lookup_group_def get_group Let_def)
      next
        case (Some x)
        let ?c = "c\<lparr>rsc_groupCache := go_put (clean_group path) (g_ID x) (rsc_groupCache c)\<rparr>"
        have "cache_sound users groups ?c" using assms(2) Inr Some by (auto simp: cache_sound_def)
        with None False Inr Some assms(1) show ?thesis
          by (intro exI [of _ ?c]) (simp add: ResolveGroupPath_def lookup_group_def get_group Let_def)
      qed
    qed
  qed (use assms(2) in \<open>auto simp: ResolveGroupPath_def lookup_group_def Let_def\<close>)
qed

text \<open>
  A computation that asks nothing but the directory: what it returns does not depend on the cache, and
  it leaves the remote instance and the soundness of the cache alone.
\<close>

definition determined :: "('a, 's) resolving \<Rightarrow> bool" where
  "determined m \<longleftrightarrow> (\<exists>x. \<forall>c s. stable s \<longrightarrow> cache_sound users groups c \<longrightarrow>
     (\<exists>c'. m (c, s) = (x, (c', s)) \<and> cache_sound users groups c'))"

lemma determined_return: "determined (rreturn x)"
  by (auto simp: determined_def rreturn_def)

lemma determined_username: "determined (ResolveUsername client name)"
  unfolding determined_def by (intro exI [of _ "lookup_user users name"] allI impI username_transparent)

lemma determined_group_path: "determined (ResolveGroupPath client path)"
  unfolding determined_def by (intro exI [of _ "lookup_group groups path"] allI impI group_path_transparent)

lemma determined_wrap: "determined m \<Longrightarrow> determined (rwrap msg m)"
proof -
  assume "determined m"
  then obtain x where x: "\<And>c s. stable s \<Longrightarrow> cache_sound users groups c \<Longrightarrow>
      \<exists>c'. m (c, s) = (x, (c', s)) \<and> cache_sound users groups c'"
    by (auto simp: determined_def)
  show ?thesis unfolding determined_def
  proof (intro exI [of _ "case x of Inl e \<Rightarrow> Inl (Wrapf msg e) | Inr y \<Rightarrow> Inr y"] allI impI)
    fix c s assume "stable s" "cache_sound users groups c"
    from x [OF this] obtain c' where "m (c, s) = (x, (c', s))" "cache_sound users groups c'" by blast
    then show "\<exists>c'. rwrap msg m (c, s) = (case x of Inl e \<Rightarrow> Inl (Wrapf msg e) | Inr y \<Rightarrow> Inr y, (c', s))
        \<and> cache_sound users groups c'"
      by (intro exI [of _ c']) (simp add: rwrap_def split: sum.splits)
  qed
qed

lemma determined_bind:
  assumes "determined m" and "\<And>y. determined (f y)"
  shows "determined (rbind m f)"
proof -
  from assms(1) obtain x where x: "\<And>c s. stable s \<Longrightarrow> cache_sound users groups c \<Longrightarrow>
      \<exists>c'. m (c, s) = (x, (c', s)) \<and> cache_sound users groups c'"
    by (auto simp: determined_def)
  show ?thesis
  proof (cases x)
    case (Inl e)
    show ?thesis unfolding determined_def
    proof (intro exI [of _ "Inl e"] allI impI)
      fix c s assume "stable s" "cache_sound users groups c"
      from x [OF this] obtain c' where "m (c, s) = (x, (c', s))" "cache_sound users groups c'" by blast
      then show "\<exists>c'. rbind m f (c, s) = (Inl e, (c', s)) \<and> cache_sound users groups c'"
        by (intro exI [of _ c']) (simp add: rbind_def Inl)
    qed
  next
    case (Inr y)
    from assms(2) [of y] obtain z where z: "\<And>c s. stable s \<Longrightarrow> cache_sound users groups c \<Longrightarrow>
        \<exists>c'. f y (c, s) = (z, (c', s)) \<and> cache_sound users groups c'"
      by (auto simp: determined_def)
    show ?thesis unfolding determined_def
    proof (intro exI [of _ z] allI impI)
      fix c s assume st: "stable s" "cache_sound users groups c"
      from x [OF this] obtain c1 where c1: "m (c, s) = (x, (c1, s))" "cache_sound users groups c1" by blast
      from z [OF st(1) c1(2)] obtain c2 where "f y (c1, s) = (z, (c2, s))" "cache_sound users groups c2" by blast
      with c1 show "\<exists>c'. rbind m f (c, s) = (z, (c', s)) \<and> cache_sound users groups c'"
        by (intro exI [of _ c2]) (simp add: rbind_def Inr)
    qed
  qed
qed

lemma determined_each: "(\<And>x. determined (f x)) \<Longrightarrow> determined (resolve_each f xs)"
  by (induction xs) (simp_all add: determined_return determined_bind)

lemma determined_value:
  assumes "determined m" and "stable s0" and "stable s" and "cache_sound users groups c"
  shows "\<exists>c'. m (c, s) = (fst (m (NewCachingResolver, s0)), (c', s)) \<and> cache_sound users groups c'"
proof -
  from assms(1) obtain x where x: "\<And>c s. stable s \<Longrightarrow> cache_sound users groups c \<Longrightarrow>
      \<exists>c'. m (c, s) = (x, (c', s)) \<and> cache_sound users groups c'"
    by (auto simp: determined_def)
  from x [OF assms(2) cache_sound_New] x [OF assms(3,4)] show ?thesis by auto
qed

lemmas determined_rules = determined_return determined_username determined_group_path determined_wrap determined_bind determined_each

end

subsection \<open>The directory of the mock server\<close>

text \<open>The part of the state the lookups read; no reconciler writes it.\<close>

definition directory_of :: "mock_state \<Rightarrow> (int, gl_user) go_map \<times> (string, int) go_map \<times> (int, gl_group) go_map \<times> (string, int) go_map" where
  "directory_of st = (ms_users st, ms_userByUsername st, ms_groups st, ms_groupByPath st)"

lemma directory_frame [simp]:
  "directory_of (st\<lparr>ms_projects := v0\<rparr>) = directory_of st"
  "directory_of (st\<lparr>ms_projectByPath := v1\<rparr>) = directory_of st"
  "directory_of (st\<lparr>ms_pipelineRetention := v2\<rparr>) = directory_of st"
  "directory_of (st\<lparr>ms_projectPushRules := v3\<rparr>) = directory_of st"
  "directory_of (st\<lparr>ms_groupPushRules := v4\<rparr>) = directory_of st"
  "directory_of (st\<lparr>ms_protectedBranches := v5\<rparr>) = directory_of st"
  "directory_of (st\<lparr>ms_protectedTags := v6\<rparr>) = directory_of st"
  "directory_of (st\<lparr>ms_protectedEnvironments := v7\<rparr>) = directory_of st"
  "directory_of (st\<lparr>ms_environments := v8\<rparr>) = directory_of st"
  "directory_of (st\<lparr>ms_projectApprovals := v9\<rparr>) = directory_of st"
  "directory_of (st\<lparr>ms_projectApprovalRules := v10\<rparr>) = directory_of st"
  "directory_of (st\<lparr>ms_nextApprovalRuleID := v11\<rparr>) = directory_of st"
  "directory_of (st\<lparr>ms_projectVariables := v12\<rparr>) = directory_of st"
  "directory_of (st\<lparr>ms_groupVariables := v13\<rparr>) = directory_of st"
  "directory_of (st\<lparr>ms_runnerDetails := v14\<rparr>) = directory_of st"
  "directory_of (st\<lparr>ms_complianceFrameworks := v15\<rparr>) = directory_of st"
  "directory_of (st\<lparr>ms_projectHooks := v16\<rparr>) = directory_of st"
  "directory_of (st\<lparr>ms_nextHookID := v17\<rparr>) = directory_of st"
  "directory_of (st\<lparr>ms_targetBranchRules := v18\<rparr>) = directory_of st"
  "directory_of (st\<lparr>ms_nextTargetRuleID := v19\<rparr>) = directory_of st"
  "directory_of (st\<lparr>ms_repositoryFiles := v20\<rparr>) = directory_of st"
  "directory_of (st\<lparr>ms_branches := v21\<rparr>) = directory_of st"
  "directory_of (st\<lparr>ms_mergeRequests := v22\<rparr>) = directory_of st"
  "directory_of (st\<lparr>ms_nextMRIID := v23\<rparr>) = directory_of st"
  by (simp_all add: directory_of_def)

definition users_in :: "mock_state \<Rightarrow> string \<Rightarrow> gl_user list go_result" where
  "users_in st u = fst (ListUsers mock_users u st)"

definition groups_in :: "sdk_error \<Rightarrow> mock_state \<Rightarrow> string \<Rightarrow> gl_group option go_result" where
  "groups_in err st g = fst (GetGroup (mock_groups err) g st)"

lemma users_in_cong: "directory_of st = directory_of st' \<Longrightarrow> users_in st = users_in st'"
  by (simp add: fun_eq_iff users_in_def mock_users_def GetUserByUsername_def State_ListUsers_def directory_of_def
      cong: option.case_cong)

lemma groups_in_cong: "directory_of st = directory_of st' \<Longrightarrow> groups_in err st = groups_in err st'"
  by (simp add: fun_eq_iff groups_in_def mock_groups_def State_GetGroup_def resolveGroupIDLocked_def directory_of_def
      cong: option.case_cong)

interpretation mock_dir: user_directory "mock_client err" "users_in st0" "groups_in err st0" "\<lambda>st. directory_of st = directory_of st0"
proof
  fix s :: mock_state and u g
  assume eq: "directory_of s = directory_of st0"
  show "ListUsers (cl_Users (mock_client err)) u s = (users_in st0 u, s)"
    using users_in_cong [OF eq] by (simp add: users_in_def fun_eq_iff mock_users_def)
  show "GetGroup (cl_Groups (mock_client err)) g s = (groups_in err st0 g, s)"
    using groups_in_cong [OF eq, of err] by (simp add: groups_in_def fun_eq_iff mock_groups_def)
qed

subsection \<open>The contract of a reconciler with private state\<close>

text \<open>
  A reconciler with a cache keeps the contract for what it shows of the state, its \<open>view\<close>: planning
  may fill the cache but leaves the remote instance as it is.
\<close>

definition quiet :: "'s plan_fun \<Rightarrow> 's \<Rightarrow> bool" where
  "quiet plan s \<longleftrightarrow> (\<exists>pl. fst (plan s) = Inr pl \<and> \<not> pr_HasChanges pl)"

locale viewed_reconciler =
  fixes plan :: "'s plan_fun" and apply' :: "'s apply_fun" and ok :: "'s \<Rightarrow> bool" and view :: "'s \<Rightarrow> 'v"
  assumes plan_view: "ok s \<Longrightarrow> view (snd (plan s)) = view s"
    and plan_ok: "ok s \<Longrightarrow> ok (snd (plan s))"
    and apply_ok: "ok s \<Longrightarrow> ok (snd (apply' s))"
    and apply_quiet: "ok s \<Longrightarrow> snd (fst (apply' s)) = None \<Longrightarrow> quiet plan (snd (apply' s))"
    and quiet_apply: "ok s \<Longrightarrow> quiet plan s \<Longrightarrow>
      view (snd (apply' s)) = view s \<and> snd (fst (apply' s)) = None \<and> ar_Status (fst (fst (apply' s))) = StatusNoop"
begin

lemma second_apply:
  assumes "ok s" and "snd (fst (apply' s)) = None"
  shows "view (snd (apply' (snd (apply' s)))) = view (snd (apply' s))"
    and "ar_Status (fst (fst (apply' (snd (apply' s))))) = StatusNoop"
  using quiet_apply [OF apply_ok [OF assms(1)] apply_quiet [OF assms]] by simp_all

end

text \<open>A reconciler without private state shows all of it.\<close>

sublocale reconciler \<subseteq> viewed: viewed_reconciler plan apply' inv "\<lambda>s. s"
proof
  fix s
  assume "inv s"
  note ro = plan_read_only [OF this]
  show "snd (plan s) = s" "inv (snd (plan s))" using ro \<open>inv s\<close> by simp_all
  show "inv (snd (apply' s))" using \<open>inv s\<close> by (rule apply_inv)
  show "quiet plan (snd (apply' s))" if "snd (fst (apply' s)) = None"
    using apply_settles [OF \<open>inv s\<close> that] by (auto simp: settled_def quiet_def split: prod.splits sum.splits)
  show "snd (apply' s) = s \<and> snd (fst (apply' s)) = None \<and> ar_Status (fst (fst (apply' s))) = StatusNoop" if "quiet plan s"
  proof (rule settled_apply [OF \<open>inv s\<close>])
    from that ro show "settled plan s" by (auto simp: settled_def quiet_def split: prod.splits)
  qed
qed

subsection \<open>The cache is transparent\<close>

text \<open>A small instance with one user and one group.\<close>

definition staffed_state :: mock_state where
  "staffed_state =
     example_state\<lparr>ms_users := [(5, \<lparr>gu_ID = 5, gu_Username = ''alice'', gu_Name = ''Alice''\<rparr>)], ms_userByUsername := [(''alice'', 5)]\<rparr>"

lemma governs_staffed: "governs example_project staffed_state"
proof -
  have "mock_ok staffed_state"
    using governs_example
    by (simp add: staffed_state_def governs_def mock_ok_def projects_keyed_def branches_keyed_def rules_keyed_def)
  moreover have "resolveProjectIDLocked ''g/p'' staffed_state = Some 7" by code_simp
  ultimately show ?thesis by (simp add: governs_def example_project_def in_int64_def)
qed

text \<open>Property C34. Caching is invisible: from any cache that agrees with the server's directory, resolving a user name or a group
  path returns what the uncached lookup of the cleaned name returns, errors included, leaves the server as it
  is, and the cache agrees with the directory again.\<close>

theorem Resolver_transparent:
  assumes "cache_sound (users_in st) (groups_in err st) c"
  shows "\<exists>c1 c2. ResolveUsername (mock_client err) name (c, st) = (lookup_user (users_in st) name, (c1, st))
    \<and> ResolveGroupPath (mock_client err) path (c, st) = (lookup_group (groups_in err st) path, (c2, st))
    \<and> cache_sound (users_in st) (groups_in err st) c1 \<and> cache_sound (users_in st) (groups_in err st) c2"
  using mock_dir.username_transparent [OF refl assms, of name] mock_dir.group_path_transparent [OF refl assms, of path] by blast

lemma Resolver_transparent_witness:
  "\<exists>c1 c2. ResolveUsername (mock_client (\<lambda>_ m. Err m)) ''@Alice'' (NewCachingResolver, staffed_state)
      = (lookup_user (users_in staffed_state) ''@Alice'', (c1, staffed_state))
    \<and> ResolveGroupPath (mock_client (\<lambda>_ m. Err m)) ''/g/'' (NewCachingResolver, staffed_state)
      = (lookup_group (groups_in (\<lambda>_ m. Err m) staffed_state) ''/g/'', (c2, staffed_state))
    \<and> cache_sound (users_in staffed_state) (groups_in (\<lambda>_ m. Err m) staffed_state) c1
    \<and> cache_sound (users_in staffed_state) (groups_in (\<lambda>_ m. Err m) staffed_state) c2"
  by (rule Resolver_transparent [OF cache_sound_New])

end
