(* ===== verification/Rule_Loop.thy ===== *)
theory Rule_Loop
  imports Resolver
begin

section \<open>Loops over the rules of a policy\<close>

text \<open>
  \<^verbatim>\<open>protectedtags.go\<close> and \<^verbatim>\<open>protectedenvironments.go\<close> share the shape of their loops: one pass over the
  declared rules and, with pruning, one over the live entries. A pass keeps the entry, reports a
  change, or ends with an error; the first change names the overall action. A failure carries its
  action, the diffs it adds to those applied so far, the error stored in the result and the one returned.
\<close>

datatype rule_outcome =
    RuleKept
  | RuleChanged action_type diff
  | RuleFailed action_type "diff list" go_error go_error

type_synonym loop_result = "(action_type \<times> diff list \<times> go_error \<times> go_error) + (diff list \<times> action_type)"

fun each_rule :: "('r \<Rightarrow> 's \<Rightarrow> rule_outcome \<times> 's) \<Rightarrow> 'r list \<Rightarrow> diff list \<times> action_type \<Rightarrow> 's \<Rightarrow> loop_result \<times> 's" where
  "each_rule step [] acc s = (Inr acc, s)"
| "each_rule step (r # rs) acc s =
     (case step r s of
        (RuleKept, s') \<Rightarrow> each_rule step rs acc s'
      | (RuleChanged a d, s') \<Rightarrow> each_rule step rs (fst acc @ [d], note_action a (snd acc)) s'
      | (RuleFailed a ds stored returned, s') \<Rightarrow> (Inl (a, fst acc @ ds, stored, returned), s'))"

text \<open>The end of \<^verbatim>\<open>Plan\<close> and of \<^verbatim>\<open>Apply\<close>.\<close>

definition plan_result_of :: "string \<Rightarrow> resource \<Rightarrow> loop_result \<Rightarrow> plan_result go_result" where
  "plan_result_of name r out =
     (case out of Inl (a, ds, stored, returned) \<Rightarrow> Inl returned | Inr (ds, a) \<Rightarrow> Inr (plan_of_diffs name r a ds))"

definition apply_result_of :: "string \<Rightarrow> resource \<Rightarrow> loop_result \<Rightarrow> apply_result \<times> go_error option" where
  "apply_result_of name r out =
     (case out of
        Inl (a, ds, stored, returned) \<Rightarrow> failed_apply name r a ds stored returned
      | Inr (ds, a) \<Rightarrow> if ds = [] then noop_apply name r else ok_apply name r a ds)"

text \<open>One loop after another.\<close>

definition then_loop :: "loop_result \<times> 's \<Rightarrow> (diff list \<times> action_type \<Rightarrow> 's \<Rightarrow> loop_result \<times> 's) \<Rightarrow> loop_result \<times> 's" where
  "then_loop x k = (case x of (Inl e, s) \<Rightarrow> (Inl e, s) | (Inr acc, s) \<Rightarrow> k acc s)"

text \<open>
  The contract of one step over a store of named entries: it concerns the entry of its own rule only,
  keeps everything exactly when the entry was good, and leaves a good one; it fails exactly where the
  rule does. \<open>live\<close> is the store as it was listed before the loop, \<open>shown\<close> the remote instance.
\<close>

definition reports :: "rule_outcome \<Rightarrow> bool" where
  "reports out \<longleftrightarrow> (case out of RuleChanged a d \<Rightarrow> a \<noteq> ActionNoop \<and> a \<noteq> ActionSkipped | _ \<Rightarrow> True)"

definition failed :: "rule_outcome \<Rightarrow> bool" where
  "failed out \<longleftrightarrow> (case out of RuleFailed a ds e e' \<Rightarrow> True | _ \<Rightarrow> False)"

lemma outcome_cases:
  obtains "out = RuleKept" | a d where "out = RuleChanged a d" | "failed out"
  by (cases out) (auto simp: failed_def)

lemma failed_simps [simp]: "\<not> failed RuleKept" "\<not> failed (RuleChanged a d)" "failed (RuleFailed a' ds e e')"
  by (simp_all add: failed_def)

lemma reports_simps [simp]:
  "reports RuleKept" "reports (RuleChanged a d) \<longleftrightarrow> a \<noteq> ActionNoop \<and> a \<noteq> ActionSkipped" "reports (RuleFailed a' ds e e')"
  by (simp_all add: reports_def)

text \<open>A planning step never touches the store.\<close>

locale plan_steps =
  fixes step :: "'r \<Rightarrow> 's \<Rightarrow> rule_outcome \<times> 's" and ok :: "'s \<Rightarrow> bool" and shown :: "'s \<Rightarrow> 'x" and fails :: "'r \<Rightarrow> bool"
    and good :: "'r \<Rightarrow> bool"
  assumes step_ok: "ok s \<Longrightarrow> ok (snd (step r s))"
    and step_shown: "ok s \<Longrightarrow> shown (snd (step r s)) = shown s"
    and step_reports: "ok s \<Longrightarrow> reports (fst (step r s))"
    and step_fails: "ok s \<Longrightarrow> failed (fst (step r s)) \<longleftrightarrow> fails r"
    and step_kept: "ok s \<Longrightarrow> \<not> fails r \<Longrightarrow> fst (step r s) = RuleKept \<longleftrightarrow> good r"
begin

lemma plan_loop:
  "ok s \<Longrightarrow> ok (snd (each_rule step rs acc s)) \<and> shown (snd (each_rule step rs acc s)) = shown s
    \<and> (case fst (each_rule step rs acc s) of
         Inl e \<Rightarrow> \<exists>r \<in> set rs. fails r
       | Inr acc' \<Rightarrow> (\<forall>r \<in> set rs. \<not> fails r) \<and> (fst acc' = [] \<longleftrightarrow> fst acc = [] \<and> (\<forall>r \<in> set rs. good r))
                      \<and> (tracks acc \<longrightarrow> tracks acc'))"
proof (induction rs arbitrary: acc s)
  case (Cons r rs)
  obtain out s' where out: "step r s = (out, s')" by (cases "step r s")
  have facts: "ok s'" "shown s' = shown s" "reports out" "failed out \<longleftrightarrow> fails r"
    "\<not> fails r \<Longrightarrow> out = RuleKept \<longleftrightarrow> good r"
    using step_ok [OF Cons.prems, of r] step_shown [OF Cons.prems, of r] step_reports [OF Cons.prems, of r]
      step_fails [OF Cons.prems, of r] step_kept [OF Cons.prems, of r] out by simp_all
  show ?case
  proof (cases out)
    case RuleKept
    with facts Cons.IH [OF facts(1), of acc] out show ?thesis by (auto split: sum.splits)
  next
    case (RuleChanged a d)
    have "tracks acc \<Longrightarrow> tracks (fst acc @ [d], note_action a (snd acc))"
      using facts(3) RuleChanged by (cases acc) simp
    with facts RuleChanged Cons.IH [OF facts(1), of "(fst acc @ [d], note_action a (snd acc))"] out
    show ?thesis by (auto split: sum.splits)
  next
    case (RuleFailed a ds e e')
    with facts out show ?thesis by auto
  qed
qed simp

end

locale rule_steps =
  fixes step :: "'r \<Rightarrow> 's \<Rightarrow> rule_outcome \<times> 's" and ok :: "'s \<Rightarrow> bool" and view :: "'s \<Rightarrow> string \<Rightarrow> 'v option"
    and shown :: "'s \<Rightarrow> 'x" and nm :: "'r \<Rightarrow> string" and good :: "'v option \<Rightarrow> 'r \<Rightarrow> bool" and fails :: "'r \<Rightarrow> bool"
    and live :: "string \<Rightarrow> 'v option" and rules :: "'r set"
  assumes step_ok: "ok s \<Longrightarrow> r \<in> rules \<Longrightarrow> view s (nm r) = live (nm r) \<Longrightarrow> ok (snd (step r s))"
    and step_other: "ok s \<Longrightarrow> r \<in> rules \<Longrightarrow> view s (nm r) = live (nm r) \<Longrightarrow> n \<noteq> nm r \<Longrightarrow> view (snd (step r s)) n = view s n"
    and step_fails: "ok s \<Longrightarrow> r \<in> rules \<Longrightarrow> view s (nm r) = live (nm r) \<Longrightarrow> failed (fst (step r s)) \<longleftrightarrow> fails r"
    and step_kept: "ok s \<Longrightarrow> r \<in> rules \<Longrightarrow> view s (nm r) = live (nm r) \<Longrightarrow> fst (step r s) = RuleKept \<Longrightarrow>
      shown (snd (step r s)) = shown s \<and> view (snd (step r s)) (nm r) = view s (nm r) \<and> good (live (nm r)) r"
    and step_changed: "ok s \<Longrightarrow> r \<in> rules \<Longrightarrow> view s (nm r) = live (nm r) \<Longrightarrow> fst (step r s) = RuleChanged a d \<Longrightarrow>
      good (view (snd (step r s)) (nm r)) r \<and> \<not> good (live (nm r)) r"
begin

text \<open>
  A loop that ends well has made every rule good; it reports no diffs exactly when they all were, and
  then the remote instance is as before. It fails exactly where a rule does.
\<close>

lemma apply_loop:
  assumes "ok s" and "set rs \<subseteq> rules" and "distinct (map nm rs)" and "\<And>r. r \<in> set rs \<Longrightarrow> view s (nm r) = live (nm r)"
  shows "ok (snd (each_rule step rs acc s))
    \<and> (\<forall>n. n \<notin> nm ` set rs \<longrightarrow> view (snd (each_rule step rs acc s)) n = view s n)
    \<and> (case fst (each_rule step rs acc s) of
         Inl e \<Rightarrow> \<exists>r \<in> set rs. fails r
       | Inr acc' \<Rightarrow> (\<forall>r \<in> set rs. \<not> fails r \<and> good (view (snd (each_rule step rs acc s)) (nm r)) r)
           \<and> (fst acc' = [] \<longleftrightarrow> fst acc = [] \<and> (\<forall>r \<in> set rs. good (live (nm r)) r))
           \<and> ((\<forall>r \<in> set rs. good (live (nm r)) r) \<longrightarrow> acc' = acc \<and> shown (snd (each_rule step rs acc s)) = shown s))"
  using assms
proof (induction rs arbitrary: acc s)
  case (Cons r rs)
  obtain out s' where out: "step r s = (out, s')" by (cases "step r s")
  have r: "r \<in> rules" "view s (nm r) = live (nm r)" using Cons.prems(2,4) by simp_all
  note facts = step_ok [OF Cons.prems(1) r] step_other [OF Cons.prems(1) r] step_fails [OF Cons.prems(1) r]
    step_kept [OF Cons.prems(1) r] step_changed [OF Cons.prems(1) r]
  have ok': "ok s'" using facts(1) out by simp
  have fresh: "nm r \<notin> nm ` set rs" and dist: "distinct (map nm rs)" using Cons.prems(3) by auto
  have sub: "set rs \<subseteq> rules" using Cons.prems(2) by simp
  have live: "view s' (nm q) = live (nm q)" if "q \<in> set rs" for q
  proof -
    have "nm q \<noteq> nm r" using fresh that by (metis imageI)
    then show ?thesis using facts(2) [of "nm q"] out Cons.prems(4) that by simp
  qed
  have IH: "ok (snd (each_rule step rs acc1 s'))
    \<and> (\<forall>n. n \<notin> nm ` set rs \<longrightarrow> view (snd (each_rule step rs acc1 s')) n = view s' n)
    \<and> (case fst (each_rule step rs acc1 s') of
         Inl e \<Rightarrow> \<exists>r \<in> set rs. fails r
       | Inr acc' \<Rightarrow> (\<forall>r \<in> set rs. \<not> fails r \<and> good (view (snd (each_rule step rs acc1 s')) (nm r)) r)
           \<and> (fst acc' = [] \<longleftrightarrow> fst acc1 = [] \<and> (\<forall>r \<in> set rs. good (live (nm r)) r))
           \<and> ((\<forall>r \<in> set rs. good (live (nm r)) r) \<longrightarrow> acc' = acc1 \<and> shown (snd (each_rule step rs acc1 s')) = shown s'))" for acc1
    by (rule Cons.IH [OF ok' sub dist live])
  have others: "view s' n = view s n" if "n \<noteq> nm r" for n using facts(2) [OF that] out by simp
  show ?case
  proof (cases out rule: outcome_cases)
    case 1
    then have kept: "shown s' = shown s" "view s' (nm r) = view s (nm r)" "good (live (nm r)) r" "\<not> fails r"
      using facts(3,4) out by auto
    show ?thesis using IH [of acc] out 1 kept others r(2) fresh by (auto split: sum.splits)
  next
    case (2 a d)
    then have changed: "good (view s' (nm r)) r" "\<not> good (live (nm r)) r" "\<not> fails r"
      using facts(3,5) out by auto
    show ?thesis
      using IH [of "(fst acc @ [d], note_action a (snd acc))"] out 2 changed others fresh by (auto split: sum.splits)
  next
    case 3
    then obtain a ds e e' where "out = RuleFailed a ds e e'" by (cases out) auto
    moreover have "fails r" using facts(3) out 3 by simp
    ultimately show ?thesis using out ok' others by simp
  qed
qed simp

end

text \<open>The laws of a step from one description of what it does; a pruning step always succeeds.\<close>

lemma rule_stepsI:
  assumes "\<And>s r. ok s \<Longrightarrow> r \<in> rules \<Longrightarrow> view s (nm r) = live (nm r) \<Longrightarrow>
    \<exists>out s'. step r s = (out, s') \<and> ok s' \<and> (\<forall>n. n \<noteq> nm r \<longrightarrow> view s' n = view s n) \<and> (failed out \<longleftrightarrow> fails r)
      \<and> (out = RuleKept \<longrightarrow> shown s' = shown s \<and> view s' (nm r) = view s (nm r) \<and> good (live (nm r)) r)
      \<and> ((\<exists>a d. out = RuleChanged a d) \<longrightarrow> good (view s' (nm r)) r \<and> \<not> good (live (nm r)) r)"
  shows "rule_steps step ok view shown nm good fails live rules"
proof
  fix s r n a d
  assume prems: "ok s" "r \<in> rules" "view s (nm r) = live (nm r)"
  note facts = assms [OF prems]
  show "ok (snd (step r s))" "n \<noteq> nm r \<Longrightarrow> view (snd (step r s)) n = view s n" "failed (fst (step r s)) \<longleftrightarrow> fails r"
    "fst (step r s) = RuleKept \<Longrightarrow>
      shown (snd (step r s)) = shown s \<and> view (snd (step r s)) (nm r) = view s (nm r) \<and> good (live (nm r)) r"
    "fst (step r s) = RuleChanged a d \<Longrightarrow> good (view (snd (step r s)) (nm r)) r \<and> \<not> good (live (nm r)) r"
    using facts by auto
qed

lemma prune_stepsI:
  assumes "\<And>s u. ok s \<Longrightarrow> view s u = live u \<Longrightarrow> live u \<noteq> None \<Longrightarrow>
    \<exists>a d s'. step u s = (RuleChanged a d, s') \<and> ok s' \<and> (\<forall>n. view s' n = (if n = u then None else view s n))"
  shows "rule_steps step ok view shown (\<lambda>n. n) (\<lambda>v n. v = None) (\<lambda>_. False) live {n. live n \<noteq> None}"
proof (rule rule_stepsI)
  fix s u
  assume prems: "ok s" "u \<in> {n. live n \<noteq> None}" "view s u = live u"
  then obtain a d s' where "step u s = (RuleChanged a d, s')" "ok s'" "\<forall>n. view s' n = (if n = u then None else view s n)"
    using assms [of s u] by blast
  then show "\<exists>out s'. step u s = (out, s') \<and> ok s' \<and> (\<forall>n. n \<noteq> u \<longrightarrow> view s' n = view s n) \<and> (failed out \<longleftrightarrow> False)
      \<and> (out = RuleKept \<longrightarrow> shown s' = shown s \<and> view s' u = view s u \<and> live u = None)
      \<and> ((\<exists>a d. out = RuleChanged a d) \<longrightarrow> view s' u = None \<and> \<not> live u = None)"
    using prems by auto
qed

text \<open>Both passes of an apply on the same store: the declared rules \<open>rs\<close>, then the entries \<open>us\<close> to prune.\<close>

definition both_passes ::
  "('r \<Rightarrow> 's \<Rightarrow> rule_outcome \<times> 's) \<Rightarrow> ('u \<Rightarrow> 's \<Rightarrow> rule_outcome \<times> 's) \<Rightarrow> 'r list \<Rightarrow> 'u list \<Rightarrow> 's \<Rightarrow> loop_result \<times> 's" where
  "both_passes step prune_step rs us s =
     then_loop (each_rule step rs ([], ActionNoop) s) (each_rule prune_step us)"

context plan_steps
begin

lemma plan_both:
  assumes "ok s"
  shows "case both_passes step (\<lambda>u s. (RuleChanged ActionDelete (dd u), s)) rs us s of
     (out, s') \<Rightarrow> ok s' \<and> shown s' = shown s
       \<and> (case out of Inl e \<Rightarrow> \<exists>r \<in> set rs. fails r
          | Inr acc \<Rightarrow> (\<forall>r \<in> set rs. \<not> fails r) \<and> (fst acc = [] \<longleftrightarrow> us = [] \<and> (\<forall>r \<in> set rs. good r)) \<and> tracks acc)"
proof -
  have prune: "\<exists>acc'. each_rule (\<lambda>u s. (RuleChanged ActionDelete (dd u), s)) us acc t = (Inr acc', t)
      \<and> (fst acc' = [] \<longleftrightarrow> us = [] \<and> fst acc = []) \<and> (tracks acc \<longrightarrow> tracks acc')" for acc t
  proof (induction us arbitrary: acc)
    case (Cons u us)
    have "tracks acc \<Longrightarrow> tracks (fst acc @ [dd u], note_action ActionDelete (snd acc))" by (cases acc) simp
    with Cons.IH [of "(fst acc @ [dd u], note_action ActionDelete (snd acc))"] show ?case by auto
  qed simp
  obtain out s' where out: "each_rule step rs ([], ActionNoop) s = (out, s')"
    by (cases "each_rule step rs ([], ActionNoop) s")
  show ?thesis
  proof (cases out)
    case (Inl e)
    with plan_loop [OF assms, of rs "([], ActionNoop)"] out show ?thesis by (simp add: both_passes_def then_loop_def)
  next
    case (Inr acc)
    obtain acc' where acc': "each_rule (\<lambda>u s. (RuleChanged ActionDelete (dd u), s)) us acc s' = (Inr acc', s')"
      "fst acc' = [] \<longleftrightarrow> us = [] \<and> fst acc = []" "tracks acc \<longrightarrow> tracks acc'" using prune [of acc s'] by blast
    note facts = plan_loop [OF assms, of rs "([], ActionNoop)", unfolded out Inr fst_conv snd_conv sum.case]
    have "tracks ([], ActionNoop) \<longrightarrow> tracks acc" using facts by (elim conjE)
    then have "tracks acc'" using acc'(3) by simp
    moreover have "fst acc' = [] \<longleftrightarrow> us = [] \<and> (\<forall>r \<in> set rs. good r)" unfolding acc'(2) using facts by (elim conjE) simp
    moreover have pass: "both_passes step (\<lambda>u s. (RuleChanged ActionDelete (dd u), s)) rs us s = (Inr acc', s')"
      using acc'(1) by (simp add: both_passes_def then_loop_def out Inr)
    ultimately show ?thesis
      using facts unfolding pass prod.case sum.case by (elim conjE, intro conjI)
  qed
qed

end

locale two_passes =
  rule_steps step ok view shown nm good fails live rules
  + pruning: rule_steps prune_step ok view shown "\<lambda>n. n" "\<lambda>v n. v = None" "\<lambda>_. False" live "{n. live n \<noteq> None}"
  for step :: "'r \<Rightarrow> 's \<Rightarrow> rule_outcome \<times> 's" and ok :: "'s \<Rightarrow> bool" and view :: "'s \<Rightarrow> string \<Rightarrow> 'v option"
    and shown :: "'s \<Rightarrow> 'x" and nm :: "'r \<Rightarrow> string" and good :: "'v option \<Rightarrow> 'r \<Rightarrow> bool" and fails :: "'r \<Rightarrow> bool"
    and live :: "string \<Rightarrow> 'v option" and rules :: "'r set" and prune_step :: "string \<Rightarrow> 's \<Rightarrow> rule_outcome \<times> 's"
begin

lemma apply_both:
  assumes "ok s" and view: "view s = live" and "set rs \<subseteq> rules" and "distinct (map nm rs)"
    and us: "distinct us" "\<And>u. u \<in> set us \<Longrightarrow> live u \<noteq> None \<and> u \<notin> nm ` set rs"
  shows "case both_passes step prune_step rs us s of
     (out, s') \<Rightarrow> ok s' \<and> (\<forall>n. n \<notin> nm ` set rs \<longrightarrow> n \<notin> set us \<longrightarrow> view s' n = live n)
       \<and> (case out of Inl e \<Rightarrow> \<exists>r \<in> set rs. fails r
          | Inr acc \<Rightarrow> (\<forall>r \<in> set rs. \<not> fails r \<and> good (view s' (nm r)) r) \<and> (\<forall>u \<in> set us. view s' u = None)
              \<and> (fst acc = [] \<longleftrightarrow> us = [] \<and> (\<forall>r \<in> set rs. good (live (nm r)) r))
              \<and> (fst acc = [] \<longrightarrow> shown s' = shown s))"
proof -
  obtain out s1 where out: "each_rule step rs ([], ActionNoop) s = (out, s1)"
    by (cases "each_rule step rs ([], ActionNoop) s")
  have first: "ok s1" "\<forall>n. n \<notin> nm ` set rs \<longrightarrow> view s1 n = live n"
    "case out of Inl e \<Rightarrow> \<exists>r \<in> set rs. fails r
       | Inr acc' \<Rightarrow> (\<forall>r \<in> set rs. \<not> fails r \<and> good (view s1 (nm r)) r)
           \<and> (fst acc' = [] \<longleftrightarrow> (\<forall>r \<in> set rs. good (live (nm r)) r))
           \<and> ((\<forall>r \<in> set rs. good (live (nm r)) r) \<longrightarrow> shown s1 = shown s)"
    using apply_loop [OF assms(1,3,4), of "([], ActionNoop)"] out view by (auto split: sum.splits)
  show ?thesis
  proof (cases out)
    case (Inl e)
    with first out us show ?thesis by (simp add: both_passes_def then_loop_def)
  next
    case (Inr acc)
    obtain out2 s2 where out2: "each_rule prune_step us acc s1 = (out2, s2)" by (cases "each_rule prune_step us acc s1")
    have sub: "set us \<subseteq> {n. live n \<noteq> None}" "\<And>u. u \<in> set us \<Longrightarrow> view s1 u = live u" "distinct (map (\<lambda>n. n) us)"
      using us first(2) by auto
    note second = pruning.apply_loop [OF first(1) sub(1,3,2), of acc, unfolded out2 fst_conv snd_conv]
    obtain acc2 where acc2: "out2 = Inr acc2" using second by (cases out2) auto
    note second = second [unfolded acc2 sum.case]
    have none: "(\<forall>u \<in> set us. live u = None) \<longleftrightarrow> us = []" using us(2) by (cases us) auto
    have same: "view s2 (nm r) = view s1 (nm r)" if "r \<in> set rs" for r
      using us(2) that second by (metis image_ident imageI)
    have pass: "both_passes step prune_step rs us s = (Inr acc2, s2)"
      using out out2 Inr acc2 by (simp add: both_passes_def then_loop_def)
    have "view s2 n = live n" if "n \<notin> nm ` set rs" "n \<notin> set us" for n
      using first(2) second that by simp
    moreover have "\<not> fails r \<and> good (view s2 (nm r)) r" if "r \<in> set rs" for r
      using first(3) Inr same [OF that] that by simp
    moreover have "fst acc2 = [] \<longleftrightarrow> us = [] \<and> (\<forall>r \<in> set rs. good (live (nm r)) r)"
      using first(3) Inr second none by auto
    moreover have "shown s2 = shown s" if "fst acc2 = []"
      using first(3) Inr second none that by simp
    ultimately show ?thesis using second pass by simp
  qed
qed

end

subsection \<open>Comparing access lists\<close>

text \<open>Sorted lists of formatted keys agree exactly when the entries agree up to order.\<close>

lemma mset_map_inject:
  assumes "\<And>x y. f x = f y \<longleftrightarrow> g x = g y"
  shows "mset (map f xs) = mset (map f ys) \<longleftrightarrow> mset (map g xs) = mset (map g ys)"
proof -
  have "\<exists>h. \<forall>x. h (f x) = g x" by (rule exI [of _ "\<lambda>k. g (SOME x. f x = k)"]) (metis (mono_tags, lifting) assms someI)
  moreover have "\<exists>h. \<forall>x. h (g x) = f x" by (rule exI [of _ "\<lambda>k. f (SOME x. g x = k)"]) (metis (mono_tags, lifting) assms someI)
  ultimately obtain h k where h: "\<And>x. h (f x) = g x" and k: "\<And>x. k (g x) = f x" by blast
  have "mset (map g zs) = image_mset h (mset (map f zs))" "mset (map f zs) = image_mset k (mset (map g zs))" for zs
    by (simp_all add: h k multiset.map_comp comp_def)
  then show ?thesis by metis
qed

end
