(* ===== verification/Path_Match.thy ===== *)
theory Path_Match
  imports Go_Base
begin

section \<open>Shell patterns\<close>

text \<open>
  \<^verbatim>\<open>path.Match\<close> of the Go standard library, which the protected tags and environments use: \<open>None\<close> is
  \<^verbatim>\<open>ErrBadPattern\<close>. A character is a byte, as everywhere in this development, so a pattern that has
  \<^verbatim>\<open>?\<close> or a class facing a character outside ASCII is not covered. The greedy search of the library and
  the backtracking one here find the same matches.
\<close>

datatype glob = GStar | GAny | GChar char | GClass bool "(char \<times> char) list"

text \<open>One end of a range of a class, \<^verbatim>\<open>getEsc\<close>; the pattern must go on behind it.\<close>

definition getEsc :: "string \<Rightarrow> (char \<times> string) option" where
  "getEsc p =
     (case p of
        [] \<Rightarrow> None
      | c # cs \<Rightarrow>
          if c = CHR ''-'' \<or> c = CHR '']'' then None
          else (case (if of_char c = (92 :: nat) then cs else p) of
                  [] \<Rightarrow> None | d # ds \<Rightarrow> if ds = [] then None else Some (d, ds)))"

lemma getEsc_length: "getEsc p = Some (c, q) \<Longrightarrow> length q < length p"
  by (auto simp: getEsc_def split: list.splits if_splits)

text \<open>The ranges of a class up to its closing bracket, which may not come first.\<close>

function class_ranges :: "string \<Rightarrow> (char \<times> char) list \<Rightarrow> ((char \<times> char) list \<times> string) option" where
  "class_ranges p rs =
     (if p \<noteq> [] \<and> hd p = CHR '']'' \<and> rs \<noteq> [] then Some (rs, tl p)
      else (case getEsc p of
              None \<Rightarrow> None
            | Some (lo, q) \<Rightarrow>
                if hd q = CHR ''-'' then
                  (case getEsc (tl q) of None \<Rightarrow> None | Some (hi, q') \<Rightarrow> class_ranges q' (rs @ [(lo, hi)]))
                else class_ranges q (rs @ [(lo, lo)])))"
  by auto
termination
  by (relation "measure (\<lambda>(p, rs). length p)") (auto dest!: getEsc_length)

declare class_ranges.simps [simp del]

lemma class_ranges_length: "class_ranges p rs = Some (rs', q) \<Longrightarrow> length q < length p"
proof (induction p rs rule: class_ranges.induct)
  case (1 p rs)
  then show ?case
    by (subst (asm) (3) class_ranges.simps) (fastforce split: if_splits option.splits prod.splits dest: getEsc_length)
qed

function parse_glob :: "string \<Rightarrow> glob list option" where
  "parse_glob [] = Some []"
| "parse_glob (c # p) =
     (if c = CHR ''*'' then map_option (Cons GStar) (parse_glob p)
      else if c = CHR ''?'' then map_option (Cons GAny) (parse_glob p)
      else if c = CHR ''['' then
        (let neg = (p \<noteq> [] \<and> hd p = CHR ''^'') in
         case class_ranges (if neg then tl p else p) [] of
           None \<Rightarrow> None | Some (rs, q) \<Rightarrow> map_option (Cons (GClass neg rs)) (parse_glob q))
      else if of_char c = (92 :: nat) then
        (case p of [] \<Rightarrow> None | d # q \<Rightarrow> map_option (Cons (GChar d)) (parse_glob q))
      else map_option (Cons (GChar c)) (parse_glob p))"
  by pat_completeness auto
termination
  by (relation "measure length") (auto dest!: class_ranges_length split: if_splits)

fun glob_match :: "glob list \<Rightarrow> string \<Rightarrow> bool" where
  "glob_match [] s \<longleftrightarrow> s = []"
| "glob_match (GStar # g) [] \<longleftrightarrow> glob_match g []"
| "glob_match (GStar # g) (c # s) \<longleftrightarrow> glob_match g (c # s) \<or> c \<noteq> CHR ''/'' \<and> glob_match (GStar # g) s"
| "glob_match (GAny # g) (c # s) \<longleftrightarrow> c \<noteq> CHR ''/'' \<and> glob_match g s"
| "glob_match (GChar d # g) (c # s) \<longleftrightarrow> c = d \<and> glob_match g s"
| "glob_match (GClass neg rs # g) (c # s) \<longleftrightarrow>
     list_ex (\<lambda>(lo, hi). of_char lo \<le> (of_char c :: nat) \<and> (of_char c :: nat) \<le> of_char hi) rs \<noteq> neg \<and> glob_match g s"
| "glob_match (_ # g) [] \<longleftrightarrow> False"

definition path_Match :: "string \<Rightarrow> string \<Rightarrow> bool option" where
  "path_Match pattern name = map_option (\<lambda>g. glob_match g name) (parse_glob pattern)"

text \<open>\<^verbatim>\<open>matched, _ := path.Match(...)\<close>: a bad pattern matches nothing.\<close>

definition path_matches :: "string \<Rightarrow> string \<Rightarrow> bool" where
  "path_matches pattern name \<longleftrightarrow> path_Match pattern name = Some True"

subsection \<open>Lemmas\<close>

definition plain :: "string \<Rightarrow> bool" where
  "plain p \<longleftrightarrow> (\<forall>c \<in> set p. c \<noteq> CHR ''*'' \<and> c \<noteq> CHR ''?'' \<and> c \<noteq> CHR ''['' \<and> of_char c \<noteq> (92 :: nat))"

lemma parse_plain: "plain p \<Longrightarrow> parse_glob (p @ q) = map_option (append (map GChar p)) (parse_glob q)"
proof (induction p)
  case Nil
  then show ?case by (cases "parse_glob q") simp_all
next
  case (Cons c p)
  then have "parse_glob (p @ q) = map_option (append (map GChar p)) (parse_glob q)" by (simp add: plain_def)
  with Cons.prems show ?case by (cases "parse_glob q") (simp_all add: plain_def)
qed

lemma match_chars: "glob_match (map GChar p @ g) s \<longleftrightarrow> (\<exists>t. s = p @ t \<and> glob_match g t)"
proof (induction p arbitrary: s)
  case (Cons c p)
  then show ?case by (cases s) auto
qed simp

lemma match_star: "glob_match (GStar # g) s \<longleftrightarrow> (\<exists>u v. s = u @ v \<and> CHR ''/'' \<notin> set u \<and> glob_match g v)"
proof (induction s)
  case (Cons c s)
  show ?case
  proof
    assume "glob_match (GStar # g) (c # s)"
    then consider "glob_match g (c # s)" | "c \<noteq> CHR ''/''" "glob_match (GStar # g) s" by auto
    then show "\<exists>u v. c # s = u @ v \<and> CHR ''/'' \<notin> set u \<and> glob_match g v"
    proof cases
      case 1
      then show ?thesis by (intro exI [of _ "[]"] exI [of _ "c # s"]) simp
    next
      case 2
      with Cons obtain u v where "s = u @ v" "CHR ''/'' \<notin> set u" "glob_match g v" by blast
      with 2(1) show ?thesis by (intro exI [of _ "c # u"] exI [of _ v]) simp
    qed
  next
    assume "\<exists>u v. c # s = u @ v \<and> CHR ''/'' \<notin> set u \<and> glob_match g v"
    then obtain u v where uv: "c # s = u @ v" "CHR ''/'' \<notin> set u" "glob_match g v" by blast
    show "glob_match (GStar # g) (c # s)"
    proof (cases u)
      case Nil
      with uv have "glob_match g (c # s)" by simp
      then show ?thesis by simp
    next
      case (Cons d u')
      with uv Cons.IH show ?thesis by auto
    qed
  qed
qed auto

text \<open>A pattern without special characters matches itself only; one star matches up to the next slash.\<close>

lemma path_matches_plain: "plain p \<Longrightarrow> path_matches p s \<longleftrightarrow> s = p"
  using parse_plain [of p "[]"] match_chars [of p "[]" s] by (simp add: path_matches_def path_Match_def)

lemma path_matches_star:
  "plain p \<Longrightarrow> path_matches (p @ ''*'') s \<longleftrightarrow> (\<exists>t. s = p @ t \<and> CHR ''/'' \<notin> set t)"
  using parse_plain [of p "''*''"] match_chars [of p "[GStar]" s]
  by (simp add: path_matches_def path_Match_def match_star)

end
