(* ===== verification/Protected_Tags.thy ===== *)
theory Protected_Tags
  imports Rule_Loop Path_Match
begin

section \<open>Protected tags\<close>

text \<open>
  \<^verbatim>\<open>internal/governance/protectedtags.go\<close> (order 22): names are resolved to numbers, missing protections are
  created, drifted ones removed and created again, and with \<^verbatim>\<open>prune\<close> the undeclared ones removed. The
  methods run over the resolver's cache and the remote instance, and are \<open>None\<close> where the listing loop
  does not return.
\<close>

definition tags_name :: string where
  "tags_name = ''protected_tags''"

definition MatchesTagPattern :: "string \<Rightarrow> string \<Rightarrow> bool" where
  "MatchesTagPattern pattern0 tag0 =
     (let pattern = TrimSpace pattern0; tag = TrimSpace tag0 in
      if pattern = tag \<or> pattern = ''*'' then True
      else if path_Match pattern tag = Some True then True
      else HasSuffix pattern ''*'' \<and> HasPrefix tag (TrimSuffix pattern ''*''))"

definition tags_policy :: "policy_config option \<Rightarrow> protected_tags_config option" where
  "tags_policy cfg = (case cfg of None \<Rightarrow> None | Some c \<Rightarrow> pol_ProtectedTags (cfg_Policies c))"

definition prunes_tags :: "protected_tags_config \<Rightarrow> bool" where
  "prunes_tags c \<longleftrightarrow> pts_Prune c = Some True"

definition fetchAllLiveProtectedTags ::
  "'s gitlab_client \<Rightarrow> int \<Rightarrow> resolver_cache \<times> 's \<Rightarrow> (gl_protected_tag option list go_result \<times> (resolver_cache \<times> 's)) option" where
  "fetchAllLiveProtectedTags client pid cs =
     list_all_pages (\<lambda>page. with_cache (ListProtectedTags (cl_ProtectedTags client) pid page 100)) 1 [] cs"

subsection \<open>Resolving a rule\<close>

definition resolve_tag_access ::
  "'s gitlab_client \<Rightarrow> string \<Rightarrow> tag_access_description \<Rightarrow> (tag_access_description, 's) resolving" where
  "resolve_tag_access client ruleName a =
     rbind (if tad_UserID a = 0 \<and> tad_Username a \<noteq> []
            then rwrap (''failed to resolve username '' @ squote (tad_Username a) @ '' for tag rule '' @ squote ruleName)
                   (ResolveUsername client (tad_Username a))
            else rreturn (tad_UserID a)) (\<lambda>uid.
     rbind (if tad_GroupID a = 0 \<and> tad_GroupPath a \<noteq> []
            then rwrap (''failed to resolve group path '' @ squote (tad_GroupPath a) @ '' for tag rule '' @ squote ruleName)
                   (ResolveGroupPath client (tad_GroupPath a))
            else rreturn (tad_GroupID a)) (\<lambda>gid.
     rreturn (a\<lparr>tad_UserID := uid, tad_GroupID := gid\<rparr>)))"

definition resolveRule :: "'s gitlab_client \<Rightarrow> protected_tag_rule_config \<Rightarrow> (protected_tag_rule_config, 's) resolving" where
  "resolveRule client rule =
     rbind (resolve_each (resolve_tag_access client (pt_Name rule)) (pt_AllowedToCreate rule))
       (\<lambda>as. rreturn (rule\<lparr>pt_AllowedToCreate := as\<rparr>))"

subsection \<open>Diffs\<close>

definition format_tag_access :: "tag_access_description \<Rightarrow> string" where
  "format_tag_access d =
     (if tad_UserID d \<noteq> 0 then (if tad_Username d \<noteq> [] then ''user:'' @ tad_Username d else ''user:'' @ fmt_d (tad_UserID d))
      else if tad_GroupID d \<noteq> 0 then
        (if tad_GroupPath d \<noteq> [] then ''group:'' @ tad_GroupPath d else ''group:'' @ fmt_d (tad_GroupID d))
      else ''access_level:'' @ fmt_d (tad_AccessLevel d))"

definition formatTagAccessDescriptions :: "tag_access_description list \<Rightarrow> string" where
  "formatTagAccessDescriptions ds = ''['' @ Join (map format_tag_access ds) '', '' @ '']''"

definition liveTagAccessToDescriptions :: "gl_tag_access option list \<Rightarrow> tag_access_description list" where
  "liveTagAccessToDescriptions levels =
     map (\<lambda>l. \<lparr>tad_AccessLevel = gta_AccessLevel l, tad_UserID = gta_UserID l, tad_GroupID = gta_GroupID l,
               tad_Username = [], tad_GroupPath = []\<rparr>) (present levels)"

definition tag_key :: "tag_access_description \<Rightarrow> string" where
  "tag_key d = ''role:'' @ fmt_d (tad_AccessLevel d) @ ''/user:'' @ fmt_d (tad_UserID d) @ ''/group:'' @ fmt_d (tad_GroupID d)"

definition equalTagAccessDescriptions :: "tag_access_description list \<Rightarrow> tag_access_description list \<Rightarrow> bool" where
  "equalTagAccessDescriptions a b \<longleftrightarrow> length a = length b \<and> sort (map tag_key a) = sort (map tag_key b)"

definition tag_create_diff :: "protected_tag_rule_config \<Rightarrow> diff" where
  "tag_create_diff rule =
     (let b = AddField ''name'' VNil (VStr (pt_Name rule)) ActionCreate NewDiffBuilder in
      Build (''protected_tag:'' @ pt_Name rule) ActionCreate
        (if pt_AllowedToCreate rule \<noteq> []
         then AddField ''allowed_to_create'' VNil (VStr (formatTagAccessDescriptions (pt_AllowedToCreate rule))) ActionCreate b
         else b))"

definition tag_update_diff :: "gl_protected_tag \<Rightarrow> protected_tag_rule_config \<Rightarrow> diff" where
  "tag_update_diff live rule =
     (let liveAccess = liveTagAccessToDescriptions (gpt_CreateAccessLevels live) in
      Build (''protected_tag:'' @ pt_Name rule) ActionUpdate
        (if pt_AllowedToCreate rule \<noteq> [] \<and> \<not> equalTagAccessDescriptions liveAccess (pt_AllowedToCreate rule)
         then AddField ''allowed_to_create'' (VStr (formatTagAccessDescriptions liveAccess))
                (VStr (formatTagAccessDescriptions (pt_AllowedToCreate rule))) ActionUpdate NewDiffBuilder
         else NewDiffBuilder))"

definition tag_prune_diff :: "string \<Rightarrow> diff" where
  "tag_prune_diff n =
     Build (''protected_tag:'' @ n) ActionDelete (AddField ''protected'' (VBool True) (VBool False) ActionDelete NewDiffBuilder)"

definition nonzero :: "int \<Rightarrow> int option" where
  "nonzero n = (if n \<noteq> 0 then Some n else None)"

definition tag_protect_options :: "protected_tag_rule_config \<Rightarrow> protect_tags_options" where
  "tag_protect_options rule =
     (let as = pt_AllowedToCreate rule;
          single = (case as of [a] \<Rightarrow> tad_UserID a = 0 \<and> tad_GroupID a = 0 | _ \<Rightarrow> False) in
      \<lparr>pto_Name = pt_Name rule,
       pto_CreateAccessLevel = (if single then Some (tad_AccessLevel (hd as)) else None),
       pto_AllowedToCreate =
         (if single \<or> as = [] then None
          else Some (map (\<lambda>a. \<lparr>tpo_AccessLevel = nonzero (tad_AccessLevel a), tpo_UserID = nonzero (tad_UserID a),
                               tpo_GroupID = nonzero (tad_GroupID a)\<rparr>) as))\<rparr>)"

subsection \<open>Plan and apply\<close>

definition live_tags :: "gl_protected_tag option list \<Rightarrow> (string, gl_protected_tag) go_map" where
  "live_tags tags = go_map_of_list gpt_Name id (present tags)"

definition unmanaged_tags :: "protected_tags_config \<Rightarrow> gl_protected_tag option list \<Rightarrow> string list" where
  "unmanaged_tags c tags =
     (if prunes_tags c then filter (\<lambda>n. n \<notin> pt_Name ` set (pts_Rules c)) (map gpt_Name (present tags)) else [])"

definition plan_tag_rule ::
  "'s gitlab_client \<Rightarrow> (string, gl_protected_tag) go_map \<Rightarrow> protected_tag_rule_config \<Rightarrow> resolver_cache \<times> 's
   \<Rightarrow> rule_outcome \<times> (resolver_cache \<times> 's)" where
  "plan_tag_rule client liveMap rule cs =
     (case resolveRule client rule cs of
        (Inl e, cs') \<Rightarrow> (RuleFailed ActionNoop [] e e, cs')
      | (Inr resolved, cs') \<Rightarrow>
          (case go_get liveMap (pt_Name rule) of
             None \<Rightarrow> (RuleChanged ActionCreate (tag_create_diff resolved), cs')
           | Some live \<Rightarrow>
               (let d = tag_update_diff live resolved in
                if Diff_HasChanges d then (RuleChanged ActionUpdate d, cs') else (RuleKept, cs'))))"

definition apply_tag_rule ::
  "'s gitlab_client \<Rightarrow> int \<Rightarrow> (string, gl_protected_tag) go_map \<Rightarrow> protected_tag_rule_config \<Rightarrow> resolver_cache \<times> 's
   \<Rightarrow> rule_outcome \<times> (resolver_cache \<times> 's)" where
  "apply_tag_rule client pid liveMap rule cs =
     (let svc = cl_ProtectedTags client in
      case resolveRule client rule cs of
        (Inl e, cs') \<Rightarrow> (RuleFailed ActionNoop [] e e, cs')
      | (Inr resolved, cs') \<Rightarrow>
          (case go_get liveMap (pt_Name rule) of
             None \<Rightarrow>
               (case with_cache (ProtectRepositoryTags svc pid (tag_protect_options resolved)) cs' of
                  (Some e, cs2) \<Rightarrow> (RuleFailed ActionCreate [] (Wrapf (''failed to protect tag '' @ squote (pt_Name rule)) e) e, cs2)
                | (None, cs2) \<Rightarrow> (RuleChanged ActionCreate (tag_create_diff resolved), cs2))
           | Some live \<Rightarrow>
               (let d = tag_update_diff live resolved in
                if \<not> Diff_HasChanges d then (RuleKept, cs')
                else
                  (let cs2 = snd (with_cache (UnprotectRepositoryTags svc pid (pt_Name rule)) cs') in
                   case with_cache (ProtectRepositoryTags svc pid (tag_protect_options resolved)) cs2 of
                     (Some e, cs3) \<Rightarrow>
                       (RuleFailed ActionUpdate [] (Wrapf (''failed to update protected tag '' @ squote (pt_Name rule)) e) e, cs3)
                   | (None, cs3) \<Rightarrow> (RuleChanged ActionUpdate d, cs3)))))"

definition prune_tag :: "'s gitlab_client \<Rightarrow> int \<Rightarrow> string \<Rightarrow> resolver_cache \<times> 's \<Rightarrow> rule_outcome \<times> (resolver_cache \<times> 's)" where
  "prune_tag client pid n cs =
     (case with_cache (UnprotectRepositoryTags (cl_ProtectedTags client) pid n) cs of
        (Some e, cs') \<Rightarrow> (RuleFailed ActionDelete [] (Wrapf (''failed to unprotect tag '' @ squote n) e) e, cs')
      | (None, cs') \<Rightarrow> (RuleChanged ActionDelete (tag_prune_diff n), cs'))"

definition tags_idle :: "protected_tags_config \<Rightarrow> bool" where
  "tags_idle c \<longleftrightarrow> pts_Rules c = [] \<and> \<not> prunes_tags c"

definition ProtectedTags_Plan ::
  "'s gitlab_client \<Rightarrow> gl_project \<Rightarrow> policy_config option \<Rightarrow> resolver_cache \<times> 's
   \<Rightarrow> (plan_result go_result \<times> (resolver_cache \<times> 's)) option" where
  "ProtectedTags_Plan client project cfg cs =
     (let r = project_resource project in
      case tags_policy cfg of
        None \<Rightarrow> Some (Inr (noop_plan tags_name r), cs)
      | Some c \<Rightarrow>
          if tags_idle c then Some (Inr (noop_plan tags_name r), cs)
          else
            map_option
              (\<lambda>reply. case reply of
                 (Inl err, cs') \<Rightarrow> (Inl (Wrapf (''failed to list protected tags for project '' @ fmt_d (p_ID project)) err), cs')
               | (Inr tags, cs') \<Rightarrow>
                   (case both_passes (plan_tag_rule client (live_tags tags))
                           (\<lambda>n cs. (RuleChanged ActionDelete (tag_prune_diff n), cs)) (pts_Rules c) (unmanaged_tags c tags) cs' of
                      (out, cs2) \<Rightarrow> (plan_result_of tags_name r out, cs2)))
              (fetchAllLiveProtectedTags client (p_ID project) cs))"

definition ProtectedTags_Apply ::
  "'s gitlab_client \<Rightarrow> gl_project \<Rightarrow> policy_config option \<Rightarrow> resolver_cache \<times> 's
   \<Rightarrow> ((apply_result \<times> go_error option) \<times> (resolver_cache \<times> 's)) option" where
  "ProtectedTags_Apply client project cfg cs =
     (let r = project_resource project; pid = p_ID project in
      case tags_policy cfg of
        None \<Rightarrow> Some (noop_apply tags_name r, cs)
      | Some c \<Rightarrow>
          if tags_idle c then Some (noop_apply tags_name r, cs)
          else
            map_option
              (\<lambda>reply. case reply of
                 (Inl err, cs') \<Rightarrow> (failed_apply tags_name r ActionNoop [] err err, cs')
               | (Inr tags, cs') \<Rightarrow>
                   (case both_passes (apply_tag_rule client pid (live_tags tags)) (prune_tag client pid)
                           (pts_Rules c) (unmanaged_tags c tags) cs' of
                      (out, cs2) \<Rightarrow> (apply_result_of tags_name r out, cs2)))
              (fetchAllLiveProtectedTags client pid cs))"

definition ProtectedTags_PlanGroup :: "gl_group \<Rightarrow> 's plan_fun" where
  "ProtectedTags_PlanGroup g s = (Inr (noop_plan tags_name (group_resource g)), s)"

definition ProtectedTags_ApplyGroup :: "gl_group \<Rightarrow> 's apply_fun" where
  "ProtectedTags_ApplyGroup g s = (noop_apply tags_name (group_resource g), s)"

subsection \<open>The specification: conforming tags\<close>

definition access_of_live :: "gl_tag_access \<Rightarrow> int \<times> int \<times> int" where
  "access_of_live l = (gta_AccessLevel l, gta_UserID l, gta_GroupID l)"

definition access_of_rule :: "tag_access_description \<Rightarrow> int \<times> int \<times> int" where
  "access_of_rule d = (tad_AccessLevel d, tad_UserID d, tad_GroupID d)"

definition tag_conforms :: "gl_protected_tag \<Rightarrow> protected_tag_rule_config \<Rightarrow> bool" where
  "tag_conforms t rule \<longleftrightarrow> pt_AllowedToCreate rule = []
     \<or> mset (map access_of_live (present (gpt_CreateAccessLevels t))) = mset (map access_of_rule (pt_AllowedToCreate rule))"

lemma slash_notin_fmt_d [simp]: "CHR ''/'' \<notin> set (fmt_d i)"
  using fmt_d_chars [of "CHR ''/''" i] by (auto simp: is_digit_def)

lemma tag_key_inject: "tag_key d = tag_key e \<longleftrightarrow> access_of_rule d = access_of_rule e"
proof
  assume "tag_key d = tag_key e"
  then have eq: "fmt_d (tad_AccessLevel d) @ CHR ''/'' # (''user:'' @ fmt_d (tad_UserID d) @ CHR ''/'' # (''group:'' @ fmt_d (tad_GroupID d)))
      = fmt_d (tad_AccessLevel e) @ CHR ''/'' # (''user:'' @ fmt_d (tad_UserID e) @ CHR ''/'' # (''group:'' @ fmt_d (tad_GroupID e)))"
    by (simp add: tag_key_def)
  note first = append_sep_inject [of "CHR ''/''" "fmt_d (tad_AccessLevel d)" "fmt_d (tad_AccessLevel e)"]
  have level: "fmt_d (tad_AccessLevel d) = fmt_d (tad_AccessLevel e)"
    and "fmt_d (tad_UserID d) @ CHR ''/'' # (''group:'' @ fmt_d (tad_GroupID d))
      = fmt_d (tad_UserID e) @ CHR ''/'' # (''group:'' @ fmt_d (tad_GroupID e))"
    using first eq by auto
  then have "fmt_d (tad_UserID d) = fmt_d (tad_UserID e) \<and> fmt_d (tad_GroupID d) = fmt_d (tad_GroupID e)"
    using append_sep_inject [of "CHR ''/''" "fmt_d (tad_UserID d)" "fmt_d (tad_UserID e)"] by auto
  with level show "access_of_rule d = access_of_rule e" by (simp add: access_of_rule_def)
qed (simp add: tag_key_def access_of_rule_def)

lemma equalTagAccess_iff:
  "equalTagAccessDescriptions a b \<longleftrightarrow> mset (map access_of_rule a) = mset (map access_of_rule b)"
proof -
  have "sort (map tag_key a) = sort (map tag_key b) \<longleftrightarrow> mset (map access_of_rule a) = mset (map access_of_rule b)"
    unfolding sort_eq_iff_mset by (rule mset_map_inject) (rule tag_key_inject)
  moreover have "mset (map access_of_rule a) = mset (map access_of_rule b) \<Longrightarrow> length a = length b"
    by (metis length_map size_mset)
  ultimately show ?thesis unfolding equalTagAccessDescriptions_def by blast
qed

lemma tag_update_diff_iff: "Diff_HasChanges (tag_update_diff t rule) \<longleftrightarrow> \<not> tag_conforms t rule"
proof -
  have "map access_of_rule (liveTagAccessToDescriptions levels) = map access_of_live (present levels)" for levels
    by (simp add: liveTagAccessToDescriptions_def access_of_rule_def access_of_live_def)
  then show ?thesis
    by (simp add: tag_update_diff_def Build_HasChanges Builder_HasChanges_def tag_conforms_def equalTagAccess_iff Let_def
        del: mset_map)
qed

lemma tag_create_diff_changes [simp]: "Diff_HasChanges (tag_create_diff rule)"
  by (simp add: tag_create_diff_def Build_HasChanges Builder_HasChanges_def Let_def)

text \<open>What the options of a rule ask for is a tag that conforms to it.\<close>

lemma protect_tag_conforms: "tag_conforms (tag_of_options (tag_protect_options rule)) rule"
proof -
  let ?as = "pt_AllowedToCreate rule"
  have n: "set_when (nonzero x) 0 = x" for x by (simp add: nonzero_def set_when_def)
  consider "?as = []" | a where "?as = [a]" "tad_UserID a = 0 \<and> tad_GroupID a = 0"
    | "?as \<noteq> []" "(case ?as of [a] \<Rightarrow> tad_UserID a = 0 \<and> tad_GroupID a = 0 | _ \<Rightarrow> False) = False"
    by (cases ?as rule: remdups_adj.cases) auto
  then show ?thesis
  proof cases
    case 3
    then obtain a as where as: "?as = a # as" by (cases ?as) auto
    have "gpt_CreateAccessLevels (tag_of_options (tag_protect_options rule)) =
        map (Some \<circ> decode_tag_permission) (map (\<lambda>a. \<lparr>tpo_AccessLevel = nonzero (tad_AccessLevel a),
          tpo_UserID = nonzero (tad_UserID a), tpo_GroupID = nonzero (tad_GroupID a)\<rparr>) ?as)"
      using 3 by (simp add: tag_of_options_def tag_protect_options_def Let_def as)
    then have "present (gpt_CreateAccessLevels (tag_of_options (tag_protect_options rule))) =
        map (\<lambda>a. decode_tag_permission \<lparr>tpo_AccessLevel = nonzero (tad_AccessLevel a),
          tpo_UserID = nonzero (tad_UserID a), tpo_GroupID = nonzero (tad_GroupID a)\<rparr>) ?as"
      by (simp only: map_map [symmetric] present_Some) (simp add: comp_def)
    then show ?thesis by (simp add: tag_conforms_def decode_tag_permission_def access_of_live_def access_of_rule_def [abs_def] n comp_def)
  qed (simp_all add: tag_conforms_def tag_of_options_def tag_protect_options_def access_of_live_def access_of_rule_def Let_def)
qed

subsection \<open>On the mock server\<close>

definition tags_of :: "int \<Rightarrow> mock_state \<Rightarrow> (string, gl_protected_tag) go_map" where
  "tags_of pid st = inner (ms_protectedTags st) pid"

text \<open>The rule with its names resolved, which is the same for every sound cache.\<close>

definition resolved_tag_rule ::
  "sdk_error \<Rightarrow> mock_state \<Rightarrow> protected_tag_rule_config \<Rightarrow> protected_tag_rule_config go_result" where
  "resolved_tag_rule err st0 rule = fst (resolveRule (mock_client err) rule (NewCachingResolver, st0))"

definition tag_rule_fails :: "sdk_error \<Rightarrow> mock_state \<Rightarrow> protected_tag_rule_config \<Rightarrow> bool" where
  "tag_rule_fails err st0 rule \<longleftrightarrow> (case resolved_tag_rule err st0 rule of Inl e \<Rightarrow> True | Inr r \<Rightarrow> False)"

definition tag_good :: "sdk_error \<Rightarrow> mock_state \<Rightarrow> gl_protected_tag option \<Rightarrow> protected_tag_rule_config \<Rightarrow> bool" where
  "tag_good err st0 t rule \<longleftrightarrow>
     (case resolved_tag_rule err st0 rule of Inl e \<Rightarrow> False
      | Inr r \<Rightarrow> (case t of None \<Rightarrow> False | Some t \<Rightarrow> tag_conforms t r))"

definition tags_ok :: "sdk_error \<Rightarrow> mock_state \<Rightarrow> gl_project \<Rightarrow> resolver_cache \<times> mock_state \<Rightarrow> bool" where
  "tags_ok err st0 project cs \<longleftrightarrow> governs project (snd cs) \<and> keyed gpt_Name (tags_of (p_ID project) (snd cs))
     \<and> directory_of (snd cs) = directory_of st0 \<and> cache_sound (users_in st0) (groups_in err st0) (fst cs)"

lemma resolveRule_determined: "mock_dir.determined st0 err (resolveRule (mock_client err) rule)"
  unfolding resolveRule_def resolve_tag_access_def
  by (intro mock_dir.determined_rules) (auto intro: mock_dir.determined_rules)

lemma resolveRule_mock:
  assumes "tags_ok err st0 project (c, st)"
  shows "\<exists>c'. resolveRule (mock_client err) rule (c, st) = (resolved_tag_rule err st0 rule, (c', st)) \<and> tags_ok err st0 project (c', st)"
  using mock_dir.determined_value [OF resolveRule_determined refl, of st st0 err c rule] assms
  by (auto simp: tags_ok_def resolved_tag_rule_def)

lemma pt_Name_resolved: "resolved_tag_rule err st0 rule = Inr r \<Longrightarrow> pt_Name r = pt_Name rule"
  by (auto simp: resolved_tag_rule_def resolveRule_def rbind_def rreturn_def split: prod.splits sum.splits)

lemma protect_tag_mock:
  assumes "tags_ok err st0 project (c, st)"
  shows "\<exists>st'. ProtectRepositoryTags (mock_tags err) (p_ID project) o' st = (None, st')
    \<and> tags_of (p_ID project) st' = go_put (pto_Name o') (tag_of_options o') (tags_of (p_ID project) st) \<and> tags_ok err st0 project (c, st')"
proof -
  let ?st = "st\<lparr>ms_protectedTags := put_inner (p_ID project) (pto_Name o') (tag_of_options o') (ms_protectedTags st)\<rparr>"
  have n: "gpt_Name (tag_of_options o') = pto_Name o'" by (simp add: tag_of_options_def)
  have "ProtectRepositoryTags (mock_tags err) (p_ID project) o' st = (None, ?st)"
    using assms by (simp add: mock_tags_def ProtectTag_def found_or_404_def tags_ok_def governs_def resolve_project_number n)
  moreover have tags: "tags_of (p_ID project) ?st = go_put (pto_Name o') (tag_of_options o') (tags_of (p_ID project) st)"
    by (simp add: tags_of_def)
  moreover have "keyed gpt_Name (tags_of (p_ID project) ?st)"
    using assms keyed_put [of gpt_Name "tags_of (p_ID project) st" "tag_of_options o'"] by (simp only: tags tags_ok_def n snd_conv)
  ultimately show ?thesis using assms by (intro exI [of _ ?st]) (simp add: tags_ok_def)
qed

lemma unprotect_tag_mock:
  assumes "tags_ok err st0 project (c, st)"
  shows "\<exists>e st'. UnprotectRepositoryTags (mock_tags err) (p_ID project) n st = (e, st')
    \<and> (\<forall>m. go_get (tags_of (p_ID project) st') m = (if m = n then None else go_get (tags_of (p_ID project) st) m))
    \<and> (go_get (tags_of (p_ID project) st) n \<noteq> None \<longrightarrow> e = None) \<and> tags_ok err st0 project (c, st')"
proof (cases "go_get (tags_of (p_ID project) st) n")
  case None
  then have "UnprotectRepositoryTags (mock_tags err) (p_ID project) n st = (Some (err 404 ''404 Protected Tag Not Found''), st)"
    using assms by (simp add: mock_tags_def UnprotectTag_def found_or_404_def tags_ok_def governs_def resolve_project_number tags_of_def)
  with None assms show ?thesis by auto
next
  case (Some t)
  let ?st = "st\<lparr>ms_protectedTags := delete_inner (p_ID project) n (ms_protectedTags st)\<rparr>"
  have "UnprotectRepositoryTags (mock_tags err) (p_ID project) n st = (None, ?st)"
    using assms Some by (simp add: mock_tags_def UnprotectTag_def found_or_404_def tags_ok_def governs_def resolve_project_number tags_of_def)
  moreover have tags: "tags_of (p_ID project) ?st = go_delete n (tags_of (p_ID project) st)" by (simp add: tags_of_def)
  ultimately show ?thesis
    using assms keyed_delete [of gpt_Name "tags_of (p_ID project) st" n] by (intro exI [of _ None] exI [of _ ?st]) (simp add: tags_ok_def tags)
qed

text \<open>The two passes and the planning fulfil the contracts of the loops.\<close>

definition tag_at :: "gl_project \<Rightarrow> resolver_cache \<times> mock_state \<Rightarrow> string \<Rightarrow> gl_protected_tag option" where
  "tag_at project cs n = go_get (tags_of (p_ID project) (snd cs)) n"

lemma tag_rule_cases:
  obtains e where "resolved_tag_rule err st0 rule = Inl e" "tag_rule_fails err st0 rule"
    | r where "resolved_tag_rule err st0 rule = Inr r" "\<not> tag_rule_fails err st0 rule"
        "\<And>t. tag_good err st0 t rule \<longleftrightarrow> (case t of None \<Rightarrow> False | Some t \<Rightarrow> tag_conforms t r)" "pt_Name r = pt_Name rule"
proof (cases "resolved_tag_rule err st0 rule")
  case (Inl e)
  then show ?thesis by (intro that(1)) (auto simp: tag_rule_fails_def)
next
  case (Inr r)
  then show ?thesis by (intro that(2) [of r]) (auto simp: tag_rule_fails_def tag_good_def pt_Name_resolved)
qed

lemma plan_tag_mock:
  assumes "tags_ok err st0 project cs"
  shows "tags_ok err st0 project (snd (plan_tag_rule (mock_client err) liveMap rule cs))
    \<and> snd (snd (plan_tag_rule (mock_client err) liveMap rule cs)) = snd cs
    \<and> reports (fst (plan_tag_rule (mock_client err) liveMap rule cs))
    \<and> (failed (fst (plan_tag_rule (mock_client err) liveMap rule cs)) \<longleftrightarrow> tag_rule_fails err st0 rule)
    \<and> (\<not> tag_rule_fails err st0 rule \<longrightarrow>
         (fst (plan_tag_rule (mock_client err) liveMap rule cs) = RuleKept \<longleftrightarrow> tag_good err st0 (go_get liveMap (pt_Name rule)) rule))"
proof -
  obtain c st where cs: "cs = (c, st)" by (cases cs)
  obtain c' where c': "resolveRule (mock_client err) rule (c, st) = (resolved_tag_rule err st0 rule, (c', st))" "tags_ok err st0 project (c', st)"
    using resolveRule_mock assms cs by blast
  show ?thesis
    by (rule tag_rule_cases [of err st0 rule])
      (use c' in \<open>auto simp: cs plan_tag_rule_def tag_update_diff_iff Let_def split: option.splits\<close>)
qed

lemma apply_tag_mock:
  assumes "tags_ok err st0 project cs" and live: "tag_at project cs (pt_Name rule) = go_get liveMap (pt_Name rule)"
  shows "\<exists>out cs'. apply_tag_rule (mock_client err) (p_ID project) liveMap rule cs = (out, cs') \<and> tags_ok err st0 project cs'
    \<and> (\<forall>n. n \<noteq> pt_Name rule \<longrightarrow> tag_at project cs' n = tag_at project cs n)
    \<and> (failed out \<longleftrightarrow> tag_rule_fails err st0 rule)
    \<and> (out = RuleKept \<longrightarrow> snd cs' = snd cs \<and> tag_good err st0 (go_get liveMap (pt_Name rule)) rule)
    \<and> ((\<exists>a d. out = RuleChanged a d) \<longrightarrow> tag_good err st0 (tag_at project cs' (pt_Name rule)) rule
         \<and> \<not> tag_good err st0 (go_get liveMap (pt_Name rule)) rule)"
proof -
  obtain c st where cs: "cs = (c, st)" by (cases cs)
  obtain c' where c': "resolveRule (mock_client err) rule (c, st) = (resolved_tag_rule err st0 rule, (c', st))" "tags_ok err st0 project (c', st)"
    using resolveRule_mock assms cs by blast
  show ?thesis
  proof (rule tag_rule_cases [of err st0 rule])
    fix e assume "resolved_tag_rule err st0 rule = Inl e" "tag_rule_fails err st0 rule"
    with c' show ?thesis by (simp add: cs apply_tag_rule_def tag_at_def)
  next
    fix r assume r: "resolved_tag_rule err st0 rule = Inr r" "\<not> tag_rule_fails err st0 rule"
      and good: "\<And>t. tag_good err st0 t rule \<longleftrightarrow> (case t of None \<Rightarrow> False | Some t \<Rightarrow> tag_conforms t r)" and name: "pt_Name r = pt_Name rule"
    let ?o = "tag_protect_options r"
    have o_name: "pto_Name ?o = pt_Name rule" by (simp add: tag_protect_options_def name Let_def)
    have put: "\<exists>st'. with_cache (ProtectRepositoryTags (mock_tags err) (p_ID project) ?o) (c', s) = (None, (c', st'))
        \<and> tags_ok err st0 project (c', st') \<and> tag_good err st0 (tag_at project (c', st') (pt_Name rule)) rule
        \<and> (\<forall>n. n \<noteq> pt_Name rule \<longrightarrow> tag_at project (c', st') n = tag_at project (c', s) n)" if "tags_ok err st0 project (c', s)" for s
      using protect_tag_mock [OF that, of ?o] protect_tag_conforms [of r] by (auto simp: tag_at_def o_name good)
    show ?thesis
    proof (cases "go_get liveMap (pt_Name rule)")
      case None
      with put [OF c'(2)] c'(1) r show ?thesis by (auto simp: cs apply_tag_rule_def good tag_at_def)
    next
      case (Some t)
      show ?thesis
      proof (cases "tag_conforms t r")
        case True
        with Some c' r show ?thesis by (simp add: cs apply_tag_rule_def tag_update_diff_iff good tag_at_def)
      next
        case False
        obtain e s1 where s1: "UnprotectRepositoryTags (mock_tags err) (p_ID project) (pt_Name rule) st = (e, s1)" "tags_ok err st0 project (c', s1)"
          "\<And>m. m \<noteq> pt_Name rule \<Longrightarrow> tag_at project (c', s1) m = tag_at project (c', st) m"
          using unprotect_tag_mock [OF c'(2), of "pt_Name rule"] by (auto simp: tag_at_def)
        from put [OF s1(2)] obtain s2 where s2: "with_cache (ProtectRepositoryTags (mock_tags err) (p_ID project) ?o) (c', s1) = (None, (c', s2))"
          "tags_ok err st0 project (c', s2)" "tag_good err st0 (tag_at project (c', s2) (pt_Name rule)) rule"
          "\<forall>n. n \<noteq> pt_Name rule \<longrightarrow> tag_at project (c', s2) n = tag_at project (c', s1) n" by blast
        have "apply_tag_rule (mock_client err) (p_ID project) liveMap rule cs = (RuleChanged ActionUpdate (tag_update_diff t r), (c', s2))"
          using Some False c' r s1(1) s2(1) by (simp add: cs apply_tag_rule_def tag_update_diff_iff Let_def)
        then show ?thesis using Some False r s1(3) s2(2-4) by (simp add: good) (simp add: cs tag_at_def)
      qed
    qed
  qed
qed

interpretation tag_plan: plan_steps "plan_tag_rule (mock_client err) liveMap" "tags_ok err st0 project" snd "tag_rule_fails err st0"
  "\<lambda>rule. tag_good err st0 (go_get liveMap (pt_Name rule)) rule"
  by unfold_locales (use plan_tag_mock in blast)+

interpretation tag_passes: two_passes "apply_tag_rule (mock_client err) (p_ID project) liveMap" "tags_ok err st0 project" "tag_at project" snd
  pt_Name "tag_good err st0" "tag_rule_fails err st0" "go_get liveMap" UNIV "prune_tag (mock_client err) (p_ID project)"
proof (rule two_passes.intro; rule prune_stepsI rule_stepsI)
  fix s :: "resolver_cache \<times> mock_state" and rule :: protected_tag_rule_config
  assume "tags_ok err st0 project s" "tag_at project s (pt_Name rule) = go_get liveMap (pt_Name rule)"
  then show "\<exists>out s'. apply_tag_rule (mock_client err) (p_ID project) liveMap rule s = (out, s') \<and> tags_ok err st0 project s'
    \<and> (\<forall>n. n \<noteq> pt_Name rule \<longrightarrow> tag_at project s' n = tag_at project s n) \<and> (failed out \<longleftrightarrow> tag_rule_fails err st0 rule)
    \<and> (out = RuleKept \<longrightarrow> snd s' = snd s \<and> tag_at project s' (pt_Name rule) = tag_at project s (pt_Name rule)
         \<and> tag_good err st0 (go_get liveMap (pt_Name rule)) rule)
    \<and> ((\<exists>a d. out = RuleChanged a d) \<longrightarrow> tag_good err st0 (tag_at project s' (pt_Name rule)) rule
         \<and> \<not> tag_good err st0 (go_get liveMap (pt_Name rule)) rule)"
    using apply_tag_mock [of err st0 project s rule liveMap] by (auto simp: tag_at_def)
next
  fix s :: "resolver_cache \<times> mock_state" and u
  assume ok: "tags_ok err st0 project s" and "tag_at project s u = go_get liveMap u" "go_get liveMap u \<noteq> None"
  then have there: "go_get (tags_of (p_ID project) (snd s)) u \<noteq> None" by (simp add: tag_at_def)
  obtain c st where cs: "s = (c, st)" by (cases s)
  obtain st' where "UnprotectRepositoryTags (mock_tags err) (p_ID project) u st = (None, st')" "tags_ok err st0 project (c, st')"
    "\<And>m. go_get (tags_of (p_ID project) st') m = (if m = u then None else go_get (tags_of (p_ID project) st) m)"
    using unprotect_tag_mock [of err st0 project c st u] ok there unfolding cs by auto
  then show "\<exists>a d s'. prune_tag (mock_client err) (p_ID project) u s = (RuleChanged a d, s') \<and> tags_ok err st0 project s'
      \<and> (\<forall>n. tag_at project s' n = (if n = u then None else tag_at project s n))"
    by (auto simp: prune_tag_def cs tag_at_def)
qed

lemma fetch_tags_mock:
  assumes "tags_ok err st0 project cs"
  shows "fetchAllLiveProtectedTags (mock_client err) (p_ID project) cs = Some (Inr (map Some (map snd (tags_of (p_ID project) (snd cs)))), cs)"
  unfolding fetchAllLiveProtectedTags_def
proof (rule list_all_pages_read_only [OF _ mock.fetch_all])
  fix p
  show "with_cache (ListProtectedTags (cl_ProtectedTags (mock_client err)) (p_ID project) p 100) cs =
      (mock_list 100 (map Some (map snd (tags_of (p_ID project) (snd cs)))) p, cs)"
    using assms by (cases cs) (simp add: mock_tags_def State_ListProtectedTags_def tags_ok_def governs_def resolve_project_number tags_of_def)
qed

lemma live_tags_at:
  "tags_ok err st0 project cs \<Longrightarrow> go_get (live_tags (map Some (map snd (tags_of (p_ID project) (snd cs))))) = tag_at project cs"
  unfolding live_tags_def present_Some by (auto simp: fun_eq_iff tag_at_def tags_ok_def keyed_lookup)

lemma unmanaged_names:
  assumes "tags_ok err st0 project cs"
  shows "set (unmanaged_tags c (map Some (map snd (tags_of (p_ID project) (snd cs))))) =
      {n. prunes_tags c \<and> tag_at project cs n \<noteq> None \<and> n \<notin> pt_Name ` set (pts_Rules c)}"
    and "distinct (unmanaged_tags c (map Some (map snd (tags_of (p_ID project) (snd cs)))))"
proof -
  have keyed: "keyed gpt_Name (tags_of (p_ID project) (snd cs))" using assms by (simp add: tags_ok_def)
  have names: "map gpt_Name (present (map Some (map snd (tags_of (p_ID project) (snd cs))))) = map fst (tags_of (p_ID project) (snd cs))"
    unfolding present_Some by (rule keyed_keys [OF keyed])
  have "set (map fst (tags_of (p_ID project) (snd cs))) = {n. tag_at project cs n \<noteq> None}"
    by (auto simp: tag_at_def dom_map_of_conv_image_fst [symmetric] dom_def)
  then show "set (unmanaged_tags c (map Some (map snd (tags_of (p_ID project) (snd cs))))) =
      {n. prunes_tags c \<and> tag_at project cs n \<noteq> None \<and> n \<notin> pt_Name ` set (pts_Rules c)}"
    unfolding unmanaged_tags_def names by auto
  have "distinct (map fst (tags_of (p_ID project) (snd cs)))" using keyed by (simp add: keyed_def go_map_ok_def)
  then show "distinct (unmanaged_tags c (map Some (map snd (tags_of (p_ID project) (snd cs)))))"
    unfolding unmanaged_tags_def names by simp
qed

text \<open>Every declared tag conforms, and with pruning there is no other.\<close>

definition tags_settled ::
  "sdk_error \<Rightarrow> mock_state \<Rightarrow> protected_tags_config \<Rightarrow> (string \<Rightarrow> gl_protected_tag option) \<Rightarrow> bool" where
  "tags_settled err st0 c live \<longleftrightarrow> (\<forall>rule \<in> set (pts_Rules c). tag_good err st0 (live (pt_Name rule)) rule)
     \<and> (prunes_tags c \<longrightarrow> (\<forall>n. live n \<noteq> None \<longrightarrow> n \<in> pt_Name ` set (pts_Rules c)))"

lemma no_unmanaged:
  assumes "tags_ok err st0 project cs"
  shows "unmanaged_tags c (map Some (map snd (tags_of (p_ID project) (snd cs)))) = [] \<longleftrightarrow>
    (prunes_tags c \<longrightarrow> (\<forall>n. tag_at project cs n \<noteq> None \<longrightarrow> n \<in> pt_Name ` set (pts_Rules c)))"
  using unmanaged_names(1) [OF assms, of c] by (metis (mono_tags, lifting) Collect_empty_eq empty_set set_empty)

lemma plan_tags_mock:
  assumes pol: "tags_policy cfg = Some c" and idle: "\<not> tags_idle c" and ok: "tags_ok err st0 project cs"
  shows "\<exists>out cs'. ProtectedTags_Plan (mock_client err) project cfg cs = Some (out, cs') \<and> tags_ok err st0 project cs' \<and> snd cs' = snd cs
    \<and> (case out of Inl e \<Rightarrow> \<exists>rule \<in> set (pts_Rules c). tag_rule_fails err st0 rule
       | Inr pl \<Rightarrow> (\<forall>rule \<in> set (pts_Rules c). \<not> tag_rule_fails err st0 rule)
            \<and> (pr_HasChanges pl \<longleftrightarrow> \<not> tags_settled err st0 c (tag_at project cs)))"
proof -
  let ?tags = "map Some (map snd (tags_of (p_ID project) (snd cs)))"
  obtain out cs' where run: "both_passes (plan_tag_rule (mock_client err) (live_tags ?tags))
      (\<lambda>n cs. (RuleChanged ActionDelete (tag_prune_diff n), cs)) (pts_Rules c) (unmanaged_tags c ?tags) cs = (out, cs')"
    by (rule prod.exhaust)
  note facts = tag_plan.plan_both [OF ok, where liveMap = "live_tags ?tags" and rs = "pts_Rules c" and dd = tag_prune_diff
      and us = "unmanaged_tags c ?tags", unfolded run prod.case
      live_tags_at [OF ok] no_unmanaged [OF ok]]
  have plan: "ProtectedTags_Plan (mock_client err) project cfg cs = Some (plan_result_of tags_name (project_resource project) out, cs')"
    using run idle by (simp add: ProtectedTags_Plan_def pol fetch_tags_mock [OF ok] Let_def del: map_map)
  show ?thesis
  proof (cases out)
    case (Inl x)
    then obtain a ds e e' where "out = Inl (a, ds, e, e')" by (cases x) auto
    with facts plan show ?thesis by (auto simp: plan_result_of_def)
  next
    case (Inr acc)
    then obtain ds a where acc: "out = Inr (ds, a)" by (cases acc) auto
    with facts have t: "tracks (ds, a)" by simp
    from facts acc have "pr_HasChanges (plan_of_diffs tags_name (project_resource project) a ds) \<longleftrightarrow> \<not> tags_settled err st0 c (tag_at project cs)"
      by (auto simp: tracks_plan [OF t] tags_settled_def)
    with facts plan acc show ?thesis by (auto simp: plan_result_of_def)
  qed
qed

lemma apply_tags_mock:
  assumes pol: "tags_policy cfg = Some c" and idle: "\<not> tags_idle c" and ok: "tags_ok err st0 project cs"
    and dist: "distinct (map pt_Name (pts_Rules c))"
  shows "\<exists>out e cs'. ProtectedTags_Apply (mock_client err) project cfg cs = Some ((out, e), cs') \<and> tags_ok err st0 project cs'
    \<and> (case e of Some x \<Rightarrow> \<exists>rule \<in> set (pts_Rules c). tag_rule_fails err st0 rule
       | None \<Rightarrow> (\<forall>rule \<in> set (pts_Rules c). \<not> tag_rule_fails err st0 rule) \<and> tags_settled err st0 c (tag_at project cs')
            \<and> (\<forall>n. n \<notin> pt_Name ` set (pts_Rules c) \<longrightarrow> \<not> prunes_tags c \<longrightarrow> tag_at project cs' n = tag_at project cs n)
            \<and> (tags_settled err st0 c (tag_at project cs) \<longrightarrow> snd cs' = snd cs \<and> ar_Status out = StatusNoop))"
proof -
  let ?tags = "map Some (map snd (tags_of (p_ID project) (snd cs)))" and ?names = "pt_Name ` set (pts_Rules c)"
  obtain out cs' where run: "both_passes (apply_tag_rule (mock_client err) (p_ID project) (live_tags ?tags)) (prune_tag (mock_client err) (p_ID project))
      (pts_Rules c) (unmanaged_tags c ?tags) cs = (out, cs')"
    by (rule prod.exhaust)
  have us: "go_get (live_tags ?tags) u \<noteq> None \<and> u \<notin> ?names" if "u \<in> set (unmanaged_tags c ?tags)" for u
    using that unfolding live_tags_at [OF ok] unmanaged_names(1) [OF ok] by simp
  note facts = tag_passes.apply_both [OF ok live_tags_at [OF ok, symmetric] subset_UNIV dist unmanaged_names(2) [OF ok, of c] us,
      unfolded run prod.case live_tags_at [OF ok] no_unmanaged [OF ok, of c]]
  have app: "ProtectedTags_Apply (mock_client err) project cfg cs = Some (apply_result_of tags_name (project_resource project) out, cs')"
    using run idle by (simp add: ProtectedTags_Apply_def pol fetch_tags_mock [OF ok] Let_def del: map_map)
  show ?thesis
  proof (cases out)
    case (Inl x)
    then obtain a ds e e' where "out = Inl (a, ds, e, e')" by (cases x) auto
    with facts app show ?thesis by (simp add: apply_result_of_def failed_apply_def split: prod.splits)
  next
    case (Inr acc)
    then obtain ds a where acc: "out = Inr (ds, a)" by (cases acc) auto
    note facts = facts [unfolded acc sum.case fst_conv snd_conv]
    have none: "tag_at project cs' n = None" if "prunes_tags c" "n \<notin> ?names" for n
      using facts that unmanaged_names(1) [OF ok, of c] by (cases "tag_at project cs n = None") auto
    have kept: "tag_at project cs' n = tag_at project cs n" if "\<not> prunes_tags c" "n \<notin> ?names" for n
      using facts that unmanaged_names(1) [OF ok, of c] by simp
    have "tags_settled err st0 c (tag_at project cs')" using facts none by (auto simp: tags_settled_def)
    moreover have "snd cs' = snd cs \<and> ds = []" if "tags_settled err st0 c (tag_at project cs)"
      using facts that by (auto simp: tags_settled_def)
    moreover have "tags_ok err st0 project cs'" "\<forall>rule \<in> set (pts_Rules c). \<not> tag_rule_fails err st0 rule" using facts by simp_all
    ultimately show ?thesis using app acc kept
      by (cases "project_resource project") (auto simp: apply_result_of_def noop_apply_def ok_apply_def result_defs)
  qed
qed

text \<open>Without rules to keep and nothing to prune the two methods do nothing.\<close>

definition tags_apart :: "policy_config option \<Rightarrow> bool" where
  "tags_apart cfg \<longleftrightarrow> (case tags_policy cfg of None \<Rightarrow> True | Some c \<Rightarrow> distinct (map pt_Name (pts_Rules c)))"

definition tags_done :: "sdk_error \<Rightarrow> mock_state \<Rightarrow> policy_config option \<Rightarrow> (string \<Rightarrow> gl_protected_tag option) \<Rightarrow> bool" where
  "tags_done err st0 cfg live \<longleftrightarrow> (case tags_policy cfg of None \<Rightarrow> True | Some c \<Rightarrow>
     (\<forall>rule \<in> set (pts_Rules c). \<not> tag_rule_fails err st0 rule) \<and> tags_settled err st0 c live)"

lemma tags_inactive:
  assumes "case tags_policy cfg of None \<Rightarrow> True | Some c \<Rightarrow> tags_idle c"
  shows "ProtectedTags_Plan client project cfg cs = Some (Inr (noop_plan tags_name (project_resource project)), cs)"
    and "ProtectedTags_Apply client project cfg cs = Some (noop_apply tags_name (project_resource project), cs)"
    and "tags_done err st0 cfg live"
  using assms by (auto simp: ProtectedTags_Plan_def ProtectedTags_Apply_def tags_done_def tags_idle_def tags_settled_def
      split: option.splits)

lemma tags_plan_cases:
  assumes ok: "tags_ok err st0 project cs"
  obtains out cs' where "ProtectedTags_Plan (mock_client err) project cfg cs = Some (out, cs')" "tags_ok err st0 project cs'" "snd cs' = snd cs"
    "(\<exists>pl. out = Inr pl \<and> \<not> pr_HasChanges pl) \<longleftrightarrow> tags_done err st0 cfg (tag_at project cs)"
proof (cases "case tags_policy cfg of None \<Rightarrow> True | Some c \<Rightarrow> tags_idle c")
  case True
  show ?thesis by (rule that [OF tags_inactive(1) [OF True] ok refl]) (simp add: tags_inactive(3) [OF True])
next
  case False
  then obtain c where c: "tags_policy cfg = Some c" "\<not> tags_idle c" by (auto split: option.splits)
  obtain out cs' where plan: "ProtectedTags_Plan (mock_client err) project cfg cs = Some (out, cs')" "tags_ok err st0 project cs'" "snd cs' = snd cs"
    "case out of Inl e \<Rightarrow> \<exists>rule \<in> set (pts_Rules c). tag_rule_fails err st0 rule
     | Inr pl \<Rightarrow> (\<forall>rule \<in> set (pts_Rules c). \<not> tag_rule_fails err st0 rule)
          \<and> (pr_HasChanges pl \<longleftrightarrow> \<not> tags_settled err st0 c (tag_at project cs))"
    using plan_tags_mock [OF c ok] by blast
  from plan(4) show ?thesis by (intro that [OF plan(1-3)]) (cases out; auto simp: tags_done_def c(1))
qed

lemma tags_apply_cases:
  assumes ok: "tags_ok err st0 project cs" and apart: "tags_apart cfg"
  obtains out e cs' where "ProtectedTags_Apply (mock_client err) project cfg cs = Some ((out, e), cs')" "tags_ok err st0 project cs'"
    "e = None \<Longrightarrow> tags_done err st0 cfg (tag_at project cs')"
    "tags_done err st0 cfg (tag_at project cs) \<Longrightarrow> e = None \<and> snd cs' = snd cs \<and> ar_Status out = StatusNoop"
proof (cases "case tags_policy cfg of None \<Rightarrow> True | Some c \<Rightarrow> tags_idle c")
  case True
  have app: "ProtectedTags_Apply (mock_client err) project cfg cs =
      Some ((fst (noop_apply tags_name (project_resource project)), None), cs)"
    by (simp add: tags_inactive(2) [OF True] prod_eq_iff)
  show ?thesis by (rule that [OF app ok]) (simp_all add: tags_inactive(3) [OF True])
next
  case False
  then obtain c where c: "tags_policy cfg = Some c" "\<not> tags_idle c" by (auto split: option.splits)
  have dist: "distinct (map pt_Name (pts_Rules c))" using apart c by (simp add: tags_apart_def)
  obtain out e cs' where app: "ProtectedTags_Apply (mock_client err) project cfg cs = Some ((out, e), cs')" "tags_ok err st0 project cs'"
    "case e of Some x \<Rightarrow> \<exists>rule \<in> set (pts_Rules c). tag_rule_fails err st0 rule
     | None \<Rightarrow> (\<forall>rule \<in> set (pts_Rules c). \<not> tag_rule_fails err st0 rule) \<and> tags_settled err st0 c (tag_at project cs')
          \<and> (\<forall>n. n \<notin> pt_Name ` set (pts_Rules c) \<longrightarrow> \<not> prunes_tags c \<longrightarrow> tag_at project cs' n = tag_at project cs n)
          \<and> (tags_settled err st0 c (tag_at project cs) \<longrightarrow> snd cs' = snd cs \<and> ar_Status out = StatusNoop)"
    using apply_tags_mock [OF c ok dist] by blast
  show ?thesis using app(3) by (intro that [OF app(1,2)]) (auto simp: tags_done_def c(1) split: option.splits)
qed

interpretation protected_tags: viewed_reconciler "\<lambda>cs. the (ProtectedTags_Plan (mock_client err) project cfg cs)"
  "\<lambda>cs. the (ProtectedTags_Apply (mock_client err) project cfg cs)" "\<lambda>cs. tags_ok err st0 project cs \<and> tags_apart cfg" snd
proof
  fix cs :: "resolver_cache \<times> mock_state"
  let ?plan = "\<lambda>cs. the (ProtectedTags_Plan (mock_client err) project cfg cs)"
  let ?apply = "\<lambda>cs. the (ProtectedTags_Apply (mock_client err) project cfg cs)"
  have quiet: "quiet ?plan t \<longleftrightarrow> tags_done err st0 cfg (tag_at project t)" if "tags_ok err st0 project t" for t
    by (rule tags_plan_cases [OF that, of cfg]) (simp add: quiet_def)
  assume "tags_ok err st0 project cs \<and> tags_apart cfg"
  then have ok: "tags_ok err st0 project cs" and apart: "tags_apart cfg" by simp_all
  obtain out cs1 where "ProtectedTags_Plan (mock_client err) project cfg cs = Some (out, cs1)" "tags_ok err st0 project cs1" "snd cs1 = snd cs"
    by (rule tags_plan_cases [OF ok, of cfg])
  then show "snd (snd (?plan cs)) = snd cs" "tags_ok err st0 project (snd (?plan cs)) \<and> tags_apart cfg" using apart by simp_all
  obtain res e cs2 where app: "ProtectedTags_Apply (mock_client err) project cfg cs = Some ((res, e), cs2)" "tags_ok err st0 project cs2"
    "e = None \<Longrightarrow> tags_done err st0 cfg (tag_at project cs2)"
    "tags_done err st0 cfg (tag_at project cs) \<Longrightarrow> e = None \<and> snd cs2 = snd cs \<and> ar_Status res = StatusNoop"
    by (rule tags_apply_cases [OF ok apart]) blast
  show "tags_ok err st0 project (snd (?apply cs)) \<and> tags_apart cfg" using app apart by simp
  show "quiet ?plan (snd (?apply cs))" if "snd (fst (?apply cs)) = None"
    using app that by (simp add: quiet)
  show "snd (snd (?apply cs)) = snd cs \<and> snd (fst (?apply cs)) = None \<and> ar_Status (fst (fst (?apply cs))) = StatusNoop" if "quiet ?plan cs"
    using app that by (simp add: quiet [OF ok])
qed

subsection \<open>The property\<close>

text \<open>Property C30. When every rule's users and groups can be resolved and no two rules name the same tag, an apply on the mock
  server succeeds; afterwards every declared protection exists with exactly the declared access levels, users
  and groups, with pruning there is no other one, without pruning the undeclared ones are as before, and a
  second apply is a no-op that leaves the server as it is, whatever the resolver has cached.\<close>

theorem ProtectedTags_Apply_converges:
  assumes pol: "tags_policy cfg = Some c" and ok: "tags_ok err st0 project cs" and dist: "distinct (map pt_Name (pts_Rules c))"
    and resolve: "\<forall>rule \<in> set (pts_Rules c). \<exists>r. resolved_tag_rule err st0 rule = Inr r"
  shows "\<exists>res cs'. ProtectedTags_Apply (mock_client err) project cfg cs = Some ((res, None), cs')
    \<and> (\<forall>rule \<in> set (pts_Rules c). \<exists>r t. resolved_tag_rule err st0 rule = Inr r
         \<and> go_get (tags_of (p_ID project) (snd cs')) (pt_Name rule) = Some t \<and> tag_conforms t r)
    \<and> (\<forall>n. n \<notin> pt_Name ` set (pts_Rules c) \<longrightarrow>
         go_get (tags_of (p_ID project) (snd cs')) n =
           (if prunes_tags c then None else go_get (tags_of (p_ID project) (snd cs)) n))
    \<and> (\<exists>res2 cs2. ProtectedTags_Apply (mock_client err) project cfg cs' = Some ((res2, None), cs2)
         \<and> snd cs2 = snd cs' \<and> ar_Status res2 = StatusNoop)"
proof -
  have able: "\<not> tag_rule_fails err st0 rule" if "rule \<in> set (pts_Rules c)" for rule
    using resolve that by (auto simp: tag_rule_fails_def)
  have apart: "tags_apart cfg" using pol dist by (simp add: tags_apart_def)
  obtain res cs' where app: "ProtectedTags_Apply (mock_client err) project cfg cs = Some ((res, None), cs')" "tags_ok err st0 project cs'"
    "tags_settled err st0 c (tag_at project cs')"
    "\<forall>n. n \<notin> pt_Name ` set (pts_Rules c) \<longrightarrow> \<not> prunes_tags c \<longrightarrow> tag_at project cs' n = tag_at project cs n"
  proof (cases "tags_idle c")
    case True
    then have inactive: "case tags_policy cfg of None \<Rightarrow> True | Some c \<Rightarrow> tags_idle c" by (simp add: pol)
    have "ProtectedTags_Apply (mock_client err) project cfg cs = Some ((fst (noop_apply tags_name (project_resource project)), None), cs)"
      by (simp add: tags_inactive(2) [OF inactive] prod_eq_iff)
    then show ?thesis by (rule that [OF _ ok]) (use True in \<open>simp_all add: tags_idle_def tags_settled_def\<close>)
  next
    case False
    from apply_tags_mock [OF pol False ok dist] show ?thesis using able that by (auto split: option.splits)
  qed
  have "tags_done err st0 cfg (tag_at project cs')" using app(3) able by (simp add: tags_done_def pol)
  then obtain res2 cs2 where "ProtectedTags_Apply (mock_client err) project cfg cs' = Some ((res2, None), cs2)"
    "snd cs2 = snd cs'" "ar_Status res2 = StatusNoop"
    using tags_apply_cases [OF app(2) apart] by (metis (no_types, lifting))
  moreover have "\<exists>r t. resolved_tag_rule err st0 rule = Inr r
      \<and> go_get (tags_of (p_ID project) (snd cs')) (pt_Name rule) = Some t \<and> tag_conforms t r" if "rule \<in> set (pts_Rules c)" for rule
  proof -
    have "tag_good err st0 (tag_at project cs' (pt_Name rule)) rule" using app(3) that by (simp add: tags_settled_def)
    then show ?thesis by (auto simp: tag_good_def tag_at_def split: option.splits sum.splits)
  qed
  moreover have "go_get (tags_of (p_ID project) (snd cs')) n =
      (if prunes_tags c then None else go_get (tags_of (p_ID project) (snd cs)) n)" if "n \<notin> pt_Name ` set (pts_Rules c)" for n
    using app(3,4) that by (auto simp: tags_settled_def tag_at_def)
  ultimately show ?thesis using app(1) by blast
qed

definition example_tag_rule :: protected_tag_rule_config where
  "example_tag_rule =
     \<lparr>pt_Name = ''v*'', pt_AllowedToCreate =
        [\<lparr>tad_AccessLevel = 40, tad_UserID = 0, tad_GroupID = 0, tad_Username = [], tad_GroupPath = []\<rparr>,
         \<lparr>tad_AccessLevel = 0, tad_UserID = 0, tad_GroupID = 0, tad_Username = ''@Alice'', tad_GroupPath = []\<rparr>]\<rparr>"

definition example_tags :: protected_tags_config where
  "example_tags = \<lparr>pts_Prune = Some True, pts_Rules = [example_tag_rule]\<rparr>"

definition example_tags_policy :: policy_config where
  "example_tags_policy = zero_policy_config\<lparr>cfg_Policies := zero_policies\<lparr>pol_ProtectedTags := Some example_tags\<rparr>\<rparr>"

lemma resolved_example: "\<exists>r. resolved_tag_rule (\<lambda>_ m. Err m) staffed_state example_tag_rule = Inr r"
proof -
  have clean: "clean_user ''@Alice'' = ''alice''" "ToLower ''alice'' = ''alice''" by (code_simp, code_simp)
  have "ListUsers (cl_Users (mock_client (\<lambda>_ m. Err m))) ''alice'' staffed_state =
      (Inr [\<lparr>gu_ID = 5, gu_Username = ''alice'', gu_Name = ''Alice''\<rparr>], staffed_state)"
    by (simp add: mock_users_def GetUserByUsername_def State_ListUsers_def staffed_state_def clean(2))
  then show ?thesis
    by (simp add: resolved_tag_rule_def resolveRule_def example_tag_rule_def resolve_tag_access_def rbind_def rreturn_def rwrap_def
        ResolveUsername_def clean NewCachingResolver_def)
qed

lemma ProtectedTags_Apply_converges_witness:
  "\<exists>res cs'. ProtectedTags_Apply (mock_client (\<lambda>_ m. Err m)) example_project (Some example_tags_policy) (NewCachingResolver, staffed_state)
      = Some ((res, None), cs')
    \<and> (\<forall>rule \<in> set (pts_Rules example_tags). \<exists>r t. resolved_tag_rule (\<lambda>_ m. Err m) staffed_state rule = Inr r
         \<and> go_get (tags_of (p_ID example_project) (snd cs')) (pt_Name rule) = Some t \<and> tag_conforms t r)
    \<and> (\<forall>n. n \<notin> pt_Name ` set (pts_Rules example_tags) \<longrightarrow>
         go_get (tags_of (p_ID example_project) (snd cs')) n =
           (if prunes_tags example_tags then None
            else go_get (tags_of (p_ID example_project) (snd (NewCachingResolver, staffed_state))) n))
    \<and> (\<exists>res2 cs2. ProtectedTags_Apply (mock_client (\<lambda>_ m. Err m)) example_project (Some example_tags_policy) cs' = Some ((res2, None), cs2)
         \<and> snd cs2 = snd cs' \<and> ar_Status res2 = StatusNoop)"
proof (rule ProtectedTags_Apply_converges)
  show "tags_policy (Some example_tags_policy) = Some example_tags" by (simp add: tags_policy_def example_tags_policy_def)
  have "tags_of (p_ID example_project) staffed_state = []" by code_simp
  then show "tags_ok (\<lambda>_ m. Err m) staffed_state example_project (NewCachingResolver, staffed_state)"
    using governs_staffed by (simp add: tags_ok_def cache_sound_New keyed_def go_map_ok_def)
  show "distinct (map pt_Name (pts_Rules example_tags))" by (simp add: example_tags_def)
  show "\<forall>rule \<in> set (pts_Rules example_tags). \<exists>r. resolved_tag_rule (\<lambda>_ m. Err m) staffed_state rule = Inr r"
    using resolved_example by (simp add: example_tags_def)
qed

end
