(* ===== verification/Protected_Environments.thy ===== *)
theory Protected_Environments
  imports Rule_Loop Path_Match
begin

section \<open>Protected environments\<close>

text \<open>
  \<^verbatim>\<open>internal/governance/protectedenvironments.go\<close> (order 25): rules whose name is a shell pattern are expanded
  over the known environments, names are resolved to numbers, missing protections are created, drifted
  ones removed and created again, and with \<^verbatim>\<open>prune\<close> the unmanaged ones removed. The expansion ranges over
  a map of names, whose order is the argument \<open>ord\<close>: it maps the number of rules still to come and the
  names to the order in which this range statement visits them.
\<close>

definition environments_name :: string where
  "environments_name = ''protected_environments''"

definition environments_policy :: "policy_config option \<Rightarrow> protected_environments_config option" where
  "environments_policy cfg = (case cfg of None \<Rightarrow> None | Some c \<Rightarrow> pol_ProtectedEnvironments (cfg_Policies c))"

definition prunes_environments :: "protected_environments_config \<Rightarrow> bool" where
  "prunes_environments c \<longleftrightarrow> pes_Prune c = Some True"

definition fetchAllLiveProtectedEnvironments ::
  "'s gitlab_client \<Rightarrow> int \<Rightarrow> resolver_cache \<times> 's \<Rightarrow> (gl_protected_environment option list go_result \<times> (resolver_cache \<times> 's)) option" where
  "fetchAllLiveProtectedEnvironments client pid cs =
     list_all_pages (\<lambda>page. with_cache (ListProtectedEnvironments (cl_ProtectedEnvironments client) pid page 100)) 1 [] cs"

subsection \<open>Expanding the rules\<close>

definition is_wild :: "string \<Rightarrow> bool" where
  "is_wild name = ContainsAny name ''*?[''"

text \<open>The page loop of the expansion: an error ends it silently, with what was read so far.\<close>

partial_function (option) list_until_error ::
  "(int \<Rightarrow> ('a page, 's) api) \<Rightarrow> int \<Rightarrow> 'a list \<Rightarrow> 's \<Rightarrow> ('a list \<times> 's) option" where
  "list_until_error fetch page acc s =
     (case fetch page s of
        (Inl e, s') \<Rightarrow> Some (acc, s')
      | (Inr (xs, resp), s') \<Rightarrow>
          (case resp of
             None \<Rightarrow> Some (acc @ xs, s')
           | Some n \<Rightarrow> if n = 0 then Some (acc @ xs, s') else list_until_error fetch n (acc @ xs) s'))"

definition candidateNames :: "gl_environment option list \<Rightarrow> gl_protected_environment option list \<Rightarrow> string list" where
  "candidateNames envs liveEnvs =
     remdups (filter (\<lambda>n. n \<noteq> []) (map gen_Name (present envs) @ map gpe_Name (present liveEnvs)))"

fun expand_from ::
  "(nat \<Rightarrow> string list \<Rightarrow> string list) \<Rightarrow> string list \<Rightarrow> protected_environment_rule_config list \<Rightarrow> string list
   \<Rightarrow> protected_environment_rule_config list" where
  "expand_from ord cands [] seen = []"
| "expand_from ord cands (rule # rules) seen =
     (if is_wild (pe_Name rule) then
        (let hits = filter (\<lambda>n. path_matches (pe_Name rule) n \<and> n \<notin> set seen) (ord (length rules) cands)
         in map (\<lambda>n. rule\<lparr>pe_Name := n\<rparr>) hits @ expand_from ord cands rules (hits @ seen))
      else if pe_Name rule \<in> set seen then expand_from ord cands rules seen
      else rule # expand_from ord cands rules (pe_Name rule # seen))"

definition expandRules ::
  "(nat \<Rightarrow> string list \<Rightarrow> string list) \<Rightarrow> 's gitlab_client \<Rightarrow> int \<Rightarrow> protected_environment_rule_config list
   \<Rightarrow> gl_protected_environment option list \<Rightarrow> resolver_cache \<times> 's
   \<Rightarrow> (protected_environment_rule_config list \<times> (resolver_cache \<times> 's)) option" where
  "expandRules ord client pid rules liveEnvs cs =
     (if \<not> (\<exists>rule \<in> set rules. is_wild (pe_Name rule)) then Some (rules, cs)
      else map_option (\<lambda>(envs, cs'). (expand_from ord (candidateNames envs liveEnvs) rules [], cs'))
             (case cl_Environments client of
                None \<Rightarrow> Some ([], cs)
              | Some svc \<Rightarrow> list_until_error (\<lambda>page. with_cache (ListEnvironments svc pid page 100)) 1 [] cs))"

definition isManaged :: "protected_environment_rule_config list \<Rightarrow> string set \<Rightarrow> string \<Rightarrow> bool" where
  "isManaged rules explicit name \<longleftrightarrow> name \<in> explicit
     \<or> (\<exists>rule \<in> set rules. pe_Name rule = name \<or> is_wild (pe_Name rule) \<and> path_matches (pe_Name rule) name)"

subsection \<open>Resolving a rule\<close>

definition positive :: "int \<Rightarrow> int option" where
  "positive n = (if 0 < n then Some n else None)"

definition user_number :: "'s gitlab_client \<Rightarrow> string \<Rightarrow> int \<Rightarrow> string \<Rightarrow> (int, 's) resolving" where
  "user_number client what uid name =
     (if uid = 0 \<and> name \<noteq> []
      then rwrap (''failed to resolve username '' @ squote name @ '' for '' @ what) (ResolveUsername client name)
      else rreturn uid)"

definition group_number :: "'s gitlab_client \<Rightarrow> string \<Rightarrow> int \<Rightarrow> string \<Rightarrow> (int, 's) resolving" where
  "group_number client what gid path =
     (if gid = 0 \<and> path \<noteq> []
      then rwrap (''failed to resolve group_path '' @ squote path @ '' for '' @ what) (ResolveGroupPath client path)
      else rreturn gid)"

definition deploy_access_entry :: "'s gitlab_client \<Rightarrow> environment_access_description \<Rightarrow> (environment_access_options, 's) resolving" where
  "deploy_access_entry client a =
     rbind (user_number client ''deploy access'' (ead_UserID a) (ead_Username a)) (\<lambda>uid.
     rbind (group_number client ''deploy access'' (ead_GroupID a) (ead_GroupPath a)) (\<lambda>gid.
     rreturn \<lparr>eao_AccessLevel = positive (ead_AccessLevel a), eao_UserID = positive uid, eao_GroupID = positive gid\<rparr>))"

definition approval_entry :: "'s gitlab_client \<Rightarrow> environment_approval_rule_config \<Rightarrow> (environment_approval_options, 's) resolving" where
  "approval_entry client a =
     rbind (user_number client ''approval rule'' (ear_UserID a) (ear_Username a)) (\<lambda>uid.
     rbind (group_number client ''approval rule'' (ear_GroupID a) (ear_GroupPath a)) (\<lambda>gid.
     rreturn \<lparr>apo_AccessLevel = positive (ear_AccessLevel a), apo_UserID = positive uid, apo_GroupID = positive gid,
              apo_RequiredApprovalCount = ear_RequiredApprovalCount a\<rparr>))"

text \<open>An approving user or group whose number is not positive adds no entry.\<close>

definition approval_user_entry :: "'s gitlab_client \<Rightarrow> environment_approval_user_config \<Rightarrow> (environment_approval_options list, 's) resolving" where
  "approval_user_entry client u =
     rbind (user_number client ''approval user'' (eau_UserID u) (eau_Username u)) (\<lambda>uid.
     rreturn (if 0 < uid then [\<lparr>apo_AccessLevel = None, apo_UserID = Some uid, apo_GroupID = None, apo_RequiredApprovalCount = None\<rparr>] else []))"

definition approval_group_entry :: "'s gitlab_client \<Rightarrow> environment_approval_group_config \<Rightarrow> (environment_approval_options list, 's) resolving" where
  "approval_group_entry client g =
     rbind (group_number client ''approval group'' (eag_GroupID g) (eag_GroupPath g)) (\<lambda>gid.
     rreturn (if 0 < gid then [\<lparr>apo_AccessLevel = None, apo_UserID = None, apo_GroupID = Some gid, apo_RequiredApprovalCount = None\<rparr>] else []))"

definition environment_protect_options ::
  "'s gitlab_client \<Rightarrow> protected_environment_rule_config \<Rightarrow> (protect_environments_options, 's) resolving" where
  "environment_protect_options client rule =
     rbind (resolve_each (deploy_access_entry client) (pe_DeployAccessLevels rule)) (\<lambda>access.
     rbind (resolve_each (approval_entry client) (pe_ApprovalRules rule)) (\<lambda>rules.
     rbind (resolve_each (approval_user_entry client) (pe_ApprovalUsers rule)) (\<lambda>users.
     rbind (resolve_each (approval_group_entry client) (pe_ApprovalGroups rule)) (\<lambda>groups.
     rreturn (let ruleList = rules @ concat users @ concat groups in
       \<lparr>peo_Name = pe_Name rule, peo_RequiredApprovalCount = pe_RequiredApprovalCount rule,
        peo_DeployAccessLevels = (if pe_DeployAccessLevels rule \<noteq> [] then Some access else None),
        peo_ApprovalRules = (if ruleList \<noteq> [] then Some ruleList else None)\<rparr>)))))"

subsection \<open>Diffs\<close>

definition formatAccessLevel :: "int \<Rightarrow> string" where
  "formatAccessLevel level =
     (if level = 0 then ''No access (0)'' else if level = 10 then ''Guest (10)'' else if level = 20 then ''Reporter (20)''
      else if level = 30 then ''Developer (30)'' else if level = 40 then ''Maintainer (40)'' else if level = 50 then ''Owner (50)''
      else if level = 60 then ''Admin (60)'' else ''level:'' @ fmt_d level)"

definition formatDesiredEnvAccess :: "environment_access_options list \<Rightarrow> string" where
  "formatDesiredEnvAccess xs =
     Join (sort (concat (map (\<lambda>a.
       case (eao_UserID a, eao_GroupID a, eao_AccessLevel a) of (u, g, l) \<Rightarrow>
         if set_when u 0 > 0 then [''User:'' @ fmt_d (set_when u 0)]
         else if set_when g 0 > 0 then [''Group:'' @ fmt_d (set_when g 0)]
         else if set_when l 0 > 0 then [formatAccessLevel (set_when l 0)] else []) xs))) '', ''"

definition formatDesiredApprovalRules :: "environment_approval_options list \<Rightarrow> string" where
  "formatDesiredApprovalRules xs =
     Join (sort (map (\<lambda>a.
       (if set_when (apo_UserID a) 0 > 0 then ''User:'' @ fmt_d (set_when (apo_UserID a) 0)
        else if set_when (apo_GroupID a) 0 > 0 then ''Group:'' @ fmt_d (set_when (apo_GroupID a) 0)
        else if set_when (apo_AccessLevel a) 0 > 0 then formatAccessLevel (set_when (apo_AccessLevel a) 0) else ''unknown'')
       @ ''('' @ fmt_d (set_when (apo_RequiredApprovalCount a) 1) @ '')'') xs)) '', ''"

definition formatLiveEnvAccess :: "gl_environment_access option list \<Rightarrow> string" where
  "formatLiveEnvAccess xs =
     Join (sort (concat (map (\<lambda>a.
       if gea_UserID a > 0 then [''User:'' @ fmt_d (gea_UserID a)]
       else if gea_GroupID a > 0 then [''Group:'' @ fmt_d (gea_GroupID a)]
       else if gea_AccessLevel a > 0 then [formatAccessLevel (gea_AccessLevel a)] else []) (present xs)))) '', ''"

definition formatLiveApprovalRules :: "gl_environment_approval option list \<Rightarrow> string" where
  "formatLiveApprovalRules xs =
     Join (sort (map (\<lambda>a.
       (if gar_UserID a > 0 then ''User:'' @ fmt_d (gar_UserID a)
        else if gar_GroupID a > 0 then ''Group:'' @ fmt_d (gar_GroupID a) else formatAccessLevel (gar_AccessLevel a))
       @ ''('' @ fmt_d (gar_RequiredApprovalCount a) @ '')'') (present xs))) '', ''"

text \<open>The keys of the comparisons, as formatted with \<^verbatim>\<open>%d:%d:%d\<close> and \<^verbatim>\<open>%d:%d:%d:%d\<close>.\<close>

definition colon_key :: "int list \<Rightarrow> string" where
  "colon_key ns = Join (map fmt_d ns) '':''"

definition live_access_numbers :: "gl_environment_access \<Rightarrow> int list" where
  "live_access_numbers l = [gea_AccessLevel l, gea_UserID l, gea_GroupID l]"

definition desired_access_numbers :: "environment_access_options \<Rightarrow> int list" where
  "desired_access_numbers d = [set_when (eao_AccessLevel d) 0, set_when (eao_UserID d) 0, set_when (eao_GroupID d) 0]"

definition live_approval_numbers :: "gl_environment_approval \<Rightarrow> int list" where
  "live_approval_numbers l = [gar_AccessLevel l, gar_UserID l, gar_GroupID l, gar_RequiredApprovalCount l]"

definition desired_approval_numbers :: "environment_approval_options \<Rightarrow> int list" where
  "desired_approval_numbers d =
     [set_when (apo_AccessLevel d) 0, set_when (apo_UserID d) 0, set_when (apo_GroupID d) 0, set_when (apo_RequiredApprovalCount d) 1]"

definition equalEnvAccess :: "gl_environment_access option list \<Rightarrow> environment_access_options list \<Rightarrow> bool" where
  "equalEnvAccess live desired \<longleftrightarrow>
     sort (map (colon_key \<circ> live_access_numbers) (present live)) = sort (map (colon_key \<circ> desired_access_numbers) desired)"

definition equalEnvApprovalRules :: "gl_environment_approval option list \<Rightarrow> environment_approval_options list \<Rightarrow> bool" where
  "equalEnvApprovalRules live desired \<longleftrightarrow>
     sort (map (colon_key \<circ> live_approval_numbers) (present live)) = sort (map (colon_key \<circ> desired_approval_numbers) desired)"

definition environment_create_diff :: "protected_environment_rule_config \<Rightarrow> protect_environments_options \<Rightarrow> diff" where
  "environment_create_diff rule opt =
     (let b = AddField ''name'' VNil (VStr (pe_Name rule)) ActionCreate NewDiffBuilder;
          b = (case pe_RequiredApprovalCount rule of None \<Rightarrow> b | Some n \<Rightarrow> AddField ''required_approval_count'' VNil (VInt n) ActionCreate b);
          b = (case peo_DeployAccessLevels opt of
                 Some (x # xs) \<Rightarrow> AddField ''deploy_access_levels'' VNil (VStr (formatDesiredEnvAccess (x # xs))) ActionCreate b | _ \<Rightarrow> b);
          b = (case peo_ApprovalRules opt of
                 Some (x # xs) \<Rightarrow> AddField ''approval_rules'' VNil (VStr (formatDesiredApprovalRules (x # xs))) ActionCreate b | _ \<Rightarrow> b)
      in Build (''protected_environment:'' @ pe_Name rule) ActionCreate b)"

definition environment_update_diff ::
  "gl_protected_environment \<Rightarrow> protected_environment_rule_config \<Rightarrow> protect_environments_options \<Rightarrow> diff" where
  "environment_update_diff live rule opt =
     (let b = (case pe_RequiredApprovalCount rule of
                 Some n \<Rightarrow> if n \<noteq> gpe_RequiredApprovalCount live
                           then AddField ''required_approval_count'' (VInt (gpe_RequiredApprovalCount live)) (VInt n) ActionUpdate NewDiffBuilder
                           else NewDiffBuilder
               | None \<Rightarrow> NewDiffBuilder);
          b = (case peo_DeployAccessLevels opt of
                 Some (x # xs) \<Rightarrow>
                   if \<not> equalEnvAccess (gpe_DeployAccessLevels live) (x # xs)
                   then AddField ''deploy_access_levels'' (VStr (formatLiveEnvAccess (gpe_DeployAccessLevels live)))
                          (VStr (formatDesiredEnvAccess (x # xs))) ActionUpdate b
                   else b
               | _ \<Rightarrow> b);
          b = (case peo_ApprovalRules opt of
                 Some (x # xs) \<Rightarrow>
                   if \<not> equalEnvApprovalRules (gpe_ApprovalRules live) (x # xs)
                   then AddField ''approval_rules'' (VStr (formatLiveApprovalRules (gpe_ApprovalRules live)))
                          (VStr (formatDesiredApprovalRules (x # xs))) ActionUpdate b
                   else b
               | _ \<Rightarrow> b)
      in Build (''protected_environment:'' @ pe_Name rule) ActionUpdate b)"

definition environment_prune_diff :: "string \<Rightarrow> diff" where
  "environment_prune_diff n =
     Build (''protected_environment:'' @ n) ActionDelete (AddField ''protected'' (VBool True) (VBool False) ActionDelete NewDiffBuilder)"

subsection \<open>Plan and apply\<close>

definition live_environments :: "gl_protected_environment option list \<Rightarrow> (string, gl_protected_environment) go_map" where
  "live_environments envs = go_map_of_list gpe_Name id (present envs)"

definition unmanaged_environments ::
  "protected_environments_config \<Rightarrow> protected_environment_rule_config list \<Rightarrow> gl_protected_environment option list \<Rightarrow> string list" where
  "unmanaged_environments c expanded envs =
     (if prunes_environments c
      then filter (\<lambda>n. \<not> isManaged (pes_Rules c) (pe_Name ` set expanded) n) (map gpe_Name (present envs)) else [])"

definition plan_environment_rule ::
  "'s gitlab_client \<Rightarrow> (string, gl_protected_environment) go_map \<Rightarrow> protected_environment_rule_config \<Rightarrow> resolver_cache \<times> 's
   \<Rightarrow> rule_outcome \<times> (resolver_cache \<times> 's)" where
  "plan_environment_rule client liveMap rule cs =
     (case environment_protect_options client rule cs of
        (Inl e, cs') \<Rightarrow> (RuleFailed ActionNoop [] e e, cs')
      | (Inr opt, cs') \<Rightarrow>
          (case go_get liveMap (pe_Name rule) of
             None \<Rightarrow> (RuleChanged ActionCreate (environment_create_diff rule opt), cs')
           | Some live \<Rightarrow>
               (let d = environment_update_diff live rule opt in
                if Diff_HasChanges d then (RuleChanged ActionUpdate d, cs') else (RuleKept, cs'))))"

definition apply_environment_rule ::
  "'s gitlab_client \<Rightarrow> int \<Rightarrow> (string, gl_protected_environment) go_map \<Rightarrow> protected_environment_rule_config \<Rightarrow> resolver_cache \<times> 's
   \<Rightarrow> rule_outcome \<times> (resolver_cache \<times> 's)" where
  "apply_environment_rule client pid liveMap rule cs =
     (let svc = cl_ProtectedEnvironments client in
      case environment_protect_options client rule cs of
        (Inl e, cs') \<Rightarrow> (RuleFailed ActionNoop [] e e, cs')
      | (Inr opt, cs') \<Rightarrow>
          (case go_get liveMap (pe_Name rule) of
             None \<Rightarrow>
               (let d = environment_create_diff rule opt in
                case with_cache (ProtectRepositoryEnvironments svc pid opt) cs' of
                  (Some e, cs2) \<Rightarrow> (RuleFailed ActionCreate [d] e e, cs2)
                | (None, cs2) \<Rightarrow> (RuleChanged ActionCreate d, cs2))
           | Some live \<Rightarrow>
               (let d = environment_update_diff live rule opt in
                if \<not> Diff_HasChanges d then (RuleKept, cs')
                else
                  (let cs2 = snd (with_cache (UnprotectEnvironment svc pid (pe_Name rule)) cs') in
                   case with_cache (ProtectRepositoryEnvironments svc pid opt) cs2 of
                     (Some e, cs3) \<Rightarrow> (RuleFailed ActionUpdate [d] e e, cs3)
                   | (None, cs3) \<Rightarrow> (RuleChanged ActionUpdate d, cs3)))))"

definition prune_environment :: "'s gitlab_client \<Rightarrow> int \<Rightarrow> string \<Rightarrow> resolver_cache \<times> 's \<Rightarrow> rule_outcome \<times> (resolver_cache \<times> 's)" where
  "prune_environment client pid n cs =
     (case with_cache (UnprotectEnvironment (cl_ProtectedEnvironments client) pid n) cs of
        (Some e, cs') \<Rightarrow> (RuleFailed ActionDelete [] (Wrapf (''failed to prune unmanaged protected environment '' @ squote n) e) e, cs')
      | (None, cs') \<Rightarrow> (RuleChanged ActionDelete (environment_prune_diff n), cs'))"

definition environments_idle :: "protected_environments_config \<Rightarrow> bool" where
  "environments_idle c \<longleftrightarrow> pes_Rules c = [] \<and> \<not> prunes_environments c"

definition ProtectedEnvironments_Plan ::
  "(nat \<Rightarrow> string list \<Rightarrow> string list) \<Rightarrow> 's gitlab_client \<Rightarrow> gl_project \<Rightarrow> policy_config option \<Rightarrow> resolver_cache \<times> 's
   \<Rightarrow> (plan_result go_result \<times> (resolver_cache \<times> 's)) option" where
  "ProtectedEnvironments_Plan ord client project cfg cs =
     (let r = project_resource project; pid = p_ID project in
      case environments_policy cfg of
        None \<Rightarrow> Some (Inr (noop_plan environments_name r), cs)
      | Some c \<Rightarrow>
          if environments_idle c then Some (Inr (noop_plan environments_name r), cs)
          else
            (case fetchAllLiveProtectedEnvironments client pid cs of
               None \<Rightarrow> None
             | Some (Inl err, cs') \<Rightarrow>
                 Some (Inl (Wrapf (''failed to list protected environments for project '' @ fmt_d pid) err), cs')
             | Some (Inr envs, cs') \<Rightarrow>
                 map_option (\<lambda>(expanded, cs2).
                     case both_passes (plan_environment_rule client (live_environments envs))
                            (\<lambda>n cs. (RuleChanged ActionDelete (environment_prune_diff n), cs)) expanded
                            (unmanaged_environments c expanded envs) cs2 of
                       (out, cs3) \<Rightarrow> (plan_result_of environments_name r out, cs3))
                   (expandRules ord client pid (pes_Rules c) envs cs')))"

definition ProtectedEnvironments_Apply ::
  "(nat \<Rightarrow> string list \<Rightarrow> string list) \<Rightarrow> 's gitlab_client \<Rightarrow> gl_project \<Rightarrow> policy_config option \<Rightarrow> resolver_cache \<times> 's
   \<Rightarrow> ((apply_result \<times> go_error option) \<times> (resolver_cache \<times> 's)) option" where
  "ProtectedEnvironments_Apply ord client project cfg cs =
     (let r = project_resource project; pid = p_ID project in
      case environments_policy cfg of
        None \<Rightarrow> Some (noop_apply environments_name r, cs)
      | Some c \<Rightarrow>
          if environments_idle c then Some (noop_apply environments_name r, cs)
          else
            (case fetchAllLiveProtectedEnvironments client pid cs of
               None \<Rightarrow> None
             | Some (Inl err, cs') \<Rightarrow> Some (failed_apply environments_name r ActionNoop [] err err, cs')
             | Some (Inr envs, cs') \<Rightarrow>
                 map_option (\<lambda>(expanded, cs2).
                     case both_passes (apply_environment_rule client pid (live_environments envs)) (prune_environment client pid) expanded
                            (unmanaged_environments c expanded envs) cs2 of
                       (out, cs3) \<Rightarrow> (apply_result_of environments_name r out, cs3))
                   (expandRules ord client pid (pes_Rules c) envs cs')))"

definition ProtectedEnvironments_PlanGroup :: "gl_group \<Rightarrow> 's plan_fun" where
  "ProtectedEnvironments_PlanGroup g s =
     (Inr (skipped_plan environments_name (group_resource g) ''Protected environments are not applicable to groups''), s)"

definition ProtectedEnvironments_ApplyGroup :: "gl_group \<Rightarrow> 's apply_fun" where
  "ProtectedEnvironments_ApplyGroup g s =
     (skipped_apply environments_name (group_resource g) ''Protected environments are not applicable to groups'', s)"

subsection \<open>The specification of the expansion\<close>

text \<open>The rule of an environment is the first that governs it; a pattern governs known environments only.\<close>

definition governs_environment :: "string list \<Rightarrow> string \<Rightarrow> protected_environment_rule_config \<Rightarrow> bool" where
  "governs_environment cands n rule \<longleftrightarrow>
     (if is_wild (pe_Name rule) then n \<in> set cands \<and> path_matches (pe_Name rule) n else pe_Name rule = n)"

definition rule_for :: "string list \<Rightarrow> protected_environment_rule_config list \<Rightarrow> string \<Rightarrow> protected_environment_rule_config option" where
  "rule_for cands rules n = map_option (\<lambda>r. r\<lparr>pe_Name := n\<rparr>) (find (governs_environment cands n) rules)"

definition visits_all :: "(nat \<Rightarrow> string list \<Rightarrow> string list) \<Rightarrow> bool" where
  "visits_all ord \<longleftrightarrow> (\<forall>k xs. mset (ord k xs) = mset xs)"

lemma rule_for_Cons:
  "rule_for cands (rule # rules) n =
     (if governs_environment cands n rule then Some (rule\<lparr>pe_Name := n\<rparr>) else rule_for cands rules n)"
  by (simp add: rule_for_def)

lemma rule_for_name: "rule_for cands rules n = Some r \<Longrightarrow> pe_Name r = n"
  by (auto simp: rule_for_def)

lemma if_equals: "(if g then Some e else q) = Some r \<longleftrightarrow> (if g then r = e else q = Some r)"
  by auto

lemma case_merge: "(x \<longleftrightarrow> (g \<and> s) \<and> e \<or> \<not> (g \<and> s) \<and> s \<and> q) \<Longrightarrow> x \<longleftrightarrow> s \<and> (if g then e else q)"
  by auto

lemma expand_from_spec:
  assumes ord: "visits_all ord" and cands: "distinct cands"
  shows "distinct (map pe_Name (expand_from ord cands rules seen))
    \<and> (\<forall>r. r \<in> set (expand_from ord cands rules seen) \<longleftrightarrow>
         pe_Name r \<notin> set seen \<and> rule_for cands rules (pe_Name r) = Some r)"
proof (induction rules arbitrary: seen)
  case (Cons rule rules)
  have visit: "set (ord k cands) = set cands" "distinct (ord k cands)" for k
    using ord cands mset_eq_setD [of "ord k cands" cands] mset_eq_imp_distinct_iff [of "ord k cands" cands]
    by (auto simp: visits_all_def)
  let ?hits = "filter (\<lambda>n. path_matches (pe_Name rule) n \<and> n \<notin> set seen) (ord (length rules) cands)"
  have self: "rule\<lparr>pe_Name := n\<rparr> = rule \<longleftrightarrow> pe_Name rule = n" for n by (cases rule) auto
  show ?case
  proof (cases "is_wild (pe_Name rule)")
    case True
    have IH: "distinct (map pe_Name (expand_from ord cands rules (?hits @ seen)))"
      "\<And>r. r \<in> set (expand_from ord cands rules (?hits @ seen)) \<longleftrightarrow>
         pe_Name r \<notin> set (?hits @ seen) \<and> rule_for cands rules (pe_Name r) = Some r"
      using Cons.IH [of "?hits @ seen"] by blast+
    have names: "map pe_Name (map (\<lambda>n. rule\<lparr>pe_Name := n\<rparr>) ?hits) = ?hits" by (simp add: comp_def)
    have run: "expand_from ord cands (rule # rules) seen =
        map (\<lambda>n. rule\<lparr>pe_Name := n\<rparr>) ?hits @ expand_from ord cands rules (?hits @ seen)"
      using True by (simp add: Let_def)
    have "distinct (map pe_Name (expand_from ord cands (rule # rules) seen))"
      unfolding run map_append names distinct_append using visit(2) IH by auto
    moreover have "r \<in> set (expand_from ord cands (rule # rules) seen) \<longleftrightarrow>
        pe_Name r \<notin> set seen \<and> rule_for cands (rule # rules) (pe_Name r) = Some r" for r
    proof -
      have hit: "r \<in> set (map (\<lambda>n. rule\<lparr>pe_Name := n\<rparr>) ?hits) \<longleftrightarrow> pe_Name r \<in> set ?hits \<and> r = rule\<lparr>pe_Name := pe_Name r\<rparr>"
      proof
        assume "r \<in> set (map (\<lambda>n. rule\<lparr>pe_Name := n\<rparr>) ?hits)"
        then obtain n where n: "n \<in> set ?hits" and r: "r = rule\<lparr>pe_Name := n\<rparr>" unfolding set_map by blast
        have "pe_Name r = n" unfolding r by simp
        then show "pe_Name r \<in> set ?hits \<and> r = rule\<lparr>pe_Name := pe_Name r\<rparr>" using n r by blast
      next
        assume h: "pe_Name r \<in> set ?hits \<and> r = rule\<lparr>pe_Name := pe_Name r\<rparr>"
        then have "rule\<lparr>pe_Name := pe_Name r\<rparr> \<in> set (map (\<lambda>n. rule\<lparr>pe_Name := n\<rparr>) ?hits)" unfolding set_map by (intro imageI) (elim conjE)
        then show "r \<in> set (map (\<lambda>n. rule\<lparr>pe_Name := n\<rparr>) ?hits)" using conjunct2 [OF h, symmetric] by (simp only:)
      qed
      have gov: "pe_Name r \<in> set ?hits \<longleftrightarrow> governs_environment cands (pe_Name r) rule \<and> pe_Name r \<notin> set seen"
        by (auto simp: governs_environment_def True visit(1))
      have "r \<in> set (expand_from ord cands (rule # rules) seen) \<longleftrightarrow> pe_Name r \<in> set ?hits \<and> r = rule\<lparr>pe_Name := pe_Name r\<rparr>
          \<or> pe_Name r \<notin> set ?hits \<and> pe_Name r \<notin> set seen \<and> rule_for cands rules (pe_Name r) = Some r"
        unfolding run set_append Un_iff hit IH(2) by blast
      then show ?thesis unfolding gov rule_for_Cons if_equals by (rule case_merge)
    qed
    ultimately show ?thesis by blast
  next
    case False
    show ?thesis
    proof (cases "pe_Name rule \<in> set seen")
      case seen: True
      then show ?thesis using False Cons.IH [of seen] by (auto simp: rule_for_def governs_environment_def)
    next
      case new: False
      have IH: "distinct (map pe_Name (expand_from ord cands rules (pe_Name rule # seen)))"
        "\<And>r. r \<in> set (expand_from ord cands rules (pe_Name rule # seen)) \<longleftrightarrow>
           pe_Name r \<notin> set (pe_Name rule # seen) \<and> rule_for cands rules (pe_Name r) = Some r"
        using Cons.IH [of "pe_Name rule # seen"] by blast+
      have run: "expand_from ord cands (rule # rules) seen = rule # expand_from ord cands rules (pe_Name rule # seen)"
        using False new by simp
      have "r \<in> set (expand_from ord cands (rule # rules) seen) \<longleftrightarrow>
          pe_Name r \<notin> set seen \<and> rule_for cands (rule # rules) (pe_Name r) = Some r" for r
      proof (cases "pe_Name r = pe_Name rule")
        case True
        have "governs_environment cands (pe_Name r) rule" using False True by (simp add: governs_environment_def)
        then have "rule_for cands (rule # rules) (pe_Name r) = Some rule" using True self [of "pe_Name r"] by (simp add: rule_for_Cons)
        moreover have "r \<notin> set (expand_from ord cands rules (pe_Name rule # seen))" using True IH(2) [of r] by simp
        ultimately show ?thesis unfolding run using True new by auto
      next
        case other: False
        then have "rule_for cands (rule # rules) (pe_Name r) = rule_for cands rules (pe_Name r)"
          using False by (simp add: rule_for_Cons governs_environment_def)
        moreover have "r \<in> set (expand_from ord cands (rule # rules) seen) \<longleftrightarrow> r \<in> set (expand_from ord cands rules (pe_Name rule # seen))"
          unfolding run using other by auto
        ultimately show ?thesis unfolding IH(2) using other by simp
      qed
      moreover have "pe_Name q \<noteq> pe_Name rule" if "q \<in> set (expand_from ord cands rules (pe_Name rule # seen))" for q
        using iffD1 [OF IH(2) that] by simp
      then have "pe_Name rule \<notin> pe_Name ` set (expand_from ord cands rules (pe_Name rule # seen))" by force
      then have "distinct (map pe_Name (expand_from ord cands (rule # rules) seen))" unfolding run using IH(1) by simp
      ultimately show ?thesis by blast
    qed
  qed
qed (simp add: rule_for_def)

lemma colon_key_inject: "colon_key (a # as) = colon_key (b # bs) \<longleftrightarrow> a # as = b # bs"
proof (induction as arbitrary: a b bs)
  case Nil
  show ?case
  proof (cases bs)
    case (Cons c cs)
    then have "CHR '':'' \<in> set (colon_key (b # bs))" "CHR '':'' \<notin> set (colon_key [a])" by (simp_all add: colon_key_def)
    then have "colon_key [a] \<noteq> colon_key (b # bs)" by metis
    then show ?thesis using Cons by simp
  qed (simp add: colon_key_def)
next
  case (Cons c cs)
  show ?case
  proof (cases bs)
    case Nil
    then have "CHR '':'' \<notin> set (colon_key (b # bs))" "CHR '':'' \<in> set (colon_key (a # c # cs))" by (simp_all add: colon_key_def)
    then have "colon_key (a # c # cs) \<noteq> colon_key (b # bs)" by metis
    then show ?thesis using Nil by simp
  next
    case (Cons d ds)
    have "colon_key (x # y # zs) = fmt_d x @ CHR '':'' # colon_key (y # zs)" for x y zs by (simp add: colon_key_def)
    then show ?thesis using append_sep_inject [of "CHR '':''" "fmt_d a" "fmt_d b"] Cons.IH [of c d ds] Cons by simp
  qed
qed

lemma colon_keys_mset:
  assumes "\<And>x. x \<in> set xs \<Longrightarrow> f x \<noteq> []" and "\<And>y. y \<in> set ys \<Longrightarrow> g y \<noteq> []"
  shows "mset (map (colon_key \<circ> f) xs) = mset (map (colon_key \<circ> g) ys) \<longleftrightarrow> mset (map f xs) = mset (map g ys)"
proof
  have inj: "colon_key u = colon_key v \<Longrightarrow> u = v" if "u \<noteq> []" "v \<noteq> []" for u v
    using that colon_key_inject [of "hd u" "tl u" "hd v" "tl v"] by simp
  assume "mset (map (colon_key \<circ> f) xs) = mset (map (colon_key \<circ> g) ys)"
  then have eq: "image_mset colon_key (mset (map f xs)) = image_mset colon_key (mset (map g ys))"
    by (simp add: multiset.map_comp)
  show "mset (map f xs) = mset (map g ys)"
    by (rule multiset.inj_map_strong [OF _ eq]) (use assms inj in auto)
next
  assume eq: "mset (map f xs) = mset (map g ys)"
  have "mset (map (colon_key \<circ> h) zs) = image_mset colon_key (mset (map h zs))" for h :: "'c \<Rightarrow> int list" and zs
    by (simp add: multiset.map_comp)
  with eq show "mset (map (colon_key \<circ> f) xs) = mset (map (colon_key \<circ> g) ys)"
    by (metis (no_types, lifting) map_map mset_map)
qed

lemma equalEnvAccess_iff:
  "equalEnvAccess live desired \<longleftrightarrow> mset (map live_access_numbers (present live)) = mset (map desired_access_numbers desired)"
  unfolding equalEnvAccess_def sort_eq_iff_mset
  by (rule colon_keys_mset) (simp_all add: live_access_numbers_def desired_access_numbers_def)

lemma equalEnvApprovalRules_iff:
  "equalEnvApprovalRules live desired \<longleftrightarrow>
     mset (map live_approval_numbers (present live)) = mset (map desired_approval_numbers desired)"
  unfolding equalEnvApprovalRules_def sort_eq_iff_mset
  by (rule colon_keys_mset) (simp_all add: live_approval_numbers_def desired_approval_numbers_def)

subsection \<open>The specification: conforming environments\<close>

definition environment_conforms :: "gl_protected_environment \<Rightarrow> protect_environments_options \<Rightarrow> bool" where
  "environment_conforms e opt \<longleftrightarrow>
     (\<forall>n. peo_RequiredApprovalCount opt = Some n \<longrightarrow> gpe_RequiredApprovalCount e = n)
   \<and> (\<forall>xs. peo_DeployAccessLevels opt = Some xs \<longrightarrow> xs \<noteq> [] \<longrightarrow>
        mset (map live_access_numbers (present (gpe_DeployAccessLevels e))) = mset (map desired_access_numbers xs))
   \<and> (\<forall>xs. peo_ApprovalRules opt = Some xs \<longrightarrow> xs \<noteq> [] \<longrightarrow>
        mset (map live_approval_numbers (present (gpe_ApprovalRules e))) = mset (map desired_approval_numbers xs))"

lemma environment_update_diff_iff:
  assumes "peo_RequiredApprovalCount opt = pe_RequiredApprovalCount rule"
  shows "Diff_HasChanges (environment_update_diff e rule opt) \<longleftrightarrow> \<not> environment_conforms e opt"
  using assms
  by (cases "pe_RequiredApprovalCount rule")
    (auto simp: environment_update_diff_def Build_HasChanges Builder_HasChanges_def environment_conforms_def Let_def
      equalEnvAccess_iff equalEnvApprovalRules_iff split: option.splits list.splits if_splits)

lemma environment_create_diff_changes [simp]: "Diff_HasChanges (environment_create_diff rule opt)"
  by (auto simp: environment_create_diff_def Build_HasChanges Builder_HasChanges_def Let_def split: option.splits list.splits)

text \<open>
  What the options ask for is a conforming environment, if every approval entry names its count: the
  comparison takes a missing one for 1, the mock server stores 0.
\<close>

definition counts_named :: "protect_environments_options \<Rightarrow> bool" where
  "counts_named opt \<longleftrightarrow> (\<forall>a \<in> set (set_when (peo_ApprovalRules opt) []). apo_RequiredApprovalCount a \<noteq> None)"

lemma present_map_Some: "present (map (Some \<circ> f) xs) = map f xs"
  unfolding map_map [symmetric] by (rule present_Some)

lemma protect_environment_conforms: "counts_named opt \<Longrightarrow> environment_conforms (environment_of_options opt) opt"
proof -
  assume named: "counts_named opt"
  have access: "map live_access_numbers (map decode_environment_access xs) = map desired_access_numbers xs" for xs
    by (simp add: decode_environment_access_def live_access_numbers_def desired_access_numbers_def)
  have approval: "map live_approval_numbers (map decode_environment_approval xs) = map desired_approval_numbers xs"
    if "peo_ApprovalRules opt = Some xs" for xs
    using named that
    by (auto simp: counts_named_def set_when_def decode_environment_approval_def live_approval_numbers_def desired_approval_numbers_def)
  show ?thesis
    unfolding environment_conforms_def
  proof (intro conjI allI impI)
    fix xs assume "peo_DeployAccessLevels opt = Some xs"
    then have "present (gpe_DeployAccessLevels (environment_of_options opt)) = map decode_environment_access xs"
      by (simp add: environment_of_options_def set_when_def present_map_Some)
    then show "mset (map live_access_numbers (present (gpe_DeployAccessLevels (environment_of_options opt)))) =
        mset (map desired_access_numbers xs)" by (simp only: access)
  next
    fix xs assume xs: "peo_ApprovalRules opt = Some xs"
    then have "present (gpe_ApprovalRules (environment_of_options opt)) = map decode_environment_approval xs"
      by (simp add: environment_of_options_def set_when_def present_map_Some)
    then show "mset (map live_approval_numbers (present (gpe_ApprovalRules (environment_of_options opt)))) =
        mset (map desired_approval_numbers xs)" by (simp only: approval [OF xs])
  qed (simp add: environment_of_options_def set_when_def)
qed

subsection \<open>On the mock server\<close>

definition protected_of :: "int \<Rightarrow> mock_state \<Rightarrow> (string, gl_protected_environment) go_map" where
  "protected_of pid st = inner (ms_protectedEnvironments st) pid"

text \<open>The options of a rule, which are the same for every sound cache.\<close>

definition resolved_environment ::
  "sdk_error \<Rightarrow> mock_state \<Rightarrow> protected_environment_rule_config \<Rightarrow> protect_environments_options go_result" where
  "resolved_environment err st0 rule = fst (environment_protect_options (mock_client err) rule (NewCachingResolver, st0))"

definition environment_rule_fails :: "sdk_error \<Rightarrow> mock_state \<Rightarrow> protected_environment_rule_config \<Rightarrow> bool" where
  "environment_rule_fails err st0 rule \<longleftrightarrow> (case resolved_environment err st0 rule of Inl e \<Rightarrow> True | Inr opt \<Rightarrow> False)"

definition environment_good :: "sdk_error \<Rightarrow> mock_state \<Rightarrow> gl_protected_environment option \<Rightarrow> protected_environment_rule_config \<Rightarrow> bool" where
  "environment_good err st0 e rule \<longleftrightarrow>
     (case resolved_environment err st0 rule of Inl _ \<Rightarrow> False
      | Inr opt \<Rightarrow> (case e of None \<Rightarrow> False | Some e \<Rightarrow> environment_conforms e opt))"

text \<open>Every approval entry the rule resolves to names its count.\<close>

definition environment_counted :: "sdk_error \<Rightarrow> mock_state \<Rightarrow> protected_environment_rule_config \<Rightarrow> bool" where
  "environment_counted err st0 rule \<longleftrightarrow> (case resolved_environment err st0 rule of Inl e \<Rightarrow> True | Inr opt \<Rightarrow> counts_named opt)"

definition environments_ok :: "sdk_error \<Rightarrow> mock_state \<Rightarrow> gl_project \<Rightarrow> resolver_cache \<times> mock_state \<Rightarrow> bool" where
  "environments_ok err st0 project cs \<longleftrightarrow> governs project (snd cs) \<and> keyed gpe_Name (protected_of (p_ID project) (snd cs))
     \<and> ms_environments (snd cs) = ms_environments st0
     \<and> directory_of (snd cs) = directory_of st0 \<and> cache_sound (users_in st0) (groups_in err st0) (fst cs)"

definition environment_at :: "gl_project \<Rightarrow> resolver_cache \<times> mock_state \<Rightarrow> string \<Rightarrow> gl_protected_environment option" where
  "environment_at project cs n = go_get (protected_of (p_ID project) (snd cs)) n"

lemma environment_options_determined: "mock_dir.determined st0 err (environment_protect_options (mock_client err) rule)"
proof -
  have user: "mock_dir.determined st0 err (user_number (mock_client err) what uid name)" for what uid name
    unfolding user_number_def by (auto intro: mock_dir.determined_rules)
  have group: "mock_dir.determined st0 err (group_number (mock_client err) what gid path)" for what gid path
    unfolding group_number_def by (auto intro: mock_dir.determined_rules)
  show ?thesis
    unfolding environment_protect_options_def deploy_access_entry_def approval_entry_def approval_user_entry_def approval_group_entry_def
    by (intro mock_dir.determined_rules user group)
qed

lemma environment_options_mock:
  assumes "environments_ok err st0 project (c, st)"
  shows "\<exists>c'. environment_protect_options (mock_client err) rule (c, st) = (resolved_environment err st0 rule, (c', st))
    \<and> environments_ok err st0 project (c', st)"
  using mock_dir.determined_value [OF environment_options_determined refl, of st st0 err c rule] assms
  by (auto simp: environments_ok_def resolved_environment_def)

lemma resolved_environment_fields:
  "resolved_environment err st0 rule = Inr opt \<Longrightarrow>
     peo_Name opt = pe_Name rule \<and> peo_RequiredApprovalCount opt = pe_RequiredApprovalCount rule"
  by (auto simp: resolved_environment_def environment_protect_options_def rbind_def rreturn_def Let_def split: prod.splits sum.splits)

lemma environment_rule_cases:
  obtains e where "resolved_environment err st0 rule = Inl e" "environment_rule_fails err st0 rule"
    | opt where "resolved_environment err st0 rule = Inr opt" "\<not> environment_rule_fails err st0 rule"
        "\<And>e. environment_good err st0 e rule \<longleftrightarrow> (case e of None \<Rightarrow> False | Some e \<Rightarrow> environment_conforms e opt)"
        "environment_counted err st0 rule \<longleftrightarrow> counts_named opt"
        "peo_Name opt = pe_Name rule" "\<And>e. Diff_HasChanges (environment_update_diff e rule opt) \<longleftrightarrow> \<not> environment_conforms e opt"
proof (cases "resolved_environment err st0 rule")
  case (Inl e)
  then show ?thesis by (intro that(1)) (auto simp: environment_rule_fails_def)
next
  case (Inr opt)
  then show ?thesis using resolved_environment_fields [OF Inr]
    by (intro that(2) [of opt]) (auto simp: environment_rule_fails_def environment_good_def environment_counted_def environment_update_diff_iff)
qed

lemma protect_environment_mock:
  assumes "environments_ok err st0 project (c, st)"
  shows "\<exists>st'. ProtectRepositoryEnvironments (mock_protected_environments err) (p_ID project) opt st = (None, st')
    \<and> protected_of (p_ID project) st' = go_put (peo_Name opt) (environment_of_options opt) (protected_of (p_ID project) st)
    \<and> environments_ok err st0 project (c, st')"
proof -
  let ?st = "st\<lparr>ms_protectedEnvironments :=
    put_inner (p_ID project) (peo_Name opt) (environment_of_options opt) (ms_protectedEnvironments st)\<rparr>"
  have n: "gpe_Name (environment_of_options opt) = peo_Name opt" by (simp add: environment_of_options_def)
  have "ProtectRepositoryEnvironments (mock_protected_environments err) (p_ID project) opt st = (None, ?st)"
    using assms by (simp add: mock_protected_environments_def ProtectEnvironment_def found_or_404_def environments_ok_def governs_def
        resolve_project_number n)
  moreover have put: "protected_of (p_ID project) ?st = go_put (peo_Name opt) (environment_of_options opt) (protected_of (p_ID project) st)"
    by (simp add: protected_of_def)
  moreover have "keyed gpe_Name (protected_of (p_ID project) ?st)"
    using assms keyed_put [of gpe_Name "protected_of (p_ID project) st" "environment_of_options opt"]
    by (simp only: put environments_ok_def n snd_conv)
  ultimately show ?thesis using assms by (intro exI [of _ ?st]) (simp add: environments_ok_def)
qed

lemma unprotect_environment_mock:
  assumes "environments_ok err st0 project (c, st)"
  shows "\<exists>e st'. UnprotectEnvironment (mock_protected_environments err) (p_ID project) n st = (e, st')
    \<and> (\<forall>m. go_get (protected_of (p_ID project) st') m = (if m = n then None else go_get (protected_of (p_ID project) st) m))
    \<and> (go_get (protected_of (p_ID project) st) n \<noteq> None \<longrightarrow> e = None) \<and> environments_ok err st0 project (c, st')"
proof (cases "go_get (protected_of (p_ID project) st) n")
  case None
  then have "UnprotectEnvironment (mock_protected_environments err) (p_ID project) n st =
      (Some (err 404 ''404 Protected Environment Not Found''), st)"
    using assms by (simp add: mock_protected_environments_def State_UnprotectEnvironment_def found_or_404_def environments_ok_def governs_def
        resolve_project_number protected_of_def)
  with None assms show ?thesis by auto
next
  case (Some e)
  let ?st = "st\<lparr>ms_protectedEnvironments := delete_inner (p_ID project) n (ms_protectedEnvironments st)\<rparr>"
  have "UnprotectEnvironment (mock_protected_environments err) (p_ID project) n st = (None, ?st)"
    using assms Some by (simp add: mock_protected_environments_def State_UnprotectEnvironment_def found_or_404_def environments_ok_def governs_def
        resolve_project_number protected_of_def)
  moreover have del: "protected_of (p_ID project) ?st = go_delete n (protected_of (p_ID project) st)" by (simp add: protected_of_def)
  ultimately show ?thesis
    using assms keyed_delete [of gpe_Name "protected_of (p_ID project) st" n]
    by (intro exI [of _ None] exI [of _ ?st]) (simp add: environments_ok_def del)
qed

lemma plan_environment_mock:
  assumes "environments_ok err st0 project cs"
  shows "environments_ok err st0 project (snd (plan_environment_rule (mock_client err) liveMap rule cs))
    \<and> snd (snd (plan_environment_rule (mock_client err) liveMap rule cs)) = snd cs
    \<and> reports (fst (plan_environment_rule (mock_client err) liveMap rule cs))
    \<and> (failed (fst (plan_environment_rule (mock_client err) liveMap rule cs)) \<longleftrightarrow> environment_rule_fails err st0 rule)
    \<and> (\<not> environment_rule_fails err st0 rule \<longrightarrow>
         (fst (plan_environment_rule (mock_client err) liveMap rule cs) = RuleKept
            \<longleftrightarrow> environment_good err st0 (go_get liveMap (pe_Name rule)) rule))"
proof -
  obtain c st where cs: "cs = (c, st)" by (cases cs)
  obtain c' where c': "environment_protect_options (mock_client err) rule (c, st) = (resolved_environment err st0 rule, (c', st))"
    "environments_ok err st0 project (c', st)"
    using environment_options_mock assms cs by blast
  show ?thesis
    by (rule environment_rule_cases [of err st0 rule])
      (use c' in \<open>auto simp: cs plan_environment_rule_def Let_def split: option.splits\<close>)
qed

lemma apply_environment_mock:
  assumes "environments_ok err st0 project cs" and live: "environment_at project cs (pe_Name rule) = go_get liveMap (pe_Name rule)"
    and counted: "environment_counted err st0 rule"
  shows "\<exists>out cs'. apply_environment_rule (mock_client err) (p_ID project) liveMap rule cs = (out, cs') \<and> environments_ok err st0 project cs'
    \<and> (\<forall>n. n \<noteq> pe_Name rule \<longrightarrow> environment_at project cs' n = environment_at project cs n)
    \<and> (failed out \<longleftrightarrow> environment_rule_fails err st0 rule)
    \<and> (out = RuleKept \<longrightarrow> snd cs' = snd cs \<and> environment_good err st0 (go_get liveMap (pe_Name rule)) rule)
    \<and> ((\<exists>a d. out = RuleChanged a d) \<longrightarrow> environment_good err st0 (environment_at project cs' (pe_Name rule)) rule
         \<and> \<not> environment_good err st0 (go_get liveMap (pe_Name rule)) rule)"
proof -
  obtain c st where cs: "cs = (c, st)" by (cases cs)
  obtain c' where c': "environment_protect_options (mock_client err) rule (c, st) = (resolved_environment err st0 rule, (c', st))"
    "environments_ok err st0 project (c', st)"
    using environment_options_mock assms(1) cs by blast
  show ?thesis
  proof (rule environment_rule_cases [of err st0 rule])
    fix e assume "resolved_environment err st0 rule = Inl e" "environment_rule_fails err st0 rule"
    with c' show ?thesis by (simp add: cs apply_environment_rule_def environment_at_def)
  next
    fix opt assume r: "resolved_environment err st0 rule = Inr opt" "\<not> environment_rule_fails err st0 rule"
      and good: "\<And>e. environment_good err st0 e rule \<longleftrightarrow> (case e of None \<Rightarrow> False | Some e \<Rightarrow> environment_conforms e opt)"
      and named: "environment_counted err st0 rule \<longleftrightarrow> counts_named opt" and name: "peo_Name opt = pe_Name rule"
      and diff: "\<And>e. Diff_HasChanges (environment_update_diff e rule opt) \<longleftrightarrow> \<not> environment_conforms e opt"
    have conf: "environment_conforms (environment_of_options opt) opt" using counted named protect_environment_conforms by blast
    have put: "\<exists>st'. with_cache (ProtectRepositoryEnvironments (mock_protected_environments err) (p_ID project) opt) (c', s) = (None, (c', st'))
        \<and> environments_ok err st0 project (c', st') \<and> environment_good err st0 (environment_at project (c', st') (pe_Name rule)) rule
        \<and> (\<forall>n. n \<noteq> pe_Name rule \<longrightarrow> environment_at project (c', st') n = environment_at project (c', s) n)"
      if "environments_ok err st0 project (c', s)" for s
      using protect_environment_mock [OF that, of opt] conf by (auto simp: environment_at_def name good)
    show ?thesis
    proof (cases "go_get liveMap (pe_Name rule)")
      case None
      with put [OF c'(2)] c'(1) r show ?thesis by (auto simp: cs apply_environment_rule_def good environment_at_def Let_def)
    next
      case (Some e)
      show ?thesis
      proof (cases "environment_conforms e opt")
        case True
        with Some c' r show ?thesis by (simp add: cs apply_environment_rule_def diff good environment_at_def)
      next
        case False
        obtain x s1 where s1: "UnprotectEnvironment (mock_protected_environments err) (p_ID project) (pe_Name rule) st = (x, s1)"
          "environments_ok err st0 project (c', s1)"
          "\<And>m. m \<noteq> pe_Name rule \<Longrightarrow> environment_at project (c', s1) m = environment_at project (c', st) m"
          using unprotect_environment_mock [OF c'(2), of "pe_Name rule"] by (auto simp: environment_at_def)
        from put [OF s1(2)] obtain s2 where
          s2: "with_cache (ProtectRepositoryEnvironments (mock_protected_environments err) (p_ID project) opt) (c', s1) = (None, (c', s2))"
          "environments_ok err st0 project (c', s2)" "environment_good err st0 (environment_at project (c', s2) (pe_Name rule)) rule"
          "\<forall>n. n \<noteq> pe_Name rule \<longrightarrow> environment_at project (c', s2) n = environment_at project (c', s1) n" by blast
        have "apply_environment_rule (mock_client err) (p_ID project) liveMap rule cs =
            (RuleChanged ActionUpdate (environment_update_diff e rule opt), (c', s2))"
          using Some False c' r s1(1) s2(1) by (simp add: cs apply_environment_rule_def diff Let_def)
        then show ?thesis using Some False r s1(3) s2(2-4) by (simp add: good) (simp add: cs environment_at_def)
      qed
    qed
  qed
qed

interpretation environment_plan: plan_steps "plan_environment_rule (mock_client err) liveMap" "environments_ok err st0 project" snd
  "environment_rule_fails err st0" "\<lambda>rule. environment_good err st0 (go_get liveMap (pe_Name rule)) rule"
  by unfold_locales (use plan_environment_mock in blast)+

interpretation environment_passes: two_passes "apply_environment_rule (mock_client err) (p_ID project) liveMap" "environments_ok err st0 project"
  "environment_at project" snd pe_Name "environment_good err st0" "environment_rule_fails err st0" "go_get liveMap"
  "{rule. environment_counted err st0 rule}" "prune_environment (mock_client err) (p_ID project)"
proof (rule two_passes.intro; rule prune_stepsI rule_stepsI)
  fix s :: "resolver_cache \<times> mock_state" and rule :: protected_environment_rule_config
  assume "environments_ok err st0 project s" "rule \<in> {rule. environment_counted err st0 rule}"
    "environment_at project s (pe_Name rule) = go_get liveMap (pe_Name rule)"
  then show "\<exists>out s'. apply_environment_rule (mock_client err) (p_ID project) liveMap rule s = (out, s') \<and> environments_ok err st0 project s'
    \<and> (\<forall>n. n \<noteq> pe_Name rule \<longrightarrow> environment_at project s' n = environment_at project s n)
    \<and> (failed out \<longleftrightarrow> environment_rule_fails err st0 rule)
    \<and> (out = RuleKept \<longrightarrow> snd s' = snd s \<and> environment_at project s' (pe_Name rule) = environment_at project s (pe_Name rule)
         \<and> environment_good err st0 (go_get liveMap (pe_Name rule)) rule)
    \<and> ((\<exists>a d. out = RuleChanged a d) \<longrightarrow> environment_good err st0 (environment_at project s' (pe_Name rule)) rule
         \<and> \<not> environment_good err st0 (go_get liveMap (pe_Name rule)) rule)"
    using apply_environment_mock [of err st0 project s rule liveMap] by (auto simp: environment_at_def)
next
  fix s :: "resolver_cache \<times> mock_state" and u
  assume ok: "environments_ok err st0 project s" and "environment_at project s u = go_get liveMap u" "go_get liveMap u \<noteq> None"
  then have there: "go_get (protected_of (p_ID project) (snd s)) u \<noteq> None" by (simp add: environment_at_def)
  obtain c st where cs: "s = (c, st)" by (cases s)
  obtain st' where "UnprotectEnvironment (mock_protected_environments err) (p_ID project) u st = (None, st')"
    "environments_ok err st0 project (c, st')"
    "\<And>m. go_get (protected_of (p_ID project) st') m = (if m = u then None else go_get (protected_of (p_ID project) st) m)"
    using unprotect_environment_mock [of err st0 project c st u] ok there unfolding cs by auto
  then show "\<exists>a d s'. prune_environment (mock_client err) (p_ID project) u s = (RuleChanged a d, s') \<and> environments_ok err st0 project s'
      \<and> (\<forall>n. environment_at project s' n = (if n = u then None else environment_at project s n))"
    by (auto simp: prune_environment_def cs environment_at_def)
qed

subsection \<open>The whole run on the mock server\<close>

lemma list_until_error_read_only:
  assumes "\<And>p. fetch p s = (f p, s)" and "fetch_pages f page acc = Some (Inr xs)"
  shows "list_until_error fetch page acc s = Some (xs, s)"
proof -
  have "(\<forall>p. fetch p s = (f p, s)) \<longrightarrow> (\<forall>xs. r = Inr xs \<longrightarrow> list_until_error fetch page acc s = Some (xs, s))"
    if "fetch_pages f page acc = Some r" for r
  proof (rule fetch_pages.raw_induct [OF _ that,
        where P = "\<lambda>f page acc r. (\<forall>p. fetch p s = (f p, s)) \<longrightarrow> (\<forall>xs. r = Inr xs \<longrightarrow> list_until_error fetch page acc s = Some (xs, s))"],
      intro impI allI)
    fix g f page acc r xs
    assume "\<And>f page acc r. g f page acc = Some r \<Longrightarrow>
          (\<forall>p. fetch p s = (f p, s)) \<longrightarrow> (\<forall>xs. r = Inr xs \<longrightarrow> list_until_error fetch page acc s = Some (xs, s))"
      and "(case f page of
              Inl e \<Rightarrow> Some (Inl e)
            | Inr (xs, resp) \<Rightarrow>
                (case resp of
                   None \<Rightarrow> Some (Inr (acc @ xs))
                 | Some n \<Rightarrow> if n = 0 then Some (Inr (acc @ xs)) else g f n (acc @ xs))) = Some r"
      and "\<forall>p. fetch p s = (f p, s)" and "r = Inr xs"
    then show "list_until_error fetch page acc s = Some (xs, s)"
      by (subst list_until_error.simps) (auto split: sum.splits option.splits if_splits prod.splits)
  qed
  with assms show ?thesis by simp
qed

text \<open>The names the expansion knows, and what it makes of the rules.\<close>

definition listed_environments :: "int \<Rightarrow> mock_state \<Rightarrow> gl_protected_environment option list" where
  "listed_environments pid st = map Some (map snd (protected_of pid st))"

definition known_environments :: "int \<Rightarrow> mock_state \<Rightarrow> string list" where
  "known_environments pid st = candidateNames (map Some (map snd (inner (ms_environments st) pid))) (listed_environments pid st)"

definition expansion ::
  "(nat \<Rightarrow> string list \<Rightarrow> string list) \<Rightarrow> string list \<Rightarrow> protected_environment_rule_config list \<Rightarrow> protected_environment_rule_config list" where
  "expansion ord cands rules = (if \<not> (\<exists>rule \<in> set rules. is_wild (pe_Name rule)) then rules else expand_from ord cands rules [])"

definition names_apart :: "protected_environment_rule_config list \<Rightarrow> bool" where
  "names_apart rules \<longleftrightarrow> (\<exists>rule \<in> set rules. is_wild (pe_Name rule)) \<or> distinct (map pe_Name rules)"

lemma fetch_environments_mock:
  assumes "environments_ok err st0 project cs"
  shows "fetchAllLiveProtectedEnvironments (mock_client err) (p_ID project) cs = Some (Inr (listed_environments (p_ID project) (snd cs)), cs)"
  unfolding fetchAllLiveProtectedEnvironments_def
proof (rule list_all_pages_read_only [OF _ mock.fetch_all])
  fix p
  show "with_cache (ListProtectedEnvironments (cl_ProtectedEnvironments (mock_client err)) (p_ID project) p 100) cs =
      (mock_list 100 (listed_environments (p_ID project) (snd cs)) p, cs)"
    using assms by (cases cs) (simp add: mock_protected_environments_def State_ListProtectedEnvironments_def environments_ok_def governs_def
        resolve_project_number protected_of_def listed_environments_def)
qed

lemma expandRules_mock:
  assumes "environments_ok err st0 project cs"
  shows "expandRules ord (mock_client err) (p_ID project) rules (listed_environments (p_ID project) (snd cs)) cs =
    Some (expansion ord (known_environments (p_ID project) (snd cs)) rules, cs)"
proof -
  have "list_until_error (\<lambda>page. with_cache (ListEnvironments mock_environments (p_ID project) page 100)) 1 [] cs =
      Some (map Some (map snd (inner (ms_environments (snd cs)) (p_ID project))), cs)"
  proof (rule list_until_error_read_only [OF _ mock.fetch_all])
    fix p
    show "with_cache (ListEnvironments mock_environments (p_ID project) p 100) cs =
        (mock_list 100 (map Some (map snd (inner (ms_environments (snd cs)) (p_ID project)))) p, cs)"
      using assms by (cases cs) (simp add: mock_environments_def State_ListEnvironments_def environments_ok_def governs_def resolve_project_number)
  qed
  then show ?thesis by (simp add: expandRules_def expansion_def known_environments_def del: map_map)
qed

lemma live_environments_at:
  "environments_ok err st0 project cs \<Longrightarrow>
     go_get (live_environments (listed_environments (p_ID project) (snd cs))) = environment_at project cs"
  unfolding live_environments_def listed_environments_def present_Some
  by (auto simp: fun_eq_iff environment_at_def environments_ok_def keyed_lookup)

lemma distinct_known [simp]: "distinct (known_environments pid st)"
  by (simp add: known_environments_def candidateNames_def)

lemma known_environments_iff:
  assumes "keyed gpe_Name (protected_of pid st)"
  shows "n \<in> set (known_environments pid st) \<longleftrightarrow>
    n \<noteq> [] \<and> (n \<in> gen_Name ` snd ` set (inner (ms_environments st) pid) \<or> go_get (protected_of pid st) n \<noteq> None)"
proof -
  have "map gpe_Name (present (listed_environments pid st)) = map fst (protected_of pid st)"
    unfolding listed_environments_def present_Some by (rule keyed_keys [OF assms])
  then have "set (known_environments pid st) =
      {n. n \<noteq> []} \<inter> (gen_Name ` snd ` set (inner (ms_environments st) pid) \<union> fst ` set (protected_of pid st))"
    unfolding known_environments_def candidateNames_def by (auto simp: present_map_Some)
  moreover have "n \<in> fst ` set (protected_of pid st) \<longleftrightarrow> go_get (protected_of pid st) n \<noteq> None"
    by (auto simp: dom_map_of_conv_image_fst [symmetric] dom_def)
  ultimately show ?thesis by auto
qed

lemma rule_for_plain:
  assumes "distinct (map pe_Name rules)" and "\<not> (\<exists>rule \<in> set rules. is_wild (pe_Name rule))"
  shows "rule_for cands rules (pe_Name r) = Some r \<longleftrightarrow> r \<in> set rules"
  using assms
proof (induction rules)
  case (Cons a rules)
  have self: "a\<lparr>pe_Name := pe_Name a\<rparr> = a" by simp
  show ?case
  proof (cases "pe_Name a = pe_Name r")
    case True
    then have "rule_for cands (a # rules) (pe_Name r) = Some a"
      using Cons.prems(2) self by (simp add: rule_for_Cons governs_environment_def)
    moreover have "r \<in> set (a # rules) \<longleftrightarrow> r = a" using Cons.prems(1) True by auto
    ultimately show ?thesis by auto
  qed (use Cons in \<open>auto simp: rule_for_Cons governs_environment_def\<close>)
qed (simp add: rule_for_def)

lemma expansion_spec:
  assumes "visits_all ord" and "distinct cands" and "names_apart rules"
  shows "distinct (map pe_Name (expansion ord cands rules))"
    and "r \<in> set (expansion ord cands rules) \<longleftrightarrow> rule_for cands rules (pe_Name r) = Some r"
  using expand_from_spec [OF assms(1,2), of rules "[]"] rule_for_plain [of rules cands r] assms(3)
  by (auto simp: expansion_def names_apart_def)

text \<open>A name is managed when a rule has it or is a pattern that matches it, expanded or not.\<close>

lemma rule_for_managed: "rule_for cands rules n = Some r \<Longrightarrow> isManaged rules {} n"
  by (auto simp: rule_for_def isManaged_def governs_environment_def dest!: find_SomeD split: if_splits)

lemma managed_expansion:
  assumes "visits_all ord" and "distinct cands" and "names_apart rules"
  shows "isManaged rules (pe_Name ` set (expansion ord cands rules)) n \<longleftrightarrow> isManaged rules {} n"
proof -
  have "isManaged rules {} n" if "n \<in> pe_Name ` set (expansion ord cands rules)"
    using that expansion_spec(2) [OF assms] rule_for_managed by blast
  then show ?thesis by (auto simp: isManaged_def)
qed

lemma unmanaged_environments_mock:
  assumes ok: "environments_ok err st0 project cs" and "visits_all ord" "distinct cands" "names_apart (pes_Rules c)"
  shows "set (unmanaged_environments c (expansion ord cands (pes_Rules c)) (listed_environments (p_ID project) (snd cs))) =
      {n. prunes_environments c \<and> environment_at project cs n \<noteq> None \<and> \<not> isManaged (pes_Rules c) {} n}"
    and "distinct (unmanaged_environments c (expansion ord cands (pes_Rules c)) (listed_environments (p_ID project) (snd cs)))"
proof -
  have keyed: "keyed gpe_Name (protected_of (p_ID project) (snd cs))" using ok by (simp add: environments_ok_def)
  have names: "map gpe_Name (present (listed_environments (p_ID project) (snd cs))) = map fst (protected_of (p_ID project) (snd cs))"
    unfolding listed_environments_def present_Some by (rule keyed_keys [OF keyed])
  have "set (map fst (protected_of (p_ID project) (snd cs))) = {n. environment_at project cs n \<noteq> None}"
    by (auto simp: environment_at_def dom_map_of_conv_image_fst [symmetric] dom_def)
  then show "set (unmanaged_environments c (expansion ord cands (pes_Rules c)) (listed_environments (p_ID project) (snd cs))) =
      {n. prunes_environments c \<and> environment_at project cs n \<noteq> None \<and> \<not> isManaged (pes_Rules c) {} n}"
    unfolding unmanaged_environments_def names managed_expansion [OF assms(2-4)] by auto
  have "distinct (map fst (protected_of (p_ID project) (snd cs)))" using keyed by (simp add: keyed_def go_map_ok_def)
  then show "distinct (unmanaged_environments c (expansion ord cands (pes_Rules c)) (listed_environments (p_ID project) (snd cs)))"
    unfolding unmanaged_environments_def names by simp
qed

lemma plan_environments_mock:
  assumes pol: "environments_policy cfg = Some c" and idle: "\<not> environments_idle c" and ok: "environments_ok err st0 project cs"
    and spec: "visits_all ord" "names_apart (pes_Rules c)"
  shows "\<exists>out cs'. ProtectedEnvironments_Plan ord (mock_client err) project cfg cs = Some (out, cs') \<and> environments_ok err st0 project cs'
    \<and> snd cs' = snd cs
    \<and> ((\<exists>pl. out = Inr pl \<and> \<not> pr_HasChanges pl) \<longleftrightarrow>
         (\<forall>r. rule_for (known_environments (p_ID project) (snd cs)) (pes_Rules c) (pe_Name r) = Some r \<longrightarrow>
            \<not> environment_rule_fails err st0 r \<and> environment_good err st0 (environment_at project cs (pe_Name r)) r)
         \<and> (prunes_environments c \<longrightarrow> (\<forall>n. environment_at project cs n \<noteq> None \<longrightarrow> isManaged (pes_Rules c) {} n)))"
proof -
  let ?envs = "listed_environments (p_ID project) (snd cs)"
  let ?rules = "expansion ord (known_environments (p_ID project) (snd cs)) (pes_Rules c)"
  let ?us = "unmanaged_environments c ?rules ?envs"
  obtain out cs' where run: "both_passes (plan_environment_rule (mock_client err) (live_environments ?envs))
      (\<lambda>n cs. (RuleChanged ActionDelete (environment_prune_diff n), cs)) ?rules ?us cs = (out, cs')"
    by (rule prod.exhaust)
  have us: "?us = [] \<longleftrightarrow> (prunes_environments c \<longrightarrow> (\<forall>n. environment_at project cs n \<noteq> None \<longrightarrow> isManaged (pes_Rules c) {} n))"
    using unmanaged_environments_mock(1) [OF ok spec(1) distinct_known spec(2)] by (metis (mono_tags, lifting) Collect_empty_eq empty_set set_empty)
  note facts = environment_plan.plan_both [OF ok, where liveMap = "live_environments ?envs" and rs = ?rules and dd = environment_prune_diff
      and us = ?us, unfolded run prod.case live_environments_at [OF ok] us Ball_def expansion_spec(2) [OF spec(1) distinct_known spec(2)]]
  have plan: "ProtectedEnvironments_Plan ord (mock_client err) project cfg cs =
      Some (plan_result_of environments_name (project_resource project) out, cs')"
    using run idle by (simp add: ProtectedEnvironments_Plan_def pol fetch_environments_mock [OF ok] expandRules_mock [OF ok] Let_def)
  show ?thesis
  proof (cases out)
    case (Inl x)
    then obtain a ds e e' where "out = Inl (a, ds, e, e')" by (cases x) auto
    with facts plan show ?thesis
      by (auto simp: plan_result_of_def Bex_def expansion_spec(2) [OF spec(1) distinct_known spec(2)])
  next
    case (Inr acc)
    then obtain ds a where acc: "out = Inr (ds, a)" by (cases acc) auto
    with facts have t: "tracks (ds, a)" by simp
    have "(\<exists>pl. plan_result_of environments_name (project_resource project) out = Inr pl \<and> \<not> pr_HasChanges pl) \<longleftrightarrow> ds = []"
      by (simp add: acc plan_result_of_def tracks_plan [OF t])
    with facts [unfolded acc sum.case fst_conv] plan show ?thesis by blast
  qed
qed

lemma apply_environments_mock:
  assumes pol: "environments_policy cfg = Some c" and idle: "\<not> environments_idle c" and ok: "environments_ok err st0 project cs"
    and spec: "visits_all ord" "names_apart (pes_Rules c)"
    and rules: "\<And>r. rule_for (known_environments (p_ID project) (snd cs)) (pes_Rules c) (pe_Name r) = Some r \<Longrightarrow>
      \<not> environment_rule_fails err st0 r \<and> environment_counted err st0 r"
  shows "\<exists>res cs'. ProtectedEnvironments_Apply ord (mock_client err) project cfg cs = Some ((res, None), cs') \<and> environments_ok err st0 project cs'
    \<and> (\<forall>n. case rule_for (known_environments (p_ID project) (snd cs)) (pes_Rules c) n of
           Some r \<Rightarrow> environment_good err st0 (environment_at project cs' n) r
         | None \<Rightarrow> environment_at project cs' n =
             (if prunes_environments c \<and> \<not> isManaged (pes_Rules c) {} n then None else environment_at project cs n))"
proof -
  let ?envs = "listed_environments (p_ID project) (snd cs)" and ?cands = "known_environments (p_ID project) (snd cs)"
  let ?rules = "expansion ord ?cands (pes_Rules c)"
  let ?us = "unmanaged_environments c ?rules ?envs"
  note inset = expansion_spec(2) [OF spec(1) distinct_known [of "p_ID project" "snd cs"] spec(2)]
  obtain out cs' where run: "both_passes (apply_environment_rule (mock_client err) (p_ID project) (live_environments ?envs))
      (prune_environment (mock_client err) (p_ID project)) ?rules ?us cs = (out, cs')"
    by (rule prod.exhaust)
  note us = unmanaged_environments_mock [OF ok spec(1) distinct_known [of "p_ID project" "snd cs"] spec(2)]
  have names: "n \<in> pe_Name ` set ?rules \<longleftrightarrow> rule_for ?cands (pes_Rules c) n \<noteq> None" for n
  proof
    assume "n \<in> pe_Name ` set ?rules"
    then obtain r where "r \<in> set ?rules" "n = pe_Name r" by blast
    then show "rule_for ?cands (pes_Rules c) n \<noteq> None" using iffD1 [OF inset [of r]] by simp
  next
    assume "rule_for ?cands (pes_Rules c) n \<noteq> None"
    then obtain r where r: "rule_for ?cands (pes_Rules c) n = Some r" by blast
    from rule_for_name [OF this] r have "r \<in> set ?rules" using iffD2 [OF inset [of r]] by simp
    with rule_for_name [OF r] show "n \<in> pe_Name ` set ?rules" by blast
  qed
  have us_rules: "go_get (live_environments ?envs) u \<noteq> None \<and> u \<notin> pe_Name ` set ?rules" if "u \<in> set ?us" for u
    using that unfolding live_environments_at [OF ok] us(1) names using rule_for_managed by blast
  have able: "\<not> environment_rule_fails err st0 r \<and> environment_counted err st0 r" if "r \<in> set ?rules" for r
    by (rule rules [OF iffD1 [OF inset that]])
  then have counted: "set ?rules \<subseteq> {rule. environment_counted err st0 rule}" by blast
  note facts = environment_passes.apply_both [OF ok live_environments_at [OF ok, symmetric] counted
      expansion_spec(1) [OF spec(1) distinct_known spec(2)] us(2) us_rules, unfolded run prod.case]
  have app: "ProtectedEnvironments_Apply ord (mock_client err) project cfg cs =
      Some (apply_result_of environments_name (project_resource project) out, cs')"
    using run idle by (simp add: ProtectedEnvironments_Apply_def pol fetch_environments_mock [OF ok] expandRules_mock [OF ok] Let_def)
  obtain ds a where acc: "out = Inr (ds, a)"
  proof (cases out)
    case (Inl x)
    with facts able show ?thesis by auto
  next
    case (Inr acc)
    then show ?thesis using that by (cases acc) auto
  qed
  note facts = facts [unfolded acc sum.case fst_conv snd_conv]
  have good: "environment_good err st0 (environment_at project cs' n) r" if r: "rule_for ?cands (pes_Rules c) n = Some r" for n r
  proof -
    have "r \<in> set ?rules" using iffD2 [OF inset [of r]] rule_for_name [OF r] r by simp
    with facts rule_for_name [OF r] show ?thesis by auto
  qed
  have other: "environment_at project cs' n =
      (if prunes_environments c \<and> \<not> isManaged (pes_Rules c) {} n then None else environment_at project cs n)"
    if "rule_for ?cands (pes_Rules c) n = None" for n
  proof (cases "n \<in> set ?us")
    case True
    then show ?thesis using facts us(1) by auto
  next
    case False
    then have "environment_at project cs' n = environment_at project cs n"
      using facts names [of n] that by (simp add: live_environments_at [OF ok])
    then show ?thesis using False us(1) by auto
  qed
  have "\<exists>res. apply_result_of environments_name (project_resource project) out = (res, None)"
    by (simp add: apply_result_of_def acc)
  then show ?thesis using app facts good other by (auto split: option.splits)
qed

subsection \<open>Stable expansions\<close>

text \<open>No pattern stands before a rule whose name it matches.\<close>

definition unshadowed :: "protected_environment_rule_config list \<Rightarrow> bool" where
  "unshadowed rules \<longleftrightarrow>
     sorted_wrt (\<lambda>w r. is_wild (pe_Name w) \<and> \<not> is_wild (pe_Name r) \<longrightarrow> \<not> path_matches (pe_Name w) (pe_Name r)) rules"

lemma rule_for_named:
  "unshadowed rules \<Longrightarrow> rule \<in> set rules \<Longrightarrow> \<not> is_wild (pe_Name rule) \<Longrightarrow>
     rule_for cands rules (pe_Name rule) = rule_for cands' rules (pe_Name rule)"
proof (induction rules)
  case (Cons a rules)
  show ?case
  proof (cases "is_wild (pe_Name a)")
    case True
    then have "rule \<in> set rules" using Cons.prems by auto
    moreover have "\<not> path_matches (pe_Name a) (pe_Name rule)" using Cons.prems True calculation by (auto simp: unshadowed_def)
    ultimately show ?thesis using Cons True by (auto simp: rule_for_Cons governs_environment_def unshadowed_def)
  next
    case False
    show ?thesis
    proof (cases "pe_Name a = pe_Name rule")
      case True
      then show ?thesis using False by (simp add: rule_for_Cons governs_environment_def)
    next
      case other: False
      then show ?thesis using Cons False by (auto simp: rule_for_Cons governs_environment_def unshadowed_def)
    qed
  qed
qed simp

lemma rule_for_cong: "(n \<in> set cands \<longleftrightarrow> n \<in> set cands') \<Longrightarrow> rule_for cands rules n = rule_for cands' rules n"
proof -
  assume "n \<in> set cands \<longleftrightarrow> n \<in> set cands'"
  then have "governs_environment cands n = governs_environment cands' n" by (simp add: fun_eq_iff governs_environment_def)
  then show ?thesis by (simp add: rule_for_def)
qed

lemma rule_for_unknown:
  assumes "n \<notin> set cands" and "rule_for cands rules n = Some r"
  shows "\<exists>rule \<in> set rules. pe_Name rule = n \<and> \<not> is_wild (pe_Name rule)"
  using assms by (auto simp: rule_for_def governs_environment_def dest!: find_SomeD split: if_splits)

text \<open>An apply does not change which rule an environment has.\<close>

lemma rule_for_after_apply:
  assumes shadow: "unshadowed rules" and ok: "environments_ok err st0 project cs" "environments_ok err st0 project cs'"
    and run: "\<And>n. case rule_for (known_environments (p_ID project) (snd cs)) rules n of
           Some r \<Rightarrow> environment_at project cs' n \<noteq> None
         | None \<Rightarrow> environment_at project cs' n =
             (if prune \<and> \<not> isManaged rules {} n then None else environment_at project cs n)"
  shows "rule_for (known_environments (p_ID project) (snd cs')) rules n = rule_for (known_environments (p_ID project) (snd cs)) rules n"
proof (cases "\<exists>rule \<in> set rules. pe_Name rule = n \<and> \<not> is_wild (pe_Name rule)")
  case True
  then show ?thesis using rule_for_named [OF shadow] by blast
next
  case False
  let ?old = "known_environments (p_ID project) (snd cs)" and ?new = "known_environments (p_ID project) (snd cs')"
  have keyed: "keyed gpe_Name (protected_of (p_ID project) (snd cs))" "keyed gpe_Name (protected_of (p_ID project) (snd cs'))"
    and same: "ms_environments (snd cs') = ms_environments (snd cs)" using ok by (simp_all add: environments_ok_def)
  note known = known_environments_iff [OF keyed(1), of n] known_environments_iff [OF keyed(2), of n, unfolded same]
  consider "n \<in> set ?old \<longleftrightarrow> n \<in> set ?new" | "n \<in> set ?new" "n \<notin> set ?old" | "n \<in> set ?old" "n \<notin> set ?new" by blast
  then show ?thesis
  proof cases
    case 1
    then show ?thesis using rule_for_cong by metis
  next
    case 2
    then have "rule_for ?old rules n = None" using rule_for_unknown False by (metis not_Some_eq)
    then have "environment_at project cs' n = None \<or> environment_at project cs' n = environment_at project cs n"
      using run [of n] by (simp split: if_splits)
    then show ?thesis using 2 known by (auto simp: environment_at_def)
  next
    case 3
    then have gone: "environment_at project cs' n = None" "environment_at project cs n \<noteq> None" using known by (auto simp: environment_at_def)
    have none: "rule_for ?old rules n = None" using run [of n] gone(1) by (cases "rule_for ?old rules n") simp_all
    then have "\<not> isManaged rules {} n" using run [of n] gone by (simp split: if_splits)
    then have "rule_for ?new rules n = None" using rule_for_managed by (metis not_Some_eq)
    then show ?thesis using none by simp
  qed
qed

subsection \<open>Properties\<close>

text \<open>Property C31. Under a policy with rules that can all be resolved, name their approval counts, and of which no pattern stands
  before a rule whose name it matches, an apply on the mock server succeeds, in whatever order the expansion
  visits the known names: every environment with a rule ends up protected as its first rule says, with
  pruning the environments no rule mentions lose their protection, all others are as before, and planning
  again, in any other order, finds nothing to change.\<close>

theorem ProtectedEnvironments_Apply_converges:
  assumes pol: "environments_policy cfg = Some c" and some: "pes_Rules c \<noteq> []" and ok: "environments_ok err st0 project cs"
    and spec: "visits_all ord" "visits_all ord'" "names_apart (pes_Rules c)" "unshadowed (pes_Rules c)"
    and rules: "\<forall>r. rule_for (known_environments (p_ID project) (snd cs)) (pes_Rules c) (pe_Name r) = Some r \<longrightarrow>
      (\<exists>opt. resolved_environment err st0 r = Inr opt \<and> counts_named opt)"
  shows "\<exists>res cs' pl cs2. ProtectedEnvironments_Apply ord (mock_client err) project cfg cs = Some ((res, None), cs')
    \<and> (\<forall>n. case rule_for (known_environments (p_ID project) (snd cs)) (pes_Rules c) n of
           Some r \<Rightarrow> (\<exists>opt e. resolved_environment err st0 r = Inr opt
              \<and> go_get (protected_of (p_ID project) (snd cs')) n = Some e \<and> environment_conforms e opt)
         | None \<Rightarrow> go_get (protected_of (p_ID project) (snd cs')) n =
             (if prunes_environments c \<and> \<not> isManaged (pes_Rules c) {} n then None
              else go_get (protected_of (p_ID project) (snd cs)) n))
    \<and> ProtectedEnvironments_Plan ord' (mock_client err) project cfg cs' = Some (Inr pl, cs2) \<and> snd cs2 = snd cs' \<and> \<not> pr_HasChanges pl"
proof -
  let ?old = "known_environments (p_ID project) (snd cs)"
  have idle: "\<not> environments_idle c" using some by (simp add: environments_idle_def)
  have able: "\<not> environment_rule_fails err st0 r \<and> environment_counted err st0 r"
    if "rule_for ?old (pes_Rules c) (pe_Name r) = Some r" for r
    using rules that by (auto simp: environment_rule_fails_def environment_counted_def)
  obtain res cs' where app: "ProtectedEnvironments_Apply ord (mock_client err) project cfg cs = Some ((res, None), cs')"
    "environments_ok err st0 project cs'"
    "\<And>n. case rule_for ?old (pes_Rules c) n of
           Some r \<Rightarrow> environment_good err st0 (environment_at project cs' n) r
         | None \<Rightarrow> environment_at project cs' n =
             (if prunes_environments c \<and> \<not> isManaged (pes_Rules c) {} n then None else environment_at project cs n)"
    using apply_environments_mock [OF pol idle ok spec(1,3) able] by blast
  have good: "\<exists>opt e. resolved_environment err st0 r = Inr opt \<and> environment_at project cs' n = Some e \<and> environment_conforms e opt"
    if "rule_for ?old (pes_Rules c) n = Some r" for n r
    using app(3) [of n] that by (auto simp: environment_good_def split: sum.splits option.splits)
  have same: "rule_for (known_environments (p_ID project) (snd cs')) (pes_Rules c) n = rule_for ?old (pes_Rules c) n" for n
  proof (rule rule_for_after_apply [OF spec(4) ok app(2)])
    fix n
    show "case rule_for ?old (pes_Rules c) n of Some r \<Rightarrow> environment_at project cs' n \<noteq> None
         | None \<Rightarrow> environment_at project cs' n =
             (if prunes_environments c \<and> \<not> isManaged (pes_Rules c) {} n then None else environment_at project cs n)"
      using app(3) [of n] good [of n] by (cases "rule_for ?old (pes_Rules c) n") auto
  qed
  have settled: "(\<forall>r. rule_for (known_environments (p_ID project) (snd cs')) (pes_Rules c) (pe_Name r) = Some r \<longrightarrow>
            \<not> environment_rule_fails err st0 r \<and> environment_good err st0 (environment_at project cs' (pe_Name r)) r)
         \<and> (prunes_environments c \<longrightarrow> (\<forall>n. environment_at project cs' n \<noteq> None \<longrightarrow> isManaged (pes_Rules c) {} n))"
    (is "?rules \<and> ?pruned")
  proof
    show ?rules
    proof (intro allI impI)
      fix r assume "rule_for (known_environments (p_ID project) (snd cs')) (pes_Rules c) (pe_Name r) = Some r"
      then have r: "rule_for ?old (pes_Rules c) (pe_Name r) = Some r" by (simp only: same)
      from app(3) [of "pe_Name r"] r able [OF r]
      show "\<not> environment_rule_fails err st0 r \<and> environment_good err st0 (environment_at project cs' (pe_Name r)) r" by simp
    qed
    show ?pruned
    proof (intro impI allI)
      fix n assume "prunes_environments c" "environment_at project cs' n \<noteq> None"
      then show "isManaged (pes_Rules c) {} n"
        using app(3) [of n] rule_for_managed [of ?old "pes_Rules c" n] by (cases "rule_for ?old (pes_Rules c) n") (auto split: if_splits)
    qed
  qed
  obtain pl cs2 where plan: "ProtectedEnvironments_Plan ord' (mock_client err) project cfg cs' = Some (Inr pl, cs2)" "snd cs2 = snd cs'"
    "\<not> pr_HasChanges pl"
    using plan_environments_mock [OF pol idle app(2) spec(2,3)] settled by blast
  have "case rule_for ?old (pes_Rules c) n of
           Some r \<Rightarrow> (\<exists>opt e. resolved_environment err st0 r = Inr opt
              \<and> go_get (protected_of (p_ID project) (snd cs')) n = Some e \<and> environment_conforms e opt)
         | None \<Rightarrow> go_get (protected_of (p_ID project) (snd cs')) n =
             (if prunes_environments c \<and> \<not> isManaged (pes_Rules c) {} n then None
              else go_get (protected_of (p_ID project) (snd cs)) n)" for n
    using app(3) [of n] good [of n] by (cases "rule_for ?old (pes_Rules c) n") (simp_all add: environment_at_def)
  with app(1) plan show ?thesis by blast
qed

definition example_environment_rule :: protected_environment_rule_config where
  "example_environment_rule =
     \<lparr>pe_Name = ''prod-*'',
      pe_DeployAccessLevels = [\<lparr>ead_AccessLevel = 40, ead_UserID = 0, ead_GroupID = 0, ead_Username = [], ead_GroupPath = []\<rparr>],
      pe_RequiredApprovalCount = Some 2, pe_ApprovalRules = [], pe_ApprovalGroups = [], pe_ApprovalUsers = []\<rparr>"

definition example_environments :: protected_environments_config where
  "example_environments = \<lparr>pes_Prune = Some True, pes_Rules = [example_environment_rule]\<rparr>"

definition environments_policy_of :: "protected_environments_config \<Rightarrow> policy_config option" where
  "environments_policy_of c = Some (zero_policy_config\<lparr>cfg_Policies := zero_policies\<lparr>pol_ProtectedEnvironments := Some c\<rparr>\<rparr>)"

lemma environments_policy_of [simp]: "environments_policy (environments_policy_of c) = Some c"
  by (simp add: environments_policy_def environments_policy_of_def)

text \<open>An instance with one environment, not yet protected.\<close>

definition deployed_state :: mock_state where
  "deployed_state = staffed_state\<lparr>ms_environments := [(7, [(1, \<lparr>gen_ID = 1, gen_Name = ''prod-eu''\<rparr>)])]\<rparr>"

lemma environments_ok_deployed:
  "environments_ok (\<lambda>_ m. Err m) deployed_state example_project (NewCachingResolver, deployed_state)"
proof -
  have "protected_of (p_ID example_project) deployed_state = []" by code_simp
  then show ?thesis
    using governs_staffed by (simp add: environments_ok_def deployed_state_def cache_sound_New keyed_def go_map_ok_def)
qed

lemma example_rule_resolved:
  "\<exists>opt. resolved_environment err st0 (example_environment_rule\<lparr>pe_Name := n, pe_RequiredApprovalCount := k\<rparr>) = Inr opt \<and> counts_named opt"
  by (simp add: resolved_environment_def environment_protect_options_def deploy_access_entry_def user_number_def group_number_def
      rbind_def rreturn_def example_environment_rule_def counts_named_def set_when_def)

lemma visits_all_examples: "visits_all (\<lambda>_ xs. xs)" "visits_all (\<lambda>_. rev)"
  by (simp_all add: visits_all_def)

lemma ProtectedEnvironments_Apply_converges_witness:
  "\<exists>res cs' pl cs2. ProtectedEnvironments_Apply (\<lambda>_ xs. xs) (mock_client (\<lambda>_ m. Err m)) example_project
        (environments_policy_of example_environments) (NewCachingResolver, deployed_state) = Some ((res, None), cs')
    \<and> (\<forall>n. case rule_for (known_environments (p_ID example_project) (snd (NewCachingResolver, deployed_state))) (pes_Rules example_environments) n of
           Some r \<Rightarrow> (\<exists>opt e. resolved_environment (\<lambda>_ m. Err m) deployed_state r = Inr opt
              \<and> go_get (protected_of (p_ID example_project) (snd cs')) n = Some e \<and> environment_conforms e opt)
         | None \<Rightarrow> go_get (protected_of (p_ID example_project) (snd cs')) n =
             (if prunes_environments example_environments \<and> \<not> isManaged (pes_Rules example_environments) {} n then None
              else go_get (protected_of (p_ID example_project) (snd (NewCachingResolver, deployed_state))) n))
    \<and> ProtectedEnvironments_Plan (\<lambda>_. rev) (mock_client (\<lambda>_ m. Err m)) example_project
        (environments_policy_of example_environments) cs' = Some (Inr pl, cs2) \<and> snd cs2 = snd cs' \<and> \<not> pr_HasChanges pl"
proof (rule ProtectedEnvironments_Apply_converges [OF environments_policy_of _ environments_ok_deployed visits_all_examples])
  show "pes_Rules example_environments \<noteq> []" "unshadowed (pes_Rules example_environments)"
    by (simp_all add: example_environments_def unshadowed_def)
  have "is_wild ''prod-*''" by code_simp
  then show "names_apart (pes_Rules example_environments)"
    by (simp add: names_apart_def example_environments_def example_environment_rule_def)
  have "r = example_environment_rule\<lparr>pe_Name := pe_Name r, pe_RequiredApprovalCount := Some 2\<rparr>"
    if "rule_for cands (pes_Rules example_environments) n = Some r" for cands n r
    using that by (auto simp: rule_for_def example_environments_def example_environment_rule_def split: if_splits)
  then show "\<forall>r. rule_for (known_environments (p_ID example_project) (snd (NewCachingResolver, deployed_state))) (pes_Rules example_environments)
        (pe_Name r) = Some r \<longrightarrow>
      (\<exists>opt. resolved_environment (\<lambda>_ m. Err m) deployed_state r = Inr opt \<and> counts_named opt)"
    using example_rule_resolved by metis
qed

text \<open>Property C32. A rule for an environment the server does not know yet, declared after a pattern that matches its name, is
  undone by the next run: the first apply protects the environment as the rule says, and succeeds; by then the
  name is known, so the second apply protects it as the pattern says, and succeeds too.\<close>

theorem ProtectedEnvironments_shadowed_rule_undone:
  assumes pol: "environments_policy cfg = Some c" and two: "pes_Rules c = [w, r]" and ok: "environments_ok err st0 project cs"
    and ord: "visits_all ord" and wild: "is_wild (pe_Name w)" "\<not> is_wild (pe_Name r)" "path_matches (pe_Name w) (pe_Name r)"
    and new: "pe_Name r \<noteq> []" "pe_Name r \<notin> set (known_environments (p_ID project) (snd cs))"
    and able: "\<And>n. \<exists>opt. resolved_environment err st0 (w\<lparr>pe_Name := n\<rparr>) = Inr opt \<and> counts_named opt"
      "\<exists>opt. resolved_environment err st0 r = Inr opt \<and> counts_named opt"
    and counts: "pe_RequiredApprovalCount w = Some a" "pe_RequiredApprovalCount r = Some b"
  shows "\<exists>res1 cs1 e1 res2 cs2 e2. ProtectedEnvironments_Apply ord (mock_client err) project cfg cs = Some ((res1, None), cs1)
    \<and> go_get (protected_of (p_ID project) (snd cs1)) (pe_Name r) = Some e1 \<and> gpe_RequiredApprovalCount e1 = b
    \<and> ProtectedEnvironments_Apply ord (mock_client err) project cfg cs1 = Some ((res2, None), cs2)
    \<and> go_get (protected_of (p_ID project) (snd cs2)) (pe_Name r) = Some e2 \<and> gpe_RequiredApprovalCount e2 = a"
proof -
  have idle: "\<not> environments_idle c" by (simp add: environments_idle_def two)
  have apart: "names_apart (pes_Rules c)" using wild(1) by (simp add: names_apart_def two)
  have self: "r\<lparr>pe_Name := pe_Name r\<rparr> = r" by simp
  have able': "\<not> environment_rule_fails err st0 q \<and> environment_counted err st0 q"
    if q: "rule_for cands (pes_Rules c) (pe_Name q) = Some q" for cands q
  proof -
    have "q = w\<lparr>pe_Name := pe_Name q\<rparr> \<or> q = r"
    proof (cases "governs_environment cands (pe_Name q) w")
      case False
      then have "governs_environment cands (pe_Name q) r \<and> r\<lparr>pe_Name := pe_Name q\<rparr> = q"
        using q by (simp add: two rule_for_Cons split: if_splits) (simp add: rule_for_def)
      then show ?thesis using wild(2) self by (simp add: governs_environment_def)
    qed (use q in \<open>simp add: two rule_for_Cons\<close>)
    then obtain opt where "resolved_environment err st0 q = Inr opt" "counts_named opt" using able(1) [of "pe_Name q"] able(2) by metis
    then show ?thesis by (simp add: environment_rule_fails_def environment_counted_def)
  qed
  have run: "\<exists>res cs' e. ProtectedEnvironments_Apply ord (mock_client err) project cfg cs0 = Some ((res, None), cs')
      \<and> environments_ok err st0 project cs' \<and> go_get (protected_of (p_ID project) (snd cs')) (pe_Name r) = Some e
      \<and> gpe_RequiredApprovalCount e = n"
    if ok: "environments_ok err st0 project cs0"
      and q: "rule_for (known_environments (p_ID project) (snd cs0)) (pes_Rules c) (pe_Name r) = Some q" "pe_RequiredApprovalCount q = Some n"
    for cs0 q n
  proof -
    obtain res cs' where app: "ProtectedEnvironments_Apply ord (mock_client err) project cfg cs0 = Some ((res, None), cs')"
      "environments_ok err st0 project cs'"
      "\<And>n. case rule_for (known_environments (p_ID project) (snd cs0)) (pes_Rules c) n of
           Some r \<Rightarrow> environment_good err st0 (environment_at project cs' n) r
         | None \<Rightarrow> environment_at project cs' n =
             (if prunes_environments c \<and> \<not> isManaged (pes_Rules c) {} n then None else environment_at project cs0 n)"
      using apply_environments_mock [OF pol idle ok ord apart able' [of "known_environments (p_ID project) (snd cs0)"]] by blast
    have "environment_good err st0 (environment_at project cs' (pe_Name r)) q" using app(3) [of "pe_Name r"] q(1) by simp
    then obtain opt e where "resolved_environment err st0 q = Inr opt" "environment_at project cs' (pe_Name r) = Some e" "environment_conforms e opt"
      by (auto simp: environment_good_def split: sum.splits option.splits)
    moreover from this have "gpe_RequiredApprovalCount e = n"
      using resolved_environment_fields q(2) by (simp add: environment_conforms_def)
    ultimately show ?thesis using app(1,2) by (auto simp: environment_at_def)
  qed
  have "rule_for (known_environments (p_ID project) (snd cs)) (pes_Rules c) (pe_Name r) = Some r"
    using wild new(2) self by (simp add: two rule_for_Cons governs_environment_def)
  from run [OF ok this counts(2)] obtain res1 cs1 e1 where
    first: "ProtectedEnvironments_Apply ord (mock_client err) project cfg cs = Some ((res1, None), cs1)" "environments_ok err st0 project cs1"
      "go_get (protected_of (p_ID project) (snd cs1)) (pe_Name r) = Some e1" "gpe_RequiredApprovalCount e1 = b" by blast
  have "pe_Name r \<in> set (known_environments (p_ID project) (snd cs1))"
    using known_environments_iff [of "p_ID project" "snd cs1" "pe_Name r"] first(2,3) new(1) by (simp add: environments_ok_def)
  then have "rule_for (known_environments (p_ID project) (snd cs1)) (pes_Rules c) (pe_Name r) = Some (w\<lparr>pe_Name := pe_Name r\<rparr>)"
    using wild by (simp add: two rule_for_Cons governs_environment_def)
  from run [OF first(2) this] counts(1) obtain res2 cs2 e2 where
    "ProtectedEnvironments_Apply ord (mock_client err) project cfg cs1 = Some ((res2, None), cs2)"
    "go_get (protected_of (p_ID project) (snd cs2)) (pe_Name r) = Some e2" "gpe_RequiredApprovalCount e2 = a" by auto
  with first show ?thesis by blast
qed

definition shadowing_environments :: protected_environments_config where
  "shadowing_environments =
     \<lparr>pes_Prune = None,
      pes_Rules = [example_environment_rule, example_environment_rule\<lparr>pe_Name := ''prod-us'', pe_RequiredApprovalCount := Some 1\<rparr>]\<rparr>"

lemma ProtectedEnvironments_shadowed_rule_undone_witness:
  "\<exists>res1 cs1 e1 res2 cs2 e2. ProtectedEnvironments_Apply (\<lambda>_ xs. xs) (mock_client (\<lambda>_ m. Err m)) example_project
        (environments_policy_of shadowing_environments) (NewCachingResolver, deployed_state) = Some ((res1, None), cs1)
    \<and> go_get (protected_of (p_ID example_project) (snd cs1)) ''prod-us'' = Some e1 \<and> gpe_RequiredApprovalCount e1 = 1
    \<and> ProtectedEnvironments_Apply (\<lambda>_ xs. xs) (mock_client (\<lambda>_ m. Err m)) example_project
        (environments_policy_of shadowing_environments) cs1 = Some ((res2, None), cs2)
    \<and> go_get (protected_of (p_ID example_project) (snd cs2)) ''prod-us'' = Some e2 \<and> gpe_RequiredApprovalCount e2 = 2"
proof -
  let ?r = "example_environment_rule\<lparr>pe_Name := ''prod-us'', pe_RequiredApprovalCount := Some 1\<rparr>"
  have count: "example_environment_rule\<lparr>pe_Name := n\<rparr> = example_environment_rule\<lparr>pe_Name := n, pe_RequiredApprovalCount := Some 2\<rparr>" for n
    by (simp add: example_environment_rule_def)
  have facts: "is_wild (pe_Name example_environment_rule)" "\<not> is_wild (pe_Name ?r)"
    "path_matches (pe_Name example_environment_rule) (pe_Name ?r)" "pe_Name ?r \<noteq> []"
    "pe_Name ?r \<notin> set (known_environments (p_ID example_project) (snd (NewCachingResolver, deployed_state)))"
    by code_simp+
  have "pes_Rules shadowing_environments = [example_environment_rule, ?r]" by (simp add: shadowing_environments_def)
  from ProtectedEnvironments_shadowed_rule_undone [OF environments_policy_of this environments_ok_deployed visits_all_examples(1) facts
      example_rule_resolved [where k = "Some 2", folded count] example_rule_resolved, of 2 1]
  show ?thesis by (simp add: example_environment_rule_def)
qed

end
