(* ===== verification/Approval_Rules.thy ===== *)
theory Approval_Rules
  imports Resolver
begin

section \<open>Approval rules\<close>

text \<open>
  \<^verbatim>\<open>internal/governance/approvalrules.go\<close> (order 30): the approval settings of a project and its named
  approval rules, matched by name up to case and surrounding space, with approvers resolved to numbers.
  The methods run over the resolver's cache and the remote instance.
\<close>

definition approval_rules_name :: string where
  "approval_rules_name = ''approval_rules''"

definition approvals_policy :: "policy_config option \<Rightarrow> approval_rules_config option" where
  "approvals_policy cfg = (case cfg of None \<Rightarrow> None | Some c \<Rightarrow> pol_ApprovalRules (cfg_Policies c))"

subsection \<open>Approval settings\<close>

definition no_settings :: approval_settings_config where
  "no_settings =
     \<lparr>aps_ApprovalsBeforeMerge = None, aps_ResetApprovalsOnPush = None, aps_AllowAuthorApproval = None, aps_AllowCommitterApproval = None,
      aps_AllowOverridesToApproverListPerMergeRequest = None, aps_RetainApprovalsOnPush = None, aps_SelectiveCodeOwnerRemovals = None,
      aps_RequirePasswordToApprove = None\<rparr>"

definition effectiveApprovalSettings :: "approval_rules_config \<Rightarrow> approval_settings_config option" where
  "effectiveApprovalSettings c =
     (if ars_Settings c = None \<and> ars_ApprovalsBeforeMerge c = None \<and> ars_ResetApprovalsOnPush c = None then None
      else
        (let res = (case ars_Settings c of None \<Rightarrow> no_settings | Some s \<Rightarrow> s);
             res = (if ars_ApprovalsBeforeMerge c \<noteq> None then res\<lparr>aps_ApprovalsBeforeMerge := ars_ApprovalsBeforeMerge c\<rparr> else res);
             res = (if ars_ResetApprovalsOnPush c \<noteq> None then res\<lparr>aps_ResetApprovalsOnPush := ars_ResetApprovalsOnPush c\<rparr> else res)
         in Some res))"

text \<open>One comparison, of the value the server shows with the declared one.\<close>

definition compare_setting :: "string \<Rightarrow> ('a \<Rightarrow> go_any) \<Rightarrow> 'a \<Rightarrow> 'a option \<Rightarrow> diff_builder \<Rightarrow> diff_builder" where
  "compare_setting field val live desired b =
     (case desired of
        Some d \<Rightarrow> if live \<noteq> d then AddField field (val live) (val d) ActionUpdate b else b
      | None \<Rightarrow> b)"

definition diffApprovalSettings :: "approval_settings_config \<Rightarrow> gl_approvals \<Rightarrow> diff" where
  "diffApprovalSettings desired live =
     (let b = compare_setting ''approvals_before_merge'' VInt (gap_ApprovalsBeforeMerge live) (aps_ApprovalsBeforeMerge desired) NewDiffBuilder;
          b = compare_setting ''reset_approvals_on_push'' VBool (gap_ResetApprovalsOnPush live) (aps_ResetApprovalsOnPush desired) b;
          b = compare_setting ''allow_author_approval'' VBool (gap_MergeRequestsAuthorApproval live) (aps_AllowAuthorApproval desired) b;
          b = compare_setting ''allow_committer_approval'' VBool (\<not> gap_MergeRequestsDisableCommittersApproval live)
                (aps_AllowCommitterApproval desired) b;
          b = compare_setting ''allow_overrides_to_approver_list_per_merge_request'' VBool
                (\<not> gap_DisableOverridingApproversPerMergeRequest live) (aps_AllowOverridesToApproverListPerMergeRequest desired) b;
          b = compare_setting ''retain_approvals_on_push'' VBool (\<not> gap_ResetApprovalsOnPush live) (aps_RetainApprovalsOnPush desired) b;
          b = compare_setting ''selective_code_owner_removals'' VBool (gap_SelectiveCodeOwnerRemovals live) (aps_SelectiveCodeOwnerRemovals desired) b;
          b = compare_setting ''require_password_to_approve'' VBool (gap_RequirePasswordToApprove live) (aps_RequirePasswordToApprove desired) b
      in Build ''project_approval_settings'' ActionUpdate b)"

text \<open>What \<^verbatim>\<open>Apply\<close> sends: retaining overrides resetting, since it is set later.\<close>

definition change_options :: "approval_settings_config \<Rightarrow> change_approvals_options" where
  "change_options s =
     \<lparr>cao_ApprovalsBeforeMerge = aps_ApprovalsBeforeMerge s,
      cao_ResetApprovalsOnPush =
        (case aps_RetainApprovalsOnPush s of Some retain \<Rightarrow> Some (\<not> retain) | None \<Rightarrow> aps_ResetApprovalsOnPush s),
      cao_MergeRequestsAuthorApproval = aps_AllowAuthorApproval s,
      cao_MergeRequestsDisableCommittersApproval = map_option Not (aps_AllowCommitterApproval s),
      cao_DisableOverridingApproversPerMergeRequest = map_option Not (aps_AllowOverridesToApproverListPerMergeRequest s),
      cao_SelectiveCodeOwnerRemovals = aps_SelectiveCodeOwnerRemovals s,
      cao_RequirePasswordToApprove = aps_RequirePasswordToApprove s\<rparr>"

definition hasSettingChange :: "approval_settings_config \<Rightarrow> bool" where
  "hasSettingChange s \<longleftrightarrow>
     aps_ApprovalsBeforeMerge s \<noteq> None \<or> aps_ResetApprovalsOnPush s \<noteq> None \<or> aps_AllowAuthorApproval s \<noteq> None
   \<or> aps_AllowCommitterApproval s \<noteq> None \<or> aps_AllowOverridesToApproverListPerMergeRequest s \<noteq> None
   \<or> aps_RetainApprovalsOnPush s \<noteq> None \<or> aps_SelectiveCodeOwnerRemovals s \<noteq> None \<or> aps_RequirePasswordToApprove s \<noteq> None"

subsection \<open>Approvers\<close>

definition resolveUserIDs :: "'s gitlab_client \<Rightarrow> approval_rule_config \<Rightarrow> (int list, 's) resolving" where
  "resolveUserIDs client rule =
     rbind (resolve_each (ResolveUsername client) (filter (\<lambda>u. u \<noteq> []) (arl_UserUsernames rule)))
       (\<lambda>ids. rreturn (sort (remdups (filter (\<lambda>i. 0 < i) (arl_UserIDs rule) @ ids))))"

definition resolveGroupIDs :: "'s gitlab_client \<Rightarrow> approval_rule_config \<Rightarrow> (int list, 's) resolving" where
  "resolveGroupIDs client rule =
     rbind (resolve_each (ResolveGroupPath client) (filter (\<lambda>g. g \<noteq> []) (arl_GroupPaths rule)))
       (\<lambda>ids. rreturn (sort (remdups (filter (\<lambda>i. 0 < i) (arl_GroupIDs rule) @ ids))))"

subsection \<open>Diffs\<close>

text \<open>A slice of integers prints like the slice of their decimals.\<close>

definition VInts :: "int list \<Rightarrow> go_any" where
  "VInts ids = VStrs (map fmt_d ids)"

definition approval_name_key :: "string \<Rightarrow> string" where
  "approval_name_key n = ToLower (TrimSpace n)"

definition live_user_ids :: "gl_approval_rule \<Rightarrow> int list" where
  "live_user_ids live = sort (map gu_ID (present (gal_Users live)))"

definition live_group_ids :: "gl_approval_rule \<Rightarrow> int list" where
  "live_group_ids live = sort (map g_ID (present (gal_Groups live)))"

definition diffSingleRule :: "approval_rule_config \<Rightarrow> gl_approval_rule \<Rightarrow> int list \<Rightarrow> int list \<Rightarrow> diff" where
  "diffSingleRule desired live userIDs groupIDs =
     (let b = (if gal_ApprovalsRequired live \<noteq> arl_ApprovalsRequired desired
               then AddField ''approvals_required'' (VInt (gal_ApprovalsRequired live)) (VInt (arl_ApprovalsRequired desired)) ActionUpdate NewDiffBuilder
               else NewDiffBuilder);
          b = (if live_user_ids live \<noteq> userIDs
               then AddField ''user_ids'' (VInts (live_user_ids live)) (VInts userIDs) ActionUpdate b else b);
          b = (if live_group_ids live \<noteq> groupIDs
               then AddField ''group_ids'' (VInts (live_group_ids live)) (VInts groupIDs) ActionUpdate b else b)
      in Build (''approval_rule:'' @ arl_Name desired) ActionUpdate b)"

definition create_rule_diff :: "approval_rule_config \<Rightarrow> int list \<Rightarrow> int list \<Rightarrow> diff" where
  "create_rule_diff rule userIDs groupIDs =
     (let b = AddField ''name'' VNil (VStr (arl_Name rule)) ActionCreate NewDiffBuilder;
          b = AddField ''approvals_required'' VNil (VInt (arl_ApprovalsRequired rule)) ActionCreate b;
          b = (if userIDs \<noteq> [] then AddField ''user_ids'' VNil (VInts userIDs) ActionCreate b else b);
          b = (if groupIDs \<noteq> [] then AddField ''group_ids'' VNil (VInts groupIDs) ActionCreate b else b);
          b = SetDetails (''Create approval rule '' @ squote (arl_Name rule) @ '' requiring '' @ fmt_d (arl_ApprovalsRequired rule) @ '' approvals'') b
      in Build (''approval_rule:'' @ arl_Name rule) ActionCreate b)"

definition prune_rule_diff :: "gl_approval_rule \<Rightarrow> diff" where
  "prune_rule_diff lr =
     (let b = AddField ''name'' (VStr (gal_Name lr)) VNil ActionDelete NewDiffBuilder;
          b = AddField ''id'' (VInt (gal_ID lr)) VNil ActionDelete b;
          b = SetDetails (''Prune unmanaged approval rule '' @ squote (gal_Name lr) @ '' (ID: '' @ fmt_d (gal_ID lr) @ '')'') b
      in Build (''approval_rule:'' @ gal_Name lr) ActionDelete b)"

subsection \<open>Plan\<close>

definition liveRulesMap :: "gl_approval_rule option list \<Rightarrow> (string, gl_approval_rule) go_map" where
  "liveRulesMap liveRules = go_map_of_list (\<lambda>r. approval_name_key (gal_Name r)) id (present liveRules)"

text \<open>The loop over the declared rules, with the diffs and the matched live rules so far.\<close>

fun plan_approval_rules ::
  "'s gitlab_client \<Rightarrow> (string, gl_approval_rule) go_map \<Rightarrow> approval_rule_config list \<Rightarrow> diff list \<times> int list
   \<Rightarrow> (diff list \<times> int list, 's) resolving" where
  "plan_approval_rules client liveMap [] acc = rreturn acc"
| "plan_approval_rules client liveMap (rule # rules) acc =
     rbind (rwrap (''rule '' @ squote (arl_Name rule) @ '' user resolution failed'') (resolveUserIDs client rule)) (\<lambda>userIDs.
     rbind (rwrap (''rule '' @ squote (arl_Name rule) @ '' group resolution failed'') (resolveGroupIDs client rule)) (\<lambda>groupIDs.
       case go_get liveMap (approval_name_key (arl_Name rule)) of
         None \<Rightarrow> plan_approval_rules client liveMap rules (fst acc @ [create_rule_diff rule userIDs groupIDs], snd acc)
       | Some live \<Rightarrow>
           (let d = diffSingleRule rule live userIDs groupIDs in
            plan_approval_rules client liveMap rules (if Diff_HasChanges d then fst acc @ [d] else fst acc, snd acc @ [gal_ID live]))))"

definition prunes_approvals :: "approval_rules_config \<Rightarrow> bool" where
  "prunes_approvals c \<longleftrightarrow> ars_Prune c = Some True"

definition unmanaged_rules :: "approval_rules_config \<Rightarrow> int list \<Rightarrow> gl_approval_rule option list \<Rightarrow> gl_approval_rule list" where
  "unmanaged_rules c ids liveRules =
     (if prunes_approvals c
      then filter (\<lambda>lr. gal_ID lr \<notin> set ids \<and> (gal_RuleType lr = [] \<or> gal_RuleType lr = ''regular'')) (present liveRules) else [])"

definition zero_gl_approvals :: gl_approvals where
  "zero_gl_approvals =
     \<lparr>gap_ApprovalsBeforeMerge = 0, gap_ResetApprovalsOnPush = False, gap_MergeRequestsAuthorApproval = False,
      gap_MergeRequestsDisableCommittersApproval = False, gap_DisableOverridingApproversPerMergeRequest = False,
      gap_SelectiveCodeOwnerRemovals = False, gap_RequirePasswordToApprove = False\<rparr>"

definition plan_settings :: "'s gitlab_client \<Rightarrow> int \<Rightarrow> approval_rules_config \<Rightarrow> (diff list, 's) resolving" where
  "plan_settings client pid c =
     (case effectiveApprovalSettings c of
        None \<Rightarrow> rreturn []
      | Some s \<Rightarrow>
          rbind (rwrap (''failed to get project approval configuration for project '' @ fmt_d pid)
                   (with_cache (GetApprovalConfiguration (cl_ApprovalRules client) pid)))
            (\<lambda>live. let d = diffApprovalSettings s (case live of None \<Rightarrow> zero_gl_approvals | Some a \<Rightarrow> a) in
              rreturn (if Diff_HasChanges d then [d] else [])))"

definition approval_diffs :: "'s gitlab_client \<Rightarrow> int \<Rightarrow> approval_rules_config \<Rightarrow> (diff list, 's) resolving" where
  "approval_diffs client pid c =
     rbind (plan_settings client pid c) (\<lambda>settings.
     rbind (rwrap (''failed to list project approval rules for project '' @ fmt_d pid)
              (with_cache (GetProjectApprovalRules (cl_ApprovalRules client) pid))) (\<lambda>liveRules.
     rbind (plan_approval_rules client (liveRulesMap liveRules) (ars_Rules c) (settings, [])) (\<lambda>(ds, ids).
     rreturn (ds @ map prune_rule_diff (unmanaged_rules c ids liveRules)))))"

definition ApprovalRules_Plan ::
  "'s gitlab_client \<Rightarrow> gl_project \<Rightarrow> policy_config option \<Rightarrow> (resolver_cache \<times> 's) plan_fun" where
  "ApprovalRules_Plan client project cfg cs =
     (let r = project_resource project in
      case approvals_policy cfg of
        None \<Rightarrow> (Inr (noop_plan approval_rules_name r), cs)
      | Some c \<Rightarrow>
          rbind (approval_diffs client (p_ID project) c)
            (\<lambda>ds. rreturn (plan_of_diffs approval_rules_name r ActionUpdate ds)) cs)"

subsection \<open>Apply\<close>

text \<open>Resolution errors are ignored here: the approvers are then a nil slice.\<close>

definition or_nil :: "'a go_result \<Rightarrow> 'a option" where
  "or_nil x = (case x of Inl e \<Rightarrow> None | Inr y \<Rightarrow> Some y)"

definition rule_options :: "approval_rule_config \<Rightarrow> int list option \<Rightarrow> int list option \<Rightarrow> approval_rule_options" where
  "rule_options rule userIDs groupIDs =
     \<lparr>aro_Name = arl_Name rule, aro_ApprovalsRequired = arl_ApprovalsRequired rule, aro_UserIDs = userIDs, aro_GroupIDs = groupIDs,
      aro_ProtectedBranchIDs = (if arl_ProtectedBranchIDs rule \<noteq> [] then Some (arl_ProtectedBranchIDs rule) else None),
      aro_RuleType = None\<rparr>"

text \<open>The loops of \<^verbatim>\<open>Apply\<close>: an error comes with the action it is reported under.\<close>

fun set_approval_rules ::
  "'s gitlab_client \<Rightarrow> int \<Rightarrow> (string, gl_approval_rule) go_map \<Rightarrow> approval_rule_config list \<Rightarrow> int list
   \<Rightarrow> resolver_cache \<times> 's \<Rightarrow> ((action_type \<times> go_error) + int list) \<times> (resolver_cache \<times> 's)" where
  "set_approval_rules client pid liveMap [] ids cs = (Inr ids, cs)"
| "set_approval_rules client pid liveMap (rule # rules) ids cs =
     (let svc = cl_ApprovalRules client;
          (us, cs1) = resolveUserIDs client rule cs;
          (gs, cs2) = resolveGroupIDs client rule cs1;
          opts = rule_options rule (or_nil us) (or_nil gs)
      in case go_get liveMap (approval_name_key (arl_Name rule)) of
           None \<Rightarrow>
             (case with_cache (CreateProjectApprovalRule svc pid (opts\<lparr>aro_RuleType := str_ptr (arl_RuleType rule)\<rparr>)) cs2 of
                (Some e, cs3) \<Rightarrow> (Inl (ActionCreate, Wrapf (''failed to create approval rule '' @ squote (arl_Name rule)) e), cs3)
              | (None, cs3) \<Rightarrow> set_approval_rules client pid liveMap rules ids cs3)
         | Some live \<Rightarrow>
             (case with_cache (UpdateProjectApprovalRule svc pid (gal_ID live) opts) cs2 of
                (Some e, cs3) \<Rightarrow>
                  (Inl (ActionUpdate, Wrapf (''failed to update approval rule '' @ squote (arl_Name rule) @ '' (ID '' @ fmt_d (gal_ID live) @ '')'') e), cs3)
              | (None, cs3) \<Rightarrow> set_approval_rules client pid liveMap rules (ids @ [gal_ID live]) cs3))"

fun delete_approval_rules ::
  "'s gitlab_client \<Rightarrow> int \<Rightarrow> gl_approval_rule list \<Rightarrow> resolver_cache \<times> 's \<Rightarrow> (action_type \<times> go_error) option \<times> (resolver_cache \<times> 's)" where
  "delete_approval_rules client pid [] cs = (None, cs)"
| "delete_approval_rules client pid (lr # lrs) cs =
     (case with_cache (DeleteProjectApprovalRule (cl_ApprovalRules client) pid (gal_ID lr)) cs of
        (Some e, cs') \<Rightarrow>
          (Some (ActionDelete, Wrapf (''failed to delete unmanaged approval rule '' @ squote (gal_Name lr) @ '' (ID '' @ fmt_d (gal_ID lr) @ '')'') e), cs')
      | (None, cs') \<Rightarrow> delete_approval_rules client pid lrs cs')"

definition change_settings :: "'s gitlab_client \<Rightarrow> int \<Rightarrow> approval_rules_config \<Rightarrow> resolver_cache \<times> 's \<Rightarrow> go_error option \<times> (resolver_cache \<times> 's)" where
  "change_settings client pid c cs =
     (case effectiveApprovalSettings c of
        None \<Rightarrow> (None, cs)
      | Some s \<Rightarrow>
          if hasSettingChange s
          then with_cache (ChangeApprovalConfiguration (cl_ApprovalRules client) pid (change_options s)) cs
          else (None, cs))"

definition change_approvals ::
  "'s gitlab_client \<Rightarrow> gl_project \<Rightarrow> approval_rules_config \<Rightarrow> plan_result \<Rightarrow> (resolver_cache \<times> 's) apply_fun" where
  "change_approvals client project c pl cs =
     (let r = project_resource project; pid = p_ID project;
          fail = (\<lambda>action err. failed_apply approval_rules_name r action (pr_Diffs pl) err err)
      in case change_settings client pid c cs of
           (Some e, cs1) \<Rightarrow> (fail ActionUpdate (Wrapf ''failed to change approval configuration'' e), cs1)
         | (None, cs1) \<Rightarrow>
             (case with_cache (GetProjectApprovalRules (cl_ApprovalRules client) pid) cs1 of
                (Inl e, cs2) \<Rightarrow> (fail ActionUpdate (Wrapf ''failed to list project approval rules'' e), cs2)
              | (Inr liveRules, cs2) \<Rightarrow>
                  (case set_approval_rules client pid (liveRulesMap liveRules) (ars_Rules c) [] cs2 of
                     (Inl (action, e), cs3) \<Rightarrow> (fail action e, cs3)
                   | (Inr ids, cs3) \<Rightarrow>
                       (case delete_approval_rules client pid (unmanaged_rules c ids liveRules) cs3 of
                          (Some (action, e), cs4) \<Rightarrow> (fail action e, cs4)
                        | (None, cs4) \<Rightarrow> (ok_apply approval_rules_name r ActionUpdate (pr_Diffs pl), cs4)))))"

definition ApprovalRules_Apply ::
  "'s gitlab_client \<Rightarrow> gl_project \<Rightarrow> policy_config option \<Rightarrow> (resolver_cache \<times> 's) apply_fun" where
  "ApprovalRules_Apply client project cfg cs =
     (let r = project_resource project in
      case approvals_policy cfg of
        None \<Rightarrow> (noop_apply approval_rules_name r, cs)
      | Some c \<Rightarrow> apply_after_plan approval_rules_name r (ApprovalRules_Plan client project cfg) (change_approvals client project c) cs)"

definition ApprovalRules_PlanGroup :: "gl_group \<Rightarrow> 's plan_fun" where
  "ApprovalRules_PlanGroup g s =
     (Inr (skipped_plan approval_rules_name (group_resource g) ''Approval rules are not applicable to groups''), s)"

definition ApprovalRules_ApplyGroup :: "gl_group \<Rightarrow> 's apply_fun" where
  "ApprovalRules_ApplyGroup g s =
     (skipped_apply approval_rules_name (group_resource g) ''Approval rules are not applicable to groups'', s)"

subsection \<open>The specification\<close>

definition wants :: "'a option \<Rightarrow> 'a \<Rightarrow> bool" where
  "wants desired live \<longleftrightarrow> desired = None \<or> desired = Some live"

definition settings_match :: "approval_settings_config \<Rightarrow> gl_approvals \<Rightarrow> bool" where
  "settings_match s a \<longleftrightarrow>
     wants (aps_ApprovalsBeforeMerge s) (gap_ApprovalsBeforeMerge a) \<and> wants (aps_ResetApprovalsOnPush s) (gap_ResetApprovalsOnPush a)
   \<and> wants (aps_AllowAuthorApproval s) (gap_MergeRequestsAuthorApproval a)
   \<and> wants (aps_AllowCommitterApproval s) (\<not> gap_MergeRequestsDisableCommittersApproval a)
   \<and> wants (aps_AllowOverridesToApproverListPerMergeRequest s) (\<not> gap_DisableOverridingApproversPerMergeRequest a)
   \<and> wants (aps_RetainApprovalsOnPush s) (\<not> gap_ResetApprovalsOnPush a)
   \<and> wants (aps_SelectiveCodeOwnerRemovals s) (gap_SelectiveCodeOwnerRemovals a)
   \<and> wants (aps_RequirePasswordToApprove s) (gap_RequirePasswordToApprove a)"

lemma compare_setting_changes [simp]:
  "Builder_HasChanges (compare_setting field val live desired b) \<longleftrightarrow> Builder_HasChanges b \<or> \<not> wants desired live"
  by (auto simp: compare_setting_def wants_def Builder_HasChanges_def split: option.splits)

lemma diffApprovalSettings_iff: "Diff_HasChanges (diffApprovalSettings s a) \<longleftrightarrow> \<not> settings_match s a"
proof -
  have "\<not> Builder_HasChanges NewDiffBuilder" by (simp add: Builder_HasChanges_def)
  then show ?thesis by (simp add: diffApprovalSettings_def Build_HasChanges settings_match_def Let_def) blast
qed

text \<open>Both of \<^verbatim>\<open>reset_approvals_on_push\<close> and \<^verbatim>\<open>retain_approvals_on_push\<close>, or neither of them.\<close>

definition contradictory :: "approval_settings_config \<Rightarrow> bool" where
  "contradictory s \<longleftrightarrow> (\<exists>b. aps_ResetApprovalsOnPush s = Some b \<and> aps_RetainApprovalsOnPush s = Some b)"

lemma contradictory_never_matches: "contradictory s \<Longrightarrow> \<not> settings_match s a"
  by (auto simp: contradictory_def settings_match_def wants_def)

definition rule_conforms :: "approval_rule_config \<Rightarrow> int list \<Rightarrow> int list \<Rightarrow> gl_approval_rule \<Rightarrow> bool" where
  "rule_conforms rule userIDs groupIDs live \<longleftrightarrow> gal_ApprovalsRequired live = arl_ApprovalsRequired rule
     \<and> live_user_ids live = userIDs \<and> live_group_ids live = groupIDs"

lemma diffSingleRule_iff: "Diff_HasChanges (diffSingleRule rule live us gs) \<longleftrightarrow> \<not> rule_conforms rule us gs live"
  by (auto simp: diffSingleRule_def Build_HasChanges Builder_HasChanges_def rule_conforms_def Let_def)

subsection \<open>On the mock server\<close>

definition resolved_users :: "sdk_error \<Rightarrow> mock_state \<Rightarrow> approval_rule_config \<Rightarrow> int list go_result" where
  "resolved_users err st0 rule = fst (resolveUserIDs (mock_client err) rule (NewCachingResolver, st0))"

definition resolved_groups :: "sdk_error \<Rightarrow> mock_state \<Rightarrow> approval_rule_config \<Rightarrow> int list go_result" where
  "resolved_groups err st0 rule = fst (resolveGroupIDs (mock_client err) rule (NewCachingResolver, st0))"

definition approvers_ok :: "sdk_error \<Rightarrow> mock_state \<Rightarrow> resolver_cache \<times> mock_state \<Rightarrow> bool" where
  "approvers_ok err st0 cs \<longleftrightarrow> directory_of (snd cs) = directory_of st0 \<and> cache_sound (users_in st0) (groups_in err st0) (fst cs)"

lemma resolveUserIDs_mock:
  assumes "approvers_ok err st0 (c, st)"
  shows "\<exists>c'. resolveUserIDs (mock_client err) rule (c, st) = (resolved_users err st0 rule, (c', st)) \<and> approvers_ok err st0 (c', st)"
proof -
  have "mock_dir.determined st0 err (resolveUserIDs (mock_client err) rule)"
    unfolding resolveUserIDs_def by (intro mock_dir.determined_rules)
  from mock_dir.determined_value [OF this refl, of st c] assms show ?thesis
    by (auto simp: approvers_ok_def resolved_users_def)
qed

lemma resolveGroupIDs_mock:
  assumes "approvers_ok err st0 (c, st)"
  shows "\<exists>c'. resolveGroupIDs (mock_client err) rule (c, st) = (resolved_groups err st0 rule, (c', st)) \<and> approvers_ok err st0 (c', st)"
proof -
  have "mock_dir.determined st0 err (resolveGroupIDs (mock_client err) rule)"
    unfolding resolveGroupIDs_def by (intro mock_dir.determined_rules)
  from mock_dir.determined_value [OF this refl, of st c] assms show ?thesis
    by (auto simp: approvers_ok_def resolved_groups_def)
qed

text \<open>The declared rule is there: its approvers resolve and the live rule of its name has them and its count.\<close>

definition rule_settled :: "sdk_error \<Rightarrow> mock_state \<Rightarrow> (string, gl_approval_rule) go_map \<Rightarrow> approval_rule_config \<Rightarrow> bool" where
  "rule_settled err st0 liveMap rule \<longleftrightarrow>
     (\<exists>us gs live. resolved_users err st0 rule = Inr us \<and> resolved_groups err st0 rule = Inr gs
        \<and> go_get liveMap (approval_name_key (arl_Name rule)) = Some live \<and> rule_conforms rule us gs live)"

definition live_ids :: "(string, gl_approval_rule) go_map \<Rightarrow> approval_rule_config list \<Rightarrow> int list" where
  "live_ids liveMap rules = map gal_ID (List.map_filter (\<lambda>rule. go_get liveMap (approval_name_key (arl_Name rule))) rules)"

lemma plan_approval_rules_mock:
  assumes "approvers_ok err st0 (c, st)"
  shows "\<exists>out c'. plan_approval_rules (mock_client err) liveMap rules acc (c, st) = (out, (c', st)) \<and> approvers_ok err st0 (c', st)
    \<and> (case out of Inl e \<Rightarrow> \<exists>rule \<in> set rules. \<not> rule_settled err st0 liveMap rule
       | Inr (ds, ids) \<Rightarrow> (ds = [] \<longleftrightarrow> fst acc = [] \<and> (\<forall>rule \<in> set rules. rule_settled err st0 liveMap rule))
           \<and> ids = snd acc @ live_ids liveMap rules)"
  using assms
proof (induction rules arbitrary: acc c)
  case Nil
  then show ?case by (cases acc) (auto simp: rreturn_def live_ids_def map_filter_simps)
next
  case (Cons rule rules)
  from resolveUserIDs_mock [OF Cons.prems, of rule] obtain c1 where
    c1: "resolveUserIDs (mock_client err) rule (c, st) = (resolved_users err st0 rule, (c1, st))" "approvers_ok err st0 (c1, st)" by blast
  show ?case
  proof (cases "resolved_users err st0 rule")
    case (Inl e)
    then show ?thesis using c1 by (auto simp: rbind_def rwrap_def rule_settled_def)
  next
    case us: (Inr us)
    from resolveGroupIDs_mock [OF c1(2), of rule] obtain c2 where
      c2: "resolveGroupIDs (mock_client err) rule (c1, st) = (resolved_groups err st0 rule, (c2, st))" "approvers_ok err st0 (c2, st)" by blast
    show ?thesis
    proof (cases "resolved_groups err st0 rule")
      case (Inl e)
      then show ?thesis using c1 c2 us by (auto simp: rbind_def rwrap_def rule_settled_def)
    next
      case gs: (Inr gs)
      show ?thesis
      proof (cases "go_get liveMap (approval_name_key (arl_Name rule))")
        case None
        let ?acc = "(fst acc @ [create_rule_diff rule us gs], snd acc)"
        have "plan_approval_rules (mock_client err) liveMap (rule # rules) acc (c, st) = plan_approval_rules (mock_client err) liveMap rules ?acc (c2, st)"
          using c1(1) c2(1) us gs None by (simp add: rbind_def rwrap_def)
        moreover have "\<not> rule_settled err st0 liveMap rule" "live_ids liveMap (rule # rules) = live_ids liveMap rules"
          using None by (simp_all add: rule_settled_def live_ids_def map_filter_simps)
        moreover obtain out c' where "plan_approval_rules (mock_client err) liveMap rules ?acc (c2, st) = (out, (c', st))" "approvers_ok err st0 (c', st)"
          "case out of Inl e \<Rightarrow> \<exists>rule \<in> set rules. \<not> rule_settled err st0 liveMap rule
           | Inr (ds, ids) \<Rightarrow> (ds = [] \<longleftrightarrow> fst ?acc = [] \<and> (\<forall>rule \<in> set rules. rule_settled err st0 liveMap rule))
               \<and> ids = snd ?acc @ live_ids liveMap rules"
          using Cons.IH [OF c2(2), of ?acc] by blast
        ultimately show ?thesis by (cases out) (auto split: if_splits)
      next
        case (Some live)
        let ?d = "diffSingleRule rule live us gs"
        let ?acc = "(if Diff_HasChanges ?d then fst acc @ [?d] else fst acc, snd acc @ [gal_ID live])"
        have "plan_approval_rules (mock_client err) liveMap (rule # rules) acc (c, st) = plan_approval_rules (mock_client err) liveMap rules ?acc (c2, st)"
          using c1(1) c2(1) us gs Some by (simp add: rbind_def rwrap_def Let_def)
        moreover have "rule_settled err st0 liveMap rule \<longleftrightarrow> \<not> Diff_HasChanges ?d"
          "live_ids liveMap (rule # rules) = gal_ID live # live_ids liveMap rules"
          using us gs Some by (simp_all add: rule_settled_def live_ids_def map_filter_simps diffSingleRule_iff)
        moreover obtain out c' where "plan_approval_rules (mock_client err) liveMap rules ?acc (c2, st) = (out, (c', st))" "approvers_ok err st0 (c', st)"
          "case out of Inl e \<Rightarrow> \<exists>rule \<in> set rules. \<not> rule_settled err st0 liveMap rule
           | Inr (ds, ids) \<Rightarrow> (ds = [] \<longleftrightarrow> fst ?acc = [] \<and> (\<forall>rule \<in> set rules. rule_settled err st0 liveMap rule))
               \<and> ids = snd ?acc @ live_ids liveMap rules"
          using Cons.IH [OF c2(2), of ?acc] by blast
        ultimately show ?thesis by (cases out) (auto split: if_splits)
      qed
    qed
  qed
qed

text \<open>What the plan reads: the configuration, and the first page of the rules.\<close>

definition configuration_of :: "int \<Rightarrow> mock_state \<Rightarrow> gl_approvals" where
  "configuration_of pid st = (case go_get (ms_projectApprovals st) pid of None \<Rightarrow> zero_approvals | Some a \<Rightarrow> a)"

definition listed_rules :: "int \<Rightarrow> mock_state \<Rightarrow> gl_approval_rule list" where
  "listed_rules pid st = take 20 (map snd (inner (ms_projectApprovalRules st) pid))"

definition rules_by_name :: "int \<Rightarrow> mock_state \<Rightarrow> (string, gl_approval_rule) go_map" where
  "rules_by_name pid st = liveRulesMap (map Some (listed_rules pid st))"

definition approvals_settled :: "sdk_error \<Rightarrow> int \<Rightarrow> mock_state \<Rightarrow> approval_rules_config \<Rightarrow> bool" where
  "approvals_settled err pid st c \<longleftrightarrow>
     (\<forall>s. effectiveApprovalSettings c = Some s \<longrightarrow> settings_match s (configuration_of pid st))
   \<and> (\<forall>rule \<in> set (ars_Rules c). rule_settled err st (rules_by_name pid st) rule)
   \<and> (prunes_approvals c \<longrightarrow> (\<forall>lr \<in> set (listed_rules pid st). gal_RuleType lr = [] \<or> gal_RuleType lr = ''regular'' \<longrightarrow>
        gal_ID lr \<in> set (live_ids (rules_by_name pid st) (ars_Rules c))))"

lemma approvals_services_mock:
  assumes "governs project st"
  shows "GetApprovalConfiguration (mock_approvals err) (p_ID project) st = (Inr (Some (configuration_of (p_ID project) st)), st)"
    and "GetProjectApprovalRules (mock_approvals err) (p_ID project) st = (Inr (map Some (listed_rules (p_ID project) st)), st)"
  using assms by (simp_all add: mock_approvals_def GetProjectApprovals_def ListApprovalRules_def governs_def resolve_project_number
      configuration_of_def listed_rules_def first_page_take)

lemma plan_settings_mock:
  assumes "governs project st"
  shows "\<exists>ds. plan_settings (mock_client err) (p_ID project) c (cache, st) = (Inr ds, (cache, st))
    \<and> (ds = [] \<longleftrightarrow> (\<forall>s. effectiveApprovalSettings c = Some s \<longrightarrow> settings_match s (configuration_of (p_ID project) st)))"
  by (cases "effectiveApprovalSettings c")
    (simp_all add: plan_settings_def rreturn_def rbind_def rwrap_def approvals_services_mock [OF assms] diffApprovalSettings_iff Let_def)

lemma approval_diffs_mock:
  assumes gov: "governs project st" and ok: "approvers_ok err st (cache, st)"
  shows "\<exists>out cache'. approval_diffs (mock_client err) (p_ID project) c (cache, st) = (out, (cache', st)) \<and> approvers_ok err st (cache', st)
    \<and> (out = Inr [] \<longleftrightarrow> approvals_settled err (p_ID project) st c)"
proof -
  let ?live = "rules_by_name (p_ID project) st" and ?ls = "listed_rules (p_ID project) st"
  from plan_settings_mock [OF gov, of err c cache] obtain ds0 where
    ds0: "plan_settings (mock_client err) (p_ID project) c (cache, st) = (Inr ds0, (cache, st))"
      "ds0 = [] \<longleftrightarrow> (\<forall>s. effectiveApprovalSettings c = Some s \<longrightarrow> settings_match s (configuration_of (p_ID project) st))" by blast
  obtain out c1 where c1: "plan_approval_rules (mock_client err) ?live (ars_Rules c) (ds0, []) (cache, st) = (out, (c1, st))"
      "approvers_ok err st (c1, st)"
    and out: "case out of Inl e \<Rightarrow> \<exists>rule \<in> set (ars_Rules c). \<not> rule_settled err st ?live rule
       | Inr (ds, ids) \<Rightarrow> (ds = [] \<longleftrightarrow> fst (ds0, [] :: int list) = [] \<and> (\<forall>rule \<in> set (ars_Rules c). rule_settled err st ?live rule))
           \<and> ids = snd (ds0, [] :: int list) @ live_ids ?live (ars_Rules c)"
    using plan_approval_rules_mock [OF ok, of ?live "ars_Rules c" "(ds0, [])"] by blast
  have run: "approval_diffs (mock_client err) (p_ID project) c (cache, st) =
      (case out of Inl e \<Rightarrow> (Inl e, (c1, st))
       | Inr (ds, ids) \<Rightarrow> (Inr (ds @ map prune_rule_diff (unmanaged_rules c ids (map Some ?ls))), (c1, st)))"
    using ds0(1) c1(1)
    by (cases out) (auto simp: approval_diffs_def rbind_def rwrap_def rreturn_def approvals_services_mock [OF gov] rules_by_name_def)
  show ?thesis
  proof (cases out)
    case (Inl e)
    then show ?thesis using run c1(2) out by (auto simp: approvals_settled_def)
  next
    case (Inr x)
    obtain ds ids where x: "x = (ds, ids)" by (cases x)
    have "unmanaged_rules c ids (map Some ?ls) = [] \<longleftrightarrow>
        (prunes_approvals c \<longrightarrow> (\<forall>lr \<in> set ?ls. gal_RuleType lr = [] \<or> gal_RuleType lr = ''regular'' \<longrightarrow> gal_ID lr \<in> set ids))"
      by (auto simp: unmanaged_rules_def filter_empty_conv)
    moreover have "approval_diffs (mock_client err) (p_ID project) c (cache, st) =
        (Inr (ds @ map prune_rule_diff (unmanaged_rules c ids (map Some ?ls))), (c1, st))" using run Inr x by simp
    moreover have "ds = [] \<longleftrightarrow> ds0 = [] \<and> (\<forall>rule \<in> set (ars_Rules c). rule_settled err st ?live rule)" "ids = live_ids ?live (ars_Rules c)"
      using out Inr x by auto
    ultimately show ?thesis using c1(2) ds0(2) by (simp add: approvals_settled_def)
  qed
qed

subsection \<open>Properties\<close>

text \<open>Two declared rules that differ at most in the branches they are for and in their type.\<close>

definition unscoped_variant :: "approval_rule_config \<Rightarrow> approval_rule_config \<Rightarrow> bool" where
  "unscoped_variant r r' \<longleftrightarrow>
     (\<exists>names ids t. r' = r\<lparr>arl_ProtectedBranchNames := names, arl_ProtectedBranchIDs := ids, arl_RuleType := t\<rparr>)"

lemma unscoped_variant_plan:
  assumes "unscoped_variant r r'"
  shows "arl_Name r' = arl_Name r" "resolveUserIDs client r' = resolveUserIDs client r" "resolveGroupIDs client r' = resolveGroupIDs client r"
    "create_rule_diff r' us gs = create_rule_diff r us gs" "diffSingleRule r' live us gs = diffSingleRule r live us gs"
proof -
  obtain names ids t where r': "r' = r\<lparr>arl_ProtectedBranchNames := names, arl_ProtectedBranchIDs := ids, arl_RuleType := t\<rparr>"
    using assms unfolding unscoped_variant_def by blast
  show "arl_Name r' = arl_Name r" "resolveUserIDs client r' = resolveUserIDs client r" "resolveGroupIDs client r' = resolveGroupIDs client r"
    "create_rule_diff r' us gs = create_rule_diff r us gs" "diffSingleRule r' live us gs = diffSingleRule r live us gs"
    by (simp_all add: r' resolveUserIDs_def resolveGroupIDs_def create_rule_diff_def diffSingleRule_def)
qed

lemma plan_approval_rules_unscoped:
  "list_all2 unscoped_variant rules rules' \<Longrightarrow> plan_approval_rules client liveMap rules' acc = plan_approval_rules client liveMap rules acc"
proof (induction arbitrary: acc rule: list_all2_induct)
  case (Cons r rs r' rs')
  then show ?case by (simp add: unscoped_variant_plan [OF Cons.hyps(1)] Let_def cong: option.case_cong)
qed simp

lemma approval_diffs_unscoped:
  assumes "list_all2 unscoped_variant (ars_Rules c) rules'"
  shows "approval_diffs client pid (c\<lparr>ars_Rules := rules'\<rparr>) = approval_diffs client pid c"
proof -
  have fields: "ars_Settings (c\<lparr>ars_Rules := rules'\<rparr>) = ars_Settings c"
    "ars_ApprovalsBeforeMerge (c\<lparr>ars_Rules := rules'\<rparr>) = ars_ApprovalsBeforeMerge c"
    "ars_ResetApprovalsOnPush (c\<lparr>ars_Rules := rules'\<rparr>) = ars_ResetApprovalsOnPush c" by simp_all
  have "effectiveApprovalSettings (c\<lparr>ars_Rules := rules'\<rparr>) = effectiveApprovalSettings c"
    unfolding effectiveApprovalSettings_def fields ..
  then show ?thesis
    by (simp add: approval_diffs_def plan_settings_def unmanaged_rules_def prunes_approvals_def plan_approval_rules_unscoped [OF assms])
qed

text \<open>
  Property C16. A plan on the mock server reads only, whatever the resolver has cached, and is exact for what it compares: it
  reports no changes exactly when every declared setting has its value, every declared rule is found under
  its name among the first twenty live rules with its count and exactly its resolved approvers, and, with
  pruning, every regular rule among these twenty has a declared name; where a name cannot be resolved it
  is an error instead. The protected branches of a rule (names and IDs) and its type, which
  \<^verbatim>\<open>docs/configuration.md\<close> documents, are not compared: policies that differ in them have the same plan.
\<close>

theorem ApprovalRules_Plan_exact:
  assumes pol: "approvals_policy cfg = Some c" and gov: "governs project st" and ok: "approvers_ok err st (cache, st)"
  shows "\<exists>out cache'. ApprovalRules_Plan (mock_client err) project cfg (cache, st) = (out, (cache', st)) \<and> approvers_ok err st (cache', st)
    \<and> ((\<exists>pl. out = Inr pl \<and> \<not> pr_HasChanges pl) \<longleftrightarrow> approvals_settled err (p_ID project) st c)
    \<and> (\<forall>cfg' rules'. approvals_policy cfg' = Some (c\<lparr>ars_Rules := rules'\<rparr>) \<and> list_all2 unscoped_variant (ars_Rules c) rules' \<longrightarrow>
         ApprovalRules_Plan (mock_client err) project cfg' (cache, st) = (out, (cache', st)))"
proof -
  from approval_diffs_mock [OF gov ok, of c] obtain out c1 where
    run: "approval_diffs (mock_client err) (p_ID project) c (cache, st) = (out, (c1, st))" "approvers_ok err st (c1, st)"
      "out = Inr [] \<longleftrightarrow> approvals_settled err (p_ID project) st c" by blast
  have same: "ApprovalRules_Plan (mock_client err) project cfg' (cache, st) = ApprovalRules_Plan (mock_client err) project cfg (cache, st)"
    if "approvals_policy cfg' = Some (c\<lparr>ars_Rules := rules'\<rparr>)" "list_all2 unscoped_variant (ars_Rules c) rules'" for cfg' rules'
    using that pol by (simp add: ApprovalRules_Plan_def approval_diffs_unscoped)
  show ?thesis
    using run same by (cases out) (auto simp: ApprovalRules_Plan_def [of _ _ cfg] pol rbind_def rreturn_def)
qed

definition example_approval_rule :: approval_rule_config where
  "example_approval_rule =
     \<lparr>arl_Name = ''Security'', arl_ApprovalsRequired = 2, arl_UserUsernames = [''alice''], arl_UserIDs = [], arl_GroupPaths = [], arl_GroupIDs = [],
      arl_ProtectedBranchNames = [], arl_ProtectedBranchIDs = [], arl_RuleType = []\<rparr>"

definition example_approvals :: approval_rules_config where
  "example_approvals =
     \<lparr>ars_ApprovalsBeforeMerge = Some 1, ars_ResetApprovalsOnPush = None, ars_Settings = None, ars_Rules = [example_approval_rule], ars_Prune = Some True\<rparr>"

definition approvals_policy_of :: "approval_rules_config \<Rightarrow> policy_config option" where
  "approvals_policy_of c = Some (zero_policy_config\<lparr>cfg_Policies := zero_policies\<lparr>pol_ApprovalRules := Some c\<rparr>\<rparr>)"

lemma approvals_policy_of [simp]: "approvals_policy (approvals_policy_of c) = Some c"
  by (simp add: approvals_policy_def approvals_policy_of_def)

definition scoped_approvals :: approval_rules_config where
  "scoped_approvals = example_approvals\<lparr>ars_Rules := [example_approval_rule\<lparr>arl_ProtectedBranchNames := [''main''],
     arl_ProtectedBranchIDs := [3], arl_RuleType := ''code_owner''\<rparr>]\<rparr>"

lemma ApprovalRules_Plan_exact_witness:
  "\<exists>out cache'. ApprovalRules_Plan (mock_client (\<lambda>_ m. Err m)) example_project (approvals_policy_of example_approvals) (NewCachingResolver, staffed_state)
       = (out, (cache', staffed_state))
    \<and> ApprovalRules_Plan (mock_client (\<lambda>_ m. Err m)) example_project (approvals_policy_of scoped_approvals) (NewCachingResolver, staffed_state)
       = (out, (cache', staffed_state))
    \<and> ((\<exists>pl. out = Inr pl \<and> \<not> pr_HasChanges pl) \<longleftrightarrow> approvals_settled (\<lambda>_ m. Err m) (p_ID example_project) staffed_state example_approvals)"
proof -
  have "list_all2 unscoped_variant (ars_Rules example_approvals) [example_approval_rule\<lparr>arl_ProtectedBranchNames := [''main''],
     arl_ProtectedBranchIDs := [3], arl_RuleType := ''code_owner''\<rparr>]"
    by (auto simp: example_approvals_def unscoped_variant_def)
  moreover have "approvals_policy (approvals_policy_of scoped_approvals) = Some (example_approvals\<lparr>ars_Rules := [example_approval_rule\<lparr>arl_ProtectedBranchNames := [''main''],
     arl_ProtectedBranchIDs := [3], arl_RuleType := ''code_owner''\<rparr>]\<rparr>)" by (simp add: scoped_approvals_def)
  moreover have "approvers_ok (\<lambda>_ m. Err m) staffed_state (NewCachingResolver, staffed_state)" by (simp add: approvers_ok_def cache_sound_New)
  ultimately show ?thesis
    using ApprovalRules_Plan_exact [OF approvals_policy_of [of example_approvals] governs_staffed, of "\<lambda>_ m. Err m" NewCachingResolver]
    by blast
qed

lemma wants_set_when [simp]: "wants d (set_when d x)" "wants None v"
  by (cases d; simp add: wants_def set_when_def)+

lemma wants_inverted [simp]: "wants d (\<not> set_when (map_option Not d) x)"
  by (cases d) (simp_all add: wants_def set_when_def)

text \<open>Sending the declared settings makes them hold, on a server that stores what it is sent, unless the policy sets
  resetting and retaining approvals on push to the same value: then the comparison that follows finds drift.\<close>

theorem ApprovalRules_settings_roundtrip:
  "Diff_HasChanges (diffApprovalSettings s (approvals_of_options (change_options s))) \<longleftrightarrow> contradictory s"
proof -
  have "settings_match s (approvals_of_options (change_options s)) \<longleftrightarrow> \<not> contradictory s"
    by (cases "aps_ResetApprovalsOnPush s"; cases "aps_RetainApprovalsOnPush s")
      (simp_all add: settings_match_def approvals_of_options_def change_options_def contradictory_def, auto simp: wants_def set_when_def)
  then show ?thesis by (simp add: diffApprovalSettings_iff)
qed

text \<open>A policy that sets both to the same value is accepted and never settles: on any server whatsoever every plan that
  does not fail reports changes.\<close>

theorem ApprovalRules_contradiction_never_settles:
  assumes "approvals_policy cfg = Some c" and "effectiveApprovalSettings c = Some s" and "contradictory s"
    and "ApprovalRules_Plan client project cfg cs = (Inr pl, cs')"
  shows "pr_HasChanges pl"
proof -
  have keeps: "ds \<noteq> []" if "plan_approval_rules client liveMap rules acc cs1 = (Inr (ds, ids), cs2)" "fst acc \<noteq> []" for liveMap rules acc cs1 ds ids cs2
    using that
  proof (induction rules arbitrary: acc cs1)
    case (Cons rule rules)
    from Cons.prems(1) obtain us c1 gs c2 where "resolveUserIDs client rule cs1 = (Inr us, c1)" "resolveGroupIDs client rule c1 = (Inr gs, c2)"
      by (auto simp: rbind_def rwrap_def split: prod.splits sum.splits)
    with Cons show ?case by (auto simp: rbind_def rwrap_def Let_def split: option.splits if_splits)
  qed (auto simp: rreturn_def)
  have "Diff_HasChanges (diffApprovalSettings s a)" for a
    using contradictory_never_matches [OF assms(3)] by (simp add: diffApprovalSettings_iff)
  then show ?thesis
    using assms(1,2,4) keeps
    by (fastforce simp: ApprovalRules_Plan_def approval_diffs_def plan_settings_def rbind_def rwrap_def rreturn_def Let_def
        split: prod.splits sum.splits)
qed

definition contradictory_approvals :: approval_rules_config where
  "contradictory_approvals =
     example_approvals\<lparr>ars_Rules := [], ars_ResetApprovalsOnPush := Some True, ars_Settings := Some (no_settings\<lparr>aps_RetainApprovalsOnPush := Some True\<rparr>)\<rparr>"

lemma ApprovalRules_contradiction_never_settles_witness:
  "\<exists>pl cs'. ApprovalRules_Plan (mock_client (\<lambda>_ m. Err m)) example_project (approvals_policy_of contradictory_approvals)
       (NewCachingResolver, staffed_state) = (Inr pl, cs') \<and> pr_HasChanges pl"
proof -
  have eff: "effectiveApprovalSettings contradictory_approvals =
      Some (no_settings\<lparr>aps_ApprovalsBeforeMerge := Some 1, aps_ResetApprovalsOnPush := Some True, aps_RetainApprovalsOnPush := Some True\<rparr>)"
    by (simp add: effectiveApprovalSettings_def contradictory_approvals_def example_approvals_def no_settings_def)
  then obtain pl cs' where "ApprovalRules_Plan (mock_client (\<lambda>_ m. Err m)) example_project (approvals_policy_of contradictory_approvals)
      (NewCachingResolver, staffed_state) = (Inr pl, cs')"
    by (simp add: ApprovalRules_Plan_def approval_diffs_def plan_settings_def rbind_def rwrap_def rreturn_def Let_def
        approvals_services_mock [OF governs_staffed] contradictory_approvals_def)
  moreover have "pr_HasChanges pl"
    by (rule ApprovalRules_contradiction_never_settles [OF approvals_policy_of eff _ calculation]) (auto simp: contradictory_def)
  ultimately show ?thesis by blast
qed

end
