(* ===== verification/Branch_Merges.thy ===== *)
theory Branch_Merges
  imports Rule_Loop
begin

section \<open>Branch merges\<close>

text \<open>
  \<^verbatim>\<open>internal/governance/branchmerges.go\<close> (order 24): for every declared pair of branches at different commits
  an open merge request is found or created and, when it has no conflicts, merged. The log messages
  are left out.
\<close>

definition merges_name :: string where
  "merges_name = ''branch_merges''"

definition merges_policy :: "policy_config option \<Rightarrow> branch_merge_rule_config list" where
  "merges_policy cfg = (case cfg of None \<Rightarrow> [] | Some c \<Rightarrow> pol_BranchMerges (cfg_Policies c))"

definition conflicted :: "gl_merge_request \<Rightarrow> bool" where
  "conflicted mr \<longleftrightarrow> gmr_HasConflicts mr \<or> gmr_DetailedMergeStatus mr = ''conflict''"

definition auto_merge :: "branch_merge_rule_config \<Rightarrow> bool" where
  "auto_merge rule = (case bm_AutoMerge rule of None \<Rightarrow> True | Some b \<Rightarrow> b)"

definition source_of :: "branch_merge_rule_config \<Rightarrow> string" where
  "source_of rule = TrimSpace (bm_SourceBranch rule)"

definition target_of :: "branch_merge_rule_config \<Rightarrow> string" where
  "target_of rule = TrimSpace (bm_TargetBranch rule)"

definition merge_id :: "branch_merge_rule_config \<Rightarrow> string" where
  "merge_id rule = ''mr:'' @ source_of rule @ ''->'' @ target_of rule"

text \<open>The common start of a rule: \<open>None\<close> skips it, otherwise these are the open merge requests of its pair.\<close>

definition inspect_pair ::
  "'s gitlab_client \<Rightarrow> gl_project \<Rightarrow> branch_merge_rule_config \<Rightarrow> 's \<Rightarrow> gl_merge_request list option go_result \<times> 's" where
  "inspect_pair client project rule s =
     (let src = source_of rule; tgt = target_of rule; pid = p_ID project; path = p_PathWithNamespace project in
      if src = [] \<or> tgt = [] then (Inr None, s)
      else
        (case GetBranch (cl_Branches client) pid src s of
           (Inl e, s1) \<Rightarrow> (Inl (Wrapf (''source branch '' @ squote src @ '' not found on project '' @ path) e), s1)
         | (Inr sb, s1) \<Rightarrow>
             (case GetBranch (cl_Branches client) pid tgt s1 of
                (Inl e, s2) \<Rightarrow> (Inl (Wrapf (''target branch '' @ squote tgt @ '' not found on project '' @ path) e), s2)
              | (Inr tb, s2) \<Rightarrow>
                  if gbr_CommitID sb \<noteq> None \<and> gbr_CommitID tb \<noteq> None \<and> gbr_CommitID sb = gbr_CommitID tb then (Inr None, s2)
                  else
                    (case ListProjectMergeRequests (cl_MergeRequests client) pid src tgt ''opened'' s2 of
                       (Inl e, s3) \<Rightarrow> (Inl (Wrapf (''failed to list merge requests on project '' @ path) e), s3)
                     | (Inr mrs, s3) \<Rightarrow> (Inr (Some mrs), s3)))))"

subsection \<open>Plan\<close>

definition iid_mark :: "string \<Rightarrow> gl_merge_request \<Rightarrow> go_any" where
  "iid_mark what mr = VStr (what @ '' (!'' @ fmt_d (gmr_IID mr) @ '')'')"

definition existing_mr_diff :: "branch_merge_rule_config \<Rightarrow> gl_merge_request \<Rightarrow> action_type \<times> diff" where
  "existing_mr_diff rule mr =
     (let iid = VInt (gmr_IID mr) in
      if conflicted mr then
        (ActionNoop, Build (merge_id rule) ActionNoop
          (AddField ''mr_iid'' iid iid ActionNoop
            (AddField ''status'' (iid_mark ''open_with_conflicts'' mr) (VStr ''leave_open_for_manual_resolution'') ActionNoop NewDiffBuilder)))
      else if auto_merge rule then
        (ActionUpdate, Build (merge_id rule) ActionUpdate
          (AddField ''mr_iid'' iid iid ActionUpdate
            (AddField ''status'' (iid_mark ''open_clean'' mr) (VStr ''merge'') ActionUpdate NewDiffBuilder)))
      else
        (ActionNoop, Build (merge_id rule) ActionNoop
          (AddField ''status'' (iid_mark ''open_clean'' mr) (VStr ''leave_open'') ActionNoop NewDiffBuilder)))"

definition new_mr_diff :: "branch_merge_rule_config \<Rightarrow> diff" where
  "new_mr_diff rule =
     Build (merge_id rule) ActionCreate
       (AddField ''action'' VNil (VStr (if auto_merge rule then ''create_mr_and_auto_merge_if_clean'' else ''create_mr_only'')) ActionCreate
         (AddField ''target_branch'' VNil (VStr (target_of rule)) ActionCreate
           (AddField ''source_branch'' VNil (VStr (source_of rule)) ActionCreate NewDiffBuilder)))"

definition plan_merge_rule :: "'s gitlab_client \<Rightarrow> gl_project \<Rightarrow> branch_merge_rule_config \<Rightarrow> 's \<Rightarrow> rule_outcome \<times> 's" where
  "plan_merge_rule client project rule s =
     (case inspect_pair client project rule s of
        (Inl e, s') \<Rightarrow> (RuleFailed ActionNoop [] e e, s')
      | (Inr None, s') \<Rightarrow> (RuleKept, s')
      | (Inr (Some (mr # mrs)), s') \<Rightarrow> (case existing_mr_diff rule mr of (a, d) \<Rightarrow> (RuleChanged a d, s'))
      | (Inr (Some []), s') \<Rightarrow> (RuleChanged ActionCreate (new_mr_diff rule), s'))"

definition BranchMerges_Plan :: "'s gitlab_client \<Rightarrow> gl_project \<Rightarrow> policy_config option \<Rightarrow> 's plan_fun" where
  "BranchMerges_Plan client project cfg s =
     (let r = project_resource project in
      if merges_policy cfg = [] then (Inr (noop_plan merges_name r), s)
      else (case each_rule (plan_merge_rule client project) (merges_policy cfg) ([], ActionNoop) s of
              (out, s') \<Rightarrow> (plan_result_of merges_name r out, s')))"

subsection \<open>Apply\<close>

definition create_options :: "branch_merge_rule_config \<Rightarrow> create_mr_options" where
  "create_options rule =
     \<lparr>cmo_SourceBranch = source_of rule, cmo_TargetBranch = target_of rule,
      cmo_Title = (if bm_Title rule = [] then ''Merge branch '' @ squote (source_of rule) @ '' into '' @ squote (target_of rule) else bm_Title rule),
      cmo_Labels = (if bm_Labels rule = [] then [''automated'', ''fleet-governor''] else bm_Labels rule),
      cmo_Description = str_ptr (bm_Description rule), cmo_RemoveSourceBranch = bm_RemoveSourceBranch rule, cmo_Squash = bm_Squash rule\<rparr>"

definition accept_options :: "branch_merge_rule_config \<Rightarrow> accept_mr_options" where
  "accept_options rule =
     \<lparr>amo_MergeWhenPipelineSucceeds = (case bm_MergeWhenPipelineSucceeds rule of None \<Rightarrow> Some True | Some b \<Rightarrow> Some b),
      amo_ShouldRemoveSourceBranch = bm_RemoveSourceBranch rule, amo_Squash = bm_Squash rule\<rparr>"

text \<open>The merge request to work on; \<open>None\<close> where the server says that there is nothing to merge.\<close>

definition open_request ::
  "'s gitlab_client \<Rightarrow> gl_project \<Rightarrow> branch_merge_rule_config \<Rightarrow> gl_merge_request list \<Rightarrow> 's
   \<Rightarrow> (gl_merge_request \<times> diff_builder) option go_result \<times> 's" where
  "open_request client project rule mrs s =
     (case mrs of
        mr # _ \<Rightarrow>
          (case GetMergeRequest (cl_MergeRequests client) (p_ID project) (gmr_IID mr) s of
             (Inr (Some fresh), s') \<Rightarrow> (Inr (Some (fresh, NewDiffBuilder)), s')
           | (_, s') \<Rightarrow> (Inr (Some (mr, NewDiffBuilder)), s'))
      | [] \<Rightarrow>
          (case CreateMergeRequest (cl_MergeRequests client) (p_ID project) (create_options rule) s of
             (Inl e, s') \<Rightarrow>
               if Contains (ToLower (err_msg e)) ''no changes'' then (Inr None, s')
               else (Inl (Wrapf (''failed to create merge request from '' @ squote (source_of rule) @ '' to '' @ squote (target_of rule)
                            @ '' on project '' @ p_PathWithNamespace project) e), s')
           | (Inr mr, s') \<Rightarrow> (Inr (Some (mr, AddField ''mr_created'' VNil (VInt (gmr_IID mr)) ActionCreate NewDiffBuilder)), s')))"

definition settle_request ::
  "'s gitlab_client \<Rightarrow> gl_project \<Rightarrow> branch_merge_rule_config \<Rightarrow> gl_merge_request \<Rightarrow> diff_builder \<Rightarrow> 's \<Rightarrow> (action_type \<times> diff) \<times> 's" where
  "settle_request client project rule mr b s =
     (let iid = VInt (gmr_IID mr) in
      if conflicted mr then
        ((ActionCreate, Build (merge_id rule) ActionCreate
           (AddField ''has_conflicts'' VNil (VBool True) ActionNoop (AddField ''mr_iid'' iid iid ActionNoop
             (AddField ''status'' (VStr ''conflicts_detected'') (VStr ''left_open_for_manual_resolution'') ActionNoop b)))), s)
      else if auto_merge rule then
        (case AcceptMergeRequest (cl_MergeRequests client) (p_ID project) (gmr_IID mr) (accept_options rule) s of
           (Some e, s') \<Rightarrow>
             ((ActionCreate, Build (merge_id rule) ActionCreate
                (AddField ''mr_iid'' iid iid ActionNoop
                  (AddField ''status'' (VStr ''clean'') (VStr (''auto_merge_error: '' @ err_msg e @ '' (left open)'')) ActionNoop b))), s')
         | (None, s') \<Rightarrow>
             ((ActionUpdate, Build (merge_id rule) ActionUpdate
                (AddField ''mr_iid'' iid iid ActionUpdate (AddField ''status'' (VStr ''open'') (VStr ''merged'') ActionUpdate b))), s'))
      else
        ((ActionCreate, Build (merge_id rule) ActionCreate
           (AddField ''mr_iid'' iid iid ActionNoop (AddField ''status'' (VStr ''open'') (VStr ''left_open_auto_merge_disabled'') ActionNoop b))), s))"

definition apply_merge_rule ::
  "'s gitlab_client \<Rightarrow> gl_project \<Rightarrow> branch_merge_rule_config \<Rightarrow> 's \<Rightarrow> (action_type \<times> diff) option go_result \<times> 's" where
  "apply_merge_rule client project rule s =
     (case inspect_pair client project rule s of
        (Inl e, s1) \<Rightarrow> (Inl e, s1)
      | (Inr None, s1) \<Rightarrow> (Inr None, s1)
      | (Inr (Some mrs), s1) \<Rightarrow>
          (case open_request client project rule mrs s1 of
             (Inl e, s2) \<Rightarrow> (Inl e, s2)
           | (Inr None, s2) \<Rightarrow> (Inr None, s2)
           | (Inr (Some (mr, b)), s2) \<Rightarrow> (case settle_request client project rule mr b s2 of (x, s3) \<Rightarrow> (Inr (Some x), s3))))"

text \<open>The loop; an error comes with the diffs and the overall action so far.\<close>

fun merge_rules ::
  "'s gitlab_client \<Rightarrow> gl_project \<Rightarrow> branch_merge_rule_config list \<Rightarrow> diff list \<times> action_type \<Rightarrow> 's
   \<Rightarrow> go_error option \<times> (diff list \<times> action_type) \<times> 's" where
  "merge_rules client project [] acc s = (None, acc, s)"
| "merge_rules client project (rule # rules) acc s =
     (case apply_merge_rule client project rule s of
        (Inl e, s') \<Rightarrow> (Some e, acc, s')
      | (Inr None, s') \<Rightarrow> merge_rules client project rules acc s'
      | (Inr (Some (a, d)), s') \<Rightarrow> merge_rules client project rules (fst acc @ [d], note_action a (snd acc)) s')"

definition BranchMerges_Apply :: "'s gitlab_client \<Rightarrow> gl_project \<Rightarrow> policy_config option \<Rightarrow> 's apply_fun" where
  "BranchMerges_Apply client project cfg s =
     (let r = project_resource project in
      if merges_policy cfg = [] then (noop_apply merges_name r, s)
      else (case merge_rules client project (merges_policy cfg) ([], ActionNoop) s of
              (Some e, (ds, a), s') \<Rightarrow> (failed_apply merges_name r a ds e e, s')
            | (None, (ds, a), s') \<Rightarrow> (if ds = [] then noop_apply merges_name r else ok_apply merges_name r a ds, s')))"

definition BranchMerges_PlanGroup :: "gl_group \<Rightarrow> 's plan_fun" where
  "BranchMerges_PlanGroup g s =
     (Inr (skipped_plan merges_name (group_resource g) ''Branch merges governance is not applicable to groups''), s)"

definition BranchMerges_ApplyGroup :: "gl_group \<Rightarrow> 's apply_fun" where
  "BranchMerges_ApplyGroup g s =
     (skipped_apply merges_name (group_resource g) ''Branch merges governance is not applicable to groups'', s)"


subsection \<open>On the mock server\<close>

abbreviation requests_of :: "mock_state \<Rightarrow> int \<Rightarrow> (int, gl_merge_request) go_map" where
  "requests_of st i \<equiv> inner (ms_mergeRequests st) i"

abbreviation next_iid :: "mock_state \<Rightarrow> int \<Rightarrow> int" where
  "next_iid st i \<equiv> (case go_get (ms_nextMRIID st) i of None \<Rightarrow> 1 | Some n \<Rightarrow> n)"

text \<open>The server numbers the merge requests of a project in the order of their creation.\<close>

definition numbered :: "int \<Rightarrow> mock_state \<Rightarrow> bool" where
  "numbered i st \<longleftrightarrow> keyed gmr_IID (requests_of st i) \<and> (\<forall>n mr. go_get (requests_of st i) n = Some mr \<longrightarrow> n < next_iid st i)"

text \<open>The merge requests a policy lets the fleet governor merge.\<close>

definition mergeable :: "branch_merge_rule_config list \<Rightarrow> gl_merge_request \<Rightarrow> bool" where
  "mergeable rules mr \<longleftrightarrow> gmr_State mr = ''opened'' \<and> \<not> conflicted mr
     \<and> list_ex (\<lambda>r. auto_merge r \<and> source_of r = gmr_SourceBranch mr \<and> target_of r = gmr_TargetBranch mr) rules"

text \<open>What a step keeps: the numbering, and every merge request that may not be merged.\<close>

definition keeps_request :: "branch_merge_rule_config list \<Rightarrow> int \<Rightarrow> mock_state \<Rightarrow> mock_state \<Rightarrow> bool" where
  "keeps_request rules i st st' \<longleftrightarrow> numbered i st'
     \<and> (\<forall>n mr. go_get (requests_of st i) n = Some mr \<longrightarrow> \<not> mergeable rules mr \<longrightarrow> go_get (requests_of st' i) n = Some mr)"

lemma keeps_request_refl: "numbered i st \<Longrightarrow> keeps_request rules i st st"
  by (simp add: keeps_request_def)

lemma keeps_request_trans:
  "keeps_request rules i st st' \<Longrightarrow> keeps_request rules i st' st'' \<Longrightarrow> keeps_request rules i st st''"
  by (simp add: keeps_request_def)

lemma copy_files_frame:
  "ms_mergeRequests (copy_files i src tgt st) = ms_mergeRequests st" "ms_nextMRIID (copy_files i src tgt st) = ms_nextMRIID st"
proof -
  have "ms_mergeRequests (fold (\<lambda>(path, content). put_file i tgt path content) fs st) = ms_mergeRequests st
    \<and> ms_nextMRIID (fold (\<lambda>(path, content). put_file i tgt path content) fs st) = ms_nextMRIID st" for fs
    by (induction fs arbitrary: st) (auto simp: put_file_def)
  then show "ms_mergeRequests (copy_files i src tgt st) = ms_mergeRequests st"
    "ms_nextMRIID (copy_files i src tgt st) = ms_nextMRIID st"
    by (simp_all add: copy_files_def)
qed

lemma inspect_pair_mock:
  assumes "inspect_pair (mock_client err) project rule st = (out, st')"
  shows "st' = st \<and> (\<forall>mrs. out = Inr (Some mrs) \<longrightarrow>
    mrs = State_ListMergeRequests (fmt_d (p_ID project)) (source_of rule) (target_of rule) ''opened'' st
    \<and> source_of rule \<noteq> [] \<and> target_of rule \<noteq> [])"
  using assms
  by (auto simp: inspect_pair_def Let_def mock_git_branches_def mock_merge_requests_def split: option.splits if_splits)

lemma accept_keeps:
  assumes "numbered i st" and "go_get (requests_of st j) n = Some mr" and "\<not> gmr_HasConflicts mr"
    and "i = j \<Longrightarrow> mergeable rules mr"
  shows "keeps_request rules i st (copy_files j src tgt
    (st\<lparr>ms_mergeRequests := put_inner j n (mr\<lparr>gmr_State := ''merged''\<rparr>) (ms_mergeRequests st)\<rparr>))"
proof -
  have "gmr_IID mr = n" if "i = j" using assms(1,2) that by (simp add: numbered_def keyed_def)
  then show ?thesis
    using assms by (auto simp: keeps_request_def numbered_def keyed_def copy_files_frame split: if_splits)
qed

lemma create_keeps:
  assumes "numbered i st" and "State_CreateMergeRequest pid o' st = (out, st')"
  shows "keeps_request rules i st st'"
proof (cases "resolveProjectIDLocked pid st = Some i")
  case True
  have out: "out = Some (new_merge_request (next_iid st i) o')"
    "st' = st\<lparr>ms_nextMRIID := go_put i (next_iid st i + 1) (ms_nextMRIID st),
      ms_mergeRequests := put_inner i (next_iid st i) (new_merge_request (next_iid st i) o') (ms_mergeRequests st)\<rparr>"
    using assms(2) True by (auto simp: State_CreateMergeRequest_def Let_def)
  have iid: "gmr_IID (new_merge_request n o') = n" for n by (simp add: new_merge_request_def Let_def)
  have below: "n < next_iid st i" if "go_get (requests_of st i) n = Some mr" for n mr
    using assms(1) that by (simp add: numbered_def)
  have "keyed gmr_IID (go_put (next_iid st i) (new_merge_request (next_iid st i) o') (requests_of st i))"
    using keyed_put [of gmr_IID "requests_of st i" "new_merge_request (next_iid st i) o'"] assms(1)
    by (simp add: iid numbered_def)
  then show ?thesis
    using below unfolding out keeps_request_def numbered_def by (fastforce simp: split: if_splits)
next
  case False
  then have "requests_of st' i = requests_of st i \<and> next_iid st' i = next_iid st i"
    using assms(2) by (auto simp: State_CreateMergeRequest_def Let_def split: option.splits)
  then show ?thesis using assms(1) by (simp add: keeps_request_def numbered_def)
qed

text \<open>A merge request as \<open>open_request\<close> hands it on: stored under its number, and declared unless it is new.\<close>

definition handed_on :: "string \<Rightarrow> branch_merge_rule_config \<Rightarrow> gl_merge_request \<Rightarrow> mock_state \<Rightarrow> bool" where
  "handed_on pid rule mr st \<longleftrightarrow> (\<forall>j. resolveProjectIDLocked pid st = Some j \<longrightarrow> numbered j st \<longrightarrow>
     go_get (requests_of st j) (gmr_IID mr) = Some mr \<and> gmr_State mr = ''opened''
     \<and> gmr_SourceBranch mr = source_of rule \<and> gmr_TargetBranch mr = target_of rule)"

lemma settle_keeps:
  assumes "numbered i st" and "handed_on (fmt_d (p_ID project)) rule mr st" and "rule \<in> set rules"
    and "settle_request (mock_client err) project rule mr b st = (out, st')"
  shows "keeps_request rules i st st'"
proof (cases "st' = st")
  case False
  then obtain j mr' where j: "resolveProjectIDLocked (fmt_d (p_ID project)) st = Some j"
    "go_get (requests_of st j) (gmr_IID mr) = Some mr'" "\<not> gmr_HasConflicts mr'" "\<not> conflicted mr" "auto_merge rule"
    "st' = copy_files j (gmr_SourceBranch mr') (gmr_TargetBranch mr')
      (st\<lparr>ms_mergeRequests := put_inner j (gmr_IID mr) (mr'\<lparr>gmr_State := ''merged''\<rparr>) (ms_mergeRequests st)\<rparr>)"
    using assms(4)
    by (auto simp: settle_request_def Let_def mock_merge_requests_def State_GetMergeRequest_def State_AcceptMergeRequest_def
        split: if_splits option.splits)
  have "mergeable rules mr'" if "i = j"
  proof -
    have "mr' = mr \<and> gmr_State mr = ''opened'' \<and> gmr_SourceBranch mr = source_of rule \<and> gmr_TargetBranch mr = target_of rule"
      using assms(1,2) j(1,2) that by (simp add: handed_on_def)
    then show ?thesis using j(4,5) assms(3) by (auto simp: mergeable_def list_ex_iff)
  qed
  then show ?thesis using accept_keeps [OF assms(1) j(2,3)] j(6) by blast
qed (simp add: assms(1) keeps_request_refl)

lemma open_keeps:
  assumes num: "numbered i st" and rule: "source_of rule \<noteq> []" "target_of rule \<noteq> []"
    and mrs: "mrs = State_ListMergeRequests (fmt_d (p_ID project)) (source_of rule) (target_of rule) ''opened'' st"
    and out: "open_request (mock_client err) project rule mrs st = (out, st')"
  shows "keeps_request rules i st st' \<and> (\<forall>mr b. out = Inr (Some (mr, b)) \<longrightarrow> handed_on (fmt_d (p_ID project)) rule mr st')"
proof (cases mrs)
  case Nil
  let ?pid = "fmt_d (p_ID project)"
  obtain x st1 where x: "State_CreateMergeRequest ?pid (create_options rule) st = (x, st1)"
    by (cases "State_CreateMergeRequest ?pid (create_options rule) st")
  have st': "st' = st1" "\<And>mr b. out = Inr (Some (mr, b)) \<Longrightarrow> x = Some mr"
    using out x Nil by (auto simp: open_request_def mock_merge_requests_def split: option.splits if_splits)
  have same: "resolveProjectIDLocked ?pid st1 = resolveProjectIDLocked ?pid st"
    using x by (auto simp: State_CreateMergeRequest_def Let_def resolveProjectIDLocked_def split: option.splits)
  have "handed_on ?pid rule mr st1" if "x = Some mr" for mr
    using x that same
    by (auto simp: handed_on_def State_CreateMergeRequest_def Let_def new_merge_request_def create_options_def split: option.splits)
  then show ?thesis using create_keeps [OF num x] st' by blast
next
  case (Cons mr ms)
  have hand: "handed_on (fmt_d (p_ID project)) rule mr st"
    unfolding handed_on_def
  proof (intro allI impI)
    fix j
    assume j: "resolveProjectIDLocked (fmt_d (p_ID project)) st = Some j" "numbered j st"
    have "mr \<in> set mrs" using Cons by simp
    then have "mr \<in> set (map snd (requests_of st j)) \<and> gmr_State mr = ''opened''
      \<and> gmr_SourceBranch mr = source_of rule \<and> gmr_TargetBranch mr = target_of rule"
      unfolding mrs State_ListMergeRequests_def j(1) option.case set_filter using rule by simp
    then show "go_get (requests_of st j) (gmr_IID mr) = Some mr \<and> gmr_State mr = ''opened''
      \<and> gmr_SourceBranch mr = source_of rule \<and> gmr_TargetBranch mr = target_of rule"
      using keyed_mem [of gmr_IID "requests_of st j" mr] j(2) unfolding numbered_def by blast
  qed
  have "st' = st \<and> (\<forall>mr' b. out = Inr (Some (mr', b)) \<longrightarrow> mr' = mr \<or>
      (\<exists>j. resolveProjectIDLocked (fmt_d (p_ID project)) st = Some j \<and> go_get (requests_of st j) (gmr_IID mr) = Some mr'))"
    using out Cons
    by (auto simp: open_request_def mock_merge_requests_def State_GetMergeRequest_def split: option.splits)
  then show ?thesis using hand num keeps_request_refl unfolding handed_on_def
    by (metis option.sel)
qed

lemma merge_rules_keeps:
  "numbered i st \<Longrightarrow> set rs \<subseteq> set rules \<Longrightarrow> merge_rules (mock_client err) project rs acc st = (e, acc', st') \<Longrightarrow>
     keeps_request rules i st st'"
proof (induction rs arbitrary: acc st)
  case Nil
  then show ?case by (simp add: keeps_request_refl)
next
  case (Cons rule rs)
  obtain out st1 where out: "apply_merge_rule (mock_client err) project rule st = (out, st1)"
    by (cases "apply_merge_rule (mock_client err) project rule st")
  obtain o1 s1 where o1: "inspect_pair (mock_client err) project rule st = (o1, s1)"
    by (cases "inspect_pair (mock_client err) project rule st")
  note ins = inspect_pair_mock [OF o1]
  have first: "keeps_request rules i st st1"
  proof (cases "\<exists>mrs. o1 = Inr (Some mrs)")
    case True
    then obtain mrs where mrs: "o1 = Inr (Some mrs)" by blast
    obtain o2 s2 where o2: "open_request (mock_client err) project rule mrs st = (o2, s2)"
      by (cases "open_request (mock_client err) project rule mrs st")
    have opened: "keeps_request rules i st s2 \<and> (\<forall>mr b. o2 = Inr (Some (mr, b)) \<longrightarrow> handed_on (fmt_d (p_ID project)) rule mr s2)"
      using open_keeps [OF Cons.prems(1) _ _ _ o2] ins mrs by blast
    show ?thesis
    proof (cases "\<exists>mr b. o2 = Inr (Some (mr, b))")
      case True
      then obtain mr b where mr: "o2 = Inr (Some (mr, b))" by blast
      obtain x s3 where x: "settle_request (mock_client err) project rule mr b s2 = (x, s3)"
        by (cases "settle_request (mock_client err) project rule mr b s2")
      have "keeps_request rules i s2 s3"
        by (rule settle_keeps [OF _ _ _ x]) (use opened mr Cons.prems(2) in \<open>auto simp: keeps_request_def\<close>)
      moreover have "st1 = s3" using out o1 o2 x mrs mr ins by (simp add: apply_merge_rule_def)
      ultimately show ?thesis using opened keeps_request_trans by blast
    next
      case False
      then have "st1 = s2" using out o1 o2 mrs ins
        by (cases o2) (auto simp: apply_merge_rule_def split: option.splits prod.splits)
      then show ?thesis using opened by simp
    qed
  next
    case False
    then have "st1 = st" using out o1 ins by (cases o1) (auto simp: apply_merge_rule_def split: option.splits)
    then show ?thesis using Cons.prems(1) keeps_request_refl by simp
  qed
  then have num: "numbered i st1" by (simp add: keeps_request_def)
  show ?case
  proof (cases out)
    case (Inl e')
    then show ?thesis using Cons.prems(3) out first by simp
  next
    case (Inr r)
    have rs: "set rs \<subseteq> set rules" using Cons.prems(2) by simp
    show ?thesis
    proof (cases r)
      case None
      then have "merge_rules (mock_client err) project rs acc st1 = (e, acc', st')" using Cons.prems(3) out Inr by simp
      then show ?thesis using Cons.IH [OF num rs] first keeps_request_trans by blast
    next
      case (Some p)
      obtain a d where "p = (a, d)" by (cases p)
      then have "merge_rules (mock_client err) project rs (fst acc @ [d], note_action a (snd acc)) st1 = (e, acc', st')"
        using Cons.prems(3) out Inr Some by simp
      then show ?thesis using Cons.IH [OF num rs] first keeps_request_trans by blast
    qed
  qed
qed

text \<open>Planning reads only.\<close>

lemma BranchMerges_Plan_read_only: "snd (BranchMerges_Plan (mock_client err) project cfg st) = st"
proof -
  have step: "snd (plan_merge_rule (mock_client err) project rule s) = s" for rule s
  proof -
    obtain o1 s1 where o1: "inspect_pair (mock_client err) project rule s = (o1, s1)"
      by (cases "inspect_pair (mock_client err) project rule s")
    then have "s1 = s" using inspect_pair_mock by blast
    with o1 show ?thesis by (auto simp: plan_merge_rule_def split: sum.splits option.splits list.splits prod.splits)
  qed
  have "snd (each_rule (plan_merge_rule (mock_client err) project) rs acc s) = s" for rs acc s
  proof (induction rs arbitrary: acc s)
    case (Cons r rs)
    obtain out where "plan_merge_rule (mock_client err) project r s = (out, s)" using step [of r s] by (metis prod.collapse)
    then show ?case using Cons.IH by (cases out) auto
  qed simp
  then show ?thesis by (simp add: BranchMerges_Plan_def Let_def case_prod_unfold)
qed

subsection \<open>Properties\<close>

text \<open>
  Property C17. Applying branch merges leaves every merge request alone that is not its business: on
  the mock server, a merge request of any project that is closed, has conflicts, or whose pair of
  branches no auto-merge rule declares is the same after the run, whether the run succeeds or fails.
\<close>

theorem BranchMerges_leaves_conflicts:
  assumes "numbered i st" and "go_get (requests_of st i) iid = Some mr"
    and "\<not> mergeable (merges_policy cfg) mr"
  shows "go_get (requests_of (snd (BranchMerges_Apply (mock_client err) project cfg st)) i) iid = Some mr"
proof -
  obtain e acc' st' where run: "merge_rules (mock_client err) project (merges_policy cfg) ([], ActionNoop) st = (e, acc', st')"
    by (cases "merge_rules (mock_client err) project (merges_policy cfg) ([], ActionNoop) st")
  have "go_get (requests_of st' i) iid = Some mr"
    using merge_rules_keeps [OF assms(1) subset_refl run] assms(2,3) by (simp add: keeps_request_def)
  then show ?thesis
    using assms(2) run by (cases acc'; cases e) (simp_all add: BranchMerges_Apply_def Let_def)
qed


definition stale_request :: gl_merge_request where
  "stale_request =
     \<lparr>gmr_IID = 3, gmr_Title = ''Release'', gmr_SourceBranch = ''develop'', gmr_TargetBranch = ''main'', gmr_State = ''opened'',
      gmr_Labels = [], gmr_HasConflicts = True, gmr_DetailedMergeStatus = ''conflict''\<rparr>"

definition merge_state :: mock_state where
  "merge_state =
     example_state\<lparr>ms_branches := [(7, [(''develop'', \<lparr>gbr_Name = ''develop'', gbr_CommitID = Some ''a''\<rparr>),
                                       (''main'', \<lparr>gbr_Name = ''main'', gbr_CommitID = Some ''b''\<rparr>)])],
       ms_mergeRequests := [(7, [(3, stale_request)])], ms_nextMRIID := [(7, 4)]\<rparr>"

definition example_merges_policy :: "policy_config option" where
  "example_merges_policy =
     Some (zero_policy_config\<lparr>cfg_Policies := zero_policies\<lparr>pol_BranchMerges :=
       [\<lparr>bm_SourceBranch = ''develop'', bm_TargetBranch = ''main'', bm_Title = [], bm_Description = [], bm_Labels = [],
         bm_AutoMerge = None, bm_RemoveSourceBranch = None, bm_Squash = None, bm_MergeWhenPipelineSucceeds = None\<rparr>]\<rparr>\<rparr>)"

theorem BranchMerges_leaves_conflicts_witness:
  "go_get (requests_of (snd (BranchMerges_Apply (mock_client (\<lambda>_ m. Err m)) example_project example_merges_policy merge_state)) 7) 3
     = Some stale_request"
proof (rule BranchMerges_leaves_conflicts)
  show "numbered 7 merge_state"
    by (auto simp: numbered_def merge_state_def keyed_def go_map_ok_def inner_def stale_request_def split: if_splits)
  show "go_get (requests_of merge_state 7) 3 = Some stale_request" by (simp add: merge_state_def inner_def)
  show "\<not> mergeable (merges_policy example_merges_policy) stale_request"
    by (simp add: mergeable_def conflicted_def stale_request_def)
qed

end
