(* ===== verification/Env_Subst.thy ===== *)
theory Env_Subst
  imports Go_Base
begin

section \<open>Environment substitution\<close>

text \<open>
  \<^verbatim>\<open>internal/config/envsubst.go\<close>: tokens \<open>${VAR}\<close> and \<open>${VAR:-default}\<close> of a policy file are replaced, the
  values and defaults being expanded again up to a depth of 32. A text is a list of bytes; the conversion
  \<^verbatim>\<open>[]rune(s)\<close> reads it as UTF-8 and replaces every byte that is not part of a well-formed character
  (\<open>to_runes\<close>). The letters and digits of a variable name are those of ASCII. The depth counts down:
  a budget of \<open>33 - depth\<close>.
\<close>

subsection \<open>Reading UTF-8\<close>

text \<open>
  The number of bytes a character takes, by its first byte; zero for a byte that starts none. The
  second byte has a narrower range after some first bytes (overlong forms, surrogates, the end of
  Unicode), the others are continuation bytes.
\<close>

definition rune_width :: "char \<Rightarrow> nat" where
  "rune_width c =
     (let n = (of_char c :: nat) in
      if n < 128 then 1 else if 194 \<le> n \<and> n \<le> 223 then 2 else if 224 \<le> n \<and> n \<le> 239 then 3
      else if 240 \<le> n \<and> n \<le> 244 then 4 else 0)"

definition cont_byte :: "char \<Rightarrow> bool" where
  "cont_byte c \<longleftrightarrow> 128 \<le> (of_char c :: nat) \<and> (of_char c :: nat) \<le> 191"

definition second_byte :: "char \<Rightarrow> char \<Rightarrow> bool" where
  "second_byte c d =
     (let n = (of_char c :: nat); m = (of_char d :: nat) in
      (n = 224 \<longrightarrow> 160 \<le> m) \<and> (n = 237 \<longrightarrow> m \<le> 159) \<and> (n = 240 \<longrightarrow> 144 \<le> m) \<and> (n = 244 \<longrightarrow> m \<le> 143))"

text \<open>The length of the character a text starts with, zero when it starts with none.\<close>

definition conts :: "nat \<Rightarrow> string \<Rightarrow> bool" where
  "conts k s \<longleftrightarrow> k \<le> length s \<and> list_all cont_byte (take k s)"

definition rune_length :: "string \<Rightarrow> nat" where
  "rune_length s =
     (case s of
        [] \<Rightarrow> 0
      | c # t \<Rightarrow>
          (let w = rune_width c in
           if w \<le> 1 then w else if conts (w - 1) t \<and> second_byte c (hd t) then w else 0))"

text \<open>\<^verbatim>\<open>string([]rune(s))\<close>: a byte that starts no character becomes \<^verbatim>\<open>U+FFFD\<close>.\<close>

definition rune_error :: string where
  "rune_error = [CHR 0xEF, CHR 0xBF, CHR 0xBD]"

function to_runes :: "string \<Rightarrow> string" where
  "to_runes s =
     (if s = [] then []
      else if rune_length s = 0 then rune_error @ to_runes (tl s)
      else take (rune_length s) s @ to_runes (drop (rune_length s) s))"
  by pat_completeness auto

termination
  by (relation "measure length") auto

declare to_runes.simps [simp del]

function valid_utf8 :: "string \<Rightarrow> bool" where
  "valid_utf8 s = (if s = [] then True else if rune_length s = 0 then False else valid_utf8 (drop (rune_length s) s))"
  by pat_completeness auto

termination
  by (relation "measure length") auto

declare valid_utf8.simps [simp del]

lemma rune_length_le: "rune_length s \<le> length s"
  by (auto simp: rune_length_def Let_def rune_width_def conts_def split: list.splits)

lemma conts_append: "conts k s \<Longrightarrow> conts k (s @ t)"
  by (simp add: conts_def)

lemma rune_length_append: "rune_length s \<noteq> 0 \<Longrightarrow> rune_length (s @ t) = rune_length s"
proof (cases s)
  case (Cons c r)
  assume "rune_length s \<noteq> 0"
  moreover have "conts k r \<Longrightarrow> k \<noteq> 0 \<Longrightarrow> conts k (r @ t) \<and> hd (r @ t) = hd r" for k
    using conts_append [of k r t] by (cases r) (auto simp: conts_def)
  ultimately show ?thesis using Cons by (auto simp: rune_length_def Let_def split: if_splits)
qed (simp add: rune_length_def)

lemma to_runes_Nil [simp]: "to_runes [] = []"
  by (simp add: to_runes.simps)

lemma valid_utf8_Nil [simp]: "valid_utf8 []"
  by (simp add: valid_utf8.simps)

lemma valid_utf8_step: "valid_utf8 s \<Longrightarrow> s \<noteq> [] \<Longrightarrow> rune_length s \<noteq> 0 \<and> valid_utf8 (drop (rune_length s) s)"
  by (subst (asm) valid_utf8.simps) (simp split: if_splits)

lemma to_runes_valid: "valid_utf8 s \<Longrightarrow> to_runes s = s"
proof (induction s rule: to_runes.induct)
  case (1 s)
  show ?case
  proof (cases "s = []")
    case False
    from valid_utf8_step [OF 1(3) False] 1(2) [OF False] show ?thesis using False by (subst to_runes.simps) simp
  qed simp
qed

lemma valid_utf8_append: "valid_utf8 s \<Longrightarrow> valid_utf8 t \<Longrightarrow> valid_utf8 (s @ t)"
proof (induction s rule: valid_utf8.induct)
  case (1 s)
  show ?case
  proof (cases "s = []")
    case False
    with valid_utf8_step [OF 1(2) False] 1(1) 1(3) have ok: "rune_length s \<noteq> 0" "valid_utf8 (drop (rune_length s) s @ t)" by simp_all
    then show ?thesis
      using rune_length_append [OF ok(1), of t] rune_length_le [of s] False by (subst valid_utf8.simps) simp
  qed (use 1(3) in simp)
qed

text \<open>A byte below 128 is a character of its own.\<close>

lemma rune_length_ascii [simp]: "(of_char c :: nat) < 128 \<Longrightarrow> rune_length (c # t) = 1"
  by (simp add: rune_length_def rune_width_def Let_def)

lemma to_runes_ascii [simp]: "(of_char c :: nat) < 128 \<Longrightarrow> to_runes (c # t) = c # to_runes t"
  by (simp add: to_runes.simps [of "c # t"])

lemma valid_utf8_ascii [simp]: "(of_char c :: nat) < 128 \<Longrightarrow> valid_utf8 (c # t) \<longleftrightarrow> valid_utf8 t"
  by (simp add: valid_utf8.simps [of "c # t"])

lemma valid_ascii: "(\<And>c. c \<in> set s \<Longrightarrow> (of_char c :: nat) < 128) \<Longrightarrow> valid_utf8 s"
  by (induction s) auto

subsection \<open>Expansion\<close>

type_synonym env_lookup = "string \<Rightarrow> string option"

definition maxEnvSubstDepth :: nat where
  "maxEnvSubstDepth = 32"

text \<open>Whether the text goes on with \<open>c\<close> and then \<open>d\<close>.\<close>

definition pair_at :: "char \<Rightarrow> char \<Rightarrow> string \<Rightarrow> bool" where
  "pair_at c d s \<longleftrightarrow> (case s of a # b # t \<Rightarrow> a = c \<and> b = d | _ \<Rightarrow> False)"

lemma pair_at_simps [simp]: "\<not> pair_at c d []" "\<not> pair_at c d [a]" "pair_at c d (a # b # t) \<longleftrightarrow> a = c \<and> b = d"
  by (simp_all add: pair_at_def)

definition is_letter :: "char \<Rightarrow> bool" where
  "is_letter c = (let n = (of_char c :: nat) in (65 \<le> n \<and> n \<le> 90) \<or> (97 \<le> n \<and> n \<le> 122))"

definition isValidVarIdentifier :: "string \<Rightarrow> bool" where
  "isValidVarIdentifier name =
     (case name of
        [] \<Rightarrow> False
      | c # cs \<Rightarrow> (is_letter c \<or> c = CHR ''_'') \<and> list_all (\<lambda>r. is_letter r \<or> is_digit r \<or> r = CHR ''_'') cs)"

text \<open>The inside of a token whose braces are open \<open>d\<close> times, and the text after it; \<open>None\<close> where it does not end.\<close>

function scan_braces :: "nat \<Rightarrow> string \<Rightarrow> (string \<times> string) option" where
  "scan_braces d s =
     (if s = [] then None
      else if pair_at CHR ''$'' CHR ''{'' s then map_option (apfst (\<lambda>e. ''${'' @ e)) (scan_braces (Suc d) (drop 2 s))
      else if hd s = CHR ''}'' \<and> d \<le> 1 then Some ([], tl s)
      else map_option (apfst (Cons (hd s))) (scan_braces (if hd s = CHR ''}'' then d - 1 else d) (tl s)))"
  by pat_completeness auto

termination
  by (relation "measure (\<lambda>(d, s). length s)") auto

declare scan_braces.simps [simp del]

text \<open>The first \<open>:-\<close> outside nested tokens.\<close>

function split_default :: "nat \<Rightarrow> string \<Rightarrow> (string \<times> string) option" where
  "split_default d s =
     (if s = [] then None
      else if pair_at CHR ''$'' CHR ''{'' s then map_option (apfst (\<lambda>e. ''${'' @ e)) (split_default (Suc d) (drop 2 s))
      else if hd s = CHR ''}'' then map_option (apfst (Cons (hd s))) (split_default (d - 1) (tl s))
      else if d = 0 \<and> pair_at CHR '':'' CHR ''-'' s then Some ([], drop 2 s)
      else map_option (apfst (Cons (hd s))) (split_default d (tl s)))"
  by pat_completeness auto

termination
  by (relation "measure (\<lambda>(d, s). length s)") auto

declare split_default.simps [simp del]

definition bad_name :: "string \<Rightarrow> go_error" where
  "bad_name name = Err (''invalid environment variable name '' @ squote name)"

text \<open>\<open>deeper\<close> expands a value, two levels below the text, \<open>deep\<close> a default, one level below.\<close>

definition evaluateExpression ::
  "env_lookup \<Rightarrow> (string \<Rightarrow> string go_result) \<Rightarrow> (string \<Rightarrow> string go_result) \<Rightarrow> string \<Rightarrow> string go_result" where
  "evaluateExpression lookup deeper deep expr =
     (case split_default 0 (to_runes expr) of
        Some (v, dflt) \<Rightarrow>
          (let varName = TrimSpace v in
           if \<not> isValidVarIdentifier varName then Inl (bad_name varName)
           else (case lookup varName of
                   Some val \<Rightarrow> if val \<noteq> [] then deeper val else deep dflt
                 | None \<Rightarrow> deep dflt))
      | None \<Rightarrow>
          (let varName = TrimSpace expr in
           if \<not> isValidVarIdentifier varName then Inl (bad_name varName)
           else (case lookup varName of
                   Some val \<Rightarrow> if val \<noteq> [] then deeper val else Inr []
                 | None \<Rightarrow> Inr [])))"

text \<open>Offsets count characters, that is the bytes that do not continue one.\<close>

definition char_start :: "char \<Rightarrow> bool" where
  "char_start c \<longleftrightarrow> (of_char c :: nat) < 128 \<or> 192 \<le> (of_char c :: nat)"

definition unterminated :: "nat \<Rightarrow> go_error" where
  "unterminated off = Err (''syntax error in env substitution: unterminated '' @ squote ''${'' @ '' at character offset '' @ fmt_d (int off))"

definition expanding :: "string \<Rightarrow> nat \<Rightarrow> go_error \<Rightarrow> go_error" where
  "expanding expr off e = Wrapf (''error expanding '' @ squote (''${'' @ expr @ ''}'') @ '' at offset '' @ fmt_d (int off)) e"

definition prepend :: "string \<Rightarrow> string go_result \<Rightarrow> string go_result" where
  "prepend x r = map_sum id (\<lambda>y. x @ y) r"

lemma prepend_simps [simp]: "prepend x (Inl e) = Inl e" "prepend x (Inr y) = Inr (x @ y)"
  by (simp_all add: prepend_def)

lemma scan_braces_shorter: "scan_braces d s = Some (e, r) \<Longrightarrow> length r < length s"
proof (induction d s arbitrary: e rule: scan_braces.induct)
  case (1 d s)
  obtain c t where "s = c # t" using 1(3) by (cases s) (simp_all add: scan_braces.simps)
  with 1 show ?case by (subst (asm) (3) scan_braces.simps) (fastforce split: if_splits)
qed

text \<open>The loop over the text, from the given offset on.\<close>

function expand_loop :: "(string \<Rightarrow> string go_result) \<Rightarrow> nat \<Rightarrow> string \<Rightarrow> string go_result" where
  "expand_loop eval off s =
     (case s of
        [] \<Rightarrow> Inr []
      | c # t \<Rightarrow>
          if pair_at CHR 0x5C CHR ''$'' s \<or> pair_at CHR ''$'' CHR ''$'' s then prepend ''$'' (expand_loop eval (off + 2) (tl t))
          else if pair_at CHR ''$'' CHR ''{'' s then
            (case scan_braces 1 (tl t) of
               None \<Rightarrow> Inl (unterminated off)
             | Some (expr, rest) \<Rightarrow>
                 (case eval expr of
                    Inl e \<Rightarrow> Inl (expanding expr off e)
                  | Inr val \<Rightarrow> prepend val (expand_loop eval (off + length (filter char_start (''${'' @ expr @ ''}''))) rest)))
          else prepend [c] (expand_loop eval (if char_start c then Suc off else off) t))"
  by pat_completeness auto

termination
  by (relation "measure (\<lambda>(eval, off, s). length s)") (auto dest!: scan_braces_shorter)

declare expand_loop.simps [simp del]

definition depth_exceeded :: go_error where
  "depth_exceeded = Err (''env substitution error: maximum recursion depth ('' @ fmt_d (int maxEnvSubstDepth) @ '') exceeded'')"

fun expandEnvRecursive :: "env_lookup \<Rightarrow> nat \<Rightarrow> string \<Rightarrow> string go_result" where
  "expandEnvRecursive lookup 0 s = Inl depth_exceeded"
| "expandEnvRecursive lookup (Suc b) s =
     expand_loop (evaluateExpression lookup (expandEnvRecursive lookup (b - 1)) (expandEnvRecursive lookup b)) 0 (to_runes s)"

definition ExpandEnvWithLookup :: "env_lookup \<Rightarrow> string \<Rightarrow> string go_result" where
  "ExpandEnvWithLookup lookup s = expandEnvRecursive lookup (Suc maxEnvSubstDepth) s"

subsection \<open>Facts\<close>

lemma expand_loop_Nil [simp]: "expand_loop eval off [] = Inr []"
  by (simp add: expand_loop.simps)

text \<open>A text without dollar signs stays as it is.\<close>

lemma expand_loop_plain: "CHR ''$'' \<notin> set s \<Longrightarrow> expand_loop eval off s = Inr s"
proof (induction s arbitrary: off)
  case (Cons c s)
  then have "\<not> pair_at CHR 0x5C CHR ''$'' (c # s)" "\<not> pair_at CHR ''$'' CHR ''$'' (c # s)" "\<not> pair_at CHR ''$'' CHR ''{'' (c # s)"
    by (cases s; auto)+
  then show ?case using Cons by (subst expand_loop.simps) simp
qed simp

lemma ExpandEnv_plain: "CHR ''$'' \<notin> set s \<Longrightarrow> valid_utf8 s \<Longrightarrow> ExpandEnvWithLookup lookup s = Inr s"
  by (simp add: ExpandEnvWithLookup_def expand_loop_plain to_runes_valid)

text \<open>A backslash before every dollar sign.\<close>

definition escape_env :: "string \<Rightarrow> string" where
  "escape_env s = concat (map (\<lambda>c. if c = CHR ''$'' then [CHR 0x5C, c] else [c]) s)"

lemma expand_loop_escaped: "expand_loop eval off (escape_env s) = Inr s"
proof (induction s arbitrary: off)
  case (Cons c s)
  show ?case
  proof (cases "c = CHR ''$''")
    case True
    then show ?thesis using Cons [of "off + 2"] by (subst expand_loop.simps) (simp add: escape_env_def)
  next
    case False
    have "escape_env s = [] \<or> hd (escape_env s) \<noteq> CHR ''$''" by (cases s) (simp_all add: escape_env_def)
    then have "\<not> pair_at CHR 0x5C CHR ''$'' (c # escape_env s)" using False by (cases "escape_env s") auto
    moreover have "\<not> pair_at CHR ''$'' d (c # escape_env s)" for d using False by (cases "escape_env s") auto
    moreover have "escape_env (c # s) = c # escape_env s" using False by (simp add: escape_env_def)
    ultimately show ?thesis using Cons by (subst expand_loop.simps) simp
  qed
qed (simp add: escape_env_def)

text \<open>Escaping keeps the characters apart: it commutes with reading the runes.\<close>

lemma escape_env_append [simp]: "escape_env (s @ t) = escape_env s @ escape_env t"
  by (simp add: escape_env_def)

lemma escape_env_Cons: "escape_env (c # t) = (if c = CHR ''$'' then [CHR 0x5C, c] else [c]) @ escape_env t"
  by (simp add: escape_env_def)

lemma escape_env_id: "CHR ''$'' \<notin> set s \<Longrightarrow> escape_env s = s"
  by (induction s) (auto simp: escape_env_def)

lemma conts_no_dollar: "conts k s \<Longrightarrow> CHR ''$'' \<notin> set (take k s)"
  by (auto simp: conts_def list_all_iff cont_byte_def)

lemma escape_env_split: "conts k s \<Longrightarrow> escape_env s = take k s @ escape_env (drop k s)"
  using escape_env_append [of "take k s" "drop k s"] escape_env_id [OF conts_no_dollar [of k s]] by simp

lemma conts_escape: "conts k (escape_env s) \<longleftrightarrow> conts k s"
proof (induction s arbitrary: k)
  case (Cons c t)
  show ?case
  proof (cases k)
    case (Suc j)
    then show ?thesis using Cons [of j] by (auto simp: escape_env_Cons conts_def cont_byte_def)
  qed (simp add: conts_def)
qed (simp add: escape_env_def)

lemma rune_length_escape:
  assumes "c \<noteq> CHR ''$''"
  shows "rune_length (c # escape_env t) = rune_length (c # t)"
proof -
  have "conts k t \<Longrightarrow> k \<noteq> 0 \<Longrightarrow> hd (escape_env t) = hd t" for k
    using escape_env_split [of k t] by (cases t) (auto simp: conts_def neq0_conv gr0_conv_Suc)
  from this [of "rune_width c - 1"] show ?thesis
    by (cases "rune_width c \<le> 1") (auto simp: rune_length_def Let_def conts_escape)
qed

lemma to_runes_escape: "to_runes (escape_env s) = escape_env (to_runes s)"
proof (induction s rule: to_runes.induct)
  case (1 s)
  show ?case
  proof (cases s)
    case (Cons c t)
    show ?thesis
    proof (cases "c = CHR ''$''")
      case True
      then show ?thesis using 1 Cons by (simp add: escape_env_Cons)
    next
      case c: False
      let ?n = "rune_length s"
      have e: "escape_env s = c # escape_env t" "rune_length (escape_env s) = ?n"
        using Cons c rune_length_escape [OF c, of t] by (simp_all add: escape_env_Cons)
      show ?thesis
      proof (cases "?n = 0")
        case True
        then have "to_runes (escape_env s) = rune_error @ to_runes (escape_env t)"
          using e by (subst to_runes.simps) simp
        moreover have "to_runes s = rune_error @ to_runes t" using True Cons by (subst to_runes.simps) simp
        moreover have "escape_env rune_error = rune_error" by (rule escape_env_id) (simp add: rune_error_def)
        ultimately show ?thesis using 1 True Cons by simp
      next
        case n: False
        have t: "conts (?n - 1) t"
          using n Cons by (auto simp: rune_length_def Let_def conts_def split: if_splits)
        then have split: "escape_env s = take ?n s @ escape_env (drop ?n s)"
          using e(1) escape_env_split [OF t] n Cons by (simp add: take_Cons' drop_Cons')
        have plain: "CHR ''$'' \<notin> set (take ?n s)" using conts_no_dollar [OF t] c n Cons by (simp add: take_Cons')
        have "to_runes (escape_env s) = take ?n (escape_env s) @ to_runes (drop ?n (escape_env s))"
          using e n by (subst to_runes.simps) simp
        also have "\<dots> = take ?n s @ to_runes (escape_env (drop ?n s))"
          using rune_length_le [of s] by (simp add: split)
        also have "\<dots> = escape_env (take ?n s @ to_runes (drop ?n s))"
          using 1 n Cons escape_env_id [OF plain] by simp
        also have "take ?n s @ to_runes (drop ?n s) = to_runes s" using n Cons by (subst (2) to_runes.simps) simp
        finally show ?thesis .
      qed
    qed
  qed (simp add: escape_env_def)
qed

lemma ExpandEnv_escaped: "ExpandEnvWithLookup lookup (escape_env s) = Inr (to_runes s)"
  by (simp add: ExpandEnvWithLookup_def expand_loop_escaped to_runes_escape)

lemma name_chars:
  assumes "isValidVarIdentifier x" and "c \<in> set x"
  shows "c \<noteq> CHR ''$'' \<and> c \<noteq> CHR ''}'' \<and> c \<noteq> CHR '':'' \<and> \<not> is_space c \<and> (of_char c :: nat) < 128"
proof -
  have "is_letter c \<or> is_digit c \<or> c = CHR ''_''"
    using assms by (auto simp: isValidVarIdentifier_def list_all_iff split: list.splits)
  then show ?thesis by (auto simp: is_letter_def is_digit_def is_space_def Let_def)
qed

lemma valid_name: "isValidVarIdentifier x \<Longrightarrow> valid_utf8 x"
  using name_chars by (blast intro: valid_ascii)

lemma scan_name: "isValidVarIdentifier x \<or> x = [] \<Longrightarrow> scan_braces 1 (x @ CHR ''}'' # rest) = Some (x, rest)"
proof -
  have "(\<And>c. c \<in> set x \<Longrightarrow> c \<noteq> CHR ''$'' \<and> c \<noteq> CHR ''}'') \<Longrightarrow> scan_braces 1 (x @ CHR ''}'' # rest) = Some (x, rest)"
  proof (induction x)
    case Nil
    then show ?case by (subst scan_braces.simps) (cases rest; simp)
  next
    case (Cons c x)
    have "\<not> pair_at CHR ''$'' CHR ''{'' ((c # x) @ CHR ''}'' # rest)" using Cons.prems [of c] by (cases x) auto
    then show ?case using Cons by (subst scan_braces.simps) simp
  qed
  then show "isValidVarIdentifier x \<or> x = [] \<Longrightarrow> scan_braces 1 (x @ CHR ''}'' # rest) = Some (x, rest)"
    using name_chars by auto
qed

lemma split_name: "isValidVarIdentifier x \<Longrightarrow> split_default 0 x = None"
proof -
  have "(\<And>c. c \<in> set x \<Longrightarrow> c \<noteq> CHR ''$'' \<and> c \<noteq> CHR ''}'' \<and> c \<noteq> CHR '':'') \<Longrightarrow> split_default 0 x = None"
  proof (induction x)
    case (Cons c x)
    have "\<not> pair_at CHR ''$'' CHR ''{'' (c # x)" "\<not> pair_at CHR '':'' CHR ''-'' (c # x)"
      using Cons.prems [of c] by (cases x; auto)+
    then show ?case using Cons by (subst split_default.simps) simp
  qed (simp add: split_default.simps)
  then show "isValidVarIdentifier x \<Longrightarrow> split_default 0 x = None" using name_chars by auto
qed

lemma TrimSpace_name: "isValidVarIdentifier x \<Longrightarrow> TrimSpace x = x"
proof -
  have "(\<And>c. c \<in> set s \<Longrightarrow> \<not> is_space c) \<Longrightarrow> dropWhile is_space s = s" for s by (cases s) auto
  from this [of x] this [of "rev x"] show "isValidVarIdentifier x \<Longrightarrow> TrimSpace x = x"
    using name_chars by (simp add: TrimSpace_def trim_by_def)
qed

definition token :: "string \<Rightarrow> string" where
  "token x = ''${'' @ x @ ''}''"

lemma valid_token: "isValidVarIdentifier x \<Longrightarrow> valid_utf8 (token x)"
  using name_chars by (intro valid_ascii) (auto simp: token_def)

text \<open>One token and the text after it.\<close>

lemma expand_token:
  assumes "isValidVarIdentifier x"
  shows "expand_loop (evaluateExpression lookup deeper deep) off (token x @ rest) =
    (case (case lookup x of Some val \<Rightarrow> if val \<noteq> [] then deeper val else Inr [] | None \<Rightarrow> Inr []) of
       Inl e \<Rightarrow> Inl (expanding x off e)
     | Inr val \<Rightarrow> prepend val (expand_loop (evaluateExpression lookup deeper deep)
                    (off + length (filter char_start (token x))) rest))"
  using scan_name [of x rest] split_name [OF assms] TrimSpace_name [OF assms] to_runes_valid [OF valid_name [OF assms]] assms
  by (subst expand_loop.simps) (cases "lookup x"; simp add: token_def evaluateExpression_def Let_def split: sum.splits)

lemma expand_token_only:
  assumes "isValidVarIdentifier x" and "lookup x = Some val" and "val \<noteq> []"
  shows "expandEnvRecursive lookup (Suc b) (token x) = map_sum (expanding x 0) id (expandEnvRecursive lookup (b - 1) val)"
  using expand_token [OF assms(1), of lookup "expandEnvRecursive lookup (b - 1)" "expandEnvRecursive lookup b" 0 "[]"] to_runes_valid [OF valid_token [OF assms(1)]] assms
  by (cases "expandEnvRecursive lookup (b - 1) val") simp_all

text \<open>A token with plain text before and after it.\<close>

lemma expand_loop_prefix:
  "CHR ''$'' \<notin> set a \<Longrightarrow> CHR 0x5C \<notin> set a \<Longrightarrow> \<exists>off'. expand_loop eval off (a @ s) = prepend a (expand_loop eval off' s)"
proof (induction a arbitrary: off)
  case Nil
  then show ?case by (intro exI [of _ off]) (cases "expand_loop eval off s"; simp)
next
  case (Cons c a)
  have "\<not> pair_at CHR 0x5C CHR ''$'' ((c # a) @ s)" "\<not> pair_at CHR ''$'' d ((c # a) @ s)" for d
    using Cons.prems by (cases "a @ s"; auto)+
  moreover obtain off' where "expand_loop eval (if char_start c then Suc off else off) (a @ s) = prepend a (expand_loop eval off' s)"
    using Cons by fastforce
  ultimately show ?case
    by (intro exI [of _ off'], subst expand_loop.simps) (cases "expand_loop eval off' s"; simp)
qed

lemma ExpandEnv_token_between:
  assumes "isValidVarIdentifier x" and "lookup x = Some val" and "CHR ''$'' \<notin> set (a @ val @ b)" and "CHR 0x5C \<notin> set a"
    and valid: "valid_utf8 a" "valid_utf8 val" "valid_utf8 b"
  shows "ExpandEnvWithLookup lookup (a @ token x @ b) = Inr (a @ val @ b)"
proof -
  let ?eval = "evaluateExpression lookup (expandEnvRecursive lookup 31) (expandEnvRecursive lookup 32)"
  have "0 < n \<Longrightarrow> expandEnvRecursive lookup n val = Inr val" for n using assms(3) valid by (cases n) (simp_all add: expand_loop_plain to_runes_valid)
  then have val: "expandEnvRecursive lookup 31 val = Inr val" by simp
  obtain off where "expand_loop ?eval 0 (a @ token x @ b) = prepend a (expand_loop ?eval off (token x @ b))"
    using expand_loop_prefix [of a ?eval 0 "token x @ b"] assms(3,4) by auto
  moreover have "expand_loop ?eval off (token x @ b) = Inr (val @ b)"
    using expand_token [OF assms(1), of lookup "expandEnvRecursive lookup 31" "expandEnvRecursive lookup 32" off b] assms(2,3) val
    by (simp add: expand_loop_plain del: expandEnvRecursive.simps)
  moreover have "to_runes (a @ token x @ b) = a @ token x @ b"
    using valid valid_token [OF assms(1)] by (simp add: to_runes_valid valid_utf8_append)
  then have "ExpandEnvWithLookup lookup (a @ token x @ b) = expand_loop ?eval 0 (a @ token x @ b)"
    unfolding ExpandEnvWithLookup_def maxEnvSubstDepth_def by (subst expandEnvRecursive.simps(2)) simp
  ultimately show ?thesis by simp
qed

subsection \<open>Properties\<close>

text \<open>
  Property C22. Escaping and expanding are inverse, in every environment: a text with a backslash before every
  dollar sign expands to what Go reads the text as, where each byte that is not part of a UTF-8
  character has become the replacement character. A text in valid UTF-8 comes back unchanged.
\<close>

theorem escape_roundtrip:
  "ExpandEnvWithLookup lookup (escape_env s) = Inr (to_runes s)
   \<and> (valid_utf8 s \<longrightarrow> ExpandEnvWithLookup lookup (escape_env s) = Inr s)"
  by (simp add: ExpandEnv_escaped to_runes_valid)

text \<open>A text with an umlaut and a dollar sign, and one whose umlaut is written in Latin-1.\<close>

theorem escape_roundtrip_witness:
  "ExpandEnvWithLookup (\<lambda>_. None) (escape_env [CHR ''$'', CHR ''{'', CHR 0xC3, CHR 0xBC]) = Inr [CHR ''$'', CHR ''{'', CHR 0xC3, CHR 0xBC]
   \<and> ExpandEnvWithLookup (\<lambda>_. None) (escape_env [CHR 0xFC]) = Inr rune_error"
proof -
  have "valid_utf8 [CHR ''$'', CHR ''{'', CHR 0xC3, CHR 0xBC]" by code_simp
  moreover have "to_runes [CHR 0xFC] = rune_error" by code_simp
  ultimately show ?thesis using escape_roundtrip by metis
qed

text \<open>
  Property C28. Circular references end in the depth error: where every variable of a set has a value that
  is a token of the set again, expanding any of the tokens fails, and below the places the error
  names, its cause is that the maximal depth is exceeded.
\<close>

theorem circular_reference_fails:
  assumes "\<And>x. x \<in> vars \<Longrightarrow> isValidVarIdentifier x \<and> (\<exists>y \<in> vars. lookup x = Some (token y))" and "x \<in> vars"
  shows "\<exists>e. ExpandEnvWithLookup lookup (token x) = Inl e \<and> errors_Is e depth_exceeded"
proof -
  have "\<forall>x \<in> vars. \<exists>e. expandEnvRecursive lookup b (token x) = Inl e \<and> errors_Is e depth_exceeded" for b
  proof (induction b rule: less_induct)
    case (less b)
    show ?case
    proof (cases b)
      case (Suc b')
      show ?thesis
      proof
        fix x
        assume "x \<in> vars"
        then obtain y where y: "y \<in> vars" "lookup x = Some (token y)" "isValidVarIdentifier x" using assms(1) by blast
        obtain e where "expandEnvRecursive lookup (b' - 1) (token y) = Inl e" "errors_Is e depth_exceeded"
          using less.IH [of "b' - 1"] y(1) Suc by fastforce
        with expand_token_only [of x lookup "token y" b'] y Suc
        show "\<exists>e. expandEnvRecursive lookup b (token x) = Inl e \<and> errors_Is e depth_exceeded"
          by (simp add: token_def expanding_def)
      qed
    qed simp
  qed
  then show ?thesis using assms(2) by (simp add: ExpandEnvWithLookup_def del: expandEnvRecursive.simps)
qed

definition example_loop :: env_lookup where
  "example_loop = (\<lambda>x. if x = ''LOOP_X'' then Some (token ''LOOP_Y'') else if x = ''LOOP_Y'' then Some (token ''LOOP_X'') else None)"

theorem circular_reference_fails_witness:
  "\<exists>e. ExpandEnvWithLookup example_loop (token ''LOOP_X'') = Inl e \<and> errors_Is e depth_exceeded"
proof (rule circular_reference_fails [of "{''LOOP_X'', ''LOOP_Y''}"])
  have "isValidVarIdentifier ''LOOP_X''" "isValidVarIdentifier ''LOOP_Y''" by code_simp+
  then show "x \<in> {''LOOP_X'', ''LOOP_Y''} \<Longrightarrow>
      isValidVarIdentifier x \<and> (\<exists>y \<in> {''LOOP_X'', ''LOOP_Y''}. example_loop x = Some (token y))" for x
    by (auto simp: example_loop_def)
qed simp

text \<open>
  A value is expanded again: two dollar signs in it become one.
\<close>

theorem secret_loses_dollar:
  assumes "isValidVarIdentifier x" and "lookup x = Some ''pa$$word''"
  shows "ExpandEnvWithLookup lookup (token x) = Inr ''pa$word''"
proof -
  have "expandEnvRecursive lookup (Suc b) ''pa$$word'' = Inr ''pa$word''" for b
    by (simp add: expand_loop.simps)
  from this [of 30] show ?thesis
    using expand_token_only [of x lookup "''pa$$word''" 32] assms by (simp add: ExpandEnvWithLookup_def maxEnvSubstDepth_def numeral_eq_Suc del: expandEnvRecursive.simps)
qed

end
