(* ===== verification/Config_Loader.thy ===== *)
theory Config_Loader
  imports Env_Subst Config_Model
begin

section \<open>Loading a policy\<close>

text \<open>
  \<^verbatim>\<open>internal/config/loader.go\<close>, \<^verbatim>\<open>s3.go\<close>, \<^verbatim>\<open>unmarshal.go\<close> and \<^verbatim>\<open>config.go\<close>: where the bytes of a policy come
  from, and the four stages that turn them into one. A \<open>loader\<close> holds what the operating system and
  AWS answer; the YAML decoder and the validation are arguments. \<^verbatim>\<open>path.Clean\<close> and \<^verbatim>\<open>path.Ext\<close> of the
  standard library are written out here for the file names of policies.
\<close>

subsection \<open>Paths\<close>

text \<open>\<^verbatim>\<open>strings.Split\<close> for a separator of one byte.\<close>

fun Split :: "string \<Rightarrow> char \<Rightarrow> string list" where
  "Split [] c = [[]]"
| "Split (x # s) c = (if x = c then [] # Split s c else (case Split s c of p # ps \<Rightarrow> (x # p) # ps | [] \<Rightarrow> [[x]]))"

definition clean_segment :: "bool \<Rightarrow> string list \<Rightarrow> string \<Rightarrow> string list" where
  "clean_segment rooted acc seg =
     (if seg = [] \<or> seg = ''.'' then acc
      else if seg = ''..'' then
        (if acc \<noteq> [] \<and> last acc \<noteq> ''..'' then butlast acc else if rooted then acc else acc @ [seg])
      else acc @ [seg])"

definition path_Clean :: "string \<Rightarrow> string" where
  "path_Clean p =
     (let rooted = HasPrefix p ''/''; segs = foldl (clean_segment rooted) [] (Split p CHR ''/'')
      in if rooted then ''/'' @ Join segs ''/'' else if segs = [] then ''.'' else Join segs ''/'')"

definition path_Ext :: "string \<Rightarrow> string" where
  "path_Ext p =
     (let base = last (Split p CHR ''/'')
      in case LastIndexByte base CHR ''.'' of None \<Rightarrow> [] | Some i \<Rightarrow> drop i base)"

lemma Split_not_Nil [simp]: "Split s c \<noteq> []"
  by (induction s) (auto split: list.splits)

subsection \<open>Sources\<close>

datatype s3_outcome = S3FetchError go_error | S3ReadError go_error | S3Object string

datatype file_outcome = OpenError go_error | StatError go_error | NotRegular | ReadError go_error | FileBytes string

text \<open>
  \<open>ld_stdin\<close> is \<open>None\<close> for a nil reader; \<open>ld_s3_init\<close> the error of the AWS configuration, where no
  client is injected; \<open>ld_open\<close> opens, inspects and reads a file, \<open>ld_Stat\<close> tells whether \<^verbatim>\<open>os.Stat\<close>
  succeeds and \<open>ld_ReadFile\<close> is \<^verbatim>\<open>os.ReadFile\<close>.
\<close>

record loader =
  ld_stdin :: "string go_result option"
  ld_lookupEnv :: env_lookup
  ld_s3_init :: "go_error option"
  ld_s3 :: "string \<Rightarrow> string \<Rightarrow> s3_outcome"
  ld_open :: "string \<Rightarrow> file_outcome"
  ld_Stat :: "string \<Rightarrow> bool"
  ld_ReadFile :: "string \<Rightarrow> string go_result"

definition DefaultCandidateFiles :: "string list" where
  "DefaultCandidateFiles =
     [''gitlab-fleet-governor.yaml'', ''gitlab-fleet-governor.yml'', ''gitlab-fleet-governor.json'',
      ''.gitlab-fleet-governor.yaml'', ''.gitlab-fleet-governor.yml'', ''.gitlab-fleet-governor.json'',
      ''config.yaml'', ''config.yml'', ''config.json'']"

definition invalid_uri :: "string \<Rightarrow> string \<Rightarrow> go_error" where
  "invalid_uri uri why = Err (''invalid S3 URI '' @ squote uri @ '': '' @ why)"

definition ParseS3URI :: "string \<Rightarrow> (string \<times> string) go_result" where
  "ParseS3URI rawURI =
     (if \<not> HasPrefix rawURI ''s3://'' then Inl (invalid_uri rawURI (''must begin with '' @ squote ''s3://''))
      else (case Split (TrimPrefix rawURI ''s3://'') CHR ''/'' of
              bucket # p # ps \<Rightarrow>
                (let key = Join (p # ps) ''/'' in
                 if bucket = [] \<or> key = [] then Inl (invalid_uri rawURI ''expected format s3://<bucket>/<key>'')
                 else Inr (bucket, key))
            | _ \<Rightarrow> Inl (invalid_uri rawURI ''expected format s3://<bucket>/<key>'')))"

definition readFromS3 :: "loader \<Rightarrow> string \<Rightarrow> string go_result" where
  "readFromS3 l rawURI =
     (case ParseS3URI rawURI of
        Inl e \<Rightarrow> Inl e
      | Inr (bucket, key) \<Rightarrow>
          (case ld_s3_init l of
             Some e \<Rightarrow> Inl (Wrapf ''failed to initialize AWS S3 client'' (Wrapf ''failed to load AWS configuration for S3'' e))
           | None \<Rightarrow>
               (case ld_s3 l bucket key of
                  S3FetchError e \<Rightarrow> Inl (Wrapf (''failed to fetch config from S3 URI '' @ squote rawURI) e)
                | S3ReadError e \<Rightarrow> Inl (Wrapf (''failed to read S3 object payload from '' @ squote rawURI) e)
                | S3Object data \<Rightarrow> Inr data)))"

definition maxConfigFileSize :: nat where
  "maxConfigFileSize = 10 * 1024 * 1024"

definition readFromSource :: "loader \<Rightarrow> string \<Rightarrow> string go_result" where
  "readFromSource l source =
     (if source = ''-'' then
        (case ld_stdin l of
           None \<Rightarrow> Inl (Err ''standard input reader is nil'')
         | Some (Inl e) \<Rightarrow> Inl (Wrapf ''failed to read configuration from standard input'' e)
         | Some (Inr data) \<Rightarrow> Inr data)
      else if HasPrefix source ''s3://'' then readFromS3 l source
      else
        (let cleanPath = path_Clean source in
         if CHR 0x00 \<in> set cleanPath then Inl (Err ''invalid configuration path: contains null byte'')
         else (case ld_open l cleanPath of
                 OpenError e \<Rightarrow> Inl (Wrapf (''failed to open configuration file '' @ squote cleanPath) e)
               | StatError e \<Rightarrow> Inl (Wrapf (''failed to stat configuration file '' @ squote cleanPath) e)
               | NotRegular \<Rightarrow> Inl (Err (''invalid configuration file '' @ squote cleanPath @ '': must be a regular file''))
               | ReadError e \<Rightarrow> Inl (Wrapf (''failed to read configuration file '' @ squote cleanPath) e)
               | FileBytes all \<Rightarrow>
                   (let data = take (maxConfigFileSize + 1) all in
                    if length data > maxConfigFileSize then
                      Inl (Err (''configuration file '' @ squote cleanPath @ '' exceeds maximum allowed size ('' @ fmt_d (int maxConfigFileSize) @ '' bytes)''))
                    else Inr data))))"

text \<open>Content of white space only is an error.\<close>

definition blank :: "string \<Rightarrow> bool" where
  "blank s \<longleftrightarrow> TrimSpace s = []"

definition not_blank :: "string \<Rightarrow> string go_result" where
  "not_blank data = (if blank data then Inl (Err ''empty configuration content'') else Inr data)"

definition from_source :: "loader \<Rightarrow> string \<Rightarrow> string go_result" where
  "from_source l source = (case readFromSource l source of Inl e \<Rightarrow> Inl e | Inr data \<Rightarrow> not_blank data)"

text \<open>The first of the variables whose value is not blank.\<close>

fun first_set :: "env_lookup \<Rightarrow> string list \<Rightarrow> (string \<times> string) option" where
  "first_set lookup [] = None"
| "first_set lookup (k # ks) =
     (case lookup k of
        Some val \<Rightarrow> if \<not> blank val then Some (k, val) else first_set lookup ks
      | None \<Rightarrow> first_set lookup ks)"

text \<open>The result comes with the description of the source.\<close>

definition LoadRaw :: "loader \<Rightarrow> string \<Rightarrow> string go_result \<times> string" where
  "LoadRaw l configPath =
     (if \<not> blank configPath then (from_source l (TrimSpace configPath), configPath)
      else (case first_set (ld_lookupEnv l) [''CONFIG_CONTENT'', ''CONFIG_YAML'', ''CONFIG_JSON''] of
        Some (k, val) \<Rightarrow> (not_blank val, ''env:'' @ k)
      | None \<Rightarrow>
        (case first_set (ld_lookupEnv l) [''CONFIG_SOURCE'', ''CONFIG_FILE''] of
           Some (k, val) \<Rightarrow> (from_source l (TrimSpace val), ''env:'' @ k @ ''('' @ TrimSpace val @ '')'')
         | None \<Rightarrow>
           (case find (ld_Stat l) DefaultCandidateFiles of
              Some candidate \<Rightarrow>
                (case ld_ReadFile l candidate of
                   Inl e \<Rightarrow> (Inl (Wrapf (''failed to read default config file '' @ squote candidate) e), [])
                 | Inr data \<Rightarrow> (not_blank data, candidate))
            | None \<Rightarrow>
                (Inl (Err (''no configuration source provided: specify via --config, CONFIG_* environment variables, '' @
                           ''or create a config.yaml in the working directory'')), [])))))"

subsection \<open>The four stages\<close>

text \<open>What the YAML decoder makes of the first document, and of the next one.\<close>

datatype 'a decoded = EndOfInput | DecodeError go_error | Decoded 'a

definition UnmarshalStrict :: "(string \<Rightarrow> 'a decoded \<times> 'b decoded) \<Rightarrow> string \<Rightarrow> 'a go_result" where
  "UnmarshalStrict decode data =
     (if TrimSpace data = [] then Inl (Err ''empty configuration content'')
      else (case decode (TrimSpace data) of
              (EndOfInput, _) \<Rightarrow> Inl (Err ''empty configuration content'')
            | (DecodeError e, _) \<Rightarrow> Inl (Wrapf ''configuration syntax or schema error'' e)
            | (Decoded x, Decoded _) \<Rightarrow> Inl (Err ''unexpected extra data in configuration'')
            | (Decoded x, DecodeError e) \<Rightarrow> Inl (Wrapf ''unexpected extra data in configuration'' e)
            | (Decoded x, EndOfInput) \<Rightarrow> Inr x))"

definition load_stages ::
  "(string \<Rightarrow> policy_config decoded \<times> 'b decoded) \<Rightarrow> (policy_config \<Rightarrow> go_error option) \<Rightarrow> bool
   \<Rightarrow> env_lookup \<Rightarrow> (string \<Rightarrow> string) \<Rightarrow> string \<Rightarrow> policy_config go_result" where
  "load_stages decode validate skipValidate lookup place data =
     (case ExpandEnvWithLookup lookup data of
        Inl e \<Rightarrow> Inl (Wrapf (place ''config env substitution error'') e)
      | Inr expanded \<Rightarrow>
          (case UnmarshalStrict decode expanded of
             Inl e \<Rightarrow> Inl (Wrapf (place ''config unmarshal error'') e)
           | Inr raw \<Rightarrow>
               (let cfg = PolicyConfig_SetDefaults raw in
                if skipValidate then Inr cfg
                else (case validate cfg of Some e \<Rightarrow> Inl (Wrapf (place ''config validation error'') e) | None \<Rightarrow> Inr cfg))))"

definition Load ::
  "(string \<Rightarrow> policy_config decoded \<times> 'b decoded) \<Rightarrow> (policy_config \<Rightarrow> go_error option) \<Rightarrow> bool \<Rightarrow> loader
   \<Rightarrow> string \<Rightarrow> policy_config go_result \<times> string" where
  "Load decode validate skipValidate l configPath =
     (case LoadRaw l configPath of
        (Inl e, desc) \<Rightarrow> (Inl (Wrapf ''config load error'' e), desc)
      | (Inr data, desc) \<Rightarrow>
          (load_stages decode validate skipValidate (ld_lookupEnv l) (\<lambda>what. what @ '' in source '' @ squote desc) data, desc))"

definition LoadFromBytes ::
  "(string \<Rightarrow> policy_config decoded \<times> 'b decoded) \<Rightarrow> (policy_config \<Rightarrow> go_error option) \<Rightarrow> env_lookup \<Rightarrow> string
   \<Rightarrow> policy_config go_result" where
  "LoadFromBytes decode validate lookup data = load_stages decode validate False lookup (\<lambda>what. what) data"

subsection \<open>Facts\<close>

lemma not_blank_SomeD: "not_blank data = Inr d \<Longrightarrow> d = data \<and> \<not> blank data"
  by (auto simp: not_blank_def split: if_splits)

lemma from_source_SomeD: "from_source l source = Inr d \<Longrightarrow> \<not> blank d"
  by (auto simp: from_source_def dest: not_blank_SomeD split: sum.splits)

lemma LoadRaw_not_blank: "LoadRaw l path = (Inr d, desc) \<Longrightarrow> \<not> blank d"
  by (auto simp: LoadRaw_def dest: not_blank_SomeD from_source_SomeD split: if_splits option.splits sum.splits)

lemma UnmarshalStrict_Inr:
  "UnmarshalStrict decode data = Inr x \<longleftrightarrow> TrimSpace data \<noteq> [] \<and> decode (TrimSpace data) = (Decoded x, EndOfInput)"
  by (cases "decode (TrimSpace data)"; cases "fst (decode (TrimSpace data))"; cases "snd (decode (TrimSpace data))")
    (auto simp: UnmarshalStrict_def)

lemma load_stages_Inr:
  "load_stages decode validate skipValidate lookup place data = Inr cfg \<longleftrightarrow>
     (\<exists>expanded raw. ExpandEnvWithLookup lookup data = Inr expanded \<and> UnmarshalStrict decode expanded = Inr raw
        \<and> cfg = PolicyConfig_SetDefaults raw \<and> (skipValidate \<or> validate cfg = None))"
  by (auto simp: load_stages_def Let_def split: sum.splits option.splits)

text \<open>Cleaned segments are proper: no empty ones, no dots, and two dots at the front of relative paths only.\<close>

definition clean_segments :: "bool \<Rightarrow> string list \<Rightarrow> bool" where
  "clean_segments rooted segs \<longleftrightarrow>
     (\<exists>n rest. segs = replicate n ''..'' @ rest \<and> (rooted \<longrightarrow> n = 0) \<and> list_all (\<lambda>s. s \<noteq> [] \<and> s \<noteq> ''.'' \<and> s \<noteq> ''..'') rest)"

lemma clean_segments_step: "clean_segments rooted acc \<Longrightarrow> clean_segments rooted (clean_segment rooted acc seg)"
proof -
  assume "clean_segments rooted acc"
  then obtain n rest where acc: "acc = replicate n ''..'' @ rest" "rooted \<longrightarrow> n = 0"
    "list_all (\<lambda>s. s \<noteq> [] \<and> s \<noteq> ''.'' \<and> s \<noteq> ''..'') rest"
    unfolding clean_segments_def by blast
  show ?thesis
  proof (cases "seg = [] \<or> seg = ''.''")
    case True
    then show ?thesis using acc unfolding clean_segments_def clean_segment_def by auto
  next
    case proper: False
    show ?thesis
    proof (cases "seg = ''..''")
      case False
      then have "clean_segment rooted acc seg = replicate n ''..'' @ (rest @ [seg])" "list_all (\<lambda>s. s \<noteq> [] \<and> s \<noteq> ''.'' \<and> s \<noteq> ''..'') (rest @ [seg])"
        using proper acc by (simp_all add: clean_segment_def)
      then show ?thesis unfolding clean_segments_def using acc(2) by blast
    next
      case True
      show ?thesis
      proof (cases rest rule: rev_cases)
        case Nil
        then have "last acc = ''..''" if "acc \<noteq> []" using that acc(1) by (cases n) auto
        then have "clean_segment rooted acc seg = (if rooted then acc else acc @ [''..''])"
          using True by (auto simp: clean_segment_def)
        also have "\<dots> = replicate (if rooted then n else Suc n) ''..'' @ []"
          using acc(1) Nil by (simp add: replicate_append_same)
        finally show ?thesis unfolding clean_segments_def using acc(2) by (intro exI [of _ "if rooted then n else Suc n"] exI [of _ "[]"]) simp
      next
        case (snoc ys y)
        then have "y \<noteq> ''..''" "list_all (\<lambda>s. s \<noteq> [] \<and> s \<noteq> ''.'' \<and> s \<noteq> ''..'') ys" using acc(3) by auto
        moreover have "clean_segment rooted acc seg = replicate n ''..'' @ ys"
          using True calculation(1) acc(1) snoc by (simp add: clean_segment_def butlast_append)
        ultimately show ?thesis unfolding clean_segments_def using acc(2) by blast
      qed
    qed
  qed
qed

lemma clean_segments_foldl: "clean_segments rooted acc \<Longrightarrow> clean_segments rooted (foldl (clean_segment rooted) acc segs)"
  by (induction segs arbitrary: acc) (simp_all add: clean_segments_step)

end
