(* ===== verification/Repository_Files.thy ===== *)
theory Repository_Files
  imports Rule_Loop Config_Loader
begin

section \<open>Repository files\<close>

text \<open>
  \<^verbatim>\<open>internal/governance/repositoryfiles.go\<close> (order 15): declared files are compared with those of a branch
  and committed to it, proposed in a merge request, or only reported. \<open>load\<close> is the loader of
  \<^verbatim>\<open>content_file\<close> and \<open>lookup\<close> the environment of the process. The log messages are left out.
\<close>

definition files_name :: string where
  "files_name = ''repository_files''"

definition files_policy :: "policy_config option \<Rightarrow> repository_file_config list" where
  "files_policy cfg = (case cfg of None \<Rightarrow> [] | Some c \<Rightarrow> pol_RepositoryFiles (cfg_Policies c))"

subsection \<open>Content\<close>

abbreviation lf :: string where
  "lf \<equiv> [CHR 0x0A]"

definition normalizeContent :: "string \<Rightarrow> string" where
  "normalizeContent s =
     (let t = TrimRight (ReplaceAll (ReplaceAll s [CHR 0x0D, CHR 0x0A] lf) [CHR 0x0D] lf) lf
      in if t \<noteq> [] then t @ lf else t)"

text \<open>The dash of the banner is U+2014, in UTF-8.\<close>

definition banner :: string where
  "banner = ''Auto-managed by gitlab-fleet-governor''"

definition do_not_edit :: string where
  "do_not_edit = banner @ '' '' @ [CHR 0xE2, CHR 0x80, CHR 0x94] @ '' do not edit manually''"

definition managed_header :: "string \<Rightarrow> string" where
  "managed_header ext =
     (if ext \<in> {''.md'', ''.html''} then ''<!-- '' @ do_not_edit @ '' -->'' @ lf
      else if ext \<in> {''.go'', ''.js'', ''.ts'', ''.java'', ''.c'', ''.cpp'', ''.rs''} then
        ''// Enterprise policy'' @ lf @ ''// '' @ do_not_edit @ lf
      else ''# Enterprise policy'' @ lf @ ''# '' @ do_not_edit @ lf)"

definition attachManagedHeader :: "string \<Rightarrow> string \<Rightarrow> string" where
  "attachManagedHeader filePath content =
     (if Contains content banner then content
      else
        (let ext = ToLower (path_Ext filePath) in
         if ext = ''.json'' then content
         else if HasPrefix content ''#!'' then
           (let lines = Split content CHR 0x0A
            in hd lines @ lf @ managed_header ext @ Join (tl lines) lf)
         else managed_header ext @ content))"

fun collapse_dashes :: "string \<Rightarrow> string" where
  "collapse_dashes (c # d # s) =
     (if c = CHR ''-'' \<and> d = CHR ''-'' then collapse_dashes (d # s) else c # collapse_dashes (d # s))"
| "collapse_dashes s = s"

definition slugifyPath :: "string \<Rightarrow> string" where
  "slugifyPath p =
     collapse_dashes
       (Trim (map (\<lambda>c. let n = (of_char c :: nat) in if (97 \<le> n \<and> n \<le> 122) \<or> (48 \<le> n \<and> n \<le> 57) then c else CHR ''-'')
                (ToLower (TrimPrefix p ''.''))) ''-'')"

definition summarizeSnippet :: "string \<Rightarrow> string" where
  "summarizeSnippet s =
     (let lines = Split s CHR 0x0A in
      if length lines \<le> 5 then s
      else Join (take 5 lines) lf @ lf @ ''... ('' @ fmt_d (int (length lines)) @ '' total lines)'')"

subsection \<open>Drift\<close>

text \<open>\<open>Inr None\<close>: every line that must be there is.\<close>

definition desired_raw ::
  "(string \<Rightarrow> string go_result) \<Rightarrow> repository_file_config \<Rightarrow> string \<Rightarrow> bool \<Rightarrow> string option go_result" where
  "desired_raw load f existing fileExists =
     (if rf_Content f \<noteq> [] then Inr (Some (rf_Content f))
      else if rf_ContentFile f \<noteq> [] then
        (case load (rf_ContentFile f) of
           Inl e \<Rightarrow> Inl (Wrapf (''failed to load content_file '' @ squote (rf_ContentFile f)) e)
         | Inr data \<Rightarrow> Inr (Some data))
      else if rf_EnsureContains f \<noteq> [] then
        (if \<not> fileExists then Inr (Some (Join (rf_EnsureContains f) lf @ lf))
         else
           (let missing = filter (\<lambda>check. \<not> Contains (normalizeContent existing) (ReplaceAll check [CHR 0x0D, CHR 0x0A] lf))
                            (rf_EnsureContains f) in
            if missing = [] then Inr None
            else Inr (Some ((if \<not> HasSuffix existing lf \<and> existing \<noteq> [] then existing @ lf else existing) @ Join missing lf @ lf))))
      else Inr (Some []))"

definition calculateFileDrift ::
  "(string \<Rightarrow> string go_result) \<Rightarrow> env_lookup \<Rightarrow> repository_file_config \<Rightarrow> string \<Rightarrow> bool \<Rightarrow> string
   \<Rightarrow> (string \<times> bool \<times> action_type) go_result" where
  "calculateFileDrift load lookup f existing fileExists enforcement =
     (case desired_raw load f existing fileExists of
        Inl e \<Rightarrow> Inl e
      | Inr None \<Rightarrow> Inr (existing, False, ActionNoop)
      | Inr (Some raw) \<Rightarrow>
          (case ExpandEnvWithLookup lookup raw of
             Inl e \<Rightarrow> Inl (Wrapf ''failed to expand env vars in file content'' e)
           | Inr expanded \<Rightarrow>
               (let headed = (if enforcement = ''direct_commit'' \<and> (rf_Content f \<noteq> [] \<or> rf_ContentFile f \<noteq> [])
                              then attachManagedHeader (rf_Path f) expanded else expanded);
                    desired = normalizeContent headed in
                if \<not> fileExists then Inr (desired, True, ActionCreate)
                else if normalizeContent existing = desired then Inr (existing, False, ActionNoop)
                else Inr (desired, True, ActionUpdate))))"

subsection \<open>What a declared file is about\<close>

definition file_path :: "repository_file_config \<Rightarrow> string" where
  "file_path f = TrimPrefix (path_Clean (ReplaceAll (rf_Path f) [CHR 0x5C] ''/'')) ''/''"

definition target_branch :: "gl_project \<Rightarrow> repository_file_config \<Rightarrow> string" where
  "target_branch project f =
     (if rf_TargetBranch f \<noteq> [] then rf_TargetBranch f
      else if p_DefaultBranch project \<noteq> [] then p_DefaultBranch project else ''main'')"

definition enforcement_of :: "repository_file_config \<Rightarrow> string" where
  "enforcement_of f = (let e = ToLower (rf_Enforcement f) in if e = [] then ''direct_commit'' else e)"

definition feature_branch :: "repository_file_config \<Rightarrow> string" where
  "feature_branch f = ''governance/sync-'' @ slugifyPath (file_path f)"

text \<open>A missing file is no error.\<close>

definition fetchFileContent :: "'s gitlab_client \<Rightarrow> int \<Rightarrow> string \<Rightarrow> string \<Rightarrow> 's \<Rightarrow> string option go_result \<times> 's" where
  "fetchFileContent client pid path ref s =
     (case GetRawFile (cl_RepositoryFiles client) pid path ref s of
        (Inr raw, s') \<Rightarrow> (Inr (Some raw), s')
      | (Inl (e, status), s') \<Rightarrow>
          (if status = Some 404 \<or> Contains (err_msg e) ''404'' then (Inr None, s') else (Inl e, s')))"

definition isForbidden :: "http_error \<Rightarrow> bool" where
  "isForbidden e \<longleftrightarrow> snd e = Some 403 \<or> Contains (err_msg (fst e)) ''403'' \<or> Contains (ToLower (err_msg (fst e))) ''forbidden''"

text \<open>The content and whether the file exists, as the code keeps them.\<close>

definition content_of :: "string option \<Rightarrow> string" where
  "content_of c = (case c of None \<Rightarrow> [] | Some s \<Rightarrow> s)"

definition content_diff :: "string \<Rightarrow> action_type \<Rightarrow> string option \<Rightarrow> string \<Rightarrow> diff" where
  "content_diff target a old desired =
     Build target a
       (AddField ''content'' (case old of None \<Rightarrow> VNil | Some c \<Rightarrow> VStr (summarizeSnippet c)) (VStr (summarizeSnippet desired)) a NewDiffBuilder)"

text \<open>A diff of the file itself: a creation where it does not exist, otherwise an update.\<close>

definition file_diff :: "string \<Rightarrow> string option \<Rightarrow> string \<Rightarrow> action_type \<times> diff" where
  "file_diff target old desired =
     (let a = (if old = None then ActionCreate else ActionUpdate) in (a, content_diff target a old desired))"

definition file_id :: "repository_file_config \<Rightarrow> string" where
  "file_id f = ''file:'' @ file_path f"

definition file_mr_id :: "repository_file_config \<Rightarrow> gl_merge_request \<Rightarrow> string" where
  "file_mr_id f mr = file_id f @ '' (MR !'' @ fmt_d (gmr_IID mr) @ '')''"

definition open_requests ::
  "'s gitlab_client \<Rightarrow> gl_project \<Rightarrow> repository_file_config \<Rightarrow> 's \<Rightarrow> gl_merge_request list go_result \<times> 's" where
  "open_requests client project f s =
     ListProjectMergeRequests (cl_MergeRequests client) (p_ID project) (feature_branch f) (target_branch project f) ''opened'' s"

definition list_failed :: "repository_file_config \<Rightarrow> go_error \<Rightarrow> go_error" where
  "list_failed f e = Wrapf (''failed to list merge requests for branch '' @ feature_branch f) e"

definition fetch_failed :: "repository_file_config \<Rightarrow> go_error \<Rightarrow> go_error" where
  "fetch_failed f e = Wrapf (''failed to fetch raw file '' @ file_path f @ '' on feature branch '' @ feature_branch f) e"

subsection \<open>Plan\<close>

definition plan_file ::
  "(string \<Rightarrow> string go_result) \<Rightarrow> env_lookup \<Rightarrow> 's gitlab_client \<Rightarrow> gl_project \<Rightarrow> repository_file_config \<Rightarrow> 's \<Rightarrow> rule_outcome \<times> 's" where
  "plan_file load lookup client project f s =
     (let fail = (\<lambda>e. RuleFailed ActionNoop [] e e); pid = p_ID project; path = file_path f in
      case fetchFileContent client pid path (target_branch project f) s of
        (Inl e, s1) \<Rightarrow> (fail (Wrapf (''failed to fetch raw file '' @ path @ '' on branch '' @ target_branch project f) e), s1)
      | (Inr old, s1) \<Rightarrow>
          (case calculateFileDrift load lookup f (content_of old) (old \<noteq> None) (enforcement_of f) of
             Inl e \<Rightarrow> (fail (Wrapf (''failed to calculate drift for file '' @ path) e), s1)
           | Inr (desired, False, a) \<Rightarrow> (RuleKept, s1)
           | Inr (desired, True, a) \<Rightarrow>
               (let direct = (case file_diff (file_id f) old desired of (a', d) \<Rightarrow> RuleChanged a' d) in
                if enforcement_of f = ''merge_request'' then
                  (case open_requests client project f s1 of
                     (Inl e, s2) \<Rightarrow> (fail (list_failed f e), s2)
                   | (Inr [], s2) \<Rightarrow> (direct, s2)
                   | (Inr (mr # mrs), s2) \<Rightarrow>
                       (case fetchFileContent client pid path (feature_branch f) s2 of
                          (Inl e, s3) \<Rightarrow> (fail (fetch_failed f e), s3)
                        | (Inr feat, s3) \<Rightarrow>
                            if feat \<noteq> None \<and> normalizeContent (content_of feat) = normalizeContent desired then (RuleKept, s3)
                            else (RuleChanged ActionUpdate (snd (file_diff (file_mr_id f mr) feat desired)), s3)))
                else (direct, s1))))"

definition RepositoryFiles_Plan ::
  "(string \<Rightarrow> string go_result) \<Rightarrow> env_lookup \<Rightarrow> 's gitlab_client \<Rightarrow> gl_project \<Rightarrow> policy_config option \<Rightarrow> 's plan_fun" where
  "RepositoryFiles_Plan load lookup client project cfg s =
     (let r = project_resource project in
      if files_policy cfg = [] then (Inr (noop_plan files_name r), s)
      else (case each_rule (plan_file load lookup client project) (files_policy cfg) ([], ActionNoop) s of
              (out, s') \<Rightarrow> (plan_result_of files_name r out, s')))"

subsection \<open>Apply\<close>

text \<open>
  A failure while reading drops what was applied so far from the result; a later one keeps it, adds the
  diffs of the file and, once the file is committed, its action.
\<close>

datatype sync_outcome =
    SyncKept
  | SyncChanged action_type diff
  | SyncUnread go_error
  | SyncFailed "action_type option" "diff list" go_error go_error

fun sync_files ::
  "(repository_file_config \<Rightarrow> 's \<Rightarrow> sync_outcome \<times> 's) \<Rightarrow> repository_file_config list \<Rightarrow> diff list \<times> action_type \<Rightarrow> 's \<Rightarrow> loop_result \<times> 's" where
  "sync_files step [] acc s = (Inr acc, s)"
| "sync_files step (f # fs) acc s =
     (case step f s of
        (SyncKept, s') \<Rightarrow> sync_files step fs acc s'
      | (SyncChanged a d, s') \<Rightarrow> sync_files step fs (fst acc @ [d], note_action a (snd acc)) s'
      | (SyncUnread e, s') \<Rightarrow> (Inl (ActionNoop, [], e, e), s')
      | (SyncFailed a ds stored returned, s') \<Rightarrow>
          (Inl (case a of None \<Rightarrow> snd acc | Some a' \<Rightarrow> note_action a' (snd acc), fst acc @ ds, stored, returned), s'))"

definition commit_options :: "repository_file_config \<Rightarrow> string \<Rightarrow> string \<Rightarrow> file_options" where
  "commit_options f branch desired =
     \<lparr>fo_Branch = branch, fo_Content = desired, fo_CommitMessage = ''chore: sync '' @ file_path f @ '' to policy''\<rparr>"

text \<open>Creating the file where it does not exist, otherwise updating it.\<close>

definition commit_to ::
  "'s gitlab_client \<Rightarrow> gl_project \<Rightarrow> repository_file_config \<Rightarrow> string \<Rightarrow> string option \<Rightarrow> string \<Rightarrow> 's \<Rightarrow> http_error option \<times> 's" where
  "commit_to client project f branch old desired s =
     (if old = None then CreateFile (cl_RepositoryFiles client) (p_ID project) (file_path f) (commit_options f branch desired) s
      else UpdateFile (cl_RepositoryFiles client) (p_ID project) (file_path f) (commit_options f branch desired) s)"

definition commit_direct ::
  "'s gitlab_client \<Rightarrow> gl_project \<Rightarrow> repository_file_config \<Rightarrow> string option \<Rightarrow> string \<Rightarrow> action_type \<Rightarrow> 's \<Rightarrow> sync_outcome \<times> 's" where
  "commit_direct client project f old desired a s =
     (let branch = target_branch project f in
      case commit_to client project f branch old desired s of
        (Some e, s') \<Rightarrow>
          (if isForbidden e then
             (let err = Wrapf (''direct commit to branch '' @ branch @ '' failed with HTTP 403 Forbidden: push permissions are restricted; please use '' @
                          squote ''enforcement: merge_request'' @ '' for protected branches'') (fst e)
              in (SyncFailed None [] err err, s'))
           else (SyncFailed None []
                   (Wrapf ((if old = None then ''failed to create file '' else ''failed to update file '') @ file_path f @ '' on '' @ branch) (fst e))
                   (fst e), s'))
      | (None, s') \<Rightarrow> (SyncChanged a (snd (file_diff (file_id f) old desired)), s'))"

text \<open>\<open>commit_feature\<close> is the commit to the feature branch, the diff being reported even if it fails.\<close>

definition commit_feature ::
  "'s gitlab_client \<Rightarrow> gl_project \<Rightarrow> repository_file_config \<Rightarrow> string option \<Rightarrow> string \<Rightarrow> 's \<Rightarrow> (go_error \<times> go_error) option \<times> 's" where
  "commit_feature client project f feat desired s =
     (case commit_to client project f (feature_branch f) feat desired s of
        (None, s') \<Rightarrow> (None, s')
      | (Some e, s') \<Rightarrow>
          (Some (Wrapf ((if feat = None then ''failed to create file'' else ''failed to update file'') @ '' on feature branch '' @ feature_branch f) (fst e),
                 fst e), s'))"

definition mr_options :: "gl_project \<Rightarrow> repository_file_config \<Rightarrow> create_mr_options" where
  "mr_options project f =
     \<lparr>cmo_SourceBranch = feature_branch f, cmo_TargetBranch = target_branch project f,
      cmo_Title = (if rf_MRTitle f = [] then ''chore: sync '' @ file_path f @ '' to enterprise policy'' else rf_MRTitle f),
      cmo_Labels = (if rf_MRLabels f = [] then [''automated'', ''governance''] else rf_MRLabels f),
      cmo_Description = None, cmo_RemoveSourceBranch = None, cmo_Squash = None\<rparr>"

definition refresh_request ::
  "'s gitlab_client \<Rightarrow> gl_project \<Rightarrow> repository_file_config \<Rightarrow> gl_merge_request \<Rightarrow> string \<Rightarrow> 's \<Rightarrow> sync_outcome \<times> 's" where
  "refresh_request client project f mr desired s =
     (case fetchFileContent client (p_ID project) (file_path f) (feature_branch f) s of
        (Inl e, s1) \<Rightarrow> (SyncFailed None [] (fetch_failed f e) e, s1)
      | (Inr feat, s1) \<Rightarrow>
          if feat \<noteq> None \<and> normalizeContent (content_of feat) = normalizeContent desired then (SyncKept, s1)
          else
            (let d = snd (file_diff (file_mr_id f mr) feat desired) in
             case commit_feature client project f feat desired s1 of
               (Some (stored, returned), s2) \<Rightarrow> (SyncFailed None [d] stored returned, s2)
             | (None, s2) \<Rightarrow> (SyncChanged ActionUpdate d, s2)))"

definition ensure_branch ::
  "'s gitlab_client \<Rightarrow> gl_project \<Rightarrow> repository_file_config \<Rightarrow> 's \<Rightarrow> go_error option \<times> 's" where
  "ensure_branch client project f s =
     (case GetBranch (cl_Branches client) (p_ID project) (feature_branch f) s of
        (Inr b, s1) \<Rightarrow> (None, s1)
      | (Inl e, s1) \<Rightarrow> CreateBranch (cl_Branches client) (p_ID project) (feature_branch f) (target_branch project f) s1)"

text \<open>The commit of a new proposal; where the feature branch is up to date already only the request is opened.\<close>

definition propose_commit ::
  "'s gitlab_client \<Rightarrow> gl_project \<Rightarrow> repository_file_config \<Rightarrow> string option \<Rightarrow> string option \<Rightarrow> string \<Rightarrow> 's
   \<Rightarrow> (diff \<times> (go_error \<times> go_error) option) \<times> 's" where
  "propose_commit client project f old feat desired s =
     (if feat \<noteq> None \<and> normalizeContent (content_of feat) = normalizeContent desired then
        ((content_diff (file_id f @ '' (MR)'') ActionCreate (Some (content_of old)) desired, None), s)
      else (case commit_feature client project f feat desired s of
              (e, s') \<Rightarrow> ((snd (file_diff (file_id f) feat desired), e), s')))"

definition open_proposal ::
  "'s gitlab_client \<Rightarrow> gl_project \<Rightarrow> repository_file_config \<Rightarrow> action_type \<Rightarrow> diff \<Rightarrow> 's \<Rightarrow> sync_outcome \<times> 's" where
  "open_proposal client project f a d s =
     (case CreateMergeRequest (cl_MergeRequests client) (p_ID project) (mr_options project f) s of
        (Inl e, s1) \<Rightarrow> (SyncFailed (Some a) [d] (Wrapf (''failed to create merge request for '' @ file_path f) e) e, s1)
      | (Inr mr, s1) \<Rightarrow>
          if rf_AutoMerge f = Some True then
            (case AcceptMergeRequest (cl_MergeRequests client) (p_ID project) (gmr_IID mr)
                    \<lparr>amo_MergeWhenPipelineSucceeds = Some True, amo_ShouldRemoveSourceBranch = Some True, amo_Squash = None\<rparr> s1 of
               (_, s2) \<Rightarrow> (SyncChanged a d, s2))
          else (SyncChanged a d, s1))"

definition propose_file ::
  "'s gitlab_client \<Rightarrow> gl_project \<Rightarrow> repository_file_config \<Rightarrow> string option \<Rightarrow> string \<Rightarrow> action_type \<Rightarrow> 's \<Rightarrow> sync_outcome \<times> 's" where
  "propose_file client project f old desired a s =
     (case ensure_branch client project f s of
        (Some e, s1) \<Rightarrow> (SyncFailed None [] (Wrapf (''failed to create feature branch '' @ feature_branch f) e) e, s1)
      | (None, s1) \<Rightarrow>
          (case fetchFileContent client (p_ID project) (file_path f) (feature_branch f) s1 of
             (Inl e, s2) \<Rightarrow> (SyncFailed None [] (fetch_failed f e) e, s2)
           | (Inr feat, s2) \<Rightarrow>
               (case propose_commit client project f old feat desired s2 of
                  ((d, Some (stored, returned)), s3) \<Rightarrow> (SyncFailed None [d] stored returned, s3)
                | ((d, None), s3) \<Rightarrow> open_proposal client project f a d s3)))"

definition sync_file ::
  "(string \<Rightarrow> string go_result) \<Rightarrow> env_lookup \<Rightarrow> 's gitlab_client \<Rightarrow> gl_project \<Rightarrow> repository_file_config \<Rightarrow> 's \<Rightarrow> sync_outcome \<times> 's" where
  "sync_file load lookup client project f s =
     (case fetchFileContent client (p_ID project) (file_path f) (target_branch project f) s of
        (Inl e, s1) \<Rightarrow> (SyncUnread e, s1)
      | (Inr old, s1) \<Rightarrow>
          (case calculateFileDrift load lookup f (content_of old) (old \<noteq> None) (enforcement_of f) of
             Inl e \<Rightarrow> (SyncUnread e, s1)
           | Inr (desired, False, a) \<Rightarrow> (SyncKept, s1)
           | Inr (desired, True, a) \<Rightarrow>
               if enforcement_of f = ''audit_only'' then (SyncChanged a (snd (file_diff (file_id f) old desired)), s1)
               else if enforcement_of f = ''direct_commit'' then commit_direct client project f old desired a s1
               else if enforcement_of f = ''merge_request'' then
                 (case open_requests client project f s1 of
                    (Inl e, s2) \<Rightarrow> (SyncFailed None [] (list_failed f e) e, s2)
                  | (Inr (mr # mrs), s2) \<Rightarrow> refresh_request client project f mr desired s2
                  | (Inr [], s2) \<Rightarrow> propose_file client project f old desired a s2)
               else (SyncKept, s1)))"

definition RepositoryFiles_Apply ::
  "(string \<Rightarrow> string go_result) \<Rightarrow> env_lookup \<Rightarrow> 's gitlab_client \<Rightarrow> gl_project \<Rightarrow> policy_config option \<Rightarrow> 's apply_fun" where
  "RepositoryFiles_Apply load lookup client project cfg s =
     (let r = project_resource project in
      if files_policy cfg = [] then (noop_apply files_name r, s)
      else (case sync_files (sync_file load lookup client project) (files_policy cfg) ([], ActionNoop) s of
              (out, s') \<Rightarrow> (apply_result_of files_name r out, s')))"

definition RepositoryFiles_PlanGroup :: "gl_group \<Rightarrow> 's plan_fun" where
  "RepositoryFiles_PlanGroup g s =
     (Inr (skipped_plan files_name (group_resource g) ''Repository files governance is not applicable to groups''), s)"

definition RepositoryFiles_ApplyGroup :: "gl_group \<Rightarrow> 's apply_fun" where
  "RepositoryFiles_ApplyGroup g s =
     (skipped_apply files_name (group_resource g) ''Repository files governance is not applicable to groups'', s)"


subsection \<open>Facts about contents\<close>

lemma ReplaceAll_absent: "c \<notin> set s \<Longrightarrow> c \<in> set old \<Longrightarrow> ReplaceAll s old new = s"
proof (induction s)
  case (Cons x s)
  have "\<not> HasPrefix (x # s) old" using Cons.prems unfolding HasPrefix_def by (metis in_set_takeD)
  with Cons show ?case by simp
qed simp

lemma ReplaceAll_removes: "c \<notin> set new \<Longrightarrow> c \<notin> set (ReplaceAll s [c] new)"
  by (induction s "[c]" new rule: ReplaceAll.induct) (auto simp: HasPrefix_def)

lemma TrimRight_append: "set cs \<subseteq> set cutset \<Longrightarrow> TrimRight (s @ cs) cutset = TrimRight s cutset"
  by (simp add: TrimRight_def dropWhile_append1 dropWhile_append subset_iff)

lemma TrimRight_idem [simp]: "TrimRight (TrimRight s cutset) cutset = TrimRight s cutset"
  by (simp add: TrimRight_def)

lemma set_TrimRight: "set (TrimRight s cutset) \<subseteq> set s"
  by (auto simp: TrimRight_def dest: set_dropWhileD)

text \<open>Normal contents have no carriage return and end in one line feed.\<close>

lemma normalizeContent_no_cr: "CHR 0x0D \<notin> set (normalizeContent s)"
  using ReplaceAll_removes [of "CHR 0x0D" lf "ReplaceAll s [CHR 0x0D, CHR 0x0A] lf"]
    set_TrimRight [of "ReplaceAll (ReplaceAll s [CHR 0x0D, CHR 0x0A] lf) [CHR 0x0D] lf" lf]
  by (auto simp: normalizeContent_def Let_def)

lemma normalizeContent_idem [simp]: "normalizeContent (normalizeContent s) = normalizeContent s"
proof -
  define n where "n = normalizeContent s"
  define t where "t = TrimRight (ReplaceAll (ReplaceAll s [CHR 0x0D, CHR 0x0A] lf) [CHR 0x0D] lf) lf"
  have n: "n = (if t \<noteq> [] then t @ lf else t)" by (simp add: n_def t_def normalizeContent_def Let_def)
  have "CHR 0x0D \<notin> set n" by (simp add: n_def normalizeContent_no_cr)
  then have same: "ReplaceAll (ReplaceAll n [CHR 0x0D, CHR 0x0A] lf) [CHR 0x0D] lf = n"
    by (simp add: ReplaceAll_absent [of "CHR 0x0D"])
  have trim: "TrimRight n lf = t" unfolding n using TrimRight_append [of lf lf t] by (simp add: t_def TrimRight_def)
  have "normalizeContent n = n" by (simp only: normalizeContent_def [of n] same trim Let_def n [symmetric])
  then show ?thesis by (simp add: n_def)
qed

lemma TrimRight_prefix: "prefix (TrimRight s cutset) s"
  unfolding TrimRight_def prefix_def
  by (metis rev_append rev_rev_ident takeWhile_dropWhile_id)

text \<open>A file whose whole content is declared, and the text it is to hold.\<close>

definition full :: "repository_file_config \<Rightarrow> bool" where
  "full f \<longleftrightarrow> rf_Content f \<noteq> [] \<or> rf_ContentFile f \<noteq> []"

definition declared_text :: "(string \<Rightarrow> string go_result) \<Rightarrow> env_lookup \<Rightarrow> repository_file_config \<Rightarrow> string option" where
  "declared_text load lookup f =
     (case (if rf_Content f \<noteq> [] then Inr (rf_Content f) else load (rf_ContentFile f)) of
        Inl e \<Rightarrow> None
      | Inr raw \<Rightarrow>
          (case ExpandEnvWithLookup lookup raw of
             Inl e \<Rightarrow> None
           | Inr text \<Rightarrow>
               Some (normalizeContent (if enforcement_of f = ''direct_commit'' then attachManagedHeader (rf_Path f) text else text))))"

lemma drift_of_full:
  assumes "full f" and "declared_text load lookup f = Some d"
  shows "calculateFileDrift load lookup f (content_of old) (old \<noteq> None) (enforcement_of f) =
    (if old \<noteq> None \<and> normalizeContent (content_of old) = d then Inr (content_of old, False, ActionNoop)
     else Inr (d, True, if old = None then ActionCreate else ActionUpdate))"
  using assms
  by (auto simp: full_def declared_text_def calculateFileDrift_def desired_raw_def Let_def split: sum.splits if_splits)

subsection \<open>On the mock server\<close>

abbreviation file_at :: "mock_state \<Rightarrow> int \<Rightarrow> string \<Rightarrow> string \<Rightarrow> string option" where
  "file_at st i branch path \<equiv> go_get (files_of i branch st) path"

lemma file_at_put [simp]:
  "file_at (put_file i branch path c st) i' branch' path' =
     (if i' = i \<and> branch' = branch \<and> path' = path then Some c else file_at st i' branch' path')"
  by (simp add: files_of_def put_file_def)

definition pushable :: "int \<Rightarrow> string \<Rightarrow> mock_state \<Rightarrow> bool" where
  "pushable i branch st \<longleftrightarrow> \<not> push_refused (go_get (inner (ms_protectedBranches st) i) branch)"

lemma pushable_put [simp]: "pushable i' branch' (put_file i branch path c st) = pushable i' branch' st"
  by (simp add: pushable_def put_file_def)

lemma fetch_mock:
  assumes "in_int64 pid" and "ref \<noteq> []"
  shows "fetchFileContent (mock_client err) pid path ref st = (Inr (file_at st pid ref path), st)"
  using assms by (auto simp: fetchFileContent_def mock_files_def State_GetRawFile_def resolve_project_number split: option.splits)

lemma commit_mock:
  assumes "in_int64 (p_ID project)" and "branch \<noteq> []" and "pushable (p_ID project) branch st"
  shows "commit_to (mock_client err) project f branch old desired st =
    (None, put_file (p_ID project) branch (file_path f) desired st)"
  using assms
  by (simp add: commit_to_def mock_files_def commit_file_def commit_options_def SetFile_def resolve_project_number
      GetProtectedBranch_def pushable_def)

lemma branch_names [simp]: "target_branch project f \<noteq> []" "feature_branch f \<noteq> []"
  by (simp_all add: target_branch_def feature_branch_def)

text \<open>The place of a declared file, and whether it holds what it is to hold.\<close>

definition place_of :: "gl_project \<Rightarrow> repository_file_config \<Rightarrow> string \<times> string" where
  "place_of project f = (target_branch project f, file_path f)"

abbreviation at_place :: "gl_project \<Rightarrow> mock_state \<Rightarrow> string \<times> string \<Rightarrow> string option" where
  "at_place project st k \<equiv> file_at st (p_ID project) (fst k) (snd k)"

definition in_sync :: "string option \<Rightarrow> string option \<Rightarrow> bool" where
  "in_sync text c \<longleftrightarrow> text \<noteq> None \<and> map_option normalizeContent c = text"

lemma in_sync_text: "declared_text load lookup f = Some d \<Longrightarrow> in_sync (Some d) (Some d)"
  by (auto simp: in_sync_def declared_text_def split: sum.splits if_splits)

text \<open>One file that is committed directly.\<close>

definition direct :: "(string \<Rightarrow> string go_result) \<Rightarrow> env_lookup \<Rightarrow> gl_project \<Rightarrow> repository_file_config \<Rightarrow> mock_state \<Rightarrow> bool" where
  "direct load lookup project f st \<longleftrightarrow> full f \<and> enforcement_of f = ''direct_commit''
     \<and> declared_text load lookup f \<noteq> None \<and> pushable (p_ID project) (target_branch project f) st"

lemma direct_put [simp]: "direct load lookup project f (put_file i branch path c st) = direct load lookup project f st"
  by (simp add: direct_def)

lemma sync_direct:
  assumes "in_int64 (p_ID project)" and "direct load lookup project f st" and decl: "declared_text load lookup f = Some d"
  shows "sync_file load lookup (mock_client err) project f st =
    (let old = at_place project st (place_of project f) in
     if in_sync (Some d) old then (SyncKept, st)
     else (SyncChanged (if old = None then ActionCreate else ActionUpdate) (snd (file_diff (file_id f) old d)),
           put_file (p_ID project) (target_branch project f) (file_path f) d st))"
proof -
  let ?old = "at_place project st (place_of project f)"
  have "\<not> in_sync (Some d) ?old \<longleftrightarrow> \<not> (?old \<noteq> None \<and> normalizeContent (content_of ?old) = d)"
    by (cases ?old) (auto simp: in_sync_def content_of_def)
  moreover have "full f" "enforcement_of f = ''direct_commit''" "pushable (p_ID project) (target_branch project f) st"
    using assms(2) by (simp_all add: direct_def)
  moreover have "fetchFileContent (mock_client err) (p_ID project) (file_path f) (target_branch project f) st = (Inr ?old, st)"
    by (simp add: fetch_mock [OF assms(1)] place_of_def)
  moreover have "commit_to (mock_client err) project f (target_branch project f) old d st =
      (None, put_file (p_ID project) (target_branch project f) (file_path f) d st)" for old
    by (rule commit_mock [OF assms(1) branch_names(1) calculation(4)])
  ultimately show ?thesis
    using drift_of_full [OF _ decl, of ?old] by (simp add: sync_file_def commit_direct_def Let_def)
qed

lemma plan_direct:
  assumes "in_int64 (p_ID project)" and "direct load lookup project f st" and decl: "declared_text load lookup f = Some d"
  shows "\<exists>out. plan_file load lookup (mock_client err) project f st = (out, st)
    \<and> (out = RuleKept \<longleftrightarrow> in_sync (Some d) (at_place project st (place_of project f)))"
proof -
  let ?old = "at_place project st (place_of project f)"
  have sync: "\<not> in_sync (Some d) ?old \<longleftrightarrow> \<not> (?old \<noteq> None \<and> normalizeContent (content_of ?old) = d)"
    by (cases ?old) (auto simp: in_sync_def content_of_def)
  have facts: "full f" "enforcement_of f = ''direct_commit''" using assms(2) by (simp_all add: direct_def)
  have fetch: "fetchFileContent (mock_client err) (p_ID project) (file_path f) (target_branch project f) st = (Inr ?old, st)"
    by (simp add: fetch_mock [OF assms(1)] place_of_def)
  note drift = drift_of_full [OF facts(1) decl, of ?old]
  show ?thesis
    by (cases "in_sync (Some d) ?old")
      (use drift sync facts in \<open>auto simp: plan_file_def fetch Let_def split: prod.splits\<close>)
qed


text \<open>Only the files of the repository change, and only those of the listed places.\<close>

definition files_step :: "gl_project \<Rightarrow> (string \<times> string) set \<Rightarrow> mock_state \<Rightarrow> mock_state \<Rightarrow> bool" where
  "files_step project ks st st' \<longleftrightarrow> (\<exists>r. st' = st\<lparr>ms_repositoryFiles := r\<rparr>)
     \<and> (\<forall>i b path. i \<noteq> p_ID project \<or> (b, path) \<notin> ks \<longrightarrow> file_at st' i b path = file_at st i b path)"

lemma files_step_refl: "files_step project ks st st"
  unfolding files_step_def by (intro conjI exI [of _ "ms_repositoryFiles st"]) auto

lemma files_step_put:
  assumes "files_step project ks (put_file (p_ID project) (fst k) (snd k) c st) st'"
  shows "files_step project (insert k ks) st st'"
proof -
  obtain r where r: "st' = (put_file (p_ID project) (fst k) (snd k) c st)\<lparr>ms_repositoryFiles := r\<rparr>"
    using assms unfolding files_step_def by blast
  have "st' = st\<lparr>ms_repositoryFiles := r\<rparr>" by (simp add: r put_file_def)
  moreover have "file_at st' i b path = file_at st i b path" if "i \<noteq> p_ID project \<or> (b, path) \<notin> insert k ks" for i b path
    using assms that unfolding files_step_def by (cases k) auto
  ultimately show ?thesis unfolding files_step_def by blast
qed

lemma files_step_mono: "files_step project ks st st' \<Longrightarrow> ks \<subseteq> ks' \<Longrightarrow> files_step project ks' st st'"
  unfolding files_step_def by blast

lemma sync_loop:
  assumes "in_int64 (p_ID project)"
  shows "\<forall>f \<in> set fs. direct load lookup project f st \<Longrightarrow> distinct (map (place_of project) fs) \<Longrightarrow>
    \<exists>acc' st'. sync_files (sync_file load lookup (mock_client err) project) fs acc st = (Inr acc', st')
      \<and> files_step project (place_of project ` set fs) st st'
      \<and> (\<forall>f \<in> set fs. in_sync (declared_text load lookup f) (at_place project st' (place_of project f)))
      \<and> ((\<forall>f \<in> set fs. in_sync (declared_text load lookup f) (at_place project st (place_of project f))) \<longrightarrow> st' = st \<and> acc' = acc)"
proof (induction fs arbitrary: acc st)
  case Nil
  then show ?case by (simp add: files_step_refl)
next
  case (Cons f fs)
  let ?step = "sync_file load lookup (mock_client err) project"
  let ?ok = "\<lambda>f st. in_sync (declared_text load lookup f) (at_place project st (place_of project f))"
  obtain d where d: "declared_text load lookup f = Some d" using Cons.prems(1) by (auto simp: direct_def)
  have direct: "direct load lookup project f st" using Cons.prems(1) by simp
  note step = sync_direct [OF assms direct d, of err, unfolded Let_def]
  show ?case
  proof (cases "?ok f st")
    case True
    then have kept: "?step f st = (SyncKept, st)" using step d by simp
    obtain acc' st' where IH: "sync_files ?step fs acc st = (Inr acc', st')" "files_step project (place_of project ` set fs) st st'"
      "\<forall>f \<in> set fs. ?ok f st'" "(\<forall>f \<in> set fs. ?ok f st) \<longrightarrow> st' = st \<and> acc' = acc"
      using Cons.IH [of st acc] Cons.prems by auto
    have "at_place project st' (place_of project f) = at_place project st (place_of project f)"
      using IH(2) Cons.prems(2) unfolding files_step_def by (cases "place_of project f") auto
    then show ?thesis using IH kept True files_step_mono [OF IH(2), of "place_of project ` set (f # fs)"] by auto
  next
    case False
    define st1 where "st1 = put_file (p_ID project) (target_branch project f) (file_path f) d st"
    obtain a x where changed: "?step f st = (SyncChanged a x, st1)" using step False d by (simp add: st1_def)
    obtain acc' st' where IH: "sync_files ?step fs (fst acc @ [x], note_action a (snd acc)) st1 = (Inr acc', st')"
      "files_step project (place_of project ` set fs) st1 st'" "\<forall>f \<in> set fs. ?ok f st'"
      using Cons.IH [of st1 "(fst acc @ [x], note_action a (snd acc))"] Cons.prems by (auto simp: st1_def)
    have "at_place project st' (place_of project f) = at_place project st1 (place_of project f)"
      using IH(2) Cons.prems(2) unfolding files_step_def by (cases "place_of project f") auto
    then have "?ok f st'" using d in_sync_text [OF d] by (simp add: st1_def place_of_def)
    moreover have "files_step project (place_of project ` set (f # fs)) st st'"
      using files_step_put [of project "place_of project ` set fs" "place_of project f" d st st'] IH(2)
      by (simp add: st1_def place_of_def)
    ultimately show ?thesis using IH(1,3) changed False by auto
  qed
qed

lemma plan_loop_in_sync:
  assumes "in_int64 (p_ID project)"
  shows "\<forall>f \<in> set fs. direct load lookup project f st
      \<and> in_sync (declared_text load lookup f) (at_place project st (place_of project f)) \<Longrightarrow>
    each_rule (plan_file load lookup (mock_client err) project) fs acc st = (Inr acc, st)"
proof (induction fs)
  case (Cons f fs)
  then obtain d where d: "declared_text load lookup f = Some d" by (auto simp: direct_def)
  have "direct load lookup project f st" using Cons.prems by simp
  from plan_direct [OF assms this d, of err] Cons d show ?case by auto
qed simp

lemma fetch_read_only: "\<exists>out. fetchFileContent (mock_client err) pid path ref st = (out, st)"
  by (cases "State_GetRawFile (fmt_d pid) path (if ref = [] then ''main'' else ref) st") (simp_all add: fetchFileContent_def mock_files_def)

lemma plan_file_read_only: "snd (plan_file load lookup (mock_client err) project f st) = st"
proof -
  obtain o1 o2 where o: "fetchFileContent (mock_client err) (p_ID project) (file_path f) (target_branch project f) st = (o1, st)"
    "fetchFileContent (mock_client err) (p_ID project) (file_path f) (feature_branch f) st = (o2, st)" using fetch_read_only by blast
  have "\<exists>mrs. open_requests (mock_client err) project f st = (Inr mrs, st)"
    by (simp add: open_requests_def mock_merge_requests_def)
  then obtain mrs where "open_requests (mock_client err) project f st = (Inr mrs, st)" by blast
  then show ?thesis using o
    by (auto simp: plan_file_def Let_def split: sum.splits prod.splits list.splits bool.splits)
qed

lemma RepositoryFiles_Plan_read_only: "snd (RepositoryFiles_Plan load lookup (mock_client err) project cfg st) = st"
proof -
  have "snd (each_rule (plan_file load lookup (mock_client err) project) fs acc s) = s" for fs acc s
  proof (induction fs arbitrary: acc s)
    case (Cons f fs)
    obtain out where "plan_file load lookup (mock_client err) project f s = (out, s)"
      using plan_file_read_only [of load lookup err project f s] by (metis prod.collapse)
    then show ?case using Cons.IH by (cases out) auto
  qed simp
  then show ?thesis by (simp add: RepositoryFiles_Plan_def Let_def case_prod_unfold)
qed

subsection \<open>Properties\<close>

text \<open>
  Property C12. Direct commits converge: on the mock server, where every declared file is to be committed directly with its
  whole content, loads and expands, has a place of its own and may be pushed, \<^verbatim>\<open>Apply\<close> succeeds and
  afterwards every file holds its declared text; no other file and nothing else of the server changes.
  Planning then finds nothing to do, and applying again is a no-op.
\<close>

theorem RepositoryFiles_Apply_converges:
  assumes id: "in_int64 (p_ID project)" and files: "\<forall>f \<in> set (files_policy cfg). direct load lookup project f st"
    and dist: "distinct (map (place_of project) (files_policy cfg))"
  shows "\<exists>res st'. RepositoryFiles_Apply load lookup (mock_client err) project cfg st = ((res, None), st')
    \<and> files_step project (place_of project ` set (files_policy cfg)) st st'
    \<and> (\<forall>f \<in> set (files_policy cfg). in_sync (declared_text load lookup f) (at_place project st' (place_of project f)))
    \<and> RepositoryFiles_Plan load lookup (mock_client err) project cfg st' = (Inr (noop_plan files_name (project_resource project)), st')
    \<and> RepositoryFiles_Apply load lookup (mock_client err) project cfg st' = (noop_apply files_name (project_resource project), st')"
proof (cases "files_policy cfg = []")
  case True
  then show ?thesis
    using apply_exists(1) [of files_name "project_resource project"]
    by (auto simp: RepositoryFiles_Apply_def RepositoryFiles_Plan_def Let_def files_step_refl)
next
  case False
  let ?fs = "files_policy cfg"
  let ?step = "sync_file load lookup (mock_client err) project"
  obtain acc' st' where run: "sync_files ?step ?fs ([], ActionNoop) st = (Inr acc', st')"
    and step: "files_step project (place_of project ` set ?fs) st st'"
    and sync: "\<forall>f \<in> set ?fs. in_sync (declared_text load lookup f) (at_place project st' (place_of project f))"
    using sync_loop [OF id files dist, of err "([], ActionNoop)"] by blast
  have files': "\<forall>f \<in> set ?fs. direct load lookup project f st'"
    using files step unfolding files_step_def direct_def pushable_def by auto
  then have again: "sync_files ?step ?fs ([], ActionNoop) st' = (Inr ([], ActionNoop), st')"
    using sync_loop [OF id files' dist, of err "([], ActionNoop)"] sync by blast
  have plan: "each_rule (plan_file load lookup (mock_client err) project) ?fs ([], ActionNoop) st' = (Inr ([], ActionNoop), st')"
    using plan_loop_in_sync [OF id] files' sync by blast
  have "\<exists>res. apply_result_of files_name (project_resource project) (Inr acc') = (res, None)"
    by (cases acc') (simp add: apply_result_of_def)
  then show ?thesis using False run step sync again plan
    by (auto simp: RepositoryFiles_Apply_def RepositoryFiles_Plan_def Let_def apply_result_of_def plan_result_of_def plan_of_diffs_def)
qed


text \<open>What a file that is only audited is to report, given the content of its place.\<close>

definition audit_report ::
  "(string \<Rightarrow> string go_result) \<Rightarrow> env_lookup \<Rightarrow> repository_file_config \<Rightarrow> string option \<Rightarrow> diff set" where
  "audit_report load lookup f old =
     (case calculateFileDrift load lookup f (content_of old) (old \<noteq> None) ''audit_only'' of
        Inl e \<Rightarrow> {}
      | Inr (desired, drifted, a) \<Rightarrow> if drifted then {snd (file_diff (file_id f) old desired)} else {})"

lemma files_step_trans:
  assumes "files_step project A st st1" and "files_step project B st1 st2"
  shows "files_step project (A \<union> B) st st2"
proof -
  obtain r r' where "st1 = st\<lparr>ms_repositoryFiles := r\<rparr>" "st2 = st1\<lparr>ms_repositoryFiles := r'\<rparr>"
    using assms unfolding files_step_def by blast
  then have "st2 = st\<lparr>ms_repositoryFiles := r'\<rparr>" by simp
  then show ?thesis using assms unfolding files_step_def by auto
qed

lemma commit_file_step:
  assumes "in_int64 (p_ID project)" and "branch \<noteq> []"
  shows "\<exists>e st'. commit_to (mock_client err) project f branch old desired st = (e, st') \<and> files_step project {(branch, file_path f)} st st'"
  using assms files_step_put [OF files_step_refl [of project "{}"], of "(branch, file_path f)" st desired]
    files_step_refl [of project "{(branch, file_path f)}" st]
  by (auto simp: commit_to_def mock_files_def commit_file_def commit_options_def SetFile_def resolve_project_number Let_def)

text \<open>One file of a policy without merge requests: what is audited is reported, and only a direct commit writes.\<close>

lemma sync_file_audited:
  assumes id: "in_int64 (p_ID project)" and e: "enforcement_of f \<noteq> ''merge_request''"
  shows "\<exists>out st'. sync_file load lookup (mock_client err) project f st = (out, st')
    \<and> files_step project (if enforcement_of f = ''direct_commit'' then {place_of project f} else {}) st st'
    \<and> (enforcement_of f = ''audit_only'' \<longrightarrow>
        (\<forall>d \<in> audit_report load lookup f (at_place project st (place_of project f)). \<exists>a. out = SyncChanged a d))"
proof -
  let ?old = "at_place project st (place_of project f)"
  have fetch: "fetchFileContent (mock_client err) (p_ID project) (file_path f) (target_branch project f) st = (Inr ?old, st)"
    by (simp add: fetch_mock [OF id] place_of_def)
  obtain x st1 where commit: "commit_to (mock_client err) project f (target_branch project f) ?old desired st = (x desired, st1 desired)"
    "files_step project {place_of project f} st (st1 desired)" for desired
    using commit_file_step [OF id branch_names(1) [of project f], of err f ?old _ st] unfolding place_of_def by metis
  show ?thesis
  proof (cases "calculateFileDrift load lookup f (content_of ?old) (?old \<noteq> None) (enforcement_of f)")
    case (Inl err)
    then show ?thesis by (auto simp: sync_file_def fetch audit_report_def files_step_refl)
  next
    case (Inr r)
    obtain desired drifted a where r: "r = (desired, drifted, a)" by (cases r)
    show ?thesis
      using e Inr commit [of desired]
      by (cases drifted; cases "x desired")
        (auto simp: sync_file_def fetch r audit_report_def files_step_refl commit_direct_def Let_def split: if_splits)
  qed
qed

definition written :: "gl_project \<Rightarrow> repository_file_config list \<Rightarrow> (string \<times> string) set" where
  "written project fs = place_of project ` {f \<in> set fs. enforcement_of f = ''direct_commit''}"

lemma written_Cons:
  "written project (f # fs) = (if enforcement_of f = ''direct_commit'' then {place_of project f} else {}) \<union> written project fs"
  by (auto simp: written_def)

lemma sync_files_audited:
  assumes id: "in_int64 (p_ID project)"
  shows "\<forall>f \<in> set fs. enforcement_of f \<noteq> ''merge_request'' \<Longrightarrow>
    \<exists>out st'. sync_files (sync_file load lookup (mock_client err) project) fs acc st = (out, st')
      \<and> files_step project (written project fs) st st'
      \<and> (\<forall>ds a. out = Inr (ds, a) \<longrightarrow> set (fst acc) \<subseteq> set ds
          \<and> (\<forall>f \<in> set fs. enforcement_of f = ''audit_only'' \<and> place_of project f \<notin> written project fs \<longrightarrow>
                audit_report load lookup f (at_place project st (place_of project f)) \<subseteq> set ds))"
proof (induction fs arbitrary: acc st)
  case Nil
  then show ?case by (auto simp: files_step_refl)
next
  case (Cons f fs)
  let ?w = "if enforcement_of f = ''direct_commit'' then {place_of project f} else {}"
  obtain out st1 where step: "sync_file load lookup (mock_client err) project f st = (out, st1)" "files_step project ?w st st1"
    and report: "enforcement_of f = ''audit_only'' \<Longrightarrow>
        d \<in> audit_report load lookup f (at_place project st (place_of project f)) \<Longrightarrow> \<exists>a. out = SyncChanged a d" for d
    using sync_file_audited [OF id, of f load lookup err st] Cons.prems by auto
  have same: "at_place project st1 k = at_place project st k" if "k \<notin> ?w" for k
    using step(2) that unfolding files_step_def by (cases k) auto
  have IH: "\<exists>out' st'. sync_files (sync_file load lookup (mock_client err) project) fs acc' st1 = (out', st')
      \<and> files_step project (written project (f # fs)) st st'
      \<and> (\<forall>ds a. out' = Inr (ds, a) \<longrightarrow> set (fst acc') \<subseteq> set ds
          \<and> (\<forall>g \<in> set fs. enforcement_of g = ''audit_only'' \<and> place_of project g \<notin> written project (f # fs) \<longrightarrow>
                audit_report load lookup g (at_place project st (place_of project g)) \<subseteq> set ds))" for acc'
  proof -
    obtain out' st' where IH: "sync_files (sync_file load lookup (mock_client err) project) fs acc' st1 = (out', st')"
        "files_step project (written project fs) st1 st'"
      and all: "\<forall>ds a. out' = Inr (ds, a) \<longrightarrow> set (fst acc') \<subseteq> set ds
        \<and> (\<forall>g \<in> set fs. enforcement_of g = ''audit_only'' \<and> place_of project g \<notin> written project fs \<longrightarrow>
              audit_report load lookup g (at_place project st1 (place_of project g)) \<subseteq> set ds)"
      using Cons.IH [of acc' st1] Cons.prems by auto
    have places: "place_of project g \<notin> written project (f # fs) \<Longrightarrow>
        place_of project g \<notin> written project fs \<and> at_place project st1 (place_of project g) = at_place project st (place_of project g)" for g
      using same [of "place_of project g"] by (simp add: written_Cons)
    have "audit_report load lookup g (at_place project st (place_of project g)) \<subseteq> set ds"
      if "out' = Inr (ds, a)" "g \<in> set fs" "enforcement_of g = ''audit_only''" "place_of project g \<notin> written project (f # fs)"
      for ds a g
    proof -
      have "audit_report load lookup g (at_place project st1 (place_of project g)) \<subseteq> set ds"
        using all that places [of g] by blast
      then show ?thesis using places [OF that(4)] by simp
    qed
    moreover have "files_step project (written project (f # fs)) st st'"
      using files_step_trans [OF step(2) IH(2)] by (simp only: written_Cons)
    ultimately show ?thesis using IH(1) all by blast
  qed
  have skip: "files_step project (written project (f # fs)) st st1"
    using files_step_mono [OF step(2)] by (simp add: written_Cons)
  show ?case
  proof (cases out)
    case SyncKept
    then have "enforcement_of f = ''audit_only'' \<Longrightarrow> audit_report load lookup f (at_place project st (place_of project f)) = {}"
      using report by auto
    then show ?thesis using IH [of acc] step(1) SyncKept by auto
  next
    case (SyncChanged a d)
    then have mine: "audit_report load lookup f (at_place project st (place_of project f)) \<subseteq> X"
      if "enforcement_of f = ''audit_only''" and "d \<in> X" for X
      using report that by auto
    obtain out' st' where rest: "sync_files (sync_file load lookup (mock_client err) project) fs (fst acc @ [d], note_action a (snd acc)) st1 = (out', st')"
        "files_step project (written project (f # fs)) st st'"
      and all: "\<And>ds a. out' = Inr (ds, a) \<Longrightarrow> insert d (set (fst acc)) \<subseteq> set ds
          \<and> (\<forall>g \<in> set fs. enforcement_of g = ''audit_only'' \<and> place_of project g \<notin> written project (f # fs) \<longrightarrow>
                audit_report load lookup g (at_place project st (place_of project g)) \<subseteq> set ds)"
      using IH [of "(fst acc @ [d], note_action a (snd acc))"] by auto
    have "sync_files (sync_file load lookup (mock_client err) project) (f # fs) acc st = (out', st')"
      using step(1) SyncChanged rest(1) by simp
    moreover have "set (fst acc) \<subseteq> set ds
          \<and> (\<forall>g \<in> set (f # fs). enforcement_of g = ''audit_only'' \<and> place_of project g \<notin> written project (f # fs) \<longrightarrow>
                audit_report load lookup g (at_place project st (place_of project g)) \<subseteq> set ds)"
      if "out' = Inr (ds, a)" for ds a
      using all [OF that] mine [of "set ds"] by simp
    ultimately show ?thesis using rest(2) by blast
  qed (use step(1) skip in auto)
qed

text \<open>
  Property C27. \<open>audit_only\<close> is safe and reports: where no file is proposed through a merge request, applying changes on
  the mock server nothing but the places of the files that are committed directly, whatever drift there
  is and whether the run succeeds or fails; and a run that succeeds reports every drift of an audited
  file, unless a directly committed file has the same place.
\<close>

theorem RepositoryFiles_audit_only_safe:
  assumes "in_int64 (p_ID project)" and "\<forall>f \<in> set (files_policy cfg). enforcement_of f \<noteq> ''merge_request''"
  shows "case RepositoryFiles_Apply load lookup (mock_client err) project cfg st of ((res, e), st') \<Rightarrow>
      files_step project (written project (files_policy cfg)) st st'
    \<and> (e = None \<longrightarrow> (\<forall>f \<in> set (files_policy cfg). enforcement_of f = ''audit_only''
          \<and> place_of project f \<notin> written project (files_policy cfg) \<longrightarrow>
        audit_report load lookup f (at_place project st (place_of project f)) \<subseteq> set (ar_Diffs res)))"
proof (cases "files_policy cfg = []")
  case True
  then show ?thesis by (simp add: RepositoryFiles_Apply_def Let_def files_step_refl split: prod.split)
next
  case False
  obtain out st' where run: "sync_files (sync_file load lookup (mock_client err) project) (files_policy cfg) ([], ActionNoop) st = (out, st')"
      "files_step project (written project (files_policy cfg)) st st'"
    and all: "\<And>ds a. out = Inr (ds, a) \<Longrightarrow> \<forall>f \<in> set (files_policy cfg). enforcement_of f = ''audit_only''
        \<and> place_of project f \<notin> written project (files_policy cfg) \<longrightarrow>
          audit_report load lookup f (at_place project st (place_of project f)) \<subseteq> set ds"
    using sync_files_audited [OF assms, of load lookup err "([], ActionNoop)" st] by auto
  have run': "RepositoryFiles_Apply load lookup (mock_client err) project cfg st = (apply_result_of files_name (project_resource project) out, st')"
    using False run(1) by (simp add: RepositoryFiles_Apply_def Let_def)
  show ?thesis
  proof (cases out)
    case (Inl x)
    then show ?thesis
      using run(2) by (cases x) (auto simp: run' apply_result_of_def failed_apply_def split: prod.splits)
  next
    case (Inr r)
    obtain ds a where r: "r = (ds, a)" by (cases r)
    have "ar_Diffs (fst (apply_result_of files_name (project_resource project) out)) = ds"
      by (simp add: Inr r apply_result_of_def)
    then show ?thesis using run(2) all [of ds a] Inr r by (cases "apply_result_of files_name (project_resource project) out") (simp add: run')
  qed
qed

text \<open>
  A file of a repository can read the environment of the fleet governor: where the policy only demands that a
  file contains some line, the line is missing, and the file holds a token \<open>${X}\<close>, the commit replaces
  the token by the value of the variable \<open>X\<close> of the running process.
\<close>

theorem ensure_contains_leaks_environment:
  assumes id: "in_int64 (p_ID project)" and cfg: "files_policy cfg = [f]"
    and f: "rf_Content f = []" "rf_ContentFile f = []" "rf_EnsureContains f = [line]" "enforcement_of f = ''direct_commit''"
    and push: "pushable (p_ID project) (target_branch project f) st"
    and old: "at_place project st (place_of project f) = Some (a @ token x @ b @ lf)"
    and missing: "\<not> Contains (normalizeContent (a @ token x @ b @ lf)) (ReplaceAll line [CHR 0x0D, CHR 0x0A] lf)"
    and plain: "CHR ''$'' \<notin> set (a @ secret @ b @ line)" "CHR 0x5C \<notin> set a"
    and var: "isValidVarIdentifier x" "lookup x = Some secret"
    and utf8: "valid_utf8 a" "valid_utf8 secret" "valid_utf8 b" "valid_utf8 line"
    and drift: "normalizeContent (a @ token x @ b @ lf) \<noteq> normalizeContent (a @ secret @ b @ lf @ line @ lf)"
  shows "\<exists>res st'. RepositoryFiles_Apply load lookup (mock_client err) project cfg st = ((res, None), st')
    \<and> at_place project st' (place_of project f) = Some (normalizeContent (a @ secret @ b @ lf @ line @ lf))"
proof -
  let ?old = "a @ token x @ b @ lf" and ?new = "normalizeContent (a @ secret @ b @ lf @ line @ lf)"
  have suffix: "HasSuffix (y @ lf) lf" for y by (simp add: HasSuffix_def HasPrefix_def)
  have "ExpandEnvWithLookup lookup (a @ token x @ (b @ lf @ line @ lf)) = Inr (a @ secret @ (b @ lf @ line @ lf))"
    using ExpandEnv_token_between [of x lookup secret a "b @ lf @ line @ lf"] var plain utf8 by (simp add: valid_utf8_append)
  then have drift': "calculateFileDrift load lookup f ?old True ''direct_commit'' = Inr (?new, True, ActionUpdate)"
    using f missing suffix [of "a @ token x @ b"] drift
    by (simp add: calculateFileDrift_def desired_raw_def Let_def)
  have fetch: "fetchFileContent (mock_client err) (p_ID project) (file_path f) (target_branch project f) st = (Inr (Some ?old), st)"
    using fetch_mock [OF id branch_names(1)] old by (simp add: place_of_def)
  have "commit_to (mock_client err) project f (target_branch project f) (Some ?old) ?new st =
      (None, put_file (p_ID project) (target_branch project f) (file_path f) ?new st)"
    by (rule commit_mock [OF id branch_names(1) push])
  then obtain x where "sync_file load lookup (mock_client err) project f st =
      (SyncChanged ActionUpdate x, put_file (p_ID project) (target_branch project f) (file_path f) ?new st)"
    using f(4) by (simp add: sync_file_def fetch content_of_def drift' commit_direct_def Let_def)
  then have "RepositoryFiles_Apply load lookup (mock_client err) project cfg st =
      (ok_apply files_name (project_resource project) ActionUpdate [x],
       put_file (p_ID project) (target_branch project f) (file_path f) ?new st)"
    by (simp add: RepositoryFiles_Apply_def apply_result_of_def Let_def cfg note_action_def)
  moreover obtain res where "ok_apply files_name (project_resource project) ActionUpdate [x] = (res, None)"
    using apply_exists(2) by blast
  ultimately show ?thesis by (simp add: place_of_def)
qed

text \<open>
  Escaping does not survive: a declared content that was escaped in the policy file, so that loading leaves a token
  in it, is expanded a second time for every file, and the value of the variable ends up in the text.
\<close>

theorem content_expanded_twice:
  assumes "isValidVarIdentifier x" and "lookup x = Some val" and "CHR ''$'' \<notin> set (a @ val @ b)" and "CHR 0x5C \<notin> set a"
    and "rf_Content f = a @ token x @ b" and "enforcement_of f = ''merge_request''"
    and utf8: "valid_utf8 a" "valid_utf8 val" "valid_utf8 b"
  shows "ExpandEnvWithLookup lookup (escape_env (rf_Content f)) = Inr (rf_Content f)
    \<and> declared_text load lookup f = Some (normalizeContent (a @ val @ b))"
proof -
  have "rf_Content f \<noteq> []" using assms(5) by (simp add: token_def)
  then show ?thesis
    using ExpandEnv_token_between [of x lookup val a b] assms
      valid_token [OF assms(1)] ExpandEnv_escaped [of lookup "rf_Content f"]
    by (simp add: declared_text_def to_runes_valid valid_utf8_append)
qed

text \<open>
  A content file of white space publishes the policy: it counts as declared, and the loader, seeing no path,
  falls back to the policy of the environment, which becomes the content of the file.
\<close>

theorem blank_content_file_publishes_policy:
  assumes "rf_Content f = []" and "rf_ContentFile f \<noteq> []" and "blank (rf_ContentFile f)"
    and "ld_lookupEnv l ''CONFIG_CONTENT'' = Some doc" and "\<not> blank doc"
  shows "desired_raw (\<lambda>p. fst (LoadRaw l p)) f existing fileExists = Inr (Some doc)"
  using assms by (simp add: desired_raw_def LoadRaw_def not_blank_def)


subsection \<open>Examples\<close>

definition example_file :: repository_file_config where
  "example_file =
     \<lparr>rf_Path = ''SECURITY.txt'', rf_Content = ''report'', rf_ContentFile = [], rf_EnsureContains = [], rf_TargetBranch = [],
      rf_Enforcement = [], rf_MRTitle = [], rf_MRLabels = [], rf_AutoMerge = None\<rparr>"

definition example_files_policy :: "repository_file_config \<Rightarrow> policy_config option" where
  "example_files_policy f = Some (zero_policy_config\<lparr>cfg_Policies := zero_policies\<lparr>pol_RepositoryFiles := [f]\<rparr>\<rparr>)"

lemma example_files_policy [simp]: "files_policy (example_files_policy f) = [f]"
  by (simp add: files_policy_def example_files_policy_def)

abbreviation no_file :: "string \<Rightarrow> string go_result" where
  "no_file \<equiv> (\<lambda>p. Inl (Err ''no such file''))"

abbreviation secret_env :: env_lookup where
  "secret_env \<equiv> (\<lambda>x. if x = ''GITLAB_TOKEN'' then Some ''secret'' else None)"

lemma example_id: "in_int64 (p_ID example_project)"
  using governs_example by (simp add: governs_def)

lemma example_token: "isValidVarIdentifier ''GITLAB_TOKEN''"
  by code_simp

theorem RepositoryFiles_Apply_converges_witness:
  "\<exists>res st'. RepositoryFiles_Apply no_file (\<lambda>x. None) (mock_client (\<lambda>_ m. Err m)) example_project (example_files_policy example_file) example_state = ((res, None), st')
    \<and> files_step example_project {place_of example_project example_file} example_state st'
    \<and> in_sync (declared_text no_file (\<lambda>x. None) example_file) (at_place example_project st' (place_of example_project example_file))"
proof -
  have "declared_text no_file (\<lambda>x. None) example_file \<noteq> None" "enforcement_of example_file = ''direct_commit''" "full example_file"
    "pushable (p_ID example_project) (target_branch example_project example_file) example_state" by code_simp+
  then have "\<forall>f \<in> set (files_policy (example_files_policy example_file)). direct no_file (\<lambda>x. None) example_project f example_state"
    by (simp add: direct_def)
  from RepositoryFiles_Apply_converges [where err = "\<lambda>_ m. Err m", OF example_id this] show ?thesis by auto
qed

text \<open>A policy with a file to commit and a missing one that is only audited.\<close>

definition audited_file :: repository_file_config where
  "audited_file = example_file\<lparr>rf_Path := ''CODEOWNERS'', rf_Enforcement := ''Audit_Only''\<rparr>"

definition mixed_policy :: "policy_config option" where
  "mixed_policy = Some (zero_policy_config\<lparr>cfg_Policies := zero_policies\<lparr>pol_RepositoryFiles := [example_file, audited_file]\<rparr>\<rparr>)"

theorem RepositoryFiles_audit_only_safe_witness:
  "let ((res, e), st') = RepositoryFiles_Apply no_file (\<lambda>x. None) (mock_client (\<lambda>_ m. Err m)) example_project mixed_policy example_state
   in e = None \<and> audit_report no_file (\<lambda>x. None) audited_file None \<noteq> {}
      \<and> audit_report no_file (\<lambda>x. None) audited_file None \<subseteq> set (ar_Diffs res)
      \<and> at_place example_project st' (place_of example_project audited_file) = None"
proof -
  have modes: "enforcement_of audited_file = ''audit_only''" "enforcement_of example_file = ''direct_commit''" by code_simp+
  have policy: "files_policy mixed_policy = [example_file, audited_file]" by (simp add: mixed_policy_def files_policy_def)
  have places: "place_of example_project audited_file \<notin> written example_project [example_file, audited_file]"
  proof -
    have "place_of example_project audited_file \<noteq> place_of example_project example_file" by code_simp
    then show ?thesis by (auto simp: written_def modes)
  qed
  have none: "at_place example_project example_state (place_of example_project audited_file) = None" by code_simp
  have drift: "audit_report no_file (\<lambda>x. None) audited_file None \<noteq> {}"
  proof -
    have "case calculateFileDrift no_file (\<lambda>x. None) audited_file [] False ''audit_only'' of Inr (desired, drifted, a) \<Rightarrow> drifted | _ \<Rightarrow> False"
      by code_simp
    then show ?thesis by (auto simp: audit_report_def content_of_def split: sum.splits)
  qed
  have fine: "snd (fst (RepositoryFiles_Apply no_file (\<lambda>x. None) (mock_client (\<lambda>_ m. Err m)) example_project mixed_policy example_state)) = None"
  proof -
    let ?sync = "sync_file no_file (\<lambda>x. None) (mock_client (\<lambda>_ m. Err m)) example_project"
    have "declared_text no_file (\<lambda>x. None) example_file \<noteq> None" "full example_file"
      "pushable (p_ID example_project) (target_branch example_project example_file) example_state" by code_simp+
    then have direct: "direct no_file (\<lambda>x. None) example_project example_file example_state" by (simp add: direct_def modes)
    then obtain d where d: "declared_text no_file (\<lambda>x. None) example_file = Some d" by (auto simp: direct_def)
    let ?st = "put_file (p_ID example_project) (target_branch example_project example_file) (file_path example_file) d example_state"
    have "at_place example_project example_state (place_of example_project example_file) = None" by code_simp
    then obtain a x where one: "?sync example_file example_state = (SyncChanged a x, ?st)"
      using sync_direct [OF example_id direct d, of "\<lambda>_ m. Err m"] d by (simp add: Let_def in_sync_def)
    have "at_place example_project ?st (place_of example_project audited_file) = None"
      using none places by (auto simp: place_of_def written_def modes)
    moreover obtain t b where "calculateFileDrift no_file (\<lambda>x. None) audited_file [] False ''audit_only'' = Inr (t, True, b)"
      using drift by (auto simp: audit_report_def content_of_def split: sum.splits prod.splits if_splits)
    ultimately obtain y where two: "?sync audited_file ?st = (SyncChanged b y, ?st)"
      using fetch_mock [OF example_id branch_names(1) [of example_project audited_file], of "\<lambda>_ m. Err m"]
      by (simp add: sync_file_def place_of_def content_of_def modes)
    show ?thesis by (simp add: RepositoryFiles_Apply_def policy one two apply_result_of_def Let_def)
  qed
  have "\<forall>f \<in> set (files_policy mixed_policy). enforcement_of f \<noteq> ''merge_request''" by (simp add: policy modes)
  from RepositoryFiles_audit_only_safe [OF example_id this, where load = no_file and lookup = "\<lambda>x. None" and err = "\<lambda>_ m. Err m" and st = example_state] fine
  show ?thesis using places none drift modes
    by (auto simp: policy files_step_def split: prod.splits)
qed

definition ci_file :: repository_file_config where
  "ci_file = example_file\<lparr>rf_Path := ''.gitlab-ci.yml'', rf_Content := [], rf_EnsureContains := [''include:'']\<rparr>"

definition ci_state :: mock_state where
  "ci_state = put_file (p_ID example_project) (target_branch example_project ci_file) (file_path ci_file)
     (''echo '' @ token ''GITLAB_TOKEN'' @ [] @ lf) example_state"

theorem ensure_contains_leaks_environment_witness:
  "\<exists>res st'. RepositoryFiles_Apply no_file secret_env (mock_client (\<lambda>_ m. Err m)) example_project (example_files_policy ci_file) ci_state = ((res, None), st')
    \<and> at_place example_project st' (place_of example_project ci_file) = Some (''echo secret'' @ lf @ ''include:'' @ lf)"
proof -
  have push: "pushable (p_ID example_project) (target_branch example_project ci_file) ci_state"
    unfolding ci_state_def pushable_put by code_simp
  have old: "at_place example_project ci_state (place_of example_project ci_file) = Some (''echo '' @ token ''GITLAB_TOKEN'' @ [] @ lf)"
    by (simp add: ci_state_def place_of_def)
  have f: "rf_Content ci_file = []" "rf_ContentFile ci_file = []" "rf_EnsureContains ci_file = [''include:'']"
    "enforcement_of ci_file = ''direct_commit''" by code_simp+
  have missing: "\<not> Contains (normalizeContent (''echo '' @ token ''GITLAB_TOKEN'' @ [] @ lf)) (ReplaceAll ''include:'' [CHR 0x0D, CHR 0x0A] lf)"
    by code_simp
  have drift: "normalizeContent (''echo '' @ token ''GITLAB_TOKEN'' @ [] @ lf) \<noteq> normalizeContent (''echo '' @ ''secret'' @ [] @ lf @ ''include:'' @ lf)"
    by code_simp
  have new: "normalizeContent (''echo '' @ ''secret'' @ [] @ lf @ ''include:'' @ lf) = ''echo secret'' @ lf @ ''include:'' @ lf"
    by code_simp
  show ?thesis
    using ensure_contains_leaks_environment [of example_project "example_files_policy ci_file" ci_file "''include:''" ci_state "''echo ''"
        "''GITLAB_TOKEN''" "[]" "''secret''" secret_env no_file "\<lambda>_ m. Err m"] example_id f push old missing drift example_token
    unfolding new by simp
qed

theorem content_expanded_twice_witness:
  "declared_text no_file secret_env (example_file\<lparr>rf_Content := ''echo '' @ token ''GITLAB_TOKEN'' @ [], rf_Enforcement := ''merge_request''\<rparr>)
     = Some (''echo secret'' @ lf)"
proof -
  have mr: "enforcement_of (example_file\<lparr>rf_Content := c, rf_Enforcement := ''merge_request''\<rparr>) = ''merge_request''" for c
    by (simp add: enforcement_of_def ToLower_def to_lower_char_def Let_def)
  have "normalizeContent (''echo '' @ ''secret'' @ []) = ''echo secret'' @ lf" by code_simp
  then show ?thesis
    using content_expanded_twice [of "''GITLAB_TOKEN''" secret_env "''secret''" "''echo ''" "[]"
        "example_file\<lparr>rf_Content := ''echo '' @ token ''GITLAB_TOKEN'' @ [], rf_Enforcement := ''merge_request''\<rparr>" no_file] mr example_token
    by simp
qed

theorem blank_content_file_publishes_policy_witness:
  "desired_raw (\<lambda>p. fst (LoadRaw \<lparr>ld_stdin = None, ld_lookupEnv = (\<lambda>x. if x = ''CONFIG_CONTENT'' then Some ''version: v1'' else None),
       ld_s3_init = None, ld_s3 = (\<lambda>b k. S3Object []), ld_open = (\<lambda>p. NotRegular), ld_Stat = (\<lambda>p. False), ld_ReadFile = no_file\<rparr> p))
     (ci_file\<lparr>rf_ContentFile := '' ''\<rparr>) [] False = Inr (Some ''version: v1'')"
proof -
  have "blank '' ''" "\<not> blank ''version: v1''" by code_simp+
  then show ?thesis by (intro blank_content_file_publishes_policy) (simp_all add: ci_file_def example_file_def)
qed

end
