(* ===== verification/Default_Registry.thy ===== *)
theory Default_Registry
  imports Engine Project_Reconcilers Target_Branch_Rules Protected_Branches Push_Rules Compliance Variables Members Webhooks Runners
    Protected_Tags Protected_Environments Approval_Rules Branch_Merges Repository_Files
begin

section \<open>The default registry\<close>

text \<open>
  The fifteen reconcilers of \<^verbatim>\<open>NewDefaultRegistry\<close> as operations over one state: the remote instance and the
  caches of the three reconcilers that resolve names. A listing that never ends, which no server
  here has, is given an error as its result.
\<close>

record 's fleet_state =
  fls_tags :: resolver_cache
  fls_environments :: resolver_cache
  fls_approvals :: resolver_cache
  fls_server :: 's

text \<open>What the reconcilers take from their surroundings: the loader and the environment, the clock (in days), URL parsing and a map iteration order.\<close>

record surroundings =
  sur_load :: "string \<Rightarrow> string go_result"
  sur_lookup :: env_lookup
  sur_today :: int
  sur_parse_url :: "string \<Rightarrow> parsed_url option"
  sur_order :: "nat \<Rightarrow> string list \<Rightarrow> string list"

definition on_server :: "('s \<Rightarrow> 'r \<times> 's) \<Rightarrow> 's fleet_state \<Rightarrow> 'r \<times> 's fleet_state" where
  "on_server f st = (case f (fls_server st) of (r, s) \<Rightarrow> (r, st\<lparr>fls_server := s\<rparr>))"

definition with_tags_cache :: "(resolver_cache \<times> 's \<Rightarrow> 'r \<times> (resolver_cache \<times> 's)) \<Rightarrow> 's fleet_state \<Rightarrow> 'r \<times> 's fleet_state" where
  "with_tags_cache f st = (case f (fls_tags st, fls_server st) of (r, (c, s)) \<Rightarrow> (r, st\<lparr>fls_tags := c, fls_server := s\<rparr>))"

definition with_environments_cache :: "(resolver_cache \<times> 's \<Rightarrow> 'r \<times> (resolver_cache \<times> 's)) \<Rightarrow> 's fleet_state \<Rightarrow> 'r \<times> 's fleet_state" where
  "with_environments_cache f st =
     (case f (fls_environments st, fls_server st) of (r, (c, s)) \<Rightarrow> (r, st\<lparr>fls_environments := c, fls_server := s\<rparr>))"

definition with_approvals_cache :: "(resolver_cache \<times> 's \<Rightarrow> 'r \<times> (resolver_cache \<times> 's)) \<Rightarrow> 's fleet_state \<Rightarrow> 'r \<times> 's fleet_state" where
  "with_approvals_cache f st =
     (case f (fls_approvals st, fls_server st) of (r, (c, s)) \<Rightarrow> (r, st\<lparr>fls_approvals := c, fls_server := s\<rparr>))"

definition endless :: go_error where
  "endless = Err ''the listing does not end''"

definition plan_returning :: "('s \<Rightarrow> (plan_result go_result \<times> 's) option) \<Rightarrow> 's plan_fun" where
  "plan_returning f s = (case f s of None \<Rightarrow> (Inl endless, s) | Some r \<Rightarrow> r)"

definition apply_returning :: "string \<Rightarrow> resource \<Rightarrow> ('s \<Rightarrow> ((apply_result \<times> go_error option) \<times> 's) option) \<Rightarrow> 's apply_fun" where
  "apply_returning name r f s = (case f s of None \<Rightarrow> (failed_apply name r ActionNoop [] endless endless, s) | Some x \<Rightarrow> x)"

definition operation ::
  "string \<Rightarrow> int \<Rightarrow> (gl_project \<Rightarrow> policy_config option \<Rightarrow> 's plan_fun) \<Rightarrow> (gl_project \<Rightarrow> policy_config option \<Rightarrow> 's apply_fun)
   \<Rightarrow> (gl_group \<Rightarrow> policy_config option \<Rightarrow> 's plan_fun) \<Rightarrow> (gl_group \<Rightarrow> policy_config option \<Rightarrow> 's apply_fun) \<Rightarrow> 's governance_operation" where
  "operation name order plan apply' plan_group apply_group =
     \<lparr>op_Name = name, op_Order = order,
      op_Plan = (\<lambda>p c s. plan_outcome (plan p (Some c) s)), op_Apply = (\<lambda>p c s. apply_outcome (apply' p (Some c) s)),
      op_PlanGroup = (\<lambda>g c s. plan_outcome (plan_group g (Some c) s)), op_ApplyGroup = (\<lambda>g c s. apply_outcome (apply_group g (Some c) s))\<rparr>"

text \<open>The operation of each name, all reconcilers being constructed without options.\<close>

definition governance_reconciler :: "surroundings \<Rightarrow> 's gitlab_client \<Rightarrow> string \<Rightarrow> int \<Rightarrow> 's fleet_state governance_operation" where
  "governance_reconciler sur client name order =
     (let op = operation name order in
      if name = push_rules_name then
        op (\<lambda>p c. on_server (PushRules_Plan client p c)) (\<lambda>p c. on_server (PushRules_Apply client p c))
           (\<lambda>g c. on_server (PushRules_PlanGroup client g c)) (\<lambda>g c. on_server (PushRules_ApplyGroup client g c))
      else if name = files_name then
        op (\<lambda>p c. on_server (RepositoryFiles_Plan (sur_load sur) (sur_lookup sur) client p c))
           (\<lambda>p c. on_server (RepositoryFiles_Apply (sur_load sur) (sur_lookup sur) client p c))
           (\<lambda>g c. RepositoryFiles_PlanGroup g) (\<lambda>g c. RepositoryFiles_ApplyGroup g)
      else if name = branches_name then
        op (\<lambda>p c. on_server (plan_returning (ProtectedBranches_Plan client p c)))
           (\<lambda>p c. on_server (apply_returning name (project_resource p) (ProtectedBranches_Apply client p c)))
           (\<lambda>g c. ProtectedBranches_PlanGroup g) (\<lambda>g c. ProtectedBranches_ApplyGroup g)
      else if name = merges_name then
        op (\<lambda>p c. on_server (BranchMerges_Plan client p c)) (\<lambda>p c. on_server (BranchMerges_Apply client p c))
           (\<lambda>g c. BranchMerges_PlanGroup g) (\<lambda>g c. BranchMerges_ApplyGroup g)
      else if name = tags_name then
        op (\<lambda>p c. with_tags_cache (plan_returning (ProtectedTags_Plan client p c)))
           (\<lambda>p c. with_tags_cache (apply_returning name (project_resource p) (ProtectedTags_Apply client p c)))
           (\<lambda>g c. ProtectedTags_PlanGroup g) (\<lambda>g c. ProtectedTags_ApplyGroup g)
      else if name = environments_name then
        op (\<lambda>p c. with_environments_cache (plan_returning (ProtectedEnvironments_Plan (sur_order sur) client p c)))
           (\<lambda>p c. with_environments_cache (apply_returning name (project_resource p) (ProtectedEnvironments_Apply (sur_order sur) client p c)))
           (\<lambda>g c. ProtectedEnvironments_PlanGroup g) (\<lambda>g c. ProtectedEnvironments_ApplyGroup g)
      else if name = approval_rules_name then
        op (\<lambda>p c. with_approvals_cache (ApprovalRules_Plan client p c)) (\<lambda>p c. with_approvals_cache (ApprovalRules_Apply client p c))
           (\<lambda>g c. ApprovalRules_PlanGroup g) (\<lambda>g c. ApprovalRules_ApplyGroup g)
      else if name = settings_name then
        op (\<lambda>p c. on_server (ProjectSettings_Plan client p c)) (\<lambda>p c. on_server (ProjectSettings_Apply client p c))
           (\<lambda>g c. ProjectSettings_PlanGroup g) (\<lambda>g c. ProjectSettings_ApplyGroup g)
      else if name = retention_name then
        op (\<lambda>p c. on_server (PipelineRetention_Plan client p c)) (\<lambda>p c. on_server (PipelineRetention_Apply client p c))
           (\<lambda>g c. PipelineRetention_PlanGroup g) (\<lambda>g c. PipelineRetention_ApplyGroup g)
      else if name = variables_name then
        op (\<lambda>p c. on_server (Variables_Plan False client p c)) (\<lambda>p c. on_server (Variables_Apply False client p c))
           (\<lambda>g c. on_server (Variables_PlanGroup False client g c)) (\<lambda>g c. on_server (Variables_ApplyGroup False client g c))
      else if name = runners_name then
        op (\<lambda>p c. on_server (Runners_Plan client p c)) (\<lambda>p c. on_server (Runners_Apply client p c))
           (\<lambda>g c. Runners_PlanGroup g) (\<lambda>g c. Runners_ApplyGroup g)
      else if name = compliance_name then
        op (\<lambda>p c. on_server (Compliance_Plan client p c)) (\<lambda>p c. on_server (Compliance_Apply client p c))
           (\<lambda>g c. Compliance_PlanGroup g) (\<lambda>g c. Compliance_ApplyGroup g)
      else if name = webhooks_name then
        op (\<lambda>p c. on_server (Webhooks_Plan (sur_parse_url sur) False client p c))
           (\<lambda>p c. on_server (Webhooks_Apply (sur_parse_url sur) False client p c))
           (\<lambda>g c. Webhooks_PlanGroup g) (\<lambda>g c. Webhooks_ApplyGroup g)
      else if name = members_name then
        op (\<lambda>p c. on_server (Members_Plan client (sur_today sur) p c)) (\<lambda>p c. on_server (Members_Apply client (sur_today sur) p c))
           (\<lambda>g c. on_server (Members_PlanGroup client g c)) (\<lambda>g c. on_server (Members_ApplyGroup client g c))
      else
        op (\<lambda>p c. on_server (TargetBranchRules_Plan client p c)) (\<lambda>p c. on_server (TargetBranchRules_Apply client p c))
           (\<lambda>g c. TargetBranchRules_PlanGroup g) (\<lambda>g c. TargetBranchRules_ApplyGroup g))"

definition governance_registry :: "surroundings \<Rightarrow> 's gitlab_client \<Rightarrow> 's fleet_state operations_registry" where
  "governance_registry sur client = NewDefaultRegistry (governance_reconciler sur client)"

text \<open>The names the registry knows are those of the reconcilers.\<close>

lemmas reconciler_names =
  push_rules_name_def files_name_def branches_name_def merges_name_def tags_name_def environments_name_def approval_rules_name_def
  settings_name_def retention_name_def variables_name_def runners_name_def compliance_name_def webhooks_name_def members_name_def
  target_rules_name_def

lemma default_names:
  "map fst default_operations =
     [push_rules_name, files_name, branches_name, merges_name, tags_name, environments_name, approval_rules_name, settings_name,
      retention_name, variables_name, runners_name, compliance_name, webhooks_name, members_name, target_rules_name]"
  by (simp add: default_operations_def reconciler_names)

subsection \<open>Planning reads only\<close>

text \<open>Loops over steps that keep something, and over pages.\<close>

lemma each_rule_keeps:
  "(\<And>r s. keep s \<Longrightarrow> keep (snd (step r s))) \<Longrightarrow> keep s \<Longrightarrow> keep (snd (each_rule step rs acc s))"
proof (induction rs arbitrary: acc s)
  case (Cons r rs)
  obtain out s' where out: "step r s = (out, s')" by (cases "step r s")
  then have "keep s'" using Cons.prems(1) [OF Cons.prems(2), of r] by simp
  with Cons out show ?case by (cases out) auto
qed simp

lemma both_passes_keeps:
  assumes "\<And>r s. keep s \<Longrightarrow> keep (snd (step r s))" and "\<And>u s. keep s \<Longrightarrow> keep (snd (prune_step u s))" and "keep s"
  shows "keep (snd (both_passes step prune_step rs us s))"
proof -
  obtain out s' where out: "each_rule step rs ([], ActionNoop) s = (out, s')" by (cases "each_rule step rs ([], ActionNoop) s")
  then have "keep s'" using each_rule_keeps [of keep step, OF assms(1,3), of rs "([], ActionNoop)"] by simp
  then show ?thesis
    using each_rule_keeps [of keep prune_step, OF assms(2)] out by (cases out) (simp_all add: both_passes_def then_loop_def)
qed

lemma list_all_pages_keeps:
  fixes keep :: "'s \<Rightarrow> bool" and fetch :: "int \<Rightarrow> ('a page, 's) api"
  assumes "\<And>p s. keep s \<Longrightarrow> keep (snd (fetch p s))" and "keep s" and "list_all_pages fetch page acc s = Some (r, s')"
  shows "keep s'"
proof -
  have "(\<forall>p s. keep s \<longrightarrow> keep (snd (fetch p s))) \<longrightarrow> keep s \<longrightarrow> keep (snd x)" if "list_all_pages fetch page acc s = Some x" for x
  proof (rule list_all_pages.raw_induct [OF _ that,
        where P = "\<lambda>fetch page acc s x. (\<forall>p s. keep s \<longrightarrow> keep (snd (fetch p s))) \<longrightarrow> keep s \<longrightarrow> keep (snd x)"], intro impI)
    fix g :: "(int \<Rightarrow> ('a page, 's) api) \<Rightarrow> int \<Rightarrow> 'a list \<Rightarrow> 's \<Rightarrow> ('a list go_result \<times> 's) option"
    fix fetch :: "int \<Rightarrow> ('a page, 's) api" and page acc s x
    assume IH: "\<And>fetch page acc s x. g fetch page acc s = Some x \<Longrightarrow>
        (\<forall>p s. keep s \<longrightarrow> keep (snd (fetch p s))) \<longrightarrow> keep s \<longrightarrow> keep (snd x)"
      and body: "(case fetch page s of
              (Inl e, s') \<Rightarrow> Some (Inl e, s')
            | (Inr (xs, resp), s') \<Rightarrow>
                (case resp of
                   None \<Rightarrow> Some (Inr (acc @ xs), s')
                 | Some n \<Rightarrow> if n = 0 then Some (Inr (acc @ xs), s') else g fetch n (acc @ xs) s')) = Some x"
      and fetch: "\<forall>p s. keep s \<longrightarrow> keep (snd (fetch p s))" and keep: "keep s"
    obtain out s1 where out: "fetch page s = (out, s1)" by (cases "fetch page s")
    with fetch keep have "keep s1" by (metis snd_conv)
    with body out IH fetch show "keep (snd x)" by (auto split: sum.splits option.splits if_splits prod.splits)
  qed
  from this [OF assms(3)] assms(1,2) show ?thesis by auto
qed

text \<open>A computation that resolves names only reads when it leaves the remote instance alone.\<close>

definition reads :: "('a, 's) resolving \<Rightarrow> bool" where
  "reads m \<longleftrightarrow> (\<forall>cs. snd (snd (m cs)) = snd cs)"

lemma reads_return: "reads (rreturn x)"
  by (simp add: reads_def rreturn_def)

lemma reads_bind: "reads m \<Longrightarrow> (\<And>x. reads (f x)) \<Longrightarrow> reads (rbind m f)"
  unfolding reads_def rbind_def by (auto split: prod.splits sum.splits; metis snd_conv)

lemma reads_wrap: "reads m \<Longrightarrow> reads (rwrap msg m)"
  unfolding reads_def rwrap_def by (auto split: prod.splits sum.splits; metis snd_conv)

lemma reads_each: "(\<And>x. reads (f x)) \<Longrightarrow> reads (resolve_each f xs)"
  by (induction xs) (simp_all add: reads_return reads_bind)

lemma reads_with_cache: "(\<And>s. snd (f s) = s) \<Longrightarrow> reads (with_cache f)"
  by (simp add: reads_def with_cache_def split_beta)

lemma reads_username: "reads (ResolveUsername (mock_client err) name)"
  by (auto simp: reads_def ResolveUsername_def mock_users_def Let_def split: prod.splits option.splits sum.splits list.splits)

lemma reads_group_path: "reads (ResolveGroupPath (mock_client err) path)"
  by (auto simp: reads_def ResolveGroupPath_def mock_groups_def Let_def split: prod.splits option.splits sum.splits list.splits)

lemma readsD: "reads m \<Longrightarrow> snd (snd (m cs)) = snd cs"
  unfolding reads_def by (rule spec)

lemmas reads_rules = reads_return reads_bind reads_wrap reads_each reads_username reads_group_path

lemma list_until_error_keeps:
  fixes keep :: "'s \<Rightarrow> bool" and fetch :: "int \<Rightarrow> ('a page, 's) api"
  assumes "\<And>p s. keep s \<Longrightarrow> keep (snd (fetch p s))" and "keep s" and "list_until_error fetch page acc s = Some (r, s')"
  shows "keep s'"
proof -
  have "(\<forall>p s. keep s \<longrightarrow> keep (snd (fetch p s))) \<longrightarrow> keep s \<longrightarrow> keep (snd x)" if "list_until_error fetch page acc s = Some x" for x
  proof (rule list_until_error.raw_induct [OF _ that,
        where P = "\<lambda>fetch page acc s x. (\<forall>p s. keep s \<longrightarrow> keep (snd (fetch p s))) \<longrightarrow> keep s \<longrightarrow> keep (snd x)"], intro impI)
    fix g :: "(int \<Rightarrow> ('a page, 's) api) \<Rightarrow> int \<Rightarrow> 'a list \<Rightarrow> 's \<Rightarrow> ('a list \<times> 's) option"
    fix fetch :: "int \<Rightarrow> ('a page, 's) api" and page acc s x
    assume IH: "\<And>fetch page acc s x. g fetch page acc s = Some x \<Longrightarrow>
        (\<forall>p s. keep s \<longrightarrow> keep (snd (fetch p s))) \<longrightarrow> keep s \<longrightarrow> keep (snd x)"
      and body: "(case fetch page s of
              (Inl e, s') \<Rightarrow> Some (acc, s')
            | (Inr (xs, resp), s') \<Rightarrow>
                (case resp of
                   None \<Rightarrow> Some (acc @ xs, s')
                 | Some n \<Rightarrow> if n = 0 then Some (acc @ xs, s') else g fetch n (acc @ xs) s')) = Some x"
      and fetch: "\<forall>p s. keep s \<longrightarrow> keep (snd (fetch p s))" and keep: "keep s"
    obtain out s1 where out: "fetch page s = (out, s1)" by (cases "fetch page s")
    with fetch keep have "keep s1" by (metis snd_conv)
    with body out IH fetch show "keep (snd x)" by (auto split: sum.splits option.splits if_splits prod.splits)
  qed
  from this [OF assms(3)] assms(1,2) show ?thesis by auto
qed

lemma listings_read:
  "snd (ListProtectedBranches (mock_branches err) pid page n s) = s" "snd (ListProtectedTags (mock_tags err) pid page n s) = s"
  "snd (ListProtectedEnvironments (mock_protected_environments err) pid page n s) = s"
  "snd (ListEnvironments mock_environments pid page n s) = s"
  "snd (GetApprovalConfiguration (mock_approvals err) pid s) = s" "snd (GetProjectApprovalRules (mock_approvals err) pid s) = s"
  by (simp_all add: mock_branches_def mock_tags_def mock_protected_environments_def mock_environments_def mock_approvals_def Let_def
      split: option.splits)

lemma branches_plan_reads: "snd (plan_returning (ProtectedBranches_Plan (mock_client err) p c) s) = s"
proof -
  have "s' = s" if "fetchAllLiveProtectedBranches (mock_client err) pid s = Some (out, s')" for pid out s'
    using list_all_pages_keeps [where keep = "\<lambda>x. x = s", OF _ refl, of "\<lambda>page. ListProtectedBranches (mock_branches err) pid page 100" 1 "[]" out s']
      that by (simp add: fetchAllLiveProtectedBranches_def listings_read)
  then show ?thesis
    by (auto simp: plan_returning_def ProtectedBranches_Plan_def Let_def split: option.splits sum.splits prod.splits)
qed

lemma tags_plan_reads: "snd (snd (plan_returning (ProtectedTags_Plan (mock_client err) p c) cs)) = snd cs"
proof -
  have fetch: "snd cs' = snd cs" if "fetchAllLiveProtectedTags (mock_client err) pid cs = Some (out, cs')" for pid out cs'
    using list_all_pages_keeps [where keep = "\<lambda>x. snd x = snd cs", OF _ refl,
        of "\<lambda>page. with_cache (ListProtectedTags (mock_tags err) pid page 100)" 1 "[]" out cs'] that
    by (simp add: fetchAllLiveProtectedTags_def with_cache_def listings_read split_beta)
  have "reads (resolveRule (mock_client err) rule)" for rule
    unfolding resolveRule_def by (intro reads_rules) (auto simp: resolve_tag_access_def Let_def intro!: reads_rules)
  then have step: "snd (snd (plan_tag_rule (mock_client err) live rule cs')) = snd cs'" for live rule cs'
    by (simp add: plan_tag_rule_def case_prod_beta Let_def readsD split: sum.split option.split)
  have loop: "snd (snd (both_passes (plan_tag_rule (mock_client err) live) (\<lambda>n cs. (RuleChanged ActionDelete (tag_prune_diff n), cs)) rs us cs')) = snd cs'"
    for live rs us cs' by (rule both_passes_keeps [where keep = "\<lambda>x. snd x = snd cs'"]) (simp_all add: step)
  show ?thesis
  proof (cases "tags_policy c")
    case (Some t)
    show ?thesis
    proof (cases "fetchAllLiveProtectedTags (mock_client err) (p_ID p) cs")
      case (Some x)
      then have "snd (snd x) = snd cs" using fetch [of "p_ID p" "fst x" "snd x"] by simp
      with Some \<open>tags_policy c = _\<close> show ?thesis
        by (simp add: plan_returning_def ProtectedTags_Plan_def Let_def case_prod_beta loop split: sum.split)
    qed (simp add: plan_returning_def ProtectedTags_Plan_def Let_def \<open>tags_policy c = _\<close>)
  qed (simp add: plan_returning_def ProtectedTags_Plan_def Let_def)
qed

lemma environments_plan_reads: "snd (snd (plan_returning (ProtectedEnvironments_Plan ord (mock_client err) p c) cs)) = snd cs"
proof -
  have fetch: "snd cs' = snd cs" if "fetchAllLiveProtectedEnvironments (mock_client err) pid cs = Some (out, cs')" for pid out cs'
    using list_all_pages_keeps [where keep = "\<lambda>x. snd x = snd cs", OF _ refl,
        of "\<lambda>page. with_cache (ListProtectedEnvironments (mock_protected_environments err) pid page 100)" 1 "[]" out cs'] that
    by (simp add: fetchAllLiveProtectedEnvironments_def with_cache_def listings_read split_beta)
  have expand: "snd cs'' = snd cs'" if "expandRules ord (mock_client err) pid rules live cs' = Some (out, cs'')" for pid rules live cs' out cs''
    using list_until_error_keeps [where keep = "\<lambda>x. snd x = snd cs'", OF _ refl,
        of "\<lambda>page. with_cache (ListEnvironments mock_environments pid page 100)" 1 "[]"] that
    by (auto simp: expandRules_def with_cache_def listings_read split_beta split: if_splits)
  have "reads (environment_protect_options (mock_client err) rule)" for rule
    unfolding environment_protect_options_def deploy_access_entry_def approval_entry_def approval_user_entry_def approval_group_entry_def
      user_number_def group_number_def by (intro reads_rules) (auto intro!: reads_rules)
  then have step: "snd (snd (plan_environment_rule (mock_client err) live rule cs')) = snd cs'" for live rule cs'
    by (simp add: plan_environment_rule_def case_prod_beta Let_def readsD split: sum.split option.split)
  have loop: "snd (snd (both_passes (plan_environment_rule (mock_client err) live)
      (\<lambda>n cs. (RuleChanged ActionDelete (environment_prune_diff n), cs)) rs us cs')) = snd cs'"
    for live rs us cs' by (rule both_passes_keeps [where keep = "\<lambda>x. snd x = snd cs'"]) (simp_all add: step)
  show ?thesis
  proof (cases "environments_policy c")
    case (Some t)
    show ?thesis
    proof (cases "fetchAllLiveProtectedEnvironments (mock_client err) (p_ID p) cs")
      case (Some x)
      obtain out cs' where x: "x = (out, cs')" by (cases x)
      then have same: "snd cs' = snd cs" using fetch [of "p_ID p" out cs'] Some by simp
      show ?thesis
      proof (cases out)
        case (Inr envs)
        show ?thesis
        proof (cases "expandRules ord (mock_client err) (p_ID p) (pes_Rules t) envs cs'")
          case (Some y)
          then have "snd (snd y) = snd cs" using expand [of "p_ID p" "pes_Rules t" envs cs' "fst y" "snd y"] same by simp
          with Some Inr x \<open>fetchAllLiveProtectedEnvironments _ _ _ = _\<close> \<open>environments_policy c = _\<close> show ?thesis
            by (simp add: plan_returning_def ProtectedEnvironments_Plan_def Let_def case_prod_beta loop)
        qed (use Inr x \<open>fetchAllLiveProtectedEnvironments _ _ _ = _\<close> \<open>environments_policy c = _\<close> in
            \<open>simp add: plan_returning_def ProtectedEnvironments_Plan_def Let_def\<close>)
      qed (use x same Some \<open>environments_policy c = _\<close> in \<open>simp add: plan_returning_def ProtectedEnvironments_Plan_def Let_def\<close>)
    qed (simp add: plan_returning_def ProtectedEnvironments_Plan_def Let_def \<open>environments_policy c = _\<close>)
  qed (simp add: plan_returning_def ProtectedEnvironments_Plan_def Let_def)
qed

lemma approvals_plan_reads: "snd (snd (ApprovalRules_Plan (mock_client err) p c cs)) = snd cs"
proof -
  have users: "reads (resolveUserIDs (mock_client err) rule)" "reads (resolveGroupIDs (mock_client err) rule)" for rule
    unfolding resolveUserIDs_def resolveGroupIDs_def by (intro reads_rules)+
  have rules: "reads (plan_approval_rules (mock_client err) live rules acc)" for live rules acc
    by (induction rules arbitrary: acc) (auto simp: Let_def intro!: reads_rules users split: option.splits)
  have "reads (with_cache (GetApprovalConfiguration (mock_approvals err) pid))" "reads (with_cache (GetProjectApprovalRules (mock_approvals err) pid))" for pid
    by (rule reads_with_cache; simp add: listings_read)+
  then have "reads (approval_diffs (mock_client err) pid a)" for pid a
    unfolding approval_diffs_def plan_settings_def
    by (auto simp: Let_def intro!: reads_rules rules split: option.splits prod.splits)
  then have "snd (snd (rbind (approval_diffs (mock_client err) pid a) (\<lambda>ds. rreturn (f ds)) cs)) = snd cs" for pid a and f :: "diff list \<Rightarrow> plan_result"
    by (intro readsD reads_rules)
  then show ?thesis by (cases "approvals_policy c") (simp_all add: ApprovalRules_Plan_def Let_def)
qed

lemmas planning_cases = option.splits sum.splits prod.splits if_splits list.splits

lemma server_plans_read:
  "snd (PushRules_Plan (mock_client err) p c s) = s" "snd (PushRules_PlanGroup (mock_client err) g c s) = s"
  "snd (ProjectSettings_Plan (mock_client err) p c s) = s" "snd (PipelineRetention_Plan (mock_client err) p c s) = s"
  "snd (Compliance_Plan (mock_client err) p c s) = s" "snd (TargetBranchRules_Plan (mock_client err) p c s) = s"
  "snd (Webhooks_Plan parse prune (mock_client err) p c s) = s"
  "snd (Variables_Plan prune (mock_client err) p c s) = s" "snd (Variables_PlanGroup prune (mock_client err) g c s) = s"
  "snd (Members_Plan (mock_client err) today p c s) = s" "snd (Members_PlanGroup (mock_client err) g c s) = s"
proof -
  note defs = Let_def plan_push_rule_def mock_push_rules_def mock_projects_def mock_compliance_def mock_target_branch_rules_def
    mock_webhooks_def mock_variables_def mock_members_def
  show "snd (PushRules_Plan (mock_client err) p c s) = s" "snd (PushRules_PlanGroup (mock_client err) g c s) = s"
    by (auto simp: PushRules_Plan_def PushRules_PlanGroup_def defs split: planning_cases)
  show "snd (ProjectSettings_Plan (mock_client err) p c s) = s" "snd (PipelineRetention_Plan (mock_client err) p c s) = s"
    by (auto simp: ProjectSettings_Plan_def PipelineRetention_Plan_def defs split: planning_cases)
  show "snd (Compliance_Plan (mock_client err) p c s) = s" "snd (TargetBranchRules_Plan (mock_client err) p c s) = s"
    by (auto simp: Compliance_Plan_def calculateComplianceDiffs_def TargetBranchRules_Plan_def defs split: planning_cases)
  show "snd (Webhooks_Plan parse prune (mock_client err) p c s) = s"
    by (auto simp: Webhooks_Plan_def calculateWebhooksDiffs_def defs split: planning_cases)
  show "snd (Variables_Plan prune (mock_client err) p c s) = s" "snd (Variables_PlanGroup prune (mock_client err) g c s) = s"
    by (auto simp: Variables_Plan_def Variables_PlanGroup_def plan_variables_def project_variable_calls_def
        group_variable_calls_def defs split: planning_cases)
  show "snd (Members_Plan (mock_client err) today p c s) = s" "snd (Members_PlanGroup (mock_client err) g c s) = s"
    by (auto simp: Members_Plan_def Members_PlanGroup_def plan_audit_def auditProjectMembers_def auditGroupMembers_def defs
        split: planning_cases)
qed

lemma runner_diffs_reads: "snd (runner_diffs (mock_client err) rs cs ds s) = s"
  by (induction cs arbitrary: ds) (auto simp: mock_runners_def split: planning_cases)

lemma runners_plan_reads: "snd (Runners_Plan (mock_client err) p c s) = s"
proof -
  have "snd (calculateProjectDiffs (mock_client err) rc p s) = s" for rc
    using runner_diffs_reads [of err] by (simp add: calculateProjectDiffs_def mock_projects_def mock_runners_def Let_def split: planning_cases)
  then show ?thesis by (simp add: Runners_Plan_def Let_def case_prod_beta split: sum.split option.split)
qed

lemma lifted_plans:
  "(\<And>s. snd (f s) = s) \<Longrightarrow> fls_server (snd (on_server f st)) = fls_server st"
  "(\<And>cs. snd (snd (h cs)) = snd cs) \<Longrightarrow> fls_server (snd (with_tags_cache h st)) = fls_server st"
  "(\<And>cs. snd (snd (h cs)) = snd cs) \<Longrightarrow> fls_server (snd (with_environments_cache h st)) = fls_server st"
  "(\<And>cs. snd (snd (h cs)) = snd cs) \<Longrightarrow> fls_server (snd (with_approvals_cache h st)) = fls_server st"
  by (simp_all add: on_server_def with_tags_cache_def with_environments_cache_def with_approvals_cache_def case_prod_beta)

lemmas group_plans =
  RepositoryFiles_PlanGroup_def ProtectedBranches_PlanGroup_def BranchMerges_PlanGroup_def ProtectedTags_PlanGroup_def
  ProtectedEnvironments_PlanGroup_def ApprovalRules_PlanGroup_def ProjectSettings_PlanGroup_def PipelineRetention_PlanGroup_def
  Runners_PlanGroup_def Compliance_PlanGroup_def Webhooks_PlanGroup_def TargetBranchRules_PlanGroup_def

text \<open>No reconciler changes the remote instance while it plans.\<close>

lemma reconciler_plan_reads:
  "fls_server (snd (op_Plan (governance_reconciler sur (mock_client err) n k) p c st)) = fls_server st"
  by (simp add: governance_reconciler_def operation_def Let_def lifted_plans server_plans_read runners_plan_reads branches_plan_reads
      tags_plan_reads environments_plan_reads approvals_plan_reads BranchMerges_Plan_read_only RepositoryFiles_Plan_read_only)

lemma reconciler_plan_group_reads:
  "fls_server (snd (op_PlanGroup (governance_reconciler sur (mock_client err) n k) g c st)) = fls_server st"
  by (simp add: governance_reconciler_def operation_def Let_def lifted_plans server_plans_read group_plans)

lemma go_put_subset: "set (go_put k v m) \<subseteq> insert (k, v) (set m)"
  by (induction m) (auto simp: go_put_def)

lemma default_registry_operations:
  assumes "op \<in> snd ` set (NewDefaultRegistry mk)"
  shows "\<exists>n k. op = (mk n k)\<lparr>op_Name := n, op_Order := k\<rparr>"
proof -
  define X where "X = {(mk n k)\<lparr>op_Name := n, op_Order := k\<rparr> | n k. True}"
  define add where "add = (\<lambda>r (name, order). Register ((mk name order)\<lparr>op_Name := name, op_Order := order\<rparr>) r)"
  have step: "snd ` set (add r d) \<subseteq> snd ` set r \<union> X" for r d
  proof -
    obtain n k where d: "d = (n, k)" by (cases d)
    let ?op = "(mk n k)\<lparr>op_Name := n, op_Order := k\<rparr>"
    have "set (add r d) \<subseteq> insert (n, ?op) (set r)" using go_put_subset [of n ?op r] by (simp add: d add_def Register_def)
    then have "snd ` set (add r d) \<subseteq> snd ` insert (n, ?op) (set r)" by (rule image_mono)
    moreover have "?op \<in> X" unfolding X_def by blast
    ultimately show ?thesis by (simp only: image_insert snd_conv) (meson Un_iff insert_subset subset_insertI2 subset_trans insert_subsetI sup_ge1)
  qed
  have "snd ` set (foldl add r ds) \<subseteq> snd ` set r \<union> X" for r ds
  proof (induction ds arbitrary: r)
    case (Cons d ds)
    have "snd ` set (foldl add (add r d) ds) \<subseteq> snd ` set (add r d) \<union> X" by (rule Cons.IH)
    also have "\<dots> \<subseteq> snd ` set r \<union> X" using step [of r d] by (simp only: Un_subset_iff Un_upper2 simp_thms)
    finally show ?case by (simp only: foldl_Cons)
  qed simp
  from this [of "[]" default_operations] have "snd ` set (NewDefaultRegistry mk) \<subseteq> X"
    by (simp add: NewDefaultRegistry_def NewOperationsRegistry_def add_def)
  with assms show ?thesis unfolding X_def by blast
qed

interpretation governance: planning_keeps "governance_registry sur (mock_client err)" "\<lambda>st. fls_server st = st0"
  for sur err st0
proof
  fix op p c g and s :: "mock_state fleet_state"
  assume op: "op \<in> snd ` set (governance_registry sur (mock_client err))" and s: "fls_server s = st0"
  from op obtain n o' where "op = (governance_reconciler sur (mock_client err) n o')\<lparr>op_Name := n, op_Order := o'\<rparr>"
    unfolding governance_registry_def using default_registry_operations by blast
  with s show "fls_server (snd (op_Plan op p c s)) = st0" "fls_server (snd (op_PlanGroup op g c s)) = st0"
    by (simp_all add: reconciler_plan_reads reconciler_plan_group_reads)
qed

text \<open>
  Property C1. The whole program in dry-run mode changes nothing: with the engine \<^verbatim>\<open>NewGovernanceEngine\<close> builds
  over the fifteen reconcilers, \<^verbatim>\<open>runWithOptions\<close> leaves the mock GitLab server as it was, for every
  policy, fleet, worker schedule, cancellation, environment and server state.
\<close>

theorem governance_dry_run_safe:
  assumes "NewGovernanceEngine (governance_reconciler sur (mock_client err)) client cfg [] = Inr e"
    and "runWithOptions rt mk e config True c st = Some (out, st')"
  shows "fls_server st' = fls_server st"
proof -
  have "eng_registry e = Some (governance_registry sur (mock_client err))"
    using assms(1) by (auto simp: NewGovernanceEngine_def governance_registry_def Let_def split: option.splits)
  with assms(2) show ?thesis by (rule governance.dry_run_keeps) (rule refl)
qed

text \<open>One project, one worker and an empty policy, over a server that starts empty.\<close>

definition ex_surroundings :: surroundings where
  "ex_surroundings =
     \<lparr>sur_load = (\<lambda>_. Inr []), sur_lookup = (\<lambda>_. None), sur_today = 0, sur_parse_url = (\<lambda>_. None), sur_order = (\<lambda>_ ns. ns)\<rparr>"

definition ex_fleet_runtime :: "mock_state fleet_state engine_runtime" where
  "ex_fleet_runtime =
     \<lparr>rn_discovery = ex_runtime [], rn_license = ex_lic_env, rn_serverTime = (\<lambda>_. Some 0), rn_group_events = [],
      rn_project_events = [PSubmit 0, PTake 0, PStart 0, PClose, PFinish 0, PExit 0],
      rn_target_ctx = (\<lambda>_ _ _. None)\<rparr>"

definition ex_fleet_state :: "mock_state fleet_state" where
  "ex_fleet_state =
     \<lparr>fls_tags = NewCachingResolver, fls_environments = NewCachingResolver, fls_approvals = NewCachingResolver, fls_server = NewState\<rparr>"

lemma one_worker_one_item:
  "ParallelMap [PSubmit 0, PTake 0, PStart 0, PClose, PFinish 0, PExit 0] 1 [x] fn s \<noteq> None"
  by (simp add: ParallelMap_def complete_run_def NewWorkerPool_def enqueue_def worker_at_def set_worker_def all_exited_def
      recordError_def case_prod_beta Let_def split: option.split)

lemma ex_discovery:
  "\<exists>fleet. DiscoverFleet (rn_discovery ex_fleet_runtime) (Some ex_client) (cfg_Targets ex_policy) [WithConcurrency 1] = Some (Inr fleet)
     \<and> length (ProjectList fleet) = 1 \<and> GroupList fleet = []"
proof -
  have "(case DiscoverFleet (rn_discovery ex_fleet_runtime) (Some ex_client) (cfg_Targets ex_policy) [WithConcurrency 1] of
      Some (Inr fleet) \<Rightarrow> length (ProjectList fleet) = 1 \<and> GroupList fleet = [] | _ \<Rightarrow> False)"
    by code_simp
  then show ?thesis by (auto split: option.splits sum.splits)
qed

lemma ex_fleet_run:
  assumes "eng_client e = Some (\<lambda>_. ex_client)"
  shows "\<exists>out st'. runWithOptions ex_fleet_runtime mk e (Some ex_policy) True 1 st = Some (out, st')"
proof -
  have "runWithOptions ex_fleet_runtime mk e (Some ex_policy) True 1 st \<noteq> None"
  proof -
    obtain fleet where fleet: "DiscoverFleet (rn_discovery ex_fleet_runtime) (Some ex_client) (cfg_Targets ex_policy) [WithConcurrency 1] = Some (Inr fleet)"
      and "length (ProjectList fleet) = 1" and groups: "GroupList fleet = []" using ex_discovery by blast
    then obtain p where projects: "ProjectList fleet = [p]" by (auto simp: length_Suc_conv)
    have "run_targets ex_fleet_runtime reg ex_policy True 1 fleet m st \<noteq> None" for reg m
      using one_worker_one_item
      by (simp add: run_targets_def groups projects ex_fleet_runtime_def ParallelMap_def [of _ _ "[]"] case_prod_beta Let_def split: option.split)
    with fleet assms show ?thesis by (auto simp: runWithOptions_def Let_def split: option.split; metis option.distinct(1))
  qed
  then show ?thesis by auto
qed

theorem governance_dry_run_safe_witness:
  "\<exists>e out st'. NewGovernanceEngine (governance_reconciler ex_surroundings (mock_client (\<lambda>_ m. Err m))) (Some (\<lambda>_. ex_client))
       (Some ex_policy) [] = Inr e
     \<and> runWithOptions ex_fleet_runtime (governance_reconciler ex_surroundings (mock_client (\<lambda>_ m. Err m))) e (Some ex_policy) True 1
         ex_fleet_state = Some (out, st')
     \<and> fls_server st' = NewState"
proof -
  let ?mk = "governance_reconciler ex_surroundings (mock_client (\<lambda>_ m. Err m))"
  obtain e where e: "NewGovernanceEngine ?mk (Some (\<lambda>_. ex_client)) (Some ex_policy) [] = Inr e" "eng_client e = Some (\<lambda>_. ex_client)"
    by (simp add: NewGovernanceEngine_def Let_def)
  from ex_fleet_run [OF this(2)] obtain out st' where run: "runWithOptions ex_fleet_runtime ?mk e (Some ex_policy) True 1 ex_fleet_state = Some (out, st')"
    by blast
  from governance_dry_run_safe [OF e(1) run] e(1) run show ?thesis by (auto simp: ex_fleet_state_def)
qed

end
