(* ===== verification/Validator.thy ===== *)
theory Validator
  imports Config_Loader Project_Filter
begin

section \<open>Validation of a policy\<close>

text \<open>
  \<^verbatim>\<open>internal/config/validator.go\<close>: the semantic checks of a loaded policy, which collect every error in
  order. A check returns the errors it appends. The regular expression compiler and the URL
  parser of the standard library are arguments (\<open>compile\<close> gives the error, \<open>parse_uri\<close> scheme and host).
\<close>

subsection \<open>Errors and warnings\<close>

datatype validation_value = NoValue | IntValue int | StrValue string | FloatValue rat

record validation_error =
  ve_Field :: string
  ve_Message :: string
  ve_Value :: validation_value

type_synonym validation_errors = "validation_error list"

definition value_text :: "(rat \<Rightarrow> string) \<Rightarrow> validation_value \<Rightarrow> string" where
  "value_text fmt_float v =
     (case v of NoValue \<Rightarrow> ''<nil>'' | IntValue i \<Rightarrow> fmt_d i | StrValue s \<Rightarrow> s | FloatValue r \<Rightarrow> fmt_float r)"

definition error_line :: "(rat \<Rightarrow> string) \<Rightarrow> nat \<times> validation_error \<Rightarrow> string" where
  "error_line fmt_float p =
     (case p of (i, e) \<Rightarrow>
        ''  ['' @ fmt_d (int i + 1) @ ''] '' @ ve_Field e @ '': '' @ ve_Message e
          @ (if ve_Value e \<noteq> NoValue then '' (got: '' @ value_text fmt_float (ve_Value e) @ '')'' else []) @ [CHR 0x0A])"

definition ValidationErrors_Error :: "(rat \<Rightarrow> string) \<Rightarrow> validation_errors \<Rightarrow> string" where
  "ValidationErrors_Error fmt_float v =
     (if v = [] then []
      else ''configuration validation failed with '' @ fmt_d (int (length v)) @ '' error(s):'' @ [CHR 0x0A]
             @ concat (map (error_line fmt_float) (enumerate 0 v)))"

subsection \<open>Building blocks\<close>

definition complain :: "bool \<Rightarrow> string \<Rightarrow> string \<Rightarrow> validation_value \<Rightarrow> validation_errors" where
  "complain bad field message v = (if bad then [\<lparr>ve_Field = field, ve_Message = message, ve_Value = v\<rparr>] else [])"

text \<open>A check of every entry of a list, each at its place.\<close>

definition at_each :: "(string \<Rightarrow> 'a \<Rightarrow> 'e list) \<Rightarrow> string \<Rightarrow> 'a list \<Rightarrow> 'e list" where
  "at_each check place xs = concat (map (\<lambda>(i, x). check (place @ ''['' @ fmt_d (int i) @ '']'') x) (enumerate 0 xs))"

text \<open>An optional part is checked where it is there.\<close>

definition if_present :: "('a \<Rightarrow> 'e list) \<Rightarrow> 'a option \<Rightarrow> 'e list" where
  "if_present check x = (case x of None \<Rightarrow> [] | Some a \<Rightarrow> check a)"

text \<open>A string that is empty or one of the choices; \<open>fold_case\<close> for a comparison that ignores case.\<close>

definition one_of :: "(string \<Rightarrow> string) \<Rightarrow> string list \<Rightarrow> string \<Rightarrow> string \<Rightarrow> string \<Rightarrow> string \<Rightarrow> validation_errors" where
  "one_of fold_case choices must field what v =
     complain (v \<noteq> [] \<and> fold_case v \<notin> set choices) field
       (''invalid '' @ what @ '' '' @ squote v @ '' (must be '' @ must @ '')'') (StrValue v)"

definition non_negative :: "string \<Rightarrow> string \<Rightarrow> int \<Rightarrow> validation_errors" where
  "non_negative field what v = complain (v < 0) field (what @ '' must be non-negative'') (IntValue v)"

definition level_in :: "int list \<Rightarrow> string \<Rightarrow> string \<Rightarrow> string \<Rightarrow> int \<Rightarrow> validation_errors" where
  "level_in levels must field what v =
     complain (v \<notin> set levels) field (''invalid '' @ what @ '' '' @ fmt_d v @ '' (must be '' @ must @ '')'') (IntValue v)"

definition checkRegex :: "(string \<Rightarrow> go_error option) \<Rightarrow> string \<Rightarrow> string \<Rightarrow> validation_errors" where
  "checkRegex compile pattern field =
     (if pattern = [] then []
      else if_present (\<lambda>e. complain True field (''invalid regular expression: '' @ err_msg e) (StrValue pattern)) (compile pattern))"

text \<open>The entries of a list with whether an earlier one has the same key: the \<^verbatim>\<open>seen\<close> maps of the source.\<close>

fun mark_seen :: "'k list \<Rightarrow> ('a \<Rightarrow> 'k) \<Rightarrow> 'a list \<Rightarrow> ('a \<times> bool) list" where
  "mark_seen seen key [] = []"
| "mark_seen seen key (x # xs) = (x, key x \<in> set seen) # mark_seen (key x # seen) key xs"

subsection \<open>Settings and targets\<close>

definition validateGitLabSettings :: "gitlab_settings_config \<Rightarrow> string \<Rightarrow> validation_errors" where
  "validateGitLabSettings g pre =
     one_of ToLower [''private_token'', ''oauth'', ''job_token''] ''private_token, oauth, or job_token''
       (pre @ ''.token_type'') ''token_type'' (gls_TokenType g)
     @ non_negative (pre @ ''.timeout_seconds'') ''timeout_seconds'' (gls_TimeoutSeconds g)
     @ complain (gls_RateLimitRPS g < 0) (pre @ ''.rate_limit_rps'') ''rate_limit_rps must be non-negative'' (FloatValue (gls_RateLimitRPS g))
     @ non_negative (pre @ ''.rate_limit_burst'') ''rate_limit_burst'' (gls_RateLimitBurst g)
     @ non_negative (pre @ ''.max_retries'') ''max_retries'' (gls_MaxRetries g)
     @ non_negative (pre @ ''.retry_base_delay_ms'') ''retry_base_delay_ms'' (gls_RetryBaseDelayMs g)
     @ non_negative (pre @ ''.retry_max_delay_ms'') ''retry_max_delay_ms'' (gls_RetryMaxDelayMs g)
     @ complain (gls_RetryBaseDelayMs g > 0 \<and> gls_RetryMaxDelayMs g > 0 \<and> gls_RetryBaseDelayMs g > gls_RetryMaxDelayMs g)
         (pre @ ''.retry_base_delay_ms'')
         (''retry_base_delay_ms ('' @ fmt_d (gls_RetryBaseDelayMs g) @ '') cannot be greater than retry_max_delay_ms ('' @
            fmt_d (gls_RetryMaxDelayMs g) @ '')'') NoValue"

definition validateSettings :: "settings_config \<Rightarrow> string \<Rightarrow> validation_errors" where
  "validateSettings s pre =
     complain (set_Concurrency s < 0) (pre @ ''.concurrency'')
       (''concurrency must be at least 1 (got '' @ fmt_d (set_Concurrency s) @ '')'') (IntValue (set_Concurrency s))
     @ one_of ToLower [''debug'', ''info'', ''warn'', ''error''] ''debug, info, warn, or error''
         (pre @ ''.log_level'') ''log_level'' (set_LogLevel s)
     @ one_of ToLower [''text'', ''json''] ''text or json'' (pre @ ''.log_format'') ''log_format'' (set_LogFormat s)
     @ one_of ToLower [''table'', ''json'', ''csv'', ''markdown''] ''table, json, csv, or markdown''
         (pre @ ''.report_format'') ''report_format'' (set_ReportFormat s)
     @ validateGitLabSettings (set_GitLab s) (pre @ ''.gitlab'')"

definition group_id_check :: "string \<Rightarrow> int \<Rightarrow> validation_errors" where
  "group_id_check field i = complain (i \<le> 0) field (''group ID must be positive (got '' @ fmt_d i @ '')'') (IntValue i)"

definition group_path_check :: "string \<Rightarrow> string \<Rightarrow> validation_errors" where
  "group_path_check field path =
     complain (blank path \<or> HasPrefix path ''/'' \<or> HasSuffix path ''/'') field
       (''invalid group path '' @ squote path @ '' (must be non-empty without leading/trailing slashes)'') (StrValue path)"

definition validateGroupSelector :: "group_selector \<Rightarrow> string \<Rightarrow> validation_errors" where
  "validateGroupSelector g pre =
     at_each group_id_check (pre @ ''.group_ids_include'') (gsel_GroupIDsInclude g)
     @ at_each group_id_check (pre @ ''.group_ids_exclude'') (gsel_GroupIDsExclude g)
     @ at_each group_path_check (pre @ ''.group_paths_include'') (gsel_GroupPathsInclude g)
     @ at_each group_path_check (pre @ ''.group_paths_exclude'') (gsel_GroupPathsExclude g)"

definition validate_id_range :: "string \<Rightarrow> id_range \<Rightarrow> validation_errors" where
  "validate_id_range field r =
     complain (idr_Min r < 0) (field @ ''.min'') (''min must be non-negative (got '' @ fmt_d (idr_Min r) @ '')'') (IntValue (idr_Min r))
     @ complain (idr_Max r < 0) (field @ ''.max'') (''max must be non-negative (got '' @ fmt_d (idr_Max r) @ '')'') (IntValue (idr_Max r))
     @ complain (idr_Min r > 0 \<and> idr_Max r > 0 \<and> idr_Min r > idr_Max r) field
         (''min ('' @ fmt_d (idr_Min r) @ '') cannot be greater than max ('' @ fmt_d (idr_Max r) @ '')'') NoValue"

definition validateProjectSelector :: "(string \<Rightarrow> go_error option) \<Rightarrow> project_selector \<Rightarrow> string \<Rightarrow> validation_errors" where
  "validateProjectSelector compile p pre =
     checkRegex compile (psel_ProjectNameRegexInclude p) (pre @ ''.project_name_regex_include'')
     @ checkRegex compile (psel_ProjectNameRegexExclude p) (pre @ ''.project_name_regex_exclude'')
     @ one_of ToLower [''public'', ''internal'', ''private'', ''any''] ''public, internal, private, or any''
         (pre @ ''.visibility'') ''visibility'' (psel_Visibility p)
     @ if_present (validate_id_range (pre @ ''.id_range'')) (psel_IDRange p)"

definition validateTargets :: "(string \<Rightarrow> go_error option) \<Rightarrow> target_selectors \<Rightarrow> string \<Rightarrow> validation_errors" where
  "validateTargets compile t pre =
     if_present (\<lambda>g. validateGroupSelector g (pre @ ''.group_selector'')) (ts_GroupSelector t)
     @ if_present (\<lambda>p. validateProjectSelector compile p (pre @ ''.project_selector'')) (ts_ProjectSelector t)"

subsection \<open>Branches, tags and environments\<close>

definition validatePushRules :: "(string \<Rightarrow> go_error option) \<Rightarrow> push_rules_config \<Rightarrow> string \<Rightarrow> validation_errors" where
  "validatePushRules compile r pre =
     checkRegex compile (pu_AuthorEmailRegex r) (pre @ ''.author_email_regex'')
     @ checkRegex compile (pu_BranchNameRegex r) (pre @ ''.branch_name_regex'')
     @ checkRegex compile (pu_CommitMessageRegex r) (pre @ ''.commit_message_regex'')
     @ checkRegex compile (pu_CommitMessageNegativeRegex r) (pre @ ''.commit_message_negative_regex'')
     @ checkRegex compile (pu_FileNameRegex r) (pre @ ''.file_name_regex'')
     @ if_present (non_negative (pre @ ''.max_file_size'') ''max_file_size'') (pu_MaxFileSize r)"

definition validateBranchAccess :: "string \<Rightarrow> branch_access_description \<Rightarrow> validation_errors" where
  "validateBranchAccess place access =
     level_in [0, 30, 40, 60] ''0, 30, 40, or 60'' (place @ ''.access_level'') ''access level'' (bad_AccessLevel access)
     @ non_negative (place @ ''.user_id'') ''user_id'' (bad_UserID access)
     @ non_negative (place @ ''.group_id'') ''group_id'' (bad_GroupID access)
     @ non_negative (place @ ''.deploy_key_id'') ''deploy_key_id'' (bad_DeployKeyID access)"

definition validateProtectedBranch :: "string \<Rightarrow> protected_branch_rule_config \<Rightarrow> validation_errors" where
  "validateProtectedBranch pre b =
     complain (blank (pb_Name b)) (pre @ ''.name'') ''protected branch name cannot be empty'' NoValue
     @ at_each validateBranchAccess (pre @ ''.allowed_to_push'') (pb_AllowedToPush b)
     @ at_each validateBranchAccess (pre @ ''.allowed_to_merge'') (pb_AllowedToMerge b)
     @ at_each validateBranchAccess (pre @ ''.allowed_to_unprotect'') (pb_AllowedToUnprotect b)"

definition validateTagAccess :: "string \<Rightarrow> tag_access_description \<Rightarrow> validation_errors" where
  "validateTagAccess place access =
     level_in [0, 30, 40, 50, 60] ''0, 30, 40, 50, or 60'' (place @ ''.access_level'') ''access level'' (tad_AccessLevel access)
     @ non_negative (place @ ''.user_id'') ''user_id'' (tad_UserID access)
     @ non_negative (place @ ''.group_id'') ''group_id'' (tad_GroupID access)"

definition validateProtectedTag :: "string \<Rightarrow> protected_tag_rule_config \<Rightarrow> validation_errors" where
  "validateProtectedTag pre t =
     complain (blank (pt_Name t)) (pre @ ''.name'') ''protected tag name cannot be empty'' NoValue
     @ complain (pt_AllowedToCreate t = []) (pre @ ''.allowed_to_create'') ''at least one allowed_to_create entry is required'' NoValue
     @ at_each validateTagAccess (pre @ ''.allowed_to_create'') (pt_AllowedToCreate t)"

definition duplicate_name :: "string \<Rightarrow> string \<Rightarrow> bool \<Rightarrow> string \<Rightarrow> validation_errors" where
  "duplicate_name field what seen name = complain (name \<noteq> [] \<and> seen) field (''duplicate '' @ what @ '' '' @ squote name) (StrValue name)"

definition validate_tags :: "protected_tags_config \<Rightarrow> string \<Rightarrow> validation_errors" where
  "validate_tags t pre =
     at_each (\<lambda>place (pt, seen). validateProtectedTag place pt
                @ duplicate_name (place @ ''.name'') ''protected tag rule for pattern'' seen (TrimSpace (pt_Name pt)))
       (pre @ ''.protected_tags'') (mark_seen [] (TrimSpace \<circ> pt_Name) (pts_Rules t))"

definition validateEnvironmentAccess :: "string \<Rightarrow> environment_access_description \<Rightarrow> validation_errors" where
  "validateEnvironmentAccess place access =
     level_in [0, 30, 40, 60] ''0, 30, 40, or 60'' (place @ ''.access_level'') ''access level'' (ead_AccessLevel access)
     @ non_negative (place @ ''.user_id'') ''user_id'' (ead_UserID access)
     @ non_negative (place @ ''.group_id'') ''group_id'' (ead_GroupID access)"

definition not_negative_count :: "string \<Rightarrow> string \<Rightarrow> int \<Rightarrow> validation_errors" where
  "not_negative_count field what n = complain (n < 0) field (what @ '' cannot be negative (got '' @ fmt_d n @ '')'') (IntValue n)"

definition validateEnvironmentApproval :: "string \<Rightarrow> environment_approval_rule_config \<Rightarrow> validation_errors" where
  "validateEnvironmentApproval place rule =
     level_in [0, 30, 40, 60] ''0, 30, 40, or 60'' (place @ ''.access_level'') ''access level'' (ear_AccessLevel rule)
     @ non_negative (place @ ''.user_id'') ''user_id'' (ear_UserID rule)
     @ non_negative (place @ ''.group_id'') ''group_id'' (ear_GroupID rule)
     @ if_present (not_negative_count (place @ ''.required_approvals'') ''required_approvals'') (ear_RequiredApprovalCount rule)"

definition validateProtectedEnvironment :: "string \<Rightarrow> protected_environment_rule_config \<Rightarrow> validation_errors" where
  "validateProtectedEnvironment pre e =
     complain (blank (pe_Name e)) (pre @ ''.name'') ''protected environment name cannot be empty'' NoValue
     @ if_present (not_negative_count (pre @ ''.required_approval_count'') ''required_approval_count'') (pe_RequiredApprovalCount e)
     @ at_each validateEnvironmentAccess (pre @ ''.deploy_access_levels'') (pe_DeployAccessLevels e)
     @ at_each validateEnvironmentApproval (pre @ ''.approval_rules'') (pe_ApprovalRules e)"

definition validate_environments :: "protected_environments_config \<Rightarrow> string \<Rightarrow> validation_errors" where
  "validate_environments t pre =
     at_each (\<lambda>place (pe, seen). validateProtectedEnvironment place pe
                @ duplicate_name (place @ ''.name'') ''protected environment rule for environment'' seen (TrimSpace (pe_Name pe)))
       (pre @ ''.protected_environments'') (mark_seen [] (TrimSpace \<circ> pe_Name) (pes_Rules t))"

subsection \<open>Approvals, settings and retention\<close>

definition has_approvers :: "approval_rule_config \<Rightarrow> bool" where
  "has_approvers rule \<longleftrightarrow> arl_UserUsernames rule \<noteq> [] \<or> arl_UserIDs rule \<noteq> [] \<or> arl_GroupPaths rule \<noteq> [] \<or> arl_GroupIDs rule \<noteq> []"

definition validateApprovalRule :: "string \<Rightarrow> approval_rule_config \<Rightarrow> validation_errors" where
  "validateApprovalRule place rule =
     complain (blank (arl_Name rule)) (place @ ''.name'') ''approval rule name cannot be empty'' NoValue
     @ complain (arl_ApprovalsRequired rule < 1) (place @ ''.approvals_required'')
         (''approvals_required must be at least 1 (got '' @ fmt_d (arl_ApprovalsRequired rule) @ '')'') (IntValue (arl_ApprovalsRequired rule))
     @ one_of id [''regular'', ''code_owner'', ''any_approver'', ''report_approver''] ''regular, code_owner, any_approver, or report_approver''
         (place @ ''.rule_type'') ''rule_type'' (arl_RuleType rule)
     @ complain (arl_RuleType rule \<noteq> ''any_approver'' \<and> \<not> has_approvers rule) place
         (''approval rule '' @ squote (arl_Name rule) @ '' requires at least one user or group approver'') NoValue"

definition validateApprovalRules :: "approval_rules_config \<Rightarrow> string \<Rightarrow> validation_errors" where
  "validateApprovalRules a pre = at_each validateApprovalRule (pre @ ''.rules'') (ars_Rules a)"

definition validate_expiration ::
  "(string \<Rightarrow> go_error option) \<Rightarrow> string \<Rightarrow> container_expiration_policy_config \<Rightarrow> validation_errors" where
  "validate_expiration compile pre cep =
     one_of id [''1d'', ''7d'', ''14d'', ''30d'', ''60d'', ''90d''] ''1d, 7d, 14d, 30d, 60d, or 90d'' (pre @ ''.cadence'') ''cadence'' (cep_Cadence cep)
     @ one_of id [''7d'', ''14d'', ''30d'', ''60d'', ''90d''] ''7d, 14d, 30d, 60d, or 90d'' (pre @ ''.older_than'') ''older_than'' (cep_OlderThan cep)
     @ if_present (level_in [0, 1, 5, 10, 25, 50, 100] ''0, 1, 5, 10, 25, 50, or 100'' (pre @ ''.keep_n'') ''keep_n'') (cep_KeepN cep)
     @ checkRegex compile (cep_NameRegex cep) (pre @ ''.name_regex'')
     @ checkRegex compile (cep_NameRegexDelete cep) (pre @ ''.name_regex_delete'')
     @ checkRegex compile (cep_NameRegexKeep cep) (pre @ ''.name_regex_keep'')"

definition validateProjectSettings :: "(string \<Rightarrow> go_error option) \<Rightarrow> project_settings_config \<Rightarrow> string \<Rightarrow> validation_errors" where
  "validateProjectSettings compile p pre =
     one_of id [''never'', ''always'', ''default_on'', ''default_off''] ''never, always, default_on, or default_off''
       (pre @ ''.squash_option'') ''squash_option'' (pjs_SquashOption p)
     @ one_of id [''merge'', ''rebase_merge'', ''ff''] ''merge, rebase_merge, or ff'' (pre @ ''.merge_method'') ''merge_method'' (pjs_MergeMethod p)
     @ one_of id [''enabled'', ''disabled''] ''enabled or disabled''
         (pre @ ''.auto_cancel_pending_pipelines'') ''auto_cancel_pending_pipelines'' (pjs_AutoCancelPendingPipelines p)
     @ if_present (validate_expiration compile (pre @ ''.container_expiration_policy'')) (pjs_ContainerExpirationPolicy p)"

definition validatePipelineRetention :: "pipeline_retention_config \<Rightarrow> string \<Rightarrow> validation_errors" where
  "validatePipelineRetention p pre =
     complain (prc_RetentionDays p < 0) (pre @ ''.retention_days'')
       (''retention_days must be non-negative (got '' @ fmt_d (prc_RetentionDays p) @ '')'') (IntValue (prc_RetentionDays p))"

subsection \<open>Variables, runners, compliance and webhooks\<close>

definition matches_all :: "(char \<Rightarrow> bool) \<Rightarrow> string \<Rightarrow> bool" where
  "matches_all P s \<longleftrightarrow> s \<noteq> [] \<and> list_all P s"

definition is_word :: "char \<Rightarrow> bool" where
  "is_word c \<longleftrightarrow> is_letter c \<or> is_digit c \<or> c = CHR ''_''"

text \<open>\<^verbatim>\<open>^[a-zA-Z0-9_]+$\<close> and \<^verbatim>\<open>^[a-zA-Z0-9_+=/@:~.-]+$\<close>\<close>

definition varKeyRegex :: "string \<Rightarrow> bool" where
  "varKeyRegex = matches_all is_word"

definition maskedValRegex :: "string \<Rightarrow> bool" where
  "maskedValRegex = matches_all (\<lambda>c. is_word c \<or> c \<in> set ''+=/@:~.-'')"

definition redacted :: validation_value where
  "redacted = StrValue ''[REDACTED]''"

definition validateVariable :: "string \<Rightarrow> string \<Rightarrow> variable_config \<times> bool \<Rightarrow> validation_errors" where
  "validateVariable pre place p =
     (case p of (v, seen) \<Rightarrow>
        (if blank (vc_Key v) then complain True (place @ ''.key'') ''variable key cannot be empty'' NoValue
         else complain (\<not> varKeyRegex (vc_Key v)) (place @ ''.key'')
                (''invalid variable key '' @ squote (vc_Key v) @ '' (must match '' @ squote ''^[a-zA-Z0-9_]+$'' @ '')'') (StrValue (vc_Key v)))
        @ one_of id [''env_var'', ''file''] ''env_var or file'' (place @ ''.variable_type'') ''variable_type'' (vc_VariableType v)
        @ (if vc_Masked v = Some True then
             (if length (vc_Value v) < 8 then
                complain True (place @ ''.value'')
                  (''masked CI/CD variable value must be at least 8 characters long (got '' @ fmt_d (int (length (vc_Value v))) @ '' characters)'') redacted
              else complain (\<not> maskedValRegex (vc_Value v)) (place @ ''.value'')
                     (''masked CI/CD variable value contains invalid characters; must match '' @ squote ''^[a-zA-Z0-9_+=/@:~.-]+$''
                        @ '' without spaces or newlines'') redacted)
           else [])
        @ complain seen pre
            (''duplicate variable key '' @ squote (vc_Key v) @ '' for environment scope '' @
               squote (if vc_EnvironmentScope v = [] then ''*'' else vc_EnvironmentScope v)) NoValue)"

definition validateVariables :: "variable_config list \<Rightarrow> string \<Rightarrow> validation_errors" where
  "validateVariables vars pre = at_each (validateVariable pre) pre (mark_seen [] CompositeKey vars)"

definition validateRunner :: "string \<Rightarrow> runner_config \<Rightarrow> validation_errors" where
  "validateRunner place runner =
     one_of id [''ref_protected'', ''not_protected''] ''ref_protected or not_protected'' (place @ ''.access_level'') ''access_level'' (rn_AccessLevel runner)
     @ if_present (non_negative (place @ ''.maximum_timeout'') ''maximum_timeout'') (rn_MaximumTimeout runner)"

definition validateRunners :: "runners_config \<Rightarrow> string \<Rightarrow> validation_errors" where
  "validateRunners r pre = at_each validateRunner (pre @ ''.runners'') (rns_Runners r)"

definition validateCompliance :: "compliance_config \<Rightarrow> string \<Rightarrow> validation_errors" where
  "validateCompliance c pre =
     complain (blank (cc_FrameworkName c) \<and> cc_FrameworkID c = None) pre
       ''compliance configuration requires either framework_name or framework_id'' NoValue"

definition web_url :: "(string \<Rightarrow> (string \<times> string) option) \<Rightarrow> string \<Rightarrow> bool" where
  "web_url parse_uri u \<longleftrightarrow> (case parse_uri u of None \<Rightarrow> False | Some (scheme, host) \<Rightarrow> scheme \<in> {''http'', ''https''} \<and> host \<noteq> [])"

definition validateWebhook :: "(string \<Rightarrow> (string \<times> string) option) \<Rightarrow> string \<Rightarrow> webhook_config \<Rightarrow> validation_errors" where
  "validateWebhook parse_uri pre w =
     (if blank (wh_URL w) then complain True (pre @ ''.url'') ''webhook url cannot be empty'' NoValue
      else complain (\<not> web_url parse_uri (wh_URL w)) (pre @ ''.url'')
             (''invalid webhook URL '' @ squote (wh_URL w) @ '' (must be a valid absolute HTTP/HTTPS URL)'') (StrValue (wh_URL w)))"


subsection \<open>Members\<close>

definition isValidMemberAccessLevel :: "int \<Rightarrow> bool" where
  "isValidMemberAccessLevel level \<longleftrightarrow> level \<in> {10, 20, 30, 40, 50}"

definition member_level :: "string \<Rightarrow> string \<Rightarrow> int \<Rightarrow> validation_errors" where
  "member_level field what v = level_in [10, 20, 30, 40, 50] ''10, 20, 30, 40, or 50'' field what v"

text \<open>\<^verbatim>\<open>time.Parse("2006-01-02", s)\<close> succeeds.\<close>

definition leap_year :: "nat \<Rightarrow> bool" where
  "leap_year y \<longleftrightarrow> y mod 4 = 0 \<and> (y mod 100 \<noteq> 0 \<or> y mod 400 = 0)"

definition days_in :: "nat \<Rightarrow> nat \<Rightarrow> nat" where
  "days_in m y = (if m = 2 then (if leap_year y then 29 else 28) else if m \<in> {4, 6, 9, 11} then 30 else 31)"

definition is_date :: "string \<Rightarrow> bool" where
  "is_date s \<longleftrightarrow>
     (length s = 10 \<and> s ! 4 = CHR ''-'' \<and> s ! 7 = CHR ''-''
      \<and> list_all is_digit (take 4 s) \<and> list_all is_digit (take 2 (drop 5 s)) \<and> list_all is_digit (drop 8 s)
      \<and> (let y = undigits (take 4 s); m = undigits (take 2 (drop 5 s)); d = undigits (drop 8 s)
         in 1 \<le> m \<and> m \<le> 12 \<and> 1 \<le> d \<and> d \<le> days_in m y))"

definition validateMemberRule :: "string \<Rightarrow> member_rule_config \<Rightarrow> validation_errors" where
  "validateMemberRule place m =
     complain (blank (mr_Username m)) (place @ ''.username'') ''member username cannot be empty'' NoValue
     @ member_level (place @ ''.access_level'') ''access level'' (mr_AccessLevel m)
     @ complain (mr_ExpiresAt m \<noteq> [] \<and> \<not> is_date (mr_ExpiresAt m)) (place @ ''.expires_at'')
         (''invalid expires_at format '' @ squote (mr_ExpiresAt m) @ '' (expected YYYY-MM-DD)'') (StrValue (mr_ExpiresAt m))"

definition levels_crossed :: "members_config \<Rightarrow> string \<Rightarrow> validation_errors" where
  "levels_crossed m pre =
     (case (mc_MinAccessLevel m, mc_MaxAccessLevel m) of
        (Some lo, Some hi) \<Rightarrow>
          complain (lo > hi) pre
            (''min_access_level ('' @ fmt_d lo @ '') cannot be greater than max_access_level ('' @ fmt_d hi @ '')'') NoValue
      | _ \<Rightarrow> [])"

definition validateMembers :: "members_config \<Rightarrow> string \<Rightarrow> validation_errors" where
  "validateMembers m pre =
     if_present (member_level (pre @ ''.min_access_level'') ''min_access_level'') (mc_MinAccessLevel m)
     @ if_present (member_level (pre @ ''.max_access_level'') ''max_access_level'') (mc_MaxAccessLevel m)
     @ levels_crossed m pre
     @ if_present (\<lambda>n. complain (n \<le> 0) (pre @ ''.max_expiration_days'')
                          (''max_expiration_days must be positive (got '' @ fmt_d n @ '')'') (IntValue n)) (mc_MaxExpirationDays m)
     @ at_each validateMemberRule (pre @ ''.allowed_members'') (mc_AllowedMembers m)"

subsection \<open>Target branch rules, files and merges\<close>

definition validateTargetBranchRule :: "string \<Rightarrow> target_branch_rule_config \<times> bool \<Rightarrow> validation_errors" where
  "validateTargetBranchRule place p =
     (case p of (rule, seen) \<Rightarrow>
        (let name = TrimSpace (tbr_Name rule); target = TrimSpace (tbr_TargetBranch rule) in
         (if name = [] then complain True (place @ ''.name'') ''target branch rule name (source pattern) cannot be empty'' NoValue
          else complain seen (place @ ''.name'') (''duplicate target branch rule for source pattern '' @ squote name) (StrValue name))
         @ (if target = [] then complain True (place @ ''.target_branch'') ''target branch rule target_branch cannot be empty'' NoValue
            else complain (name \<noteq> [] \<and> name = target) place
                   (''target branch rule source pattern '' @ squote name @ '' cannot be identical to target branch '' @ squote target) NoValue)))"

definition validateTargetBranchRules :: "target_branch_rules_config \<Rightarrow> string \<Rightarrow> validation_errors" where
  "validateTargetBranchRules t pre =
     at_each validateTargetBranchRule (pre @ ''.rules'') (mark_seen [] (TrimSpace \<circ> tbr_Name) (tbs_Rules t))"

text \<open>The lint warning for a catch-all pattern before another rule; a rule comes with the next one.\<close>

definition shadowing_warning :: "string \<Rightarrow> target_branch_rule_config \<times> target_branch_rule_config \<Rightarrow> validation_errors" where
  "shadowing_warning place p =
     (case p of (rule, next_rule) \<Rightarrow>
        (let name = TrimSpace (tbr_Name rule) in
         complain (name = ''*'') (place @ ''.name'')
           (''universal catch-all '' @ squote ''*'' @ '' is placed before subsequent pattern '' @ squote (TrimSpace (tbr_Name next_rule))
              @ ''; target branch rules are evaluated in top-to-bottom order and earlier wildcards will shadow subsequent rules'')
           (StrValue name)))"

definition target_branch_warnings :: "target_branch_rules_config \<Rightarrow> string \<Rightarrow> validation_errors" where
  "target_branch_warnings t pre = at_each shadowing_warning (pre @ ''.rules'') (zip (tbs_Rules t) (tl (tbs_Rules t)))"

definition leaves_repository :: "string \<Rightarrow> bool" where
  "leaves_repository p \<longleftrightarrow> HasPrefix p ''../'' \<or> p = ''..''"

definition validateRepositoryFile :: "string \<Rightarrow> repository_file_config \<Rightarrow> validation_errors" where
  "validateRepositoryFile place f =
     (let rawPath = TrimSpace (rf_Path f);
          hasContent = rf_Content f \<noteq> []; hasContentFile = \<not> blank (rf_ContentFile f); hasEnsureContains = rf_EnsureContains f \<noteq> [] in
      (if rawPath = [] then complain True (place @ ''.path'') ''repository file path cannot be empty'' NoValue
       else complain (leaves_repository (path_Clean (ReplaceAll rawPath [CHR 0x5C] ''/''))) (place @ ''.path'')
              (''repository file path '' @ squote (rf_Path f) @ '' cannot contain directory traversal ('' @ squote ''..'' @ '')'') (StrValue (rf_Path f)))
      @ complain (\<not> hasContent \<and> \<not> hasContentFile \<and> \<not> hasEnsureContains) place
          (''repository file policy '' @ squote (rf_Path f) @ '' requires at least one of '' @ squote ''content'' @ '', '' @ squote ''content_file''
             @ '', or '' @ squote ''ensure_contains'') NoValue
      @ complain (hasContent \<and> hasContentFile) place
          (''repository file policy '' @ squote (rf_Path f) @ '' cannot specify both '' @ squote ''content'' @ '' and '' @ squote ''content_file'') NoValue
      @ complain ((hasContent \<or> hasContentFile) \<and> hasEnsureContains) place
          (''repository file policy '' @ squote (rf_Path f) @ '' cannot combine full file content ('' @ squote ''content'' @ ''/'' @ squote ''content_file''
             @ '') with '' @ squote ''ensure_contains'') NoValue
      @ complain (rf_Enforcement f \<noteq> [] \<and> ToLower (rf_Enforcement f) \<notin> set [''direct_commit'', ''merge_request'', ''audit_only'']) (place @ ''.enforcement'')
          (''invalid enforcement mode '' @ squote (rf_Enforcement f) @ '' (must be direct_commit, merge_request, or audit_only)'') (StrValue (rf_Enforcement f)))"

definition validateRepositoryFiles :: "repository_file_config list \<Rightarrow> string \<Rightarrow> validation_errors" where
  "validateRepositoryFiles files pre = at_each validateRepositoryFile pre files"

definition validateBranchMerge :: "string \<Rightarrow> branch_merge_rule_config \<Rightarrow> validation_errors" where
  "validateBranchMerge place m =
     (let src = TrimSpace (bm_SourceBranch m); tgt = TrimSpace (bm_TargetBranch m) in
      complain (src = []) (place @ ''.source_branch'') ''source_branch is required and cannot be empty'' NoValue
      @ complain (tgt = []) (place @ ''.target_branch'') ''target_branch is required and cannot be empty'' NoValue
      @ complain (src \<noteq> [] \<and> tgt \<noteq> [] \<and> src = tgt) (place @ ''.target_branch'')
          (''target_branch cannot be identical to source_branch ('' @ squote src @ '')'') (StrValue tgt))"

definition validateBranchMerges :: "branch_merge_rule_config list \<Rightarrow> string \<Rightarrow> validation_errors" where
  "validateBranchMerges merges pre = at_each validateBranchMerge pre merges"

subsection \<open>The whole policy\<close>

definition validatePolicies ::
  "(string \<Rightarrow> go_error option) \<Rightarrow> (string \<Rightarrow> (string \<times> string) option) \<Rightarrow> policies_config \<Rightarrow> string \<Rightarrow> validation_errors" where
  "validatePolicies compile parse_uri p pre =
     if_present (\<lambda>r. validatePushRules compile r (pre @ ''.push_rules'')) (pol_PushRules p)
     @ at_each validateProtectedBranch (pre @ ''.protected_branches'') (pol_ProtectedBranches p)
     @ if_present (\<lambda>t. validate_tags t pre) (pol_ProtectedTags p)
     @ if_present (\<lambda>e. validate_environments e pre) (pol_ProtectedEnvironments p)
     @ if_present (\<lambda>a. validateApprovalRules a (pre @ ''.approval_rules'')) (pol_ApprovalRules p)
     @ if_present (\<lambda>s. validateProjectSettings compile s (pre @ ''.project_settings'')) (pol_ProjectSettings p)
     @ if_present (\<lambda>r. validatePipelineRetention r (pre @ ''.pipeline_retention'')) (pol_PipelineRetention p)
     @ validateVariables (pol_Variables p) (pre @ ''.variables'')
     @ if_present (\<lambda>r. validateRunners r (pre @ ''.runners'')) (pol_Runners p)
     @ if_present (\<lambda>c. validateCompliance c (pre @ ''.compliance'')) (pol_Compliance p)
     @ at_each (validateWebhook parse_uri) (pre @ ''.webhooks'') (pol_Webhooks p)
     @ if_present (\<lambda>m. validateMembers m (pre @ ''.members'')) (pol_Members p)
     @ if_present (\<lambda>t. validateTargetBranchRules t (pre @ ''.target_branch_rules'')) (pol_TargetBranchRules p)
     @ validateRepositoryFiles (pol_RepositoryFiles p) (pre @ ''.repository_files'')
     @ validateBranchMerges (pol_BranchMerges p) (pre @ ''.branch_merges'')"

text \<open>The errors, none being success, and the warnings.\<close>

definition ValidateWithWarnings ::
  "(string \<Rightarrow> go_error option) \<Rightarrow> (string \<Rightarrow> (string \<times> string) option) \<Rightarrow> policy_config option
   \<Rightarrow> validation_errors option \<times> validation_errors" where
  "ValidateWithWarnings compile parse_uri cfg =
     (case cfg of
        None \<Rightarrow> (Some [\<lparr>ve_Field = ''config'', ve_Message = ''policy config cannot be nil'', ve_Value = NoValue\<rparr>], [])
      | Some c \<Rightarrow>
          (let errs = validateSettings (cfg_Settings c) ''settings'' @ validateTargets compile (cfg_Targets c) ''targets''
                        @ validatePolicies compile parse_uri (cfg_Policies c) ''policies'';
               warns = if_present (\<lambda>t. target_branch_warnings t ''policies.target_branch_rules'') (pol_TargetBranchRules (cfg_Policies c))
           in (if errs \<noteq> [] then Some errs else None, warns)))"

definition Validate ::
  "(string \<Rightarrow> go_error option) \<Rightarrow> (string \<Rightarrow> (string \<times> string) option) \<Rightarrow> policy_config option \<Rightarrow> validation_errors option" where
  "Validate compile parse_uri cfg = fst (ValidateWithWarnings compile parse_uri cfg)"

text \<open>As the fourth stage of \<^verbatim>\<open>Load\<close>.\<close>

definition validation_stage ::
  "(rat \<Rightarrow> string) \<Rightarrow> (string \<Rightarrow> go_error option) \<Rightarrow> (string \<Rightarrow> (string \<times> string) option) \<Rightarrow> policy_config \<Rightarrow> go_error option" where
  "validation_stage fmt_float compile parse_uri cfg =
     map_option (\<lambda>errs. Err (ValidationErrors_Error fmt_float errs)) (Validate compile parse_uri (Some cfg))"


subsection \<open>Well-formed policies\<close>

text \<open>What validation is to guarantee, without places and messages.\<close>

definition choice :: "(string \<Rightarrow> string) \<Rightarrow> string list \<Rightarrow> string \<Rightarrow> bool" where
  "choice fold_case choices v \<longleftrightarrow> v = [] \<or> fold_case v \<in> set choices"

definition regex_ok :: "(string \<Rightarrow> go_error option) \<Rightarrow> string \<Rightarrow> bool" where
  "regex_ok compile r \<longleftrightarrow> r = [] \<or> compile r = None"

definition at_most_once :: "('a \<Rightarrow> string) \<Rightarrow> 'a list \<Rightarrow> bool" where
  "at_most_once key xs \<longleftrightarrow> distinct (map key xs)"

definition gitlab_settings_ok :: "gitlab_settings_config \<Rightarrow> bool" where
  "gitlab_settings_ok g \<longleftrightarrow> choice ToLower [''private_token'', ''oauth'', ''job_token''] (gls_TokenType g)
     \<and> 0 \<le> gls_TimeoutSeconds g \<and> 0 \<le> gls_RateLimitRPS g \<and> 0 \<le> gls_RateLimitBurst g \<and> 0 \<le> gls_MaxRetries g
     \<and> 0 \<le> gls_RetryBaseDelayMs g \<and> 0 \<le> gls_RetryMaxDelayMs g
     \<and> (gls_RetryBaseDelayMs g = 0 \<or> gls_RetryMaxDelayMs g = 0 \<or> gls_RetryBaseDelayMs g \<le> gls_RetryMaxDelayMs g)"

definition settings_ok :: "settings_config \<Rightarrow> bool" where
  "settings_ok s \<longleftrightarrow> 0 \<le> set_Concurrency s \<and> choice ToLower [''debug'', ''info'', ''warn'', ''error''] (set_LogLevel s)
     \<and> choice ToLower [''text'', ''json''] (set_LogFormat s)
     \<and> choice ToLower [''table'', ''json'', ''csv'', ''markdown''] (set_ReportFormat s) \<and> gitlab_settings_ok (set_GitLab s)"

definition group_path_ok :: "string \<Rightarrow> bool" where
  "group_path_ok p \<longleftrightarrow> \<not> blank p \<and> \<not> HasPrefix p ''/'' \<and> \<not> HasSuffix p ''/''"

definition id_range_ok :: "id_range \<Rightarrow> bool" where
  "id_range_ok r \<longleftrightarrow> 0 \<le> idr_Min r \<and> 0 \<le> idr_Max r \<and> (idr_Min r = 0 \<or> idr_Max r = 0 \<or> idr_Min r \<le> idr_Max r)"

definition targets_ok :: "(string \<Rightarrow> go_error option) \<Rightarrow> target_selectors \<Rightarrow> bool" where
  "targets_ok compile t \<longleftrightarrow>
     pred_option (\<lambda>g. list_all (\<lambda>i. 0 < i) (gsel_GroupIDsInclude g @ gsel_GroupIDsExclude g)
                    \<and> list_all group_path_ok (gsel_GroupPathsInclude g @ gsel_GroupPathsExclude g)) (ts_GroupSelector t)
     \<and> pred_option (\<lambda>p. regex_ok compile (psel_ProjectNameRegexInclude p) \<and> regex_ok compile (psel_ProjectNameRegexExclude p)
                    \<and> choice ToLower [''public'', ''internal'', ''private'', ''any''] (psel_Visibility p)
                    \<and> pred_option id_range_ok (psel_IDRange p)) (ts_ProjectSelector t)"

definition branch_access_ok :: "branch_access_description \<Rightarrow> bool" where
  "branch_access_ok a \<longleftrightarrow> bad_AccessLevel a \<in> {0, 30, 40, 60} \<and> 0 \<le> bad_UserID a \<and> 0 \<le> bad_GroupID a \<and> 0 \<le> bad_DeployKeyID a"

definition branch_ok :: "protected_branch_rule_config \<Rightarrow> bool" where
  "branch_ok b \<longleftrightarrow> \<not> blank (pb_Name b)
     \<and> list_all branch_access_ok (pb_AllowedToPush b @ pb_AllowedToMerge b @ pb_AllowedToUnprotect b)"

definition tag_ok :: "protected_tag_rule_config \<Rightarrow> bool" where
  "tag_ok t \<longleftrightarrow> \<not> blank (pt_Name t) \<and> pt_AllowedToCreate t \<noteq> []
     \<and> list_all (\<lambda>a. tad_AccessLevel a \<in> {0, 30, 40, 50, 60} \<and> 0 \<le> tad_UserID a \<and> 0 \<le> tad_GroupID a) (pt_AllowedToCreate t)"

definition environment_ok :: "protected_environment_rule_config \<Rightarrow> bool" where
  "environment_ok e \<longleftrightarrow> \<not> blank (pe_Name e) \<and> pred_option (\<lambda>n. 0 \<le> n) (pe_RequiredApprovalCount e)
     \<and> list_all (\<lambda>a. ead_AccessLevel a \<in> {0, 30, 40, 60} \<and> 0 \<le> ead_UserID a \<and> 0 \<le> ead_GroupID a) (pe_DeployAccessLevels e)
     \<and> list_all (\<lambda>r. ear_AccessLevel r \<in> {0, 30, 40, 60} \<and> 0 \<le> ear_UserID r \<and> 0 \<le> ear_GroupID r
                      \<and> pred_option (\<lambda>n. 0 \<le> n) (ear_RequiredApprovalCount r)) (pe_ApprovalRules e)"

definition approval_rule_ok :: "approval_rule_config \<Rightarrow> bool" where
  "approval_rule_ok r \<longleftrightarrow> \<not> blank (arl_Name r) \<and> 1 \<le> arl_ApprovalsRequired r
     \<and> choice id [''regular'', ''code_owner'', ''any_approver'', ''report_approver''] (arl_RuleType r)
     \<and> (arl_RuleType r = ''any_approver'' \<or> has_approvers r)"

definition project_settings_ok :: "(string \<Rightarrow> go_error option) \<Rightarrow> project_settings_config \<Rightarrow> bool" where
  "project_settings_ok compile p \<longleftrightarrow>
     choice id [''never'', ''always'', ''default_on'', ''default_off''] (pjs_SquashOption p)
     \<and> choice id [''merge'', ''rebase_merge'', ''ff''] (pjs_MergeMethod p)
     \<and> choice id [''enabled'', ''disabled''] (pjs_AutoCancelPendingPipelines p)
     \<and> pred_option (\<lambda>c. choice id [''1d'', ''7d'', ''14d'', ''30d'', ''60d'', ''90d''] (cep_Cadence c)
                     \<and> choice id [''7d'', ''14d'', ''30d'', ''60d'', ''90d''] (cep_OlderThan c)
                     \<and> pred_option (\<lambda>n. n \<in> {0, 1, 5, 10, 25, 50, 100}) (cep_KeepN c)
                     \<and> list_all (regex_ok compile) [cep_NameRegex c, cep_NameRegexDelete c, cep_NameRegexKeep c])
         (pjs_ContainerExpirationPolicy p)"

definition variable_ok :: "variable_config \<Rightarrow> bool" where
  "variable_ok v \<longleftrightarrow> \<not> blank (vc_Key v) \<and> varKeyRegex (vc_Key v) \<and> choice id [''env_var'', ''file''] (vc_VariableType v)
     \<and> (vc_Masked v = Some True \<longrightarrow> 8 \<le> length (vc_Value v) \<and> maskedValRegex (vc_Value v))"

definition runner_ok :: "runner_config \<Rightarrow> bool" where
  "runner_ok r \<longleftrightarrow> choice id [''ref_protected'', ''not_protected''] (rn_AccessLevel r) \<and> pred_option (\<lambda>n. 0 \<le> n) (rn_MaximumTimeout r)"

definition members_ok :: "members_config \<Rightarrow> bool" where
  "members_ok m \<longleftrightarrow> pred_option isValidMemberAccessLevel (mc_MinAccessLevel m) \<and> pred_option isValidMemberAccessLevel (mc_MaxAccessLevel m)
     \<and> (case (mc_MinAccessLevel m, mc_MaxAccessLevel m) of (Some lo, Some hi) \<Rightarrow> lo \<le> hi | _ \<Rightarrow> True)
     \<and> pred_option (\<lambda>n. 0 < n) (mc_MaxExpirationDays m)
     \<and> list_all (\<lambda>r. \<not> blank (mr_Username r) \<and> isValidMemberAccessLevel (mr_AccessLevel r)
                     \<and> (mr_ExpiresAt r = [] \<or> is_date (mr_ExpiresAt r))) (mc_AllowedMembers m)"

definition target_rule_ok :: "target_branch_rule_config \<Rightarrow> bool" where
  "target_rule_ok r \<longleftrightarrow> \<not> blank (tbr_Name r) \<and> \<not> blank (tbr_TargetBranch r) \<and> TrimSpace (tbr_Name r) \<noteq> TrimSpace (tbr_TargetBranch r)"

definition file_ok :: "repository_file_config \<Rightarrow> bool" where
  "file_ok f \<longleftrightarrow> \<not> blank (rf_Path f) \<and> \<not> leaves_repository (path_Clean (ReplaceAll (TrimSpace (rf_Path f)) [CHR 0x5C] ''/''))
     \<and> length (filter id [rf_Content f \<noteq> [], \<not> blank (rf_ContentFile f), rf_EnsureContains f \<noteq> []]) = 1
     \<and> choice ToLower [''direct_commit'', ''merge_request'', ''audit_only''] (rf_Enforcement f)"

definition merge_ok :: "branch_merge_rule_config \<Rightarrow> bool" where
  "merge_ok m \<longleftrightarrow> \<not> blank (bm_SourceBranch m) \<and> \<not> blank (bm_TargetBranch m) \<and> TrimSpace (bm_SourceBranch m) \<noteq> TrimSpace (bm_TargetBranch m)"

definition policies_ok ::
  "(string \<Rightarrow> go_error option) \<Rightarrow> (string \<Rightarrow> (string \<times> string) option) \<Rightarrow> policies_config \<Rightarrow> bool" where
  "policies_ok compile parse_uri p \<longleftrightarrow>
     pred_option (\<lambda>r. list_all (regex_ok compile) [pu_AuthorEmailRegex r, pu_BranchNameRegex r, pu_CommitMessageRegex r,
                        pu_CommitMessageNegativeRegex r, pu_FileNameRegex r]
                    \<and> pred_option (\<lambda>n. 0 \<le> n) (pu_MaxFileSize r)) (pol_PushRules p)
     \<and> list_all branch_ok (pol_ProtectedBranches p)
     \<and> pred_option (\<lambda>t. list_all tag_ok (pts_Rules t) \<and> at_most_once (TrimSpace \<circ> pt_Name) (pts_Rules t)) (pol_ProtectedTags p)
     \<and> pred_option (\<lambda>t. list_all environment_ok (pes_Rules t) \<and> at_most_once (TrimSpace \<circ> pe_Name) (pes_Rules t)) (pol_ProtectedEnvironments p)
     \<and> pred_option (\<lambda>a. list_all approval_rule_ok (ars_Rules a)) (pol_ApprovalRules p)
     \<and> pred_option (project_settings_ok compile) (pol_ProjectSettings p)
     \<and> pred_option (\<lambda>r. 0 \<le> prc_RetentionDays r) (pol_PipelineRetention p)
     \<and> (list_all variable_ok (pol_Variables p) \<and> at_most_once CompositeKey (pol_Variables p))
     \<and> pred_option (\<lambda>r. list_all runner_ok (rns_Runners r)) (pol_Runners p)
     \<and> pred_option (\<lambda>c. \<not> blank (cc_FrameworkName c) \<or> cc_FrameworkID c \<noteq> None) (pol_Compliance p)
     \<and> list_all (\<lambda>w. \<not> blank (wh_URL w) \<and> web_url parse_uri (wh_URL w)) (pol_Webhooks p)
     \<and> pred_option members_ok (pol_Members p)
     \<and> pred_option (\<lambda>t. list_all target_rule_ok (tbs_Rules t) \<and> at_most_once (TrimSpace \<circ> tbr_Name) (tbs_Rules t)) (pol_TargetBranchRules p)
     \<and> list_all file_ok (pol_RepositoryFiles p) \<and> list_all merge_ok (pol_BranchMerges p)"

definition well_formed :: "(string \<Rightarrow> go_error option) \<Rightarrow> (string \<Rightarrow> (string \<times> string) option) \<Rightarrow> policy_config \<Rightarrow> bool" where
  "well_formed compile parse_uri c \<longleftrightarrow>
     settings_ok (cfg_Settings c) \<and> targets_ok compile (cfg_Targets c) \<and> policies_ok compile parse_uri (cfg_Policies c)"

subsection \<open>Facts\<close>

text \<open>A check passes at some place exactly when it passes at all of them: it is about the value.\<close>

lemma complain_pass [simp]: "complain bad field message v = [] \<longleftrightarrow> \<not> bad"
  by (simp add: complain_def)

lemma if_present_pass: "(\<And>a. check a = [] \<longleftrightarrow> P a) \<Longrightarrow> if_present check x = [] \<longleftrightarrow> pred_option P x"
  by (cases x) (simp_all add: if_present_def)

lemma at_each_pass:
  assumes "\<And>place x. check place x = [] \<longleftrightarrow> P x"
  shows "at_each check place xs = [] \<longleftrightarrow> list_all P xs"
proof -
  have "concat (map (\<lambda>(i, x). check (place @ ''['' @ fmt_d (int i) @ '']'') x) (enumerate n xs)) = [] \<longleftrightarrow> list_all P xs" for n
    by (induction xs arbitrary: n) (simp_all add: assms)
  then show ?thesis by (simp add: at_each_def)
qed

lemma one_of_pass: "one_of fold_case choices must field what v = [] \<longleftrightarrow> choice fold_case choices v"
  by (auto simp: one_of_def choice_def)

lemma checkRegex_pass: "checkRegex compile r field = [] \<longleftrightarrow> regex_ok compile r"
  by (cases "compile r") (auto simp: checkRegex_def regex_ok_def if_present_def)

lemma simple_pass:
  "non_negative field what v = [] \<longleftrightarrow> 0 \<le> v" "not_negative_count field what v = [] \<longleftrightarrow> 0 \<le> v"
  "level_in levels must field what v = [] \<longleftrightarrow> v \<in> set levels" "member_level field what v = [] \<longleftrightarrow> isValidMemberAccessLevel v"
  by (auto simp: non_negative_def not_negative_count_def level_in_def member_level_def isValidMemberAccessLevel_def)

lemma mark_seen_pass:
  "list_all (\<lambda>(x, dup). P x \<and> \<not> dup) (mark_seen seen key xs) \<longleftrightarrow> list_all P xs \<and> distinct (map key xs) \<and> set (map key xs) \<inter> set seen = {}"
  by (induction xs arbitrary: seen) auto

lemma mark_seen_pass':
  assumes "\<And>x dup. Q (x, dup) \<longleftrightarrow> P x \<and> \<not> dup"
  shows "list_all Q (mark_seen [] key xs) \<longleftrightarrow> list_all P xs \<and> at_most_once key xs"
proof -
  have "Q = (\<lambda>(x, dup). P x \<and> \<not> dup)" using assms by auto
  then show ?thesis by (simp add: mark_seen_pass at_most_once_def)
qed

lemma gitlab_settings_pass: "validateGitLabSettings g pre = [] \<longleftrightarrow> gitlab_settings_ok g"
  by (auto simp: validateGitLabSettings_def gitlab_settings_ok_def one_of_pass simple_pass)

lemma settings_pass: "validateSettings s pre = [] \<longleftrightarrow> settings_ok s"
  by (auto simp: validateSettings_def settings_ok_def one_of_pass gitlab_settings_pass)

lemma targets_pass: "validateTargets compile t pre = [] \<longleftrightarrow> targets_ok compile t"
proof -
  have ids: "at_each group_id_check place xs = [] \<longleftrightarrow> list_all (\<lambda>i. 0 < i) xs" for place xs
    by (rule at_each_pass) (simp add: group_id_check_def not_le)
  have paths: "at_each group_path_check place xs = [] \<longleftrightarrow> list_all group_path_ok xs" for place xs
    by (rule at_each_pass) (simp add: group_path_check_def group_path_ok_def)
  have range: "if_present (validate_id_range field) r = [] \<longleftrightarrow> pred_option id_range_ok r" for field r
    by (rule if_present_pass) (auto simp: validate_id_range_def id_range_ok_def)
  show ?thesis
    unfolding validateTargets_def targets_ok_def append_is_Nil_conv
    by (intro conj_cong if_present_pass)
      (auto simp: validateGroupSelector_def validateProjectSelector_def ids paths range checkRegex_pass one_of_pass)
qed


lemma push_rules_pass:
  "validatePushRules compile r pre = [] \<longleftrightarrow>
     list_all (regex_ok compile) [pu_AuthorEmailRegex r, pu_BranchNameRegex r, pu_CommitMessageRegex r,
       pu_CommitMessageNegativeRegex r, pu_FileNameRegex r] \<and> pred_option (\<lambda>n. 0 \<le> n) (pu_MaxFileSize r)"
  by (simp add: validatePushRules_def checkRegex_pass simple_pass if_present_pass [where P = "\<lambda>n. 0 \<le> n"])

lemma branch_pass: "validateProtectedBranch place b = [] \<longleftrightarrow> branch_ok b"
proof -
  have "at_each validateBranchAccess p xs = [] \<longleftrightarrow> list_all branch_access_ok xs" for p xs
    by (rule at_each_pass) (auto simp: validateBranchAccess_def branch_access_ok_def simple_pass)
  then show ?thesis by (simp add: validateProtectedBranch_def branch_ok_def)
qed

lemma duplicate_pass: "duplicate_name field what seen name = [] \<longleftrightarrow> name = [] \<or> \<not> seen"
  by (auto simp: duplicate_name_def)

lemma tag_pass: "validateProtectedTag place t = [] \<longleftrightarrow> tag_ok t"
proof -
  have "at_each validateTagAccess p xs = [] \<longleftrightarrow>
      list_all (\<lambda>a. tad_AccessLevel a \<in> {0, 30, 40, 50, 60} \<and> 0 \<le> tad_UserID a \<and> 0 \<le> tad_GroupID a) xs" for p xs
    by (rule at_each_pass) (auto simp: validateTagAccess_def simple_pass)
  then show ?thesis by (simp add: validateProtectedTag_def tag_ok_def)
qed

lemma tags_pass: "validate_tags t pre = [] \<longleftrightarrow> list_all tag_ok (pts_Rules t) \<and> at_most_once (TrimSpace \<circ> pt_Name) (pts_Rules t)"
proof -
  have "validate_tags t pre = [] \<longleftrightarrow> list_all (\<lambda>(pt, seen). tag_ok pt \<and> \<not> seen) (mark_seen [] (TrimSpace \<circ> pt_Name) (pts_Rules t))"
    unfolding validate_tags_def
    by (rule at_each_pass) (auto simp: tag_pass duplicate_pass tag_ok_def blank_def)
  then show ?thesis by (simp add: mark_seen_pass')
qed

lemma environment_pass: "validateProtectedEnvironment place e = [] \<longleftrightarrow> environment_ok e"
proof -
  have "at_each validateEnvironmentAccess p xs = [] \<longleftrightarrow>
      list_all (\<lambda>a. ead_AccessLevel a \<in> {0, 30, 40, 60} \<and> 0 \<le> ead_UserID a \<and> 0 \<le> ead_GroupID a) xs" for p xs
    by (rule at_each_pass) (auto simp: validateEnvironmentAccess_def simple_pass)
  moreover have "at_each validateEnvironmentApproval p xs = [] \<longleftrightarrow>
      list_all (\<lambda>r. ear_AccessLevel r \<in> {0, 30, 40, 60} \<and> 0 \<le> ear_UserID r \<and> 0 \<le> ear_GroupID r
                     \<and> pred_option (\<lambda>n. 0 \<le> n) (ear_RequiredApprovalCount r)) xs" for p xs
    by (rule at_each_pass) (auto simp: validateEnvironmentApproval_def simple_pass if_present_pass [where P = "\<lambda>n. 0 \<le> n"])
  ultimately show ?thesis
    by (simp add: validateProtectedEnvironment_def environment_ok_def simple_pass if_present_pass [where P = "\<lambda>n. 0 \<le> n"])
qed

lemma environments_pass:
  "validate_environments t pre = [] \<longleftrightarrow> list_all environment_ok (pes_Rules t) \<and> at_most_once (TrimSpace \<circ> pe_Name) (pes_Rules t)"
proof -
  have "validate_environments t pre = [] \<longleftrightarrow>
      list_all (\<lambda>(pe, seen). environment_ok pe \<and> \<not> seen) (mark_seen [] (TrimSpace \<circ> pe_Name) (pes_Rules t))"
    unfolding validate_environments_def
    by (rule at_each_pass) (auto simp: environment_pass duplicate_pass environment_ok_def blank_def)
  then show ?thesis by (simp add: mark_seen_pass')
qed

lemma approvals_pass: "validateApprovalRules a pre = [] \<longleftrightarrow> list_all approval_rule_ok (ars_Rules a)"
  unfolding validateApprovalRules_def
  by (rule at_each_pass) (auto simp: validateApprovalRule_def approval_rule_ok_def one_of_pass not_less)

lemma project_settings_pass: "validateProjectSettings compile p pre = [] \<longleftrightarrow> project_settings_ok compile p"
proof -
  have keep: "if_present (level_in [0, 1, 5, 10, 25, 50, 100] must field what) n = [] \<longleftrightarrow> pred_option (\<lambda>n. n \<in> {0, 1, 5, 10, 25, 50, 100}) n"
    for must field what n by (rule if_present_pass) (simp add: simple_pass)
  have "if_present (validate_expiration compile field) c = [] \<longleftrightarrow>
      pred_option (\<lambda>c. choice id [''1d'', ''7d'', ''14d'', ''30d'', ''60d'', ''90d''] (cep_Cadence c)
                     \<and> choice id [''7d'', ''14d'', ''30d'', ''60d'', ''90d''] (cep_OlderThan c)
                     \<and> pred_option (\<lambda>n. n \<in> {0, 1, 5, 10, 25, 50, 100}) (cep_KeepN c)
                     \<and> list_all (regex_ok compile) [cep_NameRegex c, cep_NameRegexDelete c, cep_NameRegexKeep c]) c" for field c
    by (rule if_present_pass) (simp add: validate_expiration_def one_of_pass keep checkRegex_pass)
  then show ?thesis by (simp add: validateProjectSettings_def project_settings_ok_def one_of_pass)
qed

lemma variables_pass: "validateVariables vs pre = [] \<longleftrightarrow> list_all variable_ok vs \<and> at_most_once CompositeKey vs"
proof -
  have "validateVariables vs pre = [] \<longleftrightarrow> list_all (\<lambda>(v, seen). variable_ok v \<and> \<not> seen) (mark_seen [] CompositeKey vs)"
    unfolding validateVariables_def
    by (rule at_each_pass) (auto simp: validateVariable_def variable_ok_def one_of_pass not_less split: if_splits)
  then show ?thesis by (simp add: mark_seen_pass')
qed

lemma runners_pass: "validateRunners r pre = [] \<longleftrightarrow> list_all runner_ok (rns_Runners r)"
  unfolding validateRunners_def
  by (rule at_each_pass) (simp add: validateRunner_def runner_ok_def one_of_pass simple_pass if_present_pass [where P = "\<lambda>n. 0 \<le> n"])

lemma webhooks_pass:
  "at_each (validateWebhook parse_uri) pre ws = [] \<longleftrightarrow> list_all (\<lambda>w. \<not> blank (wh_URL w) \<and> web_url parse_uri (wh_URL w)) ws"
  by (rule at_each_pass) (simp add: validateWebhook_def)

lemma members_pass: "validateMembers m pre = [] \<longleftrightarrow> members_ok m"
proof -
  have rules: "at_each validateMemberRule place xs = [] \<longleftrightarrow>
      list_all (\<lambda>r. \<not> blank (mr_Username r) \<and> isValidMemberAccessLevel (mr_AccessLevel r) \<and> (mr_ExpiresAt r = [] \<or> is_date (mr_ExpiresAt r))) xs"
    for place xs by (rule at_each_pass) (auto simp: validateMemberRule_def simple_pass)
  have level: "if_present (member_level field what) l = [] \<longleftrightarrow> pred_option isValidMemberAccessLevel l" for field what l
    by (rule if_present_pass) (simp add: simple_pass)
  have days: "if_present (\<lambda>n. complain (n \<le> 0) field (msg n) (val n)) d = [] \<longleftrightarrow> pred_option (\<lambda>n. 0 < n) d" for field msg val and d :: "int option"
    by (rule if_present_pass) (simp add: not_le)
  have "levels_crossed m pre = [] \<longleftrightarrow> (case (mc_MinAccessLevel m, mc_MaxAccessLevel m) of (Some lo, Some hi) \<Rightarrow> lo \<le> hi | _ \<Rightarrow> True)"
    by (simp add: levels_crossed_def not_less split: option.splits)
  then show ?thesis by (simp add: validateMembers_def members_ok_def rules level days)
qed

lemma target_rules_pass:
  "validateTargetBranchRules t pre = [] \<longleftrightarrow> list_all target_rule_ok (tbs_Rules t) \<and> at_most_once (TrimSpace \<circ> tbr_Name) (tbs_Rules t)"
proof -
  have "validateTargetBranchRules t pre = [] \<longleftrightarrow>
      list_all (\<lambda>(r, seen). target_rule_ok r \<and> \<not> seen) (mark_seen [] (TrimSpace \<circ> tbr_Name) (tbs_Rules t))"
    unfolding validateTargetBranchRules_def
    by (rule at_each_pass) (auto simp: validateTargetBranchRule_def target_rule_ok_def blank_def Let_def split: if_splits)
  then show ?thesis by (simp add: mark_seen_pass')
qed

lemma files_pass: "validateRepositoryFiles fs pre = [] \<longleftrightarrow> list_all file_ok fs"
  unfolding validateRepositoryFiles_def
  by (rule at_each_pass) (auto simp: validateRepositoryFile_def file_ok_def choice_def blank_def Let_def)

lemma merges_pass: "validateBranchMerges ms pre = [] \<longleftrightarrow> list_all merge_ok ms"
  unfolding validateBranchMerges_def
  by (rule at_each_pass) (auto simp: validateBranchMerge_def merge_ok_def blank_def Let_def)

lemma policies_pass: "validatePolicies compile parse_uri p pre = [] \<longleftrightarrow> policies_ok compile parse_uri p"
  unfolding validatePolicies_def policies_ok_def append_is_Nil_conv
  by (intro conj_cong if_present_pass at_each_pass push_rules_pass branch_pass tags_pass environments_pass approvals_pass
      project_settings_pass variables_pass runners_pass webhooks_pass members_pass target_rules_pass files_pass merges_pass)
    (simp_all add: validatePipelineRetention_def validateCompliance_def not_less)

lemma TrimSpace_Nil [simp]: "TrimSpace [] = []"
  by (simp add: TrimSpace_def trim_by_def)

text \<open>Segments of a path have no slashes, so joining and splitting them is inverse.\<close>

lemma Split_no_sep: "x \<in> set (Split s c) \<Longrightarrow> c \<notin> set x"
  by (induction s c arbitrary: x rule: Split.induct) (auto split: if_splits list.splits)

lemma Split_segment: "c \<notin> set s \<Longrightarrow> Split s c = [s]"
  by (induction s) auto

lemma Split_append: "c \<notin> set s \<Longrightarrow> Split (s @ c # t) c = s # Split t c"
  by (induction s) auto

lemma Split_Join: "segs \<noteq> [] \<Longrightarrow> \<forall>s \<in> set segs. c \<notin> set s \<Longrightarrow> Split (Join segs [c]) c = segs"
  by (induction segs "[c]" rule: Join.induct) (simp_all add: Split_segment Split_append)

lemma clean_segment_subset: "set (foldl (clean_segment rooted) acc segs) \<subseteq> set acc \<union> set segs"
proof (induction segs arbitrary: acc)
  case (Cons s segs)
  have "set (clean_segment rooted acc s) \<subseteq> set acc \<union> {s}"
    by (auto simp: clean_segment_def dest: in_set_butlastD)
  then show ?case using Cons [of "clean_segment rooted acc s"] by auto
qed simp

lemma path_Clean_stays:
  assumes "\<not> leaves_repository (path_Clean p)"
  shows "''..'' \<notin> set (Split (TrimPrefix (path_Clean p) ''/'') CHR ''/'')"
proof -
  define rooted where "rooted = HasPrefix p ''/''"
  define segs where "segs = foldl (clean_segment rooted) [] (Split p CHR ''/'')"
  have clean: "path_Clean p = (if rooted then ''/'' @ Join segs ''/'' else if segs = [] then ''.'' else Join segs ''/'')"
    by (simp add: path_Clean_def rooted_def segs_def Let_def)
  have noslash: "\<forall>s \<in> set segs. CHR ''/'' \<notin> set s"
    using clean_segment_subset [of rooted "[]" "Split p CHR ''/''"] Split_no_sep unfolding segs_def by fastforce
  have "clean_segments rooted []" unfolding clean_segments_def by (intro exI [of _ 0] exI [of _ "[]"]) simp
  then have "clean_segments rooted segs" unfolding segs_def by (rule clean_segments_foldl)
  then obtain n rest where nr: "segs = replicate n ''..'' @ rest" "rooted \<longrightarrow> n = 0"
    "list_all (\<lambda>s. s \<noteq> [] \<and> s \<noteq> ''.'' \<and> s \<noteq> ''..'') rest" unfolding clean_segments_def by blast
  have "n = 0"
  proof (rule ccontr)
    assume "n \<noteq> 0"
    then obtain m where "n = Suc m" by (cases n) auto
    then obtain more where segs: "segs = ''..'' # more" "\<not> rooted" using nr by auto
    then have "path_Clean p = Join segs ''/''" by (simp add: clean)
    then have "leaves_repository (path_Clean p)"
      using segs by (cases more) (simp_all add: leaves_repository_def HasPrefix_def)
    with assms show False by simp
  qed
  then have rest: "segs = rest" using nr(1) by simp
  then have dots: "''..'' \<notin> set segs" "[] \<notin> set segs" using nr(3) by (auto simp: list_all_iff)
  have trim: "TrimPrefix (path_Clean p) ''/'' = (if segs = [] \<and> \<not> rooted then ''.'' else Join segs ''/'')"
  proof (cases "rooted \<or> segs = []")
    case True
    then show ?thesis using TrimPrefix_append [of "''/''" "Join segs ''/''"] by (auto simp: clean TrimPrefix_def HasPrefix_def)
  next
    case False
    then obtain x xs where x: "segs = x # xs" "x \<noteq> []" "CHR ''/'' \<notin> set x" using noslash dots by (cases segs) auto
    then have "\<not> HasPrefix (Join segs ''/'') ''/''" by (cases x; cases xs) (auto simp: HasPrefix_def)
    then show ?thesis using False by (simp add: clean TrimPrefix_def)
  qed
  show ?thesis
  proof (cases "segs = []")
    case False
    then show ?thesis using Split_Join [OF False noslash] dots trim by simp
  qed (simp add: trim)
qed

lemma validate_pass: "Validate compile parse_uri (Some cfg) = None \<longleftrightarrow> well_formed compile parse_uri cfg"
  by (simp add: Validate_def ValidateWithWarnings_def Let_def well_formed_def settings_pass targets_pass policies_pass)

subsection \<open>Properties\<close>

text \<open>
  Property C11. Validation decides well-formedness: a policy passes exactly when every setting, selector and rule is in its range,
  every name is there, every pattern compiles, and no tag, environment, variable or target branch
  pattern is declared twice. The ranges are those of the code; \<open>Validate_departs_from_schema\<close> shows where
  \<^verbatim>\<open>docs/schema.json\<close> documents others.
\<close>

theorem Validate_iff_well_formed: "Validate compile parse_uri (Some cfg) = None \<longleftrightarrow> well_formed compile parse_uri cfg"
  by (rule validate_pass)

text \<open>Policies that differ in one part.\<close>

definition with_settings :: "(settings_config \<Rightarrow> settings_config) \<Rightarrow> policy_config \<Rightarrow> policy_config" where
  "with_settings f c = c\<lparr>cfg_Settings := f (cfg_Settings c)\<rparr>"

definition with_policies :: "(policies_config \<Rightarrow> policies_config) \<Rightarrow> policy_config \<Rightarrow> policy_config" where
  "with_policies f c = c\<lparr>cfg_Policies := f (cfg_Policies c)\<rparr>"

text \<open>
  Property C40. Where validation departs from \<^verbatim>\<open>docs/schema.json\<close>: in a policy that passes, any non-negative concurrency may be put
  (the schema has 1 to 100), any non-negative number of retention days (1 to 3650), any version or none
  (required, one of three), an ID range from zero (from one) and a compliance framework without its name
  (required); but the report format \<^verbatim>\<open>summary\<close> and an approval rule that requires no approval, both of
  which the schema admits, are refused.
\<close>

theorem Validate_departs_from_schema:
  assumes "Validate compile parse_uri (Some cfg) = None"
  shows "(Validate compile parse_uri (Some (with_settings (\<lambda>s. s\<lparr>set_Concurrency := n\<rparr>) cfg)) = None \<longleftrightarrow> 0 \<le> n)
    \<and> (Validate compile parse_uri (Some (with_policies (\<lambda>p. p\<lparr>pol_PipelineRetention := Some (ret\<lparr>prc_RetentionDays := n\<rparr>)\<rparr>) cfg)) = None
          \<longleftrightarrow> 0 \<le> n)
    \<and> Validate compile parse_uri (Some (cfg\<lparr>cfg_Version := v\<rparr>)) = None
    \<and> (ts_ProjectSelector (cfg_Targets cfg) = Some sel \<longrightarrow> 0 \<le> hi \<longrightarrow>
         Validate compile parse_uri (Some (cfg\<lparr>cfg_Targets := (cfg_Targets cfg)\<lparr>ts_ProjectSelector :=
           Some (sel\<lparr>psel_IDRange := Some \<lparr>idr_Min = 0, idr_Max = hi\<rparr>\<rparr>)\<rparr>\<rparr>)) = None)
    \<and> Validate compile parse_uri (Some (with_policies (\<lambda>p. p\<lparr>pol_Compliance := Some (fw\<lparr>cc_FrameworkName := [], cc_FrameworkID := Some i\<rparr>)\<rparr>) cfg)) = None
    \<and> Validate compile parse_uri (Some (with_settings (\<lambda>s. s\<lparr>set_ReportFormat := ''summary''\<rparr>) cfg)) \<noteq> None
    \<and> (rule \<in> set (ars_Rules rules) \<longrightarrow> arl_ApprovalsRequired rule = 0 \<longrightarrow>
         Validate compile parse_uri (Some (with_policies (\<lambda>p. p\<lparr>pol_ApprovalRules := Some rules\<rparr>) cfg)) \<noteq> None)"
proof -
  have ok: "settings_ok (cfg_Settings cfg)" "targets_ok compile (cfg_Targets cfg)" "policies_ok compile parse_uri (cfg_Policies cfg)"
    using assms by (simp_all add: validate_pass well_formed_def)
  have settings: "Validate compile parse_uri (Some (with_settings f cfg)) = None \<longleftrightarrow> settings_ok (f (cfg_Settings cfg))" for f
    using ok by (simp add: validate_pass well_formed_def with_settings_def)
  have policies: "Validate compile parse_uri (Some (with_policies f cfg)) = None \<longleftrightarrow> policies_ok compile parse_uri (f (cfg_Policies cfg))" for f
    using ok by (simp add: validate_pass well_formed_def with_policies_def)
  have targets: "Validate compile parse_uri (Some (cfg\<lparr>cfg_Targets := t\<rparr>)) = None \<longleftrightarrow> targets_ok compile t" for t
    using ok by (simp add: validate_pass well_formed_def)
  have "\<not> choice ToLower [''table'', ''json'', ''csv'', ''markdown''] ''summary''" by code_simp
  moreover have "Validate compile parse_uri (Some (cfg\<lparr>cfg_Version := v\<rparr>)) = None"
    using ok by (simp add: validate_pass well_formed_def)
  moreover have "targets_ok compile ((cfg_Targets cfg)\<lparr>ts_ProjectSelector := Some (sel\<lparr>psel_IDRange := Some \<lparr>idr_Min = 0, idr_Max = hi\<rparr>\<rparr>)\<rparr>)"
    if "ts_ProjectSelector (cfg_Targets cfg) = Some sel" "0 \<le> hi"
    using ok(2) that by (simp add: targets_ok_def id_range_ok_def)
  moreover have "\<not> list_all approval_rule_ok (ars_Rules rules)" if "rule \<in> set (ars_Rules rules)" "arl_ApprovalsRequired rule = 0"
    using that by (auto simp: list_all_iff approval_rule_ok_def intro!: bexI [of _ rule])
  ultimately show ?thesis
    unfolding settings policies targets using ok(1,3) by (simp add: settings_ok_def policies_ok_def)
qed

text \<open>
  A validated file stays in the repository: where the declared path has no white space around it, the path that is
  committed has no segment of two dots.
\<close>

theorem validated_path_stays_inside:
  assumes "Validate compile parse_uri (Some cfg) = None" and "f \<in> set (pol_RepositoryFiles (cfg_Policies cfg))"
    and "TrimSpace (rf_Path f) = rf_Path f"
  shows "''..'' \<notin> set (Split (TrimPrefix (path_Clean (ReplaceAll (rf_Path f) [CHR 0x5C] ''/'')) ''/'') CHR ''/'')"
proof -
  have "file_ok f"
    using assms(1,2) by (simp add: validate_pass well_formed_def policies_ok_def list_all_iff)
  then show ?thesis using assms(3) by (intro path_Clean_stays) (simp add: file_ok_def)
qed

text \<open>
  With a leading blank the check looks at another path than the one that is committed: this declaration passes and is
  committed to a path outside the repository.
\<close>

definition escaping_file :: repository_file_config where
  "escaping_file =
     \<lparr>rf_Path = '' /../../x'', rf_Content = ''c'', rf_ContentFile = [], rf_EnsureContains = [], rf_TargetBranch = [],
      rf_Enforcement = [], rf_MRTitle = [], rf_MRLabels = [], rf_AutoMerge = None\<rparr>"

theorem untrimmed_path_escapes:
  "validateRepositoryFile place escaping_file = []
   \<and> TrimPrefix (path_Clean (ReplaceAll (rf_Path escaping_file) [CHR 0x5C] ''/'')) ''/'' = ''../x''"
proof
  have "validateRepositoryFiles [escaping_file] place = [] \<longleftrightarrow> file_ok escaping_file" by (simp add: files_pass)
  moreover have "file_ok escaping_file" by code_simp
  moreover have "validateRepositoryFile place escaping_file = [] \<longleftrightarrow> file_ok escaping_file"
    by (auto simp: validateRepositoryFile_def file_ok_def choice_def blank_def Let_def)
  ultimately show "validateRepositoryFile place escaping_file = []" by simp
  show "TrimPrefix (path_Clean (ReplaceAll (rf_Path escaping_file) [CHR 0x5C] ''/'')) ''/'' = ''../x''" by code_simp
qed

text \<open>
  A validated policy always has a project filter: discovery cannot fail on its regular expressions.
\<close>

theorem validated_filter_compiles:
  assumes "Validate (re_Compile env) parse_uri (Some cfg) = None"
  shows "\<exists>pf. NewProjectFilter env (ts_ProjectSelector (cfg_Targets cfg)) = Inr pf"
proof (cases "ts_ProjectSelector (cfg_Targets cfg)")
  case (Some sel)
  have "regex_ok (re_Compile env) (psel_ProjectNameRegexInclude sel)" "regex_ok (re_Compile env) (psel_ProjectNameRegexExclude sel)"
    using assms Some by (simp_all add: validate_pass well_formed_def targets_ok_def)
  moreover have "\<exists>r. compile_regex env field pat = Inr r" if "regex_ok (re_Compile env) pat" for field pat
    using that TrimSpace_Nil by (auto simp: compile_regex_def regex_ok_def)
  ultimately obtain r1 r2 where "compile_regex env ''project_name_regex_include'' (psel_ProjectNameRegexInclude sel) = Inr r1"
    "compile_regex env ''project_name_regex_exclude'' (psel_ProjectNameRegexExclude sel) = Inr r2" by meson
  then show ?thesis by (simp add: NewProjectFilter_def Some)
qed (simp add: NewProjectFilter_def)

text \<open>
  Property C20. Loading with validation returns well-formed policies only, with the defaults in place.
\<close>

theorem Load_well_formed:
  assumes "Load decode (validation_stage fmt_float compile parse_uri) False l path = (Inr cfg, desc)"
  shows "well_formed compile parse_uri cfg \<and> (\<exists>raw. cfg = PolicyConfig_SetDefaults raw)"
proof -
  have "\<exists>desc. Load decode (validation_stage fmt_float compile parse_uri) False l path = (Inr cfg, desc)" using assms by blast
  moreover have "(\<exists>desc. Load decode (validation_stage fmt_float compile parse_uri) False l path = (Inr cfg, desc)) \<Longrightarrow>
      validation_stage fmt_float compile parse_uri cfg = None \<and> (\<exists>raw. cfg = PolicyConfig_SetDefaults raw)"
    by (auto simp: Load_def load_stages_Inr split: prod.splits sum.splits)
  ultimately show ?thesis by (simp add: validation_stage_def validate_pass)
qed


subsection \<open>Examples\<close>

definition example_validated :: policy_config where
  "example_validated =
     zero_policy_config\<lparr>cfg_Policies := zero_policies\<lparr>pol_RepositoryFiles := [escaping_file\<lparr>rf_Path := ''docs/../SECURITY.md''\<rparr>]\<rparr>,
       cfg_Targets := \<lparr>ts_GroupSelector = None, ts_ProjectSelector = Some
         \<lparr>psel_NamespacesInclude = [], psel_NamespacesExclude = [], psel_ProjectNameRegexInclude = ''^api-'', psel_ProjectNameRegexExclude = [],
          psel_TopicsInclude = [], psel_TopicsExclude = [], psel_Visibility = ''Private'', psel_Archived = None,
          psel_ExcludeMarkedForDeletion = None, psel_IDRange = None\<rparr>\<rparr>\<rparr>"

abbreviation compiles :: "string \<Rightarrow> go_error option" where
  "compiles \<equiv> (\<lambda>r. None)"

abbreviation no_uri :: "string \<Rightarrow> (string \<times> string) option" where
  "no_uri \<equiv> (\<lambda>u. None)"

lemma example_well_formed:
  "well_formed compiles no_uri example_validated" "well_formed compiles no_uri (PolicyConfig_SetDefaults example_validated)"
proof -
  have "settings_ok (cfg_Settings example_validated)" "settings_ok (cfg_Settings (PolicyConfig_SetDefaults example_validated))"
    by (simp_all add: settings_ok_def gitlab_settings_ok_def choice_def ToLower_def to_lower_char_def example_validated_def zero_policy_config_def
        zero_settings_def PolicyConfig_SetDefaults_def Settings_SetDefaults_def GitLabSettings_SetDefaults_def)
  moreover have "file_ok (escaping_file\<lparr>rf_Path := ''docs/../SECURITY.md''\<rparr>)"
    "choice ToLower [''public'', ''internal'', ''private'', ''any''] ''Private''" by code_simp+
  then have "targets_ok compiles (cfg_Targets example_validated)" "policies_ok compiles no_uri (cfg_Policies example_validated)"
    by (simp_all add: targets_ok_def policies_ok_def regex_ok_def at_most_once_def
        example_validated_def zero_policies_def)
  moreover have "cfg_Targets (PolicyConfig_SetDefaults example_validated) = cfg_Targets example_validated"
    "cfg_Policies (PolicyConfig_SetDefaults example_validated) = cfg_Policies example_validated"
    by (simp_all add: PolicyConfig_SetDefaults_def)
  ultimately show "well_formed compiles no_uri example_validated" "well_formed compiles no_uri (PolicyConfig_SetDefaults example_validated)"
    by (simp_all add: well_formed_def)
qed

lemma example_validated: "Validate compiles no_uri (Some example_validated) = None"
  by (simp add: validate_pass example_well_formed)

text \<open>Validation accepts this policy and refuses it with an approval rule that nobody has to give.\<close>

definition free_approval :: approval_rule_config where
  "free_approval =
     \<lparr>arl_Name = ''anyone'', arl_ApprovalsRequired = 0, arl_UserUsernames = [], arl_UserIDs = [], arl_GroupPaths = [],
      arl_GroupIDs = [], arl_ProtectedBranchNames = [], arl_ProtectedBranchIDs = [], arl_RuleType = ''any_approver''\<rparr>"

definition free_approvals :: approval_rules_config where
  "free_approvals =
     \<lparr>ars_ApprovalsBeforeMerge = None, ars_ResetApprovalsOnPush = None, ars_Settings = None, ars_Rules = [free_approval], ars_Prune = None\<rparr>"

theorem Validate_iff_well_formed_witness:
  "Validate compiles no_uri (Some example_validated) = None
   \<and> Validate compiles no_uri (Some (with_policies (\<lambda>p. p\<lparr>pol_ApprovalRules := Some free_approvals\<rparr>) example_validated)) \<noteq> None"
proof -
  have "\<not> well_formed compiles no_uri (with_policies (\<lambda>p. p\<lparr>pol_ApprovalRules := Some free_approvals\<rparr>) example_validated)"
    by (simp add: well_formed_def policies_ok_def with_policies_def free_approvals_def free_approval_def approval_rule_ok_def)
  then show ?thesis using example_well_formed(1) by (simp only: Validate_iff_well_formed simp_thms)
qed

theorem Validate_departs_from_schema_witness:
  "Validate compiles no_uri (Some (with_settings (\<lambda>s. s\<lparr>set_Concurrency := 101\<rparr>) example_validated)) = None
   \<and> Validate compiles no_uri (Some (with_settings (\<lambda>s. s\<lparr>set_ReportFormat := ''summary''\<rparr>) example_validated)) \<noteq> None
   \<and> Validate compiles no_uri (Some (with_policies (\<lambda>p. p\<lparr>pol_ApprovalRules := Some free_approvals\<rparr>) example_validated)) \<noteq> None
   \<and> (\<exists>sel. ts_ProjectSelector (cfg_Targets example_validated) = Some sel
        \<and> Validate compiles no_uri (Some (example_validated\<lparr>cfg_Targets := (cfg_Targets example_validated)\<lparr>ts_ProjectSelector :=
           Some (sel\<lparr>psel_IDRange := Some \<lparr>idr_Min = 0, idr_Max = 5\<rparr>\<rparr>)\<rparr>\<rparr>)) = None)"
proof -
  have "free_approval \<in> set (ars_Rules free_approvals)" "arl_ApprovalsRequired free_approval = 0"
    by (simp_all add: free_approvals_def free_approval_def)
  moreover obtain sel where "ts_ProjectSelector (cfg_Targets example_validated) = Some sel" by (simp add: example_validated_def)
  ultimately show ?thesis
    using Validate_departs_from_schema [OF example_validated, where n = 101 and rule = free_approval and rules = free_approvals
        and sel = sel and hi = 5] by auto
qed

theorem validated_path_stays_inside_witness:
  "''..'' \<notin> set (Split (TrimPrefix (path_Clean (ReplaceAll ''docs/../SECURITY.md'' [CHR 0x5C] ''/'')) ''/'') CHR ''/'')"
proof -
  have "escaping_file\<lparr>rf_Path := ''docs/../SECURITY.md''\<rparr> \<in> set (pol_RepositoryFiles (cfg_Policies example_validated))"
    by (simp add: example_validated_def)
  moreover have "TrimSpace ''docs/../SECURITY.md'' = ''docs/../SECURITY.md''" by code_simp
  ultimately show ?thesis using validated_path_stays_inside [OF example_validated] by fastforce
qed

definition plain_env :: filter_env where
  "plain_env = \<lparr>re_Compile = compiles, re_MatchString = (\<lambda>_ _. True), ISOTime_String = (\<lambda>_. [])\<rparr>"

theorem validated_filter_compiles_witness:
  "\<exists>pf. NewProjectFilter plain_env (ts_ProjectSelector (cfg_Targets example_validated)) = Inr pf"
  by (rule validated_filter_compiles [of _ no_uri]) (simp add: plain_env_def example_validated)

definition example_loader :: loader where
  "example_loader =
     \<lparr>ld_stdin = None, ld_lookupEnv = (\<lambda>x. if x = ''CONFIG_YAML'' then Some ''version: v1'' else None), ld_s3_init = None,
      ld_s3 = (\<lambda>b k. S3Object []), ld_open = (\<lambda>p. NotRegular), ld_Stat = (\<lambda>p. False), ld_ReadFile = (\<lambda>p. Inr [])\<rparr>"

theorem Load_well_formed_witness:
  "\<exists>cfg. Load (\<lambda>data. (Decoded example_validated, EndOfInput :: unit decoded)) (validation_stage (\<lambda>r. []) compiles no_uri) False example_loader []
           = (Inr cfg, ''env:CONFIG_YAML'')
     \<and> well_formed compiles no_uri cfg"
proof -
  let ?load = "Load (\<lambda>data. (Decoded example_validated, EndOfInput :: unit decoded)) (validation_stage (\<lambda>r. []) compiles no_uri) False example_loader []"
  have "validation_stage (\<lambda>r. []) compiles no_uri (PolicyConfig_SetDefaults example_validated) = None"
    by (simp add: validation_stage_def validate_pass example_well_formed)
  moreover have "LoadRaw example_loader [] = (Inr ''version: v1'', ''env:CONFIG_YAML'')" by code_simp
  moreover have "valid_utf8 ''version: v1''" by code_simp
  then have "ExpandEnvWithLookup (ld_lookupEnv example_loader) ''version: v1'' = Inr ''version: v1''" by (simp add: ExpandEnv_plain)
  moreover have "TrimSpace ''version: v1'' \<noteq> []" by code_simp
  ultimately have "?load = (Inr (PolicyConfig_SetDefaults example_validated), ''env:CONFIG_YAML'')"
    by (simp add: Load_def load_stages_def UnmarshalStrict_def Let_def)
  with Load_well_formed show ?thesis by blast
qed

end
