(* ===== verification/Rate_Limit.thy ===== *)
theory Rate_Limit
  imports Pagination
begin

section \<open>Rate-limited transport\<close>

text \<open>
  \<^verbatim>\<open>internal/gitlab/ratelimit.go\<close>: the retry loop \<^verbatim>\<open>RoundTrip\<close>, the classification of responses and
  errors, the computation of delays in 64-bit nanoseconds and the parsing of the rate-limit
  headers. What the transport depends on is the record \<open>net_env\<close>: the clock, the random numbers, the
  token bucket of \<^verbatim>\<open>golang.org/x/time/rate\<close>, \<^verbatim>\<open>http.ParseTime\<close> and the dynamic types of network errors,
  each as a function of the attempt. \<open>env_fl\<close> is the rounding of a \<^verbatim>\<open>float64\<close> operation. The base
  transport is a function on the state \<open>'s\<close> of the network; the retry listener and the log are left
  out. A run also yields the list of attempts, each with the body it sent and the delay after it.
\<close>

type_synonym duration = int

definition Second :: duration where "Second = 1000000000"
definition Millisecond :: duration where "Millisecond = 1000000"

definition context_Canceled :: go_error where "context_Canceled = Err ''context canceled''"
definition context_DeadlineExceeded :: go_error where "context_DeadlineExceeded = Err ''context deadline exceeded''"
definition io_EOF :: go_error where "io_EOF = Err ''EOF''"
definition io_ErrUnexpectedEOF :: go_error where "io_ErrUnexpectedEOF = Err ''unexpected EOF''"

record rate_limit_info =
  ri_Limit :: int
  ri_Remaining :: int
  ri_Reset :: "int option"
  ri_ObservedAt :: int

record net_env =
  env_Now :: "nat \<Rightarrow> int"
  env_Sleep :: "nat \<Rightarrow> duration \<Rightarrow> go_error option"
  env_Wait :: "nat \<Rightarrow> go_error option"
  env_Float64 :: "nat \<Rightarrow> rat"
  env_fl :: "rat \<Rightarrow> rat"
  env_ParseTime :: "string \<Rightarrow> int option"
  env_netTimeout :: "go_error \<Rightarrow> bool option"     \<comment> \<open>\<^verbatim>\<open>errors.As(err, &netErr)\<close> and \<^verbatim>\<open>Timeout()\<close>\<close>
  env_isOpError :: "go_error \<Rightarrow> bool"

record transport_config =
  tc_RateLimitRPS :: rat
  tc_RateLimitBurst :: int
  tc_MaxRetries :: int
  tc_BaseBackoff :: duration
  tc_MaxBackoff :: duration
  tc_JitterRatio :: rat

record governor_transport =
  gt_limiter :: "(rat \<times> int) option"    \<comment> \<open>rate and burst\<close>
  gt_maxRetries :: int
  gt_baseBackoff :: duration
  gt_maxBackoff :: duration
  gt_jitterRatio :: rat
  gt_lastRateLimit :: "rate_limit_info option"
  gt_lastServerTime :: "int option"

definition DefaultGovernorTransportConfig :: transport_config where
  "DefaultGovernorTransportConfig =
     \<lparr>tc_RateLimitRPS = 30, tc_RateLimitBurst = 50, tc_MaxRetries = 3, tc_BaseBackoff = 500 * Millisecond,
      tc_MaxBackoff = 30 * Second, tc_JitterRatio = 1 / 10\<rparr>"

definition NewGovernorTransport :: "transport_config \<Rightarrow> governor_transport" where
  "NewGovernorTransport cfg =
     \<lparr>gt_limiter =
        (if tc_RateLimitRPS cfg > 0 then
           (let b = tc_RateLimitBurst cfg;
                b1 = (if b \<le> 0 then (let i = \<lfloor>tc_RateLimitRPS cfg\<rfloor> in if i \<le> 0 then 1 else i) else b)
            in Some (tc_RateLimitRPS cfg, b1))
         else None),
      gt_maxRetries = (if tc_MaxRetries cfg < 0 then 0 else tc_MaxRetries cfg),
      gt_baseBackoff = (if tc_BaseBackoff cfg \<le> 0 then 500 * Millisecond else tc_BaseBackoff cfg),
      gt_maxBackoff = (if tc_MaxBackoff cfg \<le> 0 then 30 * Second else tc_MaxBackoff cfg),
      gt_jitterRatio = (if tc_JitterRatio cfg \<le> 0 then 1 / 10 else tc_JitterRatio cfg),
      gt_lastRateLimit = None, gt_lastServerTime = None\<rparr>"

subsection \<open>Headers\<close>

definition ParseRateLimitReset :: "net_env \<Rightarrow> (string \<Rightarrow> string) \<Rightarrow> int option" where
  "ParseRateLimitReset env h =
     (let fallback = (if h ''RateLimit-ResetTime'' \<noteq> [] then env_ParseTime env (h ''RateLimit-ResetTime'') else None) in
      if h ''RateLimit-Reset'' = [] then fallback
      else case Atoi (h ''RateLimit-Reset'') of
        Some ts \<Rightarrow> if ts > 0 then (if ts > 100000000000 then Some (ts * Millisecond) else Some (ts * Second)) else fallback
      | None \<Rightarrow> fallback)"

definition ParseRateLimitHeaders :: "net_env \<Rightarrow> (string \<Rightarrow> string) \<Rightarrow> int \<Rightarrow> rate_limit_info option" where
  "ParseRateLimitHeaders env h now =
     (if h ''RateLimit-Limit'' = [] \<and> h ''RateLimit-Remaining'' = [] then None
      else Some \<lparr>ri_Limit = atoi_or 0 (h ''RateLimit-Limit''), ri_Remaining = atoi_or 0 (h ''RateLimit-Remaining''),
                 ri_Reset = ParseRateLimitReset env h, ri_ObservedAt = now\<rparr>)"

text \<open>
  \<^verbatim>\<open>time.Duration(seconds) * time.Second\<close> is a 64-bit product; \<^verbatim>\<open>t.Sub(now)\<close> saturates instead.
\<close>

definition time_Sub :: "int \<Rightarrow> int \<Rightarrow> duration" where
  "time_Sub t u = (let d = t - u in if d > 2 ^ 63 - 1 then 2 ^ 63 - 1 else if d < - (2 ^ 63) then - (2 ^ 63) else d)"

definition ParseRetryAfter :: "net_env \<Rightarrow> (string \<Rightarrow> string) \<Rightarrow> int \<Rightarrow> duration option" where
  "ParseRetryAfter env h now =
     (let val = h ''Retry-After''; as_date =
        (case env_ParseTime env val of None \<Rightarrow> None | Some t \<Rightarrow> Some (if t > now then time_Sub t now else 0))
      in if val = [] then None
         else case Atoi val of
           Some seconds \<Rightarrow> if seconds \<ge> 0 then Some (int64 (seconds * Second)) else as_date
         | None \<Rightarrow> as_date)"

subsection \<open>Retry decisions\<close>

definition isRetryableStatusCode :: "int \<Rightarrow> bool" where
  "isRetryableStatusCode code \<longleftrightarrow> code = 429 \<or> code = 500 \<or> code = 502 \<or> code = 503 \<or> code = 504"

definition isRetryableError :: "net_env \<Rightarrow> go_error option \<Rightarrow> bool" where
  "isRetryableError env err =
     (case err of
        None \<Rightarrow> False
      | Some e \<Rightarrow>
          if errors_Is e context_Canceled \<or> errors_Is e context_DeadlineExceeded then False
          else if env_netTimeout env e = Some True then True
          else if errors_Is e io_ErrUnexpectedEOF \<or> errors_Is e io_EOF then True
          else env_isOpError env e)"

text \<open>\<^verbatim>\<open>time.Duration(f)\<close> of a \<^verbatim>\<open>float64\<close> drops the fraction.\<close>

definition trunc :: "rat \<Rightarrow> int" where
  "trunc q = (if q < 0 then \<lceil>q\<rceil> else \<lfloor>q\<rfloor>)"

definition applyJitter :: "net_env \<Rightarrow> governor_transport \<Rightarrow> nat \<Rightarrow> duration \<Rightarrow> duration" where
  "applyJitter env t n d =
     (if d \<le> 0 then 0
      else if gt_jitterRatio t \<le> 0 then d
      else (let fl = env_fl env; fd = fl (of_int d);
                jitterRange = fl (fd * gt_jitterRatio t);
                offset = fl (fl (fl (env_Float64 env n * 2) - 1) * jitterRange);
                final = trunc (fl (fd + offset));
                final1 = (if final < 0 then 0 else final)
            in if final1 > gt_maxBackoff t then gt_maxBackoff t else final1))"

text \<open>\<^verbatim>\<open>1 << attempt\<close> in a 64-bit integer, capped at 1024, times the base backoff, capped at the maximum.\<close>

definition backoff_multiplier :: "nat \<Rightarrow> int" where
  "backoff_multiplier attempt = (let m = int64 (2 ^ attempt) in if m > 1024 then 1024 else m)"

definition exponential_delay :: "governor_transport \<Rightarrow> nat \<Rightarrow> duration" where
  "exponential_delay t attempt =
     (let d = int64 (gt_baseBackoff t * backoff_multiplier attempt) in if d > gt_maxBackoff t then gt_maxBackoff t else d)"

definition calculateDelay :: "net_env \<Rightarrow> governor_transport \<Rightarrow> nat \<Rightarrow> http_response option \<Rightarrow> duration" where
  "calculateDelay env t attempt resp =
     (let now = env_Now env attempt; jitter = applyJitter env t attempt;
          backoff = jitter (exponential_delay t attempt)
      in case resp of
           None \<Rightarrow> backoff
         | Some r \<Rightarrow>
             (case ParseRetryAfter env (hr_Header r) now of
                Some delay \<Rightarrow> jitter delay
              | None \<Rightarrow>
                  if hr_StatusCode r = 429 then
                    (case ParseRateLimitReset env (hr_Header r) of
                       Some reset \<Rightarrow> if reset > now then jitter (time_Sub reset now) else backoff
                     | None \<Rightarrow> backoff)
                  else backoff))"

subsection \<open>RoundTrip\<close>

text \<open>
  The body of a request is what reading it gives from where its reader stands; \<^verbatim>\<open>GetBody\<close> is what a
  call of it gives, \<open>None\<close> when the field is nil (\<^verbatim>\<open>net/http\<close> documents a new copy of the body at each
  call). \<open>base body s\<close> is one exchange: besides the response, the error and the new state of the
  network it yields what is left of the body, since an exchange reads and closes it; nothing is
  assumed of that rest.
\<close>

record http_request =
  rq_Body :: "string go_result option"
  rq_GetBody :: "string go_result option"

record attempt_log =
  al_body :: "string go_result option"
  al_delay :: "duration option"

type_synonym 's base_transport =
  "string go_result option \<Rightarrow> 's \<Rightarrow> (http_response option \<times> go_error option) \<times> string go_result \<times> 's"

text \<open>The request after an exchange: its reader has moved on; a nil body stays nil.\<close>

definition after_exchange :: "string go_result option \<Rightarrow> string go_result \<Rightarrow> http_request \<Rightarrow> http_request" where
  "after_exchange body rest req = req\<lparr>rq_Body := (if body = None then None else Some rest)\<rparr>"

definition updateServerTime :: "net_env \<Rightarrow> (string \<Rightarrow> string) \<Rightarrow> governor_transport \<Rightarrow> governor_transport" where
  "updateServerTime env h t =
     (if h ''Date'' = [] then t
      else case env_ParseTime env (h ''Date'') of None \<Rightarrow> t | Some p \<Rightarrow> t\<lparr>gt_lastServerTime := Some p\<rparr>)"

definition updateRateLimitInfo :: "net_env \<Rightarrow> nat \<Rightarrow> (string \<Rightarrow> string) \<Rightarrow> governor_transport \<Rightarrow> governor_transport" where
  "updateRateLimitInfo env n h t =
     (case ParseRateLimitHeaders env h (env_Now env n) of None \<Rightarrow> t | Some info \<Rightarrow> t\<lparr>gt_lastRateLimit := Some info\<rparr>)"

definition observe :: "net_env \<Rightarrow> nat \<Rightarrow> http_response option \<Rightarrow> go_error option \<Rightarrow> governor_transport \<Rightarrow> governor_transport" where
  "observe env n resp err t =
     (case resp of
        None \<Rightarrow> t
      | Some r \<Rightarrow>
          (let t1 = updateServerTime env (hr_Header r) t in
           if err = None then updateRateLimitInfo env n (hr_Header r) t1 else t1))"

definition should_retry :: "net_env \<Rightarrow> http_response option \<Rightarrow> go_error option \<Rightarrow> bool" where
  "should_retry env resp err =
     (case err of
        None \<Rightarrow> (case resp of Some r \<Rightarrow> isRetryableStatusCode (hr_StatusCode r) | None \<Rightarrow> False)
      | Some e \<Rightarrow> isRetryableError env (Some e))"

text \<open>
  Before an attempt: the token bucket may refuse, and a retry rewinds the body with \<^verbatim>\<open>GetBody\<close>, which
  may fail.
\<close>

definition attempt_error :: "net_env \<Rightarrow> nat \<Rightarrow> http_request \<Rightarrow> governor_transport \<Rightarrow> go_error option" where
  "attempt_error env n req t =
     (case (if gt_limiter t = None then None else env_Wait env n) of
        Some e \<Rightarrow> Some (Wrapf ''proactive rate limiter wait canceled'' e)
      | None \<Rightarrow>
          (case (if n > 0 then rq_GetBody req else None) of
             Some (Inl e) \<Rightarrow> Some (Wrapf (''failed to rewind request body for retry attempt '' @ fmt_d (int n)) e)
           | _ \<Rightarrow> None))"

definition sent_body :: "nat \<Rightarrow> http_request \<Rightarrow> string go_result option" where
  "sent_body n req = (if n > 0 \<and> rq_GetBody req \<noteq> None then rq_GetBody req else rq_Body req)"

text \<open>\<open>budget\<close> counts the retries that are still allowed; \<open>n\<close> is the attempt.\<close>

fun retry_loop ::
  "net_env \<Rightarrow> 's base_transport \<Rightarrow> nat \<Rightarrow> nat \<Rightarrow> http_request \<Rightarrow> governor_transport \<Rightarrow> 's \<Rightarrow> attempt_log list
   \<Rightarrow> (http_response option \<times> go_error option) \<times> governor_transport \<times> 's \<times> attempt_log list" where
  "retry_loop env base budget n req t s lg =
     (case attempt_error env n req t of
        Some e \<Rightarrow> ((None, Some e), t, s, lg)
      | None \<Rightarrow>
          (case base (sent_body n req) s of
             ((resp, err), rest, s') \<Rightarrow>
               (let body = sent_body n req; t' = observe env n resp err t in
                if \<not> should_retry env resp err
                then ((if err = None then resp else None, err), t', s', lg @ [\<lparr>al_body = body, al_delay = None\<rparr>])
                else (case budget of
                   0 \<Rightarrow>
                     ((if err = None then resp else None,
                       map_option (Wrapf (''request failed after '' @ fmt_d (gt_maxRetries t) @ '' retries'')) err),
                      t', s', lg @ [\<lparr>al_body = body, al_delay = None\<rparr>])
                 | Suc budget' \<Rightarrow>
                     (let delay = calculateDelay env t' n resp; lg' = lg @ [\<lparr>al_body = body, al_delay = Some delay\<rparr>] in
                      case env_Sleep env n delay of
                        Some e \<Rightarrow> ((None, Some (Wrapf ''context canceled during retry backoff'' e)), t', s', lg')
                      | None \<Rightarrow> retry_loop env base budget' (Suc n) (after_exchange body rest req) t' s' lg')))))"

declare retry_loop.simps [simp del]

definition RoundTrip ::
  "net_env \<Rightarrow> 's base_transport \<Rightarrow> http_request \<Rightarrow> governor_transport \<Rightarrow> 's
   \<Rightarrow> (http_response option \<times> go_error option) \<times> governor_transport \<times> 's \<times> attempt_log list" where
  "RoundTrip env base req t s =
     (case (rq_Body req, rq_GetBody req) of
        (Some (Inl e), None) \<Rightarrow> ((None, Some (Wrapf ''failed to buffer request body for retry support'' e)), t, s, [])
      | (Some (Inr bytes), None) \<Rightarrow>
          retry_loop env base (nat (gt_maxRetries t)) 0 (req\<lparr>rq_Body := Some (Inr bytes), rq_GetBody := Some (Inr bytes)\<rparr>) t s []
      | _ \<Rightarrow> retry_loop env base (nat (gt_maxRetries t)) 0 req t s [])"

subsection \<open>Lemmas\<close>

lemma observe_config [simp]:
  "gt_maxBackoff (observe env n resp err t) = gt_maxBackoff t" "gt_jitterRatio (observe env n resp err t) = gt_jitterRatio t"
  "gt_maxRetries (observe env n resp err t) = gt_maxRetries t" "gt_limiter (observe env n resp err t) = gt_limiter t"
  "gt_baseBackoff (observe env n resp err t) = gt_baseBackoff t"
  by (auto simp: observe_def updateServerTime_def updateRateLimitInfo_def Let_def split: option.splits)

lemma applyJitter_bounds:
  "0 < gt_jitterRatio t \<Longrightarrow> 0 < gt_maxBackoff t \<Longrightarrow> 0 \<le> applyJitter env t n d \<and> applyJitter env t n d \<le> gt_maxBackoff t"
  by (simp add: applyJitter_def Let_def)

lemma calculateDelay_jitter: "\<exists>d. calculateDelay env t n resp = applyJitter env t n d"
  by (auto simp: calculateDelay_def Let_def split: option.splits)

definition tuned :: "governor_transport \<Rightarrow> bool" where
  "tuned t \<longleftrightarrow> 0 < gt_jitterRatio t \<and> 0 < gt_maxBackoff t \<and> 0 < gt_baseBackoff t \<and> 0 \<le> gt_maxRetries t"

lemma tuned_New: "tuned (NewGovernorTransport cfg)"
  by (auto simp: tuned_def NewGovernorTransport_def Second_def Millisecond_def)

lemma tuned_observe [simp]: "tuned (observe env n resp err t) = tuned t"
  by (simp add: tuned_def)

lemma calculateDelay_bounds: "tuned t \<Longrightarrow> 0 \<le> calculateDelay env t n resp \<and> calculateDelay env t n resp \<le> gt_maxBackoff t"
  using calculateDelay_jitter [of env t n resp] applyJitter_bounds [of t env n] by (auto simp: tuned_def)

text \<open>What the loop keeps: the number of attempts, the body they send and the delays between them.\<close>

definition log_ok :: "governor_transport \<Rightarrow> string go_result option option \<Rightarrow> attempt_log list \<Rightarrow> bool" where
  "log_ok t b0 new \<longleftrightarrow>
     (\<forall>a \<in> set new. (case al_delay a of None \<Rightarrow> True | Some d \<Rightarrow> 0 \<le> d \<and> d \<le> gt_maxBackoff t)
        \<and> (\<forall>b. b0 = Some b \<longrightarrow> al_body a = b))"

lemma log_ok_Cons: "log_ok t b0 (a # as) \<longleftrightarrow> log_ok t b0 [a] \<and> log_ok t b0 as"
  by (simp add: log_ok_def)

text \<open>
  A request rewinds to the body \<open>b\<close>: \<^verbatim>\<open>GetBody\<close> gives it, and the reader itself stands at its start
  before the first exchange. Afterwards only \<^verbatim>\<open>GetBody\<close> counts.
\<close>

definition rewinds :: "nat \<Rightarrow> http_request \<Rightarrow> string go_result option \<Rightarrow> bool" where
  "rewinds n req b \<longleftrightarrow> rq_GetBody req = b \<and> (n = 0 \<or> b = None \<longrightarrow> rq_Body req = b)"

lemma rewinds_sent_body: "rewinds n req b \<Longrightarrow> sent_body n req = b"
  by (auto simp: rewinds_def sent_body_def)

lemma rewinds_after_exchange: "rewinds n req b \<Longrightarrow> rewinds (Suc n) (after_exchange b rest req) b"
  by (auto simp: rewinds_def after_exchange_def)

lemma retry_loop_log:
  assumes "retry_loop env base budget n req t s lg = (out, t', s', lg')" and "tuned t"
    and "\<And>b. b0 = Some b \<Longrightarrow> rewinds n req b"
  shows "\<exists>new. lg' = lg @ new \<and> length new \<le> Suc budget \<and> log_ok t b0 new"
  using assms
proof (induction budget arbitrary: n req t s lg rule: less_induct)
  case (less budget)
  show ?case
  proof (cases "attempt_error env n req t")
    case (Some e)
    then show ?thesis using less.prems(1) by (subst (asm) retry_loop.simps) (simp add: log_ok_def)
  next
    case None
    obtain r e rest s1 where base: "base (sent_body n req) s = ((r, e), rest, s1)" by (metis prod.collapse)
    let ?t1 = "observe env n r e t" and ?req = "after_exchange (sent_body n req) rest req"
    let ?delay = "calculateDelay env ?t1 n r"
    let ?entry = "\<lambda>d. \<lparr>al_body = sent_body n req, al_delay = d\<rparr>"
    note step = less.prems(1) [unfolded retry_loop.simps [of env base budget], unfolded None base option.case prod.case Let_def]
    have tuned: "tuned ?t1" using less.prems(2) by simp
    have delay: "0 \<le> ?delay \<and> ?delay \<le> gt_maxBackoff t" using calculateDelay_bounds [OF tuned] by simp
    have one: "log_ok t b0 [?entry None]" "log_ok t b0 [?entry (Some ?delay)]"
      using delay rewinds_sent_body [OF less.prems(3)] by (auto simp: log_ok_def)
    have rew: "\<And>b. b0 = Some b \<Longrightarrow> rewinds (Suc n) ?req b"
      using less.prems(3) by (simp add: rewinds_sent_body rewinds_after_exchange)
    show ?thesis
    proof (cases "should_retry env r e \<and> budget \<noteq> 0 \<and> env_Sleep env n ?delay = None")
      case False
      then show ?thesis using step one by (auto split: if_splits option.splits nat.splits)
    next
      case go: True
      then obtain b where b: "budget = Suc b" by (cases budget) auto
      then have "retry_loop env base b (Suc n) ?req ?t1 s1 (lg @ [?entry (Some ?delay)]) = (out, t', s', lg')"
        using step go by simp
      from less.IH [OF _ this tuned rew] b obtain new where new: "lg' = (lg @ [?entry (Some ?delay)]) @ new"
        "length new \<le> Suc b" "log_ok ?t1 b0 new" by auto
      have "log_ok t b0 new" using new(3) unfolding log_ok_def observe_config .
      then have "log_ok t b0 (?entry (Some ?delay) # new)" using one(2) by (simp add: log_ok_Cons [of t b0 _ new])
      then show ?thesis
        using new(1,2) b by (intro exI [of _ "?entry (Some ?delay) # new"]) simp
    qed
  qed
qed

text \<open>How a run ends: the last exchange was not retryable, or the retries are used up, or something was cancelled.\<close>

lemma retry_loop_result:
  assumes "retry_loop env base budget n req t s lg = ((Some r, err), t', s', lg')"
  shows "err = None \<and> (\<not> isRetryableStatusCode (hr_StatusCode r) \<or> length lg' = Suc (length lg + budget))"
  using assms
proof (induction budget arbitrary: n req t s lg rule: less_induct)
  case (less budget)
  show ?case
  proof (cases "attempt_error env n req t")
    case (Some e)
    then show ?thesis using less.prems(1) by (subst (asm) retry_loop.simps) simp
  next
    case None
    obtain r1 e rest s1 where base: "base (sent_body n req) s = ((r1, e), rest, s1)" by (metis prod.collapse)
    let ?t1 = "observe env n r1 e t" and ?req = "after_exchange (sent_body n req) rest req"
    let ?lg = "lg @ [\<lparr>al_body = sent_body n req, al_delay = Some (calculateDelay env ?t1 n r1)\<rparr>]"
    note step = less.prems(1) [unfolded retry_loop.simps [of env base budget], unfolded None base option.case prod.case Let_def]
    show ?thesis
    proof (cases "should_retry env r1 e \<and> budget \<noteq> 0")
      case False
      then show ?thesis using step by (auto simp: should_retry_def split: if_splits option.splits nat.splits)
    next
      case go: True
      then obtain b where b: "budget = Suc b" by (cases budget) auto
      then have "retry_loop env base b (Suc n) ?req ?t1 s1 ?lg = ((Some r, err), t', s', lg')"
        using step go by (simp split: option.splits)
      from less.IH [OF _ this] b show ?thesis by simp
    qed
  qed
qed

lemma RoundTrip_loop:
  assumes "RoundTrip env base req t s = (out, t', s', lg)" and "lg \<noteq> []"
  shows "\<exists>req'. retry_loop env base (nat (gt_maxRetries t)) 0 req' t s [] = (out, t', s', lg)
    \<and> (rq_GetBody req = None \<or> rq_GetBody req = rq_Body req \<longrightarrow> rewinds 0 req' (rq_Body req))"
  using assms by (auto simp: RoundTrip_def rewinds_def split: option.splits sum.splits)

subsection \<open>Properties\<close>

text \<open>
  Property C23. For every transport that \<^verbatim>\<open>NewGovernorTransport\<close> builds and every network, a round trip
  makes at most \<^verbatim>\<open>maxRetries + 1\<close> exchanges; every delay before a retry lies between zero and the
  maximal backoff, whatever the server's headers say and however floating point rounds; and when
  the request brings no \<^verbatim>\<open>GetBody\<close> of its own, or one that gives its body, every attempt sends the
  original body, although each exchange consumes the reader it was given.
\<close>

theorem RoundTrip_bounded:
  assumes "RoundTrip env base req (NewGovernorTransport cfg) s = (out, t', s', lg)"
  shows "length lg \<le> nat (tc_MaxRetries cfg) + 1
    \<and> list_all (\<lambda>a. case al_delay a of None \<Rightarrow> True | Some d \<Rightarrow> 0 \<le> d \<and> d \<le> gt_maxBackoff (NewGovernorTransport cfg)) lg
    \<and> (rq_GetBody req = None \<or> rq_GetBody req = rq_Body req \<longrightarrow> list_all (\<lambda>a. al_body a = rq_Body req) lg)"
proof (cases "lg = []")
  case False
  let ?t = "NewGovernorTransport cfg" and ?own = "rq_GetBody req = None \<or> rq_GetBody req = rq_Body req"
  obtain req' where loop: "retry_loop env base (nat (gt_maxRetries ?t)) 0 req' ?t s [] = (out, t', s', lg)"
    and req': "?own \<Longrightarrow> rewinds 0 req' (rq_Body req)" using RoundTrip_loop [OF assms False] by blast
  have "length lg \<le> Suc (nat (gt_maxRetries ?t)) \<and> log_ok ?t (if ?own then Some (rq_Body req) else None) lg"
  proof -
    have "\<And>b. (if ?own then Some (rq_Body req) else None) = Some b \<Longrightarrow> rewinds 0 req' b" using req' by (simp split: if_splits)
    from retry_loop_log [OF loop tuned_New this] show ?thesis by auto
  qed
  moreover have "nat (gt_maxRetries ?t) = nat (tc_MaxRetries cfg)" by (simp add: NewGovernorTransport_def)
  ultimately show ?thesis by (auto simp: log_ok_def list_all_iff)
qed simp

text \<open>
  A response is returned without error, and it is either a response that must not be
  retried or the one that exhausted all retries.
\<close>

theorem RoundTrip_final_response:
  assumes "RoundTrip env base req t s = ((Some r, err), t', s', lg)"
  shows "err = None \<and> (\<not> isRetryableStatusCode (hr_StatusCode r) \<or> length lg = nat (gt_maxRetries t) + 1)"
proof -
  have "\<exists>req'. retry_loop env base (nat (gt_maxRetries t)) 0 req' t s [] = ((Some r, err), t', s', lg)"
    using assms by (auto simp: RoundTrip_def split: option.splits sum.splits)
  then obtain req' where "retry_loop env base (nat (gt_maxRetries t)) 0 req' t s [] = ((Some r, err), t', s', lg)" by blast
  from retry_loop_result [OF this] show ?thesis by simp
qed

lemma int64_shift: "63 \<le> attempt \<Longrightarrow> int64 (2 ^ attempt) = - (2 ^ 63) \<or> int64 (2 ^ attempt) = 0"
proof (cases "attempt = 63")
  case False
  assume "63 \<le> attempt"
  with False obtain k where k: "attempt = 64 + k" using le_Suc_ex [of 64 attempt] by auto
  have "(2::int) ^ attempt mod 2 ^ 64 = 0" unfolding k power_add by simp
  then have "(2 ^ attempt + 2 ^ 63) mod 2 ^ 64 = (2 ^ 63 :: int) mod 2 ^ 64" by (metis add.left_neutral mod_add_left_eq)
  then show ?thesis by (simp add: int64_def)
qed (simp add: int64_def)

lemma int64_mult_min: "int64 (b * - (2 ^ 63)) \<le> 0"
proof -
  have "(b * - (2 ^ 63) + 2 ^ 63) mod 2 ^ 64 = ((1 - b) * 2 ^ 63) mod (2 * 2 ^ 63 :: int)" by (simp add: algebra_simps)
  also have "\<dots> = ((1 - b) mod 2) * 2 ^ 63" by (rule mod_mult_mult2)
  also have "\<dots> \<le> 2 ^ 63" by (simp add: mult_le_cancel_right1)
  finally show ?thesis by (simp add: int64_def)
qed

lemma exponential_delay_late:
  assumes "63 \<le> attempt" and "0 < gt_maxBackoff t"
  shows "exponential_delay t attempt \<le> 0"
proof -
  have "backoff_multiplier attempt = - (2 ^ 63) \<or> backoff_multiplier attempt = 0"
    using int64_shift [OF assms(1)] by (auto simp: backoff_multiplier_def Let_def)
  then have "int64 (gt_baseBackoff t * backoff_multiplier attempt) \<le> 0"
    using int64_mult_min [of "gt_baseBackoff t"] by (auto simp: int64_def)
  then show ?thesis using assms(2) by (simp add: exponential_delay_def Let_def)
qed

lemma backoff_multiplier_early:
  assumes "attempt < 63"
  shows "backoff_multiplier attempt = 2 ^ min attempt 10"
proof -
  have "(2::int) ^ attempt < 2 ^ 63" using assms by (intro power_strict_increasing) auto
  then have "int64 (2 ^ attempt) = 2 ^ attempt"
    by (intro int64_id) (auto simp: in_int64_def intro: order_trans [of _ "0"])
  moreover have "2 ^ attempt > (1024 :: int) \<longleftrightarrow> attempt > 10"
    using power_strict_increasing_iff [of "2::int" 10 attempt] by simp
  ultimately show ?thesis by (auto simp: backoff_multiplier_def Let_def min_def)
qed

text \<open>
  The exponential backoff breaks down at the width of the machine integer: for the first
  attempts it is the base backoff doubled per attempt and capped, but from attempt 63 on the
  shifted multiplier is negative or zero and the transport retries without any delay.
\<close>

theorem backoff_law:
  assumes "0 < gt_baseBackoff t" and "gt_baseBackoff t * 1024 < 2 ^ 63" and "0 < gt_maxBackoff t"
  shows "if attempt < 63 then exponential_delay t attempt = min (gt_maxBackoff t) (gt_baseBackoff t * 2 ^ min attempt 10)
    else calculateDelay env t attempt None = 0"
proof (cases "attempt < 63")
  case True
  have "(2::int) ^ min attempt 10 \<le> 2 ^ 10" by (intro power_increasing) auto
  then have "gt_baseBackoff t * 2 ^ min attempt 10 \<le> gt_baseBackoff t * 1024"
    using assms(1) by (intro mult_left_mono) auto
  then have "gt_baseBackoff t * 2 ^ min attempt 10 < 2 ^ 63" using assms(2) by (rule le_less_trans)
  moreover have "0 \<le> gt_baseBackoff t * 2 ^ min attempt 10" using assms(1) by simp
  ultimately have "int64 (gt_baseBackoff t * 2 ^ min attempt 10) = gt_baseBackoff t * 2 ^ min attempt 10"
    by (intro int64_id) (simp add: in_int64_def)
  then show ?thesis using True by (simp add: exponential_delay_def backoff_multiplier_early Let_def min_def)
next
  case False
  then show ?thesis
    using exponential_delay_late [of attempt t] assms(3) by (simp add: calculateDelay_def applyJitter_def Let_def)
qed

lemma le_trunc: "of_int m \<le> q \<Longrightarrow> 0 < m \<Longrightarrow> m \<le> trunc q"
  by (auto simp: trunc_def le_floor_iff intro: order_trans)

text \<open>
  A \<^verbatim>\<open>Retry-After\<close> beyond the maximal backoff is not honoured: with exact arithmetic and a
  jitter ratio of at most one half, a demand of at least twice the maximum is cut down to the
  maximum; and a demand whose nanoseconds overflow 64 bits to a negative number is no delay at all.
\<close>

theorem retry_after_not_honoured:
  assumes "ParseRetryAfter env (hr_Header r) (env_Now env n) = Some d" and "tuned t"
    and "env_fl env = id" and "gt_jitterRatio t \<le> 1 / 2" and "0 \<le> env_Float64 env n" and "env_Float64 env n \<le> 1"
  shows "(2 * gt_maxBackoff t \<le> d \<longrightarrow> calculateDelay env t n (Some r) = gt_maxBackoff t)
    \<and> (d < 0 \<longrightarrow> calculateDelay env t n (Some r) = 0)"
proof -
  have eq: "calculateDelay env t n (Some r) = applyJitter env t n d" using assms(1) by (simp add: calculateDelay_def Let_def)
  have "applyJitter env t n d = gt_maxBackoff t" if big: "2 * gt_maxBackoff t \<le> d"
  proof -
    let ?u = "env_Float64 env n" and ?j = "gt_jitterRatio t" and ?x = "of_int d :: rat"
    have j: "0 < ?j" and m: "0 < gt_maxBackoff t" using assms(2) by (auto simp: tuned_def)
    have d: "0 < d" using big m by simp
    have "0 \<le> ?u * (?x * ?j)" using assms(5) j d by simp
    then have "- (?x * ?j) \<le> (?u * 2 - 1) * (?x * ?j)" by (simp add: algebra_simps)
    moreover have "?x * ?j \<le> ?x * (1 / 2)" using assms(4) d by (intro mult_left_mono) auto
    ultimately have "?x / 2 \<le> ?x + (?u * 2 - 1) * (?x * ?j)" by linarith
    moreover have "of_int (gt_maxBackoff t) \<le> ?x / 2"
    proof -
      have "of_int (2 * gt_maxBackoff t) \<le> ?x" using big by (simp only: of_int_le_iff)
      then show ?thesis by simp
    qed
    ultimately have q: "of_int (gt_maxBackoff t) \<le> ?x + (?u * 2 - 1) * (?x * ?j)" by (rule order_trans [rotated])
    then have "gt_maxBackoff t \<le> trunc (?x + (?u * 2 - 1) * (?x * ?j))" using m by (rule le_trunc)
    then show ?thesis using d j m by (auto simp: applyJitter_def assms(3) Let_def)
  qed
  then show ?thesis by (simp add: eq) (simp add: applyJitter_def)
qed

subsection \<open>Witnesses\<close>

definition ex_net :: net_env where
  "ex_net =
     \<lparr>env_Now = (\<lambda>_. 0), env_Sleep = (\<lambda>_ _. None), env_Wait = (\<lambda>_. None), env_Float64 = (\<lambda>_. 1 / 4), env_fl = id,
      env_ParseTime = (\<lambda>_. None), env_netTimeout = (\<lambda>_. None), env_isOpError = (\<lambda>_. False)\<rparr>"

definition ex_flaky :: "nat base_transport" where
  "ex_flaky body s =
     ((Some \<lparr>hr_StatusCode = (if s < 2 then 503 else 200),
             hr_Header = (\<lambda>k. if k = ''Retry-After'' then ''120'' else [])\<rparr>, None), Inr [], Suc s)"

definition ex_request :: http_request where
  "ex_request = \<lparr>rq_Body = Some (Inr ''payload''), rq_GetBody = None\<rparr>"

lemma ex_round_trip:
  "\<exists>out t' s'. RoundTrip ex_net ex_flaky ex_request (NewGovernorTransport DefaultGovernorTransportConfig) 0 =
    (out, t', s', [\<lparr>al_body = Some (Inr ''payload''), al_delay = Some 30000000000\<rparr>,
       \<lparr>al_body = Some (Inr ''payload''), al_delay = Some 30000000000\<rparr>, \<lparr>al_body = Some (Inr ''payload''), al_delay = None\<rparr>])"
proof -
  have "snd (snd (snd (RoundTrip ex_net ex_flaky ex_request (NewGovernorTransport DefaultGovernorTransportConfig) 0))) =
    [\<lparr>al_body = Some (Inr ''payload''), al_delay = Some 30000000000\<rparr>,
       \<lparr>al_body = Some (Inr ''payload''), al_delay = Some 30000000000\<rparr>, \<lparr>al_body = Some (Inr ''payload''), al_delay = None\<rparr>]"
    by code_simp
  then show ?thesis by (metis prod.collapse)
qed

theorem RoundTrip_bounded_witness:
  "let lg = snd (snd (snd (RoundTrip ex_net ex_flaky ex_request (NewGovernorTransport DefaultGovernorTransportConfig) 0)))
   in length lg = 3 \<and> length lg \<le> 4 \<and> list_all (\<lambda>a. al_body a = Some (Inr ''payload'')) lg"
proof -
  obtain out t' s' lg where r: "RoundTrip ex_net ex_flaky ex_request (NewGovernorTransport DefaultGovernorTransportConfig) 0 = (out, t', s', lg)"
    by (metis prod.collapse)
  have "tc_MaxRetries DefaultGovernorTransportConfig = 3" by (simp add: DefaultGovernorTransportConfig_def)
  moreover have "rq_GetBody ex_request = None" "rq_Body ex_request = Some (Inr ''payload'')" by (simp_all add: ex_request_def)
  moreover have "length lg = 3" using ex_round_trip r by auto
  ultimately show ?thesis using RoundTrip_bounded [OF r] by (simp add: r)
qed

theorem RoundTrip_final_response_witness:
  "\<exists>r. fst (fst (RoundTrip ex_net ex_flaky ex_request (NewGovernorTransport DefaultGovernorTransportConfig) 0)) = Some r
    \<and> (\<not> isRetryableStatusCode (hr_StatusCode r) \<or> length (snd (snd (snd
        (RoundTrip ex_net ex_flaky ex_request (NewGovernorTransport DefaultGovernorTransportConfig) 0)))) = 4)"
proof -
  let ?o = "RoundTrip ex_net ex_flaky ex_request (NewGovernorTransport DefaultGovernorTransportConfig) 0"
  have "\<not> Option.is_none (fst (fst ?o))" by code_simp
  then obtain r where r: "fst (fst ?o) = Some r" by (auto simp: Option.is_none_def)
  obtain err t' s' lg where o: "?o = ((Some r, err), t', s', lg)" using r by (metis prod.collapse)
  have "gt_maxRetries (NewGovernorTransport DefaultGovernorTransportConfig) = 3"
    by (simp add: DefaultGovernorTransportConfig_def NewGovernorTransport_def)
  then show ?thesis using RoundTrip_final_response [OF o] by (simp add: o)
qed

theorem backoff_law_witness:
  "exponential_delay (NewGovernorTransport DefaultGovernorTransportConfig) 3 = 4000000000
   \<and> calculateDelay ex_net (NewGovernorTransport DefaultGovernorTransportConfig) 63 None = 0"
  using backoff_law [of "NewGovernorTransport DefaultGovernorTransportConfig" 3 ex_net]
    backoff_law [of "NewGovernorTransport DefaultGovernorTransportConfig" 63 ex_net]
  by (simp add: NewGovernorTransport_def DefaultGovernorTransportConfig_def Second_def Millisecond_def)

theorem retry_after_not_honoured_witness:
  "calculateDelay ex_net (NewGovernorTransport DefaultGovernorTransportConfig) 0
     (Some \<lparr>hr_StatusCode = 503, hr_Header = (\<lambda>k. if k = ''Retry-After'' then ''120'' else [])\<rparr>) = 30 * Second"
proof -
  let ?r = "\<lparr>hr_StatusCode = 503, hr_Header = (\<lambda>k. if k = ''Retry-After'' then ''120'' else [])\<rparr> :: http_response"
  have p: "ParseRetryAfter ex_net (hr_Header ?r) (env_Now ex_net 0) = Some 120000000000" by code_simp
  show ?thesis
    using retry_after_not_honoured [OF p tuned_New [of DefaultGovernorTransportConfig]]
    by (simp add: ex_net_def NewGovernorTransport_def DefaultGovernorTransportConfig_def Second_def)
qed

end
