(* ===== verification/Spec2Isabelle.thy ===== *)
theory Spec2Isabelle
  imports Default_Registry Validator Rate_Limit
begin

text \<open>
  GitLab Fleet Governor: a verification development.

  \<^bold>\<open>The program.\<close> A policy file declares how the projects and groups of a GitLab instance are to be set
  up. One run (\<^verbatim>\<open>internal/engine\<close>) loads the policy (\<^verbatim>\<open>internal/config\<close>), discovers the fleet it selects
  (\<^verbatim>\<open>internal/discovery\<close>) over a paginated and rate-limited API (\<^verbatim>\<open>internal/gitlab\<close>), checks the licence
  (\<^verbatim>\<open>internal/license\<close>), and lets a bounded worker pool run fifteen reconcilers
  (\<^verbatim>\<open>internal/governance\<close>) on every project and group, in one fixed order, either planning (a dry run) or
  applying. \<^verbatim>\<open>internal/testutil/mockserver\<close> is the GitLab instance the repository tests itself against; here
  it is the state on which the reconcilers are shown to do what they promise.

  \<^bold>\<open>Theories, from the bottom up.\<close>
  \<^item> \<open>Go_Base\<close>: the prelude. Errors with their wrapped text, byte strings and the functions of
    \<^verbatim>\<open>strings\<close>, \<^verbatim>\<open>fmt\<close> and \<^verbatim>\<open>strconv\<close> that the sources call, Go maps as association lists with their
    iteration order, slices, 64-bit integers where they may overflow, and the lemma collections.
    \<open>Path_Match\<close> is \<^verbatim>\<open>path.Match\<close>.
  \<^item> Configuration. \<open>Config_Model\<close>: the structs of \<^verbatim>\<open>config/model.go\<close> and their defaults. \<open>Env_Subst\<close>:
    \<^verbatim>\<open>config/envsubst.go\<close>. \<open>Config_Loader\<close>: \<^verbatim>\<open>loader.go\<close>, \<^verbatim>\<open>s3.go\<close>, \<^verbatim>\<open>unmarshal.go\<close> and the four stages of
    \<^verbatim>\<open>config.go\<close>. \<open>Validator\<close>: \<^verbatim>\<open>validator.go\<close>, and \<open>well_formed\<close>, what it decides.
  \<^item> The remote instance. \<open>Gitlab_Api\<close>, \<open>Gitlab_Services\<close>, \<open>Gitlab_Resources\<close>, \<open>Gitlab_Client\<close>: the
    interfaces of \<^verbatim>\<open>gitlab/interfaces.go\<close> as records of functions over a state. \<open>Paged_Listing\<close> and
    \<open>Pagination\<close>: page and keyset listings of both sides. \<open>Rate_Limit\<close>: the retrying transport of
    \<^verbatim>\<open>gitlab/ratelimit.go\<close>. \<open>Mock_State\<close>, \<open>Mock_Server\<close>, \<open>Mock_Resources\<close>, \<open>Mock_Facts\<close>: \<^verbatim>\<open>state.go\<close> and
    the handlers of \<^verbatim>\<open>router.go\<close> as an implementation of those records, and what they do.
  \<^item> Discovery. \<open>Group_Tree\<close> (\<^verbatim>\<open>grouptree.go\<close>), \<open>Project_Filter\<close> (\<^verbatim>\<open>projectfilter.go\<close>), \<open>Discovery\<close>
    (\<^verbatim>\<open>discovery.go\<close>, the concurrent scans under an explicit schedule).
  \<^item> Reconcilers. \<open>Diff_Model\<close> (\<^verbatim>\<open>diff.go\<close>, \<^verbatim>\<open>operation.go\<close>), \<open>Reconciler\<close> (the shape of their methods and
    the contract \<open>settled\<close>), \<open>Rule_Loop\<close> (the loop over declared rules), \<open>Resolver\<close> (the caching resolver
    of names), and one theory each for \<open>Project_Reconcilers\<close> (settings and pipeline retention),
    \<open>Target_Branch_Rules\<close>, \<open>Protected_Branches\<close>, \<open>Push_Rules\<close>, \<open>Compliance\<close>, \<open>Variables\<close>, \<open>Members\<close>,
    \<open>Webhooks\<close>, \<open>Runners\<close>, \<open>Protected_Tags\<close>, \<open>Protected_Environments\<close>, \<open>Approval_Rules\<close>,
    \<open>Branch_Merges\<close> and \<open>Repository_Files\<close>, after the file of the same name.
  \<^item> The run. \<open>Registry\<close> (\<^verbatim>\<open>registry.go\<close>), \<open>Worker_Pool\<close> (\<^verbatim>\<open>workerpool.go\<close>), \<open>License\<close>
    (\<^verbatim>\<open>internal/license\<close>, \<^verbatim>\<open>pkg/version\<close>), \<open>Metrics\<close> (\<^verbatim>\<open>metrics.go\<close> and the results of \<^verbatim>\<open>engine.go\<close>),
    \<open>Engine\<close> (\<^verbatim>\<open>engine.go\<close>), and \<open>Default_Registry\<close>, which puts the fifteen reconcilers together.

  \<^bold>\<open>Conventions.\<close> A definition has the name of the function it models; helpers for a part of a function
  are in lower case. A Go method with a receiver that changes returns the new value. A result with an
  error is \<open>go_result\<close>, \<open>Inl\<close> being the error; a pair of a result and an error that are both used stays a pair.
  A nil pointer is \<open>None\<close>. A call to the remote instance takes its state and returns the next one; a
  reconciler that resolves names takes the pair of its cache and the remote state. Strings are lists
  of bytes; where the source turns one into runes (\<^verbatim>\<open>envsubst.go\<close>), \<open>to_runes\<close> of \<open>Env_Subst\<close> replaces what is not
  UTF-8. Iteration over a map is over its association list in any order, or a parameter where it
  changes the outcome.

  \<^bold>\<open>What is shown.\<close>
  \<^item> Loading: a policy that \<open>Load\<close> returns with validation on is well formed; validation accepts exactly the well-formed
    policies, which are not those of \<^verbatim>\<open>docs/schema.json\<close> (\<open>Validate_departs_from_schema\<close>); expansion inverts
    escaping and ends circular references with the depth error.
  \<^item> Discovery: the traversal of any group graph ends and finds exactly the reachable groups; the
    scans find the same projects, groups and counters in every interleaving (and the same entries, unless
    targeted groups share a project); the filter is equivalent to its criteria; streams yield every
    project once; a round trip makes boundedly many attempts and sends the whole body in each, although
    every exchange consumes the reader it is given.
  \<^item> Pool, registry and engine: no task is lost or run twice, workers are never stuck after closing,
    operations run in one order and stop at the first error, licences gate every mutation, metrics add up,
    and a successful run has one result for every group and project of its fleet.
  \<^item> Reconcilers: on the mock server, applying a policy succeeds and leaves what it declares, planning
    again finds nothing, and what the policy does not mention stays. Target branch rules refine an
    abstract list in evaluation order. Plans of variables do not depend on secrets, beyond whether a live
    value equals the declared one. Conformance is specified on its own, field by field, and
    the code's comparison is shown to decide it. The limits of these statements are hypotheses: the hooks
    and approval rules of one page, names that resolve, approval counts that are named, files whose whole content is declared.
  \<^item> Composition: a dry run of the whole program changes nothing on the mock server (\<open>Default_Registry\<close>).
    The contract is the locale \<open>planning_keeps\<close> of \<open>Registry\<close>, its client the engine, and its
    interpretation the registry of all reconcilers.
  \<^item> Defects: where the code does not do what it means to, a theorem exhibits it (failed targets that
    leave the results, environment tokens of a repository that are expanded and published, a rule that a
    second run undoes, a protection that is lost when it cannot be created again).

  \<^bold>\<open>Bounds and termination.\<close> Page loops are \<open>partial_function\<close>s, \<open>None\<close> being a listing that never ends;
  the theorems about them show that they return. The traversal and the expansion loop terminate by a
  measure. Expansion counts its depth limit of 32 down from 33; a run that uses it up is an error of
  the source as well. Scans and the pool run under schedules, lists of events of any length; the results hold for
  every schedule, and one exists that completes. Durations, retry counts and identifiers are integers,
  with the 64-bit wrap written out where the source shifts, multiplies or parses.

  \<^bold>\<open>Parameters.\<close> \<^verbatim>\<open>regexp\<close>, \<^verbatim>\<open>net/url\<close>, the YAML decoder, the licence verifier \<^verbatim>\<open>license-go\<close>, the operating
  system, S3, the clock, jitter, transport outcomes, the iteration order of a map and the schedule of
  goroutines are arguments. Where a theorem relies on one of them, the assumption is in its statement.

  \<^bold>\<open>Not modelled.\<close> The rendering of reports, spreadsheets, exports and audits, mail, the command line,
  the Lambda handler and logging are output and process glue. The wrappers of \<^verbatim>\<open>gitlab/client.go\<close> around
  the SDK only forward calls; the mock server is modelled behind them, without its HTTP layer, its injected
  faults and the resources no reconciler uses. Its maps keep one iteration order between requests, and a
  hook has no secret token, which the server never shows. A task of the pool is one step, so the calls
  of two tasks do not interleave. Release provenance is a cryptographic check, whose verdict
  is a field. The locks of the resolver and the accumulators guard single accesses; methods run one after the
  other. Wall-clock fields of results are left out. Letters and spaces beyond ASCII are not told apart from
  other bytes by \<^verbatim>\<open>ToLower\<close>, \<^verbatim>\<open>TrimSpace\<close> and the names of variables.
\<close>

section \<open>Properties that span components\<close>

text \<open>
  Property C21. A validated file stays in the repository: for every file of a policy that passes validation, where the declared
  path has no white space around it, the path that the reconciler commits has no segment of two dots.
\<close>

theorem validated_file_stays_inside:
  assumes "Validate compile parse_uri (Some cfg) = None" and "f \<in> set (pol_RepositoryFiles (cfg_Policies cfg))"
    and "TrimSpace (rf_Path f) = rf_Path f"
  shows "''..'' \<notin> set (Split (file_path f) CHR ''/'')"
  unfolding file_path_def using assms by (rule validated_path_stays_inside)

theorem validated_file_stays_inside_witness:
  "''..'' \<notin> set (Split (file_path (escaping_file\<lparr>rf_Path := ''docs/../SECURITY.md''\<rparr>)) CHR ''/'')"
proof (rule validated_file_stays_inside [OF example_validated])
  show "escaping_file\<lparr>rf_Path := ''docs/../SECURITY.md''\<rparr> \<in> set (pol_RepositoryFiles (cfg_Policies example_validated))"
    by (simp add: example_validated_def)
  show "TrimSpace (rf_Path (escaping_file\<lparr>rf_Path := ''docs/../SECURITY.md''\<rparr>)) = rf_Path (escaping_file\<lparr>rf_Path := ''docs/../SECURITY.md''\<rparr>)"
    by code_simp
qed

text \<open>
  From loading to discovery: a policy that \<^verbatim>\<open>Load\<close> returns with validation on always has a project filter, so
  no expression of it fails to compile during discovery.
\<close>

theorem loaded_policy_has_filter:
  assumes "Load decode (validation_stage fmt_float (re_Compile env) parse_uri) False l path = (Inr cfg, desc)"
  shows "\<exists>pf. NewProjectFilter env (ts_ProjectSelector (cfg_Targets cfg)) = Inr pf"
proof (rule validated_filter_compiles)
  show "Validate (re_Compile env) parse_uri (Some cfg) = None"
    using assms by (auto simp: Load_def load_stages_Inr validation_stage_def split: prod.splits sum.splits)
qed

end
